(* ===== verification/Prelude.thy ===== *)
theory Prelude
  imports Main "HOL-Library.Sublist"
begin

text \<open>
  The shared prelude: Go strings, times, results and the list operations that the
  components of the agent have in common, with the generic lemmas about them, and the
  notion of a reachable state that every state machine of the development uses.

  A Go string is a sequence of bytes, here a \<^typ>\<open>string\<close>; a \<open>time.Time\<close> is the
  number of nanoseconds since the Unix epoch, in UTC, an \<^typ>\<open>int\<close>; Go's \<open>int\<close> and
  \<open>int64\<close> are \<^typ>\<open>int\<close>, with \<open>add64\<close> where an addition could leave the 64 bits.
\<close>

named_theorems reg_simps \<open>unfolding the device registry's operations\<close>
named_theorems up_simps \<open>unfolding the upload store's operations\<close>
named_theorems inv_intro \<open>operations preserve the invariant of their component\<close>

section \<open>Times, integers, results\<close>

type_synonym gotime = int
type_synonym duration = int

abbreviation second :: duration where "second \<equiv> 1000000000"
abbreviation minute :: duration where "minute \<equiv> 60 * second"
abbreviation hour :: duration where "hour \<equiv> 60 * minute"

text \<open>The zero \<open>time.Time\<close> is the first of January of the year 1.\<close>

definition zero_time :: gotime where
  "zero_time = - 62135596800 * second"

definition is_zero :: "gotime \<Rightarrow> bool" where
  "is_zero t \<longleftrightarrow> t = zero_time"

text \<open>\<open>time.Time.Unix\<close>: whole seconds, rounded towards minus infinity.\<close>

definition unix_seconds :: "gotime \<Rightarrow> int" where
  "unix_seconds t = t div second"

definition from_unix :: "int \<Rightarrow> gotime" where
  "from_unix n = n * second"

text \<open>The sum of two \<open>int64\<close> values wraps around.\<close>

definition add64 :: "int \<Rightarrow> int \<Rightarrow> int" where
  "add64 a b = signed_take_bit 63 (a + b)"

lemma add64_exact: "- (2 ^ 63) \<le> a + b \<Longrightarrow> a + b < 2 ^ 63 \<Longrightarrow> add64 a b = a + b"
  by (simp add: add64_def signed_take_bit_int_eq_self)

type_synonym ('e, 'a) result = "'e + 'a"

definition is_ok :: "('e, 'a) result \<Rightarrow> bool" where
  "is_ok r \<longleftrightarrow> (case r of Inl _ \<Rightarrow> False | Inr _ \<Rightarrow> True)"

lemma is_ok_simps [simp]: "is_ok (Inr a)" "\<not> is_ok (Inl e)"
  by (simp_all add: is_ok_def)

lemma is_ok_iff: "is_ok r \<longleftrightarrow> (\<exists>a. r = Inr a)"
  by (cases r) simp_all

section \<open>Bytes of a file\<close>

definition nul :: char where "nul = CHR 0x00"

definition truncate_at :: "nat \<Rightarrow> string \<Rightarrow> string" where
  "truncate_at n b = take n b @ replicate (n - length b) nul"

definition write_at :: "nat \<Rightarrow> string \<Rightarrow> string \<Rightarrow> string" where
  "write_at off data b = truncate_at off b @ data @ drop (off + length data) b"

section \<open>Strings\<close>

text \<open>
  \<open>strings.TrimSpace\<close> removes the leading and trailing runes for which \<open>unicode.IsSpace\<close>
  holds. On bytes these are the UTF-8 encodings below; UTF-8 is self-synchronising, so
  stripping encodings byte-wise is stripping runes.
\<close>

definition space_encodings :: "string list" where
  "space_encodings =
     [[CHR 0x09], [CHR 0x0A], [CHR 0x0B], [CHR 0x0C], [CHR 0x0D], [CHR 0x20],
      [CHR 0xC2, CHR 0x85], [CHR 0xC2, CHR 0xA0], [CHR 0xE1, CHR 0x9A, CHR 0x80]]
     @ map (\<lambda>b. [CHR 0xE2, CHR 0x80, b])
         [CHR 0x80, CHR 0x81, CHR 0x82, CHR 0x83, CHR 0x84, CHR 0x85, CHR 0x86, CHR 0x87,
          CHR 0x88, CHR 0x89, CHR 0x8A, CHR 0xA8, CHR 0xA9, CHR 0xAF]
     @ [[CHR 0xE2, CHR 0x81, CHR 0x9F], [CHR 0xE3, CHR 0x80, CHR 0x80]]"

fun prefixb :: "'a list \<Rightarrow> 'a list \<Rightarrow> bool" where
  "prefixb [] ys = True"
| "prefixb (x # xs) [] = False"
| "prefixb (x # xs) (y # ys) = (x = y \<and> prefixb xs ys)"

lemma prefixb_prefix: "prefixb xs ys \<longleftrightarrow> prefix xs ys"
  by (induction xs ys rule: prefixb.induct) auto

definition lead :: "string list \<Rightarrow> string \<Rightarrow> nat" where
  "lead ps s = (case find (\<lambda>p. prefixb p s) ps of None \<Rightarrow> 0 | Some p \<Rightarrow> length p)"

function strip :: "string list \<Rightarrow> string \<Rightarrow> string" where
  "strip ps s = (if lead ps s = 0 \<or> s = [] then s else strip ps (drop (lead ps s) s))"
  by pat_completeness auto
termination
  by (relation "measure (\<lambda>(ps, s). length s)") auto

declare strip.simps [simp del]

definition trim_space :: "string \<Rightarrow> string" where
  "trim_space s = rev (strip (map rev space_encodings) (rev (strip space_encodings s)))"

definition clean :: "string list \<Rightarrow> string \<Rightarrow> bool" where
  "clean ps s \<longleftrightarrow> lead ps s = 0"

lemma lead_pos: "lead ps s \<noteq> 0 \<longleftrightarrow> (\<exists>p. find (\<lambda>p. prefixb p s) ps = Some p \<and> p \<noteq> [])"
  by (auto simp: lead_def split: option.splits)

lemma clean_iff:
  assumes "[] \<notin> set ps"
  shows "clean ps s \<longleftrightarrow> (\<forall>p\<in>set ps. \<not> prefix p s)"
proof
  assume c: "clean ps s"
  show "\<forall>p\<in>set ps. \<not> prefix p s"
  proof (cases "find (\<lambda>p. prefixb p s) ps")
    case None
    then show ?thesis by (simp add: find_None_iff prefixb_prefix)
  next
    case (Some p)
    then have "p \<in> set ps" by (auto simp: find_Some_iff)
    with assms have "p \<noteq> []" by blast
    with Some c show ?thesis by (simp add: clean_def lead_def)
  qed
next
  assume "\<forall>p\<in>set ps. \<not> prefix p s"
  then have "find (\<lambda>p. prefixb p s) ps = None"
    by (simp add: find_None_iff prefixb_prefix)
  then show "clean ps s" by (simp add: clean_def lead_def)
qed

lemma strip_clean: "clean ps (strip ps s) \<or> strip ps s = []"
proof (induction ps s rule: strip.induct)
  case (1 ps s)
  then show ?case by (subst (1 2) strip.simps) (auto simp: clean_def)
qed

lemma strip_id: "clean ps s \<Longrightarrow> strip ps s = s"
  by (simp add: strip.simps clean_def)

lemma strip_Nil [simp]: "strip ps [] = []"
  by (simp add: strip.simps)

lemma strip_suffix: "suffix (strip ps s) s"
proof (induction ps s rule: strip.induct)
  case (1 ps s)
  show ?case
  proof (cases "lead ps s = 0 \<or> s = []")
    case True
    then show ?thesis by (simp add: strip.simps)
  next
    case False
    then have "suffix (strip ps (drop (lead ps s) s)) (drop (lead ps s) s)"
      using "1.IH" by blast
    also have "suffix (drop (lead ps s) s) s" by (rule suffix_drop)
    finally show ?thesis using False by (subst strip.simps) auto
  qed
qed

lemma clean_Nil: "[] \<notin> set ps \<Longrightarrow> clean ps []"
  by (auto simp: clean_iff)

lemma clean_prefix: "[] \<notin> set ps \<Longrightarrow> clean ps s \<Longrightarrow> prefix t s \<Longrightarrow> clean ps t"
  by (auto simp: clean_iff intro: prefix_order.trans)

lemma space_encodings_nonempty [simp]:
  "[] \<notin> set space_encodings" "[] \<notin> rev ` set space_encodings"
  by (auto simp: space_encodings_def)

lemma strip_clean': "[] \<notin> set ps \<Longrightarrow> clean ps (strip ps s)"
  using strip_clean [of ps s] by (auto simp: clean_Nil)

definition trimmed :: "string \<Rightarrow> bool" where
  "trimmed s \<longleftrightarrow> clean space_encodings s \<and> clean (map rev space_encodings) (rev s)"

lemma trim_space_id: "trimmed s \<Longrightarrow> trim_space s = s"
  by (simp add: trimmed_def trim_space_def strip_id)

lemma trimmed_trim_space [simp]: "trimmed (trim_space s)"
proof -
  let ?u = "strip space_encodings s"
  let ?r = "strip (map rev space_encodings) (rev ?u)"
  have "suffix ?r (rev ?u)" by (rule strip_suffix)
  then have "prefix (rev ?r) ?u" by (simp add: suffix_to_prefix)
  moreover have "clean space_encodings ?u" by (simp add: strip_clean')
  ultimately have "clean space_encodings (rev ?r)"
    by (metis clean_prefix space_encodings_nonempty(1))
  moreover have "clean (map rev space_encodings) ?r" by (simp add: strip_clean')
  ultimately show ?thesis by (simp add: trimmed_def trim_space_def)
qed

lemma trim_space_idem [simp]: "trim_space (trim_space s) = trim_space s"
  by (rule trim_space_id) simp

lemma trim_space_Nil [simp]: "trim_space [] = []"
  by (simp add: trim_space_def)

lemma set_trim_space: "set (trim_space s) \<subseteq> set s"
  unfolding trim_space_def using strip_suffix set_mono_suffix
  by (metis set_rev subset_trans)

text \<open>Text made of printable ASCII characters, blanks excluded, has nothing to trim.\<close>

definition graphic :: "char \<Rightarrow> bool" where
  "graphic c \<longleftrightarrow> 0x20 < (of_char c :: nat) \<and> (of_char c :: nat) < 0x80"

lemma space_encodings_not_graphic:
  "list_all (\<lambda>p. p \<noteq> [] \<and> \<not> graphic (hd p) \<and> \<not> graphic (last p)) space_encodings"
  by code_simp

lemma prefix_hd: "prefix p s \<Longrightarrow> p \<noteq> [] \<Longrightarrow> hd p \<in> set s"
  by (auto simp: prefix_def)

lemma graphic_trimmed:
  assumes "\<forall>c\<in>set s. graphic c"
  shows "trimmed s"
proof -
  have 1: "\<not> prefix p s" if "p \<in> set space_encodings" for p
    using that space_encodings_not_graphic assms prefix_hd [of p s] by (auto simp: list_all_iff)
  have 2: "\<not> prefix (rev p) (rev s)" if "p \<in> set space_encodings" for p
    using that space_encodings_not_graphic assms prefix_hd [of "rev p" "rev s"]
    by (auto simp: list_all_iff hd_rev)
  show ?thesis using 1 2 by (simp add: trimmed_def clean_iff)
qed

text \<open>
  \<open>strings.ToLower\<close>. The agent compares its results with ASCII words only, so besides
  the ASCII letters the model maps the two other runes whose lower case is ASCII
  (U+0130 and U+212A) and leaves every other byte as it is.
\<close>

definition lower_char :: "char \<Rightarrow> char" where
  "lower_char c =
     (let n = of_char c :: nat in if 65 \<le> n \<and> n \<le> 90 then char_of (n + 32) else c)"

function to_lower :: "string \<Rightarrow> string" where
  "to_lower [] = []"
| "to_lower (c # cs) =
     (if c = CHR 0xC4 \<and> take 1 cs = [CHR 0xB0] then CHR ''i'' # to_lower (drop 1 cs)
      else if c = CHR 0xE2 \<and> take 2 cs = [CHR 0x84, CHR 0xAA] then CHR ''k'' # to_lower (drop 2 cs)
      else lower_char c # to_lower cs)"
  by pat_completeness auto
termination
  by (relation "measure length") auto

text \<open>\<open>strings.HasPrefix\<close>, \<open>HasSuffix\<close>, \<open>Contains\<close> and \<open>Split\<close> at one byte.\<close>

definition has_prefix :: "string \<Rightarrow> string \<Rightarrow> bool" where
  "has_prefix s p = prefixb p s"

definition has_suffix :: "string \<Rightarrow> string \<Rightarrow> bool" where
  "has_suffix s p = prefixb (rev p) (rev s)"

fun split_on :: "char \<Rightarrow> string \<Rightarrow> string list" where
  "split_on c [] = [[]]"
| "split_on c (x # xs) =
     (if x = c then [] # split_on c xs
      else (case split_on c xs of [] \<Rightarrow> [[x]] | w # ws \<Rightarrow> (x # w) # ws))"

fun join_with :: "string \<Rightarrow> string list \<Rightarrow> string" where
  "join_with sep [] = []"
| "join_with sep [w] = w"
| "join_with sep (w # v # ws) = w @ sep @ join_with sep (v # ws)"

lemma split_on_nonempty [simp]: "split_on c s \<noteq> []"
  by (induction s) (auto split: list.splits)

lemma split_on_free: "w \<in> set (split_on c s) \<Longrightarrow> c \<notin> set w"
  by (induction s arbitrary: w) (auto split: list.splits if_splits)

lemma split_on_none: "c \<notin> set s \<Longrightarrow> split_on c s = [s]"
  by (induction s) auto

lemma split_on_append: "c \<notin> set s \<Longrightarrow> split_on c (s @ c # t) = s # split_on c t"
  by (induction s) auto

lemma split_join:
  "ws \<noteq> [] \<Longrightarrow> \<forall>w\<in>set ws. c \<notin> set w \<Longrightarrow> split_on c (join_with [c] ws) = ws"
  by (induction "[c]" ws rule: join_with.induct) (auto simp: split_on_none split_on_append)

lemma join_split: "join_with [c] (split_on c s) = s"
proof (induction s)
  case Nil
  then show ?case by simp
next
  case (Cons x xs)
  obtain w ws where "split_on c xs = w # ws" by (cases "split_on c xs") auto
  with Cons show ?case by (cases ws) auto
qed

text \<open>\<open>strings.TrimRight\<close> with a cut set of one character.\<close>

definition trim_right :: "char \<Rightarrow> string \<Rightarrow> string" where
  "trim_right c s = rev (dropWhile (\<lambda>x. x = c) (rev s))"

text \<open>Decimal numbers: \<open>strconv.Itoa\<close> of a natural number, \<open>%d\<close> and \<open>%0*d\<close> of \<open>fmt\<close>.\<close>

definition digit_char :: "nat \<Rightarrow> char" where
  "digit_char n = char_of (48 + n)"

definition is_digit :: "char \<Rightarrow> bool" where
  "is_digit c \<longleftrightarrow> 48 \<le> (of_char c :: nat) \<and> (of_char c :: nat) \<le> 57"

fun decimal :: "nat \<Rightarrow> string" where
  "decimal n = (if n < 10 then [digit_char n] else decimal (n div 10) @ [digit_char (n mod 10)])"

declare decimal.simps [simp del]

definition pad_zero :: "nat \<Rightarrow> string \<Rightarrow> string" where
  "pad_zero w s = replicate (w - length s) (CHR ''0'') @ s"

lemma digit_char_is_digit: "n < 10 \<Longrightarrow> is_digit (digit_char n)"
  by (simp add: is_digit_def digit_char_def)

lemma decimal_digits: "\<forall>c\<in>set (decimal n). is_digit c"
proof (induction n rule: decimal.induct)
  case (1 n)
  then show ?case by (subst decimal.simps) (auto simp: digit_char_is_digit)
qed

lemma length_decimal: "0 < k \<Longrightarrow> n < 10 ^ k \<Longrightarrow> length (decimal n) \<le> k"
proof (induction n arbitrary: k rule: decimal.induct)
  case (1 n)
  show ?case
  proof (cases "n < 10")
    case True
    with 1 show ?thesis by (simp add: decimal.simps)
  next
    case False
    from "1.prems" obtain j where k: "k = Suc j" by (cases k) auto
    with "1.prems" False have "0 < j" by (cases j) auto
    from "1.prems" k have "n div 10 < 10 ^ j" by (simp add: less_mult_imp_div_less mult.commute)
    with "1.IH" False \<open>0 < j\<close> have "length (decimal (n div 10)) \<le> j" by simp
    with False k show ?thesis by (subst decimal.simps) simp
  qed
qed

lemma pad_zero_digits: "\<forall>c\<in>set s. is_digit c \<Longrightarrow> \<forall>c\<in>set (pad_zero w s). is_digit c"
  by (auto simp: pad_zero_def is_digit_def)

lemma length_pad_zero: "length s \<le> w \<Longrightarrow> length (pad_zero w s) = w"
  by (simp add: pad_zero_def)

lemma is_digit_graphic: "is_digit c \<Longrightarrow> graphic c"
  by (simp add: is_digit_def graphic_def)

section \<open>Results that thread a state\<close>

text \<open>
  How the code goes on after a call: an error is returned at once, with the state that the
  failing call left; otherwise the rest runs on the result.
\<close>

definition andThen ::
    "('e + 'a) \<times> 's \<Rightarrow> ('a \<Rightarrow> 's \<Rightarrow> ('e + 'b) \<times> 's) \<Rightarrow> ('e + 'b) \<times> 's" where
  "andThen r f = (case r of (Inl e, s) \<Rightarrow> (Inl e, s) | (Inr a, s) \<Rightarrow> f a s)"

lemma andThen_simps [simp]:
  "andThen (Inl e, s) f = (Inl e, s)" "andThen (Inr a, s) f = f a s"
  by (simp_all add: andThen_def)

lemma andThen_Inr: "andThen r f = (Inr b, t) \<longleftrightarrow> (\<exists>a s. r = (Inr a, s) \<and> f a s = (Inr b, t))"
  by (auto simp: andThen_def split: prod.splits sum.splits)

lemma andThen_cases [case_names fails returns]:
  assumes "\<And>e s. r = (Inl e, s) \<Longrightarrow> P (Inl e, s)" and "\<And>a s. r = (Inr a, s) \<Longrightarrow> P (f a s)"
  shows "P (andThen r f)"
  using assms by (cases r; cases "fst r") auto

section \<open>Lists addressed by position\<close>

text \<open>The first position whose element satisfies a predicate: Go's loop with \<open>break\<close>.\<close>

fun find_index :: "('a \<Rightarrow> bool) \<Rightarrow> 'a list \<Rightarrow> nat option" where
  "find_index P [] = None"
| "find_index P (x # xs) = (if P x then Some 0 else map_option Suc (find_index P xs))"

lemma find_index_None: "find_index P xs = None \<longleftrightarrow> (\<forall>x\<in>set xs. \<not> P x)"
  by (induction xs) auto

lemma find_index_Some:
  "find_index P xs = Some i \<Longrightarrow> i < length xs \<and> P (xs ! i) \<and> (\<forall>j<i. \<not> P (xs ! j))"
proof (induction xs arbitrary: i)
  case (Cons x xs)
  show ?case
  proof (cases "P x")
    case False
    with Cons.prems obtain k where "find_index P xs = Some k" "i = Suc k" by auto
    with Cons.IH [of k] False show ?thesis by (auto simp: less_Suc_eq_0_disj)
  qed (use Cons.prems in auto)
qed simp

lemma find_index_SomeD [dest]:
  assumes "find_index P xs = Some i"
  shows "i < length xs" and "P (xs ! i)"
  using find_index_Some [OF assms] by auto

lemma find_index_distinct:
  "i < length xs \<Longrightarrow> P (xs ! i) \<Longrightarrow> (\<And>j. j < length xs \<Longrightarrow> P (xs ! j) \<Longrightarrow> j = i) \<Longrightarrow>
   find_index P xs = Some i"
  by (metis find_index_None find_index_Some not_None_eq nth_mem)

lemma find_index_only:
  assumes "i < length xs" and "\<forall>j<length xs. j \<noteq> i \<longrightarrow> \<not> P (xs ! j)"
  shows "find_index P xs = (if P (xs ! i) then Some i else None)"
proof (cases "P (xs ! i)")
  case True
  with assms show ?thesis by (simp, intro find_index_distinct) auto
next
  case False
  with assms(2) have "\<forall>x\<in>set xs. \<not> P x" by (metis in_set_conv_nth)
  with False show ?thesis by (simp add: find_index_None)
qed

definition remove_at :: "nat \<Rightarrow> 'a list \<Rightarrow> 'a list" where
  "remove_at i xs = take i xs @ drop (Suc i) xs"

lemma length_remove_at: "i < length xs \<Longrightarrow> length (remove_at i xs) = length xs - 1"
  by (simp add: remove_at_def)

lemma set_remove_at: "set (remove_at i xs) \<subseteq> set xs"
  by (auto simp: remove_at_def dest: in_set_takeD in_set_dropD)

lemma map_remove_at: "map f (remove_at i xs) = remove_at i (map f xs)"
  by (simp add: remove_at_def take_map drop_map)

lemma distinct_remove_at: "distinct xs \<Longrightarrow> distinct (remove_at i xs)"
  by (simp add: remove_at_def set_take_disj_set_drop_if_distinct)

lemma remove_at_notin:
  assumes "distinct xs" and "i < length xs"
  shows "xs ! i \<notin> set (remove_at i xs)"
proof -
  have "distinct (take i xs @ xs ! i # drop (Suc i) xs)"
    using assms by (simp flip: id_take_nth_drop)
  then show ?thesis by (simp add: remove_at_def)
qed

lemma in_remove_at_iff:
  assumes "i < length xs"
  shows "set xs = insert (xs ! i) (set (remove_at i xs))"
proof -
  have "set xs = set (take i xs @ xs ! i # drop (Suc i) xs)"
    using assms by (simp flip: id_take_nth_drop)
  then show ?thesis by (simp add: remove_at_def)
qed

lemma map_update_same: "i < length xs \<Longrightarrow> f y = f (xs ! i) \<Longrightarrow> map f (xs[i := y]) = map f xs"
  by (rule nth_equalityI) (auto simp: nth_list_update)

section \<open>Reachable states\<close>

text \<open>
  The states a machine can reach: the least set with the initial states and closed under
  steps. Every component's invariant is lifted by the locale \<open>machine\<close>.
\<close>

inductive reach :: "('s \<Rightarrow> bool) \<Rightarrow> ('s \<Rightarrow> 's \<Rightarrow> bool) \<Rightarrow> 's \<Rightarrow> bool" for I S where
  start: "I s \<Longrightarrow> reach I S s"
| step: "reach I S s \<Longrightarrow> S s t \<Longrightarrow> reach I S t"

locale machine =
  fixes init :: "'s \<Rightarrow> bool" and step :: "'s \<Rightarrow> 's \<Rightarrow> bool" and inv :: "'s \<Rightarrow> bool"
  assumes inv_init: "init s \<Longrightarrow> inv s"
    and inv_step: "inv s \<Longrightarrow> step s t \<Longrightarrow> inv t"
begin

lemma inv_reach: "reach init step s \<Longrightarrow> inv s"
  by (induction rule: reach.induct) (auto intro: inv_init inv_step)

lemma inv_steps: "step\<^sup>*\<^sup>* s t \<Longrightarrow> inv s \<Longrightarrow> inv t"
  by (induction rule: rtranclp_induct) (auto intro: inv_step)

end

end
