(* ===== verification/Atomicfile.thy ===== *)
theory Atomicfile
  imports Prelude
begin

text \<open>
  \<open>internal/atomicfile/write.go\<close>: replacing a file by writing a temporary file in the same
  directory and renaming it. Every system call of \<open>WriteFile\<close> is a step that can fail;
  the \<open>fault\<close> argument names the step that does. The directory is reduced to the target
  and the temporary file of this call; a crash is a run that stops after some steps.
\<close>

datatype write_step =
  CreateTemp | ChmodTemp | WriteTemp | SyncTemp | CloseTemp | RenameTemp | OpenDir | SyncDir

record 'a dir =
  target :: "'a option"
  temp :: "'a option option"

text \<open>A temporary file is there (\<open>Some\<close>) with its content, \<open>Some None\<close> while unwritten.\<close>

fun write_effect :: "'a \<Rightarrow> write_step \<Rightarrow> 'a dir \<Rightarrow> 'a dir" where
  "write_effect raw CreateTemp d = d\<lparr>temp := Some None\<rparr>"
| "write_effect raw WriteTemp d = d\<lparr>temp := Some (Some raw)\<rparr>"
| "write_effect raw RenameTemp d = d\<lparr>target := (case temp d of Some c \<Rightarrow> c | None \<Rightarrow> target d), temp := None\<rparr>"
| "write_effect raw st d = d"

definition write_steps :: "write_step list" where
  "write_steps = [CreateTemp, ChmodTemp, WriteTemp, SyncTemp, CloseTemp, RenameTemp, OpenDir, SyncDir]"

fun run_steps :: "'a \<Rightarrow> write_step option \<Rightarrow> write_step list \<Rightarrow> 'a dir \<Rightarrow> bool \<times> 'a dir" where
  "run_steps raw fault [] d = (True, d)"
| "run_steps raw fault (st # sts) d =
     (if fault = Some st then (False, d) else run_steps raw fault sts (write_effect raw st d))"

text \<open>The deferred removal of the temporary file runs unless the rename succeeded.\<close>

definition writeFile :: "'a \<Rightarrow> write_step option \<Rightarrow> 'a dir \<Rightarrow> bool \<times> 'a dir" where
  "writeFile raw fault d =
     (let (ok, d') = run_steps raw fault write_steps d;
          cleanup = (fault \<in> Some ` {ChmodTemp, WriteTemp, SyncTemp, CloseTemp, RenameTemp})
      in (ok, if cleanup then d'\<lparr>temp := None\<rparr> else d'))"

text \<open>The faults after which the target has been replaced nevertheless.\<close>

definition replaces :: "write_step option \<Rightarrow> bool" where
  "replaces fault \<longleftrightarrow> fault \<in> {None, Some OpenDir, Some SyncDir}"

lemma writeFile_eq:
  assumes "temp d = None"
  shows "writeFile raw fault d =
    (fault = None, if replaces fault then d\<lparr>target := Some raw\<rparr> else d)"
proof (cases fault)
  case None
  with assms show ?thesis
    by (cases d) (simp add: writeFile_def write_steps_def replaces_def)
next
  case (Some st)
  with assms show ?thesis
    by (cases st; cases d) (simp_all add: writeFile_def write_steps_def replaces_def)
qed

text \<open>A crash after any number of steps leaves the old content or the complete new one.\<close>

definition crash_after :: "nat \<Rightarrow> 'a \<Rightarrow> 'a dir \<Rightarrow> 'a dir" where
  "crash_after n raw d = snd (run_steps raw None (take n write_steps) d)"

lemma write_steps_take: "take n write_steps \<in> set (map (\<lambda>k. take k write_steps) [0..<9])"
proof (cases "n < 9")
  case False
  then have "take n write_steps = take 8 write_steps" by (simp add: write_steps_def)
  then show ?thesis by auto
qed auto

lemma crash_target: "target (crash_after n raw d) = target d \<or> target (crash_after n raw d) = Some raw"
  using write_steps_take [of n]
  by (auto simp: crash_after_def write_steps_def upt_rec numeral_eq_Suc)

section \<open>The contract of an atomic writer\<close>

locale atomic_file =
  fixes wr :: "'a \<Rightarrow> 'f \<Rightarrow> 'a dir \<Rightarrow> bool \<times> 'a dir"
  assumes old_or_new: "temp d = None \<Longrightarrow>
      target (snd (wr raw f d)) = target d \<or> target (snd (wr raw f d)) = Some raw"
    and success: "temp d = None \<Longrightarrow> fst (wr raw f d) \<Longrightarrow> target (snd (wr raw f d)) = Some raw"
    and no_litter: "temp d = None \<Longrightarrow> temp (snd (wr raw f d)) = None"
begin

lemma keeps_property:
  assumes "temp d = None" and "pred_option P (target d)" and "P raw"
  shows "pred_option P (target (snd (wr raw f d)))"
  using old_or_new [OF assms(1), of raw f] assms(2,3) by auto

end

interpretation af: atomic_file writeFile
  by unfold_locales (auto simp: writeFile_eq replaces_def)


end
