(* ===== verification/Codec.thy ===== *)
theory Codec
  imports Prelude
begin

text \<open>
  The text encodings of Go's standard library that the agent uses for its random
  identifiers, keys, hashes and tokens: \<open>encoding/hex\<close>, and \<open>encoding/base64\<close> without
  padding over the standard and the URL alphabet. The decoders are as lenient as Go's:
  hexadecimal digits of either case, carriage returns and newlines skipped in base64,
  and the unused low bits of the last digit ignored.
\<close>

section \<open>The contract of a codec\<close>

locale codec =
  fixes enc :: "string \<Rightarrow> string" and dec :: "string \<Rightarrow> string option" and alphabet :: "char set"
  assumes dec_enc: "dec (enc s) = Some s"
    and enc_alphabet: "set (enc s) \<subseteq> alphabet"
    and alphabet_graphic: "c \<in> alphabet \<Longrightarrow> graphic c"
begin

lemma enc_inj: "enc s = enc t \<longleftrightarrow> s = t"
  using dec_enc by (metis option.inject)

lemma enc_trim: "trim_space (enc s) = enc s"
  using enc_alphabet alphabet_graphic by (blast intro: trim_space_id graphic_trimmed)

lemma enc_avoids: "c \<notin> alphabet \<Longrightarrow> c \<notin> set (enc s)"
  using enc_alphabet by blast

end

section \<open>Hexadecimal\<close>

definition hex_digits :: string where
  "hex_digits = ''0123456789abcdef''"

fun hex_encode :: "string \<Rightarrow> string" where
  "hex_encode [] = []"
| "hex_encode (c # cs) =
     hex_digits ! (of_char c div 16) # hex_digits ! (of_char c mod 16) # hex_encode cs"

text \<open>\<open>hex.DecodeString\<close> reads an upper-case digit as its lower-case twin.\<close>

definition hex_value :: "char \<Rightarrow> nat option" where
  "hex_value c = find_index (\<lambda>d. d = lower_char c) hex_digits"

fun hex_decode :: "string \<Rightarrow> string option" where
  "hex_decode [] = Some []"
| "hex_decode [_] = None"
| "hex_decode (a # b # cs) =
     (case (hex_value a, hex_value b, hex_decode cs) of
        (Some x, Some y, Some r) \<Rightarrow> Some (char_of (x * 16 + y) # r)
      | _ \<Rightarrow> None)"

lemma hex_digit_value: "i < 16 \<Longrightarrow> hex_value (hex_digits ! i) = Some i"
proof -
  have "list_all (\<lambda>i. hex_value (hex_digits ! i) = Some i) [0..<16]" by code_simp
  then show "i < 16 \<Longrightarrow> ?thesis" by (simp add: list_all_iff)
qed

lemma hex_decode_encode [simp]: "hex_decode (hex_encode s) = Some s"
proof (induction s)
  case (Cons c cs)
  have d: "(of_char c :: nat) div 16 < 16"
    using nat_of_char_less_256 [of c] by linarith
  have m: "(of_char c :: nat) mod 16 < 16" by simp
  show ?case
    by (simp only: hex_encode.simps hex_decode.simps hex_digit_value [OF d] hex_digit_value [OF m]
        Cons.IH prod.case option.case div_mult_mod_eq char_of_char)
qed simp

lemma char_div_16: "(of_char c :: nat) div 16 < 16"
  using nat_of_char_less_256 [of c] by linarith

lemma length_hex_digits [simp]: "length hex_digits = 16"
  by code_simp

lemma hex_encode_set: "set (hex_encode s) \<subseteq> set hex_digits"
proof (induction s)
  case (Cons c cs)
  have "(of_char c :: nat) div 16 < length hex_digits"
    using char_div_16 [of c] by simp
  moreover have "(of_char c :: nat) mod 16 < length hex_digits" by simp
  ultimately show ?case using Cons by simp
qed simp

lemma length_hex_encode [simp]: "length (hex_encode s) = 2 * length s"
  by (induction s) auto

interpretation hex: codec hex_encode hex_decode "set hex_digits"
proof
  show "hex_decode (hex_encode s) = Some s" for s by simp
  show "set (hex_encode s) \<subseteq> set hex_digits" for s by (rule hex_encode_set)
  have "list_all graphic hex_digits" by code_simp
  then show "c \<in> set hex_digits \<Longrightarrow> graphic c" for c by (simp add: list_all_iff)
qed

section \<open>Base64 without padding\<close>

definition b64_common :: string where
  "b64_common =
     ''ABCDEFGHIJKLMNOPQRSTUVWXYZabcdefghijklmnopqrstuvwxyz0123456789''"

definition std_alphabet :: string where "std_alphabet = b64_common @ ''+/''"
definition url_alphabet :: string where "url_alphabet = b64_common @ ''-_''"

fun sextets :: "nat list \<Rightarrow> nat list" where
  "sextets [] = []"
| "sextets [a] = [a div 4, a mod 4 * 16]"
| "sextets [a, b] = [a div 4, a mod 4 * 16 + b div 16, b mod 16 * 4]"
| "sextets (a # b # c # r) =
     [a div 4, a mod 4 * 16 + b div 16, b mod 16 * 4 + c div 64, c mod 64] @ sextets r"

fun octets :: "nat list \<Rightarrow> nat list option" where
  "octets [] = Some []"
| "octets [w] = None"
| "octets [w, x] = Some [w * 4 + x div 16]"
| "octets [w, x, y] = Some [w * 4 + x div 16, x mod 16 * 16 + y div 4]"
| "octets (w # x # y # z # r) =
     map_option (\<lambda>bs. [w * 4 + x div 16, x mod 16 * 16 + y div 4, y mod 4 * 64 + z] @ bs)
       (octets r)"

definition b64_encode :: "string \<Rightarrow> string \<Rightarrow> string" where
  "b64_encode al s = map (\<lambda>i. al ! i) (sextets (map of_char s))"

fun all_some :: "'a option list \<Rightarrow> 'a list option" where
  "all_some [] = Some []"
| "all_some (None # xs) = None"
| "all_some (Some x # xs) = map_option (\<lambda>ys. x # ys) (all_some xs)"

definition b64_decode :: "string \<Rightarrow> string \<Rightarrow> string option" where
  "b64_decode al s =
     (case all_some (map (\<lambda>c. find_index (\<lambda>d. d = c) al)
             (filter (\<lambda>c. c \<noteq> CHR 0x0D \<and> c \<noteq> CHR 0x0A) s)) of
        None \<Rightarrow> None
      | Some vs \<Rightarrow> map_option (map char_of) (octets vs))"

lemma join_low: "x < 16 \<Longrightarrow> (k * 16 + x) mod 16 = (x :: nat)" "x < 16 \<Longrightarrow> (k * 16 + x) div 16 = (k :: nat)"
  by simp_all

lemma join_low4: "x < 4 \<Longrightarrow> (k * 4 + x) mod 4 = (x :: nat)" "x < 4 \<Longrightarrow> (k * 4 + x) div 4 = (k :: nat)"
  by simp_all

lemma sextet_join1: "b < 256 \<Longrightarrow> a div 4 * 4 + (a mod 4 * 16 + b div 16) div 16 = (a :: nat)"
  by (subst join_low) (simp_all add: less_mult_imp_div_less)

lemma sextet_join2:
  "b < 256 \<Longrightarrow> c < 256 \<Longrightarrow>
   (a mod 4 * 16 + b div 16) mod 16 * 16 + (b mod 16 * 4 + c div 64) div 4 = (b :: nat)"
  by (subst join_low, simp add: less_mult_imp_div_less, subst join_low4)
    (simp_all add: less_mult_imp_div_less)

lemma sextet_join3: "c < 256 \<Longrightarrow> (b mod 16 * 4 + c div 64) mod 4 * 64 + c mod 64 = (c :: nat)"
  by (subst join_low4) (simp_all add: less_mult_imp_div_less)

lemmas sextet_joins = sextet_join1 sextet_join2 sextet_join3

lemma octets_sextets: "\<forall>b\<in>set bs. b < 256 \<Longrightarrow> octets (sextets bs) = Some bs"
proof (induction bs rule: sextets.induct)
  case (2 a)
  show ?case using sextet_join1 [of 0 a] by simp
next
  case (3 a b)
  then show ?case using sextet_join1 [of b a] sextet_join2 [of b 0 a] by simp
next
  case (4 a b c r)
  then show ?case using sextet_join1 [of b a] sextet_join2 [of b c a] sextet_join3 [of c b] by simp
qed simp

lemma sextet_bounds:
  "a < 256 \<Longrightarrow> a div 4 < (64 :: nat)" "b < 256 \<Longrightarrow> a mod 4 * 16 + b div 16 < (64 :: nat)"
  "c < 256 \<Longrightarrow> b mod 16 * 4 + c div 64 < (64 :: nat)"
proof -
  show "a < 256 \<Longrightarrow> a div 4 < (64 :: nat)" by linarith
  show "a mod 4 * 16 + b div 16 < (64 :: nat)" if "b < 256"
  proof -
    have "a mod 4 < 4" by simp
    moreover have "b div 16 < 16" using that by linarith
    ultimately show ?thesis by linarith
  qed
  show "b mod 16 * 4 + c div 64 < (64 :: nat)" if "c < 256"
  proof -
    have "b mod 16 < 16" by simp
    moreover have "c div 64 < 4" using that by linarith
    ultimately show ?thesis by linarith
  qed
qed

lemma sextets_bound: "\<forall>b\<in>set bs. b < 256 \<Longrightarrow> \<forall>x\<in>set (sextets bs). x < 64"
proof (induction bs rule: sextets.induct)
  case (2 a)
  then show ?case using sextet_bounds(1) [of a] sextet_bounds(2) [of 0 a] by simp
next
  case (3 a b)
  then show ?case
    using sextet_bounds(1) [of a] sextet_bounds(2) [of b a] sextet_bounds(3) [of 0 b] by simp
next
  case (4 a b c r)
  then show ?case
    using sextet_bounds(1) [of a] sextet_bounds(2) [of b a] sextet_bounds(3) [of c b] by simp
qed simp

lemma all_some_map: "\<forall>x\<in>set xs. f x = Some (g x) \<Longrightarrow> all_some (map f xs) = Some (map g xs)"
  by (induction xs) auto

lemma find_index_nth: "distinct al \<Longrightarrow> i < length al \<Longrightarrow> find_index (\<lambda>d. d = al ! i) al = Some i"
  by (rule find_index_distinct) (auto simp: nth_eq_iff_index_eq)

lemma b64_decode_encode:
  assumes "distinct al" and "length al = 64" and "CHR 0x0D \<notin> set al" and "CHR 0x0A \<notin> set al"
  shows "b64_decode al (b64_encode al s) = Some s"
proof -
  let ?ss = "sextets (map of_char s) :: nat list"
  have b: "\<forall>b\<in>set (map of_char s :: nat list). b < 256" by auto
  have in64: "\<forall>x\<in>set ?ss. x < 64" by (rule sextets_bound [OF b])
  then have al: "\<forall>x\<in>set ?ss. al ! x \<in> set al" using assms(2) by simp
  have "filter (\<lambda>c. c \<noteq> CHR 0x0D \<and> c \<noteq> CHR 0x0A) (b64_encode al s) = b64_encode al s"
    unfolding b64_encode_def filter_id_conv using al assms(3,4) by auto
  moreover have "map (\<lambda>c. find_index (\<lambda>d. d = c) al) (b64_encode al s) = map Some ?ss"
    using in64 assms(1,2) by (simp add: b64_encode_def find_index_nth)
  moreover have "all_some (map Some ?ss) = Some ?ss"
    using all_some_map [of ?ss Some id] by simp
  ultimately show ?thesis
    using octets_sextets [OF b] by (simp add: b64_decode_def o_def)
qed

lemma b64_encode_set: "length al = 64 \<Longrightarrow> set (b64_encode al s) \<subseteq> set al"
proof -
  assume "length al = 64"
  moreover have "\<forall>x\<in>set (sextets (map of_char s) :: nat list). x < 64"
    by (rule sextets_bound) auto
  ultimately show ?thesis by (auto simp: b64_encode_def)
qed

definition raw_std_encode :: "string \<Rightarrow> string" where "raw_std_encode = b64_encode std_alphabet"
definition raw_std_decode :: "string \<Rightarrow> string option" where "raw_std_decode = b64_decode std_alphabet"
definition raw_url_encode :: "string \<Rightarrow> string" where "raw_url_encode = b64_encode url_alphabet"
definition raw_url_decode :: "string \<Rightarrow> string option" where "raw_url_decode = b64_decode url_alphabet"

definition good_alphabet :: "string \<Rightarrow> bool" where
  "good_alphabet al \<longleftrightarrow> distinct al \<and> length al = 64 \<and> list_all graphic al"

lemma good_alphabets [simp]: "good_alphabet std_alphabet" "good_alphabet url_alphabet"
  by code_simp+

lemma good_alphabet_codec:
  assumes "good_alphabet al"
  shows "codec (b64_encode al) (b64_decode al) (set al)"
proof
  have g: "\<forall>c\<in>set al. graphic c" using assms by (simp add: good_alphabet_def list_all_iff)
  then have "CHR 0x0D \<notin> set al" "CHR 0x0A \<notin> set al" by (auto simp: graphic_def)
  then show "b64_decode al (b64_encode al s) = Some s" for s
    using assms by (intro b64_decode_encode) (auto simp: good_alphabet_def)
  show "set (b64_encode al s) \<subseteq> set al" for s
    using assms by (intro b64_encode_set) (simp add: good_alphabet_def)
  show "c \<in> set al \<Longrightarrow> graphic c" for c using g by blast
qed

interpretation rawstd: codec raw_std_encode raw_std_decode "set std_alphabet"
  unfolding raw_std_encode_def raw_std_decode_def by (rule good_alphabet_codec) simp

interpretation rawurl: codec raw_url_encode raw_url_decode "set url_alphabet"
  unfolding raw_url_encode_def raw_url_decode_def by (rule good_alphabet_codec) simp

lemma no_dot_in_url: "CHR ''.'' \<notin> set url_alphabet"
  by code_simp

lemma encode_Nil_iff [simp]: "raw_std_encode s = [] \<longleftrightarrow> s = []" "raw_url_encode s = [] \<longleftrightarrow> s = []"
  using rawstd.enc_inj [of s "[]"] rawurl.enc_inj [of s "[]"]
  by (simp_all add: raw_std_encode_def raw_url_encode_def b64_encode_def)

section \<open>Randomness\<close>

text \<open>
  One call of \<open>rand.Read\<close> for a buffer of the given size: the bytes it filled in, or
  \<open>None\<close> when the system's source failed. Every operation that draws random values takes
  its draws as arguments.
\<close>

type_synonym draw = "nat \<Rightarrow> string option"

definition randomHex :: "nat \<Rightarrow> draw \<Rightarrow> string option" where
  "randomHex n r = map_option hex_encode (r n)"

definition randomBase64 :: "nat \<Rightarrow> draw \<Rightarrow> string option" where
  "randomBase64 n r = map_option raw_std_encode (r n)"

lemma randomHex_trim: "randomHex n r = Some s \<Longrightarrow> trim_space s = s"
  by (auto simp: randomHex_def hex.enc_trim)

lemma randomBase64_trim: "randomBase64 n r = Some s \<Longrightarrow> trim_space s = s"
  by (auto simp: randomBase64_def rawstd.enc_trim)

end
