(* ===== verification/Registry.thy ===== *)
theory Registry
  imports Codec Atomicfile
begin

text \<open>
  \<open>internal/store/device_registry.go\<close>: the registry of paired app devices, its one-time
  pairing sessions and its refresh-token families, and the record type of
  \<open>nearby_link.go\<close>, which the registry stores. The store is the registry in memory and
  the registry file; each operation of the code runs under the store's mutex and is one
  function from the store to a result and the new store. SHA-256 is the argument
  \<open>sha256\<close> of the operations that hash tokens, the random draws and the outcome of
  writing the file are arguments as well.

  A JSON file is identified with the registry it encodes. The field
  \<open>CurrentRefreshToken\<close> is tagged \<open>json:"-"\<close>, so \<open>persisted\<close> clears it.
\<close>

section \<open>Data\<close>

record pairing_session =
  psCode :: string
  psCreatedAt :: gotime
  psExpiresAt :: gotime
  psFailedAttempts :: int
  psRedeemedAt :: "gotime option"

record device_record =
  devDeviceID :: string
  devDeviceName :: string
  devReviewOnly :: bool
  devCreatedAt :: gotime
  devLastRefreshedAt :: gotime
  devCurrentRefreshToken :: string
  devCurrentRefreshTokenHash :: string
  devRefreshTokenSalt :: string
  devRefreshTokenExpiresAt :: gotime
  devPreviousRefreshTokenHash :: string
  devPreviousRefreshTokenSalt :: string
  devPreviousRefreshTokenValidUntil :: gotime

record nearby_link =
  nlLinkID :: string
  nlLinkCode :: string
  nlDeviceName :: string
  nlDeviceKind :: string
  nlPollTokenHash :: string
  nlPollTokenSalt :: string
  nlCreatedAt :: gotime
  nlExpiresAt :: gotime
  nlApprovedAt :: "gotime option"
  nlDeniedAt :: "gotime option"
  nlConsumedAt :: "gotime option"
  nlFailedAttempts :: int

record device_registry =
  PairingSessions :: "pairing_session list"
  NearbyLinks :: "nearby_link list"
  Devices :: "device_record list"

record registry_store =
  deviceLimit :: int
  registry :: device_registry
  disk :: "device_registry dir"

datatype reg_error =
  ErrPairingSessionNotFound | ErrPairingSessionExpired | ErrPairingSessionUsed
| ErrDeviceLimitReached | ErrDeviceNotFound | ErrDeviceNameInvalid
| ErrRefreshTokenNotFound | ErrRefreshTokenExpired
| ErrNearbyLinkNotFound | ErrNearbyLinkDenied | ErrNearbyLinkNotApproved
| ErrNearbyLinkConsumed | ErrNearbyLinkPollTokenInvalid | ErrNearbyLinkLimitReached
| ErrRandom | ErrWriteFile | ErrRefreshTokenEmpty | ErrMissingTokenMaterial
| ErrDataDirEmpty | ErrDeviceLimitInvalid | ErrMkdir | ErrReadFile | ErrParse

type_synonym 'a reg_result = "(reg_error + 'a) \<times> registry_store"

definition maxPairingFailedAttempts :: int where "maxPairingFailedAttempts = 5"
definition previousRefreshTokenReplayGrace :: duration where
  "previousRefreshTokenReplayGrace = 2 * minute"

section \<open>Refresh tokens\<close>

definition hashRefreshToken :: "(string \<Rightarrow> string) \<Rightarrow> string \<Rightarrow> string \<Rightarrow> string" where
  "hashRefreshToken sha256 token salt = raw_std_encode (sha256 (salt @ '':'' @ token))"

definition setRefreshToken ::
    "(string \<Rightarrow> string) \<Rightarrow> string \<Rightarrow> draw \<Rightarrow> device_record \<Rightarrow> (reg_error, device_record) result" where
  "setRefreshToken sha256 token rsalt d =
     (let normalizedToken = trim_space token in
      if normalizedToken = [] then Inl ErrRefreshTokenEmpty
      else case randomBase64 16 rsalt of
        None \<Rightarrow> Inl ErrRandom
      | Some salt \<Rightarrow>
          Inr (d\<lparr>devCurrentRefreshToken := normalizedToken, devRefreshTokenSalt := salt,
                 devCurrentRefreshTokenHash := hashRefreshToken sha256 normalizedToken salt\<rparr>))"

definition matchesRefreshToken :: "(string \<Rightarrow> string) \<Rightarrow> device_record \<Rightarrow> string \<Rightarrow> bool" where
  "matchesRefreshToken sha256 d token =
     (let normalizedToken = trim_space token in
      if normalizedToken = [] \<or> devCurrentRefreshTokenHash d = [] \<or> devRefreshTokenSalt d = []
      then False
      else hashRefreshToken sha256 normalizedToken (devRefreshTokenSalt d)
           = devCurrentRefreshTokenHash d)"

definition matchesPreviousRefreshToken ::
    "(string \<Rightarrow> string) \<Rightarrow> device_record \<Rightarrow> string \<Rightarrow> gotime \<Rightarrow> bool" where
  "matchesPreviousRefreshToken sha256 d token now =
     (let normalizedToken = trim_space token in
      if normalizedToken = [] \<or> devPreviousRefreshTokenHash d = []
         \<or> devPreviousRefreshTokenSalt d = []
         \<or> is_zero (devPreviousRefreshTokenValidUntil d)
         \<or> \<not> now < devPreviousRefreshTokenValidUntil d
      then False
      else hashRefreshToken sha256 normalizedToken (devPreviousRefreshTokenSalt d)
           = devPreviousRefreshTokenHash d)"

text \<open>The draws of a new record: its identifier, its refresh token, the token's salt.\<close>

type_synonym device_draws = "draw \<times> draw \<times> draw"

definition newDeviceRecord ::
    "(string \<Rightarrow> string) \<Rightarrow> string \<Rightarrow> gotime \<Rightarrow> gotime \<Rightarrow> device_draws \<Rightarrow>
     (reg_error, device_record) result" where
  "newDeviceRecord sha256 deviceName now refreshTokenExpiresAt draws =
     (case draws of (rid, rtoken, rsalt) \<Rightarrow>
      case randomHex 16 rid of
        None \<Rightarrow> Inl ErrRandom
      | Some deviceID \<Rightarrow>
          (case randomBase64 32 rtoken of
             None \<Rightarrow> Inl ErrRandom
           | Some refreshToken \<Rightarrow>
               setRefreshToken sha256 refreshToken rsalt
                 \<lparr>devDeviceID = deviceID, devDeviceName = trim_space deviceName,
                  devReviewOnly = False, devCreatedAt = now, devLastRefreshedAt = now,
                  devCurrentRefreshToken = [], devCurrentRefreshTokenHash = [],
                  devRefreshTokenSalt = [], devRefreshTokenExpiresAt = refreshTokenExpiresAt,
                  devPreviousRefreshTokenHash = [], devPreviousRefreshTokenSalt = [],
                  devPreviousRefreshTokenValidUntil = zero_time\<rparr>))"

section \<open>Persistence\<close>

definition persisted :: "device_registry \<Rightarrow> device_registry" where
  "persisted r = r\<lparr>Devices := map (\<lambda>d. d\<lparr>devCurrentRefreshToken := []\<rparr>) (Devices r)\<rparr>"

definition writeDeviceRegistryFile ::
    "write_step option \<Rightarrow> device_registry \<Rightarrow> registry_store \<Rightarrow> unit reg_result" where
  "writeDeviceRegistryFile fault r s =
     (let (ok, d) = writeFile (persisted r) fault (disk s)
      in (if ok then Inr () else Inl ErrWriteFile, s\<lparr>disk := d\<rparr>))"

definition persistLocked :: "write_step option \<Rightarrow> registry_store \<Rightarrow> unit reg_result" where
  "persistLocked fault s = writeDeviceRegistryFile fault (registry s) s"

text \<open>
  The other way the code persists: it writes an updated clone of the registry first and
  makes it the registry in memory only when that succeeded.
\<close>

definition writeThenSwap ::
    "write_step option \<Rightarrow> device_registry \<Rightarrow> 'a \<Rightarrow> registry_store \<Rightarrow> 'a reg_result" where
  "writeThenSwap fault updated a s =
     (case writeDeviceRegistryFile fault updated s of
        (Inl e, s') \<Rightarrow> (Inl e, s')
      | (Inr _, s') \<Rightarrow> (Inr a, s'\<lparr>registry := updated\<rparr>))"

section \<open>Expiry\<close>

definition cleanupDevice :: "gotime \<Rightarrow> device_record \<Rightarrow> device_record" where
  "cleanupDevice now d =
     (if is_zero (devPreviousRefreshTokenValidUntil d)
      then d\<lparr>devPreviousRefreshTokenHash := [], devPreviousRefreshTokenSalt := []\<rparr>
      else
        let maxPreviousValidUntil = devLastRefreshedAt d + previousRefreshTokenReplayGrace;
            d = (if maxPreviousValidUntil < devPreviousRefreshTokenValidUntil d
                 then d\<lparr>devPreviousRefreshTokenValidUntil := maxPreviousValidUntil\<rparr> else d)
        in if now < devPreviousRefreshTokenValidUntil d then d
           else d\<lparr>devPreviousRefreshTokenHash := [], devPreviousRefreshTokenSalt := [],
                  devPreviousRefreshTokenValidUntil := zero_time\<rparr>)"

definition cleanupRegistry :: "gotime \<Rightarrow> device_registry \<Rightarrow> device_registry" where
  "cleanupRegistry now r =
     \<lparr>PairingSessions =
        filter (\<lambda>p. psRedeemedAt p = None \<and> \<not> psExpiresAt p < now) (PairingSessions r),
      NearbyLinks =
        filter (\<lambda>l. nlConsumedAt l = None \<and> \<not> nlExpiresAt l < now) (NearbyLinks r),
      Devices = map (cleanupDevice now) (Devices r)\<rparr>"

definition cleanupExpiredLocked :: "gotime \<Rightarrow> registry_store \<Rightarrow> registry_store" where
  "cleanupExpiredLocked now s = s\<lparr>registry := cleanupRegistry now (registry s)\<rparr>"

definition Snapshot :: "gotime \<Rightarrow> registry_store \<Rightarrow> device_registry \<times> registry_store" where
  "Snapshot now s = (let s = cleanupExpiredLocked now s in (registry s, s))"

abbreviation deviceCount :: "registry_store \<Rightarrow> int" where
  "deviceCount s \<equiv> int (length (Devices (registry s)))"

section \<open>Pairing sessions\<close>

definition CreatePairingSession ::
    "gotime \<Rightarrow> gotime \<Rightarrow> draw \<Rightarrow> write_step option \<Rightarrow> registry_store \<Rightarrow>
     pairing_session reg_result" where
  "CreatePairingSession now expiresAt rcode fault s =
     (let s = cleanupExpiredLocked now s in
      if deviceLimit s \<le> deviceCount s then (Inl ErrDeviceLimitReached, s)
      else case randomHex 16 rcode of
        None \<Rightarrow> (Inl ErrRandom, s)
      | Some code \<Rightarrow>
          let session = \<lparr>psCode = code, psCreatedAt = now, psExpiresAt = expiresAt,
                         psFailedAttempts = 0, psRedeemedAt = None\<rparr>;
              s = s\<lparr>registry := (registry s)\<lparr>PairingSessions := [session]\<rparr>\<rparr>
          in case persistLocked fault s of
               (Inl e, s) \<Rightarrow> (Inl e, s)
             | (Inr _, s) \<Rightarrow> (Inr session, s))"

definition recordFailedPairingAttemptLocked ::
    "write_step option \<Rightarrow> registry_store \<Rightarrow> unit reg_result" where
  "recordFailedPairingAttemptLocked fault s =
     (case PairingSessions (registry s) of
        [] \<Rightarrow> (Inr (), s)
      | active # rest \<Rightarrow>
          let active = active\<lparr>psFailedAttempts := psFailedAttempts active + 1\<rparr>;
              sessions = (if maxPairingFailedAttempts \<le> psFailedAttempts active then []
                          else active # rest)
          in persistLocked fault
               (s\<lparr>registry := (registry s)\<lparr>PairingSessions := sessions\<rparr>\<rparr>))"

text \<open>A failed attempt is recorded, and the caller's error returned.\<close>

definition failPairing :: "write_step option \<Rightarrow> registry_store \<Rightarrow> 'a reg_result" where
  "failPairing fault s =
     (case recordFailedPairingAttemptLocked fault s of
        (Inl e, s) \<Rightarrow> (Inl e, s)
      | (Inr _, s) \<Rightarrow> (Inl ErrPairingSessionNotFound, s))"

definition RedeemPairingSession ::
    "(string \<Rightarrow> string) \<Rightarrow> string \<Rightarrow> string \<Rightarrow> gotime \<Rightarrow> gotime \<Rightarrow> device_draws \<Rightarrow>
     write_step option \<Rightarrow> registry_store \<Rightarrow> device_record reg_result" where
  "RedeemPairingSession sha256 code deviceName now refreshTokenExpiresAt draws fault s =
     (let s = cleanupExpiredLocked now s in
      if deviceLimit s \<le> deviceCount s then (Inl ErrDeviceLimitReached, s)
      else
        let normalizedCode = trim_space code in
        if normalizedCode = [] then failPairing fault s
        else case find_index (\<lambda>p. psCode p = normalizedCode) (PairingSessions (registry s)) of
          None \<Rightarrow> failPairing fault s
        | Some i \<Rightarrow>
            let session = PairingSessions (registry s) ! i in
            if psRedeemedAt session \<noteq> None then (Inl ErrPairingSessionUsed, s)
            else if psExpiresAt session < now then (Inl ErrPairingSessionExpired, s)
            else case newDeviceRecord sha256 deviceName now refreshTokenExpiresAt draws of
              Inl e \<Rightarrow> (Inl e, s)
            | Inr device \<Rightarrow>
                let r = registry s;
                    s = s\<lparr>registry := r\<lparr>Devices := Devices r @ [device],
                          PairingSessions :=
                            (PairingSessions r)[i := session\<lparr>psRedeemedAt := Some now\<rparr>]\<rparr>\<rparr>
                in case persistLocked fault s of
                     (Inl e, s) \<Rightarrow> (Inl e, s)
                   | (Inr _, s) \<Rightarrow> (Inr device, s))"

section \<open>Refresh-token rotation\<close>

definition rotatedDevice ::
    "(string \<Rightarrow> string) \<Rightarrow> string \<Rightarrow> draw \<Rightarrow> gotime \<Rightarrow> gotime \<Rightarrow> device_record \<Rightarrow>
     (reg_error, device_record) result" where
  "rotatedDevice sha256 replacement rsalt now refreshTokenExpiresAt d =
     (let previousValidUntil = now + previousRefreshTokenReplayGrace;
          previousValidUntil = (if refreshTokenExpiresAt < previousValidUntil
                                then refreshTokenExpiresAt else previousValidUntil);
          d = d\<lparr>devPreviousRefreshTokenHash := devCurrentRefreshTokenHash d,
                devPreviousRefreshTokenSalt := devRefreshTokenSalt d,
                devPreviousRefreshTokenValidUntil := previousValidUntil\<rparr>
      in case setRefreshToken sha256 replacement rsalt d of
           Inl e \<Rightarrow> Inl e
         | Inr d \<Rightarrow> Inr (d\<lparr>devLastRefreshedAt := now,
                         devRefreshTokenExpiresAt := refreshTokenExpiresAt\<rparr>))"

definition RotateRefreshToken ::
    "(string \<Rightarrow> string) \<Rightarrow> string \<Rightarrow> string \<Rightarrow> gotime \<Rightarrow> gotime \<Rightarrow> draw \<Rightarrow>
     write_step option \<Rightarrow> registry_store \<Rightarrow> device_record reg_result" where
  "RotateRefreshToken sha256 refreshToken replacementRefreshToken now refreshTokenExpiresAt
       rsalt fault s =
     (let s = cleanupExpiredLocked now s;
          normalizedToken = trim_space refreshToken in
      if normalizedToken = [] then (Inl ErrRefreshTokenNotFound, s)
      else
        let normalizedReplacement = trim_space replacementRefreshToken in
        if normalizedReplacement = [] then (Inl ErrRefreshTokenNotFound, s)
        else case find_index (\<lambda>d. matchesRefreshToken sha256 d normalizedToken
                     \<or> matchesPreviousRefreshToken sha256 d normalizedToken now)
                    (Devices (registry s)) of
          None \<Rightarrow> (Inl ErrRefreshTokenNotFound, s)
        | Some i \<Rightarrow>
            let device = Devices (registry s) ! i in
            if matchesRefreshToken sha256 device normalizedToken then
              if devRefreshTokenExpiresAt device < now then (Inl ErrRefreshTokenExpired, s)
              else case rotatedDevice sha256 normalizedReplacement rsalt now
                          refreshTokenExpiresAt device of
                Inl e \<Rightarrow> (Inl e, s)
              | Inr device \<Rightarrow>
                  let r = registry s in
                  writeThenSwap fault (r\<lparr>Devices := (Devices r)[i := device]\<rparr>) device s
            else if \<not> matchesRefreshToken sha256 device normalizedReplacement
                 then (Inl ErrRefreshTokenNotFound, s)
            else (Inr (device\<lparr>devCurrentRefreshToken := normalizedReplacement\<rparr>), s))"

section \<open>Hosted devices\<close>

definition CreateHostedDevice ::
    "(string \<Rightarrow> string) \<Rightarrow> string \<Rightarrow> gotime \<Rightarrow> gotime \<Rightarrow> device_draws \<Rightarrow>
     write_step option \<Rightarrow> registry_store \<Rightarrow> device_record reg_result" where
  "CreateHostedDevice sha256 deviceName now refreshTokenExpiresAt draws fault s =
     (let s = cleanupExpiredLocked now s in
      if deviceLimit s \<le> deviceCount s then (Inl ErrDeviceLimitReached, s)
      else case newDeviceRecord sha256 deviceName now refreshTokenExpiresAt draws of
        Inl e \<Rightarrow> (Inl e, s)
      | Inr device \<Rightarrow>
          let r = registry s;
              s = s\<lparr>registry := r\<lparr>Devices := Devices r @ [device]\<rparr>\<rparr>
          in case persistLocked fault s of
               (Inl e, s) \<Rightarrow> (Inl e, s)
             | (Inr _, s) \<Rightarrow> (Inr device, s))"

text \<open>The loop keeps the position of the oldest review device seen so far.\<close>

fun oldestReviewFrom ::
    "nat \<Rightarrow> device_record list \<Rightarrow> (nat \<times> device_record) option \<Rightarrow> (nat \<times> device_record) option" where
  "oldestReviewFrom i [] best = best"
| "oldestReviewFrom i (d # ds) best =
     (if \<not> devReviewOnly d then oldestReviewFrom (Suc i) ds best
      else case best of
        None \<Rightarrow> oldestReviewFrom (Suc i) ds (Some (i, d))
      | Some (j, b) \<Rightarrow>
          oldestReviewFrom (Suc i) ds
            (if devLastRefreshedAt d < devLastRefreshedAt b then Some (i, d) else best))"

definition oldestReviewDeviceIndex :: "device_record list \<Rightarrow> nat option" where
  "oldestReviewDeviceIndex ds = map_option fst (oldestReviewFrom 0 ds None)"

definition CreateHostedReviewDevice ::
    "(string \<Rightarrow> string) \<Rightarrow> string \<Rightarrow> gotime \<Rightarrow> gotime \<Rightarrow> device_draws \<Rightarrow>
     write_step option \<Rightarrow> registry_store \<Rightarrow> (device_record \<times> string) reg_result" where
  "CreateHostedReviewDevice sha256 deviceName now refreshTokenExpiresAt draws fault s =
     (let s = cleanupExpiredLocked now s;
          reviewCapacity = (if deviceLimit s - 1 < 1 then 1 else deviceLimit s - 1);
          full = reviewCapacity \<le> deviceCount s;
          evictedIndex = (if full then oldestReviewDeviceIndex (Devices (registry s)) else None)
      in if full \<and> evictedIndex = None then (Inl ErrDeviceLimitReached, s)
         else case newDeviceRecord sha256 deviceName now refreshTokenExpiresAt draws of
           Inl e \<Rightarrow> (Inl e, s)
         | Inr device \<Rightarrow>
             let device = device\<lparr>devReviewOnly := True\<rparr>;
                 r = registry s;
                 evictedID = (case evictedIndex of None \<Rightarrow> []
                              | Some i \<Rightarrow> devDeviceID (Devices r ! i));
                 kept = (case evictedIndex of None \<Rightarrow> Devices r
                         | Some i \<Rightarrow> remove_at i (Devices r))
             in writeThenSwap fault (r\<lparr>Devices := kept @ [device]\<rparr>) (device, evictedID) s)"

section \<open>Devices\<close>

definition HasDevice :: "string \<Rightarrow> gotime \<Rightarrow> registry_store \<Rightarrow> bool \<times> registry_store" where
  "HasDevice deviceID now s =
     (let s = cleanupExpiredLocked now s
      in (list_ex (\<lambda>d. devDeviceID d = deviceID) (Devices (registry s)), s))"

definition RenameDevice ::
    "string \<Rightarrow> string \<Rightarrow> gotime \<Rightarrow> write_step option \<Rightarrow> registry_store \<Rightarrow>
     device_record reg_result" where
  "RenameDevice deviceID deviceName now fault s =
     (let normalizedDeviceID = trim_space deviceID in
      if normalizedDeviceID = [] then (Inl ErrDeviceNotFound, s)
      else
        let normalizedDeviceName = trim_space deviceName in
        if normalizedDeviceName = [] then (Inl ErrDeviceNameInvalid, s)
        else
          let s = cleanupExpiredLocked now s; r = registry s in
          case find_index (\<lambda>d. devDeviceID d = normalizedDeviceID) (Devices r) of
            None \<Rightarrow> (Inl ErrDeviceNotFound, s)
          | Some i \<Rightarrow>
              let device = Devices r ! i in
              if devDeviceName device = normalizedDeviceName then (Inr device, s)
              else
                let renamed = device\<lparr>devDeviceName := normalizedDeviceName\<rparr>
                in writeThenSwap fault (r\<lparr>Devices := (Devices r)[i := renamed]\<rparr>) renamed s)"

definition RevokeDevice ::
    "string \<Rightarrow> gotime \<Rightarrow> write_step option \<Rightarrow> registry_store \<Rightarrow> unit reg_result" where
  "RevokeDevice deviceID now fault s =
     (let normalizedDeviceID = trim_space deviceID in
      if normalizedDeviceID = [] then (Inl ErrDeviceNotFound, s)
      else
        let s = cleanupExpiredLocked now s; r = registry s in
        case find_index (\<lambda>d. devDeviceID d = normalizedDeviceID) (Devices r) of
          None \<Rightarrow> (Inl ErrDeviceNotFound, s)
        | Some i \<Rightarrow> writeThenSwap fault (r\<lparr>Devices := remove_at i (Devices r)\<rparr>) () s)"

section \<open>Loading\<close>

text \<open>
  \<open>DeviceRecord.UnmarshalJSON\<close>. The payload has the fields of the record, with the
  plaintext token that older agents stored.
\<close>

definition unmarshalDevice ::
    "(string \<Rightarrow> string) \<Rightarrow> draw \<Rightarrow> device_record \<Rightarrow> (reg_error, device_record) result" where
  "unmarshalDevice sha256 rsalt payload =
     (let d = payload\<lparr>devCurrentRefreshToken := [],
                devCurrentRefreshTokenHash := trim_space (devCurrentRefreshTokenHash payload),
                devRefreshTokenSalt := trim_space (devRefreshTokenSalt payload),
                devPreviousRefreshTokenHash := trim_space (devPreviousRefreshTokenHash payload),
                devPreviousRefreshTokenSalt := trim_space (devPreviousRefreshTokenSalt payload)\<rparr>
      in if devCurrentRefreshTokenHash d \<noteq> [] \<and> devRefreshTokenSalt d \<noteq> [] then Inr d
         else if trim_space (devCurrentRefreshToken payload) \<noteq> []
         then setRefreshToken sha256 (devCurrentRefreshToken payload) rsalt d
         else Inl ErrMissingTokenMaterial)"

fun unmarshalDevices ::
    "(string \<Rightarrow> string) \<Rightarrow> (nat \<Rightarrow> draw) \<Rightarrow> device_record list \<Rightarrow> (reg_error, device_record list) result" where
  "unmarshalDevices sha256 rs [] = Inr []"
| "unmarshalDevices sha256 rs (p # ps) =
     (case unmarshalDevice sha256 (rs 0) p of
        Inl e \<Rightarrow> Inl e
      | Inr d \<Rightarrow>
          (case unmarshalDevices sha256 (\<lambda>k. rs (Suc k)) ps of
             Inl e \<Rightarrow> Inl e
           | Inr ds \<Rightarrow> Inr (d # ds)))"

datatype 'a file_read = FileMissing | FileUnreadable | FileText "'a option"

text \<open>\<open>FileText None\<close> is a file that is not the JSON text of a registry.\<close>

definition emptyRegistry :: device_registry where
  "emptyRegistry = \<lparr>PairingSessions = [], NearbyLinks = [], Devices = []\<rparr>"

text \<open>
  \<open>LoadOrCreateDeviceRegistry\<close>; \<open>mkdirOK\<close> is the outcome of \<open>os.MkdirAll\<close>, \<open>rs\<close> the draws
  of salts for legacy records, \<open>fault1\<close> and \<open>fault2\<close> those of the two writes.
\<close>

definition openStore ::
    "(reg_error, device_registry) result \<Rightarrow> int \<Rightarrow> gotime \<Rightarrow> write_step option \<Rightarrow>
     device_registry dir \<Rightarrow> (reg_error, registry_store) result" where
  "openStore parsed limit now fault d =
     (case parsed of
        Inl e \<Rightarrow> Inl e
      | Inr r \<Rightarrow>
          let s = cleanupExpiredLocked now \<lparr>deviceLimit = limit, registry = r, disk = d\<rparr>
          in case persistLocked fault s of
               (Inl e, _) \<Rightarrow> Inl e
             | (Inr _, s) \<Rightarrow> Inr s)"

definition LoadOrCreateDeviceRegistry ::
    "(string \<Rightarrow> string) \<Rightarrow> string \<Rightarrow> int \<Rightarrow> bool \<Rightarrow> device_registry file_read \<Rightarrow>
     (nat \<Rightarrow> draw) \<Rightarrow> gotime \<Rightarrow> write_step option \<Rightarrow> write_step option \<Rightarrow>
     device_registry dir \<Rightarrow> (reg_error, registry_store) result" where
  "LoadOrCreateDeviceRegistry sha256 dataDir limit mkdirOK file rs now fault1 fault2 d =
     (if dataDir = [] then Inl ErrDataDirEmpty
      else if limit < 1 then Inl ErrDeviceLimitInvalid
      else if \<not> mkdirOK then Inl ErrMkdir
      else case file of
        FileText None \<Rightarrow> Inl ErrParse
      | FileText (Some raw) \<Rightarrow>
          openStore
            (case unmarshalDevices sha256 rs (Devices raw) of
               Inl e \<Rightarrow> Inl ErrParse
             | Inr ds \<Rightarrow> Inr (raw\<lparr>Devices := ds\<rparr>)) limit now fault2 d
      | FileUnreadable \<Rightarrow> Inl ErrReadFile
      | FileMissing \<Rightarrow>
          (case writeFile (persisted emptyRegistry) fault1 d of
             (ok, d) \<Rightarrow> if ok then openStore (Inr emptyRegistry) limit now fault2 d
                        else Inl ErrWriteFile))"

end
