(* ===== verification/Nearby_Link.thy ===== *)
theory Nearby_Link
  imports Registry
begin

text \<open>
  \<open>internal/store/nearby_link.go\<close>: requests of nearby devices that an administrator
  approves by a six-digit code, polled and redeemed with a secret token. The operations
  work on the registry store of \<open>Registry\<close>, each in one critical section.
\<close>

definition maxActiveNearbyLinks :: int where "maxActiveNearbyLinks = 8"
definition maxNearbyLinkFailedAttempts :: int where "maxNearbyLinkFailedAttempts = 5"
definition nearbyLinkCodeLength :: nat where "nearbyLinkCodeLength = 6"
definition nearbyLinkCodeGenerationTries :: nat where "nearbyLinkCodeGenerationTries = 16"

datatype link_status = NearbyLinkStatusPending | NearbyLinkStatusApproved | NearbyLinkStatusDenied

definition link_Status :: "nearby_link \<Rightarrow> link_status" where
  "link_Status l =
     (if nlDeniedAt l \<noteq> None then NearbyLinkStatusDenied
      else if nlApprovedAt l \<noteq> None then NearbyLinkStatusApproved
      else NearbyLinkStatusPending)"

definition matchesPollToken :: "(string \<Rightarrow> string) \<Rightarrow> nearby_link \<Rightarrow> string \<Rightarrow> bool" where
  "matchesPollToken sha256 l token =
     (let normalizedToken = trim_space token in
      if normalizedToken = [] \<or> nlPollTokenHash l = [] \<or> nlPollTokenSalt l = [] then False
      else hashRefreshToken sha256 normalizedToken (nlPollTokenSalt l) = nlPollTokenHash l)"

section \<open>Codes and device kinds\<close>

text \<open>The loop over the characters; \<open>None\<close> is the early return of the empty string.\<close>

fun collect_digits :: "string \<Rightarrow> string option" where
  "collect_digits [] = Some []"
| "collect_digits (c # cs) =
     (if is_digit c then map_option (\<lambda>ds. c # ds) (collect_digits cs)
      else if c = CHR '' '' \<or> c = CHR ''-'' then collect_digits cs
      else None)"

definition normalizeNearbyLinkCode :: "string \<Rightarrow> string" where
  "normalizeNearbyLinkCode v =
     (case collect_digits (trim_space v) of
        None \<Rightarrow> []
      | Some ds \<Rightarrow> if length ds \<noteq> nearbyLinkCodeLength then [] else ds)"

definition normalizeNearbyLinkDeviceKind :: "string \<Rightarrow> string" where
  "normalizeNearbyLinkDeviceKind v =
     (let normalized = to_lower (trim_space v) in
      if normalized \<in> {''android_tv'', ''ios'', ''android'', ''mcp''} then normalized
      else ''unknown'')"

text \<open>One draw of \<open>rand.Int\<close> below a million, \<open>None\<close> when the source failed.\<close>

definition randomNearbyLinkCode :: "nat option \<Rightarrow> string option" where
  "randomNearbyLinkCode r = map_option (\<lambda>v. pad_zero nearbyLinkCodeLength (decimal v)) r"

definition nearbyLinkCodeExists :: "nearby_link list \<Rightarrow> string \<Rightarrow> bool" where
  "nearbyLinkCodeExists links code =
     list_ex (\<lambda>l. nlConsumedAt l = None \<and> nlLinkCode l = code) links"

fun tryNearbyLinkCodes ::
    "nat \<Rightarrow> (nat \<Rightarrow> nat option) \<Rightarrow> nearby_link list \<Rightarrow> (reg_error, string) result" where
  "tryNearbyLinkCodes 0 rs links = Inl ErrNearbyLinkLimitReached"
| "tryNearbyLinkCodes (Suc n) rs links =
     (case randomNearbyLinkCode (rs 0) of
        None \<Rightarrow> Inl ErrRandom
      | Some code \<Rightarrow>
          if \<not> nearbyLinkCodeExists links code then Inr code
          else tryNearbyLinkCodes n (\<lambda>k. rs (Suc k)) links)"

definition randomNearbyLinkCodeLocked ::
    "(nat \<Rightarrow> nat option) \<Rightarrow> registry_store \<Rightarrow> (reg_error, string) result" where
  "randomNearbyLinkCodeLocked rs s =
     tryNearbyLinkCodes nearbyLinkCodeGenerationTries rs (NearbyLinks (registry s))"

definition activeNearbyLinkCount :: "nearby_link list \<Rightarrow> int" where
  "activeNearbyLinkCount links =
     int (length (filter (\<lambda>l. nlConsumedAt l = None \<and> nlDeniedAt l = None) links))"

section \<open>Updating the list of links\<close>

definition appendNearbyLinkLocked ::
    "write_step option \<Rightarrow> nearby_link \<Rightarrow> registry_store \<Rightarrow> unit reg_result" where
  "appendNearbyLinkLocked fault l s =
     (let r = registry s
      in writeThenSwap fault (r\<lparr>NearbyLinks := NearbyLinks r @ [l]\<rparr>) () s)"

definition updateNearbyLinkLocked ::
    "write_step option \<Rightarrow> nat \<Rightarrow> nearby_link \<Rightarrow> registry_store \<Rightarrow> nearby_link reg_result" where
  "updateNearbyLinkLocked fault i l s =
     (let r = registry s in
      if length (NearbyLinks r) \<le> i then (Inl ErrNearbyLinkNotFound, s)
      else writeThenSwap fault (r\<lparr>NearbyLinks := (NearbyLinks r)[i := l]\<rparr>) l s)"

definition recordFailedNearbyLinkAttemptLocked ::
    "write_step option \<Rightarrow> nat \<Rightarrow> gotime \<Rightarrow> registry_store \<Rightarrow> unit reg_result" where
  "recordFailedNearbyLinkAttemptLocked fault i now s =
     (let links = NearbyLinks (registry s) in
      if length links \<le> i then (Inl ErrNearbyLinkNotFound, s)
      else
        let l = (links ! i)\<lparr>nlFailedAttempts := nlFailedAttempts (links ! i) + 1\<rparr>;
            l = (if maxNearbyLinkFailedAttempts \<le> nlFailedAttempts l
                 then l\<lparr>nlDeniedAt := Some now\<rparr> else l)
        in case updateNearbyLinkLocked fault i l s of
             (Inl e, s) \<Rightarrow> (Inl e, s)
           | (Inr _, s) \<Rightarrow> (Inr (), s))"

definition failPollToken ::
    "write_step option \<Rightarrow> nat \<Rightarrow> gotime \<Rightarrow> registry_store \<Rightarrow> 'a reg_result" where
  "failPollToken fault i now s =
     (case recordFailedNearbyLinkAttemptLocked fault i now s of
        (Inl e, s) \<Rightarrow> (Inl e, s)
      | (Inr _, s) \<Rightarrow> (Inl ErrNearbyLinkPollTokenInvalid, s))"

definition nearbyLinkByIDLocked :: "string \<Rightarrow> registry_store \<Rightarrow> nat option" where
  "nearbyLinkByIDLocked linkID s =
     (let normalizedLinkID = trim_space linkID in
      if normalizedLinkID = [] then None
      else find_index (\<lambda>l. nlLinkID l = normalizedLinkID) (NearbyLinks (registry s)))"

section \<open>Operations\<close>

text \<open>The draws of a link: its identifier, the codes tried, the poll token, its salt.\<close>

type_synonym link_draws = "draw \<times> (nat \<Rightarrow> nat option) \<times> draw \<times> draw"

definition CreateNearbyLink ::
    "(string \<Rightarrow> string) \<Rightarrow> string \<Rightarrow> string \<Rightarrow> gotime \<Rightarrow> gotime \<Rightarrow> link_draws \<Rightarrow>
     write_step option \<Rightarrow> registry_store \<Rightarrow> (nearby_link \<times> string) reg_result" where
  "CreateNearbyLink sha256 deviceName deviceKind now expiresAt draws fault s =
     (case draws of (rid, rcodes, rtoken, rsalt) \<Rightarrow>
      let s = cleanupExpiredLocked now s in
      if deviceLimit s \<le> deviceCount s then (Inl ErrDeviceLimitReached, s)
      else if maxActiveNearbyLinks \<le> activeNearbyLinkCount (NearbyLinks (registry s))
      then (Inl ErrNearbyLinkLimitReached, s)
      else case randomHex 16 rid of
        None \<Rightarrow> (Inl ErrRandom, s)
      | Some linkID \<Rightarrow>
      (case randomNearbyLinkCodeLocked rcodes s of
        Inl e \<Rightarrow> (Inl e, s)
      | Inr linkCode \<Rightarrow>
      (case randomBase64 32 rtoken of
        None \<Rightarrow> (Inl ErrRandom, s)
      | Some pollToken \<Rightarrow>
      (case randomBase64 16 rsalt of
        None \<Rightarrow> (Inl ErrRandom, s)
      | Some salt \<Rightarrow>
          let link = \<lparr>nlLinkID = linkID, nlLinkCode = linkCode,
                      nlDeviceName = trim_space deviceName,
                      nlDeviceKind = normalizeNearbyLinkDeviceKind deviceKind,
                      nlPollTokenHash = hashRefreshToken sha256 pollToken salt,
                      nlPollTokenSalt = salt, nlCreatedAt = now, nlExpiresAt = expiresAt,
                      nlApprovedAt = None, nlDeniedAt = None, nlConsumedAt = None,
                      nlFailedAttempts = 0\<rparr>
          in case appendNearbyLinkLocked fault link s of
               (Inl e, s) \<Rightarrow> (Inl e, s)
             | (Inr _, s) \<Rightarrow> (Inr (link, pollToken), s)))))"

definition listNearbyLinks :: "gotime \<Rightarrow> registry_store \<Rightarrow> nearby_link list \<times> registry_store" where
  "listNearbyLinks now s =
     (let s = cleanupExpiredLocked now s in (NearbyLinks (registry s), s))"

definition ApproveNearbyLink ::
    "string \<Rightarrow> gotime \<Rightarrow> write_step option \<Rightarrow> registry_store \<Rightarrow> nearby_link reg_result" where
  "ApproveNearbyLink linkCode now fault s =
     (let s = cleanupExpiredLocked now s;
          normalizedCode = normalizeNearbyLinkCode linkCode;
          links = NearbyLinks (registry s) in
      if normalizedCode = [] then (Inl ErrNearbyLinkNotFound, s)
      else case find_index (\<lambda>l. nlLinkCode l = normalizedCode) links of
        None \<Rightarrow> (Inl ErrNearbyLinkNotFound, s)
      | Some i \<Rightarrow>
          let l = links ! i in
          if nlConsumedAt l \<noteq> None then (Inl ErrNearbyLinkConsumed, s)
          else if nlDeniedAt l \<noteq> None then (Inl ErrNearbyLinkDenied, s)
          else if nlApprovedAt l = None
          then updateNearbyLinkLocked fault i (l\<lparr>nlApprovedAt := Some now\<rparr>) s
          else (Inr l, s))"

text \<open>Marking a link denied, shared by the administrator's and the app's rejection.\<close>

definition denyLinkAt ::
    "write_step option \<Rightarrow> nat \<Rightarrow> gotime \<Rightarrow> registry_store \<Rightarrow> nearby_link reg_result" where
  "denyLinkAt fault i now s =
     (let l = NearbyLinks (registry s) ! i in
      if nlConsumedAt l \<noteq> None then (Inl ErrNearbyLinkConsumed, s)
      else if nlDeniedAt l = None
      then updateNearbyLinkLocked fault i (l\<lparr>nlDeniedAt := Some now\<rparr>) s
      else (Inr l, s))"

definition DenyNearbyLink ::
    "string \<Rightarrow> gotime \<Rightarrow> write_step option \<Rightarrow> registry_store \<Rightarrow> nearby_link reg_result" where
  "DenyNearbyLink linkID now fault s =
     (let s = cleanupExpiredLocked now s in
      case nearbyLinkByIDLocked linkID s of
        None \<Rightarrow> (Inl ErrNearbyLinkNotFound, s)
      | Some i \<Rightarrow> denyLinkAt fault i now s)"

definition CancelNearbyLink ::
    "(string \<Rightarrow> string) \<Rightarrow> string \<Rightarrow> string \<Rightarrow> gotime \<Rightarrow> write_step option \<Rightarrow> registry_store \<Rightarrow>
     nearby_link reg_result" where
  "CancelNearbyLink sha256 linkID pollToken now fault s =
     (let s = cleanupExpiredLocked now s in
      case nearbyLinkByIDLocked linkID s of
        None \<Rightarrow> (Inl ErrNearbyLinkNotFound, s)
      | Some i \<Rightarrow>
          if \<not> matchesPollToken sha256 (NearbyLinks (registry s) ! i) pollToken
          then failPollToken fault i now s
          else denyLinkAt fault i now s)"

definition PollNearbyLink ::
    "(string \<Rightarrow> string) \<Rightarrow> string \<Rightarrow> string \<Rightarrow> gotime \<Rightarrow> write_step option \<Rightarrow> registry_store \<Rightarrow>
     nearby_link reg_result" where
  "PollNearbyLink sha256 linkID pollToken now fault s =
     (let s = cleanupExpiredLocked now s in
      case nearbyLinkByIDLocked linkID s of
        None \<Rightarrow> (Inl ErrNearbyLinkNotFound, s)
      | Some i \<Rightarrow>
          let l = NearbyLinks (registry s) ! i in
          if \<not> matchesPollToken sha256 l pollToken then failPollToken fault i now s
          else (Inr l, s))"

definition RedeemNearbyLink ::
    "(string \<Rightarrow> string) \<Rightarrow> string \<Rightarrow> string \<Rightarrow> gotime \<Rightarrow> gotime \<Rightarrow> device_draws \<Rightarrow>
     write_step option \<Rightarrow> registry_store \<Rightarrow> (device_record \<times> nearby_link) reg_result" where
  "RedeemNearbyLink sha256 linkID pollToken now refreshTokenExpiresAt draws fault s =
     (let s = cleanupExpiredLocked now s in
      if deviceLimit s \<le> deviceCount s then (Inl ErrDeviceLimitReached, s)
      else case nearbyLinkByIDLocked linkID s of
        None \<Rightarrow> (Inl ErrNearbyLinkNotFound, s)
      | Some i \<Rightarrow>
          let l = NearbyLinks (registry s) ! i in
          if \<not> matchesPollToken sha256 l pollToken then failPollToken fault i now s
          else if nlConsumedAt l \<noteq> None then (Inl ErrNearbyLinkConsumed, s)
          else if nlDeniedAt l \<noteq> None then (Inl ErrNearbyLinkDenied, s)
          else if nlApprovedAt l = None then (Inl ErrNearbyLinkNotApproved, s)
          else case newDeviceRecord sha256 (nlDeviceName l) now refreshTokenExpiresAt draws of
            Inl e \<Rightarrow> (Inl e, s)
          | Inr device \<Rightarrow>
              let l = l\<lparr>nlConsumedAt := Some now\<rparr>; r = registry s
              in writeThenSwap fault
                   (r\<lparr>NearbyLinks := remove_at i (NearbyLinks r),
                      Devices := Devices r @ [device]\<rparr>) (device, l) s)"

end
