(* ===== verification/Registry_Machine.thy ===== *)
theory Registry_Machine
  imports Nearby_Link
begin

text \<open>
  The registry as a state machine: every operation of \<open>Registry\<close> and \<open>Nearby_Link\<close> is a
  step, under any clock, any random draws and any failure of writing the file. The
  invariant of the reachable states and what follows from it.
\<close>

section \<open>Writing the registry file\<close>

lemma fst_writeFile [simp]: "fst (writeFile raw f d) = (f = None)"
  by (cases f) (auto simp: writeFile_def write_steps_def Let_def split: prod.splits,
      (case_tac a; simp)+)

lemma writeDeviceRegistryFile_eq [reg_simps]:
  "writeDeviceRegistryFile f r s =
    (if f = None then Inr () else Inl ErrWriteFile,
     s\<lparr>disk := snd (writeFile (persisted r) f (disk s))\<rparr>)"
  by (simp add: writeDeviceRegistryFile_def Let_def split: prod.splits)
    (metis fst_conv fst_writeFile)

lemma persistLocked_eq [reg_simps]:
  "persistLocked f s =
    (if f = None then Inr () else Inl ErrWriteFile,
     s\<lparr>disk := snd (writeFile (persisted (registry s)) f (disk s))\<rparr>)"
  by (simp add: persistLocked_def reg_simps)

lemma writeThenSwap_eq [reg_simps]:
  "writeThenSwap f upd a s =
    (if f = None then Inr a else Inl ErrWriteFile,
     let s' = s\<lparr>disk := snd (writeFile (persisted upd) f (disk s))\<rparr>
     in if f = None then s'\<lparr>registry := upd\<rparr> else s')"
  by (cases f) (simp_all add: writeThenSwap_def reg_simps Let_def)

section \<open>The invariant\<close>

definition pairing_ok :: "pairing_session list \<Rightarrow> bool" where
  "pairing_ok ps \<longleftrightarrow>
     length ps \<le> 1 \<and>
     (\<forall>p\<in>set ps. 0 \<le> psFailedAttempts p \<and> psFailedAttempts p < maxPairingFailedAttempts)"

definition link_ok :: "nearby_link \<Rightarrow> bool" where
  "link_ok l \<longleftrightarrow> nlConsumedAt l = None \<and> 0 \<le> nlFailedAttempts l \<and>
     (maxNearbyLinkFailedAttempts \<le> nlFailedAttempts l \<longrightarrow> nlDeniedAt l \<noteq> None)"

definition links_ok :: "nearby_link list \<Rightarrow> bool" where
  "links_ok ls \<longleftrightarrow> distinct (map nlLinkCode ls) \<and> (\<forall>l\<in>set ls. link_ok l)"

definition no_plaintext :: "device_registry \<Rightarrow> bool" where
  "no_plaintext r \<longleftrightarrow> (\<forall>d\<in>set (Devices r). devCurrentRefreshToken d = [])"

definition disk_ok :: "device_registry dir \<Rightarrow> bool" where
  "disk_ok d \<longleftrightarrow> temp d = None \<and> pred_option no_plaintext (target d)"

definition registry_ok :: "int \<Rightarrow> device_registry \<Rightarrow> bool" where
  "registry_ok limit r \<longleftrightarrow>
     int (length (Devices r)) \<le> limit \<and> pairing_ok (PairingSessions r) \<and> links_ok (NearbyLinks r)"

definition reg_inv :: "registry_store \<Rightarrow> bool" where
  "reg_inv s \<longleftrightarrow> 1 \<le> deviceLimit s \<and> registry_ok (deviceLimit s) (registry s) \<and> disk_ok (disk s)"

lemma no_plaintext_persisted [simp]: "no_plaintext (persisted r)"
  by (auto simp: no_plaintext_def persisted_def)

lemma disk_ok_write [simp]: "disk_ok d \<Longrightarrow> disk_ok (snd (writeFile (persisted r) f d))"
  by (auto simp: disk_ok_def af.no_litter intro: af.keeps_property)

lemma pairing_ok_filter: "pairing_ok ps \<Longrightarrow> pairing_ok (filter P ps)"
  by (auto simp: pairing_ok_def intro: order.trans [OF length_filter_le])

lemma links_ok_filter: "links_ok ls \<Longrightarrow> links_ok (filter P ls)"
  by (auto simp: links_ok_def distinct_map_filter)

lemma registry_ok_cleanup: "registry_ok n r \<Longrightarrow> registry_ok n (cleanupRegistry now r)"
  by (auto simp: registry_ok_def cleanupRegistry_def pairing_ok_filter links_ok_filter)

lemma reg_inv_cleanup: "reg_inv s \<Longrightarrow> reg_inv (cleanupExpiredLocked now s)"
  by (simp add: reg_inv_def cleanupExpiredLocked_def registry_ok_cleanup)

text \<open>What the writes do to the invariant.\<close>

lemma reg_inv_persist:
  "1 \<le> deviceLimit s \<Longrightarrow> registry_ok (deviceLimit s) (registry s) \<Longrightarrow> disk_ok (disk s) \<Longrightarrow>
   reg_inv (snd (persistLocked f s))"
  by (simp add: reg_simps reg_inv_def)

lemma reg_inv_swap:
  "reg_inv s \<Longrightarrow> registry_ok (deviceLimit s) upd \<Longrightarrow> reg_inv (snd (writeThenSwap f upd a s))"
  by (simp add: reg_simps reg_inv_def Let_def)

lemma registry_ok_devices:
  "registry_ok n r \<Longrightarrow> int (length ds) \<le> n \<Longrightarrow> registry_ok n (r\<lparr>Devices := ds\<rparr>)"
  by (simp add: registry_ok_def)

lemma registry_ok_links: "registry_ok n r \<Longrightarrow> links_ok ls \<Longrightarrow> registry_ok n (r\<lparr>NearbyLinks := ls\<rparr>)"
  by (simp add: registry_ok_def)

lemma registry_ok_pairing:
  "registry_ok n r \<Longrightarrow> pairing_ok ps \<Longrightarrow> registry_ok n (r\<lparr>PairingSessions := ps\<rparr>)"
  by (simp add: registry_ok_def)

lemma links_ok_update:
  assumes "links_ok ls" and "i < length ls" and "nlLinkCode l = nlLinkCode (ls ! i)" and "link_ok l"
  shows "links_ok (ls[i := l])"
  using assms by (auto simp: links_ok_def map_update_same dest!: set_update_subset_insert [THEN subsetD])

lemma links_ok_remove: "links_ok ls \<Longrightarrow> links_ok (remove_at i ls)"
  using set_remove_at [of i ls] by (auto simp: links_ok_def map_remove_at distinct_remove_at)

lemma pairing_ok_update:
  assumes "pairing_ok ps" and "i < length ps" and "psFailedAttempts p = psFailedAttempts (ps ! i)"
  shows "pairing_ok (ps[i := p])"
  using assms by (auto simp: pairing_ok_def dest!: set_update_subset_insert [THEN subsetD])

section \<open>Every operation keeps the invariant\<close>

lemma snd_case_result [simp]:
  "snd (case x of (Inl e, s) \<Rightarrow> (Inl e, s) | (Inr b, s) \<Rightarrow> (Inr (g b s), s)) = snd x"
  by (auto split: prod.splits sum.splits)

lemma reg_inv_CreatePairingSession [inv_intro]:
  assumes "reg_inv s"
  shows "reg_inv (snd (CreatePairingSession now expiresAt rcode fault s))"
proof -
  have c: "reg_inv (cleanupExpiredLocked now s)" using assms by (rule reg_inv_cleanup)
  then have "reg_inv (snd (persistLocked fault ((cleanupExpiredLocked now s)
      \<lparr>registry := (registry (cleanupExpiredLocked now s))\<lparr>PairingSessions := [p]\<rparr>\<rparr>)))"
    if "psFailedAttempts p = 0" for p
    using that by (intro reg_inv_persist)
      (auto simp: reg_inv_def registry_ok_def pairing_ok_def maxPairingFailedAttempts_def)
  with c show ?thesis
    by (auto simp: CreatePairingSession_def Let_def split: option.splits)
qed

lemma reg_inv_failPairing:
  assumes "reg_inv s"
  shows "reg_inv (snd (failPairing fault s :: 'a reg_result))"
proof -
  have "snd (failPairing fault s :: 'a reg_result) = snd (recordFailedPairingAttemptLocked fault s)"
    by (auto simp: failPairing_def split: prod.splits sum.splits)
  moreover have "reg_inv (snd (recordFailedPairingAttemptLocked fault s))"
  proof (cases "PairingSessions (registry s)")
    case Nil
    with assms show ?thesis by (simp add: recordFailedPairingAttemptLocked_def)
  next
    case (Cons p ps)
    with assms have "ps = []" and "0 \<le> psFailedAttempts p"
      by (auto simp: reg_inv_def registry_ok_def pairing_ok_def)
    with Cons assms show ?thesis
      by (auto simp: recordFailedPairingAttemptLocked_def Let_def reg_simps reg_inv_def
          registry_ok_def pairing_ok_def)
  qed
  ultimately show ?thesis by simp
qed

lemma reg_inv_RedeemPairingSession [inv_intro]:
  assumes "reg_inv s"
  shows "reg_inv (snd (RedeemPairingSession sha256 code name now exp draws fault s))"
proof -
  define s1 where "s1 = cleanupExpiredLocked now s"
  have s1: "reg_inv s1" using assms unfolding s1_def by (rule reg_inv_cleanup)
  have redeemed: "reg_inv (snd (persistLocked fault (s1\<lparr>registry := (registry s1)
      \<lparr>Devices := Devices (registry s1) @ [d],
       PairingSessions := (PairingSessions (registry s1))
         [i := (PairingSessions (registry s1) ! i)\<lparr>psRedeemedAt := Some now\<rparr>]\<rparr>\<rparr>)))"
    if "deviceCount s1 < deviceLimit s1" "i < length (PairingSessions (registry s1))" for d i
    using that s1 by (intro reg_inv_persist) (auto simp: reg_inv_def registry_ok_def intro!: pairing_ok_update)
  show ?thesis
    using s1 redeemed
    by (auto simp: RedeemPairingSession_def Let_def reg_inv_failPairing simp flip: s1_def
        split: option.splits sum.splits dest: find_index_SomeD)
qed

lemma length_cleanup_devices [simp]:
  "deviceCount (cleanupExpiredLocked now s) = deviceCount s"
  "deviceLimit (cleanupExpiredLocked now s) = deviceLimit s"
  by (simp_all add: cleanupExpiredLocked_def cleanupRegistry_def)

lemma reg_inv_update_device:
  assumes "reg_inv s" and "i < length (Devices (registry s))"
  shows "reg_inv (snd (writeThenSwap f ((registry s)\<lparr>Devices := (Devices (registry s))[i := d]\<rparr>) a s))"
  using assms by (intro reg_inv_swap registry_ok_devices) (auto simp: reg_inv_def registry_ok_def)

lemma reg_inv_RotateRefreshToken [inv_intro]:
  assumes "reg_inv s"
  shows "reg_inv (snd (RotateRefreshToken sha256 tok repl now exp rsalt fault s))"
proof -
  define s1 where "s1 = cleanupExpiredLocked now s"
  have s1: "reg_inv s1" using assms unfolding s1_def by (rule reg_inv_cleanup)
  show ?thesis
    using s1
    by (auto simp: RotateRefreshToken_def Let_def simp flip: s1_def
        split: option.splits sum.splits dest: find_index_SomeD intro!: reg_inv_update_device [OF s1])
qed

lemma reg_inv_CreateHostedDevice [inv_intro]:
  assumes "reg_inv s"
  shows "reg_inv (snd (CreateHostedDevice sha256 name now exp draws fault s))"
proof -
  define s1 where "s1 = cleanupExpiredLocked now s"
  have s1: "reg_inv s1" using assms unfolding s1_def by (rule reg_inv_cleanup)
  then have "reg_inv (snd (persistLocked fault
      (s1\<lparr>registry := (registry s1)\<lparr>Devices := Devices (registry s1) @ [d]\<rparr>\<rparr>)))"
    if "deviceCount s1 < deviceLimit s1" for d
    using that by (intro reg_inv_persist) (auto simp: reg_inv_def registry_ok_def)
  with s1 show ?thesis
    by (auto simp: CreateHostedDevice_def Let_def simp flip: s1_def split: sum.splits)
qed

text \<open>The loop of \<open>oldestReviewDeviceIndex\<close> ends on a review device refreshed the longest ago.\<close>

definition oldest_review :: "device_record list \<Rightarrow> (nat \<times> device_record) option \<Rightarrow> bool" where
  "oldest_review xs best \<longleftrightarrow>
     (case best of
        None \<Rightarrow> \<forall>d\<in>set xs. \<not> devReviewOnly d
      | Some (j, b) \<Rightarrow> j < length xs \<and> xs ! j = b \<and> devReviewOnly b \<and>
          (\<forall>d\<in>set xs. devReviewOnly d \<longrightarrow> devLastRefreshedAt b \<le> devLastRefreshedAt d))"

lemma oldestReviewFrom_spec:
  "oldest_review ys best \<Longrightarrow> oldest_review (ys @ ds) (oldestReviewFrom (length ys) ds best)"
proof (induction ds arbitrary: best ys)
  case (Cons d ds)
  let ?b = "if \<not> devReviewOnly d then best
    else case best of None \<Rightarrow> Some (length ys, d)
      | Some (j, b) \<Rightarrow> if devLastRefreshedAt d < devLastRefreshedAt b then Some (length ys, d) else best"
  have "oldestReviewFrom (length ys) (d # ds) best = oldestReviewFrom (length (ys @ [d])) ds ?b"
    by (auto split: option.splits)
  moreover have "oldest_review (ys @ [d]) ?b"
    using Cons.prems by (auto simp: oldest_review_def nth_append split: option.splits)
  ultimately show ?case using Cons.IH [of "ys @ [d]" ?b] by simp
qed simp

lemma oldestReviewDeviceIndex_Some:
  assumes "oldestReviewDeviceIndex ds = Some i"
  shows "i < length ds" and "devReviewOnly (ds ! i)"
    and "\<forall>d\<in>set ds. devReviewOnly d \<longrightarrow> devLastRefreshedAt (ds ! i) \<le> devLastRefreshedAt d"
  using assms oldestReviewFrom_spec [of "[]" None ds]
  by (auto simp: oldestReviewDeviceIndex_def oldest_review_def)

lemma oldestReviewDeviceIndex_None:
  "oldestReviewDeviceIndex ds = None \<Longrightarrow> \<forall>d\<in>set ds. \<not> devReviewOnly d"
  using oldestReviewFrom_spec [of "[]" None ds]
  by (auto simp: oldestReviewDeviceIndex_def oldest_review_def)

lemma reg_inv_CreateHostedReviewDevice [inv_intro]:
  assumes "reg_inv s"
  shows "reg_inv (snd (CreateHostedReviewDevice sha256 name now exp draws fault s))"
proof -
  define s1 where "s1 = cleanupExpiredLocked now s"
  have s1: "reg_inv s1" using assms unfolding s1_def by (rule reg_inv_cleanup)
  then have lim: "1 \<le> deviceLimit s1" by (simp add: reg_inv_def)
  have keep: "reg_inv (snd (writeThenSwap fault
      ((registry s1)\<lparr>Devices := remove_at i (Devices (registry s1)) @ [d]\<rparr>) a s1))"
    if "i < length (Devices (registry s1))" for i d and a :: "device_record \<times> string"
    using that s1 by (intro reg_inv_swap registry_ok_devices)
      (auto simp: reg_inv_def registry_ok_def length_remove_at)
  have add: "reg_inv (snd (writeThenSwap fault
      ((registry s1)\<lparr>Devices := Devices (registry s1) @ [d]\<rparr>) a s1))"
    if "deviceCount s1 < (if deviceLimit s1 - 1 < 1 then 1 else deviceLimit s1 - 1)"
    for d and a :: "device_record \<times> string"
    using that s1 lim by (intro reg_inv_swap registry_ok_devices)
      (auto simp: reg_inv_def registry_ok_def split: if_splits)
  show ?thesis
    unfolding CreateHostedReviewDevice_def Let_def s1_def [symmetric]
    using s1 by (auto split: sum.splits option.splits if_splits
        intro!: keep add dest: oldestReviewDeviceIndex_Some)
      (cases "Devices (registry s1)"; simp)
qed

lemma reg_inv_RenameDevice [inv_intro]:
  assumes "reg_inv s"
  shows "reg_inv (snd (RenameDevice deviceID name now fault s))"
proof -
  define s1 where "s1 = cleanupExpiredLocked now s"
  have s1: "reg_inv s1" using assms unfolding s1_def by (rule reg_inv_cleanup)
  show ?thesis
    using assms s1
    by (auto simp: RenameDevice_def Let_def simp flip: s1_def
        split: option.splits dest: find_index_SomeD intro!: reg_inv_update_device [OF s1])
qed

lemma reg_inv_RevokeDevice [inv_intro]:
  assumes "reg_inv s"
  shows "reg_inv (snd (RevokeDevice deviceID now fault s))"
proof -
  define s1 where "s1 = cleanupExpiredLocked now s"
  have s1: "reg_inv s1" using assms unfolding s1_def by (rule reg_inv_cleanup)
  then have "reg_inv (snd (writeThenSwap fault
      ((registry s1)\<lparr>Devices := remove_at i (Devices (registry s1))\<rparr>) () s1))"
    if "i < length (Devices (registry s1))" for i
    using that by (intro reg_inv_swap registry_ok_devices)
      (auto simp: reg_inv_def registry_ok_def length_remove_at)
  with assms s1 show ?thesis
    by (auto simp: RevokeDevice_def Let_def simp flip: s1_def
        split: option.splits dest: find_index_SomeD)
qed

subsection \<open>Nearby links\<close>

lemma tryNearbyLinkCodes_fresh:
  "tryNearbyLinkCodes n rs ls = Inr code \<Longrightarrow> \<not> nearbyLinkCodeExists ls code"
  by (induction n rs ls rule: tryNearbyLinkCodes.induct) (auto split: option.splits if_splits)

lemma links_ok_append:
  "links_ok ls \<Longrightarrow> \<not> nearbyLinkCodeExists ls (nlLinkCode l) \<Longrightarrow> link_ok l \<Longrightarrow> links_ok (ls @ [l])"
  by (auto simp: links_ok_def nearbyLinkCodeExists_def list_ex_iff link_ok_def)

lemma reg_inv_CreateNearbyLink [inv_intro]:
  assumes "reg_inv s"
  shows "reg_inv (snd (CreateNearbyLink sha256 name kind now exp draws fault s))"
proof -
  define s1 where "s1 = cleanupExpiredLocked now s"
  have s1: "reg_inv s1" using assms unfolding s1_def by (rule reg_inv_cleanup)
  have "reg_inv (snd (appendNearbyLinkLocked fault l s1))"
    if "\<not> nearbyLinkCodeExists (NearbyLinks (registry s1)) (nlLinkCode l)" and "link_ok l" for l
    using that s1 unfolding appendNearbyLinkLocked_def Let_def
    by (intro reg_inv_swap registry_ok_links links_ok_append) (auto simp: reg_inv_def registry_ok_def)
  with s1 show ?thesis
    by (auto simp: CreateNearbyLink_def randomNearbyLinkCodeLocked_def Let_def simp flip: s1_def
        split: option.splits sum.splits prod.splits dest!: tryNearbyLinkCodes_fresh)
      (simp_all add: link_ok_def maxNearbyLinkFailedAttempts_def)
qed

lemma reg_inv_updateNearbyLink:
  assumes "reg_inv s" and "i < length (NearbyLinks (registry s))"
    and "nlLinkCode l = nlLinkCode (NearbyLinks (registry s) ! i)" and "link_ok l"
  shows "reg_inv (snd (updateNearbyLinkLocked fault i l s))"
proof -
  have "updateNearbyLinkLocked fault i l s = writeThenSwap fault
      ((registry s)\<lparr>NearbyLinks := (NearbyLinks (registry s))[i := l]\<rparr>) l s"
    using assms(2) by (simp add: updateNearbyLinkLocked_def Let_def)
  moreover have "registry_ok (deviceLimit s) (registry s)" "links_ok (NearbyLinks (registry s))"
    using assms(1) by (simp_all add: reg_inv_def registry_ok_def)
  ultimately show ?thesis
    using assms by (simp add: reg_inv_swap registry_ok_links links_ok_update)
qed

lemma link_ok_nth: "reg_inv s \<Longrightarrow> i < length (NearbyLinks (registry s)) \<Longrightarrow>
    link_ok (NearbyLinks (registry s) ! i)"
  by (simp add: reg_inv_def registry_ok_def links_ok_def)

lemma reg_inv_failPollToken:
  assumes "reg_inv s" and "i < length (NearbyLinks (registry s))"
  shows "reg_inv (snd (failPollToken fault i now s :: 'a reg_result))"
proof -
  have "snd (failPollToken fault i now s :: 'a reg_result)
      = snd (recordFailedNearbyLinkAttemptLocked fault i now s)"
    by (auto simp: failPollToken_def split: prod.splits sum.splits)
  with assms link_ok_nth [OF assms] show ?thesis
    by (auto simp: recordFailedNearbyLinkAttemptLocked_def Let_def link_ok_def
        intro!: reg_inv_updateNearbyLink)
qed

lemma reg_inv_denyLinkAt:
  "reg_inv s \<Longrightarrow> i < length (NearbyLinks (registry s)) \<Longrightarrow> reg_inv (snd (denyLinkAt fault i now s))"
  using link_ok_nth [of s i]
  by (auto simp: denyLinkAt_def Let_def link_ok_def intro!: reg_inv_updateNearbyLink)

lemma nearbyLinkByID_bound [dest]:
  "nearbyLinkByIDLocked linkID s = Some i \<Longrightarrow> i < length (NearbyLinks (registry s))"
  by (auto simp: nearbyLinkByIDLocked_def Let_def split: if_splits)

lemma link_ok_approved: "link_ok l \<Longrightarrow> link_ok (l\<lparr>nlApprovedAt := t\<rparr>)"
  by (simp add: link_ok_def)

lemma reg_inv_ApproveNearbyLink [inv_intro]:
  assumes "reg_inv s"
  shows "reg_inv (snd (ApproveNearbyLink code now fault s))"
proof -
  define s1 where "s1 = cleanupExpiredLocked now s"
  have s1: "reg_inv s1" using assms unfolding s1_def by (rule reg_inv_cleanup)
  show ?thesis
    using s1
    by (auto simp: ApproveNearbyLink_def Let_def simp flip: s1_def split: option.splits
        intro!: reg_inv_updateNearbyLink link_ok_approved link_ok_nth dest: find_index_SomeD)
qed

lemma reg_inv_DenyNearbyLink [inv_intro]:
  "reg_inv s \<Longrightarrow> reg_inv (snd (DenyNearbyLink linkID now fault s))"
  using reg_inv_cleanup [of s now]
  by (auto simp: DenyNearbyLink_def Let_def split: option.splits intro!: reg_inv_denyLinkAt)

lemma reg_inv_CancelNearbyLink [inv_intro]:
  "reg_inv s \<Longrightarrow> reg_inv (snd (CancelNearbyLink sha256 linkID token now fault s))"
  using reg_inv_cleanup [of s now]
  by (auto simp: CancelNearbyLink_def Let_def split: option.splits
      intro!: reg_inv_denyLinkAt reg_inv_failPollToken)

lemma reg_inv_PollNearbyLink [inv_intro]:
  "reg_inv s \<Longrightarrow> reg_inv (snd (PollNearbyLink sha256 linkID token now fault s))"
  using reg_inv_cleanup [of s now]
  by (auto simp: PollNearbyLink_def Let_def split: option.splits intro!: reg_inv_failPollToken)

lemma reg_inv_RedeemNearbyLink [inv_intro]:
  assumes "reg_inv s"
  shows "reg_inv (snd (RedeemNearbyLink sha256 linkID token now exp draws fault s))"
proof -
  define s1 where "s1 = cleanupExpiredLocked now s"
  have s1: "reg_inv s1" using assms unfolding s1_def by (rule reg_inv_cleanup)
  have "reg_inv (snd (writeThenSwap fault ((registry s1)
      \<lparr>NearbyLinks := remove_at i (NearbyLinks (registry s1)),
       Devices := Devices (registry s1) @ [d]\<rparr>) a s1))"
    if "deviceCount s1 < deviceLimit s1" for i d and a :: "device_record \<times> nearby_link"
    using that s1 by (intro reg_inv_swap) (auto simp: reg_inv_def registry_ok_def links_ok_remove)
  with s1 show ?thesis
    by (auto simp: RedeemNearbyLink_def Let_def simp flip: s1_def split: option.splits sum.splits
        intro!: reg_inv_failPollToken)
qed

section \<open>The machine\<close>

text \<open>
  One rule per operation. \<open>F\<close> restricts the identifiers that creating a link may draw; it
  is \<open>\<lambda>_. True\<close> except where a property speaks about one link until its identifier is
  drawn again.
\<close>

inductive reg_step ::
    "(string \<Rightarrow> string) \<Rightarrow> (string \<Rightarrow> bool) \<Rightarrow> registry_store \<Rightarrow> registry_store \<Rightarrow> bool"
  for sha256 F where
  snapshot: "reg_step sha256 F s (snd (Snapshot now s))"
| create_pairing: "reg_step sha256 F s (snd (CreatePairingSession now exp r f s))"
| redeem_pairing: "reg_step sha256 F s (snd (RedeemPairingSession sha256 code name now exp draws f s))"
| rotate: "reg_step sha256 F s (snd (RotateRefreshToken sha256 tok repl now exp r f s))"
| create_hosted: "reg_step sha256 F s (snd (CreateHostedDevice sha256 name now exp draws f s))"
| create_review: "reg_step sha256 F s (snd (CreateHostedReviewDevice sha256 name now exp draws f s))"
| has_device: "reg_step sha256 F s (snd (HasDevice deviceID now s))"
| rename: "reg_step sha256 F s (snd (RenameDevice deviceID name now f s))"
| revoke: "reg_step sha256 F s (snd (RevokeDevice deviceID now f s))"
| create_link: "\<forall>i. randomHex 16 (fst ldraws) = Some i \<longrightarrow> F i \<Longrightarrow>
    reg_step sha256 F s (snd (CreateNearbyLink sha256 name kind now exp ldraws f s))"
| list_links: "reg_step sha256 F s (snd (listNearbyLinks now s))"
| approve: "reg_step sha256 F s (snd (ApproveNearbyLink code now f s))"
| deny: "reg_step sha256 F s (snd (DenyNearbyLink linkID now f s))"
| cancel: "reg_step sha256 F s (snd (CancelNearbyLink sha256 linkID token now f s))"
| poll: "reg_step sha256 F s (snd (PollNearbyLink sha256 linkID token now f s))"
| redeem_link: "reg_step sha256 F s (snd (RedeemNearbyLink sha256 linkID token now exp draws f s))"

text \<open>An agent starts on a data directory without a registry file.\<close>

definition reg_init :: "(string \<Rightarrow> string) \<Rightarrow> registry_store \<Rightarrow> bool" where
  "reg_init sha256 s \<longleftrightarrow>
     (\<exists>dataDir limit rs now f1 f2.
        LoadOrCreateDeviceRegistry sha256 dataDir limit True FileMissing rs now f1 f2
          \<lparr>target = None, temp = None\<rparr> = Inr s)"

lemma reg_inv_openStore:
  assumes "1 \<le> limit" and "registry_ok limit r" and "disk_ok d"
    and "openStore (Inr r) limit now f d = Inr s"
  shows "reg_inv s"
proof -
  have "reg_inv (cleanupExpiredLocked now \<lparr>deviceLimit = limit, registry = r, disk = d\<rparr>)"
    using assms(1-3) by (intro reg_inv_cleanup) (simp add: reg_inv_def)
  with assms(4) show ?thesis
    by (auto simp: openStore_def Let_def reg_simps reg_inv_def split: if_splits)
qed

lemma reg_inv_init:
  assumes "reg_init sha256 s"
  shows "reg_inv s"
proof -
  from assms obtain dataDir limit rs now f1 f2 where
    load: "LoadOrCreateDeviceRegistry sha256 dataDir limit True FileMissing rs now f1 f2
             \<lparr>target = None, temp = None\<rparr> = Inr s"
    unfolding reg_init_def by blast
  define d where "d = snd (writeFile (persisted emptyRegistry) f1 \<lparr>target = None, temp = None\<rparr>)"
  have w: "writeFile (persisted emptyRegistry) f1 \<lparr>target = None, temp = None\<rparr> = (f1 = None, d)"
    unfolding d_def by (rule prod_eqI) simp_all
  from load have lim: "1 \<le> limit" and s: "openStore (Inr emptyRegistry) limit now f2 d = Inr s"
    unfolding LoadOrCreateDeviceRegistry_def w by (auto split: if_splits)
  have "disk_ok d" unfolding d_def by (rule disk_ok_write) (simp add: disk_ok_def)
  moreover have "registry_ok limit emptyRegistry"
    using lim by (simp add: registry_ok_def emptyRegistry_def pairing_ok_def links_ok_def)
  ultimately show ?thesis using lim s by (blast intro: reg_inv_openStore)
qed

lemma reg_inv_step:
  assumes "reg_step sha256 F s t" and "reg_inv s"
  shows "reg_inv t"
  using assms
  by (induction rule: reg_step.induct)
    (auto intro: inv_intro reg_inv_cleanup simp: Snapshot_def HasDevice_def listNearbyLinks_def Let_def)

interpretation reg: machine "reg_init sha256" "reg_step sha256 F" reg_inv for sha256 F
  by unfold_locales (blast intro: reg_inv_init reg_inv_step)+

abbreviation reg_reachable :: "(string \<Rightarrow> string) \<Rightarrow> registry_store \<Rightarrow> bool" where
  "reg_reachable sha256 \<equiv> reach (reg_init sha256) (reg_step sha256 (\<lambda>_. True))"

end
