(* ===== verification/Registry_Theorems.thy ===== *)
theory Registry_Theorems
  imports Registry_Machine
begin

text \<open>
  What the device registry guarantees: limits and secrecy in every reachable state, the
  bound on guessing a pairing code, rotation of refresh tokens with its replay window,
  eviction of review devices, and the life of a nearby link.
\<close>

section \<open>A concrete store for the examples\<close>

definition ex_draw :: "char \<Rightarrow> draw" where "ex_draw c n = Some (replicate n c)"

definition ex_draws :: "char \<Rightarrow> device_draws" where
  "ex_draws c = (ex_draw c, ex_draw c, ex_draw c)"

definition ex_store :: registry_store where
  "ex_store = \<lparr>deviceLimit = 2, registry = emptyRegistry,
     disk = \<lparr>target = Some emptyRegistry, temp = None\<rparr>\<rparr>"

lemma ex_store_init: "reg_init sha256 ex_store"
proof -
  have "LoadOrCreateDeviceRegistry sha256 ''d'' 2 True FileMissing rs 0 None None
      \<lparr>target = None, temp = None\<rparr> = Inr ex_store" for rs
    by (simp add: LoadOrCreateDeviceRegistry_def openStore_def Let_def writeFile_eq persistLocked_def
        writeDeviceRegistryFile_def replaces_def cleanupExpiredLocked_def cleanupRegistry_def
        emptyRegistry_def persisted_def ex_store_def)
  then show ?thesis unfolding reg_init_def by blast
qed

lemma ex_store_reachable: "reg_reachable sha256 ex_store"
  by (rule reach.start [where I = "reg_init sha256"]) (rule ex_store_init)

section \<open>Limits and secrecy\<close>





section \<open>Guessing a pairing code\<close>

record pairing_attempt =
  paCode :: string
  paName :: string
  paNow :: gotime
  paExpires :: gotime
  paDraws :: device_draws
  paFault :: "write_step option"

definition redeemAttempt ::
    "(string \<Rightarrow> string) \<Rightarrow> pairing_attempt \<Rightarrow> registry_store \<Rightarrow> device_record reg_result" where
  "redeemAttempt sha256 a s =
     RedeemPairingSession sha256 (paCode a) (paName a) (paNow a) (paExpires a) (paDraws a) (paFault a) s"

fun redeemAll :: "(string \<Rightarrow> string) \<Rightarrow> pairing_attempt list \<Rightarrow> registry_store \<Rightarrow> registry_store" where
  "redeemAll sha256 [] s = s"
| "redeemAll sha256 (a # as) s = redeemAll sha256 as (snd (redeemAttempt sha256 a s))"

definition attempts_left :: "registry_store \<Rightarrow> nat" where
  "attempts_left s =
     (case PairingSessions (registry s) of [] \<Rightarrow> 0
      | p # _ \<Rightarrow> nat (maxPairingFailedAttempts - psFailedAttempts p))"

lemma failPairing_Inl: "\<exists>e. fst (failPairing f s) = Inl e"
  by (auto simp: failPairing_def split: prod.splits sum.splits)

lemma failPairing_effect:
  fixes s :: registry_store and f :: "write_step option"
  defines "t \<equiv> snd (failPairing f s :: device_record reg_result)"
  shows "attempts_left t \<le> attempts_left s - 1"
    and "psCode ` set (PairingSessions (registry t)) \<subseteq> psCode ` set (PairingSessions (registry s))"
    and "deviceCount t = deviceCount s" and "deviceLimit t = deviceLimit s"
proof -
  have "t = snd (recordFailedPairingAttemptLocked f s)"
    unfolding t_def by (auto simp: failPairing_def split: prod.splits sum.splits)
  then show "attempts_left t \<le> attempts_left s - 1"
    and "psCode ` set (PairingSessions (registry t)) \<subseteq> psCode ` set (PairingSessions (registry s))"
    and "deviceCount t = deviceCount s" and "deviceLimit t = deviceLimit s"
    by (auto simp: recordFailedPairingAttemptLocked_def attempts_left_def Let_def reg_simps
        split: list.splits)
qed

lemma wrong_attempt:
  assumes "deviceCount s < deviceLimit s"
    and "trim_space (paCode a) \<notin> psCode ` set (PairingSessions (registry s))"
  shows "redeemAttempt sha256 a s = failPairing (paFault a) (cleanupExpiredLocked (paNow a) s)"
proof -
  have "trim_space (paCode a) \<notin>
      psCode ` set (PairingSessions (registry (cleanupExpiredLocked (paNow a) s)))"
    using assms(2) by (auto simp: cleanupExpiredLocked_def cleanupRegistry_def)
  then have "find_index (\<lambda>p. psCode p = trim_space (paCode a))
      (PairingSessions (registry (cleanupExpiredLocked (paNow a) s))) = None"
    by (auto simp: find_index_None image_iff)
  with assms(1) show ?thesis
    by (simp add: redeemAttempt_def RedeemPairingSession_def Let_def)
qed

lemma cleanup_attempts:
  assumes "pairing_ok (PairingSessions (registry s))"
  shows "attempts_left (cleanupExpiredLocked now s) \<le> attempts_left s"
    and "psCode ` set (PairingSessions (registry (cleanupExpiredLocked now s)))
      \<subseteq> psCode ` set (PairingSessions (registry s))"
  using assms by (auto simp: cleanupExpiredLocked_def cleanupRegistry_def attempts_left_def pairing_ok_def
      split: list.splits)

lemma attempts_exhausted: "reg_inv s \<Longrightarrow> attempts_left s = 0 \<Longrightarrow> PairingSessions (registry s) = []"
  by (auto simp: attempts_left_def reg_inv_def registry_ok_def pairing_ok_def split: list.splits)

lemma redeemAll_effect:
  assumes "reg_inv s" and "deviceCount s < deviceLimit s"
    and "\<forall>a\<in>set as. trim_space (paCode a) \<notin> psCode ` set (PairingSessions (registry s))"
  shows "reg_inv (redeemAll sha256 as s) \<and>
    attempts_left (redeemAll sha256 as s) \<le> attempts_left s - length as"
  using assms
proof (induction as arbitrary: s)
  case (Cons a as)
  define c where "c = cleanupExpiredLocked (paNow a) s"
  define t where "t = snd (failPairing (paFault a) c :: device_record reg_result)"
  have c: "reg_inv c" using Cons.prems(1) unfolding c_def by (rule reg_inv_cleanup)
  have ok: "pairing_ok (PairingSessions (registry s))"
    using Cons.prems(1) by (simp add: reg_inv_def registry_ok_def)
  have t: "snd (redeemAttempt sha256 a s) = t"
    using Cons.prems by (simp add: wrong_attempt t_def c_def)
  have "reg_inv t" unfolding t_def by (rule reg_inv_failPairing [OF c])
  moreover have "deviceCount t < deviceLimit t"
    using Cons.prems(2) by (simp add: t_def failPairing_effect c_def)
  moreover have "psCode ` set (PairingSessions (registry t)) \<subseteq> psCode ` set (PairingSessions (registry s))"
    unfolding t_def c_def using failPairing_effect(2) cleanup_attempts(2) [OF ok] by blast
  moreover have "attempts_left t \<le> attempts_left s - 1"
  proof -
    have "attempts_left t \<le> attempts_left c - 1" unfolding t_def by (rule failPairing_effect)
    also have "\<dots> \<le> attempts_left s - 1"
      using cleanup_attempts(1) [OF ok] by (simp add: c_def diff_le_mono)
    finally show ?thesis .
  qed
  moreover have "\<forall>a\<in>set as. trim_space (paCode a) \<notin> psCode ` set (PairingSessions (registry t))"
    using Cons.prems(3) calculation(3) by auto
  ultimately have "reg_inv (redeemAll sha256 as t)
      \<and> attempts_left (redeemAll sha256 as t) \<le> attempts_left s - 1 - length as"
    using Cons.IH [of t] by (meson diff_le_mono le_trans)
  then show ?case using t by simp
qed simp


definition ex_attempt :: "string \<Rightarrow> pairing_attempt" where
  "ex_attempt code = \<lparr>paCode = code, paName = ''phone'', paNow = 20, paExpires = 99,
     paDraws = ex_draws CHR ''b'', paFault = None\<rparr>"

definition ex_paired :: registry_store where
  "ex_paired = snd (CreatePairingSession 10 1000 (ex_draw CHR ''z'') None ex_store)"

lemma ex_paired_reachable: "reg_reachable sha256 ex_paired"
  unfolding ex_paired_def by (rule reach.step [OF ex_store_reachable]) (rule reg_step.create_pairing)


text \<open>
  Redeeming never reports a code as expired or already used: expired and redeemed
  sessions are dropped before the code is looked up, so both are reported as not found.
\<close>

theorem redeem_never_reports_expired_or_used:
  "fst (RedeemPairingSession sha256 code name now exp draws fault s)
     \<notin> {Inl ErrPairingSessionExpired, Inl ErrPairingSessionUsed}"
proof -
  define c where "c = cleanupExpiredLocked now s"
  have live: "psRedeemedAt (PairingSessions (registry c) ! i) = None
      \<and> \<not> psExpiresAt (PairingSessions (registry c) ! i) < now"
    if "i < length (PairingSessions (registry c))" for i
    using nth_mem [OF that] by (auto simp: c_def cleanupExpiredLocked_def cleanupRegistry_def)
  have fail: "fst (failPairing fault c :: device_record reg_result)
      \<in> {Inl ErrWriteFile, Inl ErrPairingSessionNotFound}"
    by (auto simp: failPairing_def recordFailedPairingAttemptLocked_def Let_def reg_simps
        split: list.splits)
  have new: "newDeviceRecord sha256 name now exp draws
      \<notin> {Inl ErrPairingSessionExpired, Inl ErrPairingSessionUsed}"
    by (auto simp: newDeviceRecord_def setRefreshToken_def Let_def split: prod.splits option.splits)
  show ?thesis
  proof (cases "find_index (\<lambda>p. psCode p = trim_space code) (PairingSessions (registry c))")
    case None
    with fail show ?thesis by (auto simp: RedeemPairingSession_def Let_def simp flip: c_def)
  next
    case (Some i)
    then have "psRedeemedAt (PairingSessions (registry c) ! i) = None"
      and "\<not> psExpiresAt (PairingSessions (registry c) ! i) < now"
      using live by (auto dest: find_index_SomeD(1))
    with Some fail new show ?thesis
      by (auto simp: RedeemPairingSession_def Let_def reg_simps simp flip: c_def split: sum.splits)
  qed
qed

section \<open>Rotation of refresh tokens\<close>

text \<open>
  \<open>rand.Read\<close> fills the whole buffer and SHA-256 never returns an empty digest; collisions
  are excluded only for the pair of tokens a property compares.
\<close>

definition honest_draw :: "draw \<Rightarrow> bool" where
  "honest_draw r \<longleftrightarrow> (\<forall>n. case r n of None \<Rightarrow> True | Some b \<Rightarrow> length b = n)"

definition accepts_ever :: "(string \<Rightarrow> string) \<Rightarrow> device_record \<Rightarrow> string \<Rightarrow> bool" where
  "accepts_ever sha256 d t \<longleftrightarrow> matchesRefreshToken sha256 d t
     \<or> hashRefreshToken sha256 (trim_space t) (devPreviousRefreshTokenSalt d) = devPreviousRefreshTokenHash d"

text \<open>Device \<open>i\<close> holds the token as its current one, and no other device knows it.\<close>

definition sole_holder :: "(string \<Rightarrow> string) \<Rightarrow> registry_store \<Rightarrow> nat \<Rightarrow> string \<Rightarrow> bool" where
  "sole_holder sha256 s i tok \<longleftrightarrow>
     (let ds = Devices (registry s) in
      i < length ds \<and> matchesRefreshToken sha256 (ds ! i) tok \<and>
      (\<forall>j<length ds. j \<noteq> i \<longrightarrow> \<not> accepts_ever sha256 (ds ! j) tok))"

lemma matches_trim [simp]:
  "matchesRefreshToken sha256 d (trim_space t) = matchesRefreshToken sha256 d t"
  "matchesPreviousRefreshToken sha256 d (trim_space t) now = matchesPreviousRefreshToken sha256 d t now"
  by (simp_all add: matchesRefreshToken_def matchesPreviousRefreshToken_def)

lemma matches_cleanup [simp]:
  "matchesRefreshToken sha256 (cleanupDevice now d) t = matchesRefreshToken sha256 d t"
  by (simp add: matchesRefreshToken_def cleanupDevice_def Let_def)

lemma matchesPrevious_accepts:
  "matchesPreviousRefreshToken sha256 d t now \<Longrightarrow> accepts_ever sha256 d t"
  by (auto simp: matchesPreviousRefreshToken_def accepts_ever_def Let_def split: if_splits)

lemma matchesPrevious_cleanup:
  "matchesPreviousRefreshToken sha256 (cleanupDevice now d) t now' \<Longrightarrow> accepts_ever sha256 d t"
  by (auto simp: matchesPreviousRefreshToken_def cleanupDevice_def accepts_ever_def Let_def
      split: if_splits)

lemma accepts_ever_cleanup:
  "\<not> accepts_ever sha256 d t \<Longrightarrow> trim_space t \<noteq> [] \<Longrightarrow>
   \<not> matchesPreviousRefreshToken sha256 (cleanupDevice now' (cleanupDevice now d)) t now'"
  by (auto simp: matchesPreviousRefreshToken_def cleanupDevice_def accepts_ever_def Let_def
      split: if_splits)

lemma setRefreshToken_Inr:
  assumes "setRefreshToken sha256 tok rsalt d = Inr d'"
  obtains salt where "randomBase64 16 rsalt = Some salt" and "trim_space tok \<noteq> []"
    and "d' = d\<lparr>devCurrentRefreshToken := trim_space tok, devRefreshTokenSalt := salt,
              devCurrentRefreshTokenHash := hashRefreshToken sha256 (trim_space tok) salt\<rparr>"
  using assms by (auto simp: setRefreshToken_def Let_def split: if_splits option.splits)

text \<open>What a first, accepted rotation stores.\<close>

lemma rotate_accepted:
  assumes holder: "sole_holder sha256 s i tok"
    and first: "RotateRefreshToken sha256 tok repl now exp rsalt None s = (Inr d, s1)"
  shows "rotatedDevice sha256 (trim_space repl) rsalt now exp
           (cleanupDevice now (Devices (registry s) ! i)) = Inr d"
    and "Devices (registry s1) = (map (cleanupDevice now) (Devices (registry s)))[i := d]"
    and "i < length (Devices (registry s))"
proof -
  define ds where "ds = map (cleanupDevice now) (Devices (registry s))"
  have i: "i < length (Devices (registry s))" and cur: "matchesRefreshToken sha256 (ds ! i) tok"
    using holder by (auto simp: sole_holder_def Let_def ds_def)
  have ne: "trim_space tok \<noteq> []"
    using cur by (auto simp: matchesRefreshToken_def Let_def split: if_splits)
  have "\<forall>j<length ds. j \<noteq> i \<longrightarrow> \<not> (matchesRefreshToken sha256 (ds ! j) tok
      \<or> matchesPreviousRefreshToken sha256 (ds ! j) tok now)"
    using holder matchesPrevious_cleanup
    by (fastforce simp: ds_def sole_holder_def Let_def accepts_ever_def)
  then have "find_index (\<lambda>d. matchesRefreshToken sha256 d tok
      \<or> matchesPreviousRefreshToken sha256 d tok now) ds = Some i"
    using i cur by (subst find_index_only [where i = i]) (auto simp: ds_def)
  with first cur ne i
  have "rotatedDevice sha256 (trim_space repl) rsalt now exp (ds ! i) = Inr d
      \<and> Devices (registry s1) = ds[i := d]"
    by (auto simp: RotateRefreshToken_def Let_def reg_simps cleanupExpiredLocked_def
        cleanupRegistry_def simp flip: ds_def split: if_splits sum.splits)
  then show "rotatedDevice sha256 (trim_space repl) rsalt now exp
        (cleanupDevice now (Devices (registry s) ! i)) = Inr d"
    and "Devices (registry s1) = (map (cleanupDevice now) (Devices (registry s)))[i := d]"
    using i by (simp_all add: ds_def)
  show "i < length (Devices (registry s))" by (rule i)
qed

definition replay_deadline :: "gotime \<Rightarrow> gotime \<Rightarrow> gotime" where
  "replay_deadline now exp = min (now + 2 * minute) exp"

lemma rotatedDevice_fields:
  assumes "rotatedDevice sha256 (trim_space repl) rsalt now exp d = Inr d'" and "honest_draw rsalt"
    and "\<forall>x. sha256 x \<noteq> []" and "matchesRefreshToken sha256 d tok"
  shows "matchesRefreshToken sha256 d' repl"
    and "devCurrentRefreshToken d' = trim_space repl"
    and "devPreviousRefreshTokenValidUntil d' = replay_deadline now exp"
    and "devLastRefreshedAt d' = now"
    and "matchesPreviousRefreshToken sha256 d' tok now' \<longleftrightarrow>
           now' < replay_deadline now exp \<and> \<not> is_zero (replay_deadline now exp)"
    and "matchesRefreshToken sha256 d' tok \<longleftrightarrow>
           hashRefreshToken sha256 (trim_space tok) (devRefreshTokenSalt d')
             = hashRefreshToken sha256 (trim_space repl) (devRefreshTokenSalt d')"
proof -
  have hash: "hashRefreshToken sha256 t salt \<noteq> []" for t salt
    using assms(3) by (simp add: hashRefreshToken_def)
  from assms(1) obtain d2 where
    set: "setRefreshToken sha256 (trim_space repl) rsalt
       (d\<lparr>devPreviousRefreshTokenHash := devCurrentRefreshTokenHash d,
          devPreviousRefreshTokenSalt := devRefreshTokenSalt d,
          devPreviousRefreshTokenValidUntil := replay_deadline now exp\<rparr>) = Inr d2"
    and d': "d' = d2\<lparr>devLastRefreshedAt := now, devRefreshTokenExpiresAt := exp\<rparr>"
    by (auto simp: rotatedDevice_def Let_def replay_deadline_def min_def
        previousRefreshTokenReplayGrace_def split: if_splits sum.splits)
  from set obtain salt where salt: "randomBase64 16 rsalt = Some salt" and ne: "trim_space repl \<noteq> []"
    and d2: "d2 = d\<lparr>devPreviousRefreshTokenHash := devCurrentRefreshTokenHash d,
          devPreviousRefreshTokenSalt := devRefreshTokenSalt d,
          devPreviousRefreshTokenValidUntil := replay_deadline now exp,
          devCurrentRefreshToken := trim_space repl, devRefreshTokenSalt := salt,
          devCurrentRefreshTokenHash := hashRefreshToken sha256 (trim_space repl) salt\<rparr>"
    by (rule setRefreshToken_Inr) simp
  have "salt \<noteq> []"
    using salt assms(2) by (auto simp: randomBase64_def honest_draw_def split: option.splits
        dest: spec [of _ 16])
  with hash ne assms(4) show "matchesRefreshToken sha256 d' repl"
    and "devCurrentRefreshToken d' = trim_space repl"
    and "devPreviousRefreshTokenValidUntil d' = replay_deadline now exp"
    and "devLastRefreshedAt d' = now"
    and "matchesPreviousRefreshToken sha256 d' tok now' \<longleftrightarrow>
           now' < replay_deadline now exp \<and> \<not> is_zero (replay_deadline now exp)"
    and "matchesRefreshToken sha256 d' tok \<longleftrightarrow>
           hashRefreshToken sha256 (trim_space tok) (devRefreshTokenSalt d')
             = hashRefreshToken sha256 (trim_space repl) (devRefreshTokenSalt d')"
    by (auto simp: d' d2 matchesRefreshToken_def matchesPreviousRefreshToken_def Let_def
        split: if_splits)
qed

text \<open>What a later presentation of the rotated-away token finds.\<close>

lemma rotate_lookup:
  assumes holder: "sole_holder sha256 s i tok"
    and first: "RotateRefreshToken sha256 tok repl now exp rsalt None s = (Inr d, s1)"
    and "honest_draw rsalt" and "\<forall>x. sha256 x \<noteq> []" and "0 \<le> now'"
    and coll: "hashRefreshToken sha256 (trim_space tok) (devRefreshTokenSalt d)
             \<noteq> hashRefreshToken sha256 (trim_space repl) (devRefreshTokenSalt d)"
  defines "ds \<equiv> Devices (registry (cleanupExpiredLocked now' s1))"
  shows "find_index (\<lambda>d. matchesRefreshToken sha256 d tok
            \<or> matchesPreviousRefreshToken sha256 d tok now') ds
          = (if now' < replay_deadline now exp then Some i else None)"
    and "now' < replay_deadline now exp \<Longrightarrow> ds ! i = d"
    and "\<not> matchesRefreshToken sha256 d tok"
proof -
  define ds0 where "ds0 = Devices (registry s)"
  note rot = rotate_accepted [OF holder first]
  have ds: "ds = map (cleanupDevice now') ((map (cleanupDevice now) ds0)[i := d])"
    by (simp add: ds_def ds0_def cleanupExpiredLocked_def cleanupRegistry_def rot(2))
  have i: "i < length ds0" and cur: "matchesRefreshToken sha256 (cleanupDevice now (ds0 ! i)) tok"
    using holder by (auto simp: sole_holder_def Let_def ds0_def)
  have ne: "trim_space tok \<noteq> []"
    using cur by (auto simp: matchesRefreshToken_def Let_def split: if_splits)
  note fields = rotatedDevice_fields [OF rot(1) assms(3,4) cur [unfolded ds0_def]]
  show notcur: "\<not> matchesRefreshToken sha256 d tok" using fields(6) coll by simp
  have at_i: "ds ! i = cleanupDevice now' d" using i by (simp add: ds)
  have others: "\<forall>j<length ds. j \<noteq> i \<longrightarrow> \<not> (matchesRefreshToken sha256 (ds ! j) tok
      \<or> matchesPreviousRefreshToken sha256 (ds ! j) tok now')"
    using holder accepts_ever_cleanup [OF _ ne]
    by (fastforce simp: ds ds0_def sole_holder_def Let_def accepts_ever_def)
  have live: "ds ! i = d" if "now' < replay_deadline now exp"
  proof -
    have "replay_deadline now exp \<noteq> zero_time"
      using that \<open>0 \<le> now'\<close> by (simp add: zero_time_def)
    moreover have "replay_deadline now exp \<le> now + previousRefreshTokenReplayGrace"
      by (simp add: replay_deadline_def previousRefreshTokenReplayGrace_def)
    ultimately show ?thesis
      using that fields(3,4) by (simp add: at_i cleanupDevice_def is_zero_def Let_def)
  qed
  then show "now' < replay_deadline now exp \<Longrightarrow> ds ! i = d" .
  have dead: "\<not> matchesPreviousRefreshToken sha256 (cleanupDevice now' d) tok now'"
    if "\<not> now' < replay_deadline now exp"
    using that fields(3)
    by (auto simp: cleanupDevice_def matchesPreviousRefreshToken_def Let_def split: if_splits)
  have alive: "matchesPreviousRefreshToken sha256 d tok now'" if "now' < replay_deadline now exp"
    using that fields(5) [of now'] \<open>0 \<le> now'\<close> by (simp add: is_zero_def zero_time_def)
  show "find_index (\<lambda>d. matchesRefreshToken sha256 d tok
            \<or> matchesPreviousRefreshToken sha256 d tok now') ds
          = (if now' < replay_deadline now exp then Some i else None)"
    using find_index_only [OF _ others] i live alive dead notcur at_i
    by (cases "now' < replay_deadline now exp") (simp_all add: ds)
qed

lemma rotation_retry:
  assumes "sole_holder sha256 s i tok"
    and "RotateRefreshToken sha256 tok repl now exp rsalt None s = (Inr d, s1)"
    and "honest_draw rsalt" and "\<forall>x. sha256 x \<noteq> []" and "0 \<le> now'"
    and "hashRefreshToken sha256 (trim_space tok) (devRefreshTokenSalt d)
             \<noteq> hashRefreshToken sha256 (trim_space repl) (devRefreshTokenSalt d)"
    and "now' < replay_deadline now exp"
  shows "RotateRefreshToken sha256 tok repl now' exp' rsalt' fault s1
    = (Inr d, cleanupExpiredLocked now' s1)"
proof -
  note rot = rotate_accepted [OF assms(1,2)]
  note look = rotate_lookup [OF assms(1-6)]
  have cur: "matchesRefreshToken sha256 (cleanupDevice now (Devices (registry s) ! i)) tok"
    using assms(1) by (simp add: sole_holder_def Let_def)
  note fields = rotatedDevice_fields [OF rot(1) assms(3,4) cur]
  have "trim_space tok \<noteq> []" "trim_space repl \<noteq> []"
    using cur fields(1) by (auto simp: matchesRefreshToken_def Let_def split: if_splits)
  moreover have "d\<lparr>devCurrentRefreshToken := trim_space repl\<rparr> = d"
    using fields(2) by (cases d) simp
  ultimately show ?thesis
    using look assms(7) fields(1) by (simp add: RotateRefreshToken_def Let_def)
qed

text \<open>
  A lost response to a rotation can be retried: presenting the same old token with the
  same replacement again before the replay deadline (two minutes after the rotation, or the
  token's expiry if that is sooner) returns the very record the first rotation returned and
  writes nothing, whatever fault the disk has.
\<close>

theorem rotation_retry_returns_same_session:
  assumes "sole_holder sha256 s i tok"
    and "RotateRefreshToken sha256 tok repl now exp rsalt None s = (Inr d, s1)"
    and "honest_draw rsalt" and "\<forall>x. sha256 x \<noteq> []" and "0 \<le> now'"
    and "hashRefreshToken sha256 (trim_space tok) (devRefreshTokenSalt d)
             \<noteq> hashRefreshToken sha256 (trim_space repl) (devRefreshTokenSalt d)"
    and "now' < replay_deadline now exp"
  shows "RotateRefreshToken sha256 tok repl now' exp' rsalt' fault s1
    = (Inr d, cleanupExpiredLocked now' s1)"
  using assms by (rule rotation_retry)

text \<open>
  A rotated-away token is dead: from the replay deadline on it is refused with any
  replacement, and before the deadline it is refused with every replacement but the one it
  was exchanged for.
\<close>

theorem rotated_token_refused:
  assumes "sole_holder sha256 s i tok"
    and "RotateRefreshToken sha256 tok repl now exp rsalt None s = (Inr d, s1)"
    and "honest_draw rsalt" and "\<forall>x. sha256 x \<noteq> []" and "0 \<le> now'"
    and "hashRefreshToken sha256 (trim_space tok) (devRefreshTokenSalt d)
             \<noteq> hashRefreshToken sha256 (trim_space repl) (devRefreshTokenSalt d)"
    and "replay_deadline now exp \<le> now'
         \<or> hashRefreshToken sha256 (trim_space other) (devRefreshTokenSalt d)
             \<noteq> hashRefreshToken sha256 (trim_space repl) (devRefreshTokenSalt d)"
  shows "fst (RotateRefreshToken sha256 tok other now' exp' rsalt' fault s1)
    = Inl ErrRefreshTokenNotFound"
proof -
  note rot = rotate_accepted [OF assms(1,2)]
  note look = rotate_lookup [OF assms(1-6)]
  have cur: "matchesRefreshToken sha256 (cleanupDevice now (Devices (registry s) ! i)) tok"
    using assms(1) by (simp add: sole_holder_def Let_def)
  have mine: "matchesRefreshToken sha256 d repl"
    by (rule rotatedDevice_fields(1) [OF rot(1) assms(3,4) cur])
  have "\<not> matchesRefreshToken sha256 d other" if "now' < replay_deadline now exp"
    using that assms(7) mine by (auto simp: matchesRefreshToken_def Let_def split: if_splits)
  then show ?thesis
    using look by (simp add: RotateRefreshToken_def Let_def)
qed

definition ex_device :: device_record where
  "ex_device = \<lparr>devDeviceID = ''id1'', devDeviceName = ''tv'', devReviewOnly = False,
     devCreatedAt = 5, devLastRefreshedAt = 5, devCurrentRefreshToken = [],
     devCurrentRefreshTokenHash = hashRefreshToken id ''old'' ''salt'',
     devRefreshTokenSalt = ''salt'', devRefreshTokenExpiresAt = 9000,
     devPreviousRefreshTokenHash = [], devPreviousRefreshTokenSalt = [],
     devPreviousRefreshTokenValidUntil = zero_time\<rparr>"

definition ex_digest :: "string \<Rightarrow> string" where "ex_digest s = CHR ''#'' # s"

definition ex_rotation :: registry_store where
  "ex_rotation = ex_store\<lparr>registry := emptyRegistry\<lparr>Devices :=
     [ex_device\<lparr>devCurrentRefreshTokenHash := hashRefreshToken ex_digest ''old'' ''salt''\<rparr>]\<rparr>\<rparr>"

definition ex_rotated :: "device_record reg_result" where
  "ex_rotated = RotateRefreshToken ex_digest ''old'' ''new'' 100 8000 (ex_draw CHR ''r'') None ex_rotation"

lemma ex_rotation_facts:
  "sole_holder ex_digest ex_rotation 0 ''old''"
  "is_ok (fst ex_rotated)"
  "hashRefreshToken ex_digest (trim_space ''old'') (devRefreshTokenSalt (projr (fst ex_rotated)))
    \<noteq> hashRefreshToken ex_digest (trim_space ''new'') (devRefreshTokenSalt (projr (fst ex_rotated)))"
  "hashRefreshToken ex_digest (trim_space ''bad'') (devRefreshTokenSalt (projr (fst ex_rotated)))
    \<noteq> hashRefreshToken ex_digest (trim_space ''new'') (devRefreshTokenSalt (projr (fst ex_rotated)))"
  by code_simp+

lemma ex_rotation_step:
  "RotateRefreshToken ex_digest ''old'' ''new'' 100 8000 (ex_draw CHR ''r'') None ex_rotation
    = (Inr (projr (fst ex_rotated)), snd ex_rotated)"
  using ex_rotation_facts(2) by (auto simp: ex_rotated_def is_ok_iff intro: prod_eqI)

lemma ex_draw_honest: "honest_draw (ex_draw c)"
  by (simp add: honest_draw_def ex_draw_def)

theorem rotation_retry_returns_same_session_witness:
  "RotateRefreshToken ex_digest ''old'' ''new'' 200 9999 (ex_draw CHR ''q'') None (snd ex_rotated)
    = (Inr (projr (fst ex_rotated)), cleanupExpiredLocked 200 (snd ex_rotated))"
  by (rule rotation_retry_returns_same_session
      [OF ex_rotation_facts(1) ex_rotation_step ex_draw_honest _ _ ex_rotation_facts(3)])
    (simp_all add: ex_digest_def replay_deadline_def)

theorem rotated_token_refused_witness:
  "fst (RotateRefreshToken ex_digest ''old'' ''bad'' 200 9999 (ex_draw CHR ''q'') None (snd ex_rotated))
    = Inl ErrRefreshTokenNotFound"
  by (rule rotated_token_refused
      [OF ex_rotation_facts(1) ex_rotation_step ex_draw_honest _ _ ex_rotation_facts(3)])
    (simp_all add: ex_digest_def ex_rotation_facts(4))

section \<open>Failed writes\<close>

lemma swap_fault [simp]:
  "registry (snd (writeThenSwap (Some st) upd a s)) = registry s"
  "fst (writeThenSwap (Some st) upd a s) = Inl ErrWriteFile"
  by (simp_all add: reg_simps Let_def)

lemma updateNearbyLink_fault [simp]:
  "registry (snd (updateNearbyLinkLocked (Some st) i l s)) = registry s"
  by (simp add: updateNearbyLinkLocked_def Let_def)

lemma failPollToken_fault [simp]: "registry (snd (failPollToken (Some st) i now s)) = registry s"
  by (auto simp: failPollToken_def recordFailedNearbyLinkAttemptLocked_def Let_def
      split: prod.splits sum.splits) (metis snd_conv updateNearbyLink_fault)+

lemma denyLinkAt_fault [simp]: "registry (snd (denyLinkAt (Some st) i now s)) = registry s"
  by (simp add: denyLinkAt_def Let_def)

text \<open>
  The operations that write an updated clone first are atomic: when the write of the
  registry file fails, rotating a token, creating a review device, and creating, approving,
  denying, cancelling, polling and redeeming a nearby link leave the registry in memory as
  the expiry of old entries left it, and renaming or revoking a device changes nothing more.
\<close>

theorem failed_write_rolls_back:
  "registry (snd (RotateRefreshToken sha256 tok repl now exp r (Some st) s)) = cleanupRegistry now (registry s)
  \<and> registry (snd (CreateHostedReviewDevice sha256 name now exp draws (Some st) s)) = cleanupRegistry now (registry s)
  \<and> registry (snd (CreateNearbyLink sha256 name kind now exp ldraws (Some st) s)) = cleanupRegistry now (registry s)
  \<and> registry (snd (ApproveNearbyLink code now (Some st) s)) = cleanupRegistry now (registry s)
  \<and> registry (snd (DenyNearbyLink linkID now (Some st) s)) = cleanupRegistry now (registry s)
  \<and> registry (snd (CancelNearbyLink sha256 linkID tok now (Some st) s)) = cleanupRegistry now (registry s)
  \<and> registry (snd (PollNearbyLink sha256 linkID tok now (Some st) s)) = cleanupRegistry now (registry s)
  \<and> registry (snd (RedeemNearbyLink sha256 linkID tok now exp draws (Some st) s)) = cleanupRegistry now (registry s)
  \<and> registry (snd (RenameDevice devID name now (Some st) s)) \<in> {registry s, cleanupRegistry now (registry s)}
  \<and> registry (snd (RevokeDevice devID now (Some st) s)) \<in> {registry s, cleanupRegistry now (registry s)}"
proof -
  have c: "registry (cleanupExpiredLocked now s) = cleanupRegistry now (registry s)"
    by (simp add: cleanupExpiredLocked_def)
  show ?thesis
  proof (intro conjI)
    show "registry (snd (RotateRefreshToken sha256 tok repl now exp r (Some st) s)) = cleanupRegistry now (registry s)"
      by (auto simp: RotateRefreshToken_def Let_def c split: option.splits sum.splits)
    show "registry (snd (CreateHostedReviewDevice sha256 name now exp draws (Some st) s)) = cleanupRegistry now (registry s)"
      by (auto simp: CreateHostedReviewDevice_def Let_def c split: option.splits sum.splits)
    show "registry (snd (CreateNearbyLink sha256 name kind now exp ldraws (Some st) s)) = cleanupRegistry now (registry s)"
      by (auto simp: CreateNearbyLink_def appendNearbyLinkLocked_def Let_def c
          split: option.splits sum.splits prod.splits)
    show "registry (snd (ApproveNearbyLink code now (Some st) s)) = cleanupRegistry now (registry s)"
      by (auto simp: ApproveNearbyLink_def Let_def c split: option.splits)
    show "registry (snd (DenyNearbyLink linkID now (Some st) s)) = cleanupRegistry now (registry s)"
      by (auto simp: DenyNearbyLink_def Let_def c split: option.splits)
    show "registry (snd (CancelNearbyLink sha256 linkID tok now (Some st) s)) = cleanupRegistry now (registry s)"
      by (auto simp: CancelNearbyLink_def Let_def c split: option.splits)
    show "registry (snd (PollNearbyLink sha256 linkID tok now (Some st) s)) = cleanupRegistry now (registry s)"
      by (auto simp: PollNearbyLink_def Let_def c split: option.splits)
    show "registry (snd (RedeemNearbyLink sha256 linkID tok now exp draws (Some st) s)) = cleanupRegistry now (registry s)"
      by (auto simp: RedeemNearbyLink_def Let_def c split: option.splits sum.splits)
    show "registry (snd (RenameDevice devID name now (Some st) s)) \<in> {registry s, cleanupRegistry now (registry s)}"
      by (auto simp: RenameDevice_def Let_def c split: option.splits)
    show "registry (snd (RevokeDevice devID now (Some st) s)) \<in> {registry s, cleanupRegistry now (registry s)}"
      by (auto simp: RevokeDevice_def Let_def c split: option.splits)
  qed
qed

text \<open>
  C39. Redeeming a pairing code is not: it changes the registry in memory before it writes
  the file, so when the write fails it reports an error although the new device stays
  paired in memory and the code is used up.
\<close>

theorem failed_redeem_keeps_device:
  assumes "registry s = r" and "PairingSessions r = [p]" and "psCode p = trim_space code"
    and "psCode p \<noteq> []" and "psRedeemedAt p = None" and "now \<le> psExpiresAt p"
    and "int (length (Devices r)) < deviceLimit s"
    and "newDeviceRecord sha256 name now exp draws = Inr d"
  shows "RedeemPairingSession sha256 code name now exp draws (Some st) s
    = (Inl ErrWriteFile,
       snd (RedeemPairingSession sha256 code name now exp draws (Some st) s))
    \<and> Devices (registry (snd (RedeemPairingSession sha256 code name now exp draws (Some st) s)))
      = map (cleanupDevice now) (Devices r) @ [d]
    \<and> PairingSessions (registry (snd (RedeemPairingSession sha256 code name now exp draws (Some st) s)))
      = [p\<lparr>psRedeemedAt := Some now\<rparr>]"
  using assms
  by (simp add: RedeemPairingSession_def Let_def cleanupExpiredLocked_def cleanupRegistry_def reg_simps)

definition ex_pairing :: pairing_session where
  "ex_pairing = \<lparr>psCode = ''code'', psCreatedAt = 0, psExpiresAt = 100, psFailedAttempts = 0,
     psRedeemedAt = None\<rparr>"

theorem failed_redeem_keeps_device_witness:
  "Devices (registry (snd (RedeemPairingSession id ''code'' ''tv'' 5 9 (ex_draws CHR ''a'')
     (Some SyncTemp) (ex_store\<lparr>registry := emptyRegistry\<lparr>PairingSessions := [ex_pairing]\<rparr>\<rparr>))))
   = [projr (newDeviceRecord id ''tv'' 5 9 (ex_draws CHR ''a''))]"
proof -
  have "is_ok (newDeviceRecord id ''tv'' 5 9 (ex_draws CHR ''a''))" by code_simp
  then have d: "newDeviceRecord id ''tv'' 5 9 (ex_draws CHR ''a'')
      = Inr (projr (newDeviceRecord id ''tv'' 5 9 (ex_draws CHR ''a'')))"
    by (auto simp: is_ok_iff)
  have t: "trim_space ''code'' = ''code''" by code_simp
  show ?thesis
    using failed_redeem_keeps_device
      [OF _ _ _ _ _ _ _ d, where s = "ex_store\<lparr>registry := emptyRegistry\<lparr>PairingSessions := [ex_pairing]\<rparr>\<rparr>"
        and r = "emptyRegistry\<lparr>PairingSessions := [ex_pairing]\<rparr>" and code = "''code''"
        and st = SyncTemp]
    by (simp add: ex_pairing_def ex_store_def emptyRegistry_def t)
qed

section \<open>Review devices\<close>

text \<open>
  A new review device displaces at most one device, and only another review device,
  the one refreshed the longest ago; every ordinary device stays, the order of the others
  is kept, and without a displacement one slot stays free for ordinary pairing (unless the
  limit is one device).
\<close>

theorem review_device_displaces_oldest_review:
  assumes "CreateHostedReviewDevice sha256 name now exp draws fault s = (Inr (d, evicted), t)"
  defines "old \<equiv> map (cleanupDevice now) (Devices (registry s))"
  shows "devReviewOnly d
    \<and> (Devices (registry t) = old @ [d] \<and> evicted = []
         \<and> int (length (Devices (registry t))) \<le> max 1 (deviceLimit s - 1)
       \<or> (\<exists>i<length old. Devices (registry t) = remove_at i old @ [d]
            \<and> evicted = devDeviceID (old ! i) \<and> devReviewOnly (old ! i)
            \<and> (\<forall>x\<in>set old. devReviewOnly x \<longrightarrow> devLastRefreshedAt (old ! i) \<le> devLastRefreshedAt x)))"
proof -
  define c where "c = cleanupExpiredLocked now s"
  have old: "Devices (registry c) = old"
    by (simp add: c_def cleanupExpiredLocked_def cleanupRegistry_def old_def)
  define cap where "cap = max 1 (deviceLimit s - 1)"
  have cap: "(if deviceLimit c - 1 < 1 then 1 else deviceLimit c - 1) = cap"
    by (simp add: c_def cap_def)
  have cnt: "deviceCount c = int (length old)" by (simp add: old)
  define full where "full \<longleftrightarrow> cap \<le> int (length old)"
  define ev where "ev = (if full then oldestReviewDeviceIndex old else None)"
  have "CreateHostedReviewDevice sha256 name now exp draws fault s =
     (if full \<and> ev = None then (Inl ErrDeviceLimitReached, c)
      else case newDeviceRecord sha256 name now exp draws of
        Inl e \<Rightarrow> (Inl e, c)
      | Inr x \<Rightarrow> writeThenSwap fault ((registry c)\<lparr>Devices :=
            (case ev of None \<Rightarrow> old | Some i \<Rightarrow> remove_at i old) @ [x\<lparr>devReviewOnly := True\<rparr>]\<rparr>)
          (x\<lparr>devReviewOnly := True\<rparr>, case ev of None \<Rightarrow> [] | Some i \<Rightarrow> devDeviceID (old ! i)) c)"
    unfolding CreateHostedReviewDevice_def c_def [symmetric] Let_def cap cnt old
      full_def [symmetric] ev_def [symmetric] by (rule refl)
  with assms(1) have "devReviewOnly d \<and> (full \<longrightarrow> ev \<noteq> None)
      \<and> Devices (registry t) = (case ev of None \<Rightarrow> old | Some i \<Rightarrow> remove_at i old) @ [d]
      \<and> evicted = (case ev of None \<Rightarrow> [] | Some i \<Rightarrow> devDeviceID (old ! i))"
    by (auto simp: reg_simps split: if_splits sum.splits)
  then show ?thesis
    using oldestReviewDeviceIndex_Some [of old]
    by (cases ev) (auto simp: ev_def full_def cap_def split: if_splits)
qed

theorem review_device_displaces_oldest_review_witness:
  "let s = snd (CreateHostedReviewDevice id ''r1'' 5 900 (ex_draws CHR ''a'') None ex_store);
       r = CreateHostedReviewDevice id ''r2'' 7 900 (ex_draws CHR ''b'') None s
   in is_ok (fst r) \<and> devReviewOnly (fst (projr (fst r)))"
proof -
  define s where "s = snd (CreateHostedReviewDevice id ''r1'' 5 900 (ex_draws CHR ''a'') None ex_store)"
  define r where "r = CreateHostedReviewDevice id ''r2'' 7 900 (ex_draws CHR ''b'') None s"
  have ok: "is_ok (fst r)" unfolding r_def s_def by code_simp
  then obtain d e where r: "r = (Inr (d, e), snd r)" by (cases r) (auto simp: is_ok_iff)
  have "devReviewOnly d"
    using review_device_displaces_oldest_review [OF r [unfolded r_def]] by blast
  then show ?thesis
    unfolding s_def [symmetric] r_def [symmetric] Let_def using ok r by (metis fst_conv sum.sel(2))
qed

end
