(* ===== verification/Link_Theorems.thy ===== *)
theory Link_Theorems
  imports Registry_Theorems "HOL-Library.Multiset"
begin

text \<open>
  What the nearby links guarantee: a device is issued only for an approved link and once,
  a denied link is denied for good, the code and the poll token that creating a link
  returns lead to a device, and the registry file brings back the same devices.
\<close>

section \<open>Redeeming a link\<close>

lemma nearbyLinkByID_Some:
  assumes "nearbyLinkByIDLocked linkID s = Some i"
  shows "i < length (NearbyLinks (registry s))"
    and "nlLinkID (NearbyLinks (registry s) ! i) = trim_space linkID"
  using assms by (auto simp: nearbyLinkByIDLocked_def Let_def split: if_splits)

lemma failPollToken_not_Inr [simp]:
  "failPollToken f i now s \<noteq> (Inr a, t)" "(Inr a, t) \<noteq> failPollToken f i now s"
  by (auto simp: failPollToken_def split: prod.splits sum.splits)

definition live_link :: "gotime \<Rightarrow> nearby_link \<Rightarrow> bool" where
  "live_link now l \<longleftrightarrow> nlConsumedAt l = None \<and> now \<le> nlExpiresAt l"

lemma links_cleanup:
  "NearbyLinks (registry (cleanupExpiredLocked now s)) = filter (live_link now) (NearbyLinks (registry s))"
  unfolding live_link_def by (auto simp: cleanupExpiredLocked_def cleanupRegistry_def not_less intro: filter_cong)

text \<open>
  C6. A device is paired through a nearby link only if the registry holds a live link with
  that identifier which an administrator approved and nobody denied, the poll token hashes
  to the one stored for it, and the device limit leaves room; the link is removed together
  with its code, so that it pairs one device only.
\<close>

theorem redeemed_link_was_approved:
  assumes "RedeemNearbyLink sha256 linkID token now exp draws fault s = (Inr (d, l), t)"
  shows "\<exists>l0\<in>set (NearbyLinks (registry s)).
      nlLinkID l0 = trim_space linkID \<and> live_link now l0 \<and> nlApprovedAt l0 \<noteq> None
    \<and> nlDeniedAt l0 = None \<and> matchesPollToken sha256 l0 token \<and> l = l0\<lparr>nlConsumedAt := Some now\<rparr>
    \<and> Devices (registry t) = map (cleanupDevice now) (Devices (registry s)) @ [d]
    \<and> deviceCount t \<le> deviceLimit t
    \<and> mset (map nlLinkCode (NearbyLinks (registry t))) + {#nlLinkCode l0#}
      = mset (map nlLinkCode (filter (live_link now) (NearbyLinks (registry s))))"
proof -
  define c where "c = cleanupExpiredLocked now s"
  have ls: "NearbyLinks (registry c) = filter (live_link now) (NearbyLinks (registry s))"
    unfolding c_def by (rule links_cleanup)
  have ds: "Devices (registry c) = map (cleanupDevice now) (Devices (registry s))"
    by (simp add: c_def cleanupExpiredLocked_def cleanupRegistry_def)
  from assms obtain i where i: "nearbyLinkByIDLocked linkID c = Some i"
    by (auto simp: RedeemNearbyLink_def Let_def simp flip: c_def split: if_splits option.splits)
  define l0 where "l0 = NearbyLinks (registry c) ! i"
  have in_c: "l0 \<in> set (NearbyLinks (registry c))"
    unfolding l0_def by (rule nth_mem [OF nearbyLinkByID_Some(1) [OF i]])
  have eff: "\<not> deviceLimit c \<le> deviceCount c \<and> matchesPollToken sha256 l0 token \<and> nlConsumedAt l0 = None
      \<and> nlDeniedAt l0 = None \<and> nlApprovedAt l0 \<noteq> None \<and> l = l0\<lparr>nlConsumedAt := Some now\<rparr>
      \<and> Devices (registry t) = Devices (registry c) @ [d] \<and> deviceLimit t = deviceLimit c
      \<and> NearbyLinks (registry t) = remove_at i (NearbyLinks (registry c))"
    using assms i unfolding l0_def
    by (auto simp: RedeemNearbyLink_def Let_def reg_simps simp flip: c_def
        split: if_splits sum.splits)
  have "mset (map nlLinkCode (NearbyLinks (registry t))) + {#nlLinkCode l0#}
      = mset (map nlLinkCode (NearbyLinks (registry c)))"
  proof -
    have "NearbyLinks (registry c) = take i (NearbyLinks (registry c)) @ l0 # drop (Suc i) (NearbyLinks (registry c))"
      unfolding l0_def by (rule id_take_nth_drop [OF nearbyLinkByID_Some(1) [OF i]])
    then have "mset (map nlLinkCode (NearbyLinks (registry c)))
        = mset (map nlLinkCode (take i (NearbyLinks (registry c)) @ l0 # drop (Suc i) (NearbyLinks (registry c))))"
      by simp
    then show ?thesis using eff by (simp add: remove_at_def)
  qed
  with eff in_c ls ds nearbyLinkByID_Some(2) [OF i] show ?thesis
    by (intro bexI [of _ l0]) (auto simp: l0_def)
qed

section \<open>A denied link\<close>

text \<open>
  How one step changes the links: each link afterwards was there before, as denied as it
  was and with at least its failed attempts, or has a new identifier.
\<close>

definition link_evolves ::
    "(string \<Rightarrow> bool) \<Rightarrow> registry_store \<Rightarrow> registry_store \<Rightarrow> bool" where
  "link_evolves F s t \<longleftrightarrow>
     (\<forall>l'\<in>set (NearbyLinks (registry t)).
        F (nlLinkID l') \<or>
        (\<exists>l\<in>set (NearbyLinks (registry s)). nlLinkID l = nlLinkID l'
           \<and> (nlDeniedAt l \<noteq> None \<longrightarrow> nlDeniedAt l' \<noteq> None)))"

lemma evolves_subset:
  "set (NearbyLinks (registry t)) \<subseteq> set (NearbyLinks (registry s)) \<Longrightarrow> link_evolves F s t"
  by (auto simp: link_evolves_def)

lemma evolves_same [simp]:
  "NearbyLinks (registry t) = NearbyLinks (registry s) \<Longrightarrow> link_evolves F s t"
  by (rule evolves_subset) simp

lemma evolves_cleanup:
  "link_evolves F (cleanupExpiredLocked now s) t \<Longrightarrow> link_evolves F s t"
  unfolding link_evolves_def links_cleanup by auto

lemma evolves_update:
  assumes "i < length (NearbyLinks (registry s))" and "nlLinkID l = nlLinkID (NearbyLinks (registry s) ! i)"
    and "nlDeniedAt (NearbyLinks (registry s) ! i) \<noteq> None \<Longrightarrow> nlDeniedAt l \<noteq> None"
  shows "link_evolves F s (snd (updateNearbyLinkLocked f i l s))"
proof -
  have "set ((NearbyLinks (registry s))[i := l]) \<subseteq> insert l (set (NearbyLinks (registry s)))"
    by (rule set_update_subset_insert)
  then have "set (NearbyLinks (registry (snd (updateNearbyLinkLocked f i l s))))
      \<subseteq> insert l (set (NearbyLinks (registry s)))"
    using assms(1) by (auto simp: updateNearbyLinkLocked_def Let_def reg_simps)
  moreover have "NearbyLinks (registry s) ! i \<in> set (NearbyLinks (registry s))"
    using assms(1) by simp
  ultimately show ?thesis
    using assms(2,3) unfolding link_evolves_def by (metis insertE subsetD)
qed

lemma evolves_failPollToken:
  assumes "i < length (NearbyLinks (registry s))"
  shows "link_evolves F s (snd (failPollToken f i now s :: 'a reg_result))"
proof -
  have "snd (failPollToken f i now s :: 'a reg_result) = snd (recordFailedNearbyLinkAttemptLocked f i now s)"
    by (auto simp: failPollToken_def split: prod.splits sum.splits)
  with assms show ?thesis
    by (auto simp: recordFailedNearbyLinkAttemptLocked_def Let_def intro!: evolves_update)
qed

lemma evolves_denyLinkAt:
  "i < length (NearbyLinks (registry s)) \<Longrightarrow> link_evolves F s (snd (denyLinkAt f i now s))"
  by (auto simp: denyLinkAt_def Let_def intro!: evolves_update)

lemma failPairing_links: "NearbyLinks (registry (snd (failPairing f s))) = NearbyLinks (registry s)"
  by (auto simp: failPairing_def recordFailedPairingAttemptLocked_def Let_def reg_simps
      split: prod.splits sum.splits list.splits if_splits)

lemma evolves_failPairing: "link_evolves F s (snd (failPairing f s :: 'a reg_result))"
  by (rule evolves_subset) (simp add: failPairing_links)

lemmas evolve_intros = evolves_failPollToken evolves_denyLinkAt evolves_failPairing

lemma evolves_create:
  assumes "\<forall>i. randomHex 16 (fst draws) = Some i \<longrightarrow> F i"
  shows "link_evolves F s (snd (CreateNearbyLink sha256 name kind now exp draws f s))"
proof (rule evolves_cleanup [of _ now])
  define c where "c = cleanupExpiredLocked now s"
  show "link_evolves F c (snd (CreateNearbyLink sha256 name kind now exp draws f s))"
    using assms
    by (auto simp: CreateNearbyLink_def appendNearbyLinkLocked_def Let_def reg_simps link_evolves_def
        simp flip: c_def split: option.splits sum.splits prod.splits)
qed

lemma evolves_step: "reg_step sha256 F s t \<Longrightarrow> link_evolves F s t"
proof (induction rule: reg_step.induct)
  case (create_link ldraws s name kind now exp f)
  then show ?case by (rule evolves_create)
next
  case (redeem_pairing s code name now exp draws f)
  define c where "c = cleanupExpiredLocked now s"
  show ?case
    by (rule evolves_cleanup [of _ now], fold c_def)
      (auto simp: RedeemPairingSession_def Let_def reg_simps simp flip: c_def
        split: option.splits sum.splits intro!: evolve_intros)
next
  case (redeem_link s linkID token now exp draws f)
  define c where "c = cleanupExpiredLocked now s"
  have upd: "link_evolves F c (snd (writeThenSwap f ((registry c)
      \<lparr>NearbyLinks := remove_at i (NearbyLinks (registry c)), Devices := ds\<rparr>) a c))"
    for i ds and a :: "device_record \<times> nearby_link"
    using set_remove_at [of i "NearbyLinks (registry c)"]
    by (intro evolves_subset) (auto simp: reg_simps Let_def split: if_splits)
  show ?case
    by (rule evolves_cleanup [of _ now], fold c_def)
      (auto simp: RedeemNearbyLink_def Let_def simp flip: c_def
        split: option.splits sum.splits intro!: evolve_intros upd)
next
  case (cancel s linkID token now f)
  show ?case
    by (rule evolves_cleanup [of _ now])
      (auto simp: CancelNearbyLink_def Let_def split: option.splits
        intro!: evolve_intros)
next
  case (deny s linkID now f)
  show ?case
    by (rule evolves_cleanup [of _ now])
      (auto simp: DenyNearbyLink_def Let_def split: option.splits
        intro!: evolve_intros)
next
  case (poll s linkID token now f)
  show ?case
    by (rule evolves_cleanup [of _ now])
      (auto simp: PollNearbyLink_def Let_def split: option.splits
        intro!: evolve_intros)
next
  case (approve s code now f)
  show ?case
    by (rule evolves_cleanup [of _ now])
      (auto simp: ApproveNearbyLink_def Let_def split: option.splits
        intro!: evolves_update dest: find_index_SomeD)
next
  case (create_pairing s now exp r f)
  show ?case
    by (rule evolves_cleanup [of _ now], rule evolves_subset)
      (auto simp: CreatePairingSession_def Let_def reg_simps split: option.splits if_splits)
next
  case (rotate s tok repl now exp r f)
  show ?case
    by (rule evolves_cleanup [of _ now], rule evolves_subset)
      (auto simp: RotateRefreshToken_def Let_def reg_simps split: option.splits sum.splits if_splits)
next
  case (create_hosted s name now exp draws f)
  show ?case
    by (rule evolves_cleanup [of _ now], rule evolves_subset)
      (auto simp: CreateHostedDevice_def Let_def reg_simps split: option.splits sum.splits if_splits)
next
  case (create_review s name now exp draws f)
  define c where "c = cleanupExpiredLocked now s"
  show ?case
    by (rule evolves_cleanup [of _ now], fold c_def, rule evolves_subset)
      (auto simp: CreateHostedReviewDevice_def Let_def reg_simps simp flip: c_def
        split: option.splits sum.splits if_splits)
next
  case (rename s deviceID name now f)
  show ?case
    by (auto simp: RenameDevice_def Let_def reg_simps split: option.splits if_splits
        intro: evolves_cleanup [of _ now] evolves_subset intro!: evolves_cleanup [of _ now, OF evolves_subset])
next
  case (revoke s deviceID now f)
  show ?case
    by (auto simp: RevokeDevice_def Let_def reg_simps split: option.splits if_splits
        intro: evolves_subset intro!: evolves_cleanup [of _ now, OF evolves_subset])
qed (auto simp: Snapshot_def HasDevice_def listNearbyLinks_def Let_def
      intro!: evolves_subset simp: links_cleanup)

definition denied_link :: "string \<Rightarrow> registry_store \<Rightarrow> bool" where
  "denied_link linkID s \<longleftrightarrow>
     (\<forall>l\<in>set (NearbyLinks (registry s)). nlLinkID l = linkID \<longrightarrow> nlDeniedAt l \<noteq> None)"

lemma denied_step:
  "reg_step sha256 (\<lambda>i. i \<noteq> linkID) s t \<Longrightarrow> denied_link linkID s \<Longrightarrow> denied_link linkID t"
  by (drule evolves_step) (fastforce simp: denied_link_def link_evolves_def)

interpretation denied: machine "denied_link linkID" "reg_step sha256 (\<lambda>i. i \<noteq> linkID)" "denied_link linkID"
  for linkID sha256
  by unfold_locales (blast intro: denied_step)+

text \<open>
  Once a nearby link is denied, by an administrator, by the app that asked for it or
  by five wrong poll tokens, no sequence of requests pairs a device through it: until its
  identifier is drawn again, redeeming it fails, however the clock runs.
\<close>

theorem denied_link_never_redeemed:
  assumes "(reg_step sha256 (\<lambda>i. i \<noteq> linkID))\<^sup>*\<^sup>* s t" and "denied_link linkID s"
    and "trim_space given = linkID"
  shows "\<not> is_ok (fst (RedeemNearbyLink sha256 given token now exp draws fault t))"
proof
  assume "is_ok (fst (RedeemNearbyLink sha256 given token now exp draws fault t))"
  then obtain d l u where r: "RedeemNearbyLink sha256 given token now exp draws fault t = (Inr (d, l), u)"
    by (cases "RedeemNearbyLink sha256 given token now exp draws fault t") (auto simp: is_ok_iff)
  define c where "c = cleanupExpiredLocked now t"
  from denied.inv_steps [OF assms(1,2)] have "denied_link linkID c"
    by (auto simp: denied_link_def c_def links_cleanup)
  moreover from r obtain i where "nearbyLinkByIDLocked given c = Some i"
      and "nlDeniedAt (NearbyLinks (registry c) ! i) = None"
    by (auto simp: RedeemNearbyLink_def Let_def simp flip: c_def split: if_splits option.splits)
  ultimately show False
    using nearbyLinkByID_Some [of given c i] assms(3) by (auto simp: denied_link_def)
qed

section \<open>From a request to a device\<close>

lemma find_index_last:
  "\<forall>x\<in>set xs. \<not> P x \<Longrightarrow> P y \<Longrightarrow> find_index P (xs @ [y]) = Some (length xs)"
  by (induction xs) auto

lemma collect_digits_id: "\<forall>c\<in>set s. is_digit c \<Longrightarrow> collect_digits s = Some s"
  by (induction s) auto

lemma normalize_link_code:
  assumes "v < 10 ^ 6" and "randomNearbyLinkCode (Some v) = Some code"
  shows "normalizeNearbyLinkCode code = code" and "code \<noteq> []"
proof -
  have code: "code = pad_zero 6 (decimal v)"
    using assms(2) by (simp add: randomNearbyLinkCode_def nearbyLinkCodeLength_def)
  have len: "length code = 6"
    unfolding code using assms(1) by (intro length_pad_zero length_decimal) simp_all
  have digits: "\<forall>c\<in>set code. is_digit c"
    unfolding code by (intro pad_zero_digits decimal_digits)
  then have "trim_space code = code" by (auto intro!: trim_space_id graphic_trimmed is_digit_graphic)
  with len digits show "normalizeNearbyLinkCode code = code"
    by (simp add: normalizeNearbyLinkCode_def collect_digits_id nearbyLinkCodeLength_def)
  from len show "code \<noteq> []" by auto
qed

lemma tryNearbyLinkCodes_source:
  "tryNearbyLinkCodes n rs ls = Inr code \<Longrightarrow> \<exists>k v. rs k = Some v \<and> randomNearbyLinkCode (Some v) = Some code"
proof (induction n arbitrary: rs)
  case (Suc n)
  show ?case
  proof (cases "rs 0")
    case (Some v)
    have "\<exists>k v. rs (Suc k) = Some v \<and> randomNearbyLinkCode (Some v) = Some code"
      if "tryNearbyLinkCodes n (\<lambda>k. rs (Suc k)) ls = Inr code"
      using Suc.IH [OF that] .
    with Some Suc.prems show ?thesis
      by (auto simp: randomNearbyLinkCode_def split: if_splits)
  qed (use Suc in \<open>simp add: randomNearbyLinkCode_def\<close>)
qed simp

text \<open>The effect of creating a link without faults.\<close>

definition fresh_link ::
    "(string \<Rightarrow> string) \<Rightarrow> string \<Rightarrow> string \<Rightarrow> gotime \<Rightarrow> gotime \<Rightarrow> string \<Rightarrow> string \<Rightarrow> string \<Rightarrow> string \<Rightarrow>
     nearby_link" where
  "fresh_link sha256 name kind now exp linkID code token salt =
     \<lparr>nlLinkID = linkID, nlLinkCode = code, nlDeviceName = trim_space name,
      nlDeviceKind = normalizeNearbyLinkDeviceKind kind,
      nlPollTokenHash = hashRefreshToken sha256 token salt, nlPollTokenSalt = salt,
      nlCreatedAt = now, nlExpiresAt = exp, nlApprovedAt = None, nlDeniedAt = None,
      nlConsumedAt = None, nlFailedAttempts = 0\<rparr>"

lemma created_link:
  assumes "CreateNearbyLink sha256 name kind now exp (rid, rcodes, rtoken, rsalt) None s = (Inr (l, token), s1)"
  defines "c \<equiv> cleanupExpiredLocked now s"
  obtains linkID code salt where
    "l = fresh_link sha256 name kind now exp linkID code token salt"
    "NearbyLinks (registry s1) = NearbyLinks (registry c) @ [l]"
    "Devices (registry s1) = Devices (registry c)"
    "deviceCount c < deviceLimit c" "deviceLimit s1 = deviceLimit c"
    "randomHex 16 rid = Some linkID" "randomBase64 32 rtoken = Some token"
    "randomBase64 16 rsalt = Some salt"
    "tryNearbyLinkCodes nearbyLinkCodeGenerationTries rcodes (NearbyLinks (registry c)) = Inr code"
proof -
  note eq = assms(1) [unfolded CreateNearbyLink_def prod.case c_def [symmetric] Let_def
      fresh_link_def [symmetric]]
  have cap: "deviceCount c < deviceLimit c"
    using eq by (auto split: if_splits)
  from eq obtain linkID where id: "randomHex 16 rid = Some linkID"
    by (cases "randomHex 16 rid") (auto split: if_splits)
  from eq id obtain code where code: "randomNearbyLinkCodeLocked rcodes c = Inr code"
    by (cases "randomNearbyLinkCodeLocked rcodes c") (auto split: if_splits)
  from eq id code obtain tok where tok: "randomBase64 32 rtoken = Some tok"
    by (cases "randomBase64 32 rtoken") (auto split: if_splits)
  from eq id code tok obtain salt where salt: "randomBase64 16 rsalt = Some salt"
    by (cases "randomBase64 16 rsalt") (auto split: if_splits)
  define k where "k = fresh_link sha256 name kind now exp linkID code tok salt"
  from eq id code tok salt have "l = k" and "token = tok"
    and "s1 = snd (appendNearbyLinkLocked None k c)"
    by (auto simp: k_def split: if_splits prod.splits sum.splits)
  with cap id code tok salt that [of linkID code salt] show thesis
    by (simp add: appendNearbyLinkLocked_def reg_simps Let_def k_def randomNearbyLinkCodeLocked_def)
qed

text \<open>A random source that fills the buffer it is given.\<close>

definition filling_draw :: "draw \<Rightarrow> bool" where
  "filling_draw r \<longleftrightarrow> (\<forall>n. \<exists>b. r n = Some b \<and> length b = n)"

lemma newDeviceRecord_filled:
  assumes "filling_draw r1" "filling_draw r2" "filling_draw r3"
  obtains d where "newDeviceRecord sha256 name now exp (r1, r2, r3) = Inr d"
    and "devDeviceName d = trim_space name"
proof -
  obtain b1 b2 b3 where b: "r1 16 = Some b1" "r2 32 = Some b2" "r3 16 = Some b3" "length b2 = 32"
    using assms unfolding filling_draw_def by metis
  then have "trim_space (raw_std_encode b2) \<noteq> []" by (auto simp: rawstd.enc_trim)
  with b that show thesis
    by (auto simp: newDeviceRecord_def setRefreshToken_def randomHex_def randomBase64_def Let_def)
qed


definition ex_sha :: "string \<Rightarrow> string" where "ex_sha x = CHR ''h'' # x"

definition ex_link_draws :: link_draws where
  "ex_link_draws = (ex_draw CHR ''l'', \<lambda>_. Some 42, ex_draw CHR ''t'', ex_draw CHR ''s'')"

definition ex_created :: "(nearby_link \<times> string) reg_result" where
  "ex_created = CreateNearbyLink ex_sha '' tv '' ''ios'' 5 900 ex_link_draws None ex_store"

definition ex_link :: nearby_link where "ex_link = fst (projr (fst ex_created))"
definition ex_token :: string where "ex_token = snd (projr (fst ex_created))"
definition ex_linked :: registry_store where "ex_linked = snd ex_created"

lemma ex_created_ok: "is_ok (fst ex_created)"
  by code_simp

lemma ex_created_eq: "ex_created = (Inr (ex_link, ex_token), ex_linked)"
  using ex_created_ok
  by (auto simp: is_ok_iff ex_link_def ex_token_def ex_linked_def prod_eq_iff)

lemma ex_filling: "filling_draw (ex_draw c)"
  by (simp add: filling_draw_def ex_draw_def)


theorem redeemed_link_was_approved_witness:
  "\<exists>l0\<in>set (NearbyLinks (registry (snd (ApproveNearbyLink (nlLinkCode ex_link) 20 None ex_linked)))).
     nlApprovedAt l0 \<noteq> None \<and> matchesPollToken ex_sha l0 ex_token"
proof -
  define s where "s = snd (ApproveNearbyLink (nlLinkCode ex_link) 20 None ex_linked)"
  define r where "r = RedeemNearbyLink ex_sha (nlLinkID ex_link) ex_token 30 99 (ex_draws CHR ''d'') None s"
  have "is_ok (fst r)" unfolding r_def s_def by code_simp
  then obtain d l where "r = (Inr (d, l), snd r)" by (cases r) (auto simp: is_ok_iff)
  from redeemed_link_was_approved [OF this [unfolded r_def]] show ?thesis
    unfolding s_def [symmetric] by blast
qed

theorem denied_link_never_redeemed_witness:
  "let s = snd (DenyNearbyLink (nlLinkID ex_link) 20 None ex_linked);
       t = snd (ApproveNearbyLink (nlLinkCode ex_link) 21 None s)
   in NearbyLinks (registry t) \<noteq> []
      \<and> \<not> is_ok (fst (RedeemNearbyLink ex_sha (nlLinkID ex_link) ex_token 30 99 (ex_draws CHR ''d'') None t))"
proof -
  define s where "s = snd (DenyNearbyLink (nlLinkID ex_link) 20 None ex_linked)"
  define t where "t = snd (ApproveNearbyLink (nlLinkCode ex_link) 21 None s)"
  have "list_all (\<lambda>l. nlDeniedAt l \<noteq> None) (NearbyLinks (registry s))"
    unfolding s_def by code_simp
  then have "denied_link (nlLinkID ex_link) s" by (auto simp: denied_link_def list_all_iff)
  moreover have "(reg_step ex_sha (\<lambda>i. i \<noteq> nlLinkID ex_link))\<^sup>*\<^sup>* s t"
    unfolding t_def by (rule r_into_rtranclp) (rule reg_step.approve)
  moreover have "trim_space (nlLinkID ex_link) = nlLinkID ex_link" by code_simp
  moreover have "NearbyLinks (registry t) \<noteq> []" unfolding t_def s_def by code_simp
  ultimately show ?thesis
    using denied_link_never_redeemed [of ex_sha "nlLinkID ex_link" s t]
    unfolding s_def [symmetric] Let_def t_def [symmetric] by blast
qed

section \<open>Restarting the agent\<close>

text \<open>What every record that the registry creates has: a hash and a salt, nothing to trim.\<close>

definition has_token_material :: "device_record \<Rightarrow> bool" where
  "has_token_material d \<longleftrightarrow>
     devCurrentRefreshTokenHash d \<noteq> [] \<and> trimmed (devCurrentRefreshTokenHash d)
   \<and> devRefreshTokenSalt d \<noteq> [] \<and> trimmed (devRefreshTokenSalt d)
   \<and> trimmed (devPreviousRefreshTokenHash d) \<and> trimmed (devPreviousRefreshTokenSalt d)"

lemma trimmed_Nil [simp]: "trimmed []"
  by (rule graphic_trimmed) simp

lemma trimmed_raw_std [simp]: "trimmed (raw_std_encode x)"
  by (metis rawstd.enc_trim trimmed_trim_space)

lemma setRefreshToken_material:
  assumes "setRefreshToken sha256 token rsalt d = Inr d'" and "honest_draw rsalt"
    and "\<forall>x. sha256 x \<noteq> []" and "trimmed (devPreviousRefreshTokenHash d)"
    and "trimmed (devPreviousRefreshTokenSalt d)"
  shows "has_token_material d'"
  using assms
  by (auto simp: setRefreshToken_def randomBase64_def has_token_material_def hashRefreshToken_def
      honest_draw_def Let_def split: if_splits option.splits dest!: spec [of _ 16])

lemma newDeviceRecord_material:
  "newDeviceRecord sha256 name now exp (r1, r2, r3) = Inr d \<Longrightarrow> honest_draw r3 \<Longrightarrow>
   \<forall>x. sha256 x \<noteq> [] \<Longrightarrow> has_token_material d"
  by (auto simp: newDeviceRecord_def split: option.splits intro: setRefreshToken_material)

lemma rotatedDevice_material:
  "rotatedDevice sha256 repl r3 now exp d = Inr d' \<Longrightarrow> honest_draw r3 \<Longrightarrow>
   \<forall>x. sha256 x \<noteq> [] \<Longrightarrow> has_token_material d \<Longrightarrow> has_token_material d'"
  by (auto simp: rotatedDevice_def Let_def has_token_material_def split: sum.splits
      dest!: setRefreshToken_material)

lemma cleanupDevice_material: "has_token_material d \<Longrightarrow> has_token_material (cleanupDevice now d)"
  by (simp add: has_token_material_def cleanupDevice_def Let_def)

lemma unmarshal_persisted:
  "\<forall>d\<in>set ds. has_token_material d \<Longrightarrow>
   unmarshalDevices sha256 rs (map (\<lambda>d. d\<lparr>devCurrentRefreshToken := []\<rparr>) ds)
     = Inr (map (\<lambda>d. d\<lparr>devCurrentRefreshToken := []\<rparr>) ds)"
  by (induction ds arbitrary: rs)
    (auto simp: unmarshalDevice_def Let_def has_token_material_def trim_space_id)

text \<open>
  C30. Stopping the agent and starting it again on the file the registry wrote keeps every
  session, link and device that is still valid, and each device goes on accepting exactly
  the refresh tokens it accepted; only the plaintext tokens in memory are gone.
\<close>

theorem restart_keeps_registry:
  assumes "\<forall>d\<in>set (Devices r). has_token_material d" and "dataDir \<noteq> []" and "1 \<le> limit"
    and "temp dir = None"
  shows "\<exists>s. LoadOrCreateDeviceRegistry sha256 dataDir limit True (FileText (Some (persisted r)))
        rs now fault1 None dir = Inr s
    \<and> registry s = cleanupRegistry now (persisted r)
    \<and> map (matchesRefreshToken sha256) (Devices (registry s)) = map (matchesRefreshToken sha256) (Devices r)
    \<and> target (disk s) = Some (registry s)"
proof -
  have "unmarshalDevices sha256 rs (Devices (persisted r)) = Inr (Devices (persisted r))"
    using unmarshal_persisted [OF assms(1)] by (simp add: persisted_def)
  moreover have "map (matchesRefreshToken sha256) (Devices (cleanupRegistry now (persisted r)))
      = map (matchesRefreshToken sha256) (Devices r)"
    by (auto simp: cleanupRegistry_def persisted_def matchesRefreshToken_def fun_eq_iff
        cleanupDevice_def Let_def)
  moreover have "persisted (cleanupRegistry now (persisted r)) = cleanupRegistry now (persisted r)"
    by (simp add: persisted_def cleanupRegistry_def cleanupDevice_def Let_def)
  ultimately show ?thesis
    using assms(2,3,4)
    by (simp add: LoadOrCreateDeviceRegistry_def openStore_def Let_def reg_simps
        cleanupExpiredLocked_def writeFile_eq replaces_def)
qed

theorem restart_keeps_registry_witness:
  "let r = registry (snd (RedeemPairingSession ex_sha (psCode (hd (PairingSessions (registry ex_paired))))
        ''phone'' 20 99 (ex_draws CHR ''b'') None ex_paired))
   in length (Devices r) = 1 \<and>
      (\<exists>s. LoadOrCreateDeviceRegistry ex_sha ''data'' 2 True (FileText (Some (persisted r)))
          (\<lambda>_. ex_draw CHR ''q'') 30 None None \<lparr>target = None, temp = None\<rparr> = Inr s
        \<and> registry s = cleanupRegistry 30 (persisted r))"
proof -
  define r where "r = registry (snd (RedeemPairingSession ex_sha
      (psCode (hd (PairingSessions (registry ex_paired)))) ''phone'' 20 99 (ex_draws CHR ''b'') None ex_paired))"
  have "list_all has_token_material (Devices r)" "length (Devices r) = 1"
    unfolding r_def by code_simp+
  then show ?thesis
    using restart_keeps_registry [of r "''data''" 2 "\<lparr>target = None, temp = None\<rparr>"
        ex_sha "\<lambda>_. ex_draw CHR ''q''" 30 None]
    unfolding r_def [symmetric] Let_def by (auto simp: list_all_iff)
qed

end
