(* ===== verification/Tokens.thy ===== *)
theory Tokens
  imports Codec
begin

text \<open>
  \<open>internal/security/token_manager.go\<close>: the access tokens the agent signs for paired
  devices, a JSON payload and its HMAC, both in URL base64, joined by a dot. HMAC-SHA256
  (\<open>hmac\<close>, of a key and a message), SHA-256 (\<open>sha256\<close>) and the two directions of
  \<open>encoding/json\<close> for the claims (\<open>marshal\<close>, \<open>unmarshal\<close>) are arguments.
\<close>

section \<open>The token manager\<close>

definition AudienceTimichAgent :: string where "AudienceTimichAgent = ''timich-agent''"
definition ScopeMedia :: string where "ScopeMedia = ''media''"

record access_token_claims =
  clAgentID :: string
  clAppDeviceID :: string
  clAudience :: string
  clScope :: string
  clTokenID :: string
  clKeyID :: string
  clIssuedAt :: int
  clExpiresAt :: int

record token_manager =
  tmAgentID :: string
  tmKey :: string
  tmKeyID :: string
  tmTtl :: duration

datatype token_error =
  ErrAccessTokenInvalid | ErrAccessTokenExpired
| ErrAgentIDEmpty | ErrTTLNotPositive | ErrSigningKeyEncoding | ErrSigningKeyEmpty
| ErrDeviceIDEmpty | ErrAudienceEmpty | ErrTokenIDRandom

definition deriveKeyID :: "(string \<Rightarrow> string) \<Rightarrow> string \<Rightarrow> string" where
  "deriveKeyID sha256 key = raw_url_encode (take 8 (sha256 key))"

definition randomTokenID :: "draw \<Rightarrow> string option" where
  "randomTokenID r = map_option raw_url_encode (r 16)"

definition NewTokenManager ::
    "(string \<Rightarrow> string) \<Rightarrow> string \<Rightarrow> string \<Rightarrow> duration \<Rightarrow> (token_error, token_manager) result" where
  "NewTokenManager sha256 agentID encodedKey ttl =
     (if trim_space agentID = [] then Inl ErrAgentIDEmpty
      else if ttl \<le> 0 then Inl ErrTTLNotPositive
      else case raw_std_decode encodedKey of
        None \<Rightarrow> Inl ErrSigningKeyEncoding
      | Some key \<Rightarrow>
          if key = [] then Inl ErrSigningKeyEmpty
          else Inr \<lparr>tmAgentID = agentID, tmKey = key, tmKeyID = deriveKeyID sha256 key,
                    tmTtl = ttl\<rparr>)"

definition sign :: "(string \<Rightarrow> string \<Rightarrow> string) \<Rightarrow> token_manager \<Rightarrow> string \<Rightarrow> string" where
  "sign hmac m payload = hmac (tmKey m) payload"

definition MintAccessToken ::
    "(string \<Rightarrow> string \<Rightarrow> string) \<Rightarrow> (access_token_claims \<Rightarrow> string) \<Rightarrow> token_manager \<Rightarrow>
     string \<Rightarrow> string \<Rightarrow> gotime \<Rightarrow> draw \<Rightarrow> (token_error, string \<times> access_token_claims) result" where
  "MintAccessToken hmac marshal m deviceID audience now rid =
     (let normalizedDeviceID = trim_space deviceID in
      if normalizedDeviceID = [] then Inl ErrDeviceIDEmpty
      else
        let normalizedAudience = trim_space audience in
        if normalizedAudience = [] then Inl ErrAudienceEmpty
        else case randomTokenID rid of
          None \<Rightarrow> Inl ErrTokenIDRandom
        | Some tokenID \<Rightarrow>
            let claims = \<lparr>clAgentID = tmAgentID m, clAppDeviceID = normalizedDeviceID,
                          clAudience = normalizedAudience, clScope = ScopeMedia,
                          clTokenID = tokenID, clKeyID = tmKeyID m,
                          clIssuedAt = unix_seconds now,
                          clExpiresAt = unix_seconds (now + tmTtl m)\<rparr>;
                payload = marshal claims;
                encodedPayload = raw_url_encode payload;
                encodedSignature = raw_url_encode (sign hmac m payload)
            in Inr (encodedPayload @ ''.'' @ encodedSignature, claims))"

definition VerifyAccessToken ::
    "(string \<Rightarrow> string \<Rightarrow> string) \<Rightarrow> (string \<Rightarrow> access_token_claims option) \<Rightarrow> token_manager \<Rightarrow>
     string \<Rightarrow> string \<Rightarrow> gotime \<Rightarrow> (token_error, access_token_claims) result" where
  "VerifyAccessToken hmac unmarshal m token expectedAudience now =
     (let normalizedAudience = trim_space expectedAudience in
      if normalizedAudience = [] then Inl ErrAccessTokenInvalid
      else
        let parts = split_on (CHR ''.'') token in
        if length parts \<noteq> 2 then Inl ErrAccessTokenInvalid
        else case raw_url_decode (parts ! 0) of
          None \<Rightarrow> Inl ErrAccessTokenInvalid
        | Some payload \<Rightarrow>
        (case raw_url_decode (parts ! 1) of
          None \<Rightarrow> Inl ErrAccessTokenInvalid
        | Some signature \<Rightarrow>
            if signature \<noteq> sign hmac m payload then Inl ErrAccessTokenInvalid
            else case unmarshal payload of
              None \<Rightarrow> Inl ErrAccessTokenInvalid
            | Some claims \<Rightarrow>
                if clAgentID claims \<noteq> tmAgentID m \<or> clAppDeviceID claims = []
                   \<or> clAudience claims \<noteq> normalizedAudience \<or> clScope claims \<noteq> ScopeMedia
                   \<or> clTokenID claims = [] \<or> clKeyID claims \<noteq> tmKeyID m
                then Inl ErrAccessTokenInvalid
                else if clExpiresAt claims \<le> unix_seconds now then Inl ErrAccessTokenExpired
                else Inr claims))"

section \<open>Signed texts\<close>

text \<open>Base64 texts joined by dots come apart again.\<close>

lemma url_no_dot: "CHR ''.'' \<notin> set (raw_url_encode s)"
  by (rule rawurl.enc_avoids) (rule no_dot_in_url)

lemma split_two: "split_on (CHR ''.'') (raw_url_encode a @ CHR ''.'' # raw_url_encode b)
    = [raw_url_encode a, raw_url_encode b]"
  by (simp add: split_on_append split_on_none url_no_dot)

lemma split_three:
  "split_on (CHR ''.'') (raw_url_encode a @ CHR ''.'' # raw_url_encode b @ CHR ''.'' # raw_url_encode c)
    = [raw_url_encode a, raw_url_encode b, raw_url_encode c]"
  by (simp add: split_on_append split_on_none url_no_dot)

lemma minted:
  assumes "MintAccessToken hmac marshal m deviceID audience now rid = Inr (token, claims)"
  shows "token = raw_url_encode (marshal claims) @ ''.'' @ raw_url_encode (sign hmac m (marshal claims))"
    and "clAgentID claims = tmAgentID m" and "clAppDeviceID claims = trim_space deviceID"
    and "clAppDeviceID claims \<noteq> []" and "clAudience claims = trim_space audience"
    and "clAudience claims \<noteq> []" and "clScope claims = ScopeMedia" and "clKeyID claims = tmKeyID m"
    and "randomTokenID rid = Some (clTokenID claims)"
    and "clExpiresAt claims = unix_seconds (now + tmTtl m)"
  using assms by (auto simp: MintAccessToken_def Let_def split: if_splits option.splits)

lemma tokenID_nonempty: "randomTokenID r = Some t \<Longrightarrow> r 16 = Some b \<Longrightarrow> b \<noteq> [] \<Longrightarrow> t \<noteq> []"
  by (auto simp: randomTokenID_def)

section \<open>What a token is good for\<close>

lemma minted_verifies:
  assumes "MintAccessToken hmac marshal m deviceID audience now rid = Inr (token, claims)"
    and "unmarshal (marshal claims) = Some claims"
    and "rid 16 = Some b" and "b \<noteq> []"
  shows "VerifyAccessToken hmac unmarshal m token audience t
      = (if clExpiresAt claims \<le> unix_seconds t then Inl ErrAccessTokenExpired else Inr claims)
    \<and> clAppDeviceID claims = trim_space deviceID
    \<and> (now + tmTtl m \<le> t \<longrightarrow> clExpiresAt claims \<le> unix_seconds t)
    \<and> (t \<le> now + tmTtl m - second \<longrightarrow> unix_seconds t < clExpiresAt claims)"
proof -
  note m = minted [OF assms(1)]
  have id: "clTokenID claims \<noteq> []" using tokenID_nonempty [OF m(9) assms(3,4)] .
  have "VerifyAccessToken hmac unmarshal m token audience t
      = (if clExpiresAt claims \<le> unix_seconds t then Inl ErrAccessTokenExpired else Inr claims)"
    using m(2-8) id assms(2)
    by (simp add: VerifyAccessToken_def m(1) split_two rawurl.dec_enc Let_def)
  moreover have "now + tmTtl m \<le> t \<longrightarrow> clExpiresAt claims \<le> unix_seconds t"
    unfolding m(10) unix_seconds_def by (simp add: zdiv_mono1)
  moreover have "t \<le> now + tmTtl m - second \<longrightarrow> unix_seconds t < clExpiresAt claims"
  proof
    assume "t \<le> now + tmTtl m - second"
    then have "t + second \<le> now + tmTtl m" by simp
    then have "(t + second) div second \<le> (now + tmTtl m) div second" by (rule zdiv_mono1) simp
    then show "unix_seconds t < clExpiresAt claims" unfolding m(10) unix_seconds_def by simp
  qed
  ultimately show ?thesis using m(3) by blast
qed

text \<open>
  The access token minted for a device is accepted by the manager that signed it, for
  the audience it was minted for, until the second it expires, and from then on reported
  as expired; so it lives for its whole time to live, up to the rounding of its expiry to
  seconds. That the JSON decoder reads back the claims the encoder wrote is the hypothesis.
\<close>

theorem minted_token_verifies_until_expiry:
  assumes "MintAccessToken hmac marshal m deviceID audience now rid = Inr (token, claims)"
    and "unmarshal (marshal claims) = Some claims"
    and "rid 16 = Some b" and "b \<noteq> []"
  shows "VerifyAccessToken hmac unmarshal m token audience t
      = (if clExpiresAt claims \<le> unix_seconds t then Inl ErrAccessTokenExpired else Inr claims)
    \<and> clAppDeviceID claims = trim_space deviceID
    \<and> (now + tmTtl m \<le> t \<longrightarrow> clExpiresAt claims \<le> unix_seconds t)
    \<and> (t \<le> now + tmTtl m - second \<longrightarrow> unix_seconds t < clExpiresAt claims)"
  using assms by (rule minted_verifies)

definition ex_manager :: token_manager where
  "ex_manager = \<lparr>tmAgentID = ''agent'', tmKey = ''key'', tmKeyID = ''kid'', tmTtl = 12 * hour\<rparr>"

definition ex_claims :: access_token_claims where
  "ex_claims = \<lparr>clAgentID = ''agent'', clAppDeviceID = ''dev'', clAudience = AudienceTimichAgent,
     clScope = ScopeMedia, clTokenID = raw_url_encode ''sixteen bytes id'', clKeyID = ''kid'',
     clIssuedAt = 100, clExpiresAt = 43300\<rparr>"

definition ex_minted :: "(token_error, string \<times> access_token_claims) result" where
  "ex_minted = MintAccessToken (@) (\<lambda>c. clAppDeviceID c) ex_manager '' dev'' AudienceTimichAgent
     (100 * second) (\<lambda>_. Some ''sixteen bytes id'')"

lemma ex_minted: "ex_minted = Inr (fst (projr ex_minted), ex_claims)"
  by code_simp

theorem minted_token_verifies_until_expiry_witness:
  "VerifyAccessToken (@) (\<lambda>_. Some ex_claims) ex_manager (fst (projr ex_minted)) AudienceTimichAgent
     (43299 * second) = Inr ex_claims"
  using minted_token_verifies_until_expiry [OF ex_minted [unfolded ex_minted_def], of "\<lambda>_. Some ex_claims"
      "''sixteen bytes id''" "43299 * second"]
  by (simp add: ex_minted_def unix_seconds_def ex_claims_def)

text \<open>
  C7. Nothing but the agent's own signature opens it: every token that is accepted is a
  payload with the HMAC of exactly that payload under the manager's key, whose claims name
  this agent, this key, the expected audience, the media scope, a device and an expiry in
  the future; a token that another manager minted is accepted only if both managers sign
  its payload alike.
\<close>

theorem accepted_token_was_signed:
  assumes "VerifyAccessToken hmac unmarshal m token audience t = Inr claims"
  shows "(\<exists>p q payload. token = p @ ''.'' @ q \<and> raw_url_decode p = Some payload
        \<and> raw_url_decode q = Some (hmac (tmKey m) payload) \<and> unmarshal payload = Some claims)
    \<and> clAgentID claims = tmAgentID m \<and> clKeyID claims = tmKeyID m
    \<and> clAudience claims = trim_space audience \<and> clScope claims = ScopeMedia
    \<and> clAppDeviceID claims \<noteq> [] \<and> unix_seconds t < clExpiresAt claims
    \<and> (\<forall>m' marshal deviceID audience' now rid claims'.
         MintAccessToken hmac marshal m' deviceID audience' now rid = Inr (token, claims') \<longrightarrow>
         hmac (tmKey m') (marshal claims') = hmac (tmKey m) (marshal claims'))"
proof -
  let ?ps = "split_on (CHR ''.'') token"
  from assms obtain payload where
    two: "length ?ps = 2" and
    d: "raw_url_decode (?ps ! 0) = Some payload" "raw_url_decode (?ps ! 1) = Some (sign hmac m payload)"
    and u: "unmarshal payload = Some claims"
    and rest: "clAgentID claims = tmAgentID m" "clKeyID claims = tmKeyID m"
      "clAudience claims = trim_space audience" "clScope claims = ScopeMedia"
      "clAppDeviceID claims \<noteq> []" "unix_seconds t < clExpiresAt claims"
    by (auto simp: VerifyAccessToken_def Let_def split: if_splits option.splits)
  obtain p q where ps: "?ps = [p, q]"
    using two by (auto simp: numeral_2_eq_2 length_Suc_conv)
  have "token = p @ ''.'' @ q" using join_split [of "CHR ''.''" token] by (simp add: ps)
  then have parts: "\<exists>p q payload. token = p @ ''.'' @ q \<and> raw_url_decode p = Some payload
        \<and> raw_url_decode q = Some (hmac (tmKey m) payload) \<and> unmarshal payload = Some claims"
    using d u unfolding ps sign_def by (intro exI conjI) simp_all
  have signed: "hmac (tmKey m') (marshal claims') = hmac (tmKey m) (marshal claims')"
    if "MintAccessToken hmac marshal m' deviceID audience' now rid = Inr (token, claims')"
    for m' marshal deviceID audience' now rid claims'
  proof -
    have "?ps = [raw_url_encode (marshal claims'), raw_url_encode (sign hmac m' (marshal claims'))]"
      unfolding minted(1) [OF that] by (simp add: split_two)
    with d show ?thesis by (simp add: rawurl.dec_enc sign_def)
  qed
  show ?thesis by (intro conjI allI impI parts rest) (rule signed)
qed

theorem accepted_token_was_signed_witness:
  "VerifyAccessToken (@) (\<lambda>_. Some ex_claims) ex_manager (fst (projr ex_minted)) AudienceTimichAgent 0
     = Inr ex_claims \<and> clKeyID ex_claims = tmKeyID ex_manager"
proof -
  have v: "VerifyAccessToken (@) (\<lambda>_. Some ex_claims) ex_manager (fst (projr ex_minted))
      AudienceTimichAgent 0 = Inr ex_claims"
    by code_simp
  from accepted_token_was_signed [OF v] v show ?thesis by blast
qed

end
