(* ===== verification/Pairing.thy ===== *)
theory Pairing
  imports Link_Theorems Tokens
begin

text \<open>
  \<open>internal/pairing/service.go\<close>: the service that turns the registry's devices into app
  sessions. It keeps nothing of its own but the agent's names and keys; its state is the
  registry store. The time each operation reads from the clock, the random draws and the
  faults of the disk are arguments, as in the registry; \<open>crypto\<close> holds what the service
  uses of the cryptographic and JSON packages.
\<close>

record crypto =
  crSha256 :: "string \<Rightarrow> string"
  crHmac :: "string \<Rightarrow> string \<Rightarrow> string"
  crMarshal :: "access_token_claims \<Rightarrow> string"
  crUnmarshal :: "string \<Rightarrow> access_token_claims option"

definition defaultPairingTTL :: duration where "defaultPairingTTL = 10 * minute"
definition defaultNearbyLinkTTL :: duration where "defaultNearbyLinkTTL = 5 * minute"
definition defaultAccessTokenTTL :: duration where "defaultAccessTokenTTL = 12 * hour"
definition defaultRefreshTokenTTL :: duration where "defaultRefreshTokenTTL = 30 * 24 * hour"
definition AccessModeFull :: string where "AccessModeFull = ''full''"

record session_bundle =
  sbAccessToken :: string
  sbRefreshToken :: string
  sbAgentID :: string
  sbAgentName :: string
  sbDeviceID :: string
  sbBaseURL :: string
  sbAccessMode :: string
  sbAccessTokenExpiresAt :: gotime
  sbRefreshTokenExpiresAt :: gotime

record pairing_session_response =
  prPairingCode :: string
  prExpiresAt :: gotime

datatype pairing_status =
  PairingStatusNoDatasourceConfigured
| PairingStatusReadyForFirstLocalPairing
| PairingStatusPairingSessionAvailable
| PairingStatusReadyForAdditionalLocalPairing

record nearby_link_response =
  nrLinkID :: string
  nrLinkCode :: string
  nrPollToken :: string
  nrDeviceName :: string
  nrDeviceKind :: string
  nrStatus :: link_status
  nrCreatedAt :: gotime
  nrExpiresAt :: gotime

record nearby_link_poll_response =
  npLinkID :: string
  npStatus :: link_status
  npExpiresAt :: gotime
  npSession :: "session_bundle option"

record service =
  svAgentID :: string
  svAgentName :: string
  svTokens :: token_manager
  svRefreshRotationKey :: string

datatype service_error = StoreError reg_error | TokenError token_error

type_synonym 'a service_result = "(service_error + 'a) \<times> registry_store"

definition NewService ::
    "crypto \<Rightarrow> string \<Rightarrow> string \<Rightarrow> string \<Rightarrow> (token_error, service) result" where
  "NewService cr agentID agentName encodedSigningKey =
     (case NewTokenManager (crSha256 cr) agentID encodedSigningKey defaultAccessTokenTTL of
        Inl e \<Rightarrow> Inl e
      | Inr tokenManager \<Rightarrow>
          Inr \<lparr>svAgentID = agentID, svAgentName = agentName, svTokens = tokenManager,
               svRefreshRotationKey =
                 crSha256 cr (''timich-refresh-rotation-v1'' @ [CHR 0x00] @ encodedSigningKey)\<rparr>)"

section \<open>Responses\<close>

definition nearbyLinkResponse :: "nearby_link \<Rightarrow> string \<Rightarrow> nearby_link_response" where
  "nearbyLinkResponse l pollToken =
     \<lparr>nrLinkID = nlLinkID l, nrLinkCode = nlLinkCode l, nrPollToken = pollToken,
      nrDeviceName = nlDeviceName l, nrDeviceKind = nlDeviceKind l, nrStatus = link_Status l,
      nrCreatedAt = nlCreatedAt l, nrExpiresAt = nlExpiresAt l\<rparr>"

definition buildSessionBundle ::
    "crypto \<Rightarrow> service \<Rightarrow> device_record \<Rightarrow> string \<Rightarrow> gotime \<Rightarrow> draw \<Rightarrow>
     (token_error, session_bundle) result" where
  "buildSessionBundle cr sv device baseURL now rid =
     (case MintAccessToken (crHmac cr) (crMarshal cr) (svTokens sv) (devDeviceID device)
             AudienceTimichAgent now rid of
        Inl e \<Rightarrow> Inl e
      | Inr (accessToken, claims) \<Rightarrow>
          Inr \<lparr>sbAccessToken = accessToken, sbRefreshToken = devCurrentRefreshToken device,
               sbAgentID = svAgentID sv, sbAgentName = svAgentName sv,
               sbDeviceID = devDeviceID device,
               sbBaseURL = trim_right (CHR ''/'') (trim_space baseURL),
               sbAccessMode = AccessModeFull,
               sbAccessTokenExpiresAt = from_unix (clExpiresAt claims),
               sbRefreshTokenExpiresAt = devRefreshTokenExpiresAt device\<rparr>)"

text \<open>How an operation passes on the registry's result.\<close>

definition storeResult :: "('a \<Rightarrow> 'b) \<Rightarrow> 'a reg_result \<Rightarrow> 'b service_result" where
  "storeResult f r = (case r of (Inl e, s) \<Rightarrow> (Inl (StoreError e), s) | (Inr a, s) \<Rightarrow> (Inr (f a), s))"

definition bundleFor ::
    "crypto \<Rightarrow> service \<Rightarrow> string \<Rightarrow> gotime \<Rightarrow> draw \<Rightarrow> device_record reg_result \<Rightarrow>
     session_bundle service_result" where
  "bundleFor cr sv baseURL now rid r =
     (case r of
        (Inl e, s) \<Rightarrow> (Inl (StoreError e), s)
      | (Inr device, s) \<Rightarrow>
          (case buildSessionBundle cr sv device baseURL now rid of
             Inl e \<Rightarrow> (Inl (TokenError e), s)
           | Inr bundle \<Rightarrow> (Inr bundle, s)))"

section \<open>Pairing codes\<close>

definition service_CreatePairingSession ::
    "gotime \<Rightarrow> draw \<Rightarrow> write_step option \<Rightarrow> registry_store \<Rightarrow>
     pairing_session_response service_result" where
  "service_CreatePairingSession now rcode fault s =
     storeResult (\<lambda>session. \<lparr>prPairingCode = psCode session, prExpiresAt = psExpiresAt session\<rparr>)
       (CreatePairingSession now (now + defaultPairingTTL) rcode fault s)"

definition ActivePairingSession ::
    "string \<Rightarrow> gotime \<Rightarrow> registry_store \<Rightarrow> pairing_session_response service_result" where
  "ActivePairingSession code now s =
     (let normalizedCode = trim_space code in
      if normalizedCode = [] then (Inl (StoreError ErrPairingSessionNotFound), s)
      else case Snapshot now s of
        (snapshot, s) \<Rightarrow>
          (case find (\<lambda>session. psCode session = normalizedCode) (PairingSessions snapshot) of
             Some session \<Rightarrow>
               (Inr \<lparr>prPairingCode = psCode session, prExpiresAt = psExpiresAt session\<rparr>, s)
           | None \<Rightarrow> (Inl (StoreError ErrPairingSessionNotFound), s)))"

definition RedeemPairing ::
    "crypto \<Rightarrow> service \<Rightarrow> string \<Rightarrow> string \<Rightarrow> string \<Rightarrow> gotime \<Rightarrow> device_draws \<Rightarrow> draw \<Rightarrow>
     write_step option \<Rightarrow> registry_store \<Rightarrow> session_bundle service_result" where
  "RedeemPairing cr sv code deviceName baseURL now draws rid fault s =
     bundleFor cr sv baseURL now rid
       (RedeemPairingSession (crSha256 cr) code (trim_space deviceName) now
          (now + defaultRefreshTokenTTL) draws fault s)"

definition PairingStatus :: "gotime \<Rightarrow> registry_store \<Rightarrow> pairing_status \<times> registry_store" where
  "PairingStatus now s =
     (case Snapshot now s of
        (snapshot, s) \<Rightarrow>
          (if Devices snapshot = [] then PairingStatusReadyForFirstLocalPairing
           else if PairingSessions snapshot \<noteq> [] then PairingStatusPairingSessionAvailable
           else PairingStatusReadyForAdditionalLocalPairing, s))"

section \<open>Nearby links\<close>

definition service_CreateNearbyLink ::
    "crypto \<Rightarrow> string \<Rightarrow> string \<Rightarrow> gotime \<Rightarrow> link_draws \<Rightarrow> write_step option \<Rightarrow> registry_store \<Rightarrow>
     nearby_link_response service_result" where
  "service_CreateNearbyLink cr deviceName deviceKind now draws fault s =
     storeResult (\<lambda>(link, pollToken). nearbyLinkResponse link pollToken)
       (CreateNearbyLink (crSha256 cr) (trim_space deviceName) (trim_space deviceKind) now
          (now + defaultNearbyLinkTTL) draws fault s)"

definition service_NearbyLinks ::
    "gotime \<Rightarrow> registry_store \<Rightarrow> nearby_link_response list \<times> registry_store" where
  "service_NearbyLinks now s =
     (case listNearbyLinks now s of (links, s) \<Rightarrow> (map (\<lambda>l. nearbyLinkResponse l []) links, s))"

definition service_ApproveNearbyLink ::
    "string \<Rightarrow> gotime \<Rightarrow> write_step option \<Rightarrow> registry_store \<Rightarrow>
     nearby_link_response service_result" where
  "service_ApproveNearbyLink linkCode now fault s =
     storeResult (\<lambda>l. nearbyLinkResponse l []) (ApproveNearbyLink linkCode now fault s)"

definition service_DenyNearbyLink ::
    "string \<Rightarrow> gotime \<Rightarrow> write_step option \<Rightarrow> registry_store \<Rightarrow>
     nearby_link_response service_result" where
  "service_DenyNearbyLink linkID now fault s =
     storeResult (\<lambda>l. nearbyLinkResponse l []) (DenyNearbyLink linkID now fault s)"

definition service_CancelNearbyLink ::
    "crypto \<Rightarrow> string \<Rightarrow> string \<Rightarrow> gotime \<Rightarrow> write_step option \<Rightarrow> registry_store \<Rightarrow>
     nearby_link_response service_result" where
  "service_CancelNearbyLink cr linkID pollToken now fault s =
     storeResult (\<lambda>l. nearbyLinkResponse l [])
       (CancelNearbyLink (crSha256 cr) linkID pollToken now fault s)"

definition service_PollNearbyLink ::
    "crypto \<Rightarrow> service \<Rightarrow> string \<Rightarrow> string \<Rightarrow> string \<Rightarrow> gotime \<Rightarrow> device_draws \<Rightarrow> draw \<Rightarrow>
     write_step option \<Rightarrow> write_step option \<Rightarrow> registry_store \<Rightarrow>
     nearby_link_poll_response service_result" where
  "service_PollNearbyLink cr sv linkID pollToken baseURL now draws rid fault1 fault2 s =
     (case PollNearbyLink (crSha256 cr) linkID pollToken now fault1 s of
        (Inl e, s) \<Rightarrow> (Inl (StoreError e), s)
      | (Inr link, s) \<Rightarrow>
          let response = \<lparr>npLinkID = nlLinkID link, npStatus = link_Status link,
                          npExpiresAt = nlExpiresAt link, npSession = None\<rparr> in
          if npStatus response \<noteq> NearbyLinkStatusApproved then (Inr response, s)
          else case RedeemNearbyLink (crSha256 cr) linkID pollToken now
                      (now + defaultRefreshTokenTTL) draws fault2 s of
            (Inl e, s) \<Rightarrow> (Inl (StoreError e), s)
          | (Inr (device, link), s) \<Rightarrow>
              (case buildSessionBundle cr sv device baseURL now rid of
                 Inl e \<Rightarrow> (Inl (TokenError e), s)
               | Inr bundle \<Rightarrow>
                   (Inr (response\<lparr>npStatus := link_Status link, npExpiresAt := nlExpiresAt link,
                                  npSession := Some bundle\<rparr>), s)))"

section \<open>Hosted sessions\<close>

definition CreateHostedSession ::
    "crypto \<Rightarrow> service \<Rightarrow> string \<Rightarrow> string \<Rightarrow> gotime \<Rightarrow> device_draws \<Rightarrow> draw \<Rightarrow>
     write_step option \<Rightarrow> registry_store \<Rightarrow> session_bundle service_result" where
  "CreateHostedSession cr sv deviceName baseURL now draws rid fault s =
     bundleFor cr sv baseURL now rid
       (CreateHostedDevice (crSha256 cr) (trim_space deviceName) now
          (now + defaultRefreshTokenTTL) draws fault s)"

text \<open>
  When minting fails the new device is revoked again, with a later reading of the clock
  (\<open>now2\<close>) and a write of its own; its error is dropped.
\<close>

definition CreateHostedReviewSession ::
    "crypto \<Rightarrow> service \<Rightarrow> string \<Rightarrow> string \<Rightarrow> gotime \<Rightarrow> gotime \<Rightarrow> device_draws \<Rightarrow> draw \<Rightarrow>
     write_step option \<Rightarrow> write_step option \<Rightarrow> registry_store \<Rightarrow>
     (service_error + session_bundle) \<times> string \<times> registry_store" where
  "CreateHostedReviewSession cr sv deviceName baseURL now now2 draws rid fault1 fault2 s =
     (case CreateHostedReviewDevice (crSha256 cr) (trim_space deviceName) now
             (now + defaultRefreshTokenTTL) draws fault1 s of
        (Inl e, s) \<Rightarrow> (Inl (StoreError e), [], s)
      | (Inr (device, evictedID), s) \<Rightarrow>
          (case buildSessionBundle cr sv device baseURL now rid of
             Inl e \<Rightarrow>
               (Inl (TokenError e), evictedID, snd (RevokeDevice (devDeviceID device) now2 fault2 s))
           | Inr bundle \<Rightarrow> (Inr bundle, evictedID, s)))"

section \<open>Refreshing and authenticating\<close>

definition nextRefreshToken :: "crypto \<Rightarrow> service \<Rightarrow> string \<Rightarrow> string" where
  "nextRefreshToken cr sv refreshToken =
     raw_url_encode (crHmac cr (svRefreshRotationKey sv) (trim_space refreshToken))"

definition RefreshSession ::
    "crypto \<Rightarrow> service \<Rightarrow> string \<Rightarrow> string \<Rightarrow> gotime \<Rightarrow> draw \<Rightarrow> draw \<Rightarrow> write_step option \<Rightarrow>
     registry_store \<Rightarrow> session_bundle service_result" where
  "RefreshSession cr sv refreshToken baseURL now rsalt rid fault s =
     (let normalizedRefreshToken = trim_space refreshToken;
          replacementRefreshToken = nextRefreshToken cr sv normalizedRefreshToken
      in bundleFor cr sv baseURL now rid
           (RotateRefreshToken (crSha256 cr) normalizedRefreshToken replacementRefreshToken now
              (now + defaultRefreshTokenTTL) rsalt fault s))"

text \<open>\<open>HasDevice\<close> reads the clock again (\<open>now2\<close>).\<close>

definition AuthenticateAccessToken ::
    "crypto \<Rightarrow> service \<Rightarrow> string \<Rightarrow> gotime \<Rightarrow> gotime \<Rightarrow> registry_store \<Rightarrow>
     (token_error + access_token_claims) \<times> registry_store" where
  "AuthenticateAccessToken cr sv token now now2 s =
     (case VerifyAccessToken (crHmac cr) (crUnmarshal cr) (svTokens sv) (trim_space token)
             AudienceTimichAgent now of
        Inl e \<Rightarrow> (Inl e, s)
      | Inr claims \<Rightarrow>
          (case HasDevice (clAppDeviceID claims) now2 s of
             (found, s) \<Rightarrow> if \<not> found then (Inl ErrAccessTokenInvalid, s) else (Inr claims, s)))"

definition IsClientError :: "service_error \<Rightarrow> bool" where
  "IsClientError err \<longleftrightarrow>
     (case err of
        StoreError e \<Rightarrow>
          e \<in> {ErrPairingSessionNotFound, ErrPairingSessionExpired, ErrPairingSessionUsed,
               ErrDeviceLimitReached, ErrRefreshTokenNotFound, ErrRefreshTokenExpired,
               ErrNearbyLinkNotFound, ErrNearbyLinkDenied, ErrNearbyLinkNotApproved,
               ErrNearbyLinkConsumed, ErrNearbyLinkPollTokenInvalid, ErrNearbyLinkLimitReached}
      | TokenError _ \<Rightarrow> False)"

end
