(* ===== verification/Control_Token.thy ===== *)
theory Control_Token
  imports Tokens
begin

text \<open>
  \<open>packages/contracts/controlplane/auth.go\<close>: the tokens with which the agent proves its
  identity to the relay's control plane, a JWT of the header, the claims and an Ed25519
  signature of both. Ed25519 and the directions of \<open>encoding/json\<close> for the header and
  the payload are arguments, in the record \<open>jwt_library\<close>.
\<close>

definition ControlPlaneAudience :: string where
  "ControlPlaneAudience = ''timich-server-control-plane''"

record control_claims =
  ccAgentID :: string
  ccKeyID :: string
  ccAudience :: string
  ccIssuedAt :: gotime
  ccExpiresAt :: gotime

record token_header =
  thAlgorithm :: string
  thType :: string
  thKeyID :: string

record token_payload =
  tpAgentID :: string
  tpKeyID :: string
  tpAudience :: string
  tpIssuedAt :: int
  tpExpiresAt :: int

record jwt_library =
  edSign :: "string \<Rightarrow> string \<Rightarrow> string"
  edVerify :: "string \<Rightarrow> string \<Rightarrow> string \<Rightarrow> bool"
  marshalHeader :: "token_header \<Rightarrow> string"
  unmarshalHeader :: "string \<Rightarrow> token_header option"
  marshalPayload :: "token_payload \<Rightarrow> string"
  unmarshalPayload :: "string \<Rightarrow> token_payload option"

datatype control_error = ErrInvalidControlPlaneToken | ErrExpiredControlPlaneToken

definition ed_PrivateKeySize :: nat where "ed_PrivateKeySize = 64"
definition ed_PublicKeySize :: nat where "ed_PublicKeySize = 32"
definition ed_SignatureSize :: nat where "ed_SignatureSize = 64"

definition decodeEd25519PrivateKey :: "string \<Rightarrow> string option" where
  "decodeEd25519PrivateKey encoded =
     (case raw_std_decode (trim_space encoded) of
        None \<Rightarrow> None
      | Some raw \<Rightarrow> if length raw \<noteq> ed_PrivateKeySize then None else Some raw)"

definition decodeEd25519PublicKey :: "string \<Rightarrow> string option" where
  "decodeEd25519PublicKey encoded =
     (case raw_std_decode (trim_space encoded) of
        None \<Rightarrow> None
      | Some raw \<Rightarrow> if length raw \<noteq> ed_PublicKeySize then None else Some raw)"

definition MintControlPlaneToken ::
    "jwt_library \<Rightarrow> string \<Rightarrow> string \<Rightarrow> string \<Rightarrow> gotime \<Rightarrow> duration \<Rightarrow> (control_error, string) result" where
  "MintControlPlaneToken lib privateKey keyID agentID now ttl =
     (let agentID = trim_space agentID; keyID = trim_space keyID in
      case decodeEd25519PrivateKey privateKey of
        None \<Rightarrow> Inl ErrInvalidControlPlaneToken
      | Some privateKeyBytes \<Rightarrow>
          if agentID = [] \<or> keyID = [] \<or> ttl \<le> 0 then Inl ErrInvalidControlPlaneToken
          else
            let headerJSON = marshalHeader lib
                  \<lparr>thAlgorithm = ''EdDSA'', thType = ''JWT'', thKeyID = keyID\<rparr>;
                payloadJSON = marshalPayload lib
                  \<lparr>tpAgentID = agentID, tpKeyID = keyID, tpAudience = ControlPlaneAudience,
                   tpIssuedAt = unix_seconds now, tpExpiresAt = unix_seconds (now + ttl)\<rparr>;
                signingInput = raw_url_encode headerJSON @ ''.'' @ raw_url_encode payloadJSON;
                signature = edSign lib privateKeyBytes signingInput
            in Inr (signingInput @ ''.'' @ raw_url_encode signature))"

definition splitControlPlaneToken ::
    "jwt_library \<Rightarrow> string \<Rightarrow> (control_error, token_header \<times> token_payload \<times> string list) result" where
  "splitControlPlaneToken lib token =
     (let parts = split_on (CHR ''.'') (trim_space token) in
      if length parts \<noteq> 3 then Inl ErrInvalidControlPlaneToken
      else case raw_url_decode (parts ! 0) of
        None \<Rightarrow> Inl ErrInvalidControlPlaneToken
      | Some headerJSON \<Rightarrow>
      (case unmarshalHeader lib headerJSON of
        None \<Rightarrow> Inl ErrInvalidControlPlaneToken
      | Some header \<Rightarrow>
      (case raw_url_decode (parts ! 1) of
        None \<Rightarrow> Inl ErrInvalidControlPlaneToken
      | Some payloadJSON \<Rightarrow>
      (case unmarshalPayload lib payloadJSON of
        None \<Rightarrow> Inl ErrInvalidControlPlaneToken
      | Some payload \<Rightarrow> Inr (header, payload, parts)))))"

definition claimsFromPayload ::
    "token_header \<Rightarrow> token_payload \<Rightarrow> (control_error, control_claims) result" where
  "claimsFromPayload header payload =
     (let agentID = trim_space (tpAgentID payload);
          keyID = trim_space (tpKeyID payload);
          headerKeyID = trim_space (thKeyID header) in
      if agentID = [] \<or> keyID = [] \<or> headerKeyID = [] \<or> keyID \<noteq> headerKeyID
         \<or> tpAudience payload \<noteq> ControlPlaneAudience
      then Inl ErrInvalidControlPlaneToken
      else Inr \<lparr>ccAgentID = agentID, ccKeyID = keyID, ccAudience = tpAudience payload,
                ccIssuedAt = from_unix (tpIssuedAt payload),
                ccExpiresAt = from_unix (tpExpiresAt payload)\<rparr>)"

definition ParseUnverifiedControlPlaneToken ::
    "jwt_library \<Rightarrow> string \<Rightarrow> (control_error, control_claims) result" where
  "ParseUnverifiedControlPlaneToken lib token =
     (case splitControlPlaneToken lib token of
        Inl e \<Rightarrow> Inl e
      | Inr (header, payload, _) \<Rightarrow>
          if thAlgorithm header \<noteq> ''EdDSA'' \<or> thType header \<noteq> ''JWT''
          then Inl ErrInvalidControlPlaneToken
          else claimsFromPayload header payload)"

definition VerifyControlPlaneToken ::
    "jwt_library \<Rightarrow> string \<Rightarrow> string \<Rightarrow> gotime \<Rightarrow> (control_error, control_claims) result" where
  "VerifyControlPlaneToken lib publicKey token now =
     (case decodeEd25519PublicKey publicKey of
        None \<Rightarrow> Inl ErrInvalidControlPlaneToken
      | Some publicKeyBytes \<Rightarrow>
      (case splitControlPlaneToken lib token of
        Inl e \<Rightarrow> Inl e
      | Inr (header, payload, parts) \<Rightarrow>
          if thAlgorithm header \<noteq> ''EdDSA'' \<or> thType header \<noteq> ''JWT''
          then Inl ErrInvalidControlPlaneToken
          else case raw_url_decode (parts ! 2) of
            None \<Rightarrow> Inl ErrInvalidControlPlaneToken
          | Some signature \<Rightarrow>
              if length signature \<noteq> ed_SignatureSize then Inl ErrInvalidControlPlaneToken
              else
                let signingInput = parts ! 0 @ ''.'' @ parts ! 1 in
                if \<not> edVerify lib publicKeyBytes signingInput signature
                then Inl ErrInvalidControlPlaneToken
                else case claimsFromPayload header payload of
                  Inl e \<Rightarrow> Inl e
                | Inr claims \<Rightarrow>
                    if \<not> now < ccExpiresAt claims then Inl ErrExpiredControlPlaneToken
                    else Inr claims))"

section \<open>What a control-plane token is good for\<close>

lemma trimmed_token: "trimmed (raw_url_encode a @ CHR ''.'' # raw_url_encode b @ CHR ''.'' # raw_url_encode c)"
proof (rule graphic_trimmed)
  have "\<forall>x\<in>set (raw_url_encode s). graphic x" for s
    using rawurl.enc_alphabet rawurl.alphabet_graphic by blast
  then show "\<forall>x\<in>set (raw_url_encode a @ CHR ''.'' # raw_url_encode b @ CHR ''.'' # raw_url_encode c). graphic x"
    by (auto simp: graphic_def)
qed

lemma minted_control_token:
  assumes mint: "MintControlPlaneToken lib privateKey keyID agentID now ttl = Inr token"
    and priv: "decodeEd25519PrivateKey privateKey = Some priv"
    and pub: "decodeEd25519PublicKey publicKey = Some pub"
    and pair: "\<forall>msg. length (edSign lib priv msg) = ed_SignatureSize \<and> edVerify lib pub msg (edSign lib priv msg)"
    and json: "\<forall>h. thKeyID h = trim_space keyID \<longrightarrow> unmarshalHeader lib (marshalHeader lib h) = Some h"
      "\<forall>p. tpAgentID p = trim_space agentID \<and> tpKeyID p = trim_space keyID \<longrightarrow>
         unmarshalPayload lib (marshalPayload lib p) = Some p"
  shows "\<exists>claims. ccAgentID claims = trim_space agentID \<and> ccKeyID claims = trim_space keyID
      \<and> ccAudience claims = ControlPlaneAudience
      \<and> ccIssuedAt claims = from_unix (unix_seconds now)
      \<and> ccExpiresAt claims = from_unix (unix_seconds (now + ttl))
      \<and> ParseUnverifiedControlPlaneToken lib token = Inr claims
      \<and> VerifyControlPlaneToken lib publicKey token t
         = (if t < ccExpiresAt claims then Inr claims else Inl ErrExpiredControlPlaneToken)"
proof -
  define h where "h = \<lparr>thAlgorithm = ''EdDSA'', thType = ''JWT'', thKeyID = trim_space keyID\<rparr>"
  define p where "p = \<lparr>tpAgentID = trim_space agentID, tpKeyID = trim_space keyID,
    tpAudience = ControlPlaneAudience, tpIssuedAt = unix_seconds now,
    tpExpiresAt = unix_seconds (now + ttl)\<rparr>"
  define H where "H = raw_url_encode (marshalHeader lib h)"
  define P where "P = raw_url_encode (marshalPayload lib p)"
  define S where "S = raw_url_encode (edSign lib priv (H @ CHR ''.'' # P))"
  from mint priv have token: "token = H @ CHR ''.'' # P @ CHR ''.'' # S"
      and ne: "trim_space agentID \<noteq> []" "trim_space keyID \<noteq> []"
    by (auto simp: MintControlPlaneToken_def Let_def H_def P_def S_def h_def p_def split: if_splits)
  have split: "splitControlPlaneToken lib token = Inr (h, p, [H, P, S])"
    using json unfolding token H_def P_def
    by (simp add: splitControlPlaneToken_def S_def split_three h_def p_def trim_space_id trimmed_token
        rawurl.dec_enc)
  have claims: "claimsFromPayload h p = Inr \<lparr>ccAgentID = trim_space agentID, ccKeyID = trim_space keyID,
      ccAudience = ControlPlaneAudience, ccIssuedAt = from_unix (unix_seconds now),
      ccExpiresAt = from_unix (unix_seconds (now + ttl))\<rparr>"
    using ne by (simp add: claimsFromPayload_def h_def p_def)
  have sig: "raw_url_decode S = Some (edSign lib priv (H @ CHR ''.'' # P))"
    by (simp add: S_def rawurl.dec_enc)
  have alg: "thAlgorithm h = ''EdDSA''" "thType h = ''JWT''" by (simp_all add: h_def)
  show ?thesis
    using pair
    by (intro exI [of _ "projr (claimsFromPayload h p)"])
      (simp add: claims ParseUnverifiedControlPlaneToken_def VerifyControlPlaneToken_def pub split alg sig
        numeral_2_eq_2)
qed

text \<open>
  The control plane accepts the tokens the agent mints: with a key pair whose
  signatures verify, and JSON texts that read back as they were written, a minted token
  verifies until its expiry, to claims with the trimmed agent and key identifiers, the
  control-plane audience and the times in whole seconds, and is reported as expired
  afterwards; reading it without verifying gives the same claims.
\<close>

theorem control_token_roundtrip:
  assumes mint: "MintControlPlaneToken lib privateKey keyID agentID now ttl = Inr token"
    and priv: "decodeEd25519PrivateKey privateKey = Some priv"
    and pub: "decodeEd25519PublicKey publicKey = Some pub"
    and pair: "\<forall>msg. length (edSign lib priv msg) = ed_SignatureSize \<and> edVerify lib pub msg (edSign lib priv msg)"
    and json: "\<forall>h. thKeyID h = trim_space keyID \<longrightarrow> unmarshalHeader lib (marshalHeader lib h) = Some h"
      "\<forall>p. tpAgentID p = trim_space agentID \<and> tpKeyID p = trim_space keyID \<longrightarrow>
         unmarshalPayload lib (marshalPayload lib p) = Some p"
  shows "\<exists>claims. ccAgentID claims = trim_space agentID \<and> ccKeyID claims = trim_space keyID
      \<and> ccAudience claims = ControlPlaneAudience
      \<and> ccIssuedAt claims = from_unix (unix_seconds now)
      \<and> ccExpiresAt claims = from_unix (unix_seconds (now + ttl))
      \<and> ParseUnverifiedControlPlaneToken lib token = Inr claims
      \<and> VerifyControlPlaneToken lib publicKey token t
         = (if t < ccExpiresAt claims then Inr claims else Inl ErrExpiredControlPlaneToken)"
  using assms by (rule minted_control_token)

text \<open>
  C33. Only what the relay's key verifies is accepted: an accepted token carries a
  signature of 64 bytes that verifies for exactly the header and payload texts it
  contains, the algorithm is EdDSA, and the claims name an agent, the key of the header
  and the control-plane audience, and have not expired.
\<close>

theorem accepted_control_token_was_signed:
  assumes "VerifyControlPlaneToken lib publicKey token t = Inr claims"
  shows "\<exists>pub a b c header payload sig. decodeEd25519PublicKey publicKey = Some pub
    \<and> trim_space token = a @ ''.'' @ b @ ''.'' @ c
    \<and> raw_url_decode a = Some header \<and> raw_url_decode b = Some payload \<and> raw_url_decode c = Some sig
    \<and> length sig = 64 \<and> edVerify lib pub (a @ ''.'' @ b) sig
    \<and> map_option thAlgorithm (unmarshalHeader lib header) = Some ''EdDSA''
    \<and> map_option (trim_space \<circ> thKeyID) (unmarshalHeader lib header) = Some (ccKeyID claims)
    \<and> map_option (trim_space \<circ> tpAgentID) (unmarshalPayload lib payload) = Some (ccAgentID claims)
    \<and> ccAgentID claims \<noteq> [] \<and> ccAudience claims = ControlPlaneAudience \<and> t < ccExpiresAt claims"
proof -
  let ?ps = "split_on (CHR ''.'') (trim_space token)"
  from assms obtain pub header payload h p sig where
    pub: "decodeEd25519PublicKey publicKey = Some pub" and
    three: "length ?ps = 3" and
    a: "raw_url_decode (?ps ! 0) = Some header" "unmarshalHeader lib header = Some h" and
    b: "raw_url_decode (?ps ! 1) = Some payload" "unmarshalPayload lib payload = Some p" and
    c: "raw_url_decode (?ps ! 2) = Some sig" "length sig = 64" "edVerify lib pub (?ps ! 0 @ ''.'' @ ?ps ! 1) sig" and
    h: "thAlgorithm h = ''EdDSA''" and claims: "claimsFromPayload h p = Inr claims" and t: "t < ccExpiresAt claims"
    by (auto simp: VerifyControlPlaneToken_def splitControlPlaneToken_def Let_def ed_SignatureSize_def
        split: if_splits option.splits sum.splits)
  obtain x y z where ps: "?ps = [x, y, z]"
    using three by (auto simp: numeral_3_eq_3 length_Suc_conv)
  have token: "trim_space token = x @ ''.'' @ y @ ''.'' @ z"
    using join_split [of "CHR ''.''" "trim_space token"] by (simp add: ps)
  have cl: "trim_space (thKeyID h) = ccKeyID claims" "trim_space (tpAgentID p) = ccAgentID claims"
      "ccAgentID claims \<noteq> []" "ccAudience claims = ControlPlaneAudience"
    using claims by (auto simp: claimsFromPayload_def Let_def split: if_splits)
  have parts: "raw_url_decode x = Some header" "raw_url_decode y = Some payload"
      "raw_url_decode z = Some sig" "edVerify lib pub (x @ ''.'' @ y) sig"
    using a(1) b(1) c(1,3) unfolding ps by simp_all
  have fields: "map_option thAlgorithm (unmarshalHeader lib header) = Some ''EdDSA''"
      "map_option (trim_space \<circ> thKeyID) (unmarshalHeader lib header) = Some (ccKeyID claims)"
      "map_option (trim_space \<circ> tpAgentID) (unmarshalPayload lib payload) = Some (ccAgentID claims)"
    using a(2) b(2) h cl(1,2) by simp_all
  show ?thesis
    by (intro exI conjI) (rule pub token parts c(2) fields cl t)+
qed

text \<open>A library in which signing appends nothing but a fixed tag, to evaluate the code on.\<close>

definition ex_lib :: jwt_library where
  "ex_lib = \<lparr>edSign = \<lambda>k msg. replicate 64 (CHR ''s''), edVerify = \<lambda>k msg sig. sig = replicate 64 (CHR ''s''),
     marshalHeader = \<lambda>h. join_with [CHR ''|''] (map hex_encode [thAlgorithm h, thType h, thKeyID h]),
     unmarshalHeader = \<lambda>t. (case map hex_decode (split_on (CHR ''|'') t) of
        [Some a, Some b, Some c] \<Rightarrow> Some \<lparr>thAlgorithm = a, thType = b, thKeyID = c\<rparr> | _ \<Rightarrow> None),
     marshalPayload = \<lambda>p. join_with [CHR ''|''] [hex_encode (tpAgentID p), hex_encode (tpKeyID p),
        hex_encode (tpAudience p), replicate (nat (tpIssuedAt p)) (CHR ''i'') @ replicate (nat (- tpIssuedAt p)) (CHR ''n''),
        replicate (nat (tpExpiresAt p)) (CHR ''i'') @ replicate (nat (- tpExpiresAt p)) (CHR ''n'')],
     unmarshalPayload = \<lambda>t. (case split_on (CHR ''|'') t of
        [a, b, c, i, e] \<Rightarrow>
          (case (hex_decode a, hex_decode b, hex_decode c) of
             (Some a, Some b, Some c) \<Rightarrow>
               (let num = \<lambda>w. int (length w) * (if CHR ''n'' \<in> set w then - 1 else 1)
                in Some \<lparr>tpAgentID = a, tpKeyID = b, tpAudience = c, tpIssuedAt = num i, tpExpiresAt = num e\<rparr>)
           | _ \<Rightarrow> None)
      | _ \<Rightarrow> None)\<rparr>"

lemma bar_not_hex: "CHR ''|'' \<notin> set (hex_encode s)"
proof -
  have "CHR ''|'' \<notin> set hex_digits" by code_simp
  then show ?thesis by (rule hex.enc_avoids)
qed

lemma ex_lib_header: "unmarshalHeader ex_lib (marshalHeader ex_lib h) = Some h"
  by (simp add: ex_lib_def split_on_append split_on_none bar_not_hex)

lemma ex_lib_payload: "unmarshalPayload ex_lib (marshalPayload ex_lib p) = Some p"
  by (cases "0 \<le> tpIssuedAt p"; cases "0 \<le> tpExpiresAt p")
    (auto simp: ex_lib_def split_on_append split_on_none bar_not_hex Let_def)

definition ex_private :: string where "ex_private = raw_std_encode (replicate 64 (CHR ''p''))"
definition ex_public :: string where "ex_public = raw_std_encode (replicate 32 (CHR ''q''))"

definition ex_token_text :: string where
  "ex_token_text = projr (MintControlPlaneToken ex_lib ex_private '' kid'' ''agent '' (3 * second) (5 * second))"

lemma ex_keys:
  "decodeEd25519PrivateKey ex_private = Some (replicate 64 (CHR ''p''))"
  "decodeEd25519PublicKey ex_public = Some (replicate 32 (CHR ''q''))"
  by code_simp+

lemma ex_names: "trim_space ''agent '' = ''agent''" "trim_space '' kid'' = ''kid''"
  by code_simp+

lemma ex_token_text:
  "MintControlPlaneToken ex_lib ex_private '' kid'' ''agent '' (3 * second) (5 * second) = Inr ex_token_text"
  unfolding ex_token_text_def MintControlPlaneToken_def Let_def ex_keys ex_names by simp

lemma ex_signatures:
  "\<forall>msg. length (edSign ex_lib (replicate 64 (CHR ''p'')) msg) = ed_SignatureSize \<and>
      edVerify ex_lib (replicate 32 (CHR ''q'')) msg (edSign ex_lib (replicate 64 (CHR ''p'')) msg)"
  by (simp add: ex_lib_def ed_SignatureSize_def)

lemma ex_json:
  "\<forall>h. thKeyID h = trim_space '' kid'' \<longrightarrow> unmarshalHeader ex_lib (marshalHeader ex_lib h) = Some h"
  "\<forall>p. tpAgentID p = trim_space ''agent '' \<and> tpKeyID p = trim_space '' kid'' \<longrightarrow>
     unmarshalPayload ex_lib (marshalPayload ex_lib p) = Some p"
  by (simp_all add: ex_lib_header ex_lib_payload)

lemmas ex_jwt = ex_token_text ex_keys ex_signatures ex_json

lemma ex_times:
  "trim_space ''agent '' = ''agent''"
  "from_unix (unix_seconds (3 * second + 5 * second)) = 8 * second"
  by (rule ex_names, simp add: from_unix_def unix_seconds_def)

theorem control_token_roundtrip_witness:
  "\<exists>claims. ccAgentID claims = ''agent''
     \<and> VerifyControlPlaneToken ex_lib ex_public ex_token_text (7 * second) = Inr claims
     \<and> VerifyControlPlaneToken ex_lib ex_public ex_token_text (8 * second) = Inl ErrExpiredControlPlaneToken"
proof -
  note rt = control_token_roundtrip [OF ex_jwt, unfolded ex_times]
  obtain c where "ccAgentID c = ''agent''"
      and "VerifyControlPlaneToken ex_lib ex_public ex_token_text (7 * second) = Inr c"
    using rt [of "7 * second"] by force
  moreover have "VerifyControlPlaneToken ex_lib ex_public ex_token_text (8 * second)
      = Inl ErrExpiredControlPlaneToken"
    using rt [of "8 * second"] by force
  ultimately show ?thesis by blast
qed

theorem accepted_control_token_was_signed_witness:
  "is_ok (VerifyControlPlaneToken ex_lib ex_public ex_token_text 0)
   \<and> (\<exists>a b c. trim_space ex_token_text = a @ ''.'' @ b @ ''.'' @ c)"
proof -
  obtain claims where c: "VerifyControlPlaneToken ex_lib ex_public ex_token_text 0 = Inr claims"
    using minted_control_token [OF ex_jwt, unfolded ex_times, of 0] by force
  from accepted_control_token_was_signed [OF this]
  have "\<exists>a b c. trim_space ex_token_text = a @ ''.'' @ b @ ''.'' @ c"
    by (elim exE conjE) (intro exI, assumption)
  with c show ?thesis by (simp add: is_ok_iff)
qed

end
