(* ===== verification/Paths.thy ===== *)
theory Paths
  imports Prelude
begin

text \<open>
  Go's packages \<open>path\<close> and \<open>path/filepath\<close> (on Unix, where they agree): the lexical
  functions on slash-separated paths that the agent uses, and what makes a relative path
  stay below its directory.
\<close>

section \<open>The functions\<close>

abbreviation slash :: char where "slash \<equiv> CHR ''/''"

definition path_IsAbs :: "string \<Rightarrow> bool" where
  "path_IsAbs p \<longleftrightarrow> p \<noteq> [] \<and> hd p = slash"

text \<open>
  \<open>path.Clean\<close>: the elements are read from left to right onto a stack; empty ones and
  \<open>.\<close> are dropped, \<open>..\<close> removes the element before it, stays when there is none and
  disappears at the root.
\<close>

fun clean_segs :: "bool \<Rightarrow> string list \<Rightarrow> string list \<Rightarrow> string list" where
  "clean_segs rooted acc [] = rev acc"
| "clean_segs rooted acc (s # ss) =
     (if s = [] \<or> s = ''.'' then clean_segs rooted acc ss
      else if s = ''..'' then
        (case acc of
           a # as \<Rightarrow> if a = ''..'' then clean_segs rooted (s # acc) ss else clean_segs rooted as ss
         | [] \<Rightarrow> clean_segs rooted (if rooted then [] else [s]) ss)
      else clean_segs rooted (s # acc) ss)"

definition path_Clean :: "string \<Rightarrow> string" where
  "path_Clean p =
     (let segs = clean_segs (path_IsAbs p) [] (split_on slash p);
          body = join_with [slash] segs
      in if path_IsAbs p then slash # body else if segs = [] then ''.'' else body)"

definition path_Dir :: "string \<Rightarrow> string" where
  "path_Dir p =
     (let segs = split_on slash p
      in path_Clean (if length segs = 1 then [] else join_with [slash] (butlast segs) @ [slash]))"

definition path_Base :: "string \<Rightarrow> string" where
  "path_Base p =
     (if p = [] then ''.''
      else let p = trim_right slash p
           in if p = [] then ''/'' else last (split_on slash p))"

definition path_Ext :: "string \<Rightarrow> string" where
  "path_Ext p =
     (let name = last (split_on slash p)
      in if CHR ''.'' \<in> set name then CHR ''.'' # last (split_on (CHR ''.'') name) else [])"

definition path_Join :: "string list \<Rightarrow> string" where
  "path_Join elems =
     (let elems = filter (\<lambda>e. e \<noteq> []) elems
      in if elems = [] then [] else path_Clean (join_with [slash] elems))"

text \<open>\<open>filepath.Rel\<close>; \<open>None\<close> is its error.\<close>

fun strip_common :: "'a list \<Rightarrow> 'a list \<Rightarrow> 'a list \<times> 'a list" where
  "strip_common (x # xs) (y # ys) = (if x = y then strip_common xs ys else (x # xs, y # ys))"
| "strip_common xs ys = (xs, ys)"

definition path_Rel :: "string \<Rightarrow> string \<Rightarrow> string option" where
  "path_Rel basepath targpath =
     (let base = path_Clean basepath; targ = path_Clean targpath in
      if targ = base then Some ''.''
      else
        let base = (if base = ''.'' then [] else base) in
        if path_IsAbs base \<noteq> path_IsAbs targ then None
        else
          (case strip_common (filter (\<lambda>s. s \<noteq> []) (split_on slash base))
                             (filter (\<lambda>s. s \<noteq> []) (split_on slash targ)) of
             (bs, ts) \<Rightarrow>
               if bs \<noteq> [] \<and> hd bs = ''..'' then None
               else Some (join_with [slash] (replicate (length bs) ''..'' @ ts))))"

section \<open>Relative paths that stay below their directory\<close>

definition good_seg :: "string \<Rightarrow> bool" where
  "good_seg s \<longleftrightarrow> s \<noteq> [] \<and> s \<noteq> ''.'' \<and> s \<noteq> ''..''"

definition safe_rel :: "string \<Rightarrow> bool" where
  "safe_rel p \<longleftrightarrow> list_all good_seg (split_on slash p)"

lemma clean_segs_good:
  "list_all good_seg ss \<Longrightarrow> clean_segs r acc (ss) = rev acc @ ss"
  by (induction ss arbitrary: acc) (auto simp: good_seg_def)

lemma clean_segs_append:
  "list_all good_seg ts \<Longrightarrow> clean_segs r acc (ss @ ts) = clean_segs r acc ss @ ts"
proof (induction ss arbitrary: acc)
  case Nil
  then show ?case by (simp add: clean_segs_good)
next
  case (Cons s ss)
  then show ?case by (auto split: list.split)
qed

text \<open>What \<open>Clean\<close> leaves: \<open>..\<close> only at the start, and only when the path is relative.\<close>

definition dots_first :: "bool \<Rightarrow> string list \<Rightarrow> bool" where
  "dots_first r ss \<longleftrightarrow>
     (\<exists>k gs. ss = replicate k ''..'' @ gs \<and> list_all good_seg gs \<and> (r \<longrightarrow> k = 0))"

lemma dots_first_True: "dots_first True ss \<longleftrightarrow> list_all good_seg ss"
  by (simp add: dots_first_def)

lemma dots_first_nonempty:
  assumes "dots_first r ss"
  shows "\<forall>w\<in>set ss. w \<noteq> []"
proof
  fix w assume w: "w \<in> set ss"
  obtain k gs where ss: "ss = replicate k ''..'' @ gs" "list_all good_seg gs"
    using assms unfolding dots_first_def by blast
  have "w \<in> set (replicate k ''..'') \<or> w \<in> set gs" using w ss(1) by simp
  then show "w \<noteq> []"
  proof
    assume "w \<in> set gs"
    with ss(2) have "good_seg w" by (simp add: list_all_iff)
    then show ?thesis by (simp add: good_seg_def)
  qed (simp add: in_set_replicate)
qed

lemma dots_first_pop:
  assumes "dots_first r (rev (a # as))" and "a \<noteq> ''..''"
  shows "dots_first r (rev as)"
proof -
  obtain k gs where k: "rev as @ [a] = replicate k ''..'' @ gs" "list_all good_seg gs" "r \<longrightarrow> k = 0"
    using assms(1) by (auto simp: dots_first_def)
  have "gs \<noteq> []"
  proof
    assume "gs = []"
    then have "a \<in> set (replicate k ''..'')" using k(1) by (metis append_Nil2 in_set_conv_decomp)
    then show False using assms(2) by simp
  qed
  then have "rev as = replicate k ''..'' @ butlast gs"
    using k(1) by (metis butlast_append butlast_snoc)
  moreover have "list_all good_seg (butlast gs)"
    using k(2) by (auto simp: list_all_iff dest: in_set_butlastD)
  ultimately show ?thesis using k(3) by (auto simp: dots_first_def)
qed

lemma dots_first_push_dots:
  assumes "dots_first False (rev (''..'' # as))"
  shows "dots_first False (rev (''..'' # ''..'' # as))"
proof -
  obtain k gs where k: "rev as @ [''..''] = replicate k ''..'' @ gs" "list_all good_seg gs"
    using assms by (auto simp: dots_first_def)
  have "gs = []"
  proof (rule ccontr)
    assume "gs \<noteq> []"
    then have "last gs = ''..''" using k(1) by (metis last_append last_snoc)
    then show False using k(2) \<open>gs \<noteq> []\<close> by (auto simp: list_all_iff good_seg_def dest!: last_in_set)
  qed
  then have "rev (''..'' # ''..'' # as) = replicate (Suc k) ''..'' @ []"
    using k(1) by (simp add: replicate_append_same)
  then show ?thesis unfolding dots_first_def by (metis list.pred_inject(1))
qed

lemma clean_segs_dots:
  "dots_first r (rev acc) \<Longrightarrow> dots_first r (clean_segs r acc ss)"
proof (induction r acc ss rule: clean_segs.induct)
  case (2 r acc s ss)
  have push: "dots_first r (rev (s # acc))" if g: "good_seg s"
  proof -
    obtain k gs where "rev acc = replicate k ''..'' @ gs" "list_all good_seg gs" "r \<longrightarrow> k = 0"
      using "2.prems" by (auto simp: dots_first_def)
    then have "rev (s # acc) = replicate k ''..'' @ (gs @ [s])" "list_all good_seg (gs @ [s])" "r \<longrightarrow> k = 0"
      using g by auto
    then show ?thesis unfolding dots_first_def by blast
  qed
  show ?case
  proof (cases "s = [] \<or> s = ''.''")
    case True
    then show ?thesis using "2.IH"(1) "2.prems" by simp
  next
    case False
    show ?thesis
    proof (cases "s = ''..''")
      case dd: True
      show ?thesis
      proof (cases acc)
        case Nil
        have "dots_first r (rev (if r then [] else [s]))"
          by (auto simp: dots_first_def dd intro: exI [of _ "Suc 0"] exI [of _ "0::nat"])
        then show ?thesis using "2.IH"(2) False dd Nil by (cases r) simp_all
      next
        case (Cons a as)
        show ?thesis
        proof (cases "a = ''..''")
          case True
          have "\<not> r" using "2.prems" Cons True by (cases r) (auto simp: dots_first_True good_seg_def)
          then have "dots_first r (rev (s # acc))"
            using dots_first_push_dots "2.prems" Cons True dd by simp
          then show ?thesis using "2.IH"(3) False dd Cons True by simp
        next
          case F: False
          have "dots_first r (rev as)" using dots_first_pop "2.prems" Cons F by blast
          then show ?thesis using "2.IH"(4) False dd Cons F by simp
        qed
      qed
    next
      case F: False
      then show ?thesis using "2.IH"(5) False push by (simp add: good_seg_def)
    qed
  qed
qed simp

lemma clean_segs_set: "set (clean_segs r acc ss) \<subseteq> set acc \<union> set ss"
proof (induction ss arbitrary: acc)
  case (Cons s ss)
  obtain acc' where "clean_segs r acc (s # ss) = clean_segs r acc' ss" "set acc' \<subseteq> insert s (set acc)"
  proof (cases "s = [] \<or> s = ''.'' \<or> s \<noteq> ''..''")
    case True
    then show thesis by (intro that [of "if s = [] \<or> s = ''.'' then acc else s # acc"]) auto
  next
    case False
    then show thesis
      by (intro that [of "case acc of [] \<Rightarrow> if r then [] else [s] | a # as \<Rightarrow> if a = ''..'' then s # acc else as"])
        (auto split: list.splits)
  qed
  with Cons.IH [of acc'] show ?case by auto
qed simp

text \<open>A cleaned relative path: \<open>.\<close>, or elements joined by slashes.\<close>

lemma Clean_rel_split:
  assumes "\<not> path_IsAbs p" and "path_Clean p \<noteq> ''.''"
  shows "split_on slash (path_Clean p) = clean_segs False [] (split_on slash p)"
proof -
  let ?c = "clean_segs False [] (split_on slash p)"
  have "?c \<noteq> []" and c: "path_Clean p = join_with [slash] ?c"
    using assms by (auto simp: path_Clean_def Let_def split: if_splits)
  moreover have "\<forall>w\<in>set ?c. slash \<notin> set w"
    using clean_segs_set [of False "[]" "split_on slash p"] split_on_free by fastforce
  ultimately show ?thesis by (simp add: split_join)
qed

lemma safe_rel_not_abs: "safe_rel p \<Longrightarrow> \<not> path_IsAbs p"
  by (cases p) (auto simp: safe_rel_def path_IsAbs_def good_seg_def)

lemma safe_rel_Clean: "safe_rel p \<Longrightarrow> path_Clean p = p"
  using safe_rel_not_abs [of p]
  by (simp add: path_Clean_def safe_rel_def clean_segs_good join_split)

lemma safe_relI:
  assumes "\<not> path_IsAbs p" and "path_Clean p \<noteq> ''.''" and "path_Clean p \<noteq> ''..''"
    and "\<not> has_prefix (path_Clean p) ''../''"
  shows "safe_rel (path_Clean p)"
proof -
  let ?c = "clean_segs False [] (split_on slash p)"
  have split: "split_on slash (path_Clean p) = ?c" by (rule Clean_rel_split [OF assms(1,2)])
  have "dots_first False ?c"
    by (rule clean_segs_dots) (auto simp: dots_first_def)
  then obtain k gs where k: "?c = replicate k ''..'' @ gs" "list_all good_seg gs"
    by (auto simp: dots_first_def)
  show ?thesis
  proof (cases k)
    case 0
    with k split show ?thesis by (simp add: safe_rel_def)
  next
    case (Suc j)
    obtain rest where c: "?c = ''..'' # rest" using k Suc by simp
    have "path_Clean p = join_with [slash] ?c" by (metis join_split split)
    with c assms(3,4) show ?thesis by (cases rest) (simp_all add: has_prefix_def)
  qed
qed

section \<open>Joining a safe path to a rooted directory\<close>

definition abs_segs :: "string \<Rightarrow> string list" where
  "abs_segs p = clean_segs True [] (split_on slash p)"

lemma abs_segs_good: "list_all good_seg (abs_segs p)"
  unfolding abs_segs_def using clean_segs_dots [of True "[]"] by (simp add: dots_first_True)

lemma abs_segs_free: "\<forall>w\<in>set (abs_segs p). slash \<notin> set w"
  using clean_segs_set [of True "[]" "split_on slash p"] split_on_free
  by (fastforce simp: abs_segs_def)

lemma Clean_abs: "path_IsAbs p \<Longrightarrow> path_Clean p = slash # join_with [slash] (abs_segs p)"
  by (simp add: path_Clean_def abs_segs_def)

lemma split_abs:
  assumes "\<forall>w\<in>set gs. slash \<notin> set w"
  shows "split_on slash (slash # join_with [slash] gs) = [] # (if gs = [] then [[]] else gs)"
  using assms by (simp add: split_join)

lemma abs_segs_join:
  assumes "list_all good_seg gs" and "\<forall>w\<in>set gs. slash \<notin> set w"
  shows "abs_segs (slash # join_with [slash] gs) = gs"
  unfolding abs_segs_def split_abs [OF assms(2)] using assms(1) by (simp add: clean_segs_good)

lemma split_on_join_app: "split_on c (s @ c # t) = split_on c s @ split_on c t"
proof (induction s)
  case (Cons x s)
  then show ?case by (cases "split_on c s") auto
qed simp

lemma Join_child:
  assumes "path_IsAbs root" and "safe_rel c"
  shows "path_Join [root, c] = slash # join_with [slash] (abs_segs root @ split_on slash c)"
proof -
  have "root \<noteq> []" "c \<noteq> []" using assms by (auto simp: path_IsAbs_def safe_rel_def good_seg_def)
  then have "path_Join [root, c] = path_Clean (root @ slash # c)" by (simp add: path_Join_def)
  also have "\<dots> = slash # join_with [slash] (abs_segs (root @ slash # c))"
    using assms(1) by (intro Clean_abs) (auto simp: path_IsAbs_def)
  also have "abs_segs (root @ slash # c) = abs_segs root @ split_on slash c"
    using assms(2) by (simp add: abs_segs_def split_on_join_app clean_segs_append safe_rel_def)
  finally show ?thesis .
qed

lemma abs_segs_Join:
  assumes "path_IsAbs root" and "safe_rel c"
  shows "abs_segs (path_Join [root, c]) = abs_segs root @ split_on slash c"
    and "path_IsAbs (path_Join [root, c])"
proof -
  have "list_all good_seg (abs_segs root @ split_on slash c)"
    using abs_segs_good [of root] assms(2) by (simp add: safe_rel_def)
  moreover have "\<forall>w\<in>set (abs_segs root @ split_on slash c). slash \<notin> set w"
    using abs_segs_free [of root] split_on_free by fastforce
  ultimately show "abs_segs (path_Join [root, c]) = abs_segs root @ split_on slash c"
    unfolding Join_child [OF assms] by (rule abs_segs_join)
  show "path_IsAbs (path_Join [root, c])" unfolding Join_child [OF assms] by (simp add: path_IsAbs_def)
qed

lemma strip_common_append: "strip_common xs (xs @ ys) = ([], ys)"
  by (induction xs) auto

lemma good_filter: "list_all good_seg gs \<Longrightarrow> filter (\<lambda>s. s \<noteq> []) gs = gs"
  by (auto simp: list_all_iff good_seg_def filter_id_conv)

lemma Rel_child:
  assumes "path_IsAbs root" and "safe_rel c"
  shows "path_Rel root (path_Join [root, c]) = Some c"
proof -
  let ?A = "abs_segs root" and ?C = "split_on slash c"
  have base: "path_Clean root = slash # join_with [slash] ?A" by (rule Clean_abs [OF assms(1)])
  have targ: "path_Clean (path_Join [root, c]) = slash # join_with [slash] (?A @ ?C)"
    by (simp only: Clean_abs [OF abs_segs_Join(2) [OF assms]] abs_segs_Join(1) [OF assms])
  have free: "\<forall>w\<in>set ?A. slash \<notin> set w" "\<forall>w\<in>set (?A @ ?C). slash \<notin> set w"
    using abs_segs_free [of root] split_on_free by fastforce+
  have good: "list_all good_seg ?A" "list_all good_seg (?A @ ?C)"
    using abs_segs_good [of root] assms(2) by (simp_all add: safe_rel_def)
  have fA: "filter (\<lambda>s. s \<noteq> []) (split_on slash (slash # join_with [slash] ?A)) = ?A"
    unfolding split_abs [OF free(1)] using good_filter [OF good(1)] by simp
  have fC: "filter (\<lambda>s. s \<noteq> []) (split_on slash (slash # join_with [slash] (?A @ ?C))) = ?A @ ?C"
    unfolding split_abs [OF free(2)] using good_filter [OF good(2)] by simp
  have ne: "slash # join_with [slash] (?A @ ?C) \<noteq> slash # join_with [slash] ?A"
    using fA fC by (metis append_self_conv split_on_nonempty)
  have nd: "slash # join_with [slash] ?A \<noteq> ''.''" by simp
  have abs: "path_IsAbs (slash # x)" for x by (simp add: path_IsAbs_def)
  show ?thesis
    unfolding path_Rel_def base targ Let_def if_not_P [OF ne] if_not_P [OF nd] fA fC strip_common_append
    by (simp add: abs join_split)
qed

lemma clean_segs_snoc_Nil: "clean_segs r acc (ss @ [[]]) = clean_segs r acc ss"
  by (induction ss arbitrary: acc) (auto split: list.split)

lemma clean_segs_dots_id:
  "list_all good_seg gs \<Longrightarrow> clean_segs False (replicate j ''..'') (replicate k ''..'' @ gs) = replicate (j + k) ''..'' @ gs"
proof (induction k arbitrary: j)
  case 0
  then show ?case by (simp add: clean_segs_good)
next
  case (Suc k)
  have "clean_segs False (replicate j ''..'') (''..'' # replicate k ''..'' @ gs)
      = clean_segs False (replicate (Suc j) ''..'') (replicate k ''..'' @ gs)"
    by (cases j) simp_all
  also have "\<dots> = replicate (Suc j + k) ''..'' @ gs" by (rule Suc.IH [OF Suc.prems])
  finally show ?case by simp
qed

lemma clean_segs_id: "dots_first False ss \<Longrightarrow> clean_segs False [] ss = ss"
  using clean_segs_dots_id [of _ 0] by (auto simp: dots_first_def)

lemma dots_first_butlast: "dots_first False ss \<Longrightarrow> dots_first False (butlast ss)"
proof -
  assume "dots_first False ss"
  then obtain k gs where k: "ss = replicate k ''..'' @ gs" "list_all good_seg gs" by (auto simp: dots_first_def)
  show ?thesis
  proof (cases "gs = []")
    case True
    then have "butlast ss = replicate (k - 1) ''..'' @ []" using k(1) by (cases k) (auto simp: replicate_append_same [symmetric])
    then show ?thesis unfolding dots_first_def by (intro exI [of _ "k - 1"] exI [of _ "[]"]) simp
  next
    case False
    then have "butlast ss = replicate k ''..'' @ butlast gs" using k(1) by (simp add: butlast_append)
    moreover have "list_all good_seg (butlast gs)" using k(2) by (auto simp: list_all_iff dest: in_set_butlastD)
    ultimately show ?thesis by (auto simp: dots_first_def)
  qed
qed

lemma hd_seg: "hd (split_on slash p) \<noteq> [] \<Longrightarrow> p \<noteq> [] \<and> hd p \<noteq> slash"
  by (cases p) auto

text \<open>The directory of a clean relative path is the path without its last element.\<close>

lemma path_Dir_clean:
  assumes "dots_first False (split_on slash p)" and "length (split_on slash p) > 1"
  shows "path_Dir p = join_with [slash] (butlast (split_on slash p))"
proof -
  let ?S = "split_on slash p"
  have ne: "butlast ?S \<noteq> []" using assms(2) by (cases ?S rule: rev_cases) auto
  have free: "\<forall>w\<in>set (butlast ?S). slash \<notin> set w" by (auto dest: in_set_butlastD split_on_free)
  have d: "dots_first False (butlast ?S)" by (rule dots_first_butlast [OF assms(1)])
  then have nonempty: "\<forall>w\<in>set (butlast ?S). w \<noteq> []" by (rule dots_first_nonempty)
  let ?d = "join_with [slash] (butlast ?S)"
  have sd: "split_on slash ?d = butlast ?S" by (rule split_join [OF ne free])
  have "hd (split_on slash ?d) \<noteq> []" unfolding sd using nonempty ne by (metis hd_in_set)
  from hd_seg [OF this] have "\<not> path_IsAbs (?d @ [slash])" by (simp add: path_IsAbs_def)
  moreover have "clean_segs False [] (split_on slash (?d @ [slash])) = butlast ?S"
    using split_on_join_app [of slash ?d "[]"] by (simp add: sd clean_segs_snoc_Nil clean_segs_id [OF d])
  ultimately show ?thesis using assms(2) ne by (simp add: path_Dir_def path_Clean_def)
qed

lemma path_Dir_single: "slash \<notin> set p \<Longrightarrow> path_Dir p = ''.''"
  by (simp add: path_Dir_def split_on_none path_Clean_def path_IsAbs_def)

end
