(* ===== verification/State.thy ===== *)
theory State
  imports Pairing Control_Token Paths
begin

text \<open>
  \<open>internal/store/state.go\<close>: the file with the agent's identity, its session signing key and
  its relay credential. The file is the state it encodes, or \<open>None\<close> when it is not the JSON
  text of a state. \<open>ed25519.GenerateKey\<close> is a draw of a key pair, public key first.
\<close>

section \<open>The file\<close>

record agent_state =
  stAgentID :: string
  stCreatedAt :: gotime
  stSessionSigningKey :: string
  stAdminToken :: string
  stRelayKeyID :: string
  stRelayPrivateKey :: string
  stRelayPublicKey :: string
  stRelayCredentialSyncedAt :: "gotime option"

record loaded_state =
  lsPath :: string
  lsState :: agent_state

datatype state_error =
  ErrStateDataDir | ErrStateMkdir | ErrStateRead | ErrStateParse | ErrStateMissingFields
| ErrStateRandom | ErrStateWrite | ErrStatePath

type_synonym state_file = "agent_state option dir"

definition stateFileName :: string where "stateFileName = ''agent-state.json''"

definition writeStateFile ::
    "write_step option \<Rightarrow> agent_state \<Rightarrow> state_file \<Rightarrow> (state_error + unit) \<times> state_file" where
  "writeStateFile fault state d =
     (case writeFile (Some state) fault d of
        (ok, d) \<Rightarrow> (if ok then Inr () else Inl ErrStateWrite, d))"

definition SaveLoadedState ::
    "write_step option \<Rightarrow> loaded_state \<Rightarrow> state_file \<Rightarrow> (state_error + unit) \<times> state_file" where
  "SaveLoadedState fault loaded d =
     (if lsPath loaded = [] then (Inl ErrStatePath, d) else writeStateFile fault (lsState loaded) d)"

section \<open>Generation\<close>

record state_draws =
  drAgentID :: draw
  drSigningKey :: draw
  drRelayKeyID :: draw
  drKeyPair :: "(string \<times> string) option"

definition ensureRelayCredential :: "state_draws \<Rightarrow> agent_state \<Rightarrow> (state_error, agent_state) result" where
  "ensureRelayCredential r state =
     (case randomHex 16 (drRelayKeyID r) of
        None \<Rightarrow> Inl ErrStateRandom
      | Some keyID \<Rightarrow>
          (case drKeyPair r of
             None \<Rightarrow> Inl ErrStateRandom
           | Some (publicKey, privateKey) \<Rightarrow>
               Inr (state\<lparr>stRelayKeyID := keyID, stRelayPrivateKey := raw_std_encode privateKey,
                          stRelayPublicKey := raw_std_encode publicKey,
                          stRelayCredentialSyncedAt := None\<rparr>)))"

definition generateState :: "state_draws \<Rightarrow> gotime \<Rightarrow> (state_error, agent_state) result" where
  "generateState r now =
     (case randomHex 16 (drAgentID r) of
        None \<Rightarrow> Inl ErrStateRandom
      | Some agentID \<Rightarrow>
          (case randomBase64 32 (drSigningKey r) of
             None \<Rightarrow> Inl ErrStateRandom
           | Some signingKey \<Rightarrow>
               ensureRelayCredential r
                 \<lparr>stAgentID = agentID, stCreatedAt = now, stSessionSigningKey = signingKey,
                  stAdminToken = [], stRelayKeyID = [], stRelayPrivateKey = [],
                  stRelayPublicKey = [], stRelayCredentialSyncedAt = None\<rparr>))"

text \<open>
  \<open>LoadOrCreate\<close>: \<open>mkdirOK\<close> and \<open>readOK\<close> are the outcomes of creating the directory and
  of reading a file that exists, \<open>fault\<close> that of the write.
\<close>

definition LoadOrCreate ::
    "string \<Rightarrow> bool \<Rightarrow> bool \<Rightarrow> state_draws \<Rightarrow> gotime \<Rightarrow> write_step option \<Rightarrow> state_file \<Rightarrow>
     (state_error + loaded_state) \<times> state_file" where
  "LoadOrCreate dataDir mkdirOK readOK r now fault d =
     (if dataDir = [] then (Inl ErrStateDataDir, d)
      else if \<not> mkdirOK then (Inl ErrStateMkdir, d)
      else
        let path = path_Join [dataDir, stateFileName];
            save = (\<lambda>state. case writeStateFile fault state d of
                      (Inl e, d) \<Rightarrow> (Inl e, d)
                    | (Inr _, d) \<Rightarrow> (Inr \<lparr>lsPath = path, lsState = state\<rparr>, d))
        in if \<not> readOK then (Inl ErrStateRead, d)
        else case target d of
          Some None \<Rightarrow> (Inl ErrStateParse, d)
        | Some (Some state) \<Rightarrow>
            if stAgentID state = [] \<or> stSessionSigningKey state = [] then (Inl ErrStateMissingFields, d)
            else if stRelayKeyID state = [] \<or> stRelayPrivateKey state = [] \<or> stRelayPublicKey state = []
            then (case ensureRelayCredential r state of
                    Inl e \<Rightarrow> (Inl e, d)
                  | Inr state \<Rightarrow> save state)
            else (Inr \<lparr>lsPath = path, lsState = state\<rparr>, d)
        | None \<Rightarrow>
            (case generateState r now of
               Inl e \<Rightarrow> (Inl e, d)
             | Inr state \<Rightarrow> save state))"

section \<open>The identity is stable\<close>

definition complete_state :: "agent_state \<Rightarrow> bool" where
  "complete_state st \<longleftrightarrow> stAgentID st \<noteq> [] \<and> stSessionSigningKey st \<noteq> [] \<and> stRelayKeyID st \<noteq> []
     \<and> stRelayPrivateKey st \<noteq> [] \<and> stRelayPublicKey st \<noteq> []"

lemma hex_empty: "hex_encode s = [] \<longleftrightarrow> s = []"
  by (cases s) simp_all

lemma raw_std_empty: "raw_std_encode s = [] \<longleftrightarrow> s = []"
proof -
  have "raw_std_encode [] = []" by code_simp
  then show ?thesis using rawstd.enc_inj [of s "[]"] by simp
qed

lemma randomHex_full:
  assumes "\<forall>n s. d n = Some s \<longrightarrow> length s = n" and "randomHex 16 d = Some k"
  shows "k \<noteq> []"
proof -
  obtain z where "d 16 = Some z" "k = hex_encode z" using assms(2) by (auto simp: randomHex_def)
  with assms(1) have "length z = 16" by blast
  then show ?thesis using \<open>k = hex_encode z\<close> by (auto simp: hex_empty)
qed

text \<open>What the random sources return: as many bytes as asked for, keys of the right sizes.\<close>

definition full_draws :: "state_draws \<Rightarrow> bool" where
  "full_draws r \<longleftrightarrow>
     (\<forall>d\<in>{drAgentID r, drSigningKey r, drRelayKeyID r}. \<forall>n s. d n = Some s \<longrightarrow> length s = n)
     \<and> (\<forall>pub priv. drKeyPair r = Some (pub, priv) \<longrightarrow>
          length pub = ed_PublicKeySize \<and> length priv = ed_PrivateKeySize)"

lemma ensureRelayCredential_Inr:
  assumes "ensureRelayCredential r st = Inr st'" and "full_draws r"
  shows "stAgentID st' = stAgentID st" and "stSessionSigningKey st' = stSessionSigningKey st"
    and "stCreatedAt st' = stCreatedAt st" and "stAdminToken st' = stAdminToken st"
    and "stRelayKeyID st' \<noteq> []" and "stRelayPrivateKey st' \<noteq> []" and "stRelayPublicKey st' \<noteq> []"
    and "trim_space (stRelayKeyID st') = stRelayKeyID st'"
    and "\<exists>pub priv. drKeyPair r = Some (pub, priv) \<and> decodeEd25519PrivateKey (stRelayPrivateKey st') = Some priv
          \<and> decodeEd25519PublicKey (stRelayPublicKey st') = Some pub"
proof -
  obtain k pub priv where k: "randomHex 16 (drRelayKeyID r) = Some k" "drKeyPair r = Some (pub, priv)"
    and st': "st' = st\<lparr>stRelayKeyID := k, stRelayPrivateKey := raw_std_encode priv,
                stRelayPublicKey := raw_std_encode pub, stRelayCredentialSyncedAt := None\<rparr>"
    using assms(1) by (auto simp: ensureRelayCredential_def split: option.splits)
  have len: "length pub = ed_PublicKeySize" "length priv = ed_PrivateKeySize"
    using assms(2) k(2) by (auto simp: full_draws_def)
  have "k \<noteq> []" by (rule randomHex_full [OF _ k(1)]) (use assms(2) in \<open>simp add: full_draws_def\<close>)
  then show "stAgentID st' = stAgentID st" "stSessionSigningKey st' = stSessionSigningKey st"
    "stCreatedAt st' = stCreatedAt st" "stAdminToken st' = stAdminToken st"
    "stRelayKeyID st' \<noteq> []" "stRelayPrivateKey st' \<noteq> []" "stRelayPublicKey st' \<noteq> []"
    using len by (auto simp: st' raw_std_empty ed_PublicKeySize_def ed_PrivateKeySize_def)
  show "trim_space (stRelayKeyID st') = stRelayKeyID st'"
    using randomHex_trim [OF k(1)] by (simp add: st')
  show "\<exists>pub priv. drKeyPair r = Some (pub, priv) \<and> decodeEd25519PrivateKey (stRelayPrivateKey st') = Some priv
      \<and> decodeEd25519PublicKey (stRelayPublicKey st') = Some pub"
    using k(2) len
    by (simp add: st' decodeEd25519PrivateKey_def decodeEd25519PublicKey_def rawstd.enc_trim rawstd.dec_enc)
qed

lemma generateState_Inr:
  assumes "generateState r now = Inr st" and "full_draws r"
  shows "complete_state st" and "stCreatedAt st = now" and "trim_space (stAgentID st) = stAgentID st"
    and "\<exists>key. raw_std_decode (stSessionSigningKey st) = Some key \<and> length key = 32"
    and "\<exists>st0. ensureRelayCredential r st0 = Inr st"
proof -
  obtain i k where i: "randomHex 16 (drAgentID r) = Some i" "randomBase64 32 (drSigningKey r) = Some k"
    and e: "ensureRelayCredential r
        \<lparr>stAgentID = i, stCreatedAt = now, stSessionSigningKey = k, stAdminToken = [], stRelayKeyID = [],
         stRelayPrivateKey = [], stRelayPublicKey = [], stRelayCredentialSyncedAt = None\<rparr> = Inr st"
    using assms(1) by (auto simp: generateState_def split: option.splits)
  note c = ensureRelayCredential_Inr [OF e assms(2)]
  obtain key where key: "k = raw_std_encode key" "length key = 32"
    using i(2) assms(2) by (auto simp: randomBase64_def full_draws_def)
  moreover have "i \<noteq> []" by (rule randomHex_full [OF _ i(1)]) (use assms(2) in \<open>simp add: full_draws_def\<close>)
  ultimately show "complete_state st" using c by (auto simp: complete_state_def raw_std_empty)
  show "stCreatedAt st = now" using c by simp
  show "trim_space (stAgentID st) = stAgentID st" using c(1) randomHex_trim [OF i(1)] by simp
  show "\<exists>key. raw_std_decode (stSessionSigningKey st) = Some key \<and> length key = 32"
    using c(2) key by (simp add: rawstd.dec_enc)
  show "\<exists>st0. ensureRelayCredential r st0 = Inr st" using e by blast
qed

text \<open>How a start that succeeds comes by its state.\<close>

lemma LoadOrCreate_Inr:
  assumes "LoadOrCreate dataDir mkdirOK readOK r now fault d = (Inr l, d')" and "temp d = None"
  obtains (kept) st where "target d = Some (Some st)" "complete_state st" "lsState l = st" "d' = d"
  | (filled) st where "target d = Some (Some st)" "\<not> complete_state st" "stAgentID st \<noteq> []"
      "stSessionSigningKey st \<noteq> []" "ensureRelayCredential r st = Inr (lsState l)"
      "d' = d\<lparr>target := Some (Some (lsState l))\<rparr>"
  | (new) "target d = None" "generateState r now = Inr (lsState l)"
      "d' = d\<lparr>target := Some (Some (lsState l))\<rparr>"
proof (cases "target d")
  case None
  then show thesis
    using assms new
    by (auto simp: LoadOrCreate_def writeStateFile_def writeFile_eq replaces_def Let_def
        split: if_splits sum.splits)
next
  case (Some c)
  then obtain st where st: "target d = Some (Some st)"
    using assms by (cases c) (auto simp: LoadOrCreate_def Let_def split: if_splits)
  show thesis
  proof (cases "complete_state st")
    case True
    then show thesis
      using assms st kept by (auto simp: LoadOrCreate_def Let_def complete_state_def split: if_splits)
  next
    case False
    then show thesis
      using assms st filled
      by (auto simp: LoadOrCreate_def Let_def complete_state_def writeStateFile_def writeFile_eq replaces_def
          split: if_splits sum.splits)
  qed
qed

lemma LoadOrCreate_complete:
  assumes "complete_state st" and "target d = Some (Some st)" and "dataDir \<noteq> []"
  shows "LoadOrCreate dataDir True True r now fault d
    = (Inr \<lparr>lsPath = path_Join [dataDir, stateFileName], lsState = st\<rparr>, d)"
  using assms by (simp add: LoadOrCreate_def complete_state_def Let_def)

lemma LoadOrCreate_path:
  assumes "LoadOrCreate dataDir mkdirOK readOK r now fault d = (Inr l, d')"
  shows "dataDir \<noteq> []" and "lsPath l = path_Join [dataDir, stateFileName]"
  using assms
  by (auto simp: LoadOrCreate_def Let_def split: if_splits option.splits sum.splits prod.splits)

text \<open>
  C38. The identity of an agent is stable: a start that succeeds leaves on disk exactly the
  state it returns, complete, so every later start returns the same state whatever it draws
  and writes nothing; a start on an existing state keeps the agent identifier, the signing
  key and the admin token, and draws a relay credential only when one is missing.
\<close>

theorem agent_identity_is_stable:
  assumes "full_draws r" and "temp d = None"
    and "LoadOrCreate dataDir mkdirOK readOK r now fault d = (Inr l, d')"
  shows "complete_state (lsState l) \<and> target d' = Some (Some (lsState l))
    \<and> (\<forall>r2 now2 fault2. LoadOrCreate dataDir True True r2 now2 fault2 d' = (Inr l, d'))
    \<and> (\<forall>st. target d = Some (Some st) \<longrightarrow>
         stAgentID (lsState l) = stAgentID st \<and> stSessionSigningKey (lsState l) = stSessionSigningKey st
         \<and> stAdminToken (lsState l) = stAdminToken st
         \<and> (complete_state st \<longrightarrow> lsState l = st \<and> d' = d))"
proof -
  note path = LoadOrCreate_path [OF assms(3)]
  have c: "complete_state (lsState l) \<and> target d' = Some (Some (lsState l))"
    using assms(3,2)
  proof (cases rule: LoadOrCreate_Inr)
    case (filled st)
    with ensureRelayCredential_Inr [OF filled(5) assms(1)] show ?thesis by (simp add: complete_state_def)
  next
    case new
    with generateState_Inr [OF new(2) assms(1)] show ?thesis by simp
  qed auto
  have "LoadOrCreate dataDir True True r2 now2 fault2 d' = (Inr l, d')" for r2 now2 fault2
    using LoadOrCreate_complete [OF conjunct1 [OF c] conjunct2 [OF c] path(1)] path(2) by (cases l) simp
  moreover have "stAgentID (lsState l) = stAgentID st \<and> stSessionSigningKey (lsState l) = stSessionSigningKey st
         \<and> stAdminToken (lsState l) = stAdminToken st
         \<and> (complete_state st \<longrightarrow> lsState l = st \<and> d' = d)" if "target d = Some (Some st)" for st
    using assms(3,2)
  proof (cases rule: LoadOrCreate_Inr)
    case (filled st')
    with ensureRelayCredential_Inr [OF filled(5) assms(1)] that show ?thesis by auto
  qed (use that in auto)
  ultimately show ?thesis using c by blast
qed

definition ex_state_draws :: state_draws where
  "ex_state_draws = \<lparr>drAgentID = (\<lambda>n. Some (replicate n (CHR ''a''))),
     drSigningKey = (\<lambda>n. Some (replicate n (CHR ''k''))), drRelayKeyID = (\<lambda>n. Some (replicate n (CHR ''r''))),
     drKeyPair = Some (replicate 32 (CHR ''q''), replicate 64 (CHR ''p''))\<rparr>"

definition ex_no_state :: state_file where "ex_no_state = \<lparr>target = None, temp = None\<rparr>"

lemma ex_full_draws: "full_draws ex_state_draws"
  by (simp add: full_draws_def ex_state_draws_def ed_PublicKeySize_def ed_PrivateKeySize_def)

lemma ex_state_load:
  obtains l d where "LoadOrCreate ''d'' True True ex_state_draws 5 None ex_no_state = (Inr l, d)"
  by (auto simp: LoadOrCreate_def generateState_def ensureRelayCredential_def randomHex_def randomBase64_def
      ex_state_draws_def ex_no_state_def writeStateFile_def writeFile_eq replaces_def Let_def)

theorem agent_identity_is_stable_witness:
  "\<exists>l d. LoadOrCreate ''d'' True True ex_state_draws 5 None ex_no_state = (Inr l, d)
     \<and> LoadOrCreate ''d'' True True (ex_state_draws\<lparr>drKeyPair := None\<rparr>) 9 (Some WriteTemp) d = (Inr l, d)"
proof -
  obtain l d where run: "LoadOrCreate ''d'' True True ex_state_draws 5 None ex_no_state = (Inr l, d)"
    by (rule ex_state_load)
  have "temp ex_no_state = None" by (simp add: ex_no_state_def)
  from agent_identity_is_stable [OF ex_full_draws this run] run show ?thesis by blast
qed

text \<open>
  The credentials of a new agent work: with the key it generates, the pairing service
  starts, and the token that the agent mints for the relay with its private key is accepted
  with its public key until it expires, and names the agent. The hypotheses are those of
  Ed25519 (a generated pair signs and verifies) and of the JSON codec.
\<close>

theorem new_agent_credentials_work:
  assumes draws: "full_draws r" and pair: "drKeyPair r = Some (pub, priv)"
    and laws: "\<forall>msg. length (edSign lib priv msg) = ed_SignatureSize \<and> edVerify lib pub msg (edSign lib priv msg)"
      "\<forall>h. unmarshalHeader lib (marshalHeader lib h) = Some h"
      "\<forall>p. unmarshalPayload lib (marshalPayload lib p) = Some p"
    and load: "temp d = None" "target d = None"
      "LoadOrCreate dataDir mkdirOK readOK r now fault d = (Inr l, d')"
    and ttl: "0 < ttl"
  shows "is_ok (NewService cr (stAgentID (lsState l)) name (stSessionSigningKey (lsState l)))
    \<and> (\<exists>token claims. MintControlPlaneToken lib (stRelayPrivateKey (lsState l)) (stRelayKeyID (lsState l))
           (stAgentID (lsState l)) t0 ttl = Inr token
         \<and> ccAgentID claims = stAgentID (lsState l)
         \<and> (\<forall>t. VerifyControlPlaneToken lib (stRelayPublicKey (lsState l)) token t
              = (if t < from_unix (unix_seconds (t0 + ttl)) then Inr claims else Inl ErrExpiredControlPlaneToken)))"
proof -
  let ?st = "lsState l"
  have gen: "generateState r now = Inr ?st"
    using load(3,1) by (cases rule: LoadOrCreate_Inr) (use load(2) in auto)
  note g = generateState_Inr [OF gen draws]
  from g(5) obtain st0 where "ensureRelayCredential r st0 = Inr ?st" by blast
  note e = ensureRelayCredential_Inr [OF this draws]
  have keys: "decodeEd25519PrivateKey (stRelayPrivateKey ?st) = Some priv"
      "decodeEd25519PublicKey (stRelayPublicKey ?st) = Some pub"
    using e(9) pair by auto
  have ids: "trim_space (stAgentID ?st) = stAgentID ?st" "stAgentID ?st \<noteq> []"
      "trim_space (stRelayKeyID ?st) = stRelayKeyID ?st" "stRelayKeyID ?st \<noteq> []"
    using g(1,3) e(8) by (auto simp: complete_state_def)
  obtain key where "raw_std_decode (stSessionSigningKey ?st) = Some key" "length key = 32"
    using g(4) by blast
  then have "is_ok (NewService cr (stAgentID ?st) name (stSessionSigningKey ?st))"
    using ids by (auto simp: NewService_def NewTokenManager_def defaultAccessTokenTTL_def)
  moreover obtain token where token: "MintControlPlaneToken lib (stRelayPrivateKey ?st) (stRelayKeyID ?st)
      (stAgentID ?st) t0 ttl = Inr token"
    using keys ids ttl by (auto simp: MintControlPlaneToken_def Let_def)
  have "\<exists>claims. ccAgentID claims = stAgentID ?st
      \<and> (\<forall>t. VerifyControlPlaneToken lib (stRelayPublicKey ?st) token t
           = (if t < from_unix (unix_seconds (t0 + ttl)) then Inr claims else Inl ErrExpiredControlPlaneToken))"
  proof -
    have "\<exists>claims. ccAgentID claims = trim_space (stAgentID ?st) \<and> ccKeyID claims = trim_space (stRelayKeyID ?st)
      \<and> ccAudience claims = ControlPlaneAudience
      \<and> ccIssuedAt claims = from_unix (unix_seconds t0)
      \<and> ccExpiresAt claims = from_unix (unix_seconds (t0 + ttl))
      \<and> ParseUnverifiedControlPlaneToken lib token = Inr claims
      \<and> VerifyControlPlaneToken lib (stRelayPublicKey ?st) token t
         = (if t < ccExpiresAt claims then Inr claims else Inl ErrExpiredControlPlaneToken)" for t
      by (rule minted_control_token [OF token keys laws(1)]) (use laws(2,3) in auto)
    then show ?thesis unfolding ids(1) by (metis sum.inject(2))
  qed
  ultimately show ?thesis using token by blast
qed

theorem new_agent_credentials_work_witness:
  "\<exists>l d. LoadOrCreate ''d'' True True ex_state_draws 5 None ex_no_state = (Inr l, d)
     \<and> is_ok (MintControlPlaneToken ex_lib (stRelayPrivateKey (lsState l)) (stRelayKeyID (lsState l))
           (stAgentID (lsState l)) second second)"
proof -
  obtain l d where run: "LoadOrCreate ''d'' True True ex_state_draws 5 None ex_no_state = (Inr l, d)"
    by (rule ex_state_load)
  have pair: "drKeyPair ex_state_draws = Some (replicate 32 (CHR ''q''), replicate 64 (CHR ''p''))"
    by (simp add: ex_state_draws_def)
  have json: "\<forall>h. unmarshalHeader ex_lib (marshalHeader ex_lib h) = Some h"
      "\<forall>p. unmarshalPayload ex_lib (marshalPayload ex_lib p) = Some p"
    by (simp_all add: ex_lib_header ex_lib_payload)
  have d: "temp ex_no_state = None" "target ex_no_state = None" by (simp_all add: ex_no_state_def)
  obtain tok where "MintControlPlaneToken ex_lib (stRelayPrivateKey (lsState l)) (stRelayKeyID (lsState l))
      (stAgentID (lsState l)) second second = Inr tok"
    using new_agent_credentials_work [OF ex_full_draws pair ex_signatures json d run, of second
        "\<lparr>crSha256 = id, crHmac = (@), crMarshal = (\<lambda>_. []), crUnmarshal = (\<lambda>_. None)\<rparr>" "[]" second]
    by auto
  with run show ?thesis by auto
qed

end
