(* ===== verification/Profile.thy ===== *)
theory Profile
  imports Registry Paths
begin

text \<open>
  \<open>internal/store/device_profile.go\<close>: one JSON file per paired device, which holds the
  administrator's upload policy for it. The store is its directory and, for every path, the
  file there; a file is the profile it encodes, or \<open>None\<close> when it is not the JSON text of a
  profile. Each method runs under the store's mutex; \<open>fault\<close> is the system call of the
  method that fails, if any.
\<close>

section \<open>Data\<close>

record device_upload_profile =
  duEnabled :: bool
  duRootKey :: string
  duPathPattern :: string
  duCapturedAfter :: "gotime option"
  duUpdatedAt :: gotime

record device_profile =
  dpVersion :: int
  dpDeviceID :: string
  dpDeviceName :: string
  dpCreatedAt :: gotime
  dpUpload :: device_upload_profile

record profile_store =
  prDir :: string
  prFiles :: "string \<Rightarrow> device_profile option dir"

datatype profile_fault = ReadFault | WriteFault write_step | RemoveFault

datatype profile_error =
  ErrProfileDeviceNotFound | ErrProfileNotExist | ErrProfileRead | ErrProfileParse
| ErrProfileWrite | ErrProfileRemove | ErrProfileDataDir

type_synonym 'a profile_result = "(profile_error + 'a) \<times> profile_store"

definition defaultUploadPathPattern :: string where
  "defaultUploadPathPattern = ''{deviceName}/{yyyy}-{MM}-{dd}/{filename}''"

definition defaultDeviceProfileVersion :: int where "defaultDeviceProfileVersion = 1"
definition deviceProfilesDirName :: string where "deviceProfilesDirName = ''devices''"

section \<open>Files\<close>

definition profilePathLocked :: "string \<Rightarrow> profile_store \<Rightarrow> string" where
  "profilePathLocked deviceID s = path_Join [prDir s, deviceID @ ''.json'']"

definition readDeviceProfileFile ::
    "profile_fault option \<Rightarrow> string \<Rightarrow> profile_store \<Rightarrow> (profile_error, device_profile) result" where
  "readDeviceProfileFile fault path s =
     (if fault = Some ReadFault then Inl ErrProfileRead
      else case target (prFiles s path) of
        None \<Rightarrow> Inl ErrProfileNotExist
      | Some None \<Rightarrow> Inl ErrProfileParse
      | Some (Some profile) \<Rightarrow> Inr profile)"

definition writeDeviceProfileFile ::
    "profile_fault option \<Rightarrow> string \<Rightarrow> device_profile \<Rightarrow> profile_store \<Rightarrow> device_profile profile_result" where
  "writeDeviceProfileFile fault path profile s =
     (case writeFile (Some profile) (case fault of Some (WriteFault st) \<Rightarrow> Some st | _ \<Rightarrow> None)
             (prFiles s path) of
        (ok, d) \<Rightarrow> (if ok then Inr profile else Inl ErrProfileWrite,
                    s\<lparr>prFiles := (prFiles s)(path := d)\<rparr>))"

section \<open>Operations\<close>

text \<open>
  \<open>LoadOrCreateDeviceProfileStore\<close>; \<open>files\<close> are the files that are there, \<open>mkdirOK\<close> is
  the outcome of \<open>os.MkdirAll\<close>.
\<close>

definition LoadOrCreateDeviceProfileStore ::
    "string \<Rightarrow> bool \<Rightarrow> (string \<Rightarrow> device_profile option dir) \<Rightarrow> (profile_error, profile_store) result" where
  "LoadOrCreateDeviceProfileStore dataDir mkdirOK files =
     (if trim_space dataDir = [] then Inl ErrProfileDataDir
      else if \<not> mkdirOK then Inl ErrProfileDataDir
      else Inr \<lparr>prDir = path_Join [dataDir, deviceProfilesDirName], prFiles = files\<rparr>)"

text \<open>The metadata that \<open>EnsureProfile\<close> refreshes in an existing profile.\<close>

definition refreshedProfile :: "device_record \<Rightarrow> string \<Rightarrow> gotime \<Rightarrow> device_profile \<Rightarrow> device_profile" where
  "refreshedProfile device normalizedDeviceID now profile =
     (let u = profile\<lparr>dpVersion := defaultDeviceProfileVersion, dpDeviceID := normalizedDeviceID,
                      dpDeviceName := devDeviceName device\<rparr>;
          u = (if is_zero (dpCreatedAt u) then u\<lparr>dpCreatedAt := devCreatedAt device\<rparr> else u);
          up = dpUpload u;
          up = (if duPathPattern up = [] then up\<lparr>duPathPattern := defaultUploadPathPattern\<rparr> else up);
          up = (if is_zero (duUpdatedAt up) then up\<lparr>duUpdatedAt := now\<rparr> else up)
      in u\<lparr>dpUpload := up\<rparr>)"

definition EnsureProfile ::
    "profile_fault option \<Rightarrow> device_record \<Rightarrow> gotime \<Rightarrow> profile_store \<Rightarrow> device_profile profile_result" where
  "EnsureProfile fault device now s =
     (let normalizedDeviceID = trim_space (devDeviceID device) in
      if normalizedDeviceID = [] then (Inl ErrProfileDeviceNotFound, s)
      else
        let path = profilePathLocked normalizedDeviceID s in
        case readDeviceProfileFile fault path s of
          Inr profile \<Rightarrow>
            let updated = refreshedProfile device normalizedDeviceID now profile in
            if updated = profile then (Inr profile, s)
            else writeDeviceProfileFile fault path updated s
        | Inl e \<Rightarrow>
            if e \<noteq> ErrProfileNotExist then (Inl e, s)
            else writeDeviceProfileFile fault path
                   \<lparr>dpVersion = defaultDeviceProfileVersion, dpDeviceID = normalizedDeviceID,
                    dpDeviceName = devDeviceName device, dpCreatedAt = devCreatedAt device,
                    dpUpload = \<lparr>duEnabled = False, duRootKey = [],
                                duPathPattern = defaultUploadPathPattern,
                                duCapturedAfter = None, duUpdatedAt = now\<rparr>\<rparr> s)"

definition DeleteProfile :: "profile_fault option \<Rightarrow> string \<Rightarrow> profile_store \<Rightarrow> unit profile_result" where
  "DeleteProfile fault deviceID s =
     (let normalizedDeviceID = trim_space deviceID in
      if normalizedDeviceID = [] then (Inl ErrProfileDeviceNotFound, s)
      else if fault = Some RemoveFault then (Inl ErrProfileRemove, s)
      else
        let path = profilePathLocked normalizedDeviceID s
        in (Inr (), s\<lparr>prFiles := (prFiles s)(path := (prFiles s path)\<lparr>target := None\<rparr>)\<rparr>))"

definition LoadProfile ::
    "profile_fault option \<Rightarrow> string \<Rightarrow> profile_store \<Rightarrow> (profile_error, device_profile) result" where
  "LoadProfile fault deviceID s =
     (let normalizedDeviceID = trim_space deviceID in
      if normalizedDeviceID = [] then Inl ErrProfileDeviceNotFound
      else readDeviceProfileFile fault (profilePathLocked normalizedDeviceID s) s)"

definition UpdateUploadProfile ::
    "profile_fault option \<Rightarrow> string \<Rightarrow> device_upload_profile \<Rightarrow> gotime \<Rightarrow> profile_store \<Rightarrow>
     device_profile profile_result" where
  "UpdateUploadProfile fault deviceID upload now s =
     (let normalizedDeviceID = trim_space deviceID in
      if normalizedDeviceID = [] then (Inl ErrProfileDeviceNotFound, s)
      else
        let path = profilePathLocked normalizedDeviceID s in
        case readDeviceProfileFile fault path s of
          Inl e \<Rightarrow> (Inl (if e = ErrProfileNotExist then ErrProfileDeviceNotFound else e), s)
        | Inr profile \<Rightarrow>
            let up = upload\<lparr>duRootKey := trim_space (duRootKey upload),
                            duPathPattern := trim_space (duPathPattern upload)\<rparr>;
                up = (if duPathPattern up = [] then up\<lparr>duPathPattern := defaultUploadPathPattern\<rparr> else up);
                up = up\<lparr>duUpdatedAt := now\<rparr>;
                profile = profile\<lparr>dpVersion := defaultDeviceProfileVersion, dpUpload := up\<rparr>
            in writeDeviceProfileFile fault path profile s)"

section \<open>One file per device\<close>

lemma Join_last:
  assumes "root \<noteq> []" and "good_seg c" and "slash \<notin> set c"
  shows "last (split_on slash (path_Join [root, c])) = c"
proof -
  let ?r = "path_IsAbs root"
  let ?A = "clean_segs ?r [] (split_on slash root)"
  have c: "split_on slash c = [c]" "c \<noteq> []" using assms(2,3) by (auto simp: split_on_none good_seg_def)
  have "clean_segs ?r [] (split_on slash (root @ slash # c)) = ?A @ [c]"
    using assms(2) by (simp add: split_on_join_app c clean_segs_append)
  moreover have "path_IsAbs (root @ slash # c) = ?r" using assms(1) by (simp add: path_IsAbs_def)
  moreover have "\<forall>w\<in>set (?A @ [c]). slash \<notin> set w"
    using clean_segs_set [of ?r "[]" "split_on slash root"] split_on_free assms(3) by fastforce
  then have "split_on slash (join_with [slash] (?A @ [c])) = ?A @ [c]" by (intro split_join) auto
  ultimately show ?thesis
    using assms(1) c(2) by (auto simp: path_Join_def path_Clean_def Let_def)
qed

text \<open>An identifier that names a file of its own, as the generated ones do.\<close>

definition file_id :: "string \<Rightarrow> bool" where
  "file_id deviceID \<longleftrightarrow> slash \<notin> set (trim_space deviceID)"

lemma profilePath_inj:
  assumes "prDir s \<noteq> []" and "file_id a" and "file_id b"
    and "profilePathLocked (trim_space a) s = profilePathLocked (trim_space b) s"
  shows "trim_space a = trim_space b"
proof -
  have json: "good_seg (x @ ''.json'')" for x
  proof -
    have "length (x @ ''.json'') > 2" by simp
    then show ?thesis by (auto simp: good_seg_def simp del: length_append)
  qed
  have "last (split_on slash (profilePathLocked (trim_space x) s)) = trim_space x @ ''.json''"
    if "file_id x" for x
    unfolding profilePathLocked_def using assms(1) that
    by (intro Join_last json) (auto simp: file_id_def)
  with assms show ?thesis by (metis append_same_eq)
qed

end
