(* ===== verification/Profile_Theorems.thy ===== *)
theory Profile_Theorems
  imports Profile
begin

text \<open>
  What the profile store promises: refreshing a profile never changes the administrator's
  policy, an updated policy is what is read back, and the profile of one device is out of
  reach of the operations on the others.
\<close>

lemma path_update:
  "profilePathLocked d (s\<lparr>prFiles := f\<rparr>) = profilePathLocked d s"
  by (simp add: profilePathLocked_def)

lemma other_profile:
  assumes "prDir s \<noteq> []" and "file_id a" and "file_id b" and "trim_space b \<noteq> trim_space a"
  shows "LoadProfile f b (s\<lparr>prFiles := (prFiles s)(profilePathLocked (trim_space a) s := d)\<rparr>)
    = LoadProfile f b s"
  using profilePath_inj [OF assms(1,3,2)] assms(4)
  by (auto simp: LoadProfile_def Let_def readDeviceProfileFile_def path_update)

lemma write_profile_Inr:
  assumes "writeDeviceProfileFile fault path p s = (Inr q, s')" and "temp (prFiles s path) = None"
  shows "q = p" and "s' = s\<lparr>prFiles := (prFiles s)(path := (prFiles s path)\<lparr>target := Some (Some p)\<rparr>)\<rparr>"
  using assms by (auto simp: writeDeviceProfileFile_def writeFile_eq replaces_def split: prod.splits if_splits)

lemma refreshed_fields:
  "dpVersion (refreshedProfile d i now p) = defaultDeviceProfileVersion"
  "dpDeviceID (refreshedProfile d i now p) = i"
  "dpDeviceName (refreshedProfile d i now p) = devDeviceName d"
  "dpCreatedAt (refreshedProfile d i now p) = (if is_zero (dpCreatedAt p) then devCreatedAt d else dpCreatedAt p)"
  "dpUpload (refreshedProfile d i now p) = (dpUpload p)
     \<lparr>duPathPattern := (if duPathPattern (dpUpload p) = [] then defaultUploadPathPattern else duPathPattern (dpUpload p)),
      duUpdatedAt := (if is_zero (duUpdatedAt (dpUpload p)) then now else duUpdatedAt (dpUpload p))\<rparr>"
  by (simp_all add: refreshedProfile_def Let_def)

lemma default_pattern [simp]: "defaultUploadPathPattern \<noteq> []"
  by (simp add: defaultUploadPathPattern_def)

text \<open>A profile that needs no refreshing.\<close>

definition fresh_profile :: "device_record \<Rightarrow> device_profile \<Rightarrow> bool" where
  "fresh_profile device p \<longleftrightarrow>
     dpVersion p = defaultDeviceProfileVersion \<and> dpDeviceID p = trim_space (devDeviceID device)
     \<and> dpDeviceName p = devDeviceName device \<and> duPathPattern (dpUpload p) \<noteq> []
     \<and> \<not> is_zero (duUpdatedAt (dpUpload p))
     \<and> (is_zero (dpCreatedAt p) \<longrightarrow> devCreatedAt device = dpCreatedAt p)"

lemma fresh_refreshed:
  "\<not> is_zero now \<Longrightarrow> fresh_profile device (refreshedProfile device (trim_space (devDeviceID device)) now p)"
  by (auto simp: fresh_profile_def refreshed_fields is_zero_def)

lemma refreshed_fresh:
  "fresh_profile device p \<Longrightarrow> refreshedProfile device (trim_space (devDeviceID device)) now p = p"
  by (cases p; cases "dpUpload p") (auto simp: fresh_profile_def refreshedProfile_def Let_def)

text \<open>The cases of a refresh that succeeds.\<close>

lemma EnsureProfile_Inr:
  assumes "EnsureProfile fault device now s = (Inr p, s')"
    and "temp (prFiles s (profilePathLocked (trim_space (devDeviceID device)) s)) = None"
  obtains (kept) "target (prFiles s (profilePathLocked (trim_space (devDeviceID device)) s)) = Some (Some p)"
      "refreshedProfile device (trim_space (devDeviceID device)) now p = p" "s' = s"
      "trim_space (devDeviceID device) \<noteq> []"
  | (written) q where "trim_space (devDeviceID device) \<noteq> []"
      "s' = s\<lparr>prFiles := (prFiles s)(profilePathLocked (trim_space (devDeviceID device)) s :=
         (prFiles s (profilePathLocked (trim_space (devDeviceID device)) s))\<lparr>target := Some (Some p)\<rparr>)\<rparr>"
      "target (prFiles s (profilePathLocked (trim_space (devDeviceID device)) s)) = q"
      "case q of None \<Rightarrow> p =
           \<lparr>dpVersion = defaultDeviceProfileVersion, dpDeviceID = trim_space (devDeviceID device),
            dpDeviceName = devDeviceName device, dpCreatedAt = devCreatedAt device,
            dpUpload = \<lparr>duEnabled = False, duRootKey = [], duPathPattern = defaultUploadPathPattern,
                        duCapturedAfter = None, duUpdatedAt = now\<rparr>\<rparr>
         | Some None \<Rightarrow> False
         | Some (Some old) \<Rightarrow> p = refreshedProfile device (trim_space (devDeviceID device)) now old"
proof -
  define path where "path = profilePathLocked (trim_space (devDeviceID device)) s"
  have t: "temp (prFiles s path) = None" using assms(2) by (simp add: path_def)
  have ne: "trim_space (devDeviceID device) \<noteq> []"
    using assms(1) by (auto simp: EnsureProfile_def)
  have "e = ErrProfileNotExist" if "readDeviceProfileFile fault path s = Inl e" for e
  proof (rule ccontr)
    assume "e \<noteq> ErrProfileNotExist"
    then have "EnsureProfile fault device now s = (Inl e, s)"
      using that ne by (simp add: EnsureProfile_def path_def)
    with assms(1) show False by simp
  qed
  then have read: "readDeviceProfileFile fault path s \<in> {Inl ErrProfileNotExist} \<union> range Inr"
    by (cases "readDeviceProfileFile fault path s") auto
  have "target (prFiles s path) \<noteq> Some None"
    using read by (auto simp: readDeviceProfileFile_def split: if_splits)
  then consider (absent) "target (prFiles s path) = None"
    | (there) old where "target (prFiles s path) = Some (Some old)" by (metis option.exhaust)
  then show thesis
  proof cases
    case absent
    have "writeDeviceProfileFile fault path
        \<lparr>dpVersion = defaultDeviceProfileVersion, dpDeviceID = trim_space (devDeviceID device),
         dpDeviceName = devDeviceName device, dpCreatedAt = devCreatedAt device,
         dpUpload = \<lparr>duEnabled = False, duRootKey = [], duPathPattern = defaultUploadPathPattern,
                     duCapturedAfter = None, duUpdatedAt = now\<rparr>\<rparr> s = (Inr p, s')"
      using assms(1) ne absent
      by (auto simp: EnsureProfile_def Let_def readDeviceProfileFile_def simp flip: path_def split: if_splits)
    from write_profile_Inr [OF this t] show thesis
      using written ne absent unfolding path_def by simp
  next
    case (there old)
    then have rd: "readDeviceProfileFile fault path s = Inr old"
      using read by (auto simp: readDeviceProfileFile_def split: if_splits)
    show thesis
    proof (cases "refreshedProfile device (trim_space (devDeviceID device)) now old = old")
      case True
      then have "EnsureProfile fault device now s = (Inr old, s)"
        using rd ne by (simp add: EnsureProfile_def path_def)
      with assms(1) have "p = old" "s' = s" by simp_all
      then show thesis using kept there True ne unfolding path_def by simp
    next
      case False
      then have "writeDeviceProfileFile fault path (refreshedProfile device (trim_space (devDeviceID device)) now old) s
          = (Inr p, s')"
        using assms(1) rd ne by (simp add: EnsureProfile_def path_def Let_def)
      from write_profile_Inr [OF this t] show thesis
        using written ne there unfolding path_def by simp
    qed
  qed
qed

text \<open>
  Refreshing a profile keeps the administrator's policy: a device without a profile gets
  a disabled one, an existing one keeps whether and where the device may upload, and only
  its name, its version and missing fields are filled in; afterwards that profile is what
  is loaded, refreshing again changes nothing and needs no write, and the profiles of the
  other devices are untouched.
\<close>

theorem ensured_profile_keeps_policy:
  assumes "prDir s \<noteq> []" and "file_id (devDeviceID device)" and "\<not> is_zero now"
    and "temp (prFiles s (profilePathLocked (trim_space (devDeviceID device)) s)) = None"
    and "EnsureProfile fault device now s = (Inr p, s')"
  shows "dpDeviceID p = trim_space (devDeviceID device) \<and> dpDeviceName p = devDeviceName device
    \<and> duPathPattern (dpUpload p) \<noteq> []
    \<and> (case LoadProfile None (devDeviceID device) s of
         Inl e \<Rightarrow> e = ErrProfileNotExist \<and> \<not> duEnabled (dpUpload p) \<and> duCapturedAfter (dpUpload p) = None
       | Inr old \<Rightarrow> duEnabled (dpUpload p) = duEnabled (dpUpload old)
           \<and> duRootKey (dpUpload p) = duRootKey (dpUpload old)
           \<and> duCapturedAfter (dpUpload p) = duCapturedAfter (dpUpload old)
           \<and> duPathPattern (dpUpload p) \<in> {duPathPattern (dpUpload old), defaultUploadPathPattern})
    \<and> LoadProfile None (devDeviceID device) s' = Inr p
    \<and> (\<forall>st later. EnsureProfile (Some (WriteFault st)) device later s' = (Inr p, s'))
    \<and> (\<forall>f b. file_id b \<and> trim_space b \<noteq> trim_space (devDeviceID device) \<longrightarrow> LoadProfile f b s' = LoadProfile f b s)"
proof -
  let ?i = "trim_space (devDeviceID device)"
  have fr: "fresh_profile device p"
    using assms(5,4)
  proof (cases rule: EnsureProfile_Inr)
    case kept
    then show ?thesis using fresh_refreshed [OF assms(3), of device p] by simp
  next
    case (written q)
    then show ?thesis
      using fresh_refreshed [OF assms(3), of device] assms(3)
      by (cases q) (auto simp: fresh_profile_def split: option.splits)
  qed
  have id: "dpDeviceID p = ?i" "dpDeviceName p = devDeviceName device" "duPathPattern (dpUpload p) \<noteq> []"
    using fr by (simp_all add: fresh_profile_def)
  have ne: "?i \<noteq> []" and load: "LoadProfile None (devDeviceID device) s' = Inr p"
    using assms(5,4)
    by (cases rule: EnsureProfile_Inr; simp add: LoadProfile_def Let_def readDeviceProfileFile_def path_update)+
  have "EnsureProfile (Some (WriteFault st)) device later s' = (Inr p, s')" for st later
    using load ne refreshed_fresh [OF fr, of later]
    by (simp add: EnsureProfile_def LoadProfile_def readDeviceProfileFile_def Let_def split: if_splits option.splits)
  moreover have "LoadProfile f b s' = LoadProfile f b s" if "file_id b" "trim_space b \<noteq> ?i" for f b
    using assms(5,4)
  proof (cases rule: EnsureProfile_Inr)
    case (written q)
    then show ?thesis using other_profile [OF assms(1,2) that] by simp
  qed simp
  moreover have "case LoadProfile None (devDeviceID device) s of
         Inl e \<Rightarrow> e = ErrProfileNotExist \<and> \<not> duEnabled (dpUpload p) \<and> duCapturedAfter (dpUpload p) = None
       | Inr old \<Rightarrow> duEnabled (dpUpload p) = duEnabled (dpUpload old)
           \<and> duRootKey (dpUpload p) = duRootKey (dpUpload old)
           \<and> duCapturedAfter (dpUpload p) = duCapturedAfter (dpUpload old)
           \<and> duPathPattern (dpUpload p) \<in> {duPathPattern (dpUpload old), defaultUploadPathPattern}"
    using assms(5,4)
    by (cases rule: EnsureProfile_Inr)
      (auto simp: LoadProfile_def Let_def readDeviceProfileFile_def refreshed_fields split: option.splits)
  ultimately show ?thesis using id load by auto
qed

definition ex_profiles :: profile_store where
  "ex_profiles = \<lparr>prDir = ''d'', prFiles = (\<lambda>p.
     \<lparr>target = if p = ''d/id1.json'' then Some (Some
        \<lparr>dpVersion = 0, dpDeviceID = ''id1'', dpDeviceName = ''old'', dpCreatedAt = 5,
         dpUpload = \<lparr>duEnabled = True, duRootKey = ''r'', duPathPattern = [], duCapturedAfter = Some 3,
                     duUpdatedAt = 6\<rparr>\<rparr>) else None, temp = None\<rparr>)\<rparr>"

definition ex_device :: device_record where
  "ex_device = \<lparr>devDeviceID = '' id1'', devDeviceName = ''new'', devReviewOnly = False, devCreatedAt = 5,
     devLastRefreshedAt = 5, devCurrentRefreshToken = [], devCurrentRefreshTokenHash = ''h'',
     devRefreshTokenSalt = ''s'', devRefreshTokenExpiresAt = 99, devPreviousRefreshTokenHash = [],
     devPreviousRefreshTokenSalt = [], devPreviousRefreshTokenValidUntil = zero_time\<rparr>"

lemma ex_profile_path: "profilePathLocked (trim_space (devDeviceID ex_device)) ex_profiles = ''d/id1.json''"
  by code_simp

theorem ensured_profile_keeps_policy_witness:
  "\<exists>p s'. EnsureProfile None ex_device 7 ex_profiles = (Inr p, s') \<and> dpDeviceName p = ''new''
     \<and> duEnabled (dpUpload p) \<and> LoadProfile None (devDeviceID ex_device) s' = Inr p"
proof -
  have h: "prDir ex_profiles \<noteq> []" "file_id (devDeviceID ex_device)" "\<not> is_zero 7"
    by code_simp+
  have t: "temp (prFiles ex_profiles (profilePathLocked (trim_space (devDeviceID ex_device)) ex_profiles)) = None"
    by (simp add: ex_profiles_def)
  have l: "case LoadProfile None (devDeviceID ex_device) ex_profiles of Inl _ \<Rightarrow> False | Inr old \<Rightarrow> duEnabled (dpUpload old)"
    by code_simp
  have "is_ok (fst (EnsureProfile None ex_device 7 ex_profiles))" by code_simp
  then obtain p s' where e: "EnsureProfile None ex_device 7 ex_profiles = (Inr p, s')"
    by (auto simp: is_ok_iff prod_eq_iff)
  from ensured_profile_keeps_policy [OF h t e] l e show ?thesis
    by (auto simp: ex_device_def split: sum.splits)
qed

text \<open>
  Updating a device's upload policy stores what the administrator sent, normalised: the
  enablement and the dates as they are, the root and the pattern without blanks around
  them, the default pattern for an empty one; the profile keeps its identity, it is what is
  read back, and no other profile changes. Without a profile nothing is written.
\<close>

theorem updated_policy_is_read_back:
  assumes "prDir s \<noteq> []" and "file_id deviceID"
    and "temp (prFiles s (profilePathLocked (trim_space deviceID) s)) = None"
    and "UpdateUploadProfile fault deviceID upload now s = (r, s')"
  shows "(\<forall>p. r = Inr p \<longrightarrow>
       duEnabled (dpUpload p) = duEnabled upload \<and> duRootKey (dpUpload p) = trim_space (duRootKey upload)
       \<and> duPathPattern (dpUpload p) = (if trim_space (duPathPattern upload) = [] then defaultUploadPathPattern
                                     else trim_space (duPathPattern upload))
       \<and> duCapturedAfter (dpUpload p) = duCapturedAfter upload \<and> duUpdatedAt (dpUpload p) = now
       \<and> (\<exists>old. LoadProfile None deviceID s = Inr old \<and> dpDeviceID p = dpDeviceID old
            \<and> dpDeviceName p = dpDeviceName old \<and> dpCreatedAt p = dpCreatedAt old)
       \<and> LoadProfile None deviceID s' = Inr p)
    \<and> (\<forall>f b. file_id b \<and> trim_space b \<noteq> trim_space deviceID \<longrightarrow> LoadProfile f b s' = LoadProfile f b s)
    \<and> (LoadProfile None deviceID s = Inl ErrProfileNotExist \<longrightarrow> s' = s)"
proof -
  define path where "path = profilePathLocked (trim_space deviceID) s"
  have t: "temp (prFiles s path) = None" using assms(3) by (simp add: path_def)
  have fresh: "s' = s \<or> (\<exists>d. s' = s\<lparr>prFiles := (prFiles s)(path := d)\<rparr>)"
    using assms(4)
    by (auto simp: UpdateUploadProfile_def Let_def writeDeviceProfileFile_def simp flip: path_def
        split: if_splits sum.splits prod.splits)
  have others: "LoadProfile f b s' = LoadProfile f b s" if "file_id b" "trim_space b \<noteq> trim_space deviceID" for f b
    using fresh other_profile [OF assms(1,2) that] by (auto simp: path_def)
  have new: "duEnabled (dpUpload p) = duEnabled upload \<and> duRootKey (dpUpload p) = trim_space (duRootKey upload)
       \<and> duPathPattern (dpUpload p) = (if trim_space (duPathPattern upload) = [] then defaultUploadPathPattern
                                     else trim_space (duPathPattern upload))
       \<and> duCapturedAfter (dpUpload p) = duCapturedAfter upload \<and> duUpdatedAt (dpUpload p) = now
       \<and> (\<exists>old. LoadProfile None deviceID s = Inr old \<and> dpDeviceID p = dpDeviceID old
            \<and> dpDeviceName p = dpDeviceName old \<and> dpCreatedAt p = dpCreatedAt old)
       \<and> LoadProfile None deviceID s' = Inr p" if rp: "r = Inr p" for p
  proof -
    have ne: "trim_space deviceID \<noteq> []" using assms(4) that by (auto simp: UpdateUploadProfile_def)
    obtain old where old: "readDeviceProfileFile fault path s = Inr old"
      using assms(4) rp ne
      by (cases "readDeviceProfileFile fault path s") (auto simp: UpdateUploadProfile_def Let_def path_def)
    define up where "up = upload\<lparr>duRootKey := trim_space (duRootKey upload),
        duPathPattern := (if trim_space (duPathPattern upload) = [] then defaultUploadPathPattern
                          else trim_space (duPathPattern upload)), duUpdatedAt := now\<rparr>"
    have "writeDeviceProfileFile fault path (old\<lparr>dpVersion := defaultDeviceProfileVersion, dpUpload := up\<rparr>) s
        = (Inr p, s')"
      using assms(4) that ne old unfolding path_def
      by (auto simp: UpdateUploadProfile_def Let_def up_def)
    note w = write_profile_Inr [OF this t]
    have "LoadProfile None deviceID s = Inr old"
      using old ne by (auto simp: LoadProfile_def readDeviceProfileFile_def simp flip: path_def split: if_splits)
    moreover have "LoadProfile None deviceID s' = Inr p"
      using ne by (simp add: LoadProfile_def readDeviceProfileFile_def w(2) path_update Let_def w(1) flip: path_def)
    ultimately show ?thesis by (simp add: w(1) up_def)
  qed
  have "s' = s" if "LoadProfile None deviceID s = Inl ErrProfileNotExist"
    using assms(4) that
    by (auto simp: UpdateUploadProfile_def LoadProfile_def readDeviceProfileFile_def Let_def
        split: if_splits option.splits)
  with new others show ?thesis by blast
qed

theorem updated_policy_is_read_back_witness:
  "\<exists>p s'. UpdateUploadProfile None ''id1 '' \<lparr>duEnabled = False, duRootKey = '' q'', duPathPattern = '' '',
       duCapturedAfter = None, duUpdatedAt = 0\<rparr> 8 ex_profiles = (Inr p, s')
     \<and> duRootKey (dpUpload p) = ''q'' \<and> LoadProfile None ''id1 '' s' = Inr p"
proof -
  let ?u = "\<lparr>duEnabled = False, duRootKey = '' q'', duPathPattern = '' '', duCapturedAfter = None, duUpdatedAt = 0\<rparr>"
  have h: "prDir ex_profiles \<noteq> []" "file_id ''id1 ''" by code_simp+
  have t: "temp (prFiles ex_profiles (profilePathLocked (trim_space ''id1 '') ex_profiles)) = None"
    by (simp add: ex_profiles_def)
  have "is_ok (fst (UpdateUploadProfile None ''id1 '' ?u 8 ex_profiles))" by code_simp
  then obtain p s' where e: "UpdateUploadProfile None ''id1 '' ?u 8 ex_profiles = (Inr p, s')"
    by (auto simp: is_ok_iff prod_eq_iff)
  have "trim_space '' q'' = ''q''" by code_simp
  with updated_policy_is_read_back [OF h t e] e show ?thesis by auto
qed

end
