(* ===== verification/Upload_Store.thy ===== *)
theory Upload_Store
  imports Codec "HOL-Library.Char_ord" "HOL-Library.List_Lexorder"
begin

text \<open>
  \<open>internal/store/upload_store.go\<close>, \<open>upload_ledger.go\<close> and \<open>upload_cleanup.go\<close>: the
  database of uploads. A table is the list of its rows in insertion order; its keys,
  \<open>UNIQUE\<close> constraints, the \<open>AUTOINCREMENT\<close> counter and the cascading delete of checksums
  are those of the schema in \<open>migrate\<close>. Each operation is a function from the database to
  a result and the new database; a transaction that returns an error rolls back to the
  database it started from. Database times compare like the instants they stand for (the
  layout is fixed-width, in UTC), so they are instants here, and \<open>NULL\<close> is \<open>None\<close>.
  Failures of SQLite itself are not modelled. \<open>clock\<close> is what \<open>time.Now\<close> returns,
  \<open>blob\<close> the sixteen bytes of \<open>randomblob(16)\<close>.
\<close>

section \<open>Rows\<close>

datatype session_status =
  SessionActive | SessionCommitting | SessionCompleted | SessionFailed | SessionAborted

datatype asset_status = AssetCommitting | AssetUploaded

record upload_checksum =
  ucAlgorithm :: string
  ucEncoding :: string
  ucDigest :: string

record upload_session =
  usUploadID :: string
  usDeviceID :: string
  usSourceAssetID :: string
  usSourceAssetVersion :: string
  usStatus :: session_status
  usMediaType :: string
  usOriginalFilename :: string
  usCapturedAt :: "gotime option"
  usExpectedSizeBytes :: "int option"
  usNextOffset :: int
  usSelectedRootKey :: string
  usTempRelativePath :: string
  usFinalRelativePath :: string
  usLastError :: string
  usCreatedAt :: gotime
  usUpdatedAt :: gotime
  usExpiresAt :: "gotime option"

record asset_row =
  uaID :: int
  uaDeviceID :: string
  uaSourceAssetID :: string
  uaSourceAssetVersion :: string
  uaUploadID :: string
  uaStatus :: asset_status
  uaMediaType :: string
  uaOriginalFilename :: string
  uaCapturedAt :: "gotime option"
  uaExpectedSizeBytes :: "int option"
  uaSelectedRootKey :: string
  uaFinalRelativePath :: string
  uaCreatedAt :: gotime
  uaUpdatedAt :: gotime
  uaCommittingAt :: "gotime option"
  uaUploadedAt :: "gotime option"

text \<open>What the code returns for a row: with the device's epoch and the checksums.\<close>

record uploaded_asset =
  uaLedgerEpoch :: string
  uaRow :: asset_row
  uaChecksums :: "upload_checksum list"

record checksum_row =
  ckAssetID :: int
  ckChecksum :: upload_checksum
  ckCreatedAt :: gotime

datatype commit_event_type = EventReserved | EventReservationUpdated | EventCompleted

record commit_event =
  ceUploadID :: string
  ceAssetID :: int
  ceType :: commit_event_type
  ceCreatedAt :: gotime

record reset_event =
  reDeviceID :: string
  reCapturedAfter :: "gotime option"
  reCapturedBefore :: "gotime option"
  reReason :: string
  reCreatedAt :: gotime

record upload_db =
  epochs :: "string \<Rightarrow> string option"
  assets :: "asset_row list"
  lastAssetID :: int
  checksums :: "checksum_row list"
  sessions :: "upload_session list"
  commitEvents :: "commit_event list"
  resetEvents :: "reset_event list"

text \<open>
  Errors. Two of them come with the row that caused them; \<open>ErrInvalidInput\<close> names the
  field of the input, \<open>ErrConstraint\<close> the table whose key an insertion violated.
\<close>

datatype up_error =
  ErrUploadSessionNotFound
| ErrUploadSessionOffsetConflict upload_session
| ErrUploadedAssetNotFound
| ErrUploadedAssetExists "uploaded_asset option"
| ErrUploadDeviceNotFound
| ErrInvalidInput string
| ErrConstraint string
| ErrNullEpoch

type_synonym 'a up_result = "(up_error + 'a) \<times> upload_db"

section \<open>Times and inputs\<close>

definition nonZeroTime :: "gotime \<Rightarrow> gotime \<Rightarrow> gotime" where
  "nonZeroTime clock v = (if is_zero v then clock else v)"

definition nullableTime :: "gotime option \<Rightarrow> gotime option" where
  "nullableTime v = (case v of None \<Rightarrow> None | Some t \<Rightarrow> if is_zero t then None else Some t)"

record upload_session_input =
  siUploadID :: string
  siDeviceID :: string
  siSourceAssetID :: string
  siSourceAssetVersion :: string
  siMediaType :: string
  siOriginalFilename :: string
  siCapturedAt :: "gotime option"
  siExpectedSizeBytes :: "int option"
  siSelectedRootKey :: string
  siTempRelativePath :: string
  siExpiresAt :: "gotime option"
  siNow :: gotime

record upload_commit_input =
  ciUploadID :: string
  ciDeviceID :: string
  ciSourceAssetID :: string
  ciSourceAssetVersion :: string
  ciMediaType :: string
  ciOriginalFilename :: string
  ciCapturedAt :: "gotime option"
  ciExpectedSizeBytes :: "int option"
  ciFinalRelativePath :: string
  ciChecksums :: "upload_checksum list"
  ciNow :: gotime

definition negative_size :: "int option \<Rightarrow> bool" where
  "negative_size v = (case v of None \<Rightarrow> False | Some n \<Rightarrow> n < 0)"

definition normalizeSessionInput ::
    "gotime \<Rightarrow> upload_session_input \<Rightarrow> (up_error, upload_session_input) result" where
  "normalizeSessionInput clock input =
     (let input = input\<lparr>siUploadID := trim_space (siUploadID input),
                        siDeviceID := trim_space (siDeviceID input),
                        siSourceAssetID := trim_space (siSourceAssetID input),
                        siSourceAssetVersion := trim_space (siSourceAssetVersion input),
                        siMediaType := trim_space (siMediaType input),
                        siOriginalFilename := trim_space (siOriginalFilename input),
                        siSelectedRootKey := trim_space (siSelectedRootKey input),
                        siTempRelativePath := trim_space (siTempRelativePath input),
                        siNow := nonZeroTime clock (siNow input)\<rparr>
      in if siUploadID input = [] then Inl (ErrInvalidInput ''upload id'')
         else if siDeviceID input = [] then Inl (ErrInvalidInput ''device id'')
         else if siSourceAssetID input = [] then Inl (ErrInvalidInput ''source asset id'')
         else if siSourceAssetVersion input = [] then Inl (ErrInvalidInput ''source asset version'')
         else if siMediaType input = [] then Inl (ErrInvalidInput ''media type'')
         else if siOriginalFilename input = [] then Inl (ErrInvalidInput ''original filename'')
         else if siSelectedRootKey input = [] then Inl (ErrInvalidInput ''selected root key'')
         else if siTempRelativePath input = [] then Inl (ErrInvalidInput ''temp relative path'')
         else if negative_size (siExpectedSizeBytes input) then Inl (ErrInvalidInput ''expected size bytes'')
         else Inr input)"

text \<open>The loop over the checksums; \<open>seen\<close> are the algorithms met so far.\<close>

definition normalizeChecksum :: "upload_checksum \<Rightarrow> upload_checksum" where
  "normalizeChecksum c =
     (let c = c\<lparr>ucAlgorithm := to_lower (trim_space (ucAlgorithm c)),
                ucEncoding := to_lower (trim_space (ucEncoding c)),
                ucDigest := trim_space (ucDigest c)\<rparr>
      in if ucEncoding c = [] then c\<lparr>ucEncoding := ''hex''\<rparr> else c)"

fun normalizeChecksums ::
    "string list \<Rightarrow> upload_checksum list \<Rightarrow> (up_error, upload_checksum list) result" where
  "normalizeChecksums seen [] = Inr []"
| "normalizeChecksums seen (c # cs) =
     (let c = normalizeChecksum c in
      if ucAlgorithm c = [] then Inl (ErrInvalidInput ''checksum algorithm'')
      else if ucDigest c = [] then Inl (ErrInvalidInput ''checksum digest'')
      else if ucAlgorithm c \<in> set seen then Inl (ErrInvalidInput ''checksum algorithms'')
      else case normalizeChecksums (ucAlgorithm c # seen) cs of
        Inl e \<Rightarrow> Inl e
      | Inr ns \<Rightarrow> Inr (c # ns))"

definition normalizeCommitInput ::
    "gotime \<Rightarrow> upload_commit_input \<Rightarrow> (up_error, upload_commit_input) result" where
  "normalizeCommitInput clock input =
     (let input = input\<lparr>ciUploadID := trim_space (ciUploadID input),
                        ciDeviceID := trim_space (ciDeviceID input),
                        ciSourceAssetID := trim_space (ciSourceAssetID input),
                        ciSourceAssetVersion := trim_space (ciSourceAssetVersion input),
                        ciMediaType := trim_space (ciMediaType input),
                        ciOriginalFilename := trim_space (ciOriginalFilename input),
                        ciFinalRelativePath := trim_space (ciFinalRelativePath input),
                        ciNow := nonZeroTime clock (ciNow input)\<rparr>
      in if ciUploadID input = [] then Inl (ErrInvalidInput ''upload id'')
         else if ciDeviceID input = [] then Inl (ErrInvalidInput ''device id'')
         else if ciSourceAssetID input = [] then Inl (ErrInvalidInput ''source asset id'')
         else if ciSourceAssetVersion input = [] then Inl (ErrInvalidInput ''source asset version'')
         else if ciMediaType input = [] then Inl (ErrInvalidInput ''media type'')
         else if ciOriginalFilename input = [] then Inl (ErrInvalidInput ''original filename'')
         else if ciFinalRelativePath input = [] then Inl (ErrInvalidInput ''final relative path'')
         else if negative_size (ciExpectedSizeBytes input) then Inl (ErrInvalidInput ''expected size bytes'')
         else case normalizeChecksums [] (ciChecksums input) of
           Inl e \<Rightarrow> Inl e
         | Inr cs \<Rightarrow> Inr (input\<lparr>ciChecksums := cs\<rparr>))"

section \<open>Epochs and lookups\<close>

definition LedgerEpoch :: "string \<Rightarrow> string \<Rightarrow> upload_db \<Rightarrow> string up_result" where
  "LedgerEpoch blob deviceID db =
     (let deviceID = trim_space deviceID in
      if deviceID = [] then (Inl ErrUploadDeviceNotFound, db)
      else case epochs db deviceID of
        Some epoch \<Rightarrow> (Inr epoch, db)
      | None \<Rightarrow>
          let epoch = hex_encode blob
          in (Inr epoch, db\<lparr>epochs := (epochs db)(deviceID := Some epoch)\<rparr>))"

definition checksumsForAsset :: "int \<Rightarrow> upload_db \<Rightarrow> upload_checksum list" where
  "checksumsForAsset assetID db =
     sort_key ucAlgorithm (map ckChecksum (filter (\<lambda>c. ckAssetID c = assetID) (checksums db)))"

text \<open>
  Scanning a selected row fails when the epoch of its device is \<open>NULL\<close>. \<open>None\<close> is
  \<open>sql.ErrNoRows\<close>.
\<close>

definition scanUploadedAsset ::
    "upload_db \<Rightarrow> asset_row option \<Rightarrow> (up_error, uploaded_asset option) result" where
  "scanUploadedAsset db row =
     (case row of
        None \<Rightarrow> Inr None
      | Some a \<Rightarrow>
          (case epochs db (uaDeviceID a) of
             None \<Rightarrow> Inl ErrNullEpoch
           | Some epoch \<Rightarrow>
               Inr (Some \<lparr>uaLedgerEpoch = epoch, uaRow = a,
                          uaChecksums = checksumsForAsset (uaID a) db\<rparr>)))"

definition has_identity :: "string \<Rightarrow> string \<Rightarrow> string \<Rightarrow> asset_row \<Rightarrow> bool" where
  "has_identity deviceID assetID version a \<longleftrightarrow>
     uaDeviceID a = deviceID \<and> uaSourceAssetID a = assetID \<and> uaSourceAssetVersion a = version"

definition GetUploadedAssetBySourceIdentity ::
    "string \<Rightarrow> string \<Rightarrow> string \<Rightarrow> upload_db \<Rightarrow> (up_error, uploaded_asset option) result" where
  "GetUploadedAssetBySourceIdentity deviceID assetID version db =
     scanUploadedAsset db
       (find (has_identity (trim_space deviceID) (trim_space assetID) (trim_space version)) (assets db))"

definition GetUploadedAssetByUploadID ::
    "string \<Rightarrow> upload_db \<Rightarrow> (up_error, uploaded_asset option) result" where
  "GetUploadedAssetByUploadID uploadID db =
     scanUploadedAsset db (find (\<lambda>a. uaUploadID a = trim_space uploadID) (assets db))"

definition getUploadedAssetByID :: "int \<Rightarrow> upload_db \<Rightarrow> (up_error, uploaded_asset option) result" where
  "getUploadedAssetByID assetID db =
     scanUploadedAsset db (find (\<lambda>a. uaID a = assetID) (assets db))"

definition LatestUploadedAt :: "string \<Rightarrow> upload_db \<Rightarrow> gotime option" where
  "LatestUploadedAt deviceID db =
     (let times = List.map_filter uaUploadedAt
            (filter (\<lambda>a. uaDeviceID a = trim_space deviceID \<and> uaStatus a = AssetUploaded) (assets db))
      in if times = [] then None else Some (foldr max times (hd times)))"

definition GetSession :: "string \<Rightarrow> upload_db \<Rightarrow> upload_session option" where
  "GetSession uploadID db = find (\<lambda>u. usUploadID u = trim_space uploadID) (sessions db)"

text \<open>
  \<open>ORDER BY updated_at DESC LIMIT 1\<close>. SQLite does not say which of several equally recent
  rows comes first; here it is the one inserted last, and no property depends on it.
\<close>

fun latest_session :: "upload_session list \<Rightarrow> upload_session option" where
  "latest_session [] = None"
| "latest_session (u # us) =
     (case latest_session us of
        None \<Rightarrow> Some u
      | Some v \<Rightarrow> if usUpdatedAt v < usUpdatedAt u then Some u else Some v)"

definition GetActiveSessionBySourceIdentity ::
    "string \<Rightarrow> string \<Rightarrow> string \<Rightarrow> upload_db \<Rightarrow> upload_session option" where
  "GetActiveSessionBySourceIdentity deviceID assetID version db =
     latest_session (filter
       (\<lambda>u. usDeviceID u = trim_space deviceID \<and> usSourceAssetID u = trim_space assetID
          \<and> usSourceAssetVersion u = trim_space version \<and> usStatus u = SessionActive) (sessions db))"

definition GetLatestActiveSession :: "string \<Rightarrow> upload_db \<Rightarrow> upload_session option" where
  "GetLatestActiveSession deviceID db =
     latest_session (filter
       (\<lambda>u. usDeviceID u = trim_space deviceID \<and> usStatus u = SessionActive) (sessions db))"

section \<open>Sessions\<close>

definition CreateSession ::
    "gotime \<Rightarrow> string \<Rightarrow> upload_session_input \<Rightarrow> upload_db \<Rightarrow> upload_session up_result" where
  "CreateSession clock blob input db =
     (case normalizeSessionInput clock input of
        Inl e \<Rightarrow> (Inl e, db)
      | Inr n \<Rightarrow>
          (case LedgerEpoch blob (siDeviceID n) db of
             (Inl e, db) \<Rightarrow> (Inl e, db)
           | (Inr _, db) \<Rightarrow>
               if list_ex (\<lambda>u. usUploadID u = siUploadID n) (sessions db)
               then (Inl (ErrConstraint ''upload_sessions''), db)
               else
                 let db = db\<lparr>sessions := sessions db @
                       [\<lparr>usUploadID = siUploadID n, usDeviceID = siDeviceID n,
                         usSourceAssetID = siSourceAssetID n,
                         usSourceAssetVersion = siSourceAssetVersion n, usStatus = SessionActive,
                         usMediaType = siMediaType n, usOriginalFilename = siOriginalFilename n,
                         usCapturedAt = nullableTime (siCapturedAt n),
                         usExpectedSizeBytes = siExpectedSizeBytes n, usNextOffset = 0,
                         usSelectedRootKey = siSelectedRootKey n,
                         usTempRelativePath = siTempRelativePath n,
                         usFinalRelativePath = [], usLastError = [],
                         usCreatedAt = siNow n, usUpdatedAt = siNow n,
                         usExpiresAt = nullableTime (siExpiresAt n)\<rparr>]\<rparr>
                 in case GetSession (siUploadID n) db of
                      None \<Rightarrow> (Inl ErrUploadSessionNotFound, db)
                    | Some u \<Rightarrow> (Inr u, db)))"

text \<open>\<open>UPDATE upload_sessions SET ... WHERE ...\<close>: the rows and the number changed.\<close>

definition update_sessions ::
    "(upload_session \<Rightarrow> bool) \<Rightarrow> (upload_session \<Rightarrow> upload_session) \<Rightarrow> upload_db \<Rightarrow> nat \<times> upload_db" where
  "update_sessions P f db =
     (length (filter P (sessions db)),
      db\<lparr>sessions := map (\<lambda>u. if P u then f u else u) (sessions db)\<rparr>)"

definition update_assets ::
    "(asset_row \<Rightarrow> bool) \<Rightarrow> (asset_row \<Rightarrow> asset_row) \<Rightarrow> upload_db \<Rightarrow> nat \<times> upload_db" where
  "update_assets P f db =
     (length (filter P (assets db)),
      db\<lparr>assets := map (\<lambda>a. if P a then f a else a) (assets db)\<rparr>)"

definition UpdateSessionProgress ::
    "gotime \<Rightarrow> string \<Rightarrow> int \<Rightarrow> int \<Rightarrow> gotime \<Rightarrow> upload_db \<Rightarrow> upload_session up_result" where
  "UpdateSessionProgress clock uploadID expectedOffset nextOffset now db =
     (if expectedOffset < 0 then (Inl (ErrInvalidInput ''expected offset''), db)
      else if nextOffset < 0 then (Inl (ErrInvalidInput ''next offset''), db)
      else if nextOffset < expectedOffset then (Inl (ErrInvalidInput ''next offset''), db)
      else
        let normalizedUploadID = trim_space uploadID in
        case update_sessions
               (\<lambda>u. usUploadID u = normalizedUploadID \<and> usStatus u = SessionActive
                  \<and> usNextOffset u = expectedOffset)
               (\<lambda>u. u\<lparr>usNextOffset := nextOffset, usUpdatedAt := nonZeroTime clock now\<rparr>) db of
          (changed, db) \<Rightarrow>
            if changed = 0 then
              (case GetSession normalizedUploadID db of
                 None \<Rightarrow> (Inl ErrUploadSessionNotFound, db)
               | Some u \<Rightarrow>
                   if usStatus u \<noteq> SessionActive then (Inl ErrUploadSessionNotFound, db)
                   else (Inl (ErrUploadSessionOffsetConflict u), db))
            else
              (case GetSession normalizedUploadID db of
                 None \<Rightarrow> (Inl ErrUploadSessionNotFound, db)
               | Some u \<Rightarrow> (Inr u, db)))"

definition AbortSession ::
    "gotime \<Rightarrow> string \<Rightarrow> string \<Rightarrow> gotime \<Rightarrow> upload_db \<Rightarrow> upload_session up_result" where
  "AbortSession clock uploadID deviceID now db =
     (let normalizedUploadID = trim_space uploadID; normalizedDeviceID = trim_space deviceID in
      if normalizedUploadID = [] then (Inl ErrUploadSessionNotFound, db)
      else if normalizedDeviceID = [] then (Inl ErrUploadDeviceNotFound, db)
      else case update_sessions
             (\<lambda>u. usUploadID u = normalizedUploadID \<and> usDeviceID u = normalizedDeviceID
                \<and> usStatus u = SessionActive)
             (\<lambda>u. u\<lparr>usStatus := SessionAborted, usUpdatedAt := nonZeroTime clock now\<rparr>) db of
        (changed, db) \<Rightarrow>
          if changed = 0 then (Inl ErrUploadSessionNotFound, db)
          else (case GetSession normalizedUploadID db of
                  None \<Rightarrow> (Inl ErrUploadSessionNotFound, db)
                | Some u \<Rightarrow> (Inr u, db)))"

section \<open>The once-only ledger\<close>

definition selectedRootKeyForUploadSession :: "string \<Rightarrow> upload_db \<Rightarrow> (up_error, string) result" where
  "selectedRootKeyForUploadSession uploadID db =
     (case find (\<lambda>u. usUploadID u = uploadID) (sessions db) of
        None \<Rightarrow> Inl ErrUploadSessionNotFound
      | Some u \<Rightarrow>
          if trim_space (usSelectedRootKey u) = [] then Inl (ErrInvalidInput ''selected root key'')
          else Inr (usSelectedRootKey u))"

text \<open>
  \<open>INSERT ... ON CONFLICT(asset_id, algorithm) DO UPDATE\<close>, for each checksum in turn.
\<close>

definition upsertChecksum :: "int \<Rightarrow> gotime \<Rightarrow> upload_checksum \<Rightarrow> checksum_row list \<Rightarrow> checksum_row list" where
  "upsertChecksum assetID now c rows =
     (let clash = (\<lambda>r. ckAssetID r = assetID \<and> ucAlgorithm (ckChecksum r) = ucAlgorithm c) in
      if list_ex clash rows then map (\<lambda>r. if clash r then r\<lparr>ckChecksum := c\<rparr> else r) rows
      else rows @ [\<lparr>ckAssetID = assetID, ckChecksum = c, ckCreatedAt = now\<rparr>])"

definition upsertAssetChecksumsTx ::
    "int \<Rightarrow> upload_checksum list \<Rightarrow> gotime \<Rightarrow> upload_db \<Rightarrow> upload_db" where
  "upsertAssetChecksumsTx assetID cs now db =
     db\<lparr>checksums := fold (upsertChecksum assetID now) cs (checksums db)\<rparr>"

definition insertCommitEvent ::
    "string \<Rightarrow> int \<Rightarrow> commit_event_type \<Rightarrow> gotime \<Rightarrow> upload_db \<Rightarrow> upload_db" where
  "insertCommitEvent uploadID assetID type now db =
     db\<lparr>commitEvents := commitEvents db @
         [\<lparr>ceUploadID = uploadID, ceAssetID = assetID, ceType = type, ceCreatedAt = now\<rparr>]\<rparr>"

text \<open>
  \<open>INSERT OR IGNORE INTO uploaded_assets\<close>: nothing when one of the two \<open>UNIQUE\<close>
  constraints would be violated, otherwise a new row with the next identifier.
\<close>

definition insertAsset ::
    "upload_commit_input \<Rightarrow> string \<Rightarrow> upload_db \<Rightarrow> (int \<times> upload_db) option" where
  "insertAsset n selectedRootKey db =
     (if list_ex (\<lambda>a. has_identity (ciDeviceID n) (ciSourceAssetID n) (ciSourceAssetVersion n) a
           \<or> uaUploadID a = ciUploadID n) (assets db)
      then None
      else
        let assetID = lastAssetID db + 1 in
        Some (assetID, db\<lparr>lastAssetID := assetID, assets := assets db @
          [\<lparr>uaID = assetID, uaDeviceID = ciDeviceID n, uaSourceAssetID = ciSourceAssetID n,
            uaSourceAssetVersion = ciSourceAssetVersion n, uaUploadID = ciUploadID n,
            uaStatus = AssetCommitting, uaMediaType = ciMediaType n,
            uaOriginalFilename = ciOriginalFilename n, uaCapturedAt = nullableTime (ciCapturedAt n),
            uaExpectedSizeBytes = ciExpectedSizeBytes n, uaSelectedRootKey = selectedRootKey,
            uaFinalRelativePath = ciFinalRelativePath n, uaCreatedAt = ciNow n,
            uaUpdatedAt = ciNow n, uaCommittingAt = Some (ciNow n), uaUploadedAt = None\<rparr>]\<rparr>))"

text \<open>
  A transaction: an error leaves the database as it was. The body returns the query with
  which the code reads the row back once the transaction is committed.
\<close>

type_synonym asset_query = "upload_db \<Rightarrow> (up_error, uploaded_asset option) result"

definition transaction :: "(upload_db \<Rightarrow> 'a up_result) \<Rightarrow> upload_db \<Rightarrow> 'a up_result" where
  "transaction body db = (case body db of (Inl e, _) \<Rightarrow> (Inl e, db) | (Inr a, db') \<Rightarrow> (Inr a, db'))"

definition readBack :: "asset_query up_result \<Rightarrow> uploaded_asset up_result" where
  "readBack r =
     (case r of
        (Inl e, db) \<Rightarrow> (Inl e, db)
      | (Inr query, db) \<Rightarrow>
          (case query db of
             Inl e \<Rightarrow> (Inl e, db)
           | Inr None \<Rightarrow> (Inl ErrUploadedAssetNotFound, db)
           | Inr (Some asset) \<Rightarrow> (Inr asset, db)))"

text \<open>The branch of a reservation whose identity is already in the ledger.\<close>

definition updateReservation ::
    "upload_commit_input \<Rightarrow> string \<Rightarrow> upload_db \<Rightarrow> asset_query up_result" where
  "updateReservation n selectedRootKey db =
     (case GetUploadedAssetBySourceIdentity (ciDeviceID n) (ciSourceAssetID n) (ciSourceAssetVersion n) db of
        Inl e \<Rightarrow> (Inl e, db)
      | Inr None \<Rightarrow> (Inl (ErrUploadedAssetExists None), db)
      | Inr (Some existing) \<Rightarrow>
          if uaUploadID (uaRow existing) \<noteq> ciUploadID n \<or> uaStatus (uaRow existing) \<noteq> AssetCommitting
          then (Inl (ErrUploadedAssetExists (Some existing)), db)
          else
            let assetID = uaID (uaRow existing) in
            case update_assets (\<lambda>a. uaID a = assetID \<and> uaStatus a = AssetCommitting)
                   (\<lambda>a. a\<lparr>uaMediaType := ciMediaType n, uaOriginalFilename := ciOriginalFilename n,
                          uaCapturedAt := nullableTime (ciCapturedAt n),
                          uaExpectedSizeBytes := ciExpectedSizeBytes n,
                          uaSelectedRootKey := selectedRootKey,
                          uaFinalRelativePath := ciFinalRelativePath n,
                          uaUpdatedAt := ciNow n\<rparr>) db of
              (changed, db) \<Rightarrow>
                if changed = 0 then (Inl (ErrUploadedAssetExists (Some existing)), db)
                else
                  let db = upsertAssetChecksumsTx assetID (ciChecksums n) (ciNow n) db;
                      db = insertCommitEvent (ciUploadID n) assetID EventReservationUpdated (ciNow n) db
                  in (Inr (getUploadedAssetByID assetID), db))"

definition reserveTx :: "upload_commit_input \<Rightarrow> upload_db \<Rightarrow> asset_query up_result" where
  "reserveTx n db =
     (case update_sessions
             (\<lambda>u. usUploadID u = ciUploadID n \<and> usDeviceID u = ciDeviceID n
                \<and> usSourceAssetID u = ciSourceAssetID n
                \<and> usSourceAssetVersion u = ciSourceAssetVersion n
                \<and> usStatus u \<in> {SessionActive, SessionCommitting})
             (\<lambda>u. u\<lparr>usStatus := SessionCommitting, usFinalRelativePath := ciFinalRelativePath n,
                    usUpdatedAt := ciNow n\<rparr>) db of
        (changed, db) \<Rightarrow>
          if changed = 0 then (Inl ErrUploadSessionNotFound, db)
          else case selectedRootKeyForUploadSession (ciUploadID n) db of
            Inl e \<Rightarrow> (Inl e, db)
          | Inr selectedRootKey \<Rightarrow>
              (case insertAsset n selectedRootKey db of
                 None \<Rightarrow> updateReservation n selectedRootKey db
               | Some (assetID, db) \<Rightarrow>
                   let db = upsertAssetChecksumsTx assetID (ciChecksums n) (ciNow n) db;
                       db = insertCommitEvent (ciUploadID n) assetID EventReserved (ciNow n) db
                   in (Inr (GetUploadedAssetBySourceIdentity (ciDeviceID n) (ciSourceAssetID n)
                              (ciSourceAssetVersion n)), db)))"

definition ReserveUploadCommit ::
    "gotime \<Rightarrow> upload_commit_input \<Rightarrow> upload_db \<Rightarrow> uploaded_asset up_result" where
  "ReserveUploadCommit clock input db =
     (case normalizeCommitInput clock input of
        Inl e \<Rightarrow> (Inl e, db)
      | Inr n \<Rightarrow> readBack (transaction (reserveTx n) db))"

definition markUploadedTx :: "int \<Rightarrow> gotime \<Rightarrow> upload_db \<Rightarrow> asset_query up_result" where
  "markUploadedTx assetID now db =
     (case find (\<lambda>a. uaID a = assetID) (assets db) of
        None \<Rightarrow> (Inl ErrUploadedAssetNotFound, db)
      | Some row \<Rightarrow>
          (case update_assets (\<lambda>a. uaID a = assetID)
                  (\<lambda>a. a\<lparr>uaStatus := AssetUploaded,
                         uaUploadedAt := (case uaUploadedAt a of None \<Rightarrow> Some now | Some t \<Rightarrow> Some t),
                         uaUpdatedAt := now\<rparr>) db of
             (changed, db) \<Rightarrow>
               if changed = 0 then (Inl ErrUploadedAssetNotFound, db)
               else case update_sessions (\<lambda>u. usUploadID u = uaUploadID row)
                           (\<lambda>u. u\<lparr>usStatus := SessionCompleted, usUpdatedAt := now\<rparr>) db of
                 (changed, db) \<Rightarrow>
                   if changed = 0 then (Inl ErrUploadSessionNotFound, db)
                   else
                     (Inr (getUploadedAssetByID assetID),
                      insertCommitEvent (uaUploadID row) assetID EventCompleted now db)))"

definition MarkUploaded :: "gotime \<Rightarrow> int \<Rightarrow> gotime \<Rightarrow> upload_db \<Rightarrow> uploaded_asset up_result" where
  "MarkUploaded clock assetID now db =
     readBack (transaction (markUploadedTx assetID (nonZeroTime clock now)) db)"

text \<open>
  \<open>CheckUploaded\<close>. The identities are compared as they are given. After \<open>LedgerEpoch\<close>
  the epoch exists, so the read in the snapshot finds it.
\<close>

type_synonym upload_identity = "string \<times> string"

definition CheckUploaded ::
    "string \<Rightarrow> string \<Rightarrow> upload_identity list \<Rightarrow> upload_db \<Rightarrow> (string \<times> bool list) up_result" where
  "CheckUploaded blob deviceID identities db =
     (let deviceID = trim_space deviceID in
      case LedgerEpoch blob deviceID db of
        (Inl e, db) \<Rightarrow> (Inl e, db)
      | (Inr epoch, db) \<Rightarrow>
          (Inr (epoch, map (\<lambda>(assetID, version).
             list_ex (\<lambda>a. has_identity deviceID assetID version a \<and> uaStatus a = AssetUploaded)
               (assets db)) identities), db))"

section \<open>Reset\<close>

record upload_temp_file =
  tfRootKey :: string
  tfRelativePath :: string

record upload_reset_input =
  riDeviceID :: string
  riCapturedAfter :: "gotime option"
  riCapturedBefore :: "gotime option"
  riReason :: string
  riNow :: gotime

record upload_reset_result =
  rrDeviceID :: string
  rrCapturedAfter :: "gotime option"
  rrCapturedBefore :: "gotime option"
  rrResetAt :: gotime
  rrRemovedUploadedAssets :: nat
  rrRemovedSessions :: nat
  rrTempFiles :: "upload_temp_file list"

definition normalizeUploadResetInput ::
    "gotime \<Rightarrow> upload_reset_input \<Rightarrow> (up_error, upload_reset_input) result" where
  "normalizeUploadResetInput clock input =
     (let input = input\<lparr>riDeviceID := trim_space (riDeviceID input),
                        riReason := trim_space (riReason input),
                        riNow := nonZeroTime clock (riNow input)\<rparr>
      in if riDeviceID input = [] then Inl (ErrInvalidInput ''device id'')
         else case (riCapturedAfter input, riCapturedBefore input) of
           (Some after, Some before) \<Rightarrow>
             if \<not> after < before then Inl (ErrInvalidInput ''captured after'') else Inr input
         | _ \<Rightarrow> Inr input)"

definition resetWhereClause :: "upload_reset_input \<Rightarrow> string \<Rightarrow> gotime option \<Rightarrow> bool" where
  "resetWhereClause input deviceID capturedAt \<longleftrightarrow>
     deviceID = riDeviceID input
     \<and> (case riCapturedAfter input of None \<Rightarrow> True
        | Some after \<Rightarrow> (case capturedAt of None \<Rightarrow> False | Some t \<Rightarrow> after \<le> t))
     \<and> (case riCapturedBefore input of None \<Rightarrow> True
        | Some before \<Rightarrow> (case capturedAt of None \<Rightarrow> False | Some t \<Rightarrow> t < before))"

definition reset_session :: "upload_reset_input \<Rightarrow> upload_session \<Rightarrow> bool" where
  "reset_session input u = resetWhereClause input (usDeviceID u) (usCapturedAt u)"

definition reset_asset :: "upload_reset_input \<Rightarrow> asset_row \<Rightarrow> bool" where
  "reset_asset input a = resetWhereClause input (uaDeviceID a) (uaCapturedAt a)"

definition uploadSessionTempFilesForResetTx :: "upload_reset_input \<Rightarrow> upload_db \<Rightarrow> upload_temp_file list" where
  "uploadSessionTempFilesForResetTx input db =
     map (\<lambda>u. \<lparr>tfRootKey = usSelectedRootKey u, tfRelativePath = usTempRelativePath u\<rparr>)
       (filter (\<lambda>u. reset_session input u \<and> usTempRelativePath u \<noteq> []) (sessions db))"

text \<open>\<open>DELETE FROM uploaded_assets WHERE ...\<close>, cascading to the checksums.\<close>

definition delete_assets :: "(asset_row \<Rightarrow> bool) \<Rightarrow> upload_db \<Rightarrow> nat \<times> upload_db" where
  "delete_assets P db =
     (length (filter P (assets db)),
      db\<lparr>assets := filter (\<lambda>a. \<not> P a) (assets db),
         checksums := filter (\<lambda>c. \<not> list_ex (\<lambda>a. P a \<and> uaID a = ckAssetID c) (assets db)) (checksums db)\<rparr>)"

definition delete_sessions :: "(upload_session \<Rightarrow> bool) \<Rightarrow> upload_db \<Rightarrow> nat \<times> upload_db" where
  "delete_sessions P db =
     (length (filter P (sessions db)), db\<lparr>sessions := filter (\<lambda>u. \<not> P u) (sessions db)\<rparr>)"

definition ResetDeviceUploadState ::
    "gotime \<Rightarrow> string \<Rightarrow> upload_reset_input \<Rightarrow> upload_db \<Rightarrow> upload_reset_result up_result" where
  "ResetDeviceUploadState clock blob input db =
     (case normalizeUploadResetInput clock input of
        Inl e \<Rightarrow> (Inl e, db)
      | Inr n \<Rightarrow>
          let db = db\<lparr>epochs := (epochs db)(riDeviceID n := Some (hex_encode blob))\<rparr>;
              tempFiles = uploadSessionTempFilesForResetTx n db
          in case delete_assets (reset_asset n) db of
               (removedAssets, db) \<Rightarrow>
                 (case delete_sessions (reset_session n) db of
                    (removedSessions, db) \<Rightarrow>
                      let db = db\<lparr>resetEvents := resetEvents db @
                            [\<lparr>reDeviceID = riDeviceID n,
                              reCapturedAfter = nullableTime (riCapturedAfter n),
                              reCapturedBefore = nullableTime (riCapturedBefore n),
                              reReason = riReason n, reCreatedAt = riNow n\<rparr>]\<rparr>
                      in (Inr \<lparr>rrDeviceID = riDeviceID n, rrCapturedAfter = riCapturedAfter n,
                               rrCapturedBefore = riCapturedBefore n, rrResetAt = riNow n,
                               rrRemovedUploadedAssets = removedAssets,
                               rrRemovedSessions = removedSessions, rrTempFiles = tempFiles\<rparr>, db)))"

section \<open>Cleanup\<close>

record upload_cleanup_input =
  kiNow :: gotime
  kiCompletedSessionRetention :: duration
  kiAbortedSessionRetention :: duration
  kiFailedSessionRetention :: duration
  kiCommitEventRetention :: duration
  kiResetEventRetention :: duration

record upload_cleanup_result =
  krCleanedAt :: gotime
  krRemovedExpiredSessions :: nat
  krRemovedCompleted :: nat
  krRemovedAborted :: nat
  krRemovedFailed :: nat
  krRemovedCommitEvents :: nat
  krRemovedResetEvents :: nat
  krTempFiles :: "upload_temp_file list"
  krWALCheckpointed :: bool

definition RemovedSessions :: "upload_cleanup_result \<Rightarrow> nat" where
  "RemovedSessions r =
     krRemovedExpiredSessions r + krRemovedCompleted r + krRemovedAborted r + krRemovedFailed r"

definition nonNegativeDuration :: "duration \<Rightarrow> duration" where
  "nonNegativeDuration v = (if v < 0 then 0 else v)"

definition normalizeUploadCleanupInput :: "gotime \<Rightarrow> upload_cleanup_input \<Rightarrow> upload_cleanup_input" where
  "normalizeUploadCleanupInput clock input =
     input\<lparr>kiNow := nonZeroTime clock (kiNow input),
           kiCompletedSessionRetention := nonNegativeDuration (kiCompletedSessionRetention input),
           kiAbortedSessionRetention := nonNegativeDuration (kiAbortedSessionRetention input),
           kiFailedSessionRetention := nonNegativeDuration (kiFailedSessionRetention input),
           kiCommitEventRetention := nonNegativeDuration (kiCommitEventRetention input),
           kiResetEventRetention := nonNegativeDuration (kiResetEventRetention input)\<rparr>"

definition uploadCleanupPredicate :: "gotime \<Rightarrow> upload_cleanup_input \<Rightarrow> upload_session \<Rightarrow> bool" where
  "uploadCleanupPredicate clock input u \<longleftrightarrow>
     (let n = normalizeUploadCleanupInput clock input in
      (usStatus u = SessionActive \<and> (case usExpiresAt u of None \<Rightarrow> False | Some t \<Rightarrow> t \<le> kiNow n))
      \<or> (usStatus u = SessionCompleted \<and> usUpdatedAt u < kiNow n - kiCompletedSessionRetention n)
      \<or> (usStatus u = SessionAborted \<and> usUpdatedAt u < kiNow n - kiAbortedSessionRetention n)
      \<or> (usStatus u = SessionFailed \<and> usUpdatedAt u < kiNow n - kiFailedSessionRetention n))"

definition UploadCleanupCandidates ::
    "gotime \<Rightarrow> upload_cleanup_input \<Rightarrow> upload_db \<Rightarrow> (string \<times> string) list" where
  "UploadCleanupCandidates clock input db =
     map (\<lambda>u. (usUploadID u, usDeviceID u)) (filter (uploadCleanupPredicate clock input) (sessions db))"

definition emptyCleanupResult :: "gotime \<Rightarrow> upload_cleanup_result" where
  "emptyCleanupResult now =
     \<lparr>krCleanedAt = now, krRemovedExpiredSessions = 0, krRemovedCompleted = 0, krRemovedAborted = 0,
      krRemovedFailed = 0, krRemovedCommitEvents = 0, krRemovedResetEvents = 0, krTempFiles = [],
      krWALCheckpointed = False\<rparr>"

definition CleanupUploadSession ::
    "gotime \<Rightarrow> string \<Rightarrow> upload_cleanup_input \<Rightarrow> upload_db \<Rightarrow> upload_cleanup_result \<times> upload_db" where
  "CleanupUploadSession clock uploadID input db =
     (let input = normalizeUploadCleanupInput clock input;
          result = emptyCleanupResult (kiNow input) in
      case find (\<lambda>u. usUploadID u = trim_space uploadID \<and> uploadCleanupPredicate clock input u)
             (sessions db) of
        None \<Rightarrow> (result, db)
      | Some session \<Rightarrow>
          let db = snd (delete_sessions (\<lambda>u. usUploadID u = usUploadID session) db);
              result = (case usStatus session of
                SessionActive \<Rightarrow> result\<lparr>krRemovedExpiredSessions := 1\<rparr>
              | SessionCompleted \<Rightarrow> result\<lparr>krRemovedCompleted := 1\<rparr>
              | SessionAborted \<Rightarrow> result\<lparr>krRemovedAborted := 1\<rparr>
              | SessionFailed \<Rightarrow> result\<lparr>krRemovedFailed := 1\<rparr>
              | SessionCommitting \<Rightarrow> result)
          in (if usTempRelativePath session \<noteq> []
              then result\<lparr>krTempFiles := [\<lparr>tfRootKey = usSelectedRootKey session,
                            tfRelativePath = usTempRelativePath session\<rparr>]\<rparr>
              else result, db))"

definition CleanupUploadEvents ::
    "gotime \<Rightarrow> upload_cleanup_input \<Rightarrow> upload_db \<Rightarrow> upload_cleanup_result \<times> upload_db" where
  "CleanupUploadEvents clock input db =
     (let n = normalizeUploadCleanupInput clock input;
          old_commit = (\<lambda>e. ceCreatedAt e < kiNow n - kiCommitEventRetention n
             \<and> \<not> list_ex (\<lambda>a. uaUploadID a = ceUploadID e \<and> uaStatus a = AssetCommitting) (assets db)
             \<and> \<not> list_ex (\<lambda>u. usUploadID u = ceUploadID e
                    \<and> usStatus u \<in> {SessionActive, SessionCommitting}) (sessions db));
          old_reset = (\<lambda>e. reCreatedAt e < kiNow n - kiResetEventRetention n)
      in ((emptyCleanupResult (kiNow n))
            \<lparr>krRemovedCommitEvents := length (filter old_commit (commitEvents db)),
             krRemovedResetEvents := length (filter old_reset (resetEvents db)),
             krWALCheckpointed := True\<rparr>,
          db\<lparr>commitEvents := filter (\<lambda>e. \<not> old_commit e) (commitEvents db),
             resetEvents := filter (\<lambda>e. \<not> old_reset e) (resetEvents db)\<rparr>))"

text \<open>The loop of \<open>CleanupUploadState\<close> over the candidates.\<close>

fun cleanupCandidates ::
    "gotime \<Rightarrow> upload_cleanup_input \<Rightarrow> (string \<times> string) list \<Rightarrow> upload_cleanup_result \<Rightarrow>
     upload_db \<Rightarrow> upload_cleanup_result \<times> upload_db" where
  "cleanupCandidates clock input [] result db = (result, db)"
| "cleanupCandidates clock input ((uploadID, deviceID) # cs) result db =
     (case CleanupUploadSession clock uploadID input db of
        (removed, db) \<Rightarrow>
          cleanupCandidates clock input cs
            (result\<lparr>krRemovedExpiredSessions := krRemovedExpiredSessions result + krRemovedExpiredSessions removed,
                    krRemovedCompleted := krRemovedCompleted result + krRemovedCompleted removed,
                    krRemovedAborted := krRemovedAborted result + krRemovedAborted removed,
                    krRemovedFailed := krRemovedFailed result + krRemovedFailed removed,
                    krTempFiles := krTempFiles result @ krTempFiles removed\<rparr>) db)"

definition CleanupUploadState ::
    "gotime \<Rightarrow> upload_cleanup_input \<Rightarrow> upload_db \<Rightarrow> upload_cleanup_result \<times> upload_db" where
  "CleanupUploadState clock input db =
     (case cleanupCandidates clock input (UploadCleanupCandidates clock input db)
             (emptyCleanupResult zero_time) db of
        (result, db) \<Rightarrow>
          (case CleanupUploadEvents clock input db of
             (events, db) \<Rightarrow>
               (result\<lparr>krCleanedAt := krCleanedAt events,
                       krRemovedCommitEvents := krRemovedCommitEvents events,
                       krRemovedResetEvents := krRemovedResetEvents events,
                       krWALCheckpointed := krWALCheckpointed events\<rparr>, db)))"

end
