(* ===== verification/Upload_Paths.thy ===== *)
theory Upload_Paths
  imports Profile Upload_Store
begin

text \<open>
  The paths of uploads: \<open>renderUploadFinalRelativePath\<close> and the path helpers of
  \<open>internal/runtime/upload_runtime.go\<close>, \<open>validateUploadPathPattern\<close> of
  \<open>agent_runtime.go\<close> and \<open>ValidateUploadRootTempPath\<close> of \<open>internal/config/config.go\<close>.
  The tokens of a pattern are replaced while ranging over a Go map, whose order is
  unspecified: the order is an argument. \<open>zone\<close> is the offset of the configured location
  from UTC, in seconds, at an instant.
\<close>

section \<open>Runes\<close>

text \<open>
  \<open>range\<close> over a string decodes UTF-8; a byte that starts no valid encoding is the rune
  U+FFFD, which \<open>WriteRune\<close> writes as three bytes. \<open>rune_width\<close> is 0 for such a byte.
\<close>

definition byte_in :: "nat \<Rightarrow> nat \<Rightarrow> char \<Rightarrow> bool" where
  "byte_in lo hi c \<longleftrightarrow> lo \<le> of_char c \<and> of_char c \<le> hi"

definition rune_width :: "string \<Rightarrow> nat" where
  "rune_width s =
     (case s of
        [] \<Rightarrow> 0
      | c # cs \<Rightarrow>
          if byte_in 0x00 0x7F c then 1
          else if byte_in 0xC2 0xDF c then
            (case cs of d # _ \<Rightarrow> if byte_in 0x80 0xBF d then 2 else 0 | _ \<Rightarrow> 0)
          else if byte_in 0xE0 0xEF c then
            (case cs of
               d # e # _ \<Rightarrow>
                 if byte_in (if c = CHR 0xE0 then 0xA0 else 0x80) (if c = CHR 0xED then 0x9F else 0xBF) d
                    \<and> byte_in 0x80 0xBF e then 3 else 0
             | _ \<Rightarrow> 0)
          else if byte_in 0xF0 0xF4 c then
            (case cs of
               d # e # f # _ \<Rightarrow>
                 if byte_in (if c = CHR 0xF0 then 0x90 else 0x80) (if c = CHR 0xF4 then 0x8F else 0xBF) d
                    \<and> byte_in 0x80 0xBF e \<and> byte_in 0x80 0xBF f then 4 else 0
             | _ \<Rightarrow> 0)
          else 0)"

definition rune_error :: string where "rune_error = [CHR 0xEF, CHR 0xBF, CHR 0xBD]"

function runes :: "string \<Rightarrow> string list" where
  "runes s =
     (if s = [] then []
      else if rune_width s = 0 then rune_error # runes (drop 1 s)
      else take (rune_width s) s # runes (drop (rune_width s) s))"
  by pat_completeness auto
termination
  by (relation "measure length") (auto simp: neq_Nil_conv)

declare runes.simps [simp del]

section \<open>Segments\<close>

definition forbidden_chars :: "char list" where
  "forbidden_chars = [CHR ''/'', CHR 0x5C, CHR '':'', CHR ''*'', CHR ''?'', CHR 0x22, CHR ''<'', CHR ''>'', CHR ''|'']"

definition replaced_rune :: "string \<Rightarrow> bool" where
  "replaced_rune r \<longleftrightarrow>
     (case r of [c] \<Rightarrow> byte_in 0x00 0x1F c \<or> c = CHR 0x7F \<or> c \<in> set forbidden_chars | _ \<Rightarrow> False)"

fun sanitize_runes :: "bool \<Rightarrow> string list \<Rightarrow> string" where
  "sanitize_runes lastUnderscore [] = []"
| "sanitize_runes lastUnderscore (r # rs) =
     (if replaced_rune r then
        (if lastUnderscore then sanitize_runes True rs else CHR ''_'' # sanitize_runes True rs)
      else r @ sanitize_runes False rs)"

text \<open>\<open>strings.Trim\<close> with a cut set of ASCII characters.\<close>

definition trim_set :: "char list \<Rightarrow> string \<Rightarrow> string" where
  "trim_set cutset s = rev (dropWhile (\<lambda>c. c \<in> set cutset) (rev (dropWhile (\<lambda>c. c \<in> set cutset) s)))"

definition sanitizeUploadPathSegment :: "string \<Rightarrow> string" where
  "sanitizeUploadPathSegment value =
     (let sanitized = trim_set '' .'' (sanitize_runes False (runes (trim_space value)))
      in if sanitized = [] \<or> sanitized = ''.'' \<or> sanitized = ''..'' then ''_'' else sanitized)"

section \<open>Final paths\<close>

text \<open>\<open>strings.ReplaceAll\<close>, for a text to replace that is not empty.\<close>

function replace_all :: "string \<Rightarrow> string \<Rightarrow> string \<Rightarrow> string" where
  "replace_all old new s =
     (if old = [] \<or> s = [] then s
      else if prefixb old s then new @ replace_all old new (drop (length old) s)
      else hd s # replace_all old new (tl s))"
  by pat_completeness auto
termination
  by (relation "measure (\<lambda>(old, new, s). length s)") (auto simp: neq_Nil_conv)

declare replace_all.simps [simp del]

text \<open>The civil date of a day counted from the first of January 1970.\<close>

definition civil_date :: "int \<Rightarrow> int \<times> int \<times> int" where
  "civil_date days =
     (let z = days + 719468; era = z div 146097; doe = z mod 146097;
          yoe = (doe - doe div 1460 + doe div 36524 - doe div 146096) div 365;
          doy = doe - (365 * yoe + yoe div 4 - yoe div 100);
          mp = (5 * doy + 2) div 153;
          d = doy - (153 * mp + 2) div 5 + 1;
          m = (if mp < 10 then mp + 3 else mp - 9);
          y = yoe + era * 400 + (if m \<le> 2 then 1 else 0)
      in (y, m, d))"

definition local_date :: "(gotime \<Rightarrow> int) \<Rightarrow> gotime \<Rightarrow> int \<times> int \<times> int" where
  "local_date zone t = civil_date ((unix_seconds t + zone t) div 86400)"

definition itoa :: "int \<Rightarrow> string" where
  "itoa n = (if n < 0 then CHR ''-'' # decimal (nat (- n)) else decimal (nat n))"

datatype runtime_error =
  ErrUploadRequestInvalid | ErrUploadPolicyInvalid | ErrUploadChecksumMismatch
| ErrUploadFinalPathConflict | ErrStorageWriteBlocked | ErrUploadRootNotFound
| ErrUploadResetRangeRequired | ErrUploadResetInvalid | ErrOwnership
| ErrNotExist | ErrOS | ErrUploadRandom | ErrUploadOffsetConflict | ErrDatabase
| UploadStoreError up_error | ProfileError profile_error | RegistryError reg_error

definition validateUploadPathPattern :: "string \<Rightarrow> bool" where
  "validateUploadPathPattern pattern \<longleftrightarrow>
     trim_space pattern \<noteq> [] \<and> \<not> path_IsAbs pattern
     \<and> list_all (\<lambda>seg. seg \<noteq> [] \<and> seg \<noteq> ''.'' \<and> seg \<noteq> ''..'') (split_on slash pattern)
     \<and> CHR 0x5C \<notin> set pattern"

text \<open>The value of a token.\<close>

definition upload_value ::
    "device_profile \<Rightarrow> upload_session \<Rightarrow> int \<times> int \<times> int \<Rightarrow> string \<Rightarrow> string" where
  "upload_value profile session date token =
     (case date of (year, month, day) \<Rightarrow>
      let filename = sanitizeUploadPathSegment (usOriginalFilename session);
          ext = drop 1 (path_Ext filename);
          name = take (length filename - length (path_Ext filename)) filename
      in if token = ''deviceName'' then dpDeviceName profile
         else if token = ''deviceId'' then dpDeviceID profile
         else if token = ''yyyy'' then itoa year
         else if token = ''MM'' then pad_zero 2 (itoa month)
         else if token = ''dd'' then pad_zero 2 (itoa day)
         else if token = ''assetId'' then usSourceAssetID session
         else if token = ''filename'' then filename
         else if token = ''name'' then name
         else if token = ''ext'' then ext
         else usMediaType session)"

definition upload_tokens :: "string list" where
  "upload_tokens =
     [''deviceName'', ''deviceId'', ''yyyy'', ''MM'', ''dd'', ''assetId'', ''filename'', ''name'', ''ext'',
      ''mediaType'']"

definition renderUploadFinalRelativePath ::
    "string list \<Rightarrow> (gotime \<Rightarrow> int) \<Rightarrow> device_profile \<Rightarrow> upload_session \<Rightarrow> gotime \<Rightarrow>
     (runtime_error, string) result" where
  "renderUploadFinalRelativePath order zone profile session now =
     (let pattern = trim_space (duPathPattern (dpUpload profile));
          pattern = (if pattern = [] then defaultUploadPathPattern else pattern) in
      if \<not> validateUploadPathPattern pattern then Inl ErrUploadPolicyInvalid
      else
        let capturedAt = (case usCapturedAt session of None \<Rightarrow> now | Some t \<Rightarrow> t);
            value = upload_value profile session (local_date zone capturedAt);
            rendered = fold (\<lambda>token. replace_all (''{'' @ token @ ''}'') (sanitizeUploadPathSegment (value token)))
                         order pattern;
            segments = map sanitizeUploadPathSegment (split_on slash rendered) in
        if list_ex (\<lambda>seg. seg = ''.'' \<or> seg = ''..'') segments then Inl ErrUploadPolicyInvalid
        else
          let relativePath = path_Clean (join_with [slash] segments) in
          if relativePath = ''.'' \<or> path_IsAbs relativePath \<or> has_prefix relativePath ''../''
             \<or> relativePath = ''..''
          then Inl ErrUploadPolicyInvalid else Inr relativePath)"

definition suffixedUploadRelativePath :: "string \<Rightarrow> nat \<Rightarrow> string" where
  "suffixedUploadRelativePath relativePath attempt =
     (if attempt = 0 then relativePath
      else
        let ext = path_Ext relativePath;
            base = take (length relativePath - length ext) relativePath
        in base @ ''-'' @ decimal (attempt + 1) @ ext)"

section \<open>Upload roots\<close>

record upload_root =
  urKey :: string
  urPath :: string
  urTempPath :: string
  urOwnerUser :: string
  urOwnerGroup :: string

definition DefaultUploadRootTempPath :: string where
  "DefaultUploadRootTempPath = ''.timich-upload-tmp''"

definition ValidateUploadRootTempPath :: "string \<Rightarrow> string option" where
  "ValidateUploadRootTempPath value =
     (let trimmed = trim_space value in
      if trimmed = [] then Some DefaultUploadRootTempPath
      else if CHR 0x5C \<in> set trimmed then None
      else
        let cleaned = path_Clean trimmed in
        if cleaned = ''.'' \<or> path_IsAbs cleaned \<or> cleaned = ''..'' \<or> has_prefix cleaned ''../''
        then None else Some cleaned)"

definition normalizedUploadRootConfig :: "upload_root \<Rightarrow> upload_root" where
  "normalizedUploadRootConfig root =
     (let root = root\<lparr>urOwnerUser := trim_space (urOwnerUser root),
                      urOwnerGroup := trim_space (urOwnerGroup root)\<rparr>
      in case ValidateUploadRootTempPath (urTempPath root) of
           None \<Rightarrow> root
         | Some tempPath \<Rightarrow> root\<lparr>urTempPath := tempPath\<rparr>)"

definition uploadRootChildPath :: "string \<Rightarrow> string \<Rightarrow> (runtime_error, string) result" where
  "uploadRootChildPath rootPath relativePath =
     (let cleanRelative = path_Clean (trim_space relativePath) in
      if cleanRelative = ''.'' \<or> path_IsAbs cleanRelative \<or> has_prefix cleanRelative ''../''
         \<or> cleanRelative = ''..''
      then Inl ErrUploadPolicyInvalid
      else
        let fullPath = path_Join [rootPath, cleanRelative] in
        case path_Rel rootPath fullPath of
          None \<Rightarrow> Inl ErrOS
        | Some relativeToRoot \<Rightarrow>
            if relativeToRoot = ''..'' \<or> has_prefix relativeToRoot ''../'' then Inl ErrUploadPolicyInvalid
            else Inr fullPath)"

definition uploadTempRelativeDir :: "upload_root \<Rightarrow> (runtime_error, string) result" where
  "uploadTempRelativeDir root =
     (case ValidateUploadRootTempPath (urTempPath root) of
        None \<Rightarrow> Inl ErrUploadPolicyInvalid
      | Some cleanTempDir \<Rightarrow> Inr cleanTempDir)"

definition uploadTempAbsoluteDir :: "upload_root \<Rightarrow> (runtime_error, string) result" where
  "uploadTempAbsoluteDir root =
     (case uploadTempRelativeDir root of
        Inl e \<Rightarrow> Inl e
      | Inr cleanTempDir \<Rightarrow> uploadRootChildPath (urPath root) cleanTempDir)"

definition uploadTempAbsolutePath :: "upload_root \<Rightarrow> string \<Rightarrow> (runtime_error, string) result" where
  "uploadTempAbsolutePath root tempRelativePath =
     (let cleanRelative = path_Clean (trim_space tempRelativePath) in
      case uploadTempRelativeDir root of
        Inl e \<Rightarrow> Inl e
      | Inr cleanTempDir \<Rightarrow>
          if cleanRelative = ''.'' \<or> path_IsAbs cleanRelative \<or> path_Dir cleanRelative \<noteq> cleanTempDir
          then Inl ErrUploadPolicyInvalid
          else if \<not> has_prefix (path_Base cleanRelative) ''upl_''
                  \<or> \<not> has_suffix (path_Base cleanRelative) ''.part''
          then Inl ErrUploadPolicyInvalid
          else uploadRootChildPath (urPath root) cleanRelative)"

end
