(* ===== verification/Upload_Files.thy ===== *)
theory Upload_Files
  imports Upload_Paths
begin

text \<open>
  The file side of uploads: the helpers of \<open>internal/runtime/upload_runtime.go\<close>,
  \<open>upload_ownership.go\<close> and \<open>agent_runtime.go\<close> that read and change the upload roots.

  A file system maps absolute paths, as lists of their elements, to nodes; a regular file is
  the number of an inode, which holds its bytes, so hard links are names of the same inode.
  Symbolic links and special files are \<open>OtherNode\<close>: the code refuses them wherever it
  looks, and a path that leads through one is an error here. The record \<open>upload_io\<close> says
  which system calls of an operation fail. A crash leaves the state of a run whose next call
  fails, so these runs cover crashes as well. Owners of files are not part of the state; only
  that changing one can fail is.
\<close>

section \<open>The file system\<close>

datatype fs_node = FileNode nat | DirNode | OtherNode

record filesystem =
  fsNames :: "string list \<Rightarrow> fs_node option"
  fsBytes :: "nat \<Rightarrow> string"
  fsNext :: nat

record upload_io =
  ioMkdirFails :: "string list \<Rightarrow> bool"
  ioCreateFails :: bool
  ioOwnerFails :: bool
  ioOpenFails :: bool
  ioWritten :: "nat option"
  ioSyncFails :: bool
  ioTruncateFails :: bool
  ioProgressFails :: bool
  ioReserveFails :: bool
  ioHashFails :: bool
  ioLinkFails :: "nat \<Rightarrow> bool"
  ioRemoveFails :: bool
  ioMarkFails :: bool
  ioProbeFails :: bool

definition good_io :: upload_io where
  "good_io = \<lparr>ioMkdirFails = (\<lambda>_. False), ioCreateFails = False, ioOwnerFails = False, ioOpenFails = False,
     ioWritten = None, ioSyncFails = False, ioTruncateFails = False, ioProgressFails = False, ioReserveFails = False,
     ioHashFails = False, ioLinkFails = (\<lambda>_. False), ioRemoveFails = False, ioMarkFails = False,
     ioProbeFails = False\<rparr>"

type_synonym 'a fs_result = "(runtime_error + 'a) \<times> filesystem"

text \<open>\<open>os.Lstat\<close>: every directory on the way must be one.\<close>

definition lstat :: "filesystem \<Rightarrow> string list \<Rightarrow> (runtime_error, fs_node) result" where
  "lstat fs p =
     (case find (\<lambda>q. fsNames fs q \<noteq> Some DirNode) (map (\<lambda>k. take k p) [1..<length p]) of
        Some q \<Rightarrow> Inl (if fsNames fs q = None then ErrNotExist else ErrOS)
      | None \<Rightarrow>
          if p = [] then Inr DirNode
          else (case fsNames fs p of None \<Rightarrow> Inl ErrNotExist | Some n \<Rightarrow> Inr n))"

definition set_name :: "string list \<Rightarrow> fs_node option \<Rightarrow> filesystem \<Rightarrow> filesystem" where
  "set_name p n fs = fs\<lparr>fsNames := (fsNames fs)(p := n)\<rparr>"

definition create_file :: "string list \<Rightarrow> filesystem \<Rightarrow> filesystem" where
  "create_file p fs =
     (let i = fsNext fs
      in fs\<lparr>fsNames := (fsNames fs)(p \<mapsto> FileNode i), fsBytes := (fsBytes fs)(i := []), fsNext := i + 1\<rparr>)"

definition set_bytes :: "nat \<Rightarrow> string \<Rightarrow> filesystem \<Rightarrow> filesystem" where
  "set_bytes i b fs = fs\<lparr>fsBytes := (fsBytes fs)(i := b)\<rparr>"

section \<open>Ownership\<close>

definition uploadOwnershipConfigured :: "upload_root \<Rightarrow> bool" where
  "uploadOwnershipConfigured root \<longleftrightarrow> trim_space (urOwnerUser root) \<noteq> [] \<or> trim_space (urOwnerGroup root) \<noteq> []"

definition applyUploadOwnership :: "upload_io \<Rightarrow> upload_root \<Rightarrow> (runtime_error, unit) result" where
  "applyUploadOwnership io root =
     (if uploadOwnershipConfigured root \<and> ioOwnerFails io then Inl ErrOwnership else Inr ())"

definition applyUploadChildOwnership ::
    "upload_io \<Rightarrow> upload_root \<Rightarrow> string list \<Rightarrow> bool \<Rightarrow> filesystem \<Rightarrow> (runtime_error, unit) result" where
  "applyUploadChildOwnership io root p directory fs =
     (if \<not> uploadOwnershipConfigured root then Inr ()
      else case lstat fs p of
        Inl e \<Rightarrow> Inl e
      | Inr n \<Rightarrow>
          if n = OtherNode \<or> (n = DirNode) \<noteq> directory then Inl ErrUploadPolicyInvalid
          else applyUploadOwnership io root)"

section \<open>Directories\<close>

fun dir_exists :: "filesystem \<Rightarrow> string list \<Rightarrow> string list \<Rightarrow> (runtime_error, bool) result" where
  "dir_exists fs current [] = Inr True"
| "dir_exists fs current (segment # segments) =
     (let current = current @ [segment] in
      case lstat fs current of
        Inl e \<Rightarrow> if e = ErrNotExist then Inr False else Inl e
      | Inr n \<Rightarrow> if n \<noteq> DirNode then Inl ErrUploadPolicyInvalid else dir_exists fs current segments)"

definition uploadTempDirExists :: "upload_root \<Rightarrow> filesystem \<Rightarrow> (runtime_error, bool) result" where
  "uploadTempDirExists root fs =
     (case uploadTempRelativeDir root of
        Inl e \<Rightarrow> Inl e
      | Inr cleanTempDir \<Rightarrow> dir_exists fs (abs_segs (urPath root)) (split_on slash cleanTempDir))"

definition createUploadDirectory ::
    "upload_io \<Rightarrow> upload_root \<Rightarrow> string list \<Rightarrow> filesystem \<Rightarrow> unit fs_result" where
  "createUploadDirectory io root directory fs =
     (if ioMkdirFails io directory then (Inl ErrOS, fs)
      else if lstat fs (butlast directory) \<noteq> Inr DirNode then (Inl ErrNotExist, fs)
      else
        let fs = set_name directory (Some DirNode) fs
        in (applyUploadChildOwnership io root directory True fs, fs))"

fun ensure_dirs ::
    "upload_io \<Rightarrow> upload_root \<Rightarrow> string list \<Rightarrow> string list \<Rightarrow> filesystem \<Rightarrow> unit fs_result" where
  "ensure_dirs io root current [] fs = (Inr (), fs)"
| "ensure_dirs io root current (segment # segments) fs =
     (let current = current @ [segment] in
      case lstat fs current of
        Inr n \<Rightarrow>
          if n \<noteq> DirNode then (Inl ErrUploadPolicyInvalid, fs)
          else ensure_dirs io root current segments fs
      | Inl e \<Rightarrow>
          if e \<noteq> ErrNotExist then (Inl e, fs)
          else andThen (createUploadDirectory io root current fs)
                 (\<lambda>_ fs. ensure_dirs io root current segments fs))"

definition ensureUploadDirectory ::
    "upload_io \<Rightarrow> upload_root \<Rightarrow> string \<Rightarrow> filesystem \<Rightarrow> unit fs_result" where
  "ensureUploadDirectory io root relativePath fs =
     (let cleanRelative = path_Clean (trim_space relativePath) in
      if cleanRelative = ''.'' then (Inr (), fs)
      else if path_IsAbs cleanRelative \<or> cleanRelative = ''..'' \<or> has_prefix cleanRelative ''../''
      then (Inl ErrUploadPolicyInvalid, fs)
      else ensure_dirs io root (abs_segs (urPath root)) (split_on slash cleanRelative) fs)"

definition ensureUploadTempDir :: "upload_io \<Rightarrow> upload_root \<Rightarrow> filesystem \<Rightarrow> unit fs_result" where
  "ensureUploadTempDir io root fs =
     andThen (uploadTempRelativeDir root, fs) (\<lambda>cleanTempDir fs.
       ensureUploadDirectory io root cleanTempDir fs)"

section \<open>Temporary files\<close>

text \<open>The result is the inode of the temporary file, whose size is the expected offset.\<close>

definition prepareUploadTempFile ::
    "upload_io \<Rightarrow> upload_root \<Rightarrow> string \<Rightarrow> nat \<Rightarrow> filesystem \<Rightarrow> nat fs_result" where
  "prepareUploadTempFile io root tempRelativePath offset fs =
     andThen (uploadTempAbsolutePath root tempRelativePath, fs) (\<lambda>tempPath fs.
     andThen (ensureUploadTempDir io root fs) (\<lambda>_ fs.
       let p = abs_segs tempPath in
       andThen
         (case lstat fs p of
            Inl e \<Rightarrow>
              if e \<noteq> ErrNotExist then (Inl e, fs)
              else if ioCreateFails io then (Inl ErrOS, fs)
              else if lstat fs (butlast p) \<noteq> Inr DirNode then (Inl ErrNotExist, fs)
              else (Inr (), create_file p fs)
          | Inr n \<Rightarrow> (if n = OtherNode \<or> n = DirNode then Inl ErrUploadPolicyInvalid else Inr (), fs))
         (\<lambda>_ fs.
            case lstat fs p of
              Inr (FileNode i) \<Rightarrow>
                (if length (fsBytes fs i) \<noteq> offset then Inl ErrUploadOffsetConflict else Inr i, fs)
            | Inr _ \<Rightarrow> (Inl ErrUploadPolicyInvalid, fs)
            | Inl e \<Rightarrow> (Inl e, fs))))"

text \<open>
  \<open>appendUploadChunkToTemp\<close>: \<open>body\<close> is what the reader delivers; \<open>ioWritten io = Some n\<close>
  makes copying fail after \<open>n\<close> bytes.
\<close>

definition appendUploadChunkToTemp ::
    "(string \<Rightarrow> string) \<Rightarrow> upload_io \<Rightarrow> upload_root \<Rightarrow> string \<Rightarrow> nat \<Rightarrow> string \<Rightarrow> int \<Rightarrow>
     filesystem \<Rightarrow> (nat \<times> string) fs_result" where
  "appendUploadChunkToTemp sha1 io root tempRelativePath offset body contentLength fs =
     andThen (prepareUploadTempFile io root tempRelativePath offset fs) (\<lambda>i fs.
       if ioOpenFails io then (Inl ErrOS, fs)
       else andThen (applyUploadOwnership io root, fs) (\<lambda>_ fs.
         let limited = take (nat (contentLength + 1)) body;
             copied = (case ioWritten io of None \<Rightarrow> limited | Some n \<Rightarrow> take n limited);
             fs = set_bytes i (write_at offset copied (fsBytes fs i)) fs;
             undone = (if ioTruncateFails io then fs
                       else set_bytes i (truncate_at offset (fsBytes fs i)) fs)
         in if ioWritten io \<noteq> None then (Inl ErrOS, undone)
            else if int (length copied) \<noteq> contentLength then (Inl ErrUploadRequestInvalid, undone)
            else if ioSyncFails io then (Inl ErrOS, undone)
            else (Inr (length copied, hex_encode (sha1 copied)), fs)))"

definition truncateUploadTempFile :: "upload_io \<Rightarrow> upload_root \<Rightarrow> string \<Rightarrow> nat \<Rightarrow> filesystem \<Rightarrow> filesystem" where
  "truncateUploadTempFile io root tempRelativePath offset fs =
     (case uploadTempAbsolutePath root tempRelativePath of
        Inl e \<Rightarrow> fs
      | Inr tempPath \<Rightarrow>
          (case lstat fs (abs_segs tempPath) of
             Inr (FileNode i) \<Rightarrow>
               if ioTruncateFails io then fs else set_bytes i (truncate_at offset (fsBytes fs i)) fs
           | _ \<Rightarrow> fs))"

definition removeUploadTempFile ::
    "upload_io \<Rightarrow> upload_root \<Rightarrow> string \<Rightarrow> filesystem \<Rightarrow> bool fs_result" where
  "removeUploadTempFile io root relativePath fs =
     (let cleanRelative = path_Clean (trim_space relativePath) in
      andThen (uploadTempRelativeDir root, fs) (\<lambda>cleanTempDir fs.
        if cleanRelative = ''.'' \<or> path_IsAbs cleanRelative \<or> path_Dir cleanRelative \<noteq> cleanTempDir
        then (Inl ErrUploadPolicyInvalid, fs)
        else andThen (uploadTempDirExists root fs, fs) (\<lambda>exists fs.
          if \<not> exists then (Inr False, fs)
          else
            let p = abs_segs (path_Join [urPath root, cleanRelative]) in
            case lstat fs p of
              Inl e \<Rightarrow> (if e = ErrNotExist then Inr False else Inl e, fs)
            | Inr n \<Rightarrow>
                if n = DirNode then (Inl ErrUploadPolicyInvalid, fs)
                else if ioRemoveFails io then (Inl ErrOS, fs)
                else (Inr True, set_name p None fs))))"

section \<open>Final files\<close>

definition sha1RegularFile ::
    "(string \<Rightarrow> string) \<Rightarrow> upload_io \<Rightarrow> string list \<Rightarrow> filesystem \<Rightarrow> (runtime_error, int \<times> string) result" where
  "sha1RegularFile sha1 io p fs =
     (case lstat fs p of
        Inl e \<Rightarrow> Inl e
      | Inr (FileNode i) \<Rightarrow>
          if ioHashFails io then Inl ErrOS
          else Inr (int (length (fsBytes fs i)), hex_encode (sha1 (fsBytes fs i)))
      | Inr _ \<Rightarrow> Inl ErrUploadPolicyInvalid)"

definition sha1File ::
    "(string \<Rightarrow> string) \<Rightarrow> upload_io \<Rightarrow> upload_root \<Rightarrow> string \<Rightarrow> filesystem \<Rightarrow> (runtime_error, int \<times> string) result" where
  "sha1File sha1 io root tempRelativePath fs =
     (case uploadTempDirExists root fs of
        Inl e \<Rightarrow> Inl e
      | Inr False \<Rightarrow> Inl ErrNotExist
      | Inr True \<Rightarrow>
          (case uploadTempAbsolutePath root tempRelativePath of
             Inl e \<Rightarrow> Inl e
           | Inr fullPath \<Rightarrow> sha1RegularFile sha1 io (abs_segs fullPath) fs))"

text \<open>\<open>os.Link\<close>, which fails when the new name is taken.\<close>

definition link_file :: "upload_io \<Rightarrow> nat \<Rightarrow> string list \<Rightarrow> string list \<Rightarrow> filesystem \<Rightarrow> unit fs_result" where
  "link_file io attempt old new fs =
     (if ioLinkFails io attempt then (Inl ErrOS, fs)
      else case lstat fs old of
        Inl e \<Rightarrow> (Inl e, fs)
      | Inr (FileNode i) \<Rightarrow>
          (case lstat fs new of
             Inr _ \<Rightarrow> (Inl ErrUploadFinalPathConflict, fs)
           | Inl e \<Rightarrow>
               if e \<noteq> ErrNotExist then (Inl e, fs)
               else if lstat fs (butlast new) \<noteq> Inr DirNode then (Inl ErrNotExist, fs)
               else (Inr (), set_name new (Some (FileNode i)) fs))
      | Inr _ \<Rightarrow> (Inl ErrOS, fs))"

definition finalizeUploadFile ::
    "upload_io \<Rightarrow> nat \<Rightarrow> upload_root \<Rightarrow> string \<Rightarrow> string \<Rightarrow> filesystem \<Rightarrow> unit fs_result" where
  "finalizeUploadFile io attempt root tempRelativePath finalRelativePath fs =
     andThen (uploadTempDirExists root fs, fs) (\<lambda>exists fs.
       if \<not> exists then (Inl ErrNotExist, fs)
       else andThen (uploadTempAbsolutePath root tempRelativePath, fs) (\<lambda>tempPath fs.
       andThen (uploadRootChildPath (urPath root) finalRelativePath, fs) (\<lambda>finalPath fs.
       andThen (ensureUploadDirectory io root (path_Dir (path_Clean finalRelativePath)) fs) (\<lambda>_ fs.
       andThen (applyUploadChildOwnership io root (abs_segs tempPath) False fs, fs) (\<lambda>_ fs.
       andThen (link_file io attempt (abs_segs tempPath) (abs_segs finalPath) fs) (\<lambda>_ fs.
         if ioRemoveFails io then (Inl ErrOS, fs)
         else (Inr (), set_name (abs_segs tempPath) None fs)))))))"

definition normalizeSHA1Hex :: "string \<Rightarrow> (runtime_error, string) result" where
  "normalizeSHA1Hex value =
     (let digest = to_lower (trim_space value) in
      if length digest \<noteq> 40 then Inl ErrUploadRequestInvalid
      else case hex_decode digest of None \<Rightarrow> Inl ErrUploadRequestInvalid | Some _ \<Rightarrow> Inr digest)"

fun first_sha1_matches :: "string \<Rightarrow> upload_checksum list \<Rightarrow> bool" where
  "first_sha1_matches digest [] = False"
| "first_sha1_matches digest (c # cs) =
     (if to_lower (trim_space (ucAlgorithm c)) \<noteq> ''sha1'' then first_sha1_matches digest cs
      else if to_lower (trim_space (ucEncoding c)) \<noteq> ''hex'' then False
      else case normalizeSHA1Hex (ucDigest c) of Inl _ \<Rightarrow> False | Inr expected \<Rightarrow> digest = expected)"

definition uploadedFileMatches ::
    "(string \<Rightarrow> string) \<Rightarrow> upload_io \<Rightarrow> string list \<Rightarrow> int option \<Rightarrow> upload_checksum list \<Rightarrow> filesystem \<Rightarrow>
     (runtime_error, bool) result" where
  "uploadedFileMatches sha1 io p expectedSize cs fs =
     (case sha1RegularFile sha1 io p fs of
        Inl e \<Rightarrow> Inl e
      | Inr (bytes, digest) \<Rightarrow>
          (case expectedSize of
             Some n \<Rightarrow> if bytes \<noteq> n then Inr False else Inr (first_sha1_matches digest cs)
           | None \<Rightarrow> Inr (first_sha1_matches digest cs)))"

end
