(* ===== verification/Upload_Agent.thy ===== *)
theory Upload_Agent
  imports Upload_Files
begin

text \<open>
  What the upload operations of \<open>internal/runtime\<close> share: the state of the agent that they
  read and change, the devices and their policies (\<open>agent_runtime.go\<close>), the storage
  guardrail (\<open>storage_guard.go\<close>) and the checks a session has to pass
  (\<open>upload_runtime.go\<close>). The record \<open>upload_env\<close> is what an operation gets from outside:
  the clock, which does not advance during it, random draws, the order in which a map is
  ranged over, the free space of file systems, and the faults of files. \<open>busy\<close> says which
  session locks \<open>tryLock\<close> cannot get.
\<close>

section \<open>State\<close>

record agent =
  agRegistry :: registry_store
  agProfiles :: profile_store
  agUploads :: upload_db
  agFiles :: filesystem
  agRoots :: "upload_root list"
  agDataDir :: string

record upload_env =
  evNow :: gotime
  evSha1 :: "string \<Rightarrow> string"
  evUploadRandom :: draw
  evBlob :: string
  evOrder :: "string list"
  evZone :: "gotime \<Rightarrow> int"
  evAvailable :: "string list \<Rightarrow> int option"
  evProfileFault :: "profile_fault option"
  evRegistryFault :: "write_step option"
  evIO :: upload_io
  evBusy :: "string \<Rightarrow> string \<Rightarrow> bool"
  evEntries :: "string list \<Rightarrow> string list"
  evMtime :: "nat \<Rightarrow> gotime"

type_synonym 'a agent_result = "(runtime_error + 'a) \<times> agent"

text \<open>A call of the database, the profiles, the registry or the file system.\<close>

definition onUploads :: "(upload_db \<Rightarrow> 'a up_result) \<Rightarrow> agent \<Rightarrow> 'a agent_result" where
  "onUploads f a =
     (case f (agUploads a) of
        (Inl e, db) \<Rightarrow> (Inl (UploadStoreError e), a\<lparr>agUploads := db\<rparr>)
      | (Inr x, db) \<Rightarrow> (Inr x, a\<lparr>agUploads := db\<rparr>))"

definition onProfiles :: "(profile_store \<Rightarrow> 'a profile_result) \<Rightarrow> agent \<Rightarrow> 'a agent_result" where
  "onProfiles f a =
     (case f (agProfiles a) of
        (Inl e, s) \<Rightarrow> (Inl (ProfileError e), a\<lparr>agProfiles := s\<rparr>)
      | (Inr x, s) \<Rightarrow> (Inr x, a\<lparr>agProfiles := s\<rparr>))"

definition onRegistry :: "(registry_store \<Rightarrow> 'a reg_result) \<Rightarrow> agent \<Rightarrow> 'a agent_result" where
  "onRegistry f a =
     (case f (agRegistry a) of
        (Inl e, s) \<Rightarrow> (Inl (RegistryError e), a\<lparr>agRegistry := s\<rparr>)
      | (Inr x, s) \<Rightarrow> (Inr x, a\<lparr>agRegistry := s\<rparr>))"

definition onFiles :: "(filesystem \<Rightarrow> 'a fs_result) \<Rightarrow> agent \<Rightarrow> 'a agent_result" where
  "onFiles f a = (case f (agFiles a) of (r, fs) \<Rightarrow> (r, a\<lparr>agFiles := fs\<rparr>))"

text \<open>A lookup that changes nothing.\<close>

definition lookup :: "(up_error, 'a) result \<Rightarrow> agent \<Rightarrow> 'a agent_result" where
  "lookup r a = (case r of Inl e \<Rightarrow> (Inl (UploadStoreError e), a) | Inr x \<Rightarrow> (Inr x, a))"

section \<open>Devices and roots\<close>

definition deviceRecord :: "gotime \<Rightarrow> string \<Rightarrow> agent \<Rightarrow> device_record agent_result" where
  "deviceRecord now deviceID a =
     (let normalizedDeviceID = trim_space deviceID in
      if normalizedDeviceID = [] then (Inl (RegistryError ErrDeviceNotFound), a)
      else case Snapshot now (agRegistry a) of
        (snapshot, s) \<Rightarrow>
          let a = a\<lparr>agRegistry := s\<rparr> in
          case find (\<lambda>d. devDeviceID d = normalizedDeviceID) (Devices snapshot) of
            None \<Rightarrow> (Inl (RegistryError ErrDeviceNotFound), a)
          | Some device \<Rightarrow> (Inr device, a))"

definition ensuredProfile :: "upload_env \<Rightarrow> device_record \<Rightarrow> agent \<Rightarrow> device_profile agent_result" where
  "ensuredProfile ev device = onProfiles (EnsureProfile (evProfileFault ev) device (evNow ev))"

definition deviceProfile ::
    "upload_env \<Rightarrow> string \<Rightarrow> agent \<Rightarrow> (device_record \<times> device_profile) agent_result" where
  "deviceProfile ev deviceID a =
     andThen (deviceRecord (evNow ev) deviceID a) (\<lambda>device a.
     andThen (ensuredProfile ev device a) (\<lambda>profile a. (Inr (device, profile), a)))"

definition uploadRootConfig :: "string \<Rightarrow> agent \<Rightarrow> upload_root option" where
  "uploadRootConfig rootKey a =
     map_option normalizedUploadRootConfig (find (\<lambda>r. urKey r = trim_space rootKey) (agRoots a))"

definition uploadRootConfigured :: "string \<Rightarrow> agent \<Rightarrow> bool" where
  "uploadRootConfigured rootKey a \<longleftrightarrow> list_ex (\<lambda>r. urKey r = rootKey) (agRoots a)"

section \<open>Storage guardrail\<close>

datatype storage_state = StorageUnconfigured | StorageUninspectable | StorageBlocked | StorageReady

definition defaultStorageMinFreeBytes :: int where "defaultStorageMinFreeBytes = 2 ^ 30"

text \<open>The elements of an absolute path, the last one first.\<close>

fun existing_from :: "filesystem \<Rightarrow> string list \<Rightarrow> string list" where
  "existing_from fs [] = []"
| "existing_from fs (seg # parents) =
     (if is_ok (lstat fs (rev (seg # parents))) then rev (seg # parents) else existing_from fs parents)"

definition existingFilesystemPath :: "filesystem \<Rightarrow> string \<Rightarrow> string list" where
  "existingFilesystemPath fs targetPath = existing_from fs (rev (abs_segs targetPath))"

definition storageGuardrailStatus ::
    "(string list \<Rightarrow> int option) \<Rightarrow> filesystem \<Rightarrow> string \<Rightarrow> int \<Rightarrow> storage_state" where
  "storageGuardrailStatus available fs targetPath minFreeBytes =
     (let minFreeBytes = (if minFreeBytes \<le> 0 then defaultStorageMinFreeBytes else minFreeBytes);
          targetPath = trim_space targetPath in
      if targetPath = [] then StorageUnconfigured
      else case available (existingFilesystemPath fs targetPath) of
        None \<Rightarrow> StorageUninspectable
      | Some n \<Rightarrow> if n < minFreeBytes then StorageBlocked else StorageReady)"

definition WriteBlocked :: "storage_state \<Rightarrow> bool" where
  "WriteBlocked s \<longleftrightarrow> s \<noteq> StorageReady"

definition ensureWritesAvailableForPath ::
    "(string list \<Rightarrow> int option) \<Rightarrow> string \<Rightarrow> filesystem \<Rightarrow> (runtime_error, unit) result" where
  "ensureWritesAvailableForPath available targetPath fs =
     (if WriteBlocked (storageGuardrailStatus available fs targetPath defaultStorageMinFreeBytes)
      then Inl ErrStorageWriteBlocked else Inr ())"

definition writesAvailable :: "upload_env \<Rightarrow> string \<Rightarrow> agent \<Rightarrow> unit agent_result" where
  "writesAvailable ev targetPath a =
     (ensureWritesAvailableForPath (evAvailable ev) targetPath (agFiles a), a)"

section \<open>Status\<close>

text \<open>
  \<open>uploadRootStatus\<close>. A probe creates and removes a file of its own; \<open>ioProbeFails\<close> says
  whether it can.
\<close>

datatype root_status =
  RootMissing | RootUninspectable | RootNotDirectory | RootOwnerUnavailable | RootNotWritable
| TempNotPrepared | TempInvalid | TempNotWritable | RootWritable

definition uploadRootStatus :: "upload_io \<Rightarrow> upload_root \<Rightarrow> filesystem \<Rightarrow> root_status \<times> filesystem" where
  "uploadRootStatus io root fs =
     (let root = normalizedUploadRootConfig root in
      case lstat fs (abs_segs (urPath root)) of
        Inl e \<Rightarrow> (if e = ErrNotExist then RootMissing else RootUninspectable, fs)
      | Inr n \<Rightarrow>
          if n \<noteq> DirNode then (RootNotDirectory, fs)
          else if uploadOwnershipConfigured root \<and> ioOwnerFails io then (RootOwnerUnavailable, fs)
          else if ioProbeFails io then (RootNotWritable, fs)
          else case ensureUploadTempDir io root fs of
            (Inl e, fs) \<Rightarrow> (TempNotPrepared, fs)
          | (Inr _, fs) \<Rightarrow>
              (case uploadTempAbsoluteDir root of
                 Inl e \<Rightarrow> (TempInvalid, fs)
               | Inr tempDir \<Rightarrow>
                   if is_ok (applyUploadOwnership io root) then (RootWritable, fs)
                   else (TempNotWritable, fs)))"

datatype upload_status =
  UploadReady | UploadDisabled | RootNotSelected | RootNotConfigured | RootBlocked root_status
| WritesBlocked | SessionPolicyChanged | CapturedBefore

definition deviceUploadPolicyStatus ::
    "upload_env \<Rightarrow> device_upload_profile \<Rightarrow> agent \<Rightarrow> upload_status \<times> agent" where
  "deviceUploadPolicyStatus ev upload a =
     (if \<not> duEnabled upload then (UploadDisabled, a)
      else if trim_space (duRootKey upload) = [] then (RootNotSelected, a)
      else case uploadRootConfig (duRootKey upload) a of
        None \<Rightarrow> (RootNotConfigured, a)
      | Some root \<Rightarrow>
          (case uploadRootStatus (evIO ev) root (agFiles a) of
             (status, fs) \<Rightarrow>
               (if status \<noteq> RootWritable then RootBlocked status else UploadReady, a\<lparr>agFiles := fs\<rparr>)))"

definition deviceUploadEffectiveStatus ::
    "upload_env \<Rightarrow> device_upload_profile \<Rightarrow> agent \<Rightarrow> upload_status \<times> agent" where
  "deviceUploadEffectiveStatus ev upload a =
     (case deviceUploadPolicyStatus ev upload a of
        (status, a) \<Rightarrow>
          if status \<noteq> UploadReady then (status, a)
          else case uploadRootConfig (duRootKey upload) a of
            None \<Rightarrow> (RootNotConfigured, a)
          | Some root \<Rightarrow>
              if is_ok (fst (writesAvailable ev (agDataDir a) a)) \<and> is_ok (fst (writesAvailable ev (urPath root) a))
              then (UploadReady, a) else (WritesBlocked, a))"

definition uploadCapturedAtBlocked :: "device_upload_profile \<Rightarrow> gotime option \<Rightarrow> bool" where
  "uploadCapturedAtBlocked upload capturedAt \<longleftrightarrow>
     (case duCapturedAfter upload of
        None \<Rightarrow> False
      | Some bound \<Rightarrow> (case capturedAt of None \<Rightarrow> True | Some t \<Rightarrow> t < bound))"

definition uploadSessionPolicyStatus ::
    "device_upload_profile \<Rightarrow> upload_session \<Rightarrow> bool \<Rightarrow> agent \<Rightarrow> upload_status" where
  "uploadSessionPolicyStatus upload session checkCapturedAfter a =
     (if \<not> duEnabled upload then UploadDisabled
      else
        let rootKey = trim_space (duRootKey upload) in
        if rootKey = [] then RootNotSelected
        else if rootKey \<noteq> usSelectedRootKey session then SessionPolicyChanged
        else if uploadRootConfig (usSelectedRootKey session) a = None then RootNotConfigured
        else if checkCapturedAfter \<and> uploadCapturedAtBlocked upload (usCapturedAt session) then CapturedBefore
        else UploadReady)"

definition uploadSessionExpired :: "upload_session \<Rightarrow> gotime \<Rightarrow> bool" where
  "uploadSessionExpired session now \<longleftrightarrow>
     (case usExpiresAt session of None \<Rightarrow> False | Some t \<Rightarrow> t \<le> now)"

section \<open>Session context\<close>

text \<open>
  \<open>uploadSessionContextWithCapturedAfter\<close>: for a completed session there is no root.
\<close>

definition uploadSessionContextWithCapturedAfter ::
    "upload_env \<Rightarrow> string \<Rightarrow> string \<Rightarrow> bool \<Rightarrow> bool \<Rightarrow> agent \<Rightarrow>
     (upload_session \<times> upload_root option) agent_result" where
  "uploadSessionContextWithCapturedAfter ev deviceID uploadID allowCommitting checkCapturedAfter a =
     (let normalizedDeviceID = trim_space deviceID;
          notFound = Inl (UploadStoreError ErrUploadSessionNotFound) in
      case GetSession uploadID (agUploads a) of
        None \<Rightarrow> (notFound, a)
      | Some session \<Rightarrow>
          if usDeviceID session \<noteq> normalizedDeviceID then (notFound, a)
          else if usStatus session \<noteq> SessionActive \<and> \<not> (allowCommitting \<and> usStatus session = SessionCommitting)
          then (if usStatus session = SessionCompleted then Inr (session, None) else notFound, a)
          else andThen (deviceProfile ev normalizedDeviceID a) (\<lambda>(device, profile) a.
            if uploadSessionPolicyStatus (dpUpload profile) session checkCapturedAfter a \<noteq> UploadReady
            then (Inl ErrUploadPolicyInvalid, a)
            else case uploadRootConfig (usSelectedRootKey session) a of
              None \<Rightarrow> (Inl ErrUploadPolicyInvalid, a)
            | Some root \<Rightarrow> (Inr (session, Some root), a)))"

definition activeUploadSessionContext ::
    "upload_env \<Rightarrow> string \<Rightarrow> string \<Rightarrow> agent \<Rightarrow> (upload_session \<times> upload_root) agent_result" where
  "activeUploadSessionContext ev deviceID uploadID a =
     andThen (uploadSessionContextWithCapturedAfter ev deviceID uploadID False True a) (\<lambda>(session, root) a.
       if usStatus session \<noteq> SessionActive \<or> uploadSessionExpired session (evNow ev)
       then (Inl (UploadStoreError ErrUploadSessionNotFound), a)
       else case root of
         None \<Rightarrow> (Inl (UploadStoreError ErrUploadSessionNotFound), a)
       | Some r \<Rightarrow> (Inr (session, r), a))"

definition uploadSessionForComplete ::
    "string \<Rightarrow> string \<Rightarrow> agent \<Rightarrow> upload_session agent_result" where
  "uploadSessionForComplete deviceID uploadID a =
     (case GetSession uploadID (agUploads a) of
        None \<Rightarrow> (Inl (UploadStoreError ErrUploadSessionNotFound), a)
      | Some session \<Rightarrow>
          if usDeviceID session \<noteq> trim_space deviceID
             \<or> usStatus session \<notin> {SessionActive, SessionCommitting, SessionCompleted}
          then (Inl (UploadStoreError ErrUploadSessionNotFound), a)
          else (Inr session, a))"

end
