(* ===== verification/Upload_Runtime.thy ===== *)
theory Upload_Runtime
  imports Upload_Agent
begin

text \<open>
  The upload operations of \<open>internal/runtime\<close>: sessions, chunks, completion and recovery
  (\<open>upload_runtime.go\<close>), the batch check (\<open>upload_sync.go\<close>), clean-up
  (\<open>upload_maintenance.go\<close>), and the administrator's operations (\<open>agent_runtime.go\<close>). The
  locks of \<open>upload_locks.go\<close> serialise the operations on a session; here an operation runs
  alone. Responses hold the rows of which the code returns a summary. Telling the indexer
  about a new file (\<open>scheduleLocalDiscoveryAfterUpload\<close>) is not part of the state.
\<close>

section \<open>Inputs\<close>

record start_input =
  inSourceAssetID :: string
  inSourceAssetVersion :: string
  inMediaType :: string
  inOriginalFilename :: string
  inCapturedAt :: "gotime option"
  inExpectedSizeBytes :: "int option"

record chunk_input =
  cnOffset :: int
  cnSHA1Hex :: string
  cnBody :: "string option"
  cnContentLength :: int

record complete_input =
  coSourceAssetVersion :: string
  coChecksums :: "upload_checksum list"

datatype start_response =
  AlreadyUploaded uploaded_asset | StartBlocked upload_status | CommitBlocked uploaded_asset
| Resumable upload_session | Accepted upload_session

definition defaultUploadChunkSizeBytes :: int where "defaultUploadChunkSizeBytes = 8 * 1024 * 1024"
definition defaultUploadSessionTTL :: duration where "defaultUploadSessionTTL = 24 * hour"
definition maxFinalPathAttempts :: nat where "maxFinalPathAttempts = 1000"

definition normalizeUploadSessionStartInput :: "start_input \<Rightarrow> (runtime_error, start_input) result" where
  "normalizeUploadSessionStartInput input =
     (let input = input\<lparr>inSourceAssetID := trim_space (inSourceAssetID input),
                        inSourceAssetVersion := trim_space (inSourceAssetVersion input),
                        inMediaType := trim_space (inMediaType input),
                        inOriginalFilename := trim_space (inOriginalFilename input)\<rparr>
      in if inSourceAssetID input = [] \<or> inSourceAssetVersion input = [] \<or> inMediaType input = []
            \<or> inOriginalFilename input = []
         then Inl ErrUploadRequestInvalid
         else if negative_size (inExpectedSizeBytes input) then Inl ErrUploadRequestInvalid
         else Inr input)"

fun finalSHA1Checksum :: "upload_checksum list \<Rightarrow> (runtime_error, string) result" where
  "finalSHA1Checksum [] = Inl ErrUploadRequestInvalid"
| "finalSHA1Checksum (c # cs) =
     (let encoding = to_lower (trim_space (ucEncoding c));
          encoding = (if encoding = [] then ''hex'' else encoding) in
      if to_lower (trim_space (ucAlgorithm c)) \<noteq> ''sha1'' then finalSHA1Checksum cs
      else if encoding \<noteq> ''hex'' then Inl ErrUploadRequestInvalid
      else normalizeSHA1Hex (ucDigest c))"

definition randomUploadID :: "draw \<Rightarrow> (runtime_error, string) result" where
  "randomUploadID d =
     (case d 16 of None \<Rightarrow> Inl ErrUploadRandom | Some raw \<Rightarrow> Inr (''upl_'' @ hex_encode raw))"

section \<open>Committing a file\<close>

definition commit_input ::
    "upload_session \<Rightarrow> string \<Rightarrow> upload_checksum list \<Rightarrow> gotime \<Rightarrow> upload_commit_input" where
  "commit_input session finalRelativePath cs now =
     \<lparr>ciUploadID = usUploadID session, ciDeviceID = usDeviceID session,
      ciSourceAssetID = usSourceAssetID session, ciSourceAssetVersion = usSourceAssetVersion session,
      ciMediaType = usMediaType session, ciOriginalFilename = usOriginalFilename session,
      ciCapturedAt = usCapturedAt session, ciExpectedSizeBytes = usExpectedSizeBytes session,
      ciFinalRelativePath = finalRelativePath, ciChecksums = cs, ciNow = now\<rparr>"

definition markUploaded :: "upload_env \<Rightarrow> int \<Rightarrow> agent \<Rightarrow> uploaded_asset agent_result" where
  "markUploaded ev assetID a =
     (if ioMarkFails (evIO ev) then (Inl ErrDatabase, a)
      else onUploads (MarkUploaded (evNow ev) assetID (evNow ev)) a)"

definition reserveCommit :: "upload_env \<Rightarrow> upload_commit_input \<Rightarrow> agent \<Rightarrow> uploaded_asset agent_result" where
  "reserveCommit ev input a =
     (if ioReserveFails (evIO ev) then (Inl ErrDatabase, a)
      else onUploads (ReserveUploadCommit (evNow ev) input) a)"

text \<open>
  The loop of \<open>reserveAndFinalizeUploadWithRetry\<close>, with the number of attempts that are
  left. A final path that is taken is the only reason for another attempt.
\<close>

fun finalizeAttempts ::
    "upload_env \<Rightarrow> upload_root \<Rightarrow> upload_session \<Rightarrow> string \<Rightarrow> upload_checksum list \<Rightarrow> nat \<Rightarrow> nat \<Rightarrow>
     agent \<Rightarrow> uploaded_asset agent_result" where
  "finalizeAttempts ev root session base cs 0 attempt a = (Inl ErrUploadFinalPathConflict, a)"
| "finalizeAttempts ev root session base cs (Suc left) attempt a =
     (let finalRelativePath = suffixedUploadRelativePath base attempt in
      case reserveCommit ev (commit_input session finalRelativePath cs (evNow ev)) a of
        (Inl e, a) \<Rightarrow>
          (case e of
             UploadStoreError (ErrUploadedAssetExists (Some asset)) \<Rightarrow>
               (if uaStatus (uaRow asset) = AssetUploaded then Inr asset else Inl e, a)
           | _ \<Rightarrow> (Inl e, a))
      | (Inr asset, a) \<Rightarrow>
          (case onFiles (finalizeUploadFile (evIO ev) attempt root (usTempRelativePath session)
                           finalRelativePath) a of
             (Inl e, a) \<Rightarrow>
               if e = ErrUploadFinalPathConflict
               then finalizeAttempts ev root session base cs left (attempt + 1) a
               else (Inl e, a)
           | (Inr _, a) \<Rightarrow> markUploaded ev (uaID (uaRow asset)) a))"

definition reserveAndFinalizeUploadWithRetry ::
    "upload_env \<Rightarrow> upload_root \<Rightarrow> upload_session \<Rightarrow> string \<Rightarrow> upload_checksum list \<Rightarrow> agent \<Rightarrow>
     uploaded_asset agent_result" where
  "reserveAndFinalizeUploadWithRetry ev root session baseRelativePath cs a =
     finalizeAttempts ev root session baseRelativePath cs maxFinalPathAttempts 0 a"

section \<open>Recovering a reserved commit\<close>

definition finishRecovered ::
    "upload_env \<Rightarrow> upload_root \<Rightarrow> uploaded_asset \<Rightarrow> agent \<Rightarrow> uploaded_asset option agent_result" where
  "finishRecovered ev root asset a =
     andThen (markUploaded ev (uaID (uaRow asset)) a) (\<lambda>uploaded a.
       (Inr (Some uploaded),
        case GetSession (uaUploadID (uaRow asset)) (agUploads a) of
          None \<Rightarrow> a
        | Some session \<Rightarrow> snd (onFiles (removeUploadTempFile (evIO ev) root (usTempRelativePath session)) a)))"

definition recoverFromTemp ::
    "upload_env \<Rightarrow> upload_root \<Rightarrow> uploaded_asset \<Rightarrow> agent \<Rightarrow> uploaded_asset option agent_result" where
  "recoverFromTemp ev root asset a =
     (let row = uaRow asset in
      case GetSession (uaUploadID row) (agUploads a) of
        None \<Rightarrow> (Inr None, a)
      | Some session \<Rightarrow>
          (case uploadTempAbsolutePath root (usTempRelativePath session) of
             Inl e \<Rightarrow> (Inl e, a)
           | Inr tempPath \<Rightarrow>
               (case uploadedFileMatches (evSha1 ev) (evIO ev) (abs_segs tempPath) (uaExpectedSizeBytes row)
                       (uaChecksums asset) (agFiles a) of
                  Inl e \<Rightarrow> (if e = ErrNotExist then Inr None else Inl e, a)
                | Inr False \<Rightarrow> (Inr None, a)
                | Inr True \<Rightarrow>
                    (case reserveAndFinalizeUploadWithRetry ev root session (uaFinalRelativePath row)
                            (uaChecksums asset) a of
                       (Inl e, a) \<Rightarrow> (if e = ErrUploadFinalPathConflict then Inr None else Inl e, a)
                     | (Inr uploaded, a) \<Rightarrow> (Inr (Some uploaded), a)))))"

text \<open>\<open>None\<close> when the commit cannot be recovered.\<close>

definition recoverPendingUploadAssetLocked ::
    "upload_env \<Rightarrow> uploaded_asset \<Rightarrow> agent \<Rightarrow> uploaded_asset option agent_result" where
  "recoverPendingUploadAssetLocked ev asset a =
     (let row = uaRow asset in
      if uaStatus row = AssetUploaded then (Inr (Some asset), a)
      else case uploadRootConfig (uaSelectedRootKey row) a of
        None \<Rightarrow> (Inr None, a)
      | Some root \<Rightarrow>
          (case uploadRootChildPath (urPath root) (uaFinalRelativePath row) of
             Inl e \<Rightarrow> (Inl e, a)
           | Inr finalPath \<Rightarrow>
               (case uploadedFileMatches (evSha1 ev) (evIO ev) (abs_segs finalPath) (uaExpectedSizeBytes row)
                       (uaChecksums asset) (agFiles a) of
                  Inl e \<Rightarrow> if e = ErrNotExist then recoverFromTemp ev root asset a else (Inl e, a)
                | Inr True \<Rightarrow> finishRecovered ev root asset a
                | Inr False \<Rightarrow> recoverFromTemp ev root asset a)))"

definition recoverPendingUploadAsset ::
    "upload_env \<Rightarrow> uploaded_asset \<Rightarrow> agent \<Rightarrow> uploaded_asset option agent_result" where
  "recoverPendingUploadAsset ev asset a =
     andThen (lookup (GetUploadedAssetByUploadID (uaUploadID (uaRow asset)) (agUploads a)) a) (\<lambda>current a.
       case current of
         None \<Rightarrow> (Inl (UploadStoreError ErrUploadedAssetNotFound), a)
       | Some asset \<Rightarrow> recoverPendingUploadAssetLocked ev asset a)"

section \<open>Sessions\<close>

definition startFresh ::
    "upload_env \<Rightarrow> start_input \<Rightarrow> device_record \<Rightarrow> device_profile \<Rightarrow> agent \<Rightarrow> start_response agent_result" where
  "startFresh ev input device profile a =
     (let upload = dpUpload profile; now = evNow ev in
      case deviceUploadEffectiveStatus ev upload a of
        (status, a) \<Rightarrow>
          if status \<noteq> UploadReady then (Inr (StartBlocked status), a)
          else case uploadRootConfig (duRootKey upload) a of
            None \<Rightarrow> (Inr (StartBlocked RootNotConfigured), a)
          | Some root \<Rightarrow>
              if \<not> is_ok (fst (writesAvailable ev (agDataDir a) a))
                 \<or> \<not> is_ok (fst (writesAvailable ev (urPath root) a))
              then (Inr (StartBlocked WritesBlocked), a)
              else
                let active = GetActiveSessionBySourceIdentity (devDeviceID device) (inSourceAssetID input)
                               (inSourceAssetVersion input) (agUploads a);
                    create =
                      (if uploadCapturedAtBlocked upload (inCapturedAt input)
                       then (Inr (StartBlocked CapturedBefore), a)
                       else andThen (randomUploadID (evUploadRandom ev), a) (\<lambda>uploadID a.
                         andThen (onUploads (CreateSession now (evBlob ev)
                             \<lparr>siUploadID = uploadID, siDeviceID = devDeviceID device,
                              siSourceAssetID = inSourceAssetID input,
                              siSourceAssetVersion = inSourceAssetVersion input,
                              siMediaType = inMediaType input,
                              siOriginalFilename = inOriginalFilename input,
                              siCapturedAt = inCapturedAt input,
                              siExpectedSizeBytes = inExpectedSizeBytes input,
                              siSelectedRootKey = duRootKey upload,
                              siTempRelativePath = path_Join [urTempPath root, uploadID @ ''.part''],
                              siExpiresAt = Some (now + defaultUploadSessionTTL), siNow = now\<rparr>) a)
                           (\<lambda>session a. (Inr (Accepted session), a))))
                in case active of
                  None \<Rightarrow> create
                | Some session \<Rightarrow>
                    if uploadSessionExpired session now then create
                    else
                      let sessionStatus = uploadSessionPolicyStatus upload session True a in
                      (Inr (if sessionStatus \<noteq> UploadReady then StartBlocked sessionStatus
                            else Resumable session), a))"

definition StartUploadSession ::
    "upload_env \<Rightarrow> string \<Rightarrow> start_input \<Rightarrow> agent \<Rightarrow> start_response agent_result" where
  "StartUploadSession ev deviceID input a =
     andThen (normalizeUploadSessionStartInput input, a) (\<lambda>input a.
     andThen (deviceProfile ev deviceID a) (\<lambda>(device, profile) a.
     andThen (lookup (GetUploadedAssetBySourceIdentity (devDeviceID device) (inSourceAssetID input)
                (inSourceAssetVersion input) (agUploads a)) a) (\<lambda>found a.
       case found of
         None \<Rightarrow> startFresh ev input device profile a
       | Some asset \<Rightarrow>
           if uaStatus (uaRow asset) = AssetUploaded then (Inr (AlreadyUploaded asset), a)
           else andThen (recoverPendingUploadAsset ev asset a) (\<lambda>recovered a.
             (Inr (case recovered of None \<Rightarrow> CommitBlocked asset | Some r \<Rightarrow> AlreadyUploaded r), a)))))"

definition UploadSession :: "string \<Rightarrow> string \<Rightarrow> agent \<Rightarrow> (runtime_error, upload_session) result" where
  "UploadSession deviceID uploadID a =
     (case GetSession uploadID (agUploads a) of
        None \<Rightarrow> Inl (UploadStoreError ErrUploadSessionNotFound)
      | Some session \<Rightarrow>
          if usDeviceID session \<noteq> trim_space deviceID
          then Inl (UploadStoreError ErrUploadSessionNotFound) else Inr session)"

section \<open>Chunks\<close>

text \<open>Restoring the temporary file when a chunk that was written is not accepted.\<close>

definition restoreTemp :: "upload_env \<Rightarrow> upload_root \<Rightarrow> upload_session \<Rightarrow> int \<Rightarrow> agent \<Rightarrow> agent" where
  "restoreTemp ev root session offset a =
     a\<lparr>agFiles := truncateUploadTempFile (evIO ev) root (usTempRelativePath session) (nat offset) (agFiles a)\<rparr>"

definition updateProgress ::
    "upload_env \<Rightarrow> string \<Rightarrow> int \<Rightarrow> int \<Rightarrow> agent \<Rightarrow> upload_session agent_result" where
  "updateProgress ev uploadID expectedOffset nextOffset a =
     (if ioProgressFails (evIO ev) then (Inl ErrDatabase, a)
      else onUploads (UpdateSessionProgress (evNow ev) uploadID expectedOffset nextOffset (evNow ev)) a)"

definition writeChunk ::
    "upload_env \<Rightarrow> upload_session \<Rightarrow> upload_root \<Rightarrow> string \<Rightarrow> chunk_input \<Rightarrow> string \<Rightarrow> agent \<Rightarrow>
     upload_session agent_result" where
  "writeChunk ev session root chunkSHA1 input body a =
     (let offset = cnOffset input in
      andThen (onFiles (appendUploadChunkToTemp (evSha1 ev) (evIO ev) root (usTempRelativePath session)
          (nat offset) body (cnContentLength input)) a) (\<lambda>(written, digest) a.
        let nextOffset = offset + int written in
        if digest \<noteq> chunkSHA1 then (Inl ErrUploadChecksumMismatch, restoreTemp ev root session offset a)
        else if (case usExpectedSizeBytes session of None \<Rightarrow> False | Some n \<Rightarrow> n < nextOffset)
        then (Inl ErrUploadRequestInvalid, restoreTemp ev root session offset a)
        else case updateProgress ev (usUploadID session) offset nextOffset a of
          (Inl e, a) \<Rightarrow> (Inl e, restoreTemp ev root session offset a)
        | (Inr updated, a) \<Rightarrow> (Inr updated, a)))"

definition acceptChunk ::
    "upload_env \<Rightarrow> chunk_input \<Rightarrow> string \<Rightarrow> string \<Rightarrow> upload_session \<Rightarrow> upload_root \<Rightarrow> agent \<Rightarrow>
     upload_session agent_result" where
  "acceptChunk ev input chunkSHA1 body session root a =
     andThen (writesAvailable ev (agDataDir a) a) (\<lambda>_ a.
     andThen (writesAvailable ev (urPath root) a) (\<lambda>_ a.
       if usNextOffset session \<noteq> cnOffset input
       then (Inl (UploadStoreError (ErrUploadSessionOffsetConflict session)), a)
       else if (case usExpectedSizeBytes session of
                  None \<Rightarrow> False | Some n \<Rightarrow> n < add64 (cnOffset input) (cnContentLength input))
       then (Inl ErrUploadRequestInvalid, a)
       else writeChunk ev session root chunkSHA1 input body a))"

definition AppendUploadChunk ::
    "upload_env \<Rightarrow> string \<Rightarrow> string \<Rightarrow> chunk_input \<Rightarrow> agent \<Rightarrow> upload_session agent_result" where
  "AppendUploadChunk ev deviceID uploadID input a =
     (case (cnBody input, normalizeSHA1Hex (cnSHA1Hex input)) of
        (Some body, Inr chunkSHA1) \<Rightarrow>
          if cnOffset input < 0 \<or> cnContentLength input = 0
             \<or> defaultUploadChunkSizeBytes < cnContentLength input
          then (Inl ErrUploadRequestInvalid, a)
          else andThen (activeUploadSessionContext ev deviceID uploadID a)
                 (\<lambda>(session, root). acceptChunk ev input chunkSHA1 body session root)
      | _ \<Rightarrow> (Inl ErrUploadRequestInvalid, a))"

section \<open>Completion\<close>

definition completeFresh ::
    "upload_env \<Rightarrow> string \<Rightarrow> upload_session \<Rightarrow> string \<Rightarrow> agent \<Rightarrow> uploaded_asset agent_result" where
  "completeFresh ev deviceID session finalSHA1 a =
     andThen (deviceProfile ev (trim_space deviceID) a) (\<lambda>(device, profile) a.
       if uploadSessionPolicyStatus (dpUpload profile) session False a \<noteq> UploadReady
       then (Inl ErrUploadPolicyInvalid, a)
       else case uploadRootConfig (usSelectedRootKey session) a of
         None \<Rightarrow> (Inl ErrUploadPolicyInvalid, a)
       | Some root \<Rightarrow>
           if uploadCapturedAtBlocked (dpUpload profile) (usCapturedAt session)
           then (Inl ErrUploadPolicyInvalid, a)
           else andThen (sha1File (evSha1 ev) (evIO ev) root (usTempRelativePath session) (agFiles a), a)
             (\<lambda>(tempSize, tempSHA1) a.
               if (case usExpectedSizeBytes session of None \<Rightarrow> False | Some n \<Rightarrow> tempSize \<noteq> n)
               then (Inl ErrUploadRequestInvalid, a)
               else if tempSize \<noteq> usNextOffset session then (Inl ErrUploadOffsetConflict, a)
               else if tempSHA1 \<noteq> finalSHA1 then (Inl ErrUploadChecksumMismatch, a)
               else andThen (renderUploadFinalRelativePath (evOrder ev) (evZone ev) profile session (evNow ev), a)
                 (\<lambda>baseRelativePath a.
                   reserveAndFinalizeUploadWithRetry ev root session baseRelativePath
                     [\<lparr>ucAlgorithm = ''sha1'', ucEncoding = ''hex'', ucDigest = finalSHA1\<rparr>] a)))"

definition CompleteUploadSession ::
    "upload_env \<Rightarrow> string \<Rightarrow> string \<Rightarrow> complete_input \<Rightarrow> agent \<Rightarrow> uploaded_asset agent_result" where
  "CompleteUploadSession ev deviceID uploadID input a =
     (case finalSHA1Checksum (coChecksums input) of
        Inl _ \<Rightarrow> (Inl ErrUploadRequestInvalid, a)
      | Inr finalSHA1 \<Rightarrow>
          andThen (deviceRecord (evNow ev) deviceID a) (\<lambda>_ a.
          andThen (uploadSessionForComplete deviceID uploadID a) (\<lambda>session a.
            let version = trim_space (coSourceAssetVersion input) in
            if version \<noteq> [] \<and> version \<noteq> usSourceAssetVersion session
            then (Inl ErrUploadRequestInvalid, a)
            else andThen (lookup (GetUploadedAssetByUploadID (usUploadID session) (agUploads a)) a) (\<lambda>found a.
              case found of
                Some asset \<Rightarrow>
                  if uaStatus (uaRow asset) = AssetUploaded then (Inr asset, a)
                  else andThen (recoverPendingUploadAssetLocked ev asset a) (\<lambda>recovered a.
                    case recovered of
                      None \<Rightarrow> (Inl ErrUploadRequestInvalid, a)
                    | Some r \<Rightarrow> (Inr r, a))
              | None \<Rightarrow>
                  if usStatus session = SessionCompleted then (Inl ErrUploadRequestInvalid, a)
                  else completeFresh ev deviceID session finalSHA1 a))))"

definition abortActive ::
    "upload_env \<Rightarrow> upload_session \<Rightarrow> upload_root \<Rightarrow> agent \<Rightarrow> upload_session agent_result" where
  "abortActive ev session root a =
     andThen (onUploads (AbortSession (evNow ev) (usUploadID session) (usDeviceID session) (evNow ev)) a)
       (\<lambda>aborted a.
     andThen (onFiles (removeUploadTempFile (evIO ev) root (usTempRelativePath session)) a)
       (\<lambda>_ a. (Inr aborted, a)))"

definition AbortUploadSession ::
    "upload_env \<Rightarrow> string \<Rightarrow> string \<Rightarrow> agent \<Rightarrow> upload_session agent_result" where
  "AbortUploadSession ev deviceID uploadID a =
     andThen (activeUploadSessionContext ev deviceID uploadID a)
       (\<lambda>(session, root). abortActive ev session root)"

end
