(* ===== verification/Upload_Admin.thy ===== *)
theory Upload_Admin
  imports Upload_Runtime
begin

text \<open>
  The rest of the upload operations: the app's view of its uploads and the batch check
  (\<open>upload_runtime.go\<close>, \<open>upload_sync.go\<close>), the daily clean-up (\<open>upload_maintenance.go\<close>), and
  the administrator's policy changes, resets and revocations (\<open>agent_runtime.go\<close>).
\<close>

section \<open>The app's view\<close>

record app_upload_state =
  asLedgerEpoch :: string
  asUpload :: device_upload_profile
  asStatus :: upload_status
  asLatestCommittedUploadAt :: "gotime option"
  asActiveSession :: "upload_session option"

definition AppUploadState :: "upload_env \<Rightarrow> string \<Rightarrow> agent \<Rightarrow> app_upload_state agent_result" where
  "AppUploadState ev deviceID a =
     andThen (deviceProfile ev deviceID a) (\<lambda>(device, profile) a.
       case deviceUploadEffectiveStatus ev (dpUpload profile) a of
         (status, a) \<Rightarrow>
           let deviceID = dpDeviceID profile;
               active = (case GetLatestActiveSession deviceID (agUploads a) of
                   None \<Rightarrow> None
                 | Some session \<Rightarrow>
                     if \<not> uploadSessionExpired session (evNow ev) \<and> status = UploadReady
                        \<and> uploadSessionPolicyStatus (dpUpload profile) session True a = UploadReady
                     then Some session else None)
           in andThen (onUploads (LedgerEpoch (evBlob ev) deviceID) a) (\<lambda>epoch a.
             (Inr \<lparr>asLedgerEpoch = epoch, asUpload = dpUpload profile, asStatus = status,
                   asLatestCommittedUploadAt = LatestUploadedAt deviceID (agUploads a),
                   asActiveSession = active\<rparr>, a)))"

section \<open>The batch check\<close>

definition maxUploadCheckItems :: nat where "maxUploadCheckItems = 200"

text \<open>The loop over the items; \<open>seen\<close> are the identities met so far.\<close>

fun checkIdentities ::
    "upload_identity list \<Rightarrow> upload_identity list \<Rightarrow> (runtime_error, upload_identity list) result" where
  "checkIdentities seen [] = Inr []"
| "checkIdentities seen ((assetID, version) # items) =
     (if assetID = [] \<or> version = [] \<or> trim_space assetID \<noteq> assetID \<or> trim_space version \<noteq> version
         \<or> 4096 < length assetID \<or> 4096 < length version
      then Inl ErrUploadRequestInvalid
      else if (assetID, version) \<in> set seen then Inl ErrUploadRequestInvalid
      else case checkIdentities ((assetID, version) # seen) items of
        Inl e \<Rightarrow> Inl e
      | Inr identities \<Rightarrow> Inr ((assetID, version) # identities))"

definition CheckUploads ::
    "upload_env \<Rightarrow> string \<Rightarrow> upload_identity list \<Rightarrow> agent \<Rightarrow>
     (string \<times> (upload_identity \<times> bool) list) agent_result" where
  "CheckUploads ev deviceID items a =
     andThen (deviceProfile ev deviceID a) (\<lambda>(device, profile) a.
       if items = [] \<or> maxUploadCheckItems < length items then (Inl ErrUploadRequestInvalid, a)
       else andThen (checkIdentities [] items, a) (\<lambda>identities a.
         andThen (onUploads (CheckUploaded (evBlob ev) (dpDeviceID profile) identities) a)
           (\<lambda>(epoch, states) a. (Inr (epoch, zip items states), a))))"

section \<open>Removing temporary files\<close>

text \<open>The roots by key: a later root with the same key replaces an earlier one.\<close>

definition rootByKey :: "upload_root list \<Rightarrow> string \<Rightarrow> upload_root option" where
  "rootByKey roots key =
     map_option normalizedUploadRootConfig (find (\<lambda>r. urKey r = key) (rev roots))"

fun removeUploadTempFiles ::
    "upload_io \<Rightarrow> upload_root list \<Rightarrow> upload_temp_file list \<Rightarrow> filesystem \<Rightarrow>
     (nat \<times> runtime_error list) \<times> filesystem" where
  "removeUploadTempFiles io roots [] fs = ((0, []), fs)"
| "removeUploadTempFiles io roots (f # files) fs =
     (case (case rootByKey roots (tfRootKey f) of
              None \<Rightarrow> ((0, [ErrUploadRootNotFound]), fs)
            | Some root \<Rightarrow>
                (case removeUploadTempFile io root (tfRelativePath f) fs of
                   (Inl e, fs) \<Rightarrow> ((0, [e]), fs)
                 | (Inr didRemove, fs) \<Rightarrow> ((of_bool didRemove, []), fs))) of
        ((n, errors), fs) \<Rightarrow>
          (case removeUploadTempFiles io roots files fs of
             ((m, es), fs) \<Rightarrow> ((n + m, errors @ es), fs)))"

definition removeTempFiles ::
    "upload_env \<Rightarrow> upload_temp_file list \<Rightarrow> agent \<Rightarrow> (nat \<times> runtime_error list) \<times> agent" where
  "removeTempFiles ev files a =
     (case removeUploadTempFiles (evIO ev) (agRoots a) files (agFiles a) of
        (r, fs) \<Rightarrow> (r, a\<lparr>agFiles := fs\<rparr>))"

section \<open>Clean-up\<close>

definition maintenance_input :: "gotime \<Rightarrow> upload_cleanup_input" where
  "maintenance_input now =
     \<lparr>kiNow = now, kiCompletedSessionRetention = 7 * 24 * hour, kiAbortedSessionRetention = 7 * 24 * hour,
      kiFailedSessionRetention = 30 * 24 * hour, kiCommitEventRetention = 30 * 24 * hour,
      kiResetEventRetention = 90 * 24 * hour\<rparr>"

definition uploadMaintenanceOrphanTempRetention :: duration where
  "uploadMaintenanceOrphanTempRetention = 24 * hour"

text \<open>The loop over the candidates; a session that is busy waits for the next run.\<close>

fun maintainSessions ::
    "upload_env \<Rightarrow> upload_cleanup_input \<Rightarrow> (string \<times> string) list \<Rightarrow> nat \<times> nat \<times> runtime_error list \<Rightarrow>
     agent \<Rightarrow> (nat \<times> nat \<times> runtime_error list) \<times> agent" where
  "maintainSessions ev input [] acc a = (acc, a)"
| "maintainSessions ev input ((uploadID, deviceID) # cs) (removedSessions, removedFiles, errors) a =
     (if evBusy ev deviceID uploadID then maintainSessions ev input cs (removedSessions, removedFiles, errors) a
      else case CleanupUploadSession (evNow ev) uploadID input (agUploads a) of
        (removed, db) \<Rightarrow>
          (case removeTempFiles ev (krTempFiles removed) (a\<lparr>agUploads := db\<rparr>) of
             ((n, es), a) \<Rightarrow>
               maintainSessions ev input cs
                 (removedSessions + RemovedSessions removed, removedFiles + n, errors @ es) a))"

text \<open>
  \<open>removeOrphanUploadTempFile\<close>. \<open>os.SameFile\<close> compares inodes. \<open>evMtime\<close> is the time a
  file was last written.
\<close>

definition same_file :: "filesystem \<Rightarrow> string list \<Rightarrow> nat \<Rightarrow> (runtime_error, bool) result" where
  "same_file fs p i =
     (case lstat fs p of
        Inl e \<Rightarrow> if e = ErrNotExist then Inr False else Inl e
      | Inr n \<Rightarrow> Inr (n = FileNode i))"

definition removeOrphanUploadTempFile ::
    "upload_env \<Rightarrow> string list \<Rightarrow> string \<Rightarrow> gotime \<Rightarrow> agent \<Rightarrow> bool agent_result" where
  "removeOrphanUploadTempFile ev fullPath uploadID cutoff a =
     (let session = GetSession uploadID (agUploads a);
          deviceID = (case session of None \<Rightarrow> [] | Some s \<Rightarrow> usDeviceID s);
          removal = (if ioRemoveFails (evIO ev) then (Inl ErrOS, a)
                     else (Inr True, a\<lparr>agFiles := set_name fullPath None (agFiles a)\<rparr>)) in
      if evBusy ev deviceID uploadID then (Inr False, a)
      else case lstat (agFiles a) fullPath of
        Inl e \<Rightarrow> (if e = ErrNotExist then Inr False else Inl e, a)
      | Inr (FileNode i) \<Rightarrow>
          if cutoff < evMtime ev i then (Inr False, a)
          else (case session of
                  None \<Rightarrow> removal
                | Some s \<Rightarrow>
                    (case uploadRootConfig (usSelectedRootKey s) a of
                       None \<Rightarrow> (Inr False, a)
                     | Some ownerRoot \<Rightarrow>
                         andThen (uploadTempAbsolutePath ownerRoot (usTempRelativePath s), a) (\<lambda>ownerPath a.
                         andThen (same_file (agFiles a) (abs_segs ownerPath) i, a) (\<lambda>same a.
                           if same then (Inr False, a) else removal))))
      | Inr _ \<Rightarrow> (Inr False, a))"

text \<open>\<open>os.ReadDir\<close>: \<open>evEntries\<close> enumerates names, of which those in the directory count.\<close>

definition readDir :: "upload_env \<Rightarrow> string list \<Rightarrow> filesystem \<Rightarrow> string list" where
  "readDir ev dir fs =
     filter (\<lambda>name. slash \<notin> set name \<and> fsNames fs (dir @ [name]) \<noteq> None) (evEntries ev dir)"

fun removeOrphansIn ::
    "upload_env \<Rightarrow> string list \<Rightarrow> gotime \<Rightarrow> string list \<Rightarrow> agent \<Rightarrow> (nat \<times> runtime_error list) \<times> agent" where
  "removeOrphansIn ev dir cutoff [] a = ((0, []), a)"
| "removeOrphansIn ev dir cutoff (name # names) a =
     (if \<not> has_prefix name ''upl_'' \<or> \<not> has_suffix name ''.part'' then removeOrphansIn ev dir cutoff names a
      else case removeOrphanUploadTempFile ev (dir @ [name]) (take (length name - 5) name) cutoff a of
        (r, a) \<Rightarrow>
          (case removeOrphansIn ev dir cutoff names a of
             ((n, errors), a) \<Rightarrow>
               (case r of Inl e \<Rightarrow> (n, e # errors) | Inr didRemove \<Rightarrow> (of_bool didRemove + n, errors), a)))"

fun removeOrphanUploadTempFiles ::
    "upload_env \<Rightarrow> gotime \<Rightarrow> upload_root list \<Rightarrow> agent \<Rightarrow> (nat \<times> runtime_error list) \<times> agent" where
  "removeOrphanUploadTempFiles ev cutoff [] a = ((0, []), a)"
| "removeOrphanUploadTempFiles ev cutoff (root # roots) a =
     (let root = normalizedUploadRootConfig root in
      case (case uploadTempDirExists root (agFiles a) of
              Inl e \<Rightarrow> ((0, [e]), a)
            | Inr False \<Rightarrow> ((0, []), a)
            | Inr True \<Rightarrow>
                (case uploadTempAbsoluteDir root of
                   Inl e \<Rightarrow> ((0, [e]), a)
                 | Inr tempDir \<Rightarrow>
                     let dir = abs_segs tempDir
                     in removeOrphansIn ev dir cutoff (readDir ev dir (agFiles a)) a)) of
        ((n, errors), a) \<Rightarrow>
          (case removeOrphanUploadTempFiles ev cutoff roots a of
             ((m, es), a) \<Rightarrow> ((n + m, errors @ es), a)))"

record maintenance_result =
  mrRemovedSessions :: nat
  mrRemovedCommitEvents :: nat
  mrRemovedResetEvents :: nat
  mrRemovedTempFiles :: nat
  mrRemovedOrphanTempFiles :: nat
  mrTempCleanupErrors :: "runtime_error list"

definition RunUploadMaintenanceOnce :: "upload_env \<Rightarrow> gotime \<Rightarrow> agent \<Rightarrow> maintenance_result \<times> agent" where
  "RunUploadMaintenanceOnce ev now a =
     (let input = maintenance_input now in
      case maintainSessions ev input (UploadCleanupCandidates (evNow ev) input (agUploads a)) (0, 0, []) a of
        ((removedSessions, removedFiles, errors), a) \<Rightarrow>
          (case CleanupUploadEvents (evNow ev) input (agUploads a) of
             (events, db) \<Rightarrow>
               (case removeOrphanUploadTempFiles ev (now - uploadMaintenanceOrphanTempRetention) (agRoots a)
                       (a\<lparr>agUploads := db\<rparr>) of
                  ((orphans, es), a) \<Rightarrow>
                    (\<lparr>mrRemovedSessions = removedSessions,
                      mrRemovedCommitEvents = krRemovedCommitEvents events,
                      mrRemovedResetEvents = krRemovedResetEvents events,
                      mrRemovedTempFiles = removedFiles, mrRemovedOrphanTempFiles = orphans,
                      mrTempCleanupErrors = errors @ es\<rparr>, a))))"

section \<open>Administration\<close>

definition UpdateDevice :: "upload_env \<Rightarrow> string \<Rightarrow> string \<Rightarrow> agent \<Rightarrow> device_record agent_result" where
  "UpdateDevice ev deviceID deviceName a =
     andThen (onRegistry (RenameDevice deviceID deviceName (evNow ev) (evRegistryFault ev)) a) (\<lambda>device a.
     andThen (ensuredProfile ev device a) (\<lambda>_ a. (Inr device, a)))"

definition deviceUploadPolicyResponse ::
    "upload_env \<Rightarrow> device_record \<Rightarrow> device_profile \<Rightarrow> agent \<Rightarrow>
     (device_record \<times> device_upload_profile \<times> upload_status) agent_result" where
  "deviceUploadPolicyResponse ev device profile a =
     (case deviceUploadPolicyStatus ev (dpUpload profile) a of
        (status, a) \<Rightarrow> (Inr (device, dpUpload profile, status), a))"

definition DeviceUploadPolicy ::
    "upload_env \<Rightarrow> string \<Rightarrow> agent \<Rightarrow> (device_record \<times> device_upload_profile \<times> upload_status) agent_result" where
  "DeviceUploadPolicy ev deviceID a =
     andThen (deviceProfile ev deviceID a) (\<lambda>(device, profile) a.
       deviceUploadPolicyResponse ev device profile a)"

definition normalizedDeviceUploadPolicy ::
    "device_upload_profile \<Rightarrow> agent \<Rightarrow> (runtime_error, device_upload_profile) result" where
  "normalizedDeviceUploadPolicy input a =
     (let rootKey = trim_space (duRootKey input);
          pathPattern = trim_space (duPathPattern input);
          pathPattern = (if pathPattern = [] then defaultUploadPathPattern else pathPattern) in
      if \<not> validateUploadPathPattern pathPattern then Inl ErrUploadPolicyInvalid
      else if duEnabled input \<and> rootKey = [] then Inl ErrUploadRootNotFound
      else if rootKey \<noteq> [] \<and> \<not> uploadRootConfigured rootKey a then Inl ErrUploadRootNotFound
      else Inr (input\<lparr>duRootKey := rootKey, duPathPattern := pathPattern\<rparr>))"

definition UpdateDeviceUploadPolicy ::
    "upload_env \<Rightarrow> string \<Rightarrow> device_upload_profile \<Rightarrow> agent \<Rightarrow>
     (device_record \<times> device_upload_profile \<times> upload_status) agent_result" where
  "UpdateDeviceUploadPolicy ev deviceID input a =
     andThen (deviceRecord (evNow ev) deviceID a) (\<lambda>device a.
     andThen (normalizedDeviceUploadPolicy input a, a) (\<lambda>upload a.
     andThen (ensuredProfile ev device a) (\<lambda>_ a.
     andThen (onProfiles (UpdateUploadProfile (evProfileFault ev) (devDeviceID device) upload (evNow ev)) a)
       (\<lambda>profile a. deviceUploadPolicyResponse ev device profile a))))"

record upload_reset_response =
  rsResult :: upload_reset_result
  rsRemovedTempFiles :: nat
  rsTempCleanupErrors :: "runtime_error list"

definition resetDeviceUploadState ::
    "upload_env \<Rightarrow> bool \<Rightarrow> upload_reset_input \<Rightarrow> agent \<Rightarrow> upload_reset_response agent_result" where
  "resetDeviceUploadState ev requireDateRange input a =
     (if requireDateRange \<and> (riCapturedAfter input = None \<or> riCapturedBefore input = None)
      then (Inl ErrUploadResetRangeRequired, a)
      else if (case (riCapturedAfter input, riCapturedBefore input) of
                 (Some after, Some before) \<Rightarrow> \<not> after < before | _ \<Rightarrow> False)
      then (Inl ErrUploadResetInvalid, a)
      else andThen (onUploads (ResetDeviceUploadState (evNow ev) (evBlob ev) (input\<lparr>riNow := evNow ev\<rparr>)) a)
        (\<lambda>result a.
          case removeTempFiles ev (rrTempFiles result) a of
            ((n, errors), a) \<Rightarrow>
              (Inr \<lparr>rsResult = result, rsRemovedTempFiles = n, rsTempCleanupErrors = errors\<rparr>, a)))"

definition agent_ResetDeviceUploadState ::
    "upload_env \<Rightarrow> upload_reset_input \<Rightarrow> agent \<Rightarrow> upload_reset_response agent_result" where
  "agent_ResetDeviceUploadState ev input a =
     (let input = input\<lparr>riDeviceID := trim_space (riDeviceID input)\<rparr> in
      if riDeviceID input = [] then (Inl (RegistryError ErrDeviceNotFound), a)
      else andThen (deviceRecord (evNow ev) (riDeviceID input) a) (\<lambda>_ a.
        resetDeviceUploadState ev True input a))"

text \<open>
  \<open>RevokeDevice\<close>: a device that is already gone is cleaned up again, and the registry's
  verdict is returned in the end. Closing the device's connections is not part of the state.
\<close>

definition agent_RevokeDevice :: "upload_env \<Rightarrow> string \<Rightarrow> agent \<Rightarrow> unit agent_result" where
  "agent_RevokeDevice ev deviceID a =
     (let deviceID = trim_space deviceID in
      case onRegistry (Registry.RevokeDevice deviceID (evNow ev) (evRegistryFault ev)) a of
        (registryErr, a) \<Rightarrow>
          if registryErr \<notin> {Inr (), Inl (RegistryError ErrDeviceNotFound)} then (registryErr, a)
          else
            (case resetDeviceUploadState ev False
                    \<lparr>riDeviceID = deviceID, riCapturedAfter = None, riCapturedBefore = None, riReason = [],
                     riNow = evNow ev\<rparr> a of
               (Inl e, a) \<Rightarrow> (Inl e, a)
             | (Inr _, a) \<Rightarrow>
                 andThen (onProfiles (DeleteProfile (evProfileFault ev) deviceID) a) (\<lambda>_ a.
                   (registryErr, a))))"

end
