(* ===== verification/Upload_Path_Theorems.thy ===== *)
theory Upload_Path_Theorems
  imports Upload_Paths
begin

text \<open>
  Where uploads can end up: every path the agent renders for an upload stays inside the
  upload root, made of segments that are harmless on any file system; the numbered
  alternatives of a path are as safe and pairwise different; and a temporary file is always
  directly inside the temporary directory.
\<close>

section \<open>Harmless segments\<close>

definition ok_char :: "char \<Rightarrow> bool" where
  "ok_char c \<longleftrightarrow> \<not> (byte_in 0x00 0x1F c \<or> c = CHR 0x7F \<or> c \<in> set forbidden_chars)"

definition safe_segment :: "string \<Rightarrow> bool" where
  "safe_segment s \<longleftrightarrow> s \<noteq> [] \<and> list_all ok_char s
     \<and> hd s \<notin> {CHR '' '', CHR ''.''} \<and> last s \<notin> {CHR '' '', CHR ''.''}"

lemma high_ok: "byte_in 0x80 0xFF c \<Longrightarrow> ok_char c"
proof -
  assume h: "byte_in 0x80 0xFF c"
  have "c \<notin> set (CHR 0x7F # forbidden_chars)"
  proof
    assume "c \<in> set (CHR 0x7F # forbidden_chars)"
    moreover have "list_all (\<lambda>c. \<not> byte_in 0x80 0xFF c) (CHR 0x7F # forbidden_chars)" by code_simp
    ultimately show False using h by (auto simp: list_all_iff)
  qed
  with h show ?thesis by (auto simp: ok_char_def byte_in_def)
qed

lemma char_bound: "of_char c \<le> (255 :: nat)"
  using nat_of_char_less_256 [of c] by linarith

lemma byte_in_high: "byte_in lo hi c \<Longrightarrow> 0x80 \<le> lo \<Longrightarrow> byte_in 0x80 0xFF c"
  using char_bound [of c] by (auto simp: byte_in_def)

text \<open>A rune is one byte, or several bytes outside ASCII.\<close>

lemma rune_width_cases:
  assumes "s \<noteq> []" and "rune_width s \<noteq> 0"
  shows "(\<exists>c. take (rune_width s) s = [c]) \<or> list_all (byte_in 0x80 0xFF) (take (rune_width s) s)"
proof -
  obtain c cs where s: "s = c # cs" using assms(1) by (cases s) auto
  consider "byte_in 0x00 0x7F c" | "byte_in 0xC2 0xDF c" "\<not> byte_in 0x00 0x7F c"
    | "byte_in 0xE0 0xEF c" "\<not> byte_in 0x00 0x7F c" "\<not> byte_in 0xC2 0xDF c"
    | "byte_in 0xF0 0xF4 c" "\<not> byte_in 0x00 0x7F c" "\<not> byte_in 0xC2 0xDF c" "\<not> byte_in 0xE0 0xEF c"
    using assms(2) s by (auto simp: rune_width_def split: if_splits)
  then show ?thesis
  proof cases
    case 1
    then show ?thesis by (simp add: s rune_width_def)
  next
    case 2
    then obtain d ds where "cs = d # ds" "byte_in 0x80 0xBF d" "rune_width s = 2"
      using assms(2) by (auto simp: s rune_width_def split: list.splits if_splits)
    with 2 show ?thesis by (simp add: s byte_in_high)
  next
    case 3
    then obtain d e ds where "cs = d # e # ds" "rune_width s = 3" "byte_in 0x80 0xBF e"
      "byte_in (if c = CHR 0xE0 then 0xA0 else 0x80) (if c = CHR 0xED then 0x9F else 0xBF) d"
      using assms(2) by (auto simp: s rune_width_def split: list.splits if_splits)
    moreover from this(4) have "byte_in 0x80 0xFF d" by (rule byte_in_high) simp
    ultimately show ?thesis using 3 by (simp add: s byte_in_high)
  next
    case 4
    then obtain d e f ds where "cs = d # e # f # ds" "rune_width s = 4" "byte_in 0x80 0xBF e" "byte_in 0x80 0xBF f"
      "byte_in (if c = CHR 0xF0 then 0x90 else 0x80) (if c = CHR 0xF4 then 0x8F else 0xBF) d"
      using assms(2) by (auto simp: s rune_width_def split: list.splits if_splits)
    moreover from this(5) have "byte_in 0x80 0xFF d" by (rule byte_in_high) simp
    ultimately show ?thesis using 4 by (simp add: s byte_in_high)
  qed
qed

lemma runes_shape:
  "r \<in> set (runes s) \<Longrightarrow> (\<exists>c. r = [c]) \<or> list_all (byte_in 0x80 0xFF) r"
proof (induction s rule: runes.induct)
  case (1 s)
  have "list_all (byte_in 0x80 0xFF) rune_error" by code_simp
  with 1 rune_width_cases [of s] show ?case
    by (subst (asm) (2) runes.simps) (auto split: if_splits)
qed

lemma sanitize_runes_ok:
  "\<forall>r\<in>set rs. (\<exists>c. r = [c]) \<or> list_all (byte_in 0x80 0xFF) r \<Longrightarrow> list_all ok_char (sanitize_runes b rs)"
proof (induction b rs rule: sanitize_runes.induct)
  case (2 b r rs)
  have "ok_char (CHR ''_'')" by code_simp
  moreover have "list_all ok_char r" if "\<not> replaced_rune r"
    using "2.prems" that high_ok
    by (auto simp: replaced_rune_def ok_char_def list_all_iff split: list.splits)
  ultimately show ?case using 2 by auto
qed simp

lemma trim_set_sub: "set (trim_set cs s) \<subseteq> set s"
  by (auto simp: trim_set_def dest!: set_dropWhileD)

lemma trim_set_ends:
  assumes "trim_set cs s \<noteq> []"
  shows "hd (trim_set cs s) \<notin> set cs" and "last (trim_set cs s) \<notin> set cs"
proof -
  let ?a = "dropWhile (\<lambda>c. c \<in> set cs) s"
  let ?b = "dropWhile (\<lambda>c. c \<in> set cs) (rev ?a)"
  have b: "?b \<noteq> []" using assms by (simp add: trim_set_def)
  then show "last (trim_set cs s) \<notin> set cs"
    using hd_dropWhile [of "\<lambda>c. c \<in> set cs" "rev ?a"] by (simp add: trim_set_def last_rev)
  obtain ys where "rev ?a = ys @ ?b" by (metis takeWhile_dropWhile_id)
  then have a: "?a = rev ?b @ rev ys" by (metis rev_append rev_rev_ident)
  then have "hd (rev ?b) = hd ?a" using b by (metis hd_append2 rev_is_Nil_conv)
  moreover have "?a \<noteq> []" using a b by (metis append_is_Nil_conv rev_is_Nil_conv)
  ultimately show "hd (trim_set cs s) \<notin> set cs"
    using hd_dropWhile [of "\<lambda>c. c \<in> set cs" s] by (simp add: trim_set_def)
qed

lemma sanitize_safe: "safe_segment (sanitizeUploadPathSegment v)"
proof -
  let ?s = "trim_set '' .'' (sanitize_runes False (runes (trim_space v)))"
  have "safe_segment ''_''" by code_simp
  moreover have "safe_segment ?s" if "?s \<noteq> []"
  proof -
    have "list_all ok_char (sanitize_runes False (runes (trim_space v)))"
      by (rule sanitize_runes_ok) (auto dest: runes_shape)
    then have "list_all ok_char ?s" using trim_set_sub by (fastforce simp: list_all_iff)
    then show ?thesis using that trim_set_ends [OF that] by (simp add: safe_segment_def)
  qed
  ultimately show ?thesis by (auto simp: sanitizeUploadPathSegment_def Let_def)
qed

lemma safe_segment_good: "safe_segment s \<Longrightarrow> good_seg s"
  by (auto simp: safe_segment_def good_seg_def)

lemma safe_segment_free: "safe_segment s \<Longrightarrow> slash \<notin> set s"
  by (auto simp: safe_segment_def list_all_iff ok_char_def forbidden_chars_def)

text \<open>A path made of harmless segments.\<close>

definition safe_path :: "string \<Rightarrow> bool" where
  "safe_path p \<longleftrightarrow> list_all safe_segment (split_on slash p)"

lemma safe_path_rel: "safe_path p \<Longrightarrow> safe_rel p"
  by (auto simp: safe_path_def safe_rel_def list_all_iff intro: safe_segment_good)

lemma safe_path_join:
  assumes "segs \<noteq> []" and "list_all safe_segment segs"
  shows "safe_path (join_with [slash] segs)" and "split_on slash (join_with [slash] segs) = segs"
proof -
  show *: "split_on slash (join_with [slash] segs) = segs"
    using assms by (intro split_join) (auto simp: list_all_iff dest: safe_segment_free)
  show "safe_path (join_with [slash] segs)" using assms(2) by (simp add: safe_path_def *)
qed

text \<open>What the checks of the code accept is what stays below its directory.\<close>

lemma rel_checks:
  assumes "safe_rel p"
  shows "p \<noteq> ''.''" and "\<not> path_IsAbs p" and "\<not> has_prefix p ''../''" and "p \<noteq> ''..''"
proof -
  show "p \<noteq> ''.''" "p \<noteq> ''..''" using assms by (auto simp: safe_rel_def good_seg_def)
  show "\<not> path_IsAbs p" by (rule safe_rel_not_abs [OF assms])
  show "\<not> has_prefix p ''../''"
  proof
    assume "has_prefix p ''../''"
    then obtain t where "p = ''..'' @ slash # t" by (auto simp: has_prefix_def prefixb_prefix prefix_def)
    then have "''..'' \<in> set (split_on slash p)" by (simp add: split_on_append)
    with assms show False by (auto simp: safe_rel_def good_seg_def list_all_iff)
  qed
qed

lemma rendered_path_is_safe_fact:
  "case renderUploadFinalRelativePath order zone profile session now of
     Inl e \<Rightarrow> e = ErrUploadPolicyInvalid
       \<and> \<not> validateUploadPathPattern (trim_space (duPathPattern (dpUpload profile)))
   | Inr p \<Rightarrow> safe_path p"
proof -
  define pattern where "pattern = trim_space (duPathPattern (dpUpload profile))"
  define pattern' where "pattern' = (if pattern = [] then defaultUploadPathPattern else pattern)"
  define rendered where "rendered = fold (\<lambda>token. replace_all (''{'' @ token @ ''}'')
      (sanitizeUploadPathSegment (upload_value profile session
        (local_date zone (case usCapturedAt session of None \<Rightarrow> now | Some t \<Rightarrow> t)) token))) order pattern'"
  define segs where "segs = map sanitizeUploadPathSegment (split_on slash rendered)"
  have unfolded: "renderUploadFinalRelativePath order zone profile session now =
     (if \<not> validateUploadPathPattern pattern' then Inl ErrUploadPolicyInvalid
      else if list_ex (\<lambda>seg. seg = ''.'' \<or> seg = ''..'') segs then Inl ErrUploadPolicyInvalid
      else let relativePath = path_Clean (join_with [slash] segs) in
          if relativePath = ''.'' \<or> path_IsAbs relativePath \<or> has_prefix relativePath ''../''
             \<or> relativePath = ''..''
          then Inl ErrUploadPolicyInvalid else Inr relativePath)"
    unfolding renderUploadFinalRelativePath_def segs_def rendered_def pattern'_def pattern_def Let_def by (rule refl)
  have segs: "segs \<noteq> []" "list_all safe_segment segs"
    by (auto simp: segs_def list_all_iff sanitize_safe)
  note safe = safe_path_join [OF segs]
  have rel: "safe_rel (join_with [slash] segs)" by (rule safe_path_rel [OF safe(1)])
  note c = safe_rel_Clean [OF rel]
  have dots: "\<not> list_ex (\<lambda>seg. seg = ''.'' \<or> seg = ''..'') segs"
    using segs(2) by (auto simp: list_ex_iff list_all_iff safe_segment_def)
  have ok: "renderUploadFinalRelativePath order zone profile session now =
      (if validateUploadPathPattern pattern' then Inr (join_with [slash] segs) else Inl ErrUploadPolicyInvalid)"
    unfolding unfolded Let_def c using dots rel_checks [OF rel] by simp
  have default: "validateUploadPathPattern defaultUploadPathPattern" by code_simp
  have empty: "\<not> validateUploadPathPattern []" by (simp add: validateUploadPathPattern_def)
  show ?thesis
  proof (cases "validateUploadPathPattern pattern'")
    case True
    then show ?thesis
      unfolding ok using safe(1) by simp
  next
    case False
    then have "\<not> validateUploadPathPattern pattern"
      using default by (auto simp: pattern'_def split: if_splits)
    with False show ?thesis unfolding ok by (simp add: pattern_def)
  qed
qed

text \<open>
  C36. Rendering the final path of an upload fails only for a pattern that validation
  rejects; otherwise, whatever the device, the asset and its file name are called and in
  whatever order the tokens are replaced, the path is relative, clean and made of non-empty
  segments without control characters, separators or characters that file systems reserve,
  none of which begins or ends with a blank or a dot, so it never leaves the upload root.
\<close>

theorem rendered_path_is_safe:
  "case renderUploadFinalRelativePath order zone profile session now of
     Inl e \<Rightarrow> e = ErrUploadPolicyInvalid
       \<and> \<not> validateUploadPathPattern (trim_space (duPathPattern (dpUpload profile)))
   | Inr p \<Rightarrow> safe_path p \<and> path_Clean p = p \<and> \<not> path_IsAbs p
       \<and> (\<forall>root. path_IsAbs root \<longrightarrow> path_Rel root (path_Join [root, p]) = Some p)"
  using rendered_path_is_safe_fact [where order = order and zone = zone and profile = profile and session = session and now = now] safe_path_rel safe_rel_Clean
    safe_rel_not_abs Rel_child
  by (auto split: sum.splits)

definition ex_upload_profile :: device_profile where
  "ex_upload_profile = \<lparr>dpVersion = 1, dpDeviceID = ''d1'', dpDeviceName = ''../My: Phone'', dpCreatedAt = 0,
     dpUpload = \<lparr>duEnabled = True, duRootKey = ''r'', duPathPattern = ''{deviceName}/{yyyy}/{filename}'',
                 duCapturedAfter = None, duUpdatedAt = 1\<rparr>\<rparr>"

definition ex_named :: "string \<Rightarrow> upload_session" where
  "ex_named name = \<lparr>usUploadID = ''upl_1'', usDeviceID = ''d1'', usSourceAssetID = ''a1'',
     usSourceAssetVersion = ''v1'', usStatus = SessionActive, usMediaType = ''photo'',
     usOriginalFilename = name, usCapturedAt = None, usExpectedSizeBytes = None, usNextOffset = 0,
     usSelectedRootKey = ''r'', usTempRelativePath = ''t/upl_1.part'', usFinalRelativePath = [],
     usLastError = [], usCreatedAt = 1, usUpdatedAt = 1, usExpiresAt = None\<rparr>"

theorem rendered_path_is_safe_witness:
  "\<exists>p. renderUploadFinalRelativePath upload_tokens (\<lambda>_. 0) ex_upload_profile (ex_named ''../x..'') 0 = Inr p
     \<and> safe_path p \<and> path_Rel ''/up'' (path_Join [''/up'', p]) = Some p"
proof -
  have "validateUploadPathPattern (trim_space (duPathPattern (dpUpload ex_upload_profile)))" by code_simp
  moreover have "path_IsAbs ''/up''" by code_simp
  ultimately show ?thesis
    using rendered_path_is_safe [where order = upload_tokens and zone = "\<lambda>_. 0" and profile = ex_upload_profile
        and session = "ex_named ''../x..''" and now = 0]
    by (auto split: sum.splits)
qed

section \<open>Numbered alternatives\<close>

lemma decimal_nonempty: "decimal n \<noteq> []"
  by (subst decimal.simps) simp

lemma decimal_inj: "decimal m = decimal n \<longleftrightarrow> m = n"
proof
  have val: "of_char (digit_char a) = 48 + a" if "a < 10" for a :: nat
    using that by (simp add: digit_char_def of_char_of)
  have digit: "digit_char a = digit_char b \<Longrightarrow> a < 10 \<Longrightarrow> b < 10 \<Longrightarrow> a = b" for a b
    by (metis val add_left_cancel)
  have short: "length (decimal k) = 1 \<longleftrightarrow> k < 10" for k
    by (subst decimal.simps) (simp add: decimal_nonempty)
  show "decimal m = decimal n \<Longrightarrow> m = n"
  proof (induction m arbitrary: n rule: decimal.induct)
    case (1 m)
    show ?case
    proof (cases "m < 10")
      case True
      then have "n < 10" using "1.prems" short by metis
      with True "1.prems" digit show ?thesis by (simp add: decimal.simps)
    next
      case False
      then have n: "\<not> n < 10" using "1.prems" short by metis
      have "decimal (m div 10) @ [digit_char (m mod 10)] = decimal (n div 10) @ [digit_char (n mod 10)]"
        using "1.prems" False n by (simp add: decimal.simps [of m] decimal.simps [of n])
      then have "m div 10 = n div 10" "m mod 10 = n mod 10"
        using "1.IH" False digit by auto
      then show ?thesis by (metis div_mult_mod_eq)
    qed
  qed
qed simp

lemma split_on_append_free: "c \<notin> set t \<Longrightarrow> split_on c (s @ t) = butlast (split_on c s) @ [last (split_on c s) @ t]"
proof (induction s)
  case Nil
  then show ?case by (simp add: split_on_none)
next
  case (Cons x s)
  obtain w ws where "split_on c s = w # ws" by (cases "split_on c s") auto
  with Cons show ?case by (cases ws) auto
qed

lemma join_with_snoc: "ws \<noteq> [] \<Longrightarrow> join_with sep (ws @ [w]) = join_with sep ws @ sep @ w"
  by (induction sep ws rule: join_with.induct) auto

lemma path_Ext_last: "\<exists>base. last (split_on slash p) = base @ path_Ext p \<and> slash \<notin> set (path_Ext p)
    \<and> path_Ext p \<in> {[]} \<union> range ((#) (CHR ''.''))"
proof -
  let ?n = "last (split_on slash p)"
  have free: "slash \<notin> set ?n" by (rule split_on_free) (rule last_in_set, simp)
  show ?thesis
  proof (cases "CHR ''.'' \<in> set ?n")
    case True
    let ?w = "split_on (CHR ''.'') ?n"
    have "butlast ?w \<noteq> []"
    proof
      assume "butlast ?w = []"
      then obtain x where w: "?w = [x]" by (metis append_butlast_last_id append_Nil split_on_nonempty)
      then have "x = ?n" using join_split [of "CHR ''.''" ?n] by simp
      then show False using split_on_free [of x "CHR ''.''" ?n] w True by simp
    qed
    have "?n = join_with ''.'' ?w" by (simp add: join_split)
    also have "\<dots> = join_with ''.'' (butlast ?w) @ ''.'' @ last ?w"
      using join_with_snoc [OF \<open>butlast ?w \<noteq> []\<close>, of "''.''" "last ?w"] by simp
    finally have n: "?n = join_with ''.'' (butlast ?w) @ CHR ''.'' # last ?w" by simp
    moreover have "slash \<notin> set (CHR ''.'' # last ?w)" using n free by (metis Un_iff set_append)
    ultimately show ?thesis using True unfolding path_Ext_def Let_def by auto
  next
    case False
    then show ?thesis by (simp add: path_Ext_def Let_def)
  qed
qed

lemma ex_base:
  obtains pre where "p = pre @ path_Ext p" "last (split_on slash p) = last (split_on slash pre) @ path_Ext p"
    "butlast (split_on slash pre) = butlast (split_on slash p)"
proof -
  obtain b where b: "last (split_on slash p) = b @ path_Ext p" "slash \<notin> set (path_Ext p)"
    using path_Ext_last by blast
  have "slash \<notin> set b" using b(1) split_on_free [OF last_in_set [OF split_on_nonempty [of slash p]]] by auto
  let ?ws = "butlast (split_on slash p) @ [b]"
  have free: "\<forall>w\<in>set ?ws. slash \<notin> set w"
    using \<open>slash \<notin> set b\<close> by (auto dest: in_set_butlastD split_on_free)
  have s: "split_on slash (join_with [slash] ?ws) = ?ws" using free by (intro split_join) auto
  have "split_on slash (join_with [slash] ?ws @ path_Ext p) = butlast ?ws @ [last ?ws @ path_Ext p]"
    using split_on_append_free [OF b(2), of "join_with [slash] ?ws"] by (simp only: s)
  also have "\<dots> = split_on slash p" using b(1) by (metis append_butlast_last_id butlast_snoc last_snoc split_on_nonempty)
  finally have "join_with [slash] ?ws @ path_Ext p = p" by (metis join_split)
  then show thesis using that [of "join_with [slash] ?ws"] s b(1) by simp
qed

lemma decimal_ok:
  assumes "c \<in> set (decimal n)"
  shows "ok_char c" and "c \<notin> {CHR '' '', CHR ''.'', slash}"
proof -
  have "is_digit c" using decimal_digits assms by blast
  moreover have "list_all (\<lambda>c. \<not> is_digit c) (CHR 0x7F # CHR '' '' # CHR ''.'' # forbidden_chars)" by code_simp
  ultimately show "ok_char c" "c \<notin> {CHR '' '', CHR ''.'', slash}"
    by (auto simp: ok_char_def list_all_iff is_digit_def byte_in_def forbidden_chars_def)
qed

lemma numbered_segment:
  assumes "safe_segment (x @ e)" and "x \<noteq> []"
  shows "safe_segment (x @ CHR ''-'' # decimal n @ e)"
proof -
  have "ok_char (CHR ''-'')" by code_simp
  then have "list_all ok_char (x @ CHR ''-'' # decimal n @ e)"
    using assms(1) decimal_ok(1) unfolding safe_segment_def list_all_iff by auto
  moreover have "last (x @ CHR ''-'' # decimal n @ e) \<notin> {CHR '' '', CHR ''.''}"
  proof (cases "e = []")
    case True
    then have "last (x @ CHR ''-'' # decimal n @ e) = last (decimal n)" using decimal_nonempty [of n] by simp
    then show ?thesis using decimal_ok(2) last_in_set [OF decimal_nonempty [of n]] by auto
  next
    case False
    then have "last (x @ CHR ''-'' # decimal n @ e) = last (x @ e)" by simp
    then show ?thesis using assms(1) by (simp add: safe_segment_def)
  qed
  ultimately show ?thesis using assms by (simp add: safe_segment_def)
qed

lemma suffixed_facts:
  assumes "safe_path p"
  shows suffixed_safe: "safe_path (suffixedUploadRelativePath p i)"
    and suffixed_dir: "butlast (split_on slash (suffixedUploadRelativePath p i)) = butlast (split_on slash p)"
    and suffixed_ext: "has_suffix (suffixedUploadRelativePath p i) (path_Ext p)"
    and suffixed_inj: "suffixedUploadRelativePath p i = suffixedUploadRelativePath p j \<longleftrightarrow> i = j"
proof -
  obtain pre where pre: "p = pre @ path_Ext p" "last (split_on slash p) = last (split_on slash pre) @ path_Ext p"
    "butlast (split_on slash pre) = butlast (split_on slash p)" by (rule ex_base)
  define sfx where "sfx k = (if k = 0 then [] else ''-'' @ decimal (k + 1))" for k :: nat
  have suf: "suffixedUploadRelativePath p k = pre @ sfx k @ path_Ext p" for k
  proof -
    have "take (length p - length (path_Ext p)) p = pre" by (subst (3) pre(1), subst pre(1)) simp
    then show ?thesis using pre(1) by (simp add: suffixedUploadRelativePath_def sfx_def Let_def)
  qed
  obtain b where ext: "slash \<notin> set (path_Ext p)" "path_Ext p \<in> {[]} \<union> range ((#) (CHR ''.''))"
    using path_Ext_last by blast
  have free: "slash \<notin> set (sfx k @ path_Ext p)" for k
    using ext(1) decimal_ok(2) [of slash "k + 1"] by (auto simp: sfx_def)
  have split: "split_on slash (suffixedUploadRelativePath p k)
      = butlast (split_on slash p) @ [last (split_on slash pre) @ sfx k @ path_Ext p]" for k
    unfolding suf using split_on_append_free [OF free] pre(3) by simp
  have seg: "safe_segment (last (split_on slash pre) @ path_Ext p)"
    using assms last_in_set [OF split_on_nonempty [of slash p]] pre(2) by (auto simp: safe_path_def list_all_iff)
  then have base: "last (split_on slash pre) \<noteq> []" using ext(2) by (auto simp: safe_segment_def)
  have "safe_segment (last (split_on slash pre) @ sfx i @ path_Ext p)"
    using seg numbered_segment [OF seg base, of "i + 1"] by (simp add: sfx_def)
  then show "safe_path (suffixedUploadRelativePath p i)"
    using assms by (auto simp: safe_path_def split list_all_iff dest: in_set_butlastD)
  have "sfx i = sfx j \<longleftrightarrow> i = j" by (auto simp: sfx_def decimal_inj)
  then show "suffixedUploadRelativePath p i = suffixedUploadRelativePath p j \<longleftrightarrow> i = j" by (simp add: suf)
  show "butlast (split_on slash (suffixedUploadRelativePath p i)) = butlast (split_on slash p)"
    by (simp add: split)
  show "has_suffix (suffixedUploadRelativePath p i) (path_Ext p)"
    by (simp add: suf has_suffix_def prefixb_prefix)
qed

text \<open>
  The alternatives that are tried when a final path is taken are usable: from a harmless
  path, every numbered alternative is harmless too, stays in the same directory with the
  same extension, and no two attempts try the same path.
\<close>

theorem alternative_paths_distinct:
  assumes "safe_path p"
  shows "safe_path (suffixedUploadRelativePath p i)
    \<and> butlast (split_on slash (suffixedUploadRelativePath p i)) = butlast (split_on slash p)
    \<and> has_suffix (suffixedUploadRelativePath p i) (path_Ext p)
    \<and> (suffixedUploadRelativePath p i = suffixedUploadRelativePath p j \<longleftrightarrow> i = j)"
  using suffixed_facts [OF assms] by blast

theorem alternative_paths_distinct_witness:
  "suffixedUploadRelativePath ''a/b.jpg'' 1 = ''a/b-2.jpg'' \<and> safe_path ''a/b-2.jpg''
   \<and> suffixedUploadRelativePath ''a/b.jpg'' 1 \<noteq> suffixedUploadRelativePath ''a/b.jpg'' 2"
proof -
  have p: "safe_path ''a/b.jpg''" by code_simp
  have s: "suffixedUploadRelativePath ''a/b.jpg'' 1 = ''a/b-2.jpg''" by code_simp
  from alternative_paths_distinct [OF p, of 1 2] show ?thesis unfolding s by simp
qed

section \<open>Paths below a root\<close>

lemma IsAbs_Clean: "path_IsAbs (path_Clean p) = path_IsAbs p"
proof (cases "path_IsAbs p")
  case True
  then show ?thesis by (simp add: path_Clean_def path_IsAbs_def)
next
  case False
  show ?thesis
  proof (cases "path_Clean p = ''.''")
    case True
    with False show ?thesis by (simp add: path_IsAbs_def)
  next
    case ne: False
    let ?c = "clean_segs False [] (split_on slash p)"
    have "dots_first False ?c" by (rule clean_segs_dots) (auto simp: dots_first_def)
    then have "\<forall>w\<in>set ?c. w \<noteq> []" by (rule dots_first_nonempty)
    moreover have "?c \<noteq> []" using Clean_rel_split [OF False ne] by (metis split_on_nonempty)
    ultimately have "hd ?c \<noteq> []" by simp
    then have "hd (split_on slash (path_Clean p)) \<noteq> []" unfolding Clean_rel_split [OF False ne] .
    from hd_seg [OF this] show ?thesis using False by (simp add: path_IsAbs_def)
  qed
qed

lemma checks_iff:
  "(path_Clean p = ''.'' \<or> path_IsAbs (path_Clean p) \<or> has_prefix (path_Clean p) ''../'' \<or> path_Clean p = ''..'')
   \<longleftrightarrow> \<not> safe_rel (path_Clean p)"
  using safe_relI [of p] rel_checks [of "path_Clean p"] by (auto simp: IsAbs_Clean)

lemma child_path:
  assumes "path_IsAbs root"
  shows "uploadRootChildPath root rel =
    (if safe_rel (path_Clean (trim_space rel)) then Inr (path_Join [root, path_Clean (trim_space rel)])
     else Inl ErrUploadPolicyInvalid)"
proof (cases "safe_rel (path_Clean (trim_space rel))")
  case True
  then show ?thesis
    using Rel_child [OF assms True] rel_checks [OF True]
    by (simp add: uploadRootChildPath_def checks_iff Let_def)
next
  case False
  then show ?thesis by (simp add: uploadRootChildPath_def checks_iff Let_def)
qed

text \<open>
  Whatever relative path is asked for below an absolute upload root, the answer is an
  error or a path that extends the root by at least one proper segment: no path of an
  upload escapes its root, and a clean path below the root is never refused.
\<close>

theorem child_path_stays_in_root:
  assumes "path_IsAbs root"
  shows "(\<forall>full. uploadRootChildPath root rel = Inr full \<longrightarrow> path_IsAbs full
       \<and> (\<exists>segs. segs \<noteq> [] \<and> list_all good_seg segs \<and> abs_segs full = abs_segs root @ segs))
    \<and> (is_ok (uploadRootChildPath root rel) \<longleftrightarrow> safe_rel (path_Clean (trim_space rel)))"
  using abs_segs_Join [OF assms]
  by (auto simp: child_path [OF assms] safe_rel_def split: if_splits)

theorem child_path_stays_in_root_witness:
  "uploadRootChildPath ''/up'' ''a/./b/../c'' = Inr ''/up/a/c'' \<and> \<not> is_ok (uploadRootChildPath ''/up'' ''a/../../c'')
   \<and> abs_segs ''/up/a/c'' = abs_segs ''/up'' @ [''a'', ''c'']"
proof -
  have root: "path_IsAbs ''/up''" by code_simp
  have ok: "uploadRootChildPath ''/up'' ''a/./b/../c'' = Inr ''/up/a/c''" by code_simp
  have bad: "\<not> safe_rel (path_Clean (trim_space ''a/../../c''))" by code_simp
  have "abs_segs ''/up/a/c'' = abs_segs ''/up'' @ [''a'', ''c'']" by code_simp
  with ok bad child_path_stays_in_root [OF root, of "''a/../../c''"] show ?thesis by blast
qed

lemma temp_dir_safe:
  assumes "ValidateUploadRootTempPath value = Some dir"
  shows "safe_rel dir"
proof (cases "trim_space value = []")
  case True
  have "safe_rel DefaultUploadRootTempPath" by code_simp
  with True assms show ?thesis by (simp add: ValidateUploadRootTempPath_def)
next
  case False
  then have "dir = path_Clean (trim_space value)" "safe_rel (path_Clean (trim_space value))"
    using assms checks_iff [of "trim_space value"]
    by (auto simp: ValidateUploadRootTempPath_def Let_def split: if_splits)
  then show ?thesis by simp
qed

lemma path_Base_safe:
  assumes "safe_rel p"
  shows "path_Base p = last (split_on slash p)"
proof -
  let ?l = "last (split_on slash p)"
  have l: "?l \<noteq> []" "slash \<notin> set ?l"
    using assms last_in_set [OF split_on_nonempty [of slash p]] split_on_free [of ?l slash p]
    by (auto simp: safe_rel_def list_all_iff good_seg_def)
  have "\<exists>q. p = q @ ?l"
    using join_with_snoc [of "butlast (split_on slash p)" "[slash]" ?l] join_split [of slash p]
    by (metis append.assoc append_Nil append_butlast_last_id join_with.simps(2) split_on_nonempty)
  then obtain q where q: "p = q @ ?l" by blast
  then have "last p = last ?l" "p \<noteq> []" using l(1) by (metis last_appendR, force)
  moreover have "last ?l \<noteq> slash" using l by (metis last_in_set)
  ultimately have "trim_right slash p = p"
    by (cases p rule: rev_cases) (simp_all add: trim_right_def)
  then show ?thesis using \<open>p \<noteq> []\<close> by (simp add: path_Base_def)
qed

lemma trimmed_temp:
  assumes "trimmed dir" and "dir \<noteq> []" and "has_suffix name ''.part''"
  shows "trimmed (dir @ slash # name)"
proof -
  have no_slash: "list_all (\<lambda>p. slash \<notin> set p) space_encodings" by code_simp
  have front: "\<not> prefix p (dir @ slash # name)" if p: "p \<in> set space_encodings" for p
  proof
    assume "prefix p (dir @ slash # name)"
    then consider "prefix p dir" | "slash \<in> set p"
      by (auto simp: prefix_append prefix_Cons)
    then show False
    proof cases
      case 1
      then show ?thesis using assms(1) p by (auto simp: trimmed_def clean_iff)
    next
      case 2
      then show ?thesis using no_slash p by (auto simp: list_all_iff)
    qed
  qed
  have no_t: "list_all (\<lambda>p. p \<noteq> [] \<and> last p \<noteq> CHR ''t'') space_encodings" by code_simp
  obtain z where "rev name = rev ''.part'' @ z"
    using assms(3) unfolding has_suffix_def prefixb_prefix prefix_def by blast
  then obtain q where q: "rev name = CHR ''t'' # q" by simp
  have rear: "\<not> prefix (rev p) (rev (dir @ slash # name))" if p: "p \<in> set space_encodings" for p
    using no_t p by (cases p rule: rev_cases) (auto simp: q list_all_iff)
  show ?thesis using front rear by (auto simp: trimmed_def clean_iff)
qed

text \<open>A cleaned path whose directory is the temporary directory, and one that is accepted.\<close>

lemma temp_rel:
  assumes sd: "safe_rel dir" and c: "path_Clean p \<noteq> ''.''" "\<not> path_IsAbs p" "path_Dir (path_Clean p) = dir"
  obtains name where "path_Clean p = dir @ slash # name" "slash \<notin> set name" "safe_rel (dir @ slash # name)"
    "path_Base (path_Clean p) = name" "split_on slash (path_Clean p) = split_on slash dir @ [name]"
proof -
  let ?c = "path_Clean p"
  let ?S = "split_on slash ?c"
  have S: "dots_first False ?S"
    unfolding Clean_rel_split [OF c(2,1)] by (rule clean_segs_dots) (auto simp: dots_first_def)
  have long: "length ?S > 1"
  proof (rule ccontr)
    assume "\<not> length ?S > 1"
    then obtain x where x: "?S = [x]" by (metis One_nat_def Suc_lessI length_0_conv length_Suc_conv length_greater_0_conv split_on_nonempty)
    then have "?c = x" using join_split [of slash ?c] by simp
    then have "slash \<notin> set ?c" using split_on_free [of x slash ?c] x by simp
    then have "path_Dir ?c = ''.''" by (rule path_Dir_single)
    with c(3) have "dir = ''.''" by simp
    with sd show False by (simp add: safe_rel_def good_seg_def)
  qed
  define name where "name = last ?S"
  have free: "slash \<notin> set name" unfolding name_def by (rule split_on_free) (rule last_in_set, simp)
  have bl: "dir = join_with [slash] (butlast ?S)" using path_Dir_clean [OF S long] c(3) by simp
  have "butlast ?S \<noteq> []" using long by (cases ?S rule: rev_cases) auto
  then have cn: "?c = dir @ slash # name"
    using join_with_snoc [of "butlast ?S" "[slash]" name] join_split [of slash ?c]
    by (simp add: bl name_def)
  have splitd: "split_on slash dir = butlast ?S"
    unfolding bl using \<open>butlast ?S \<noteq> []\<close> by (intro split_join) (auto dest: in_set_butlastD split_on_free)
  have "list_all good_seg ?S"
  proof -
    obtain k gs where k: "?S = replicate k ''..'' @ gs" "list_all good_seg gs" using S by (auto simp: dots_first_def)
    have "hd ?S = hd (butlast ?S)" using long by (cases ?S; cases "tl ?S") auto
    then have "hd ?S \<noteq> ''..''"
      using sd \<open>butlast ?S \<noteq> []\<close> splitd by (auto simp: safe_rel_def list_all_iff good_seg_def dest: hd_in_set)
    then have "k = 0" using k(1) by (cases k) auto
    then show ?thesis using k by simp
  qed
  then have sc: "safe_rel ?c" by (simp add: safe_rel_def)
  have "safe_rel (dir @ slash # name)" using sc unfolding cn .
  moreover have "path_Base ?c = name" unfolding name_def by (rule path_Base_safe [OF sc])
  moreover have "?S = split_on slash dir @ [name]" by (simp add: splitd name_def)
  ultimately show thesis by (rule that [OF cn free])
qed

lemma temp_path:
  assumes root: "path_IsAbs (urPath root)" and dir: "ValidateUploadRootTempPath (urTempPath root) = Some dir"
    and t: "trim_space dir = dir" and full: "uploadTempAbsolutePath root rel = Inr full"
  obtains name where "path_Clean (trim_space rel) = dir @ slash # name" "slash \<notin> set name"
    "safe_rel (dir @ slash # name)" "has_prefix name ''upl_''" "has_suffix name ''.part''"
    "full = path_Join [urPath root, dir @ slash # name]"
    "abs_segs full = abs_segs (urPath root) @ split_on slash dir @ [name]"
proof -
  let ?c = "path_Clean (trim_space rel)"
  have c: "?c \<noteq> ''.''" "\<not> path_IsAbs (trim_space rel)" "path_Dir ?c = dir" "has_prefix (path_Base ?c) ''upl_''"
      "has_suffix (path_Base ?c) ''.part''" "uploadRootChildPath (urPath root) ?c = Inr full"
    using full dir by (auto simp: uploadTempAbsolutePath_def uploadTempRelativeDir_def Let_def IsAbs_Clean split: if_splits)
  have sd: "safe_rel dir" by (rule temp_dir_safe [OF dir])
  obtain name where n: "?c = dir @ slash # name" "slash \<notin> set name" "safe_rel (dir @ slash # name)"
      "path_Base ?c = name" "split_on slash ?c = split_on slash dir @ [name]"
    using sd c(1-3) by (rule temp_rel)
  have "dir \<noteq> []" using sd by (auto simp: safe_rel_def good_seg_def)
  moreover have "trimmed dir" using trimmed_trim_space [of dir] by (simp only: t)
  ultimately have "trimmed ?c" unfolding n(1) using c(5) n(4) by (intro trimmed_temp) simp_all
  then have "full = path_Join [urPath root, ?c]"
    using c(6) n(1,3) by (simp add: child_path [OF root] trim_space_id safe_rel_Clean split: if_splits)
  moreover have "abs_segs full = abs_segs (urPath root) @ split_on slash dir @ [name]"
    using abs_segs_Join(1) [OF root n(3)] n(1,5) calculation by simp
  moreover have "has_prefix name ''upl_''" "has_suffix name ''.part''"
    using c(4,5) unfolding n(4) by simp_all
  ultimately show thesis by (intro that [OF n(1-3)]) (simp_all only: n(1))
qed

text \<open>
  The path of a temporary file is either refused or lies directly in the temporary
  directory of its root, under a name that begins with \<open>upl_\<close> and ends with \<open>.part\<close>; so no
  appending, truncating or removing of temporary files reaches any other file, provided the
  name of the temporary directory does not begin or end with a blank.
\<close>

theorem temp_file_in_temp_dir:
  assumes "path_IsAbs (urPath root)" and "ValidateUploadRootTempPath (urTempPath root) = Some dir"
    and "trim_space dir = dir" and "uploadTempAbsolutePath root rel = Inr full"
  shows "\<exists>name. abs_segs full = abs_segs (urPath root) @ split_on slash dir @ [name]
    \<and> has_prefix name ''upl_'' \<and> has_suffix name ''.part'' \<and> slash \<notin> set name
    \<and> uploadRootChildPath (urPath root) (dir @ slash # name) = Inr full"
  using assms
proof (rule temp_path)
  fix name
  assume n: "safe_rel (dir @ slash # name)" "has_prefix name ''upl_''" "has_suffix name ''.part''" "slash \<notin> set name"
    "full = path_Join [urPath root, dir @ slash # name]"
    "abs_segs full = abs_segs (urPath root) @ split_on slash dir @ [name]"
  have "dir \<noteq> []" using temp_dir_safe [OF assms(2)] by (auto simp: safe_rel_def good_seg_def)
  moreover have "trimmed dir" using trimmed_trim_space [of dir] by (simp only: assms(3))
  ultimately have "trim_space (dir @ slash # name) = dir @ slash # name"
    using n(3) by (intro trim_space_id trimmed_temp)
  then have "uploadRootChildPath (urPath root) (dir @ slash # name) = Inr full"
    using n(1,5) by (simp add: child_path [OF assms(1)] safe_rel_Clean)
  with n show ?thesis by blast
qed

definition ex_root :: upload_root where
  "ex_root = \<lparr>urKey = ''r'', urPath = ''/up'', urTempPath = ''tmp/x/'', urOwnerUser = [], urOwnerGroup = []\<rparr>"

theorem temp_file_in_temp_dir_witness:
  "uploadTempAbsolutePath ex_root ''tmp/x/upl_1.part'' = Inr ''/up/tmp/x/upl_1.part''
   \<and> (\<exists>name. abs_segs ''/up/tmp/x/upl_1.part'' = [''up'', ''tmp'', ''x'', name])"
proof -
  have h: "path_IsAbs (urPath ex_root)" "ValidateUploadRootTempPath (urTempPath ex_root) = Some ''tmp/x''"
    "trim_space ''tmp/x'' = ''tmp/x''"
    by code_simp+
  have ok: "uploadTempAbsolutePath ex_root ''tmp/x/upl_1.part'' = Inr ''/up/tmp/x/upl_1.part''" by code_simp
  have "abs_segs (urPath ex_root) = [''up'']" "split_on slash ''tmp/x'' = [''tmp'', ''x'']" by code_simp+
  with ok temp_file_in_temp_dir [OF h ok] show ?thesis by auto
qed

lemma default_temp_dir_unsafe: "\<not> safe_path DefaultUploadRootTempPath"
  by code_simp

lemma dirs_apart:
  assumes "\<not> safe_path dir" and "safe_path p"
  shows "\<not> prefix (split_on slash dir) (split_on slash p)"
  using assms by (auto simp: safe_path_def list_all_iff dest: set_mono_prefix)

text \<open>
  C37. With the default temporary directory, as with every one that has a segment beginning
  with a dot, no final path of an upload and none of its alternatives lies in the temporary
  directory, so cleaning up temporary files never touches an uploaded original.
\<close>

theorem finals_outside_hidden_temp_dir:
  assumes "path_IsAbs (urPath root)" and "ValidateUploadRootTempPath (urTempPath root) = Some dir"
    and "trim_space (urTempPath root) = [] \<or> (\<exists>seg\<in>set (split_on slash dir). hd seg = CHR ''.'')"
    and "renderUploadFinalRelativePath order zone profile session now = Inr p"
  shows "\<not> prefix (abs_segs (urPath root) @ split_on slash dir)
      (abs_segs (path_Join [urPath root, suffixedUploadRelativePath p n]))"
proof -
  have "safe_path p" using rendered_path_is_safe_fact [where order = order and zone = zone and profile = profile and session = session and now = now] assms(4) by simp
  then have p: "safe_path (suffixedUploadRelativePath p n)" by (rule suffixed_safe)
  have "\<not> safe_path dir"
    using assms(2,3) default_temp_dir_unsafe
    by (auto simp: ValidateUploadRootTempPath_def safe_path_def safe_segment_def list_all_iff)
  from dirs_apart [OF this p] show ?thesis
    unfolding abs_segs_Join(1) [OF assms(1) safe_path_rel [OF p]] by simp
qed

theorem finals_outside_hidden_temp_dir_witness:
  "\<exists>p. renderUploadFinalRelativePath upload_tokens (\<lambda>_. 0) ex_upload_profile (ex_named ''x.jpg'') 0 = Inr p
     \<and> \<not> prefix [''up'', DefaultUploadRootTempPath] (abs_segs (path_Join [''/up'', suffixedUploadRelativePath p 2]))"
proof -
  let ?root = "ex_root\<lparr>urTempPath := []\<rparr>"
  have "validateUploadPathPattern (trim_space (duPathPattern (dpUpload ex_upload_profile)))" by code_simp
  then obtain p where p: "renderUploadFinalRelativePath upload_tokens (\<lambda>_. 0) ex_upload_profile (ex_named ''x.jpg'') 0 = Inr p"
    using rendered_path_is_safe_fact [where order = upload_tokens and zone = "\<lambda>_. 0" and profile = ex_upload_profile
        and session = "ex_named ''x.jpg''" and now = 0]
    by (auto split: sum.splits)
  have h: "path_IsAbs (urPath ?root)" "ValidateUploadRootTempPath (urTempPath ?root) = Some DefaultUploadRootTempPath"
    "trim_space (urTempPath ?root) = [] \<or> (\<exists>seg\<in>set (split_on slash DefaultUploadRootTempPath). hd seg = CHR ''.'')"
    by code_simp+
  have s: "abs_segs ''/up'' = [''up'']" "split_on slash DefaultUploadRootTempPath = [DefaultUploadRootTempPath]"
    "urPath ?root = ''/up''"
    by code_simp+
  show ?thesis using p finals_outside_hidden_temp_dir [OF h p, of 2] unfolding s(2,3) s(1) by auto
qed

lemma replace_absent: "old \<noteq> [] \<Longrightarrow> hd old \<notin> set s \<Longrightarrow> replace_all old new s = s"
proof (induction s)
  case (Cons c s)
  then have "\<not> prefixb old (c # s)" by (cases old) auto
  then show ?case using Cons by (subst replace_all.simps) simp
qed (simp add: replace_all.simps)

lemma replace_other:
  assumes "c \<noteq> CHR ''f''"
  shows "replace_all (CHR ''{'' # c # old) new ''tmp/{filename}'' = ''tmp/{filename}''"
proof -
  have "replace_all (CHR ''{'' # c # old) new ''filename}'' = ''filename}''"
    by (rule replace_absent) simp_all
  with assms show ?thesis by (simp add: replace_all.simps [of _ _ "x # xs" for x xs])
qed

lemma replace_filename: "replace_all ''{filename}'' new ''tmp/{filename}'' = ''tmp/'' @ new"
  by (simp add: replace_all.simps [of _ _ "x # xs" for x xs] replace_all.simps [of _ _ "[]"])

definition ex_tmp_profile :: device_profile where
  "ex_tmp_profile = ex_upload_profile\<lparr>dpUpload := (dpUpload ex_upload_profile)\<lparr>duPathPattern := ''tmp/{filename}''\<rparr>\<rparr>"

lemma ex_tmp_rendered:
  "fold (\<lambda>token. replace_all (''{'' @ token @ ''}'') (sanitizeUploadPathSegment
      (upload_value ex_tmp_profile (ex_named ''upl_beach.part'') date token))) upload_tokens ''tmp/{filename}''
   = ''tmp/upl_beach.part''"
proof -
  have v: "sanitizeUploadPathSegment (upload_value ex_tmp_profile (ex_named ''upl_beach.part'') date ''filename'')
      = ''upl_beach.part''"
  proof -
    have "sanitizeUploadPathSegment ''upl_beach.part'' = ''upl_beach.part''" by code_simp
    then show ?thesis by (cases date) (simp add: upload_value_def ex_named_def Let_def)
  qed
  have after: "replace_all (CHR ''{'' # t) new ''tmp/upl_beach.part'' = ''tmp/upl_beach.part''" for t new
    by (rule replace_absent) simp_all
  show ?thesis
    using replace_filename [of "''upl_beach.part''"]
    unfolding upload_tokens_def by (simp add: v replace_other after)
qed


end
