(* ===== verification/Upload_Frame.thy ===== *)
theory Upload_Frame
  imports Upload_Admin Upload_Path_Theorems
begin

text \<open>
  What the upload operations leave alone. The relation \<open>fs_ext\<close> says how a file system may
  change: outside the temporary directories nothing that exists is removed or replaced, and
  a file none of whose names lies in a temporary directory keeps its bytes and gets no name
  there. Every operation extends the file system in this sense.
\<close>

section \<open>Looking up\<close>

definition dirs_above :: "filesystem \<Rightarrow> string list \<Rightarrow> bool" where
  "dirs_above fs p \<longleftrightarrow> (\<forall>k\<in>{1..<length p}. fsNames fs (take k p) = Some DirNode)"

lemma lstat_Inr:
  "lstat fs p = Inr n \<longleftrightarrow> dirs_above fs p \<and> (if p = [] then n = DirNode else fsNames fs p = Some n)"
proof (cases "dirs_above fs p")
  case True
  then have "find (\<lambda>q. fsNames fs q \<noteq> Some DirNode) (map (\<lambda>k. take k p) [1..<length p]) = None"
    by (auto simp: dirs_above_def find_None_iff)
  with True show ?thesis by (auto simp: lstat_def split: option.splits)
next
  case False
  then have "find (\<lambda>q. fsNames fs q \<noteq> Some DirNode) (map (\<lambda>k. take k p) [1..<length p]) \<noteq> None"
    by (auto simp: dirs_above_def find_None_iff)
  with False show ?thesis by (auto simp: lstat_def)
qed

lemma dirs_above_butlast:
  assumes "lstat fs (butlast p) = Inr DirNode" and "p \<noteq> []"
  shows "dirs_above fs p"
  unfolding dirs_above_def
proof
  fix k assume k: "k \<in> {1..<length p}"
  show "fsNames fs (take k p) = Some DirNode"
  proof (cases "k = length p - 1")
    case True
    then have "take k p = butlast p" "butlast p \<noteq> []"
      using k by (auto simp: butlast_conv_take)
    with assms(1) show ?thesis by (simp add: lstat_Inr)
  next
    case False
    with k have "take k p = take k (butlast p)" "k \<in> {1..<length (butlast p)}"
      by (auto simp: take_butlast)
    with assms(1) show ?thesis by (simp add: lstat_Inr dirs_above_def)
  qed
qed

lemma lstat_missing:
  assumes "lstat fs p = Inl ErrNotExist" and "dirs_above fs p"
  shows "fsNames fs p = None" and "p \<noteq> []"
  using assms lstat_Inr [of fs p] by (cases "p = []"; cases "fsNames fs p"; force)+

section \<open>How a file system may change\<close>

definition outside :: "(string list \<Rightarrow> bool) \<Rightarrow> filesystem \<Rightarrow> nat \<Rightarrow> bool" where
  "outside T fs i \<longleftrightarrow> i < fsNext fs \<and> (\<forall>p. fsNames fs p = Some (FileNode i) \<longrightarrow> \<not> T p)"

definition fs_ext :: "(string list \<Rightarrow> bool) \<Rightarrow> filesystem \<Rightarrow> filesystem \<Rightarrow> bool" where
  "fs_ext T fs fs' \<longleftrightarrow>
     (\<forall>p n. fsNames fs p = Some n \<longrightarrow> \<not> T p \<longrightarrow> fsNames fs' p = Some n) \<and>
     (\<forall>i. outside T fs i \<longrightarrow> outside T fs' i \<and> fsBytes fs' i = fsBytes fs i)"

lemma fs_ext_refl [simp]: "fs_ext T fs fs"
  by (simp add: fs_ext_def)

lemma fs_ext_trans: "fs_ext T a b \<Longrightarrow> fs_ext T b c \<Longrightarrow> fs_ext T a c"
  by (auto simp: fs_ext_def)

text \<open>The elementary changes.\<close>

lemma fs_ext_add_dir: "fsNames fs p = None \<Longrightarrow> fs_ext T fs (set_name p (Some DirNode) fs)"
  by (auto simp: fs_ext_def set_name_def outside_def)

lemma fs_ext_create: "fsNames fs p = None \<Longrightarrow> fs_ext T fs (create_file p fs)"
  by (auto simp: fs_ext_def create_file_def outside_def Let_def)

lemma fs_ext_remove: "T p \<Longrightarrow> fs_ext T fs (set_name p None fs)"
  by (auto simp: fs_ext_def set_name_def outside_def)

lemma fs_ext_bytes: "fsNames fs p = Some (FileNode i) \<Longrightarrow> T p \<Longrightarrow> fs_ext T fs (set_bytes i b fs)"
  by (auto simp: fs_ext_def set_bytes_def outside_def)

lemma fs_ext_link:
  "fsNames fs p = Some (FileNode i) \<Longrightarrow> T p \<Longrightarrow> fsNames fs q = None \<Longrightarrow>
   fs_ext T fs (set_name q (Some (FileNode i)) fs)"
  by (auto simp: fs_ext_def set_name_def outside_def)

section \<open>Operations on files\<close>

lemma snd_andThen_ext:
  assumes "fs_ext T fs (snd r)" and "\<And>x fs1. r = (Inr x, fs1) \<Longrightarrow> fs_ext T fs fs1 \<Longrightarrow> fs_ext T fs (snd (f x fs1))"
  shows "fs_ext T fs (snd (andThen r f))"
  using assms by (cases r; cases "fst r") auto

lemma ext_createUploadDirectory:
  assumes "lstat fs directory = Inl ErrNotExist"
  shows "fs_ext T fs (snd (createUploadDirectory io root directory fs))"
proof (cases "lstat fs (butlast directory) = Inr DirNode")
  case True
  have "directory \<noteq> []" using assms by (auto simp: lstat_def)
  with True have "fsNames fs directory = None"
    using lstat_missing(1) [OF assms] dirs_above_butlast by blast
  then show ?thesis by (simp add: createUploadDirectory_def Let_def fs_ext_add_dir)
qed (simp add: createUploadDirectory_def)

lemma ext_ensure_dirs: "fs_ext T fs (snd (ensure_dirs io root current segments fs))"
proof (induction io root current segments fs rule: ensure_dirs.induct)
  case (2 io root current segment segments fs)
  let ?c = "current @ [segment]"
  show ?case
  proof (cases "lstat fs ?c")
    case (Inl e)
    show ?thesis
    proof (cases "e = ErrNotExist")
      case True
      have "fs_ext T fs (snd (createUploadDirectory io root ?c fs))"
        using Inl True by (simp add: ext_createUploadDirectory)
      then have "fs_ext T fs (snd (andThen (createUploadDirectory io root ?c fs)
          (\<lambda>_ fs. ensure_dirs io root ?c segments fs)))"
        using "2.IH"(1) [OF refl Inl] True by (auto intro!: snd_andThen_ext intro: fs_ext_trans)
      then show ?thesis by (simp add: Inl True Let_def)
    qed (simp add: Inl Let_def)
  next
    case (Inr n)
    then show ?thesis using "2.IH"(2) [OF refl Inr] by simp
  qed
qed simp

lemma ext_ensureUploadDirectory: "fs_ext T fs (snd (ensureUploadDirectory io root rel fs))"
  by (simp add: ensureUploadDirectory_def Let_def ext_ensure_dirs)

lemma ext_ensureUploadTempDir: "fs_ext T fs (snd (ensureUploadTempDir io root fs))"
  by (cases "uploadTempRelativeDir root") (simp_all add: ensureUploadTempDir_def ext_ensureUploadDirectory)

lemma ext_uploadRootStatus: "fs_ext T fs (snd (uploadRootStatus io root fs))"
proof -
  let ?r = "normalizedUploadRootConfig root"
  have "fs_ext T fs (snd (ensureUploadTempDir io ?r fs))" by (rule ext_ensureUploadTempDir)
  then show ?thesis by (auto simp: uploadRootStatus_def Let_def split: sum.splits prod.splits)
qed

lemma prepare_result:
  assumes "prepareUploadTempFile io root t offset fs = (Inr i, fs')"
  obtains full where "uploadTempAbsolutePath root t = Inr full" "fsNames fs' (abs_segs full) = Some (FileNode i)"
    "length (fsBytes fs' i) = offset" "lstat fs' (abs_segs full) = Inr (FileNode i)"
proof -
  obtain full where full: "uploadTempAbsolutePath root t = Inr full"
    using assms by (auto simp: prepareUploadTempFile_def andThen_Inr)
  obtain s where "(case lstat s (abs_segs full) of
        Inr (FileNode i) \<Rightarrow> (if length (fsBytes s i) \<noteq> offset then Inl ErrUploadOffsetConflict else Inr i, s)
      | Inr _ \<Rightarrow> (Inl ErrUploadPolicyInvalid, s) | Inl e \<Rightarrow> (Inl e, s)) = (Inr i, fs')"
    using assms full by (auto simp: prepareUploadTempFile_def andThen_Inr Let_def)
  then have "lstat fs' (abs_segs full) = Inr (FileNode i) \<and> length (fsBytes fs' i) = offset"
    by (auto split: sum.splits fs_node.splits if_splits)
  moreover from this have "fsNames fs' (abs_segs full) = Some (FileNode i)"
    by (auto simp: lstat_Inr split: if_splits)
  ultimately show thesis using full that by blast
qed

lemma ext_prepare: "fs_ext T fs (snd (prepareUploadTempFile io root t offset fs))"
  unfolding prepareUploadTempFile_def Let_def
proof (intro snd_andThen_ext)
  fix tempPath fs1
  have "fs_ext T fs1 (snd (ensureUploadTempDir io root fs1))" by (rule ext_ensureUploadTempDir)
  moreover assume "(uploadTempAbsolutePath root t, fs) = (Inr tempPath, fs1)"
  ultimately show "fs_ext T fs (snd (ensureUploadTempDir io root fs1))" by simp
next
  fix tempPath fs1 u fs2
  let ?p = "abs_segs tempPath"
  assume e: "fs_ext T fs fs2"
  have "fs_ext T fs2 (create_file ?p fs2)"
    if "lstat fs2 ?p = Inl ErrNotExist" "lstat fs2 (butlast ?p) = Inr DirNode"
  proof -
    have "?p \<noteq> []" using that(1) by (auto simp: lstat_def)
    then show ?thesis using that lstat_missing(1) dirs_above_butlast fs_ext_create by blast
  qed
  with e show "fs_ext T fs (snd (case lstat fs2 ?p of
        Inl e \<Rightarrow> if e \<noteq> ErrNotExist then (Inl e, fs2)
                 else if ioCreateFails io then (Inl ErrOS, fs2)
                 else if lstat fs2 (butlast ?p) \<noteq> Inr DirNode then (Inl ErrNotExist, fs2)
                 else (Inr (), create_file ?p fs2)
      | Inr n \<Rightarrow> (if n = OtherNode \<or> n = DirNode then Inl ErrUploadPolicyInvalid else Inr (), fs2)))"
    by (auto split: sum.splits intro: fs_ext_trans)
qed (auto split: sum.splits fs_node.splits)

lemma ext_appendChunk:
  assumes "\<And>full. uploadTempAbsolutePath root t = Inr full \<Longrightarrow> T (abs_segs full)"
  shows "fs_ext T fs (snd (appendUploadChunkToTemp sha1 io root t offset body n fs))"
  unfolding appendUploadChunkToTemp_def
proof (rule snd_andThen_ext [OF ext_prepare])
  fix i fs1
  assume p: "prepareUploadTempFile io root t offset fs = (Inr i, fs1)" and e: "fs_ext T fs fs1"
  obtain full where full: "uploadTempAbsolutePath root t = Inr full" "fsNames fs1 (abs_segs full) = Some (FileNode i)"
    by (rule prepare_result [OF p])
  have b: "fs_ext T fs (set_bytes i x fs1)" "fs_ext T fs (set_bytes i y (set_bytes i x fs1))" for x y
  proof -
    have 1: "fs_ext T fs1 (set_bytes i x fs1)" using full assms by (intro fs_ext_bytes) auto
    have "fs_ext T (set_bytes i x fs1) (set_bytes i y (set_bytes i x fs1))"
      using full assms by (intro fs_ext_bytes [of _ "abs_segs full"]) (auto simp: set_bytes_def)
    with e 1 show "fs_ext T fs (set_bytes i x fs1)" "fs_ext T fs (set_bytes i y (set_bytes i x fs1))"
      by (auto intro: fs_ext_trans)
  qed
  show "fs_ext T fs (snd (if ioOpenFails io then (Inl ErrOS, fs1)
      else andThen (applyUploadOwnership io root, fs1) (\<lambda>_ fs.
        let limited = take (nat (n + 1)) body;
            copied = (case ioWritten io of None \<Rightarrow> limited | Some k \<Rightarrow> take k limited);
            fs = set_bytes i (write_at offset copied (fsBytes fs i)) fs;
            undone = (if ioTruncateFails io then fs else set_bytes i (truncate_at offset (fsBytes fs i)) fs)
        in if ioWritten io \<noteq> None then (Inl ErrOS, undone)
           else if int (length copied) \<noteq> n then (Inl ErrUploadRequestInvalid, undone)
           else if ioSyncFails io then (Inl ErrOS, undone)
           else (Inr (length copied, hex_encode (sha1 copied)), fs))))"
    using e b by (cases "applyUploadOwnership io root") (simp_all add: Let_def)
qed

lemma ext_truncate:
  assumes "\<And>full. uploadTempAbsolutePath root t = Inr full \<Longrightarrow> T (abs_segs full)"
  shows "fs_ext T fs (truncateUploadTempFile io root t offset fs)"
proof (cases "uploadTempAbsolutePath root t")
  case (Inr full)
  show ?thesis
  proof (cases "\<exists>i. lstat fs (abs_segs full) = Inr (FileNode i)")
    case True
    then obtain i where i: "lstat fs (abs_segs full) = Inr (FileNode i)" by blast
    then have "fsNames fs (abs_segs full) = Some (FileNode i)" by (auto simp: lstat_Inr split: if_splits)
    with Inr i assms show ?thesis
      by (auto simp: truncateUploadTempFile_def intro: fs_ext_bytes)
  next
    case False
    with Inr show ?thesis
      by (auto simp: truncateUploadTempFile_def split: sum.splits fs_node.splits)
  qed
qed (simp add: truncateUploadTempFile_def)

lemma ext_removeTemp:
  assumes "\<And>dir. uploadTempRelativeDir root = Inr dir \<Longrightarrow> path_Clean (trim_space rel) \<noteq> ''.'' \<Longrightarrow>
      \<not> path_IsAbs (path_Clean (trim_space rel)) \<Longrightarrow> path_Dir (path_Clean (trim_space rel)) = dir \<Longrightarrow>
      T (abs_segs (path_Join [urPath root, path_Clean (trim_space rel)]))"
  shows "fs_ext T fs (snd (removeUploadTempFile io root rel fs))"
  using assms unfolding removeUploadTempFile_def Let_def
  by (intro snd_andThen_ext) (auto intro!: snd_andThen_ext fs_ext_remove split: sum.splits)

lemma ext_link_file:
  assumes "T old"
  shows "fs_ext T fs (snd (link_file io attempt old new fs))"
proof -
  have "fs_ext T fs (set_name new (Some (FileNode i)) fs)"
    if "lstat fs old = Inr (FileNode i)" "lstat fs new = Inl ErrNotExist" "lstat fs (butlast new) = Inr DirNode" for i
  proof -
    have "fsNames fs old = Some (FileNode i)" using that(1) by (auto simp: lstat_Inr split: if_splits)
    moreover have "new \<noteq> []" using that(2) by (auto simp: lstat_def)
    then have "fsNames fs new = None" using that lstat_missing(1) dirs_above_butlast by blast
    ultimately show ?thesis using assms by (intro fs_ext_link)
  qed
  then show ?thesis by (auto simp: link_file_def split: sum.splits fs_node.splits)
qed

lemma ext_finalize:
  assumes T: "\<And>full. uploadTempAbsolutePath root t = Inr full \<Longrightarrow> T (abs_segs full)"
  shows "fs_ext T fs (snd (finalizeUploadFile io attempt root t final fs))"
proof -
  have step: "fs_ext T fs (snd (andThen (link_file io attempt (abs_segs full) q fs1)
      (\<lambda>_ fs. if ioRemoveFails io then (Inl ErrOS, fs) else (Inr (), set_name (abs_segs full) None fs))))"
    if "uploadTempAbsolutePath root t = Inr full" "fs_ext T fs fs1" for full q fs1
  proof -
    have t: "T (abs_segs full)" by (rule T [OF that(1)])
    have "fs_ext T fs (snd (link_file io attempt (abs_segs full) q fs1))"
      using that(2) ext_link_file [of T "abs_segs full"] t by (blast intro: fs_ext_trans)
    moreover have "fs_ext T x (set_name (abs_segs full) None x)" for x by (rule fs_ext_remove) (rule t)
    ultimately show ?thesis by (auto intro!: snd_andThen_ext intro: fs_ext_trans)
  qed
  show ?thesis
    unfolding finalizeUploadFile_def
    by (intro snd_andThen_ext)
      (auto intro!: snd_andThen_ext step intro: fs_ext_trans [OF _ ext_ensureUploadDirectory])
qed

section \<open>Places of temporary files\<close>

definition roots_ok :: "upload_root list \<Rightarrow> bool" where
  "roots_ok roots \<longleftrightarrow>
     list_all (\<lambda>r. path_IsAbs (urPath r)
       \<and> (case ValidateUploadRootTempPath (urTempPath r) of None \<Rightarrow> True | Some dir \<Rightarrow> trim_space dir = dir)) roots"

definition temp_place :: "upload_root list \<Rightarrow> string list \<Rightarrow> bool" where
  "temp_place roots p \<longleftrightarrow>
     list_ex (\<lambda>r. case ValidateUploadRootTempPath (urTempPath r) of
         None \<Rightarrow> False
       | Some dir \<Rightarrow> p \<noteq> [] \<and> butlast p = abs_segs (urPath r) @ split_on slash dir) roots"

text \<open>A root as the operations see it.\<close>

definition root_of :: "upload_root list \<Rightarrow> upload_root \<Rightarrow> bool" where
  "root_of roots root \<longleftrightarrow> root \<in> normalizedUploadRootConfig ` set roots"

lemma Validate_again:
  assumes "ValidateUploadRootTempPath value = Some dir" and "trim_space dir = dir"
  shows "ValidateUploadRootTempPath dir = Some dir"
proof -
  have s: "safe_rel dir" by (rule temp_dir_safe [OF assms(1)])
  then have "dir \<noteq> []" "path_Clean dir = dir" by (auto simp: safe_rel_Clean safe_rel_def good_seg_def)
  moreover have "CHR 0x5C \<notin> set dir"
  proof (cases "trim_space value = []")
    case True
    have "CHR 0x5C \<notin> set DefaultUploadRootTempPath" by code_simp
    with True assms(1) show ?thesis by (simp add: ValidateUploadRootTempPath_def)
  next
    case False
    then have d: "dir = path_Clean (trim_space value)" and b: "CHR 0x5C \<notin> set (trim_space value)"
      using assms(1) by (auto simp: ValidateUploadRootTempPath_def Let_def split: if_splits)
    have parts: "set p \<subseteq> set v" if "p \<in> set (split_on slash v)" for p v
      using that
      by (induction v arbitrary: p) (force split: if_splits list.splits)+
    have "CHR 0x5C \<notin> set (join_with [slash] ps)" if "\<forall>p\<in>set ps. CHR 0x5C \<notin> set p" for ps
      using that by (induction "[slash]" ps rule: join_with.induct) auto
    moreover have "\<forall>p\<in>set (clean_segs r [] (split_on slash (trim_space value))). CHR 0x5C \<notin> set p" for r
      using clean_segs_set [of r "[]" "split_on slash (trim_space value)"] parts b by fastforce
    ultimately show ?thesis unfolding d path_Clean_def Let_def by auto
  qed
  ultimately show ?thesis
    using s checks_iff [of dir] assms(2) by (simp add: ValidateUploadRootTempPath_def Let_def)
qed

lemma root_of_dir:
  assumes "roots_ok roots" and "root_of roots root" and "uploadTempRelativeDir root = Inr dir"
  shows "path_IsAbs (urPath root)" "ValidateUploadRootTempPath (urTempPath root) = Some dir" "trim_space dir = dir"
    "\<exists>r\<in>set roots. ValidateUploadRootTempPath (urTempPath r) = Some dir \<and> urPath r = urPath root"
proof -
  obtain r where r: "r \<in> set roots" "root = normalizedUploadRootConfig r" using assms(2) by (auto simp: root_of_def)
  have ok: "path_IsAbs (urPath r)" using assms(1) r(1) by (auto simp: roots_ok_def list_all_iff)
  have dir: "ValidateUploadRootTempPath (urTempPath root) = Some dir"
    using assms(3) by (simp add: uploadTempRelativeDir_def split: option.splits)
  show "path_IsAbs (urPath root)" using ok by (simp add: r(2) normalizedUploadRootConfig_def Let_def split: option.splits)
  show "ValidateUploadRootTempPath (urTempPath root) = Some dir" by (rule dir)
  have "\<exists>d. ValidateUploadRootTempPath (urTempPath r) = Some d"
    using dir by (cases "ValidateUploadRootTempPath (urTempPath r)") (simp_all add: r(2) normalizedUploadRootConfig_def Let_def)
  then obtain d where d: "ValidateUploadRootTempPath (urTempPath r) = Some d" by blast
  then have td: "trim_space d = d" using assms(1) r(1) by (auto simp: roots_ok_def list_all_iff)
  have "urTempPath root = d" "urPath root = urPath r" using d by (simp_all add: r(2) normalizedUploadRootConfig_def Let_def)
  with Validate_again [OF d td] dir have "dir = d" by simp
  with td d r(1) \<open>urPath root = urPath r\<close>
  show "trim_space dir = dir" "\<exists>r\<in>set roots. ValidateUploadRootTempPath (urTempPath r) = Some dir \<and> urPath r = urPath root"
    by auto
qed

lemma temp_placeI:
  assumes "r \<in> set roots" "ValidateUploadRootTempPath (urTempPath r) = Some dir" "urPath r = path"
  shows "temp_place roots (abs_segs path @ split_on slash dir @ [name])"
proof -
  have "butlast (abs_segs path @ split_on slash dir @ [name]) = abs_segs path @ split_on slash dir"
    by (metis append.assoc butlast_snoc)
  with assms show ?thesis by (auto simp: temp_place_def list_ex_iff intro!: bexI [of _ r])
qed

lemma temp_absolute:
  assumes "roots_ok roots" and "root_of roots root" and "uploadTempAbsolutePath root t = Inr full"
  shows "temp_place roots (abs_segs full)"
proof -
  obtain dir where dir: "uploadTempRelativeDir root = Inr dir"
    using assms(3) by (cases "uploadTempRelativeDir root") (simp_all add: uploadTempAbsolutePath_def Let_def)
  note d = root_of_dir [OF assms(1,2) dir]
  from d(4) obtain r where r: "r \<in> set roots" "ValidateUploadRootTempPath (urTempPath r) = Some dir"
    "urPath r = urPath root" by blast
  from d(1-3) assms(3) show ?thesis
  proof (rule temp_path)
    fix name
    assume "abs_segs full = abs_segs (urPath root) @ split_on slash dir @ [name]"
    then show ?thesis using temp_placeI [OF r] by simp
  qed
qed

lemma temp_relative:
  assumes "roots_ok roots" and "root_of roots root" and "uploadTempRelativeDir root = Inr dir"
    and "path_Clean p \<noteq> ''.''" "\<not> path_IsAbs (path_Clean p)" "path_Dir (path_Clean p) = dir"
  shows "temp_place roots (abs_segs (path_Join [urPath root, path_Clean p]))"
proof -
  note d = root_of_dir [OF assms(1-3)]
  from d(4) obtain r where r: "r \<in> set roots" "ValidateUploadRootTempPath (urTempPath r) = Some dir"
    "urPath r = urPath root" by blast
  have na: "\<not> path_IsAbs p" using assms(5) by (simp add: IsAbs_Clean)
  from temp_dir_safe [OF d(2)] assms(4) na assms(6) show ?thesis
  proof (rule temp_rel)
    fix name
    assume n: "path_Clean p = dir @ slash # name" "safe_rel (dir @ slash # name)"
      "split_on slash (path_Clean p) = split_on slash dir @ [name]"
    have "abs_segs (path_Join [urPath root, path_Clean p]) = abs_segs (urPath root) @ split_on slash dir @ [name]"
      using abs_segs_Join(1) [OF d(1), of "path_Clean p"] n by simp
    then show ?thesis using temp_placeI [OF r] by simp
  qed
qed

lemma temp_dir_entry:
  assumes "roots_ok roots" and "root_of roots root" and "uploadTempAbsoluteDir root = Inr tempDir"
  shows "temp_place roots (abs_segs tempDir @ [name])"
proof -
  obtain dir where dir: "uploadTempRelativeDir root = Inr dir"
    using assms(3) by (cases "uploadTempRelativeDir root") (simp_all add: uploadTempAbsoluteDir_def)
  note d = root_of_dir [OF assms(1,2) dir]
  from d(4) obtain r where r: "r \<in> set roots" "ValidateUploadRootTempPath (urTempPath r) = Some dir"
    "urPath r = urPath root" by blast
  have s: "safe_rel dir" by (rule temp_dir_safe [OF d(2)])
  have "tempDir = path_Join [urPath root, dir]"
    using assms(3) dir d(3) s by (simp add: uploadTempAbsoluteDir_def child_path [OF d(1)] safe_rel_Clean)
  then have "abs_segs tempDir = abs_segs (urPath root) @ split_on slash dir"
    using abs_segs_Join(1) [OF d(1) s] by simp
  then show ?thesis using temp_placeI [OF r] by simp
qed

end
