(* ===== verification/Upload_Safety.thy ===== *)
theory Upload_Safety
  imports Upload_Frame Registry_Theorems
begin

text \<open>
  The step relation of all upload operations over the agent, and what no sequence of them
  does: change a file that is not a temporary one. Every operation of \<open>Upload_Runtime\<close> and
  \<open>Upload_Admin\<close> is a step, in every environment, so with every fault and after every crash.
\<close>

section \<open>One operation\<close>

named_theorems ext_ops \<open>upload operations extend the file system\<close>

definition extends :: "agent \<Rightarrow> agent \<Rightarrow> bool" where
  "extends a b \<longleftrightarrow> agRoots b = agRoots a \<and> fs_ext (temp_place (agRoots a)) (agFiles a) (agFiles b)"

definition safe_op :: "(agent \<Rightarrow> 'a \<times> agent) \<Rightarrow> bool" where
  "safe_op f \<longleftrightarrow> (\<forall>a. roots_ok (agRoots a) \<longrightarrow> extends a (snd (f a)))"

lemma safe_opD: "safe_op f \<Longrightarrow> roots_ok (agRoots a) \<Longrightarrow> extends a (snd (f a))"
  by (simp add: safe_op_def)

lemma extends_refl [simp]: "extends a a"
  by (simp add: extends_def)

lemma extends_trans: "extends a b \<Longrightarrow> extends b c \<Longrightarrow> extends a c"
  by (auto simp: extends_def intro: fs_ext_trans)

lemma extends_same: "agRoots b = agRoots a \<Longrightarrow> agFiles b = agFiles a \<Longrightarrow> extends a b"
  by (simp add: extends_def)

lemma safe_after:
  assumes "safe_op f" and "extends a b" and "roots_ok (agRoots a)"
  shows "extends a (snd (f b))"
proof -
  have "roots_ok (agRoots b)" using assms(2,3) by (simp add: extends_def)
  then have "extends b (snd (f b))" using assms(1) by (simp add: safe_op_def)
  with assms(2) show ?thesis by (rule extends_trans)
qed

lemma safe_snd: "safe_op f \<Longrightarrow> roots_ok (agRoots a) \<Longrightarrow> f a = (r, b) \<Longrightarrow> extends a b"
  by (auto simp: safe_op_def)

lemma extends_andThen:
  assumes "extends a (snd r)" and "\<And>x b. r = (Inr x, b) \<Longrightarrow> extends a b \<Longrightarrow> extends a (snd (f x b))"
  shows "extends a (snd (andThen r f))"
  using assms by (cases r; cases "fst r") auto

lemma safe_andThen [ext_ops]:
  assumes "safe_op f" and "\<And>c x. safe_op (g c x)"
  shows "safe_op (\<lambda>a. andThen (f a) (g a))"
  unfolding safe_op_def
proof (intro allI impI extends_andThen)
  fix a x b assume a: "roots_ok (agRoots a)" and "f a = (Inr x, b)" and "extends a b"
  then show "extends a (snd (g a x b))" using assms(2) safe_after by blast
qed (use assms(1) in \<open>auto simp: safe_op_def\<close>)

lemma safe_pure [ext_ops]: "safe_op (\<lambda>a. (r a, a))"
  by (simp add: safe_op_def)

lemma safe_const [ext_ops]: "safe_op (Pair r)"
  by (simp add: safe_op_def)

lemma safe_if [ext_ops]: "safe_op f \<Longrightarrow> safe_op g \<Longrightarrow> safe_op (\<lambda>a. if P a then f a else g a)"
  by (simp add: safe_op_def)

lemma safe_onUploads [ext_ops]: "safe_op (onUploads f)"
  by (auto simp: safe_op_def onUploads_def extends_same split: prod.splits sum.splits)

lemma safe_onProfiles [ext_ops]: "safe_op (onProfiles f)"
  by (auto simp: safe_op_def onProfiles_def extends_same split: prod.splits sum.splits)

lemma safe_onRegistry [ext_ops]: "safe_op (onRegistry f)"
  by (auto simp: safe_op_def onRegistry_def extends_same split: prod.splits sum.splits)

lemma safe_lookup [ext_ops]: "safe_op (\<lambda>a. lookup (r a) a)"
  by (auto simp: safe_op_def lookup_def split: sum.splits)

lemma safe_deviceRecord [ext_ops]: "safe_op (deviceRecord now deviceID)"
  by (auto simp: safe_op_def deviceRecord_def Let_def extends_same split: prod.splits option.splits)

lemma safe_ensuredProfile [ext_ops]: "safe_op (ensuredProfile ev device)"
  unfolding ensuredProfile_def by (rule ext_ops)

lemma safe_deviceProfile [ext_ops]: "safe_op (deviceProfile ev deviceID)"
  unfolding deviceProfile_def [abs_def] by (intro ext_ops)

lemma safe_writesAvailable [ext_ops]: "safe_op (writesAvailable ev p)"
  unfolding writesAvailable_def [abs_def] by (rule ext_ops)

text \<open>A root that an operation has looked up.\<close>

lemma find_in_set: "find P xs = Some x \<Longrightarrow> x \<in> set xs"
  by (auto simp: find_Some_iff)

lemma uploadRootConfig_root: "uploadRootConfig key a = Some root \<Longrightarrow> root_of (agRoots a) root"
  by (auto simp: uploadRootConfig_def root_of_def find_Some_iff)

lemma rootByKey_root: "rootByKey roots key = Some root \<Longrightarrow> root_of roots root"
  by (auto simp: rootByKey_def root_of_def dest!: find_in_set)

section \<open>The operations\<close>

lemma extends_policyStatus:
  assumes "deviceUploadPolicyStatus ev upload a = (s, b)"
  shows "extends a b"
proof -
  have "fs_ext (temp_place (agRoots a)) (agFiles a) fs"
    if "uploadRootStatus (evIO ev) root (agFiles a) = (x, fs)" for root x fs
    using ext_uploadRootStatus [of _ "agFiles a" "evIO ev" root] that by simp
  with assms show ?thesis
    by (auto simp: deviceUploadPolicyStatus_def extends_def split: if_splits option.splits prod.splits)
qed

lemma extends_effectiveStatus:
  "deviceUploadEffectiveStatus ev upload a = (s, b) \<Longrightarrow> extends a b"
  by (auto simp: deviceUploadEffectiveStatus_def dest: extends_policyStatus split: if_splits option.splits prod.splits)

lemma context_root:
  assumes "uploadSessionContextWithCapturedAfter ev deviceID uploadID c k a = (Inr (session, Some root), b)"
  shows "root_of (agRoots b) root"
  using assms
  by (auto simp: uploadSessionContextWithCapturedAfter_def Let_def andThen_Inr uploadRootConfig_root
      split: option.splits if_splits prod.splits)

lemma active_root:
  assumes "activeUploadSessionContext ev deviceID uploadID a = (Inr (session, root), b)"
  shows "root_of (agRoots b) root"
  using assms context_root
  by (auto simp: activeUploadSessionContext_def andThen_Inr split: if_splits option.splits)

lemma safe_context [ext_ops]: "safe_op (uploadSessionContextWithCapturedAfter ev deviceID uploadID c k)"
proof -
  have "safe_op (\<lambda>a. andThen (deviceProfile ev d a) (\<lambda>(device, profile) a.
      if uploadSessionPolicyStatus (dpUpload profile) session k a \<noteq> UploadReady then (Inl ErrUploadPolicyInvalid, a)
      else case uploadRootConfig (usSelectedRootKey session) a of
        None \<Rightarrow> (Inl ErrUploadPolicyInvalid, a) | Some root \<Rightarrow> (Inr (session, Some root), a)))" for d session
    by (intro ext_ops) (auto simp: safe_op_def split: option.splits)
  then show ?thesis
    unfolding uploadSessionContextWithCapturedAfter_def Let_def safe_op_def by (simp split: option.splits)
qed

lemma safe_active [ext_ops]: "safe_op (activeUploadSessionContext ev deviceID uploadID)"
  unfolding activeUploadSessionContext_def [abs_def]
  by (intro ext_ops) (auto simp: safe_op_def split: option.splits)

lemma safe_removeTempFile:
  assumes "root_of (agRoots a) root" and "roots_ok (agRoots a)"
  shows "fs_ext (temp_place (agRoots a)) fs (snd (removeUploadTempFile io root rel fs))"
  using temp_relative [OF assms(2,1), of _ "trim_space rel"] by (intro ext_removeTemp) blast

lemma extends_files:
  assumes "fs_ext (temp_place (agRoots a)) (agFiles a) fs"
  shows "extends a (a\<lparr>agFiles := fs\<rparr>)"
  using assms by (simp add: extends_def)

lemma extends_onFiles:
  assumes "fs_ext (temp_place (agRoots a)) (agFiles a) (snd (f (agFiles a)))"
  shows "extends a (snd (onFiles f a))"
  using assms by (auto simp: onFiles_def extends_def split: prod.splits)

lemma safe_mark [ext_ops]: "safe_op (markUploaded ev assetID)"
  unfolding markUploaded_def [abs_def] by (intro ext_ops)

lemma safe_reserve [ext_ops]: "safe_op (reserveCommit ev input)"
  unfolding reserveCommit_def [abs_def] by (intro ext_ops)

lemma safe_progress [ext_ops]: "safe_op (updateProgress ev uploadID e n)"
  unfolding updateProgress_def [abs_def] by (intro ext_ops)

lemma extends_roots: "extends a b \<Longrightarrow> agRoots b = agRoots a"
  by (simp add: extends_def)

lemma extends_attempts:
  assumes "root_of (agRoots a) root" and "roots_ok (agRoots a)"
  shows "extends a (snd (finalizeAttempts ev root session base cs left attempt a))"
  using assms
proof (induction left arbitrary: attempt a)
  case (Suc left)
  let ?f = "suffixedUploadRelativePath base attempt"
  obtain r a1 where r: "reserveCommit ev (commit_input session ?f cs (evNow ev)) a = (r, a1)" by fastforce
  have e1: "extends a a1" using safe_snd [OF safe_reserve Suc.prems(2) r] .
  note r1 = extends_roots [OF e1]
  obtain r' a2 where r': "onFiles (finalizeUploadFile (evIO ev) attempt root (usTempRelativePath session) ?f) a1 = (r', a2)"
    by fastforce
  have "extends a1 a2"
    using extends_onFiles [of a1 "finalizeUploadFile (evIO ev) attempt root (usTempRelativePath session) ?f"]
      ext_finalize [of root _ "temp_place (agRoots a1)"] temp_absolute Suc.prems r' r1 by fastforce
  with e1 have e2: "extends a a2" by (rule extends_trans)
  note r2 = extends_roots [OF e2]
  have "extends a2 (snd (finalizeAttempts ev root session base cs left (attempt + 1) a2))"
    using Suc.prems r2 by (intro Suc.IH) simp_all
  with e2 have e3: "extends a (snd (finalizeAttempts ev root session base cs left (attempt + 1) a2))"
    by (rule extends_trans)
  have e4: "extends a (snd (markUploaded ev assetID a2))" for assetID
    by (rule safe_after [OF safe_mark e2 Suc.prems(2)])
  show ?case
    using e1 e2 e3 e4
    by (auto simp: Let_def r r' split: sum.splits runtime_error.splits up_error.splits option.splits)
qed simp

lemma extends_retry:
  "root_of (agRoots a) root \<Longrightarrow> roots_ok (agRoots a) \<Longrightarrow>
   extends a (snd (reserveAndFinalizeUploadWithRetry ev root session base cs a))"
  unfolding reserveAndFinalizeUploadWithRetry_def by (rule extends_attempts)

lemma extends_finish:
  assumes "root_of (agRoots a) root" and "roots_ok (agRoots a)"
  shows "extends a (snd (finishRecovered ev root asset a))"
  unfolding finishRecovered_def
proof (rule extends_andThen)
  show "extends a (snd (markUploaded ev (uaID (uaRow asset)) a))"
    using safe_mark assms(2) by (auto simp: safe_op_def)
  fix x b assume e: "extends a b"
  have "extends b (snd (onFiles (removeUploadTempFile (evIO ev) root rel) b))" for rel
    using assms extends_roots [OF e] by (intro extends_onFiles safe_removeTempFile) simp_all
  then show "extends a (snd (Inr (Some x), case GetSession (uaUploadID (uaRow asset)) (agUploads b) of None \<Rightarrow> b
      | Some session \<Rightarrow> snd (onFiles (removeUploadTempFile (evIO ev) root (usTempRelativePath session)) b)))"
    using e by (auto split: option.splits intro: extends_trans)
qed

lemma extends_fromTemp:
  assumes "root_of (agRoots a) root" and "roots_ok (agRoots a)"
  shows "extends a (snd (recoverFromTemp ev root asset a))"
proof -
  have e: "extends a b" if "reserveAndFinalizeUploadWithRetry ev root session base cs a = (r, b)" for session base cs r b
    using extends_retry [OF assms, of ev session base cs] that by simp
  show ?thesis
    by (auto simp: recoverFromTemp_def Let_def e split: option.splits sum.splits bool.splits prod.splits)
qed

lemma safe_recoverLocked [ext_ops]: "safe_op (recoverPendingUploadAssetLocked ev asset)"
  unfolding safe_op_def
proof (intro allI impI)
  fix a :: agent
  assume ok: "roots_ok (agRoots a)"
  show "extends a (snd (recoverPendingUploadAssetLocked ev asset a))"
    using extends_finish [OF uploadRootConfig_root ok] extends_fromTemp [OF uploadRootConfig_root ok]
    by (auto simp: recoverPendingUploadAssetLocked_def Let_def split: option.splits sum.splits bool.splits)
qed

lemma safe_recover [ext_ops]: "safe_op (recoverPendingUploadAsset ev asset)"
proof -
  have "safe_op (\<lambda>a. case current of None \<Rightarrow> (Inl (UploadStoreError ErrUploadedAssetNotFound), a)
      | Some asset \<Rightarrow> recoverPendingUploadAssetLocked ev asset a)" for current
    by (cases current) (simp_all add: ext_ops)
  then show ?thesis unfolding recoverPendingUploadAsset_def [abs_def] by (intro ext_ops)
qed

lemma safe_pure_option [ext_ops]:
  "(\<And>x. safe_op (f x)) \<Longrightarrow> safe_op g \<Longrightarrow> safe_op (\<lambda>a. case r a of None \<Rightarrow> g a | Some x \<Rightarrow> f x a)"
  by (auto simp: safe_op_def split: option.splits)

lemma safe_pure_sum [ext_ops]:
  "(\<And>x. safe_op (f x)) \<Longrightarrow> (\<And>e. safe_op (g e)) \<Longrightarrow> safe_op (\<lambda>a. case r a of Inl e \<Rightarrow> g e a | Inr x \<Rightarrow> f x a)"
  by (auto simp: safe_op_def split: sum.splits)

lemma safe_pair [ext_ops]: "(\<And>x y. safe_op (f x y)) \<Longrightarrow> safe_op (case p of (x, y) \<Rightarrow> f x y)"
  by (cases p) simp

lemma safe_pair_arg [ext_ops]:
  "(\<And>x y. safe_op (f x y)) \<Longrightarrow> safe_op (\<lambda>a. case p of (x, y) \<Rightarrow> f x y a)"
  by (cases p) simp

lemma safe_status [ext_ops]:
  assumes "\<And>s. safe_op (f s)"
  shows "safe_op (\<lambda>a. case deviceUploadEffectiveStatus ev upload a of (s, b) \<Rightarrow> f s b)"
    and "safe_op (\<lambda>a. case deviceUploadPolicyStatus ev upload a of (s, b) \<Rightarrow> f s b)"
  using assms extends_effectiveStatus extends_policyStatus safe_after
  unfolding safe_op_def by (simp_all split: prod.splits) blast+

lemma safe_start [ext_ops]: "safe_op (StartUploadSession ev deviceID input)"
proof -
  have "safe_op (startFresh ev input device profile)" for input device profile
    unfolding startFresh_def [abs_def] Let_def by (intro ext_ops)
  moreover have "safe_op (\<lambda>a. if P then (r, a) else f a)" if "safe_op f" for P r and f :: "agent \<Rightarrow> start_response agent_result"
    using that by (simp add: safe_op_def)
  ultimately show ?thesis
    unfolding StartUploadSession_def [abs_def] by (intro ext_ops)
qed

lemma extends_restore:
  assumes "root_of (agRoots a) root" and "roots_ok (agRoots a)"
  shows "extends a (restoreTemp ev root session offset a)"
  unfolding restoreTemp_def
  using temp_absolute [OF assms(2,1)] by (intro extends_files ext_truncate)

lemma extends_writeChunk:
  assumes "root_of (agRoots a) root" and "roots_ok (agRoots a)"
  shows "extends a (snd (writeChunk ev session root sha input body a))"
proof -
  let ?f = "appendUploadChunkToTemp (evSha1 ev) (evIO ev) root (usTempRelativePath session)
      (nat (cnOffset input)) body (cnContentLength input)"
  have 1: "extends a (snd (onFiles ?f a))"
    using temp_absolute [OF assms(2,1)] by (intro extends_onFiles ext_appendChunk)
  have 2: "extends a (restoreTemp ev root session offset b)" if "extends a b" for b offset
    using extends_restore assms extends_roots [OF that] extends_trans [OF that] by simp
  have 3: "extends a c" if "extends a b" "updateProgress ev u e n b = (r, c)" for b c u e n r
    using safe_snd [OF safe_progress _ that(2)] assms(2) extends_roots [OF that(1)] extends_trans [OF that(1)] by simp
  show ?thesis
    unfolding writeChunk_def Let_def
    by (rule extends_andThen [OF 1])
      (auto split: prod.splits sum.splits intro: 2 3)
qed

lemma safe_with_active:
  assumes "\<And>session root a. root_of (agRoots a) root \<Longrightarrow> roots_ok (agRoots a) \<Longrightarrow> extends a (snd (f session root a))"
  shows "safe_op (\<lambda>a. andThen (activeUploadSessionContext ev deviceID uploadID a) (\<lambda>(session, root). f session root))"
  unfolding safe_op_def
proof (intro allI impI extends_andThen)
  fix a x b
  assume ok: "roots_ok (agRoots a)" and c: "activeUploadSessionContext ev deviceID uploadID a = (Inr x, b)"
    and e: "extends a b"
  obtain session root where x: "x = (session, root)" by fastforce
  have "extends b (snd (f session root b))"
    using assms active_root c ok extends_roots [OF e] x by metis
  with e show "extends a (snd ((case x of (session, root) \<Rightarrow> f session root) b))"
    by (auto simp: x intro: extends_trans)
qed (use safe_active in \<open>auto simp: safe_op_def\<close>)

lemma safe_append [ext_ops]: "safe_op (AppendUploadChunk ev deviceID uploadID input)"
proof -
  have "extends a (snd (acceptChunk ev input sha body session root a))"
    if "root_of (agRoots a) root" "roots_ok (agRoots a)" for a sha body session root
    using extends_writeChunk [OF that]
    by (auto simp: acceptChunk_def writesAvailable_def split: sum.splits intro!: extends_andThen)
  from safe_with_active [OF this] show ?thesis
    unfolding AppendUploadChunk_def [abs_def] prod.case safe_op_def by (auto split: option.splits sum.splits)
qed

lemma safe_abort [ext_ops]: "safe_op (AbortUploadSession ev deviceID uploadID)"
proof -
  have "extends a (snd (abortActive ev session root a))"
    if ok: "root_of (agRoots a) root" "roots_ok (agRoots a)" for a session root
    unfolding abortActive_def
  proof (rule extends_andThen)
    let ?r = "onUploads (AbortSession (evNow ev) (usUploadID session) (usDeviceID session) (evNow ev)) a"
    show "extends a (snd ?r)" using safe_onUploads ok(2) by (auto simp: safe_op_def)
    fix x b assume e: "extends a b"
    have "extends b (snd (onFiles (removeUploadTempFile (evIO ev) root (usTempRelativePath session)) b))"
      using ok extends_roots [OF e] by (intro extends_onFiles safe_removeTempFile) simp_all
    with e show "extends a (snd (andThen (onFiles (removeUploadTempFile (evIO ev) root (usTempRelativePath session)) b)
        (\<lambda>_ a. (Inr x, a))))"
      by (auto intro!: extends_andThen intro: extends_trans)
  qed
  from safe_with_active [OF this] show ?thesis unfolding AbortUploadSession_def [abs_def] .
qed

lemma safe_complete [ext_ops]: "safe_op (CompleteUploadSession ev deviceID uploadID input)"
proof -
  have retry: "safe_op (\<lambda>a. case uploadRootConfig key a of None \<Rightarrow> (Inl ErrUploadPolicyInvalid, a) | Some root \<Rightarrow>
      if P root a then (Inl ErrUploadPolicyInvalid, a)
      else andThen (sha1File (evSha1 ev) (evIO ev) root (usTempRelativePath session) (agFiles a), a)
        (\<lambda>(tempSize, tempSHA1) a.
          if Q tempSize then (Inl ErrUploadRequestInvalid, a)
          else if tempSize \<noteq> usNextOffset session then (Inl ErrUploadOffsetConflict, a)
          else if tempSHA1 \<noteq> sha then (Inl ErrUploadChecksumMismatch, a)
          else andThen (R, a) (\<lambda>base a. reserveAndFinalizeUploadWithRetry ev root session base cs a)))"
    for key P session Q sha R cs
    unfolding safe_op_def
    by (auto split: option.splits intro!: extends_andThen extends_retry uploadRootConfig_root)
  have "safe_op (completeFresh ev deviceID session sha)" for session sha
    unfolding completeFresh_def [abs_def] by (intro ext_ops retry)
  moreover have "safe_op (\<lambda>a. uploadSessionForComplete d u a)" for d u
    by (auto simp: safe_op_def uploadSessionForComplete_def split: option.splits)
  moreover have "safe_op (\<lambda>a. case r of None \<Rightarrow> (Inl ErrUploadRequestInvalid, a) | Some x \<Rightarrow> (Inr x, a))"
    for r :: "uploaded_asset option"
    by (auto simp: safe_op_def split: option.splits)
  ultimately show ?thesis
    unfolding CompleteUploadSession_def [abs_def] Let_def by (intro ext_ops)
qed

section \<open>Views, clean-up and administration\<close>

lemma safe_appState [ext_ops]: "safe_op (AppUploadState ev deviceID)"
  unfolding AppUploadState_def [abs_def] Let_def by (intro ext_ops)

lemma safe_check [ext_ops]: "safe_op (CheckUploads ev deviceID items)"
  unfolding CheckUploads_def [abs_def] by (intro ext_ops)

lemma ext_removeUploadTempFiles:
  assumes "roots_ok roots"
  shows "fs_ext (temp_place roots) fs (snd (removeUploadTempFiles io roots files fs))"
proof (induction files arbitrary: fs)
  case (Cons f files)
  have one: "fs_ext (temp_place roots) fs fs'" if "rootByKey roots key = Some root"
    "removeUploadTempFile io root rel fs = (r, fs')" for key root rel r fs'
  proof -
    have "root_of roots root" by (rule rootByKey_root [OF that(1)])
    then have "fs_ext (temp_place roots) fs (snd (removeUploadTempFile io root rel fs))"
      using temp_relative [OF assms, of root _ "trim_space rel"] by (intro ext_removeTemp) blast
    with that(2) show ?thesis by simp
  qed
  have rest: "fs_ext (temp_place roots) fs' fs''" if "removeUploadTempFiles io roots files fs' = (r, fs'')" for r fs' fs''
    using Cons.IH [of fs'] that by simp
  show ?case
    by (auto split: option.splits prod.splits sum.splits dest!: one rest intro: fs_ext_trans)
qed simp

lemma safe_removeTempFiles [ext_ops]: "safe_op (removeTempFiles ev files)"
  unfolding safe_op_def
proof (intro allI impI)
  fix a :: agent
  assume "roots_ok (agRoots a)"
  from ext_removeUploadTempFiles [OF this] show "extends a (snd (removeTempFiles ev files a))"
    by (auto simp: removeTempFiles_def extends_def split: prod.splits)
      (metis snd_conv)
qed

lemma safe_maintainSessions [ext_ops]: "safe_op (maintainSessions ev input cs acc)"
  unfolding safe_op_def
proof (intro allI impI)
  fix a :: agent
  assume "roots_ok (agRoots a)"
  then show "extends a (snd (maintainSessions ev input cs acc a))"
  proof (induction ev input cs acc a rule: maintainSessions.induct)
    case (2 ev input uploadID deviceID cs removedSessions removedFiles errors a)
    show ?case
    proof (cases "evBusy ev deviceID uploadID")
      case False
      obtain removed db where c: "CleanupUploadSession (evNow ev) uploadID input (agUploads a) = (removed, db)"
        by fastforce
      obtain n es b where r: "removeTempFiles ev (krTempFiles removed) (a\<lparr>agUploads := db\<rparr>) = ((n, es), b)"
        by (metis surj_pair)
      have "extends a (a\<lparr>agUploads := db\<rparr>)" by (simp add: extends_same)
      then have e: "extends a b"
        using safe_after [OF safe_removeTempFiles _ "2.prems", of "a\<lparr>agUploads := db\<rparr>" ev "krTempFiles removed"] r by simp
      then have "roots_ok (agRoots b)" using "2.prems" by (simp add: extends_def)
      from "2.IH"(2) [OF False c [symmetric] r [symmetric] refl this] e show ?thesis
        by (auto simp: False c r intro: extends_trans)
    qed (use "2.IH"(1) "2.prems" in simp)
  qed simp
qed

lemma safe_orphan [ext_ops]:
  assumes "temp_place (agRoots a) fullPath"
  shows "extends a (snd (removeOrphanUploadTempFile ev fullPath uploadID cutoff a))"
proof -
  have "extends a (a\<lparr>agFiles := set_name fullPath None (agFiles a)\<rparr>)"
    using assms by (intro extends_files fs_ext_remove)
  then show ?thesis
    by (auto simp: removeOrphanUploadTempFile_def Let_def
        split: option.splits sum.splits fs_node.splits intro!: extends_andThen)
qed

lemma extends_orphansIn:
  assumes "\<And>name. temp_place (agRoots a) (dir @ [name])"
  shows "extends a (snd (removeOrphansIn ev dir cutoff names a))"
  using assms
proof (induction names arbitrary: a)
  case (Cons name names)
  show ?case
  proof (cases "has_prefix name ''upl_'' \<and> has_suffix name ''.part''")
    case True
    obtain r b where r: "removeOrphanUploadTempFile ev (dir @ [name]) (take (length name - 5) name) cutoff a = (r, b)"
      by fastforce
    have e: "extends a b" using safe_orphan [OF Cons.prems, of ev name "take (length name - 5) name" cutoff] r by simp
    have "extends b (snd (removeOrphansIn ev dir cutoff names b))"
      using Cons.prems extends_roots [OF e] by (intro Cons.IH) simp
    with e have "extends a (snd (removeOrphansIn ev dir cutoff names b))" by (rule extends_trans)
    with True show ?thesis by (auto simp: r split: prod.splits)
  next
    case False
    with Cons show ?thesis by auto
  qed
qed simp

lemma extends_orphans:
  assumes "roots_ok (agRoots a)" and "set roots \<subseteq> set (agRoots a)"
  shows "extends a (snd (removeOrphanUploadTempFiles ev cutoff roots a))"
  using assms
proof (induction roots arbitrary: a)
  case (Cons root roots)
  let ?root = "normalizedUploadRootConfig root"
  have ro: "root_of (agRoots a) ?root" using Cons.prems(2) by (simp add: root_of_def)
  define here where "here = (case uploadTempDirExists ?root (agFiles a) of
      Inl e \<Rightarrow> ((0, [e]), a) | Inr False \<Rightarrow> ((0, []), a)
    | Inr True \<Rightarrow>
        (case uploadTempAbsoluteDir ?root of
           Inl e \<Rightarrow> ((0, [e]), a)
         | Inr tempDir \<Rightarrow>
             removeOrphansIn ev (abs_segs tempDir) cutoff (readDir ev (abs_segs tempDir) (agFiles a)) a))"
  have "extends a (snd here)"
    using extends_orphansIn temp_dir_entry [OF Cons.prems(1) ro]
    by (auto simp: here_def split: sum.splits bool.splits)
  moreover from extends_roots [OF this] Cons.prems
  have "extends (snd here) (snd (removeOrphanUploadTempFiles ev cutoff roots (snd here)))" by (intro Cons.IH) simp_all
  ultimately have "extends a (snd (removeOrphanUploadTempFiles ev cutoff roots (snd here)))" by (rule extends_trans)
  moreover have "snd (removeOrphanUploadTempFiles ev cutoff (root # roots) a)
      = snd (removeOrphanUploadTempFiles ev cutoff roots (snd here))"
    unfolding removeOrphanUploadTempFiles.simps Let_def here_def [symmetric] by (simp split: prod.splits)
  ultimately show ?case by simp
qed simp

lemma safe_maintenance [ext_ops]: "safe_op (RunUploadMaintenanceOnce ev now)"
  unfolding safe_op_def
proof (intro allI impI)
  fix a :: agent
  assume ok: "roots_ok (agRoots a)"
  let ?in = "maintenance_input now"
  obtain r b where r: "maintainSessions ev ?in (UploadCleanupCandidates (evNow ev) ?in (agUploads a)) (0, 0, []) a = (r, b)"
    by fastforce
  have e: "extends a b" by (rule safe_snd [OF safe_maintainSessions ok r])
  obtain ke db where k: "CleanupUploadEvents (evNow ev) ?in (agUploads b) = (ke, db)" by fastforce
  let ?b = "b\<lparr>agUploads := db\<rparr>"
  have "extends ?b (snd (removeOrphanUploadTempFiles ev cutoff (agRoots b) ?b))" for cutoff
    using ok extends_roots [OF e] by (intro extends_orphans) simp_all
  then have "extends a (snd (removeOrphanUploadTempFiles ev cutoff (agRoots b) ?b))" for cutoff
    using e by (auto simp: extends_def intro: fs_ext_trans)
  then show "extends a (snd (RunUploadMaintenanceOnce ev now a))"
    by (auto simp: RunUploadMaintenanceOnce_def Let_def r k split: prod.splits) (metis snd_conv)
qed

lemma safe_update [ext_ops]: "safe_op (UpdateDevice ev deviceID deviceName)"
  unfolding UpdateDevice_def [abs_def] by (intro ext_ops)

lemma safe_policyResponse [ext_ops]: "safe_op (deviceUploadPolicyResponse ev device profile)"
  unfolding deviceUploadPolicyResponse_def [abs_def] by (intro ext_ops)

lemma safe_policy [ext_ops]: "safe_op (DeviceUploadPolicy ev deviceID)"
  unfolding DeviceUploadPolicy_def [abs_def] by (intro ext_ops)

lemma safe_updatePolicy [ext_ops]: "safe_op (UpdateDeviceUploadPolicy ev deviceID input)"
  unfolding UpdateDeviceUploadPolicy_def [abs_def] by (intro ext_ops)

lemma safe_call [ext_ops]:
  assumes "safe_op f" and "\<And>r. safe_op (g r)"
  shows "safe_op (\<lambda>a. case f a of (r, b) \<Rightarrow> g r b)"
  unfolding safe_op_def
proof (intro allI impI)
  fix a :: agent
  assume ok: "roots_ok (agRoots a)"
  obtain r b where r: "f a = (r, b)" by fastforce
  from safe_after [OF assms(2) safe_snd [OF assms(1) ok r] ok] r
  show "extends a (snd (case f a of (r, b) \<Rightarrow> g r b))" by simp
qed

lemma safe_reset [ext_ops]: "safe_op (resetDeviceUploadState ev q input)"
  unfolding resetDeviceUploadState_def [abs_def] by (intro ext_ops)

lemma safe_agent_reset [ext_ops]: "safe_op (agent_ResetDeviceUploadState ev input)"
  unfolding agent_ResetDeviceUploadState_def [abs_def] Let_def by (intro ext_ops)

lemma safe_agent_revoke [ext_ops]: "safe_op (agent_RevokeDevice ev deviceID)"
proof -
  have "safe_op (\<lambda>a. case resetDeviceUploadState ev q input a of
      (Inl e, a) \<Rightarrow> (Inl e, a) | (Inr x, a) \<Rightarrow> f a)" if "safe_op f" for f :: "agent \<Rightarrow> unit agent_result" and q input
  proof -
    have "safe_op (\<lambda>a. case resetDeviceUploadState ev q input a of (r, b) \<Rightarrow>
        (case r of Inl e \<Rightarrow> (Inl e, b) | Inr x \<Rightarrow> f b))"
      using that by (intro safe_call safe_reset) (auto simp: safe_op_def split: sum.splits)
    then show ?thesis by (auto simp: safe_op_def split: prod.splits sum.splits)
  qed
  then show ?thesis unfolding agent_RevokeDevice_def [abs_def] Let_def by (intro ext_ops)
qed

section \<open>All operations\<close>

inductive agent_step :: "agent \<Rightarrow> agent \<Rightarrow> bool" where
  app_state: "agent_step a (snd (AppUploadState ev deviceID a))"
| start: "agent_step a (snd (StartUploadSession ev deviceID sinput a))"
| chunk: "agent_step a (snd (AppendUploadChunk ev deviceID uploadID cinput a))"
| complete: "agent_step a (snd (CompleteUploadSession ev deviceID uploadID finput a))"
| abort: "agent_step a (snd (AbortUploadSession ev deviceID uploadID a))"
| check: "agent_step a (snd (CheckUploads ev deviceID items a))"
| maintain: "agent_step a (snd (RunUploadMaintenanceOnce ev now a))"
| rename: "agent_step a (snd (UpdateDevice ev deviceID name a))"
| policy: "agent_step a (snd (DeviceUploadPolicy ev deviceID a))"
| update_policy: "agent_step a (snd (UpdateDeviceUploadPolicy ev deviceID pinput a))"
| reset: "agent_step a (snd (agent_ResetDeviceUploadState ev rinput a))"
| revoke: "agent_step a (snd (agent_RevokeDevice ev deviceID a))"

lemma extends_step:
  assumes "agent_step a b" and "roots_ok (agRoots a)"
  shows "extends a b"
proof -
  have "roots_ok (agRoots a) \<longrightarrow> extends a b"
    using assms(1) by (induction rule: agent_step.induct) (auto intro!: safe_opD ext_ops)
  with assms(2) show ?thesis by simp
qed

section \<open>What no operation changes\<close>

definition keeps_file :: "upload_root list \<Rightarrow> string list \<Rightarrow> nat \<Rightarrow> string \<Rightarrow> agent \<Rightarrow> bool" where
  "keeps_file roots p i bytes a \<longleftrightarrow>
     agRoots a = roots \<and> roots_ok roots \<and> fsNames (agFiles a) p = Some (FileNode i)
     \<and> outside (temp_place roots) (agFiles a) i \<and> fsBytes (agFiles a) i = bytes"

lemma keeps_file_step:
  assumes "keeps_file roots p i bytes a" and "agent_step a b"
  shows "keeps_file roots p i bytes b"
proof -
  from assms have "extends a b" "\<not> temp_place roots p"
    by (auto simp: keeps_file_def outside_def intro: extends_step)
  with assms(1) show ?thesis by (simp add: keeps_file_def extends_def fs_ext_def)
qed

interpretation kept: machine "keeps_file roots p i bytes" agent_step "keeps_file roots p i bytes"
  by unfold_locales (auto intro: keeps_file_step)

text \<open>
  C3. A file that is not a temporary one is never touched: whatever operations run, in any order, with any
  faults of the file system, the database and the registry and any crashes between their system calls, a file
  none of whose names lies in a temporary directory of an upload root keeps its names and its bytes. So an
  upload never overwrites, truncates or deletes an original of the library or an upload that was completed
  before, and neither do aborts, the maintenance, resets and revocations.
\<close>

theorem stored_files_are_untouched:
  assumes "agent_step\<^sup>*\<^sup>* a b" and "roots_ok (agRoots a)"
    and "fsNames (agFiles a) p = Some (FileNode i)" and "i < fsNext (agFiles a)"
    and "\<forall>q. fsNames (agFiles a) q = Some (FileNode i) \<longrightarrow> \<not> temp_place (agRoots a) q"
  shows "fsNames (agFiles b) p = Some (FileNode i) \<and> fsBytes (agFiles b) i = fsBytes (agFiles a) i"
proof -
  have "keeps_file (agRoots a) p i (fsBytes (agFiles a) i) a"
    using assms(2-5) by (simp add: keeps_file_def outside_def)
  from kept.inv_steps [OF assms(1) this] show ?thesis by (simp add: keeps_file_def)
qed

text \<open>
  An example: the agent was stopped after the file of the session \<open>u1\<close> got its final name and
  before the ledger said so.
\<close>

definition ex_root :: upload_root where
  "ex_root = \<lparr>urKey = ''k'', urPath = ''/p'', urTempPath = ''tmp'', urOwnerUser = [], urOwnerGroup = []\<rparr>"

definition ex_digest40 :: string where "ex_digest40 = replicate 40 CHR ''0''"

definition ex_upload_db :: upload_db where
  "ex_upload_db = \<lparr>epochs = [''id1'' \<mapsto> ''e''],
     assets = [\<lparr>uaID = 1, uaDeviceID = ''id1'', uaSourceAssetID = ''s'', uaSourceAssetVersion = ''v'', uaUploadID = ''u1'',
       uaStatus = AssetCommitting, uaMediaType = ''photo'', uaOriginalFilename = ''a.jpg'', uaCapturedAt = None,
       uaExpectedSizeBytes = Some 3, uaSelectedRootKey = ''k'', uaFinalRelativePath = ''a.jpg'', uaCreatedAt = 5,
       uaUpdatedAt = 5, uaCommittingAt = Some 5, uaUploadedAt = None\<rparr>],
     lastAssetID = 1,
     checksums = [\<lparr>ckAssetID = 1, ckChecksum = \<lparr>ucAlgorithm = ''sha1'', ucEncoding = ''hex'', ucDigest = ex_digest40\<rparr>,
       ckCreatedAt = 5\<rparr>],
     sessions = [\<lparr>usUploadID = ''u1'', usDeviceID = ''id1'', usSourceAssetID = ''s'', usSourceAssetVersion = ''v'',
       usStatus = SessionCommitting, usMediaType = ''photo'', usOriginalFilename = ''a.jpg'', usCapturedAt = None,
       usExpectedSizeBytes = Some 3, usNextOffset = 3, usSelectedRootKey = ''k'', usTempRelativePath = ''tmp/u1.part'',
       usFinalRelativePath = ''a.jpg'', usLastError = [], usCreatedAt = 5, usUpdatedAt = 5, usExpiresAt = Some 99\<rparr>],
     commitEvents = [], resetEvents = []\<rparr>"

definition ex_files :: filesystem where
  "ex_files = \<lparr>fsNames = [[''p''] \<mapsto> DirNode, [''p'', ''a.jpg''] \<mapsto> FileNode 0, [''p'', ''tmp''] \<mapsto> DirNode,
       [''p'', ''tmp'', ''u1.part''] \<mapsto> FileNode 1],
     fsBytes = (\<lambda>_. ''jpg''), fsNext = 2\<rparr>"

definition ex_agent :: agent where
  "ex_agent = \<lparr>agRegistry = ex_store\<lparr>registry := emptyRegistry\<lparr>Devices := [ex_device]\<rparr>\<rparr>,
     agProfiles = \<lparr>prDir = ''d'', prFiles = (\<lambda>_. \<lparr>target = None, temp = None\<rparr>)\<rparr>, agUploads = ex_upload_db,
     agFiles = ex_files, agRoots = [ex_root], agDataDir = ''/d''\<rparr>"

definition ex_env :: upload_env where
  "ex_env = \<lparr>evNow = 7, evSha1 = (\<lambda>_. replicate 20 nul), evUploadRandom = ex_draw CHR ''r'', evBlob = [], evOrder = [],
     evZone = (\<lambda>_. 0), evAvailable = (\<lambda>_. None), evProfileFault = None, evRegistryFault = None, evIO = good_io,
     evBusy = (\<lambda>_ _. False), evEntries = (\<lambda>_. []), evMtime = (\<lambda>_. 0)\<rparr>"

definition ex_complete :: complete_input where
  "ex_complete = \<lparr>coSourceAssetVersion = [],
     coChecksums = [\<lparr>ucAlgorithm = ''sha1'', ucEncoding = ''hex'', ucDigest = ex_digest40\<rparr>]\<rparr>"

definition ex_completed :: "uploaded_asset agent_result" where
  "ex_completed = CompleteUploadSession ex_env ''id1'' ''u1'' ex_complete ex_agent"

lemma ex_roots_ok: "roots_ok (agRoots ex_agent)"
  by code_simp

theorem stored_files_are_untouched_witness:
  "fsNames (agFiles (snd ex_completed)) [''p'', ''a.jpg''] = Some (FileNode 0)
     \<and> fsBytes (agFiles (snd ex_completed)) 0 = ''jpg''"
proof -
  have "agent_step\<^sup>*\<^sup>* ex_agent (snd ex_completed)"
    unfolding ex_completed_def by (rule r_into_rtranclp) (rule agent_step.complete)
  moreover have n: "fsNames (agFiles ex_agent) [''p'', ''a.jpg''] = Some (FileNode 0)" "(0::nat) < fsNext (agFiles ex_agent)"
    by (simp_all add: ex_agent_def ex_files_def)
  moreover have "\<not> temp_place (agRoots ex_agent) [''p'', ''a.jpg'']" by code_simp
  then have "\<forall>q. fsNames (agFiles ex_agent) q = Some (FileNode 0) \<longrightarrow> \<not> temp_place (agRoots ex_agent) q"
    by (auto simp: ex_agent_def ex_files_def split: if_splits)
  ultimately have "fsNames (agFiles (snd ex_completed)) [''p'', ''a.jpg''] = Some (FileNode 0)
      \<and> fsBytes (agFiles (snd ex_completed)) 0 = fsBytes (agFiles ex_agent) 0"
    using stored_files_are_untouched ex_roots_ok by blast
  then show ?thesis by (simp add: ex_agent_def ex_files_def)
qed

end
