(* ===== verification/Upload_Machine.thy ===== *)
theory Upload_Machine
  imports Upload_Store
begin

text \<open>
  The upload database as a state machine: every operation of \<open>Upload_Store\<close> that writes
  is a step. Its invariant is what the schema promises (keys, foreign keys) and what the
  code adds to it (every device with uploads has an epoch, an uploaded asset its time).
\<close>

section \<open>The invariant\<close>

abbreviation identity :: "asset_row \<Rightarrow> string \<times> string \<times> string" where
  "identity a \<equiv> (uaDeviceID a, uaSourceAssetID a, uaSourceAssetVersion a)"

lemma has_identity_iff: "has_identity d x v a \<longleftrightarrow> identity a = (d, x, v)"
  by (auto simp: has_identity_def)

definition assets_ok :: "int \<Rightarrow> asset_row list \<Rightarrow> bool" where
  "assets_ok lastID as \<longleftrightarrow>
     distinct (map uaID as) \<and> distinct (map identity as) \<and> distinct (map uaUploadID as) \<and>
     (\<forall>a\<in>set as. uaID a \<le> lastID \<and> (uaStatus a = AssetUploaded \<longrightarrow> uaUploadedAt a \<noteq> None))"

definition checksums_ok :: "asset_row list \<Rightarrow> checksum_row list \<Rightarrow> bool" where
  "checksums_ok as cs \<longleftrightarrow>
     distinct (map (\<lambda>c. (ckAssetID c, ucAlgorithm (ckChecksum c))) cs) \<and>
     (\<forall>c\<in>set cs. ckAssetID c \<in> uaID ` set as)"

definition sessions_ok :: "upload_session list \<Rightarrow> bool" where
  "sessions_ok us \<longleftrightarrow>
     distinct (map usUploadID us) \<and>
     (\<forall>u\<in>set us. 0 \<le> usNextOffset u \<and> trimmed (usUploadID u) \<and> trimmed (usSelectedRootKey u)
        \<and> usSelectedRootKey u \<noteq> [])"

definition epochs_ok :: "upload_db \<Rightarrow> bool" where
  "epochs_ok db \<longleftrightarrow>
     (\<forall>a\<in>set (assets db). epochs db (uaDeviceID a) \<noteq> None) \<and>
     (\<forall>u\<in>set (sessions db). epochs db (usDeviceID u) \<noteq> None)"

definition db_ok :: "upload_db \<Rightarrow> bool" where
  "db_ok db \<longleftrightarrow> assets_ok (lastAssetID db) (assets db) \<and> checksums_ok (assets db) (checksums db)
     \<and> sessions_ok (sessions db) \<and> epochs_ok db"

lemma db_okD:
  assumes "db_ok db"
  shows "assets_ok (lastAssetID db) (assets db)" and "checksums_ok (assets db) (checksums db)"
    and "sessions_ok (sessions db)" and "epochs_ok db"
  using assms by (simp_all add: db_ok_def)

section \<open>Updating rows\<close>

lemma map_if_same:
  "(\<And>x. g (f x) = g x) \<Longrightarrow> map g (map (\<lambda>x. if P x then f x else x) xs) = map g xs"
  by (induction xs) auto

lemma set_map_if:
  "y \<in> set (map (\<lambda>x. if P x then f x else x) xs) \<longleftrightarrow> (\<exists>x\<in>set xs. y = (if P x then f x else x))"
  by auto

lemma sessions_ok_update:
  assumes "sessions_ok us"
    and "\<And>u. usUploadID (f u) = usUploadID u" and "\<And>u. usSelectedRootKey (f u) = usSelectedRootKey u"
    and "\<And>u. u \<in> set us \<Longrightarrow> P u \<Longrightarrow> 0 \<le> usNextOffset (f u)"
  shows "sessions_ok (map (\<lambda>u. if P u then f u else u) us)"
proof -
  have "map usUploadID (map (\<lambda>u. if P u then f u else u) us) = map usUploadID us"
    using assms(2) by (rule map_if_same)
  then show ?thesis
    unfolding sessions_ok_def using assms by (auto simp: sessions_ok_def simp del: map_map)
qed

lemma assets_ok_update:
  assumes "assets_ok n as" and "\<And>a. uaID (f a) = uaID a" and "\<And>a. identity (f a) = identity a"
    and "\<And>a. uaUploadID (f a) = uaUploadID a"
    and "\<And>a. a \<in> set as \<Longrightarrow> P a \<Longrightarrow> uaStatus (f a) = AssetUploaded \<Longrightarrow> uaUploadedAt (f a) \<noteq> None"
  shows "assets_ok n (map (\<lambda>a. if P a then f a else a) as)"
proof -
  have "map uaID (map (\<lambda>a. if P a then f a else a) as) = map uaID as"
    using assms(2) by (rule map_if_same)
  moreover have "map identity (map (\<lambda>a. if P a then f a else a) as) = map identity as"
    using assms(3) by (rule map_if_same)
  moreover have "map uaUploadID (map (\<lambda>a. if P a then f a else a) as) = map uaUploadID as"
    using assms(4) by (rule map_if_same)
  moreover have "uaID x \<le> n \<and> (uaStatus x = AssetUploaded \<longrightarrow> uaUploadedAt x \<noteq> None)"
    if "x \<in> set (map (\<lambda>a. if P a then f a else a) as)" for x
    using that assms by (auto simp: assets_ok_def split: if_splits)
  ultimately show ?thesis using assms(1) unfolding assets_ok_def by metis
qed

lemma checksums_ok_ids: "uaID ` set as = uaID ` set bs \<Longrightarrow> checksums_ok as cs = checksums_ok bs cs"
  by (simp add: checksums_ok_def)

lemma ids_update: "(\<And>a. uaID (f a) = uaID a) \<Longrightarrow> uaID ` set (map (\<lambda>a. if P a then f a else a) as) = uaID ` set as"
  using map_if_same [of uaID f P as] by (metis set_map)

lemma upsertChecksum_keys:
  assumes "checksums_ok as cs" and "assetID \<in> uaID ` set as"
  shows "checksums_ok as (upsertChecksum assetID now c cs)"
proof (cases "\<exists>r\<in>set cs. ckAssetID r = assetID \<and> ucAlgorithm (ckChecksum r) = ucAlgorithm c")
  case True
  let ?P = "\<lambda>r. ckAssetID r = assetID \<and> ucAlgorithm (ckChecksum r) = ucAlgorithm c"
  have "map (\<lambda>r. (ckAssetID r, ucAlgorithm (ckChecksum r))) (map (\<lambda>r. if ?P r then r\<lparr>ckChecksum := c\<rparr> else r) cs)
      = map (\<lambda>r. (ckAssetID r, ucAlgorithm (ckChecksum r))) cs"
    by (induction cs) auto
  with True assms show ?thesis
    unfolding checksums_ok_def upsertChecksum_def
    by (auto simp: list_ex_iff Let_def simp del: map_map)
next
  case False
  with assms show ?thesis
    by (auto simp: upsertChecksum_def checksums_ok_def list_ex_iff Let_def)
qed

lemma upsert_keys:
  "checksums_ok as cs \<Longrightarrow> assetID \<in> uaID ` set as \<Longrightarrow> checksums_ok as (fold (upsertChecksum assetID now) ns cs)"
  by (induction ns arbitrary: cs) (simp_all add: upsertChecksum_keys)

lemma normalizeSessionInput_Inr:
  assumes "normalizeSessionInput clock input = Inr n"
  shows "trimmed (siUploadID n)" "trimmed (siSelectedRootKey n)" "siSelectedRootKey n \<noteq> []"
    "siDeviceID n \<noteq> []" "trimmed (siDeviceID n)"
  using assms by (auto simp: normalizeSessionInput_def Let_def split: if_splits)

section \<open>The effect of a reservation\<close>

definition commits_session :: "upload_commit_input \<Rightarrow> upload_session \<Rightarrow> bool" where
  "commits_session n u \<longleftrightarrow>
     usUploadID u = ciUploadID n \<and> usDeviceID u = ciDeviceID n \<and> usSourceAssetID u = ciSourceAssetID n
   \<and> usSourceAssetVersion u = ciSourceAssetVersion n \<and> usStatus u \<in> {SessionActive, SessionCommitting}"

definition committed_session :: "upload_commit_input \<Rightarrow> upload_session \<Rightarrow> upload_session" where
  "committed_session n u =
     u\<lparr>usStatus := SessionCommitting, usFinalRelativePath := ciFinalRelativePath n, usUpdatedAt := ciNow n\<rparr>"

definition reserved_row :: "upload_commit_input \<Rightarrow> string \<Rightarrow> int \<Rightarrow> asset_row" where
  "reserved_row n root assetID =
     \<lparr>uaID = assetID, uaDeviceID = ciDeviceID n, uaSourceAssetID = ciSourceAssetID n,
      uaSourceAssetVersion = ciSourceAssetVersion n, uaUploadID = ciUploadID n,
      uaStatus = AssetCommitting, uaMediaType = ciMediaType n,
      uaOriginalFilename = ciOriginalFilename n, uaCapturedAt = nullableTime (ciCapturedAt n),
      uaExpectedSizeBytes = ciExpectedSizeBytes n, uaSelectedRootKey = root,
      uaFinalRelativePath = ciFinalRelativePath n, uaCreatedAt = ciNow n,
      uaUpdatedAt = ciNow n, uaCommittingAt = Some (ciNow n), uaUploadedAt = None\<rparr>"

definition again_row :: "upload_commit_input \<Rightarrow> string \<Rightarrow> asset_row \<Rightarrow> asset_row" where
  "again_row n root a =
     a\<lparr>uaMediaType := ciMediaType n, uaOriginalFilename := ciOriginalFilename n,
       uaCapturedAt := nullableTime (ciCapturedAt n), uaExpectedSizeBytes := ciExpectedSizeBytes n,
       uaSelectedRootKey := root, uaFinalRelativePath := ciFinalRelativePath n, uaUpdatedAt := ciNow n\<rparr>"

definition reserves_new :: "upload_commit_input \<Rightarrow> string \<Rightarrow> upload_db \<Rightarrow> upload_db \<Rightarrow> bool" where
  "reserves_new n root db db' \<longleftrightarrow>
     (\<forall>a\<in>set (assets db). identity a \<noteq> (ciDeviceID n, ciSourceAssetID n, ciSourceAssetVersion n)
        \<and> uaUploadID a \<noteq> ciUploadID n)
   \<and> lastAssetID db' = lastAssetID db + 1
   \<and> assets db' = assets db @ [reserved_row n root (lastAssetID db + 1)]
   \<and> checksums db' = fold (upsertChecksum (lastAssetID db + 1) (ciNow n)) (ciChecksums n) (checksums db)"

definition reserves_again :: "upload_commit_input \<Rightarrow> string \<Rightarrow> asset_row \<Rightarrow> upload_db \<Rightarrow> upload_db \<Rightarrow> bool" where
  "reserves_again n root a db db' \<longleftrightarrow>
     a \<in> set (assets db) \<and> identity a = (ciDeviceID n, ciSourceAssetID n, ciSourceAssetVersion n)
   \<and> uaUploadID a = ciUploadID n \<and> uaStatus a = AssetCommitting
   \<and> lastAssetID db' = lastAssetID db
   \<and> assets db' = map (\<lambda>x. if uaID x = uaID a \<and> uaStatus x = AssetCommitting then again_row n root x else x) (assets db)
   \<and> checksums db' = fold (upsertChecksum (uaID a) (ciNow n)) (ciChecksums n) (checksums db)"

lemma GetUploadedAsset_Some:
  assumes "scanUploadedAsset db (find P (assets db)) = Inr (Some x)"
  shows "uaRow x \<in> set (assets db)" and "P (uaRow x)"
  using assms by (auto simp: scanUploadedAsset_def find_Some_iff split: option.splits)

lemma normalizeCommitInput_trimmed:
  assumes "normalizeCommitInput clock input = Inr n"
  shows "trim_space (ciDeviceID n) = ciDeviceID n" "trim_space (ciSourceAssetID n) = ciSourceAssetID n"
    "trim_space (ciSourceAssetVersion n) = ciSourceAssetVersion n" "trim_space (ciUploadID n) = ciUploadID n"
  using assms by (auto simp: normalizeCommitInput_def Let_def split: if_splits sum.splits)

lemma normalizeCommitInput_device: "normalizeCommitInput clock input = Inr n \<Longrightarrow> ciDeviceID n \<noteq> []"
  by (auto simp: normalizeCommitInput_def Let_def split: if_splits sum.splits)

lemma insertAsset_Some:
  assumes "insertAsset n root db = Some (assetID, db')"
  shows "assetID = lastAssetID db + 1"
    and "db' = db\<lparr>lastAssetID := lastAssetID db + 1,
           assets := assets db @ [reserved_row n root (lastAssetID db + 1)]\<rparr>"
    and "\<forall>a\<in>set (assets db). identity a \<noteq> (ciDeviceID n, ciSourceAssetID n, ciSourceAssetVersion n)
        \<and> uaUploadID a \<noteq> ciUploadID n"
  using assms
  by (auto simp: insertAsset_def Let_def list_ex_iff has_identity_iff reserved_row_def split: if_splits)

lemma updateReservation_Inr:
  assumes "updateReservation n root db = (Inr q, db')"
    and "trim_space (ciDeviceID n) = ciDeviceID n" "trim_space (ciSourceAssetID n) = ciSourceAssetID n"
      "trim_space (ciSourceAssetVersion n) = ciSourceAssetVersion n"
  obtains a where "reserves_again n root a db db'" and "sessions db' = sessions db"
    and "epochs db' = epochs db" and "q = getUploadedAssetByID (uaID a)"
proof -
  from assms(1) obtain x where
    x: "GetUploadedAssetBySourceIdentity (ciDeviceID n) (ciSourceAssetID n) (ciSourceAssetVersion n) db = Inr (Some x)"
    and own: "uaUploadID (uaRow x) = ciUploadID n" "uaStatus (uaRow x) = AssetCommitting"
    and q: "q = getUploadedAssetByID (uaID (uaRow x))"
    and db': "db' = insertCommitEvent (ciUploadID n) (uaID (uaRow x)) EventReservationUpdated (ciNow n)
        (upsertAssetChecksumsTx (uaID (uaRow x)) (ciChecksums n) (ciNow n)
          (snd (update_assets (\<lambda>a. uaID a = uaID (uaRow x) \<and> uaStatus a = AssetCommitting) (again_row n root) db)))"
    by (auto simp: updateReservation_def Let_def again_row_def [abs_def] split: sum.splits option.splits if_splits prod.splits)
  note row = GetUploadedAsset_Some [OF x [unfolded GetUploadedAssetBySourceIdentity_def]]
  have "reserves_again n root (uaRow x) db db'"
    using row own assms(2-4)
    by (simp add: reserves_again_def db' insertCommitEvent_def upsertAssetChecksumsTx_def update_assets_def
        has_identity_def)
  with q that [of "uaRow x"] show thesis
    by (simp add: db' insertCommitEvent_def upsertAssetChecksumsTx_def update_assets_def)
qed

lemma reserveTx_Inr:
  assumes "reserveTx n db = (Inr q, db')"
    and "trim_space (ciDeviceID n) = ciDeviceID n" "trim_space (ciSourceAssetID n) = ciSourceAssetID n"
      "trim_space (ciSourceAssetVersion n) = ciSourceAssetVersion n"
  obtains root u where "u \<in> set (sessions db)" and "commits_session n u"
    and "sessions db' = map (\<lambda>u. if commits_session n u then committed_session n u else u) (sessions db)"
    and "epochs db' = epochs db"
    and "reserves_new n root db db' \<and> q = GetUploadedAssetBySourceIdentity (ciDeviceID n) (ciSourceAssetID n) (ciSourceAssetVersion n)
       \<or> (\<exists>a. reserves_again n root a db db' \<and> q = getUploadedAssetByID (uaID a))"
    and "\<exists>v. find (\<lambda>w. usUploadID w = ciUploadID n) (sessions db') = Some v \<and> root = usSelectedRootKey v"
proof -
  define db1 where "db1 = snd (update_sessions (commits_session n) (committed_session n) db)"
  have fold1: "update_sessions (\<lambda>u. usUploadID u = ciUploadID n \<and> usDeviceID u = ciDeviceID n
        \<and> usSourceAssetID u = ciSourceAssetID n \<and> usSourceAssetVersion u = ciSourceAssetVersion n
        \<and> usStatus u \<in> {SessionActive, SessionCommitting})
      (\<lambda>u. u\<lparr>usStatus := SessionCommitting, usFinalRelativePath := ciFinalRelativePath n, usUpdatedAt := ciNow n\<rparr>) db
    = (length (filter (commits_session n) (sessions db)), db1)"
    unfolding db1_def update_sessions_def commits_session_def [abs_def] committed_session_def [abs_def] by simp
  have db1: "sessions db1 = map (\<lambda>u. if commits_session n u then committed_session n u else u) (sessions db)"
      "assets db1 = assets db" "checksums db1 = checksums db" "epochs db1 = epochs db"
      "lastAssetID db1 = lastAssetID db"
    by (simp_all add: db1_def update_sessions_def)
  note r = assms(1) [unfolded reserveTx_def fold1 prod.case]
  from r have "filter (commits_session n) (sessions db) \<noteq> []" by (auto split: if_splits)
  then obtain u where u: "u \<in> set (sessions db)" "commits_session n u" by (auto simp: filter_empty_conv)
  from r obtain root where root: "selectedRootKeyForUploadSession (ciUploadID n) db1 = Inr root"
    by (auto split: if_splits sum.splits)
  then have key: "\<exists>v. find (\<lambda>w. usUploadID w = ciUploadID n) (sessions db1) = Some v \<and> root = usSelectedRootKey v"
    by (auto simp: selectedRootKeyForUploadSession_def split: option.splits if_splits)
  show thesis
  proof (cases "insertAsset n root db1")
    case None
    with r root have "updateReservation n root db1 = (Inr q, db')" by (auto split: if_splits)
    from updateReservation_Inr [OF this assms(2-4)] obtain a where
      "reserves_again n root a db1 db'" "sessions db' = sessions db1" "epochs db' = epochs db1"
      "q = getUploadedAssetByID (uaID a)" .
    with u db1 key that [of u root] show thesis by (auto simp: reserves_again_def)
  next
    case (Some p)
    obtain assetID db2 where p: "p = (assetID, db2)" by (cases p)
    note ins = insertAsset_Some [OF Some [unfolded p]]
    from r root Some p have q: "q = GetUploadedAssetBySourceIdentity (ciDeviceID n) (ciSourceAssetID n) (ciSourceAssetVersion n)"
      and db': "db' = insertCommitEvent (ciUploadID n) assetID EventReserved (ciNow n)
         (upsertAssetChecksumsTx assetID (ciChecksums n) (ciNow n) db2)"
      by (auto simp: Let_def split: if_splits)
    have "reserves_new n root db db'"
      using ins db1 by (simp add: reserves_new_def db' insertCommitEvent_def upsertAssetChecksumsTx_def)
    with u q db1 key that [of u root] show thesis
      by (simp add: db' ins(2) insertCommitEvent_def upsertAssetChecksumsTx_def)
  qed
qed

section \<open>Every operation keeps the invariant\<close>

lemma snd_readBack [simp]: "snd (readBack r) = snd r"
  by (auto simp: readBack_def split: prod.splits sum.splits option.splits)

lemma snd_transaction:
  "snd (transaction body db) = (case body db of (Inl _, _) \<Rightarrow> db | (Inr _, db') \<Rightarrow> db')"
  by (auto simp: transaction_def split: prod.splits sum.splits)

lemma checksums_ok_mono: "checksums_ok as cs \<Longrightarrow> uaID ` set as \<subseteq> uaID ` set bs \<Longrightarrow> checksums_ok bs cs"
  unfolding checksums_ok_def by blast

lemma reserve_keeps:
  assumes ok: "db_ok db" and r: "reserveTx n db = (Inr q, db')"
    and trim: "trim_space (ciDeviceID n) = ciDeviceID n" "trim_space (ciSourceAssetID n) = ciSourceAssetID n"
      "trim_space (ciSourceAssetVersion n) = ciSourceAssetVersion n"
  shows "db_ok db'"
proof -
  from reserveTx_Inr [OF r trim] obtain root u where u: "u \<in> set (sessions db)" "commits_session n u"
    and s: "sessions db' = map (\<lambda>u. if commits_session n u then committed_session n u else u) (sessions db)"
    and e: "epochs db' = epochs db"
    and cases: "reserves_new n root db db' \<or> (\<exists>a. reserves_again n root a db db')"
    by (metis (no_types, lifting))
  note ok' = db_okD [OF ok]
  have sok: "sessions_ok (sessions db')"
    unfolding s using ok'(3)
    by (rule sessions_ok_update) (use ok'(3) in \<open>simp_all add: committed_session_def sessions_ok_def\<close>)
  have dev: "epochs db (ciDeviceID n) \<noteq> None"
    using u ok'(4) by (auto simp: commits_session_def epochs_ok_def)
  have es: "\<forall>x\<in>set (sessions db'). epochs db (usDeviceID x) \<noteq> None"
    using ok'(4) by (auto simp: s epochs_ok_def committed_session_def)
  from cases show ?thesis
  proof (elim disjE exE)
    assume new: "reserves_new n root db db'"
    have "assets_ok (lastAssetID db') (assets db')"
      using ok'(1) new by (fastforce simp: assets_ok_def reserves_new_def reserved_row_def)
    moreover have "checksums_ok (assets db') (checksums db')"
      using new checksums_ok_mono [OF ok'(2), of "assets db'"]
      by (auto simp: reserves_new_def reserved_row_def intro!: upsert_keys)
    moreover have "epochs_ok db'"
      using ok'(4) new dev es e by (auto simp: epochs_ok_def reserves_new_def reserved_row_def)
    ultimately show ?thesis using sok by (simp add: db_ok_def)
  next
    fix a assume again: "reserves_again n root a db db'"
    then have as: "assets db' = map (\<lambda>x. if uaID x = uaID a \<and> uaStatus x = AssetCommitting then again_row n root x else x) (assets db)"
      and cs: "checksums db' = fold (upsertChecksum (uaID a) (ciNow n)) (ciChecksums n) (checksums db)"
      and l: "lastAssetID db' = lastAssetID db" and a: "a \<in> set (assets db)"
      by (simp_all add: reserves_again_def)
    have ids: "uaID ` set (assets db') = uaID ` set (assets db)"
      unfolding as by (rule ids_update) (simp add: again_row_def)
    have "assets_ok (lastAssetID db') (assets db')"
      unfolding as l using ok'(1) by (rule assets_ok_update) (simp_all add: again_row_def)
    moreover have "checksums_ok (assets db') (checksums db')"
      unfolding cs checksums_ok_ids [OF ids] using ok'(2) a by (intro upsert_keys) auto
    moreover have "epochs_ok db'"
      using ok'(4) es e by (auto simp: epochs_ok_def as again_row_def)
    ultimately show ?thesis using sok by (simp add: db_ok_def)
  qed
qed

lemma db_ok_ReserveUploadCommit:
  assumes "db_ok db"
  shows "db_ok (snd (ReserveUploadCommit clock input db))"
  using assms reserve_keeps [OF assms _ normalizeCommitInput_trimmed(1-3)]
  by (auto simp: ReserveUploadCommit_def snd_transaction split: sum.splits prod.splits)

text \<open>The effect of marking an asset as uploaded.\<close>

definition uploaded_row :: "gotime \<Rightarrow> asset_row \<Rightarrow> asset_row" where
  "uploaded_row now a =
     a\<lparr>uaStatus := AssetUploaded,
       uaUploadedAt := (case uaUploadedAt a of None \<Rightarrow> Some now | Some t \<Rightarrow> Some t), uaUpdatedAt := now\<rparr>"

lemma update_uploaded:
  "update_assets P (\<lambda>a. a\<lparr>uaStatus := AssetUploaded,
       uaUploadedAt := (case uaUploadedAt a of None \<Rightarrow> Some now | Some t \<Rightarrow> Some t), uaUpdatedAt := now\<rparr>) db
    = (length (filter P (assets db)),
       db\<lparr>assets := map (\<lambda>a. if P a then uploaded_row now a else a) (assets db)\<rparr>)"
  by (simp add: update_assets_def uploaded_row_def [abs_def] cong: if_cong)

lemma markUploadedTx_Inr:
  assumes "markUploadedTx assetID now db = (Inr q, db')"
  obtains row u where "row \<in> set (assets db)" and "uaID row = assetID"
    and "u \<in> set (sessions db)" and "usUploadID u = uaUploadID row"
    and "assets db' = map (\<lambda>a. if uaID a = assetID then uploaded_row now a else a) (assets db)"
    and "sessions db' = map (\<lambda>u. if usUploadID u = uaUploadID row
           then u\<lparr>usStatus := SessionCompleted, usUpdatedAt := now\<rparr> else u) (sessions db)"
    and "epochs db' = epochs db" and "checksums db' = checksums db" and "lastAssetID db' = lastAssetID db"
    and "q = getUploadedAssetByID assetID"
proof -
  from assms obtain row where row: "find (\<lambda>a. uaID a = assetID) (assets db) = Some row"
    by (auto simp: markUploadedTx_def split: option.splits)
  then have in_db: "row \<in> set (assets db)" "uaID row = assetID" by (auto simp: find_Some_iff)
  define as where "as = map (\<lambda>a. if uaID a = assetID then uploaded_row now a else a) (assets db)"
  have up: "update_assets (\<lambda>a. uaID a = assetID)
      (\<lambda>a. a\<lparr>uaStatus := AssetUploaded,
             uaUploadedAt := (case uaUploadedAt a of None \<Rightarrow> Some now | Some t \<Rightarrow> Some t), uaUpdatedAt := now\<rparr>) db
      = (length (filter (\<lambda>a. uaID a = assetID) (assets db)), db\<lparr>assets := as\<rparr>)"
    by (simp add: update_assets_def as_def uploaded_row_def)
  note r = assms [unfolded markUploadedTx_def row option.case up prod.case update_sessions_def]
  have "filter (\<lambda>u. usUploadID u = uaUploadID row) (sessions db) \<noteq> []"
    using r by (auto split: if_splits)
  then obtain u where u: "u \<in> set (sessions db)" "usUploadID u = uaUploadID row"
    by (auto simp: filter_empty_conv)
  have q: "q = getUploadedAssetByID assetID"
    and db': "db' = insertCommitEvent (uaUploadID row) assetID EventCompleted now
      (db\<lparr>assets := as, sessions := map (\<lambda>u. if usUploadID u = uaUploadID row
           then u\<lparr>usStatus := SessionCompleted, usUpdatedAt := now\<rparr> else u) (sessions db)\<rparr>)"
    using r by (simp_all split: if_splits)
  show thesis
    by (rule that [OF in_db u]) (simp_all add: q db' insertCommitEvent_def as_def)
qed

lemma mark_keeps:
  assumes ok: "db_ok db" and m: "markUploadedTx assetID now db = (Inr q, db')"
  shows "db_ok db'"
proof -
  obtain row u where "row \<in> set (assets db)" and "uaID row = assetID"
    and "u \<in> set (sessions db)" and "usUploadID u = uaUploadID row" and
    as: "assets db' = map (\<lambda>a. if uaID a = assetID then uploaded_row now a else a) (assets db)" and
    us: "sessions db' = map (\<lambda>u. if usUploadID u = uaUploadID row
           then u\<lparr>usStatus := SessionCompleted, usUpdatedAt := now\<rparr> else u) (sessions db)" and
    same: "epochs db' = epochs db" "checksums db' = checksums db" "lastAssetID db' = lastAssetID db" and
    "q = getUploadedAssetByID assetID"
    by (rule markUploadedTx_Inr [OF m])
  note ok' = db_okD [OF ok]
  have "assets_ok (lastAssetID db') (assets db')"
    unfolding as same using ok'(1) by (rule assets_ok_update) (simp_all add: uploaded_row_def split: option.splits)
  moreover have "uaID ` set (assets db') = uaID ` set (assets db)"
    unfolding as by (rule ids_update) (simp add: uploaded_row_def)
  then have "checksums_ok (assets db') (checksums db')"
    using ok'(2) unfolding same by (metis checksums_ok_ids)
  moreover have "sessions_ok (sessions db')"
    unfolding us using ok'(3)
    by (rule sessions_ok_update) (use ok'(3) in \<open>simp_all add: sessions_ok_def\<close>)
  moreover have "epochs_ok db'"
    using ok'(4) by (auto simp: epochs_ok_def as us same uploaded_row_def)
  ultimately show ?thesis by (simp add: db_ok_def)
qed

lemma db_ok_MarkUploaded: "db_ok db \<Longrightarrow> db_ok (snd (MarkUploaded clock assetID now db))"
  by (auto simp: MarkUploaded_def snd_transaction split: sum.splits prod.splits intro: mark_keeps)

lemma db_ok_epoch: "db_ok db \<Longrightarrow> db_ok (db\<lparr>epochs := (epochs db)(d := Some e)\<rparr>)"
  by (simp add: db_ok_def epochs_ok_def)

lemma db_ok_LedgerEpoch: "db_ok db \<Longrightarrow> db_ok (snd (LedgerEpoch blob d db))"
  by (simp add: LedgerEpoch_def Let_def db_ok_epoch split: option.splits)

lemma db_ok_CheckUploaded: "db_ok db \<Longrightarrow> db_ok (snd (CheckUploaded blob d ids db))"
  using db_ok_LedgerEpoch [of db blob "trim_space d"]
  by (auto simp: CheckUploaded_def Let_def split: prod.splits sum.splits)

lemma db_ok_update_sessions:
  assumes "db_ok db"
    and "\<And>u. usUploadID (f u) = usUploadID u" and "\<And>u. usSelectedRootKey (f u) = usSelectedRootKey u"
    and "\<And>u. usDeviceID (f u) = usDeviceID u"
    and "\<And>u. 0 \<le> usNextOffset u \<Longrightarrow> 0 \<le> usNextOffset (f u)"
  shows "db_ok (snd (update_sessions P f db))"
proof -
  have "sessions_ok (map (\<lambda>u. if P u then f u else u) (sessions db))"
    using db_okD(3) [OF assms(1)] assms
    by (intro sessions_ok_update) (auto simp: sessions_ok_def)
  then show ?thesis using assms by (auto simp: db_ok_def epochs_ok_def update_sessions_def)
qed

lemma snd_UpdateSessionProgress:
  "snd (UpdateSessionProgress clock uploadID e n now db) =
    (if e < 0 \<or> n < e then db
     else snd (update_sessions
       (\<lambda>u. usUploadID u = trim_space uploadID \<and> usStatus u = SessionActive \<and> usNextOffset u = e)
       (\<lambda>u. u\<lparr>usNextOffset := n, usUpdatedAt := nonZeroTime clock now\<rparr>) db))"
  by (simp add: UpdateSessionProgress_def Let_def update_sessions_def split: option.splits)

lemma snd_AbortSession:
  "snd (AbortSession clock uploadID d now db) =
    (if trim_space uploadID = [] \<or> trim_space d = [] then db
     else snd (update_sessions
       (\<lambda>u. usUploadID u = trim_space uploadID \<and> usDeviceID u = trim_space d \<and> usStatus u = SessionActive)
       (\<lambda>u. u\<lparr>usStatus := SessionAborted, usUpdatedAt := nonZeroTime clock now\<rparr>) db))"
  by (simp add: AbortSession_def Let_def update_sessions_def split: option.splits)

lemma db_ok_UpdateSessionProgress:
  "db_ok db \<Longrightarrow> db_ok (snd (UpdateSessionProgress clock uploadID e n now db))"
  by (auto simp: snd_UpdateSessionProgress intro!: db_ok_update_sessions)

lemma db_ok_AbortSession: "db_ok db \<Longrightarrow> db_ok (snd (AbortSession clock uploadID d now db))"
  by (auto simp: snd_AbortSession intro!: db_ok_update_sessions)

lemma db_ok_CreateSession:
  assumes "db_ok db"
  shows "db_ok (snd (CreateSession clock blob input db))"
proof (cases "normalizeSessionInput clock input")
  case (Inr n)
  note n = normalizeSessionInput_Inr [OF Inr]
  define db1 where "db1 = snd (LedgerEpoch blob (siDeviceID n) db)"
  have db1: "db_ok db1" using assms unfolding db1_def by (rule db_ok_LedgerEpoch)
  have dev: "epochs db1 (siDeviceID n) \<noteq> None"
    using n by (auto simp: db1_def LedgerEpoch_def Let_def trim_space_id split: option.splits)
  obtain r where e: "LedgerEpoch blob (siDeviceID n) db = (r, db1)"
    unfolding db1_def by (metis prod.collapse)
  have add: "db_ok (db1\<lparr>sessions := sessions db1 @ [u]\<rparr>)"
    if "\<not> list_ex (\<lambda>u. usUploadID u = siUploadID n) (sessions db1)" and "usUploadID u = siUploadID n"
      "usNextOffset u = 0" "usSelectedRootKey u = siSelectedRootKey n" "usDeviceID u = siDeviceID n" for u
    using db1 that n dev
    by (auto simp: db_ok_def sessions_ok_def epochs_ok_def list_ex_iff)
  show ?thesis
    using db1 by (auto simp: CreateSession_def Inr e Let_def split: sum.splits option.splits intro!: add)
qed (use assms in \<open>simp add: CreateSession_def\<close>)

lemma db_ok_delete_sessions: "db_ok db \<Longrightarrow> db_ok (snd (delete_sessions P db))"
  by (auto simp: db_ok_def delete_sessions_def sessions_ok_def epochs_ok_def distinct_map_filter)

lemma db_ok_delete_assets:
  assumes "db_ok db"
  shows "db_ok (snd (delete_assets P db))"
proof -
  note ok = db_okD [OF assms]
  have kept: "ckAssetID c \<in> uaID ` {a \<in> set (assets db). \<not> P a}"
    if "c \<in> set (checksums db)" "\<forall>a\<in>set (assets db). P a \<longrightarrow> uaID a \<noteq> ckAssetID c" for c
    using ok(2) that by (force simp: checksums_ok_def)
  have "checksums_ok (filter (\<lambda>a. \<not> P a) (assets db))
      (filter (\<lambda>c. \<not> list_ex (\<lambda>a. P a \<and> uaID a = ckAssetID c) (assets db)) (checksums db))"
    using ok(2) kept by (auto simp: checksums_ok_def list_ex_iff distinct_map_filter)
  moreover have "assets_ok (lastAssetID db) (filter (\<lambda>a. \<not> P a) (assets db))"
    using ok(1) by (auto simp: assets_ok_def distinct_map_filter)
  ultimately show ?thesis
    using ok(3,4) by (auto simp: db_ok_def delete_assets_def epochs_ok_def)
qed

lemma ResetDeviceUploadState_Inr:
  assumes "normalizeUploadResetInput clock input = Inr n"
  shows "snd (ResetDeviceUploadState clock blob input db) =
    (snd (delete_sessions (reset_session n) (snd (delete_assets (reset_asset n)
      (db\<lparr>epochs := (epochs db)(riDeviceID n := Some (hex_encode blob))\<rparr>)))))
      \<lparr>resetEvents := resetEvents db @ [\<lparr>reDeviceID = riDeviceID n,
         reCapturedAfter = nullableTime (riCapturedAfter n), reCapturedBefore = nullableTime (riCapturedBefore n),
         reReason = riReason n, reCreatedAt = riNow n\<rparr>]\<rparr>"
  using assms by (simp add: ResetDeviceUploadState_def Let_def delete_assets_def delete_sessions_def)

lemma db_ok_events [simp]:
  "db_ok (db\<lparr>resetEvents := x\<rparr>) = db_ok db" "db_ok (db\<lparr>commitEvents := y\<rparr>) = db_ok db"
  by (simp_all add: db_ok_def epochs_ok_def)

lemma db_ok_ResetDeviceUploadState:
  "db_ok db \<Longrightarrow> db_ok (snd (ResetDeviceUploadState clock blob input db))"
proof (cases "normalizeUploadResetInput clock input")
  case (Inr n)
  assume "db_ok db"
  then show ?thesis
    by (simp add: ResetDeviceUploadState_Inr [OF Inr] db_ok_delete_sessions db_ok_delete_assets db_ok_epoch)
qed (simp add: ResetDeviceUploadState_def)

lemma db_ok_CleanupUploadSession: "db_ok db \<Longrightarrow> db_ok (snd (CleanupUploadSession clock uploadID input db))"
  by (auto simp: CleanupUploadSession_def Let_def db_ok_delete_sessions split: option.splits)

lemma db_ok_CleanupUploadEvents: "db_ok db \<Longrightarrow> db_ok (snd (CleanupUploadEvents clock input db))"
  by (simp add: CleanupUploadEvents_def Let_def)

lemmas db_ok_ops = db_ok_CreateSession db_ok_UpdateSessionProgress db_ok_AbortSession
  db_ok_ReserveUploadCommit db_ok_MarkUploaded db_ok_LedgerEpoch db_ok_CheckUploaded
  db_ok_ResetDeviceUploadState db_ok_CleanupUploadSession db_ok_CleanupUploadEvents

section \<open>The machine\<close>

text \<open>\<open>R\<close> restricts the devices whose upload state is reset.\<close>

inductive upload_step :: "(string \<Rightarrow> bool) \<Rightarrow> upload_db \<Rightarrow> upload_db \<Rightarrow> bool" for R where
  create: "upload_step R db (snd (CreateSession clock blob input db))"
| progress: "upload_step R db (snd (UpdateSessionProgress clock uploadID e n now db))"
| abort: "upload_step R db (snd (AbortSession clock uploadID d now db))"
| reserve: "upload_step R db (snd (ReserveUploadCommit clock cinput db))"
| mark: "upload_step R db (snd (MarkUploaded clock assetID now db))"
| epoch: "upload_step R db (snd (LedgerEpoch blob d db))"
| check: "upload_step R db (snd (CheckUploaded blob d ids db))"
| reset: "R (trim_space (riDeviceID rinput)) \<Longrightarrow>
    upload_step R db (snd (ResetDeviceUploadState clock blob rinput db))"
| cleanup_session: "upload_step R db (snd (CleanupUploadSession clock uploadID kinput db))"
| cleanup_events: "upload_step R db (snd (CleanupUploadEvents clock kinput db))"

definition emptyUploadDB :: upload_db where
  "emptyUploadDB = \<lparr>epochs = (\<lambda>_. None), assets = [], lastAssetID = 0, checksums = [], sessions = [],
     commitEvents = [], resetEvents = []\<rparr>"

definition upload_init :: "upload_db \<Rightarrow> bool" where
  "upload_init db \<longleftrightarrow> db = emptyUploadDB"

lemma db_ok_step: "upload_step R db db' \<Longrightarrow> db_ok db \<Longrightarrow> db_ok db'"
  by (induction rule: upload_step.induct) (auto intro: db_ok_ops)

lemma db_ok_empty: "db_ok emptyUploadDB"
  by (simp add: db_ok_def emptyUploadDB_def assets_ok_def checksums_ok_def sessions_ok_def epochs_ok_def)

interpretation up: machine upload_init "upload_step R" db_ok for R
  by unfold_locales (auto simp: upload_init_def db_ok_empty intro: db_ok_step)

abbreviation upload_reachable :: "upload_db \<Rightarrow> bool" where
  "upload_reachable \<equiv> reach upload_init (upload_step (\<lambda>_. True))"

end
