(* ===== verification/Upload_Theorems.thy ===== *)
theory Upload_Theorems
  imports Upload_Machine
begin

text \<open>
  What the upload database guarantees: a well-formed ledger in every reachable state; the
  once-only identity of uploaded assets, as a refinement of an abstract ledger and on the
  rows themselves; exact answers to the app's checks; resumable progress; maintenance and
  resets that touch exactly what they should.
\<close>

section \<open>The abstract ledger\<close>

text \<open>
  The ledger as its users see it: an identity (device, asset, version) is unknown, reserved
  by an upload, or uploaded.
\<close>

datatype entry = Reserved string | Uploaded

type_synonym ledger = "string \<times> string \<times> string \<Rightarrow> entry option"

definition entry_of :: "asset_row \<Rightarrow> entry" where
  "entry_of a = (case uaStatus a of AssetCommitting \<Rightarrow> Reserved (uaUploadID a) | AssetUploaded \<Rightarrow> Uploaded)"

definition ledger_of :: "upload_db \<Rightarrow> ledger" where
  "ledger_of db i = map_option entry_of (find (\<lambda>a. identity a = i) (assets db))"

inductive ledger_step :: "(string \<Rightarrow> bool) \<Rightarrow> ledger \<Rightarrow> ledger \<Rightarrow> bool" for R where
  stutter: "ledger_step R l l"
| claim: "l i = None \<or> l i = Some (Reserved u) \<Longrightarrow> ledger_step R l (l(i \<mapsto> Reserved u))"
| finish: "l i \<noteq> None \<Longrightarrow> ledger_step R l (l(i \<mapsto> Uploaded))"
| forget: "R d \<Longrightarrow> (\<And>i. l' i = l i \<or> fst i = d \<and> l' i = None) \<Longrightarrow> ledger_step R l l'"

lemma find_map_key:
  "(\<And>x. key (f x) = key x) \<Longrightarrow> find (\<lambda>x. key x = k) (map f xs) = map_option f (find (\<lambda>x. key x = k) xs)"
  by (induction xs) auto

lemma find_append: "find P (xs @ ys) = (case find P xs of None \<Rightarrow> find P ys | Some x \<Rightarrow> Some x)"
  by (induction xs) auto

lemma find_unique:
  assumes "distinct (map key xs)" and "x \<in> set xs"
  shows "find (\<lambda>y. key y = key x) xs = Some x"
proof (cases "find (\<lambda>y. key y = key x) xs")
  case None
  with assms(2) show ?thesis by (auto simp: find_None_iff)
next
  case (Some y)
  then have "y \<in> set xs" "key y = key x" by (auto simp: find_Some_iff)
  with assms Some show ?thesis by (metis inj_on_def distinct_map)
qed

lemma ledger_of_row:
  assumes "assets_ok n (assets db)" and "a \<in> set (assets db)"
  shows "ledger_of db (identity a) = Some (entry_of a)"
  using find_unique [of identity "assets db" a] assms by (simp add: ledger_of_def assets_ok_def)

lemma ledger_of_same: "assets db' = assets db \<Longrightarrow> ledger_of db' = ledger_of db"
  by (simp add: ledger_of_def fun_eq_iff)

lemma ledger_stutter: "assets db' = assets db \<Longrightarrow> ledger_step R (ledger_of db) (ledger_of db')"
  using ledger_step.stutter [of R "ledger_of db"] ledger_of_same [of db' db] by simp

text \<open>Updating the row with one identifier changes the ledger at its identity only.\<close>

lemma ledger_of_update:
  assumes ok: "assets_ok n (assets db)" and a: "a \<in> set (assets db)"
    and as: "assets db' = map (\<lambda>x. if uaID x = uaID a \<and> Q x then f x else x) (assets db)"
    and f: "\<And>x. identity (f x) = identity x" and Q: "Q a"
  shows "ledger_of db' = (ledger_of db)(identity a \<mapsto> entry_of (f a))"
proof (rule ext)
  fix i
  define g where "g = (\<lambda>x. if uaID x = uaID a \<and> Q x then f x else x)"
  have key: "identity (g x) = identity x" for x using f [of x] by (simp add: g_def)
  have "ledger_of db' i = map_option (entry_of \<circ> g) (find (\<lambda>x. identity x = i) (assets db))"
    unfolding ledger_of_def as g_def [symmetric] find_map_key [of identity g, OF key]
    by (simp add: option.map_comp)
  also have "\<dots> = ((ledger_of db)(identity a \<mapsto> entry_of (f a))) i"
  proof (cases "i = identity a")
    case True
    then have "find (\<lambda>x. identity x = i) (assets db) = Some a"
      using find_unique [of identity "assets db" a] ok a by (simp add: assets_ok_def)
    with True Q show ?thesis by (simp add: g_def)
  next
    case False
    have "g x = x" if "find (\<lambda>x. identity x = i) (assets db) = Some x" for x
    proof -
      from that have "x \<in> set (assets db)" "identity x = i" by (auto simp: find_Some_iff)
      moreover have "inj_on uaID (set (assets db))" using ok by (simp add: assets_ok_def distinct_map)
      ultimately have "uaID x \<noteq> uaID a" using a False by (auto dest: inj_onD)
      then show ?thesis by (simp add: g_def)
    qed
    with False show ?thesis
      by (cases "find (\<lambda>x. identity x = i) (assets db)") (simp_all add: ledger_of_def)
  qed
  finally show "ledger_of db' i = ((ledger_of db)(identity a \<mapsto> entry_of (f a))) i" .
qed

lemma ledger_reserve:
  assumes ok: "db_ok db" and r: "reserveTx n db = (Inr q, db')"
    and trim: "trim_space (ciDeviceID n) = ciDeviceID n" "trim_space (ciSourceAssetID n) = ciSourceAssetID n"
      "trim_space (ciSourceAssetVersion n) = ciSourceAssetVersion n"
  defines "i \<equiv> (ciDeviceID n, ciSourceAssetID n, ciSourceAssetVersion n)"
  shows "(ledger_of db i = None \<or> ledger_of db i = Some (Reserved (ciUploadID n)))
    \<and> ledger_of db' = (ledger_of db)(i \<mapsto> Reserved (ciUploadID n))"
proof -
  from reserveTx_Inr [OF r trim] obtain root where
    "reserves_new n root db db' \<or> (\<exists>a. reserves_again n root a db db')"
    by (metis (no_types, lifting))
  then show ?thesis
  proof (elim disjE exE)
    assume new: "reserves_new n root db db'"
    then have none: "find (\<lambda>a. identity a = i) (assets db) = None"
      by (auto simp: reserves_new_def i_def find_None_iff)
    have "ledger_of db' = (ledger_of db)(i \<mapsto> Reserved (ciUploadID n))"
      using new none
      by (auto simp: ledger_of_def fun_eq_iff reserves_new_def find_append reserved_row_def entry_of_def
          i_def split: option.splits)
    with none show ?thesis by (simp add: ledger_of_def)
  next
    fix a assume again: "reserves_again n root a db db'"
    then have a: "a \<in> set (assets db)" "identity a = i" "uaStatus a = AssetCommitting"
        "uaUploadID a = ciUploadID n"
      by (simp_all add: reserves_again_def i_def)
    have "ledger_of db' = (ledger_of db)(identity a \<mapsto> entry_of (again_row n root a))"
      using again a(3)
      by (intro ledger_of_update [OF db_okD(1) [OF ok] a(1), where Q = "\<lambda>x. uaStatus x = AssetCommitting"])
        (auto simp: reserves_again_def again_row_def)
    moreover have "ledger_of db (identity a) = Some (entry_of a)"
      by (rule ledger_of_row [OF db_okD(1) [OF ok] a(1)])
    ultimately show ?thesis using a(2-4) by (simp add: entry_of_def again_row_def)
  qed
qed

lemma ledger_mark:
  assumes ok: "db_ok db" and m: "markUploadedTx assetID now db = (Inr q, db')"
  shows "\<exists>i. ledger_of db i \<noteq> None \<and> ledger_of db' = (ledger_of db)(i \<mapsto> Uploaded)"
proof -
  obtain row u where row: "row \<in> set (assets db)" "uaID row = assetID"
    and "u \<in> set (sessions db)" and "usUploadID u = uaUploadID row" and
    as: "assets db' = map (\<lambda>a. if uaID a = assetID then uploaded_row now a else a) (assets db)" and
    "sessions db' = map (\<lambda>u. if usUploadID u = uaUploadID row
           then u\<lparr>usStatus := SessionCompleted, usUpdatedAt := now\<rparr> else u) (sessions db)" and
    "epochs db' = epochs db" "checksums db' = checksums db" "lastAssetID db' = lastAssetID db" and
    "q = getUploadedAssetByID assetID"
    by (rule markUploadedTx_Inr [OF m])
  have "ledger_of db' = (ledger_of db)(identity row \<mapsto> entry_of (uploaded_row now row))"
    using as row(2)
    by (intro ledger_of_update [OF db_okD(1) [OF ok] row(1), where Q = "\<lambda>_. True"])
      (auto simp: uploaded_row_def)
  moreover have "ledger_of db (identity row) \<noteq> None"
    using ledger_of_row [OF db_okD(1) [OF ok] row(1)] by simp
  ultimately show ?thesis by (auto simp: entry_of_def uploaded_row_def)
qed

lemma find_filter_not:
  assumes "distinct (map key xs)"
  shows "find (\<lambda>x. key x = k) (filter (\<lambda>x. \<not> P x) xs)
    = (case find (\<lambda>x. key x = k) xs of None \<Rightarrow> None | Some x \<Rightarrow> if P x then None else Some x)"
  using assms
proof (induction xs)
  case (Cons x xs)
  have "find (\<lambda>y. key y = k) xs = None" if "key x = k"
  proof -
    have "k \<notin> key ` set xs" using that Cons.prems by auto
    then show ?thesis unfolding find_None_iff by blast
  qed
  with Cons show ?case by (auto split: option.splits)
qed simp

lemma normalizeReset_device:
  "normalizeUploadResetInput clock input = Inr n \<Longrightarrow> riDeviceID n = trim_space (riDeviceID input)"
  by (auto simp: normalizeUploadResetInput_def Let_def split: if_splits option.splits)

lemma reset_tables:
  fixes db :: upload_db and blob :: string
  assumes "normalizeUploadResetInput clock input = Inr n"
  defines "db' \<equiv> snd (ResetDeviceUploadState clock blob input db)"
  shows "assets db' = filter (\<lambda>a. \<not> reset_asset n a) (assets db)"
    and "sessions db' = filter (\<lambda>u. \<not> reset_session n u) (sessions db)"
    and "checksums db' = filter (\<lambda>c. \<not> list_ex (\<lambda>a. reset_asset n a \<and> uaID a = ckAssetID c) (assets db)) (checksums db)"
    and "epochs db' = (epochs db)(riDeviceID n := Some (hex_encode blob))"
    and "lastAssetID db' = lastAssetID db"
  by (simp_all add: db'_def ResetDeviceUploadState_Inr [OF assms(1)] delete_assets_def delete_sessions_def)

lemma cleanup_tables:
  "assets (snd (CleanupUploadSession clock uploadID input db)) = assets db"
  "checksums (snd (CleanupUploadSession clock uploadID input db)) = checksums db"
  "epochs (snd (CleanupUploadSession clock uploadID input db)) = epochs db"
  "lastAssetID (snd (CleanupUploadSession clock uploadID input db)) = lastAssetID db"
  "assets (snd (CleanupUploadEvents clock input db)) = assets db"
  "checksums (snd (CleanupUploadEvents clock input db)) = checksums db"
  "epochs (snd (CleanupUploadEvents clock input db)) = epochs db"
  "lastAssetID (snd (CleanupUploadEvents clock input db)) = lastAssetID db"
  "sessions (snd (CleanupUploadEvents clock input db)) = sessions db"
  by (auto simp: CleanupUploadSession_def CleanupUploadEvents_def Let_def delete_sessions_def
      split: option.splits)

lemma epoch_tables:
  "assets (snd (LedgerEpoch blob d db)) = assets db"
  "checksums (snd (LedgerEpoch blob d db)) = checksums db"
  "sessions (snd (LedgerEpoch blob d db)) = sessions db"
  "epochs db d' = Some e \<Longrightarrow> epochs (snd (LedgerEpoch blob d db)) d' = Some e"
  by (auto simp: LedgerEpoch_def Let_def split: option.splits)

lemma snd_CheckUploaded: "snd (CheckUploaded blob d ids db) = snd (LedgerEpoch blob (trim_space d) db)"
  by (auto simp: CheckUploaded_def Let_def split: prod.splits sum.splits)

lemma create_tables:
  "assets (snd (CreateSession clock blob input db)) = assets db"
  "checksums (snd (CreateSession clock blob input db)) = checksums db"
  "epochs db d = Some e \<Longrightarrow> epochs (snd (CreateSession clock blob input db)) d = Some e"
proof -
  have "assets (snd (CreateSession clock blob input db)) = assets db
      \<and> checksums (snd (CreateSession clock blob input db)) = checksums db
      \<and> (epochs db d = Some e \<longrightarrow> epochs (snd (CreateSession clock blob input db)) d = Some e)"
  proof (cases "normalizeSessionInput clock input")
    case (Inr n)
    obtain r db1 where e: "LedgerEpoch blob (siDeviceID n) db = (r, db1)" by (cases "LedgerEpoch blob (siDeviceID n) db")
    then have "db1 = snd (LedgerEpoch blob (siDeviceID n) db)" by simp
    with epoch_tables have "assets db1 = assets db" "checksums db1 = checksums db"
        "epochs db d = Some e \<longrightarrow> epochs db1 d = Some e"
      by metis+
    then show ?thesis
      by (auto simp: CreateSession_def Inr e Let_def split: sum.splits option.splits)
  qed (simp add: CreateSession_def)
  then show "assets (snd (CreateSession clock blob input db)) = assets db"
    "checksums (snd (CreateSession clock blob input db)) = checksums db"
    "epochs db d = Some e \<Longrightarrow> epochs (snd (CreateSession clock blob input db)) d = Some e"
    by blast+
qed

lemma session_tables:
  "assets (snd (UpdateSessionProgress clock uploadID e n now db)) = assets db"
  "checksums (snd (UpdateSessionProgress clock uploadID e n now db)) = checksums db"
  "epochs (snd (UpdateSessionProgress clock uploadID e n now db)) = epochs db"
  "assets (snd (AbortSession clock uploadID d now db)) = assets db"
  "checksums (snd (AbortSession clock uploadID d now db)) = checksums db"
  "epochs (snd (AbortSession clock uploadID d now db)) = epochs db"
  by (simp_all add: snd_UpdateSessionProgress snd_AbortSession update_sessions_def)

lemmas upload_tables = cleanup_tables epoch_tables snd_CheckUploaded create_tables session_tables

text \<open>How a reservation or a commit steps: with its transaction, or not at all.\<close>

lemma reserve_step_cases:
  obtains (unchanged) "snd (ReserveUploadCommit clock input db) = db"
  | (committed) n q where "normalizeCommitInput clock input = Inr n"
      and "reserveTx n db = (Inr q, snd (ReserveUploadCommit clock input db))"
proof (cases "normalizeCommitInput clock input")
  case (Inr n)
  show thesis
    using that by (cases "reserveTx n db"; cases "fst (reserveTx n db)")
      (auto simp: ReserveUploadCommit_def Inr snd_transaction)
qed (use that in \<open>simp add: ReserveUploadCommit_def\<close>)

lemma mark_step_cases:
  obtains (unchanged) "snd (MarkUploaded clock assetID now db) = db"
  | (committed) q where "markUploadedTx assetID (nonZeroTime clock now) db = (Inr q, snd (MarkUploaded clock assetID now db))"
  by (cases "markUploadedTx assetID (nonZeroTime clock now) db";
      cases "fst (markUploadedTx assetID (nonZeroTime clock now) db)")
    (auto simp: MarkUploaded_def snd_transaction)

lemma ledger_reset:
  assumes ok: "db_ok db" and as: "assets db' = filter (\<lambda>a. \<not> reset_asset n a) (assets db)"
  shows "ledger_of db' i = ledger_of db i \<or> fst i = riDeviceID n \<and> ledger_of db' i = None"
proof -
  have d: "distinct (map identity (assets db))" using db_okD(1) [OF ok] by (simp add: assets_ok_def)
  show ?thesis
  proof (cases "find (\<lambda>a. identity a = i) (assets db)")
    case None
    then show ?thesis unfolding ledger_of_def as find_filter_not [OF d] by simp
  next
    case (Some a)
    then have "identity a = i" by (auto simp: find_Some_iff)
    then have "fst i = riDeviceID n" if "reset_asset n a"
      using that by (auto simp: reset_asset_def resetWhereClause_def)
    with Some show ?thesis unfolding ledger_of_def as find_filter_not [OF d] by simp
  qed
qed

text \<open>
  C1. The upload database implements a once-only ledger: whatever operation runs, and
  whether it succeeds or fails, an identity only goes from unknown to reserved by one
  upload (or again by the same one), from known to uploaded, or back to unknown, the last
  only by an administrator's reset of its device.
\<close>

theorem database_refines_ledger:
  assumes "upload_reachable db" and "upload_step R db db'"
  shows "ledger_step R (ledger_of db) (ledger_of db')"
proof -
  have ok: "db_ok db" using assms(1) by (rule up.inv_reach)
  show ?thesis
    using assms(2)
  proof cases
    case (reserve clock input)
    show ?thesis
    proof (cases rule: reserve_step_cases [of clock input db])
      case unchanged
      with reserve show ?thesis by (simp add: ledger_step.stutter)
    next
      case (committed n q)
      from ledger_reserve [OF ok committed(2) normalizeCommitInput_trimmed(1-3) [OF committed(1)]]
      show ?thesis unfolding reserve
        using ledger_step.claim [of "ledger_of db" "(ciDeviceID n, ciSourceAssetID n, ciSourceAssetVersion n)"
            "ciUploadID n" R] by simp
    qed
  next
    case (mark clock assetID now)
    show ?thesis
    proof (cases rule: mark_step_cases [of clock assetID now db])
      case unchanged
      with mark show ?thesis by (simp add: ledger_step.stutter)
    next
      case (committed q)
      from ledger_mark [OF ok committed] obtain i where "ledger_of db i \<noteq> None"
        "ledger_of db' = (ledger_of db)(i \<mapsto> Uploaded)" unfolding mark by blast
      then show ?thesis using ledger_step.finish [of "ledger_of db" i R] by simp
    qed
  next
    case (reset input clock blob)
    show ?thesis
    proof (cases "normalizeUploadResetInput clock input")
      case (Inl e)
      then have "db' = db" using reset by (simp add: ResetDeviceUploadState_def)
      then show ?thesis by (simp add: ledger_step.stutter)
    next
      case (Inr n)
      have as: "assets db' = filter (\<lambda>a. \<not> reset_asset n a) (assets db)"
        using reset_tables(1) [OF Inr] reset(1) by simp
      have "ledger_of db' i = ledger_of db i \<or> fst i = riDeviceID n \<and> ledger_of db' i = None" for i
        by (rule ledger_reset [OF ok as])
      moreover have "R (riDeviceID n)" using reset(2) normalizeReset_device [OF Inr] by simp
      ultimately show ?thesis by (rule ledger_step.forget [rotated])
    qed
  qed (auto simp: upload_tables intro!: ledger_stutter)
qed

section \<open>A concrete database\<close>

definition ex_session_input :: upload_session_input where
  "ex_session_input = \<lparr>siUploadID = ''u1'', siDeviceID = '' d1'', siSourceAssetID = ''a1'',
     siSourceAssetVersion = ''v1'', siMediaType = ''image/jpeg'', siOriginalFilename = ''x.jpg'',
     siCapturedAt = Some 50, siExpectedSizeBytes = Some 10, siSelectedRootKey = ''photos'',
     siTempRelativePath = ''u1.part'', siExpiresAt = Some 1000, siNow = 100\<rparr>"

definition ex_commit_input :: upload_commit_input where
  "ex_commit_input = \<lparr>ciUploadID = ''u1'', ciDeviceID = ''d1'', ciSourceAssetID = ''a1 '',
     ciSourceAssetVersion = ''v1'', ciMediaType = ''image/jpeg'', ciOriginalFilename = ''x.jpg'',
     ciCapturedAt = Some 50, ciExpectedSizeBytes = Some 10, ciFinalRelativePath = ''d1/x.jpg'',
     ciChecksums = [\<lparr>ucAlgorithm = ''SHA256'', ucEncoding = [], ucDigest = ''00ff''\<rparr>], ciNow = 200\<rparr>"

definition ex_active :: upload_db where
  "ex_active = snd (CreateSession 1 ''sixteen bytes ok'' ex_session_input emptyUploadDB)"
definition ex_reserved :: upload_db where
  "ex_reserved = snd (ReserveUploadCommit 1 ex_commit_input ex_active)"
definition ex_uploaded :: upload_db where
  "ex_uploaded = snd (MarkUploaded 1 1 300 ex_reserved)"

lemma ex_active_reachable: "upload_reachable ex_active"
  unfolding ex_active_def
  by (rule reach.step [OF reach.start]) (auto simp: upload_init_def intro: upload_step.create)

lemma ex_reserved_reachable: "upload_reachable ex_reserved"
  unfolding ex_reserved_def by (rule reach.step [OF ex_active_reachable]) (rule upload_step.reserve)

lemma ex_uploaded_reachable: "upload_reachable ex_uploaded"
  unfolding ex_uploaded_def by (rule reach.step [OF ex_reserved_reachable]) (rule upload_step.mark)

theorem database_refines_ledger_witness:
  "ledger_of ex_active (''d1'', ''a1'', ''v1'') = None
   \<and> ledger_of ex_reserved (''d1'', ''a1'', ''v1'') = Some (Reserved ''u1'')
   \<and> ledger_step (\<lambda>_. False) (ledger_of ex_active) (ledger_of ex_reserved)"
proof (intro conjI)
  show "ledger_of ex_active (''d1'', ''a1'', ''v1'') = None" by code_simp
  show "ledger_of ex_reserved (''d1'', ''a1'', ''v1'') = Some (Reserved ''u1'')" by code_simp
  show "ledger_step (\<lambda>_. False) (ledger_of ex_active) (ledger_of ex_reserved)"
    unfolding ex_reserved_def
    by (rule database_refines_ledger [OF ex_active_reachable]) (rule upload_step.reserve)
qed

section \<open>An uploaded asset is final\<close>

lemma checksumsForAsset_upsert:
  assumes "i \<noteq> j"
  shows "filter (\<lambda>c. ckAssetID c = i) (upsertChecksum j now c rows) = filter (\<lambda>c. ckAssetID c = i) rows"
proof -
  have "filter (\<lambda>c. ckAssetID c = i) (map (\<lambda>r. if ckAssetID r = j \<and> ucAlgorithm (ckChecksum r) = ucAlgorithm c
      then r\<lparr>ckChecksum := c\<rparr> else r) rows) = filter (\<lambda>c. ckAssetID c = i) rows"
    using assms by (induction rows) auto
  then show ?thesis using assms by (simp add: upsertChecksum_def Let_def)
qed

lemma checksums_fold:
  "i \<noteq> j \<Longrightarrow> filter (\<lambda>c. ckAssetID c = i) (fold (upsertChecksum j now) ns rows)
     = filter (\<lambda>c. ckAssetID c = i) rows"
  by (induction ns arbitrary: rows) (simp_all add: checksumsForAsset_upsert)

text \<open>The row \<open>a\<close>, up to the time of its last update, its checksums and its device's epoch.\<close>

definition holds_upload ::
    "asset_row \<Rightarrow> checksum_row list \<Rightarrow> string \<Rightarrow> upload_db \<Rightarrow> bool" where
  "holds_upload a cs e db \<longleftrightarrow>
     db_ok db \<and> uaStatus a = AssetUploaded \<and> (\<exists>t. a\<lparr>uaUpdatedAt := t\<rparr> \<in> set (assets db))
   \<and> filter (\<lambda>c. ckAssetID c = uaID a) (checksums db) = cs \<and> epochs db (uaDeviceID a) = Some e"

lemma holds_same:
  assumes "holds_upload a cs e db" and "db_ok db'" and "assets db' = assets db"
    and "checksums db' = checksums db" and "epochs db' (uaDeviceID a) = Some e"
  shows "holds_upload a cs e db'"
  using assms by (simp add: holds_upload_def)

lemma holds_reserve:
  assumes h: "holds_upload a cs e db" and r: "reserveTx n db = (Inr q, db')" and ok: "db_ok db'"
    and trim: "trim_space (ciDeviceID n) = ciDeviceID n" "trim_space (ciSourceAssetID n) = ciSourceAssetID n"
      "trim_space (ciSourceAssetVersion n) = ciSourceAssetVersion n"
  shows "holds_upload a cs e db'"
proof -
  from reserveTx_Inr [OF r trim] obtain root where ep: "epochs db' = epochs db"
    and cases: "reserves_new n root db db' \<or> (\<exists>b. reserves_again n root b db db')"
    by (metis (no_types, lifting))
  from h obtain t where a: "a\<lparr>uaUpdatedAt := t\<rparr> \<in> set (assets db)" and up: "uaStatus a = AssetUploaded"
    and cs: "filter (\<lambda>c. ckAssetID c = uaID a) (checksums db) = cs" and e: "epochs db (uaDeviceID a) = Some e"
    and dbok: "db_ok db"
    unfolding holds_upload_def by blast
  note as_ok = db_okD(1) [OF dbok]
  from cases show ?thesis
  proof (elim disjE exE)
    assume new: "reserves_new n root db db'"
    have "uaID a \<noteq> lastAssetID db + 1" using as_ok a by (fastforce simp: assets_ok_def)
    then have "filter (\<lambda>c. ckAssetID c = uaID a) (checksums db') = cs"
      using new cs by (simp add: reserves_new_def checksums_fold)
    with new a up ep e ok show ?thesis by (auto simp: holds_upload_def reserves_new_def)
  next
    fix b assume again: "reserves_again n root b db db'"
    then have b: "b \<in> set (assets db)" "uaStatus b = AssetCommitting" by (simp_all add: reserves_again_def)
    have inj: "inj_on uaID (set (assets db))" using as_ok by (simp add: assets_ok_def distinct_map)
    have ne: "uaID a \<noteq> uaID b"
    proof
      assume "uaID a = uaID b"
      then have "a\<lparr>uaUpdatedAt := t\<rparr> = b" using inj_onD [OF inj _ a b(1)] by simp
      then have "uaStatus (a\<lparr>uaUpdatedAt := t\<rparr>) = uaStatus b" by simp
      with b(2) up show False by simp
    qed
    then have "filter (\<lambda>c. ckAssetID c = uaID a) (checksums db') = cs"
      using again cs by (simp add: reserves_again_def checksums_fold)
    moreover have "a\<lparr>uaUpdatedAt := t\<rparr> \<in> set (assets db')"
      using again a ne by (force simp: reserves_again_def)
    ultimately show ?thesis using up ep e ok by (auto simp: holds_upload_def)
  qed
qed

lemma holds_mark:
  assumes h: "holds_upload a cs e db" and m: "markUploadedTx assetID now db = (Inr q, db')" and ok: "db_ok db'"
  shows "holds_upload a cs e db'"
proof -
  obtain row u where "row \<in> set (assets db)" "uaID row = assetID"
    and "u \<in> set (sessions db)" and "usUploadID u = uaUploadID row" and
    as: "assets db' = map (\<lambda>a. if uaID a = assetID then uploaded_row now a else a) (assets db)" and
    "sessions db' = map (\<lambda>u. if usUploadID u = uaUploadID row
           then u\<lparr>usStatus := SessionCompleted, usUpdatedAt := now\<rparr> else u) (sessions db)" and
    same: "epochs db' = epochs db" "checksums db' = checksums db" "lastAssetID db' = lastAssetID db" and
    "q = getUploadedAssetByID assetID"
    by (rule markUploadedTx_Inr [OF m])
  from h obtain t where a: "a\<lparr>uaUpdatedAt := t\<rparr> \<in> set (assets db)" and up: "uaStatus a = AssetUploaded"
    and dbok: "db_ok db"
    unfolding holds_upload_def by blast
  then have "uaUploadedAt a \<noteq> None" using db_okD(1) [OF dbok] by (force simp: assets_ok_def)
  then have "uploaded_row now (a\<lparr>uaUpdatedAt := t\<rparr>) = a\<lparr>uaUpdatedAt := now\<rparr>"
    using up by (cases a) (auto simp: uploaded_row_def)
  moreover have "(if uaID (a\<lparr>uaUpdatedAt := t\<rparr>) = assetID then uploaded_row now (a\<lparr>uaUpdatedAt := t\<rparr>)
      else a\<lparr>uaUpdatedAt := t\<rparr>) \<in> set (assets db')"
    unfolding as set_map by (rule image_eqI [OF _ a]) simp
  ultimately have "\<exists>t. a\<lparr>uaUpdatedAt := t\<rparr> \<in> set (assets db')"
    by (auto split: if_splits)
  with h ok same show ?thesis by (simp add: holds_upload_def)
qed

lemma holds_step:
  assumes "upload_step (\<lambda>d. d \<noteq> uaDeviceID a) db db'" and h: "holds_upload a cs e db"
  shows "holds_upload a cs e db'"
proof -
  have ok: "db_ok db'" using assms by (auto simp: holds_upload_def intro: db_ok_step)
  have e: "epochs db (uaDeviceID a) = Some e" using h by (simp add: holds_upload_def)
  from assms(1) show ?thesis
  proof cases
    case (reserve clock input)
    show ?thesis
    proof (cases rule: reserve_step_cases [of clock input db])
      case unchanged
      with reserve h show ?thesis by simp
    next
      case (committed n q)
      with holds_reserve [OF h committed(2)] normalizeCommitInput_trimmed [OF committed(1)] ok reserve
      show ?thesis by simp
    qed
  next
    case (mark clock assetID now)
    show ?thesis
    proof (cases rule: mark_step_cases [of clock assetID now db])
      case unchanged
      with mark h show ?thesis by simp
    next
      case (committed q)
      with holds_mark [OF h committed] ok mark show ?thesis by simp
    qed
  next
    case (reset input clock blob)
    show ?thesis
    proof (cases "normalizeUploadResetInput clock input")
      case (Inl err)
      then have "db' = db" using reset by (simp add: ResetDeviceUploadState_def)
      with h show ?thesis by simp
    next
      case (Inr n)
      note tables = reset_tables [OF Inr, of blob db, folded reset(1)]
      have other: "riDeviceID n \<noteq> uaDeviceID a" using reset(2) normalizeReset_device [OF Inr] by simp
      from h obtain t where a: "a\<lparr>uaUpdatedAt := t\<rparr> \<in> set (assets db)" unfolding holds_upload_def by blast
      have inj: "inj_on uaID (set (assets db))"
        using h by (simp add: holds_upload_def db_ok_def assets_ok_def distinct_map)
      have spared: "\<not> (reset_asset n x \<and> uaID x = uaID a)" if "x \<in> set (assets db)" for x
      proof
        assume x: "reset_asset n x \<and> uaID x = uaID a"
        then have "x = a\<lparr>uaUpdatedAt := t\<rparr>" using inj_onD [OF inj _ that a] by simp
        with x other show False by (simp add: reset_asset_def resetWhereClause_def)
      qed
      have "a\<lparr>uaUpdatedAt := t\<rparr> \<in> set (assets db')" using a spared [OF a] by (simp add: tables)
      moreover have "filter (\<lambda>c. ckAssetID c = uaID a) (checksums db')
          = filter (\<lambda>c. ckAssetID c = uaID a) (checksums db)"
        using spared by (auto simp: tables list_ex_iff intro!: filter_cong)
      ultimately show ?thesis using h ok other by (auto simp: holds_upload_def tables)
    qed
  qed (use h ok e in \<open>auto simp: upload_tables intro!: holds_same [OF h]\<close>)
qed

interpretation final: machine "holds_upload a cs e" "upload_step (\<lambda>d. d \<noteq> uaDeviceID a)" "holds_upload a cs e"
  for a cs e
  by unfold_locales (blast intro: holds_step)+

text \<open>
  C2. An uploaded asset is final: whatever is uploaded, committed, cleaned up or reset for
  other devices afterwards, the ledger keeps its row (but for the time of the last update),
  its identifier, final path and checksums, and the device's epoch; and every attempt to
  reserve the same identity again fails and changes nothing.
\<close>

theorem uploaded_asset_is_final:
  assumes "upload_reachable db" and "a \<in> set (assets db)" and "uaStatus a = AssetUploaded"
    and "(upload_step (\<lambda>d. d \<noteq> uaDeviceID a))\<^sup>*\<^sup>* db db'"
  shows "(\<exists>t. a\<lparr>uaUpdatedAt := t\<rparr> \<in> set (assets db'))
    \<and> checksumsForAsset (uaID a) db' = checksumsForAsset (uaID a) db
    \<and> epochs db' (uaDeviceID a) = epochs db (uaDeviceID a)
    \<and> (\<forall>clock input n. normalizeCommitInput clock input = Inr n \<longrightarrow>
         (ciDeviceID n, ciSourceAssetID n, ciSourceAssetVersion n) = identity a \<longrightarrow>
         (\<exists>e. ReserveUploadCommit clock input db' = (Inl e, db')))"
proof -
  have ok: "db_ok db" using assms(1) by (rule up.inv_reach)
  then obtain e where e: "epochs db (uaDeviceID a) = Some e"
    using assms(2) by (auto simp: db_ok_def epochs_ok_def)
  define cs where "cs = filter (\<lambda>c. ckAssetID c = uaID a) (checksums db)"
  have self: "a\<lparr>uaUpdatedAt := uaUpdatedAt a\<rparr> = a" by simp
  then have "\<exists>t. a\<lparr>uaUpdatedAt := t\<rparr> \<in> set (assets db)" using assms(2) by metis
  then have "holds_upload a cs e db" using ok assms(3) e by (simp add: holds_upload_def cs_def)
  then have h: "holds_upload a cs e db'" using final.inv_steps [OF assms(4)] by blast
  then obtain t where t: "a\<lparr>uaUpdatedAt := t\<rparr> \<in> set (assets db')" and ok': "db_ok db'"
    unfolding holds_upload_def by blast
  have "\<exists>e. ReserveUploadCommit clock input db' = (Inl e, db')"
    if n: "normalizeCommitInput clock input = Inr n"
      and i: "(ciDeviceID n, ciSourceAssetID n, ciSourceAssetVersion n) = identity a" for clock input n
  proof -
    have "ledger_of db' (identity a) = Some Uploaded"
      using ledger_of_row [OF db_okD(1) [OF ok'] t] assms(3) by (simp add: entry_of_def)
    then have "reserveTx n db' \<noteq> (Inr q, db'')" for q db''
      using ledger_reserve [OF ok' _ normalizeCommitInput_trimmed(1-3) [OF n]] i by fastforce
    then show ?thesis
      by (cases "reserveTx n db'"; cases "fst (reserveTx n db')")
        (auto simp: ReserveUploadCommit_def n transaction_def readBack_def)
  qed
  with h t e show ?thesis by (auto simp: holds_upload_def cs_def checksumsForAsset_def)
qed

theorem uploaded_asset_is_final_witness:
  "let db' = snd (MarkUploaded 1 1 900 (snd (CleanupUploadEvents 1 \<lparr>kiNow = 800,
        kiCompletedSessionRetention = 0, kiAbortedSessionRetention = 0, kiFailedSessionRetention = 0,
        kiCommitEventRetention = 0, kiResetEventRetention = 0\<rparr> ex_uploaded)))
   in is_ok (normalizeCommitInput 1 ex_commit_input)
     \<and> (\<exists>e. ReserveUploadCommit 1 ex_commit_input db' = (Inl e, db'))"
proof -
  define a where "a = hd (assets ex_uploaded)"
  define mid where "mid = snd (CleanupUploadEvents 1 \<lparr>kiNow = 800,
        kiCompletedSessionRetention = 0, kiAbortedSessionRetention = 0, kiFailedSessionRetention = 0,
        kiCommitEventRetention = 0, kiResetEventRetention = 0\<rparr> ex_uploaded)"
  define db' where "db' = snd (MarkUploaded 1 1 900 mid)"
  define n where "n = projr (normalizeCommitInput 1 ex_commit_input)"
  have a: "a \<in> set (assets ex_uploaded)" "uaStatus a = AssetUploaded"
    unfolding a_def by code_simp+
  have ok: "is_ok (normalizeCommitInput 1 ex_commit_input)" by code_simp
  then have n: "normalizeCommitInput 1 ex_commit_input = Inr n" by (auto simp: n_def is_ok_iff)
  have i: "(ciDeviceID n, ciSourceAssetID n, ciSourceAssetVersion n) = identity a"
    unfolding n_def a_def by code_simp
  let ?R = "upload_step (\<lambda>d. d \<noteq> uaDeviceID a)"
  have "?R ex_uploaded mid" unfolding mid_def by (rule upload_step.cleanup_events)
  moreover have "?R mid db'" unfolding db'_def by (rule upload_step.mark)
  ultimately have "?R\<^sup>*\<^sup>* ex_uploaded db'" by (meson rtranclp.simps)
  from uploaded_asset_is_final [OF ex_uploaded_reachable a this] n i ok
  show ?thesis unfolding mid_def [symmetric] db'_def [symmetric] Let_def by blast
qed

section \<open>Answers to the app\<close>

lemma LedgerEpoch_again:
  assumes "LedgerEpoch blob d db = (Inr e, db')"
  shows "LedgerEpoch blob' d db' = (Inr e, db')" and "trim_space d \<noteq> []"
    and "epochs db' = (epochs db)(trim_space d := Some e)" and "assets db' = assets db"
    and "\<And>e'. epochs db (trim_space d) = Some e' \<Longrightarrow> e = e' \<and> db' = db"
  using assms by (auto simp: LedgerEpoch_def Let_def split: if_splits option.splits)

text \<open>
  A check of what is uploaded is answered from one snapshot and exactly: the answer for
  an identity is true if and only if the ledger has it uploaded, the epoch is the one the
  device already had, repeating the check gives the same answers and epoch, and nothing
  but a missing epoch is ever written.
\<close>

theorem check_uploaded_is_exact:
  assumes "upload_reachable db" and "CheckUploaded blob deviceID ids db = (Inr (epoch, states), db')"
  shows "states = map (\<lambda>(x, v). ledger_of db (trim_space deviceID, x, v) = Some Uploaded) ids
    \<and> (\<forall>e. epochs db (trim_space deviceID) = Some e \<longrightarrow> epoch = e \<and> db' = db)
    \<and> epochs db' = (epochs db)(trim_space deviceID \<mapsto> epoch) \<and> assets db' = assets db
    \<and> CheckUploaded blob' deviceID ids db' = (Inr (epoch, states), db')"
proof -
  have ok: "assets_ok (lastAssetID db) (assets db)"
    by (rule db_okD(1) [OF up.inv_reach [OF assms(1)]])
  from assms(2) have e: "LedgerEpoch blob (trim_space deviceID) db = (Inr epoch, db')"
    and st: "states = map (\<lambda>(assetID, version). list_ex (\<lambda>a. has_identity (trim_space deviceID) assetID version a
           \<and> uaStatus a = AssetUploaded) (assets db')) ids"
    by (auto simp: CheckUploaded_def Let_def split: prod.splits sum.splits)
  note again = LedgerEpoch_again [OF e, unfolded trim_space_idem]
  have "list_ex (\<lambda>a. has_identity d x v a \<and> uaStatus a = AssetUploaded) (assets db)
      \<longleftrightarrow> ledger_of db (d, x, v) = Some Uploaded" for d x v
  proof
    assume "list_ex (\<lambda>a. has_identity d x v a \<and> uaStatus a = AssetUploaded) (assets db)"
    then obtain a where a: "a \<in> set (assets db)" "identity a = (d, x, v)" "uaStatus a = AssetUploaded"
      by (auto simp: list_ex_iff has_identity_iff)
    then show "ledger_of db (d, x, v) = Some Uploaded"
      using ledger_of_row [OF ok a(1)] by (simp add: entry_of_def)
  next
    assume "ledger_of db (d, x, v) = Some Uploaded"
    then obtain a where "find (\<lambda>a. identity a = (d, x, v)) (assets db) = Some a" "entry_of a = Uploaded"
      by (auto simp: ledger_of_def)
    then show "list_ex (\<lambda>a. has_identity d x v a \<and> uaStatus a = AssetUploaded) (assets db)"
      by (auto simp: find_Some_iff list_ex_iff has_identity_iff entry_of_def split: asset_status.splits)
  qed
  then have "states = map (\<lambda>(x, v). ledger_of db (trim_space deviceID, x, v) = Some Uploaded) ids"
    by (simp add: st again(4))
  then show ?thesis
    using again st by (simp add: CheckUploaded_def Let_def)
qed

theorem check_uploaded_is_exact_witness:
  "let r = CheckUploaded ''blob'' '' d1 '' [(''a1'', ''v1''), (''a1'', ''v2'')] ex_uploaded
   in is_ok (fst r) \<and> snd (projr (fst r)) = [True, False]
      \<and> CheckUploaded ''other'' '' d1 '' [(''a1'', ''v1''), (''a1'', ''v2'')] (snd r) = r"
proof -
  define r where "r = CheckUploaded ''blob'' '' d1 '' [(''a1'', ''v1''), (''a1'', ''v2'')] ex_uploaded"
  have ok: "is_ok (fst r)" "snd (projr (fst r)) = [True, False]" unfolding r_def by code_simp+
  then obtain epoch states where r: "r = (Inr (epoch, states), snd r)" by (cases r) (auto simp: is_ok_iff)
  from check_uploaded_is_exact [OF ex_uploaded_reachable r [unfolded r_def]] r
  have "CheckUploaded ''other'' '' d1 '' [(''a1'', ''v1''), (''a1'', ''v2'')] (snd r) = r"
    unfolding r_def [symmetric] by metis
  with ok show ?thesis unfolding r_def [symmetric] Let_def by blast
qed

section \<open>Progress\<close>

lemma find_update:
  assumes "\<And>u. key (f u) = key u"
  shows "find (\<lambda>u. key u = k) (map (\<lambda>u. if P u then f u else u) us)
    = map_option (\<lambda>u. if P u then f u else u) (find (\<lambda>u. key u = k) us)"
  using assms by (subst find_map_key) auto

lemma GetSession_Some_iff:
  assumes "db_ok db"
  shows "GetSession uploadID db = Some u \<longleftrightarrow> u \<in> set (sessions db) \<and> usUploadID u = trim_space uploadID"
proof -
  have d: "distinct (map usUploadID (sessions db))" using db_okD(3) [OF assms] by (simp add: sessions_ok_def)
  show ?thesis
    using find_unique [OF d, of u] by (auto simp: GetSession_def find_Some_iff)
qed

text \<open>
  Advancing an upload is a compare-and-swap on its offset: it succeeds exactly when the
  session is active and stands at the expected offset, moves that session and no other to
  the new offset, and otherwise changes nothing and says why, with the current session when
  the offset differs; so of two appends from the same offset only one succeeds, unless the
  first was empty.
\<close>

theorem progress_is_compare_and_swap:
  assumes "upload_reachable db" and "0 \<le> expected" and "expected \<le> nextOffset"
    and r_def: "r = UpdateSessionProgress clock uploadID expected nextOffset now db"
  shows "(case GetSession uploadID db of
        None \<Rightarrow> r = (Inl ErrUploadSessionNotFound, db)
      | Some u \<Rightarrow>
          if usStatus u \<noteq> SessionActive then r = (Inl ErrUploadSessionNotFound, db)
          else if usNextOffset u \<noteq> expected then r = (Inl (ErrUploadSessionOffsetConflict u), db)
          else let v = u\<lparr>usNextOffset := nextOffset, usUpdatedAt := nonZeroTime clock now\<rparr>
               in r = (Inr v, db\<lparr>sessions := map (\<lambda>x. if x = u then v else x) (sessions db)\<rparr>)
                  \<and> (expected < nextOffset \<longrightarrow>
                      UpdateSessionProgress clock' uploadID expected n' now' (snd r)
                        = (Inl (if n' < expected then ErrInvalidInput ''next offset''
                                else ErrUploadSessionOffsetConflict v), snd r)))"
proof -
  have ok: "db_ok db" using assms(1) by (rule up.inv_reach)
  let ?id = "trim_space uploadID"
  define P where "P = (\<lambda>u :: upload_session. usUploadID u = ?id \<and> usStatus u = SessionActive \<and> usNextOffset u = expected)"
  define f where "f = (\<lambda>u :: upload_session. u\<lparr>usNextOffset := nextOffset, usUpdatedAt := nonZeroTime clock now\<rparr>)"
  have fid: "usUploadID (f u) = usUploadID u" for u by (simp add: f_def)
  define db1 where "db1 = db\<lparr>sessions := map (\<lambda>u. if P u then f u else u) (sessions db)\<rparr>"
  have up: "update_sessions
      (\<lambda>u. usUploadID u = ?id \<and> usStatus u = SessionActive \<and> usNextOffset u = expected)
      (\<lambda>u. u\<lparr>usNextOffset := nextOffset, usUpdatedAt := nonZeroTime clock now\<rparr>) db
      = (length (filter P (sessions db)), db1)"
    unfolding db1_def update_sessions_def P_def f_def by (rule refl)
  have run: "r = (if filter P (sessions db) = [] then
        (case GetSession uploadID db1 of None \<Rightarrow> (Inl ErrUploadSessionNotFound, db1)
         | Some u \<Rightarrow> if usStatus u \<noteq> SessionActive then (Inl ErrUploadSessionNotFound, db1)
                     else (Inl (ErrUploadSessionOffsetConflict u), db1))
      else (case GetSession uploadID db1 of None \<Rightarrow> (Inl ErrUploadSessionNotFound, db1) | Some u \<Rightarrow> (Inr u, db1)))"
    unfolding r_def UpdateSessionProgress_def Let_def up prod.case
    using assms(2,3) by (simp add: GetSession_def)
  have get1: "GetSession uploadID db1 = map_option (\<lambda>u. if P u then f u else u) (GetSession uploadID db)"
    using find_update [of usUploadID f ?id P "sessions db", OF fid] by (simp add: GetSession_def db1_def)
  show ?thesis
  proof (cases "GetSession uploadID db")
    case None
    then have "\<forall>u\<in>set (sessions db). usUploadID u \<noteq> ?id" by (auto simp: GetSession_def find_None_iff)
    then have none: "\<forall>u\<in>set (sessions db). \<not> P u" by (auto simp: P_def)
    then have "db1 = db" by (simp add: db1_def map_idI)
    with None none run get1 show ?thesis by (simp add: filter_empty_conv)
  next
    case (Some u)
    then have u: "u \<in> set (sessions db)" "usUploadID u = ?id" using GetSession_Some_iff [OF ok] by blast+
    have only: "x = u" if "x \<in> set (sessions db)" "usUploadID x = ?id" for x
      using that Some GetSession_Some_iff [OF ok, of uploadID x] by simp
    show ?thesis
    proof (cases "P u")
      case False
      then have none: "\<forall>x\<in>set (sessions db). \<not> P x" using only by (auto simp: P_def)
      then have "db1 = db" by (simp add: db1_def map_idI)
      with False none run get1 Some u show ?thesis by (auto simp: filter_empty_conv P_def)
    next
      case True
      have maps: "map (\<lambda>x. if P x then f x else x) (sessions db) = map (\<lambda>x. if x = u then f u else x) (sessions db)"
      proof (rule map_cong [OF refl])
        fix x assume x: "x \<in> set (sessions db)"
        have "P x \<longleftrightarrow> x = u" using True only [OF x] by (metis P_def)
        then show "(if P x then f x else x) = (if x = u then f u else x)" by simp
      qed
      have ne: "filter P (sessions db) \<noteq> []" using True u by (auto simp: filter_empty_conv)
      have g: "GetSession uploadID db1 = Some (f u)" using get1 Some True by simp
      have r: "r = (Inr (f u), db1)" unfolding run if_not_P [OF ne] g by simp
      have again: "UpdateSessionProgress clock' uploadID expected n' now' db1
          = (Inl (if n' < expected then ErrInvalidInput ''next offset'' else ErrUploadSessionOffsetConflict (f u)), db1)"
        if "expected < nextOffset"
      proof -
        have noQ: "\<not> (usUploadID x = ?id \<and> usStatus x = SessionActive \<and> usNextOffset x = expected)"
          if "x \<in> set (sessions db1)" for x
          using that \<open>expected < nextOffset\<close> by (auto simp: db1_def P_def f_def split: if_splits)
        have none: "filter (\<lambda>x. usUploadID x = ?id \<and> usStatus x = SessionActive \<and> usNextOffset x = expected)
            (sessions db1) = []"
          "map (\<lambda>x. if usUploadID x = ?id \<and> usStatus x = SessionActive \<and> usNextOffset x = expected
             then g x else x) (sessions db1) = sessions db1" for g
          by (simp add: filter_empty_conv, metis noQ) (rule map_idI, metis noQ)
        have "GetSession ?id db1 = Some (f u)" using g by (simp add: GetSession_def)
        moreover have "usStatus (f u) = SessionActive" using True by (simp add: f_def P_def)
        ultimately show ?thesis
          using assms(2) none by (simp add: UpdateSessionProgress_def update_sessions_def Let_def)
      qed
      have st: "usStatus u = SessionActive" "usNextOffset u = expected" using True by (simp_all add: P_def)
      have v: "u\<lparr>usNextOffset := nextOffset, usUpdatedAt := nonZeroTime clock now\<rparr> = f u" by (simp add: f_def)
      have db1: "db1 = db\<lparr>sessions := map (\<lambda>x. if x = u then f u else x) (sessions db)\<rparr>"
        unfolding db1_def maps by (rule refl)
      show ?thesis
        unfolding Some option.case Let_def v r snd_conv if_not_P [OF not_not [THEN iffD2, OF st(1)]]
          if_not_P [OF not_not [THEN iffD2, OF st(2)]]
        using again db1 by blast
    qed
  qed
qed

theorem progress_is_compare_and_swap_witness:
  "let r = UpdateSessionProgress 1 ''u1'' 0 4 150 ex_active in
     is_ok (fst r) \<and>
     (\<exists>v. UpdateSessionProgress 1 ''u1'' 0 7 160 (snd r) = (Inl (ErrUploadSessionOffsetConflict v), snd r))"
proof -
  define r where "r = UpdateSessionProgress 1 ''u1'' 0 4 150 ex_active"
  have ok: "is_ok (fst r)" unfolding r_def by code_simp
  obtain u where u: "GetSession ''u1'' ex_active = Some u" "usStatus u = SessionActive" "usNextOffset u = 0"
  proof -
    have "case GetSession ''u1'' ex_active of None \<Rightarrow> False | Some u \<Rightarrow> usStatus u = SessionActive \<and> usNextOffset u = 0"
      by code_simp
    then show thesis using that by (auto split: option.splits)
  qed
  from progress_is_compare_and_swap [OF ex_active_reachable _ _ r_def, of 1 7 160] u
  have "\<exists>v. UpdateSessionProgress 1 ''u1'' 0 7 160 (snd r) = (Inl (ErrUploadSessionOffsetConflict v), snd r)"
    by (auto simp: Let_def)
  with ok show ?thesis unfolding r_def [symmetric] Let_def by blast
qed

section \<open>Committing an upload\<close>

text \<open>
  An upload commits: for an active session whose identity is unknown to the ledger, with
  a well-formed request of the same identity, reserving succeeds and returns the new asset
  as committing, with the final path asked for and the root of the session; marking it
  uploaded then succeeds and returns the same asset as uploaded; from then on the app's check
  for the identity says so and the session is completed.
\<close>

theorem upload_commits:
  assumes reach: "upload_reachable db" and n: "normalizeCommitInput clock input = Inr n"
    and u: "u \<in> set (sessions db)" "commits_session n u"
    and free: "ledger_of db (ciDeviceID n, ciSourceAssetID n, ciSourceAssetVersion n) = None"
      "\<forall>a\<in>set (assets db). uaUploadID a \<noteq> ciUploadID n"
  shows "\<exists>x db1 y db2 e. ReserveUploadCommit clock input db = (Inr x, db1)
      \<and> uaRow x = reserved_row n (usSelectedRootKey u) (lastAssetID db + 1)
      \<and> MarkUploaded clock (uaID (uaRow x)) now db1 = (Inr y, db2)
      \<and> uaRow y = uploaded_row (nonZeroTime clock now) (uaRow x) \<and> uaChecksums y = uaChecksums x
      \<and> CheckUploaded blob (ciDeviceID n) [(ciSourceAssetID n, ciSourceAssetVersion n)] db2 = (Inr (e, [True]), db2)
      \<and> (\<exists>v\<in>set (sessions db2). usUploadID v = ciUploadID n \<and> usStatus v = SessionCompleted)"
proof -
  have ok: "db_ok db" using reach by (rule up.inv_reach)
  note sok = db_okD(3) [OF ok] and aok = db_okD(1) [OF ok]
  note trim = normalizeCommitInput_trimmed [OF n]
  let ?i = "(ciDeviceID n, ciSourceAssetID n, ciSourceAssetVersion n)"
  let ?root = "usSelectedRootKey u" and ?id = "lastAssetID db + 1"
  let ?row = "reserved_row n ?root ?id"
  have uid: "usUploadID u = ciUploadID n" using u(2) by (simp add: commits_session_def)
  define us1 where "us1 = map (\<lambda>u. if commits_session n u then committed_session n u else u) (sessions db)"
  have d: "distinct (map usUploadID (sessions db))" using sok by (simp add: sessions_ok_def)
  have find1: "find (\<lambda>v. usUploadID v = ciUploadID n) us1 = Some (committed_session n u)"
  proof -
    have "find (\<lambda>v. usUploadID v = ciUploadID n) (sessions db) = Some u"
      using find_unique [OF d u(1)] uid by simp
    then show ?thesis
      using find_update [of usUploadID "committed_session n" "ciUploadID n" "commits_session n" "sessions db"] u(2)
      by (simp add: us1_def committed_session_def)
  qed
  have root: "trim_space ?root \<noteq> []"
    using sok u(1) by (auto simp: sessions_ok_def trim_space_id)
  have noid: "\<not> list_ex (\<lambda>a. has_identity (ciDeviceID n) (ciSourceAssetID n) (ciSourceAssetVersion n) a
      \<or> uaUploadID a = ciUploadID n) (assets db)"
    using free by (auto simp: list_ex_iff has_identity_iff ledger_of_def find_None_iff)
  define db1 where "db1 = insertCommitEvent (ciUploadID n) ?id EventReserved (ciNow n)
     (upsertAssetChecksumsTx ?id (ciChecksums n) (ciNow n)
       (db\<lparr>sessions := us1, lastAssetID := ?id, assets := assets db @ [?row]\<rparr>))"
  have up1: "update_sessions (\<lambda>u. usUploadID u = ciUploadID n \<and> usDeviceID u = ciDeviceID n
        \<and> usSourceAssetID u = ciSourceAssetID n \<and> usSourceAssetVersion u = ciSourceAssetVersion n
        \<and> usStatus u \<in> {SessionActive, SessionCommitting})
      (\<lambda>u. u\<lparr>usStatus := SessionCommitting, usFinalRelativePath := ciFinalRelativePath n, usUpdatedAt := ciNow n\<rparr>) db
    = (length (filter (commits_session n) (sessions db)), db\<lparr>sessions := us1\<rparr>)"
    unfolding us1_def update_sessions_def commits_session_def [abs_def] committed_session_def [abs_def] by simp
  have ne: "length (filter (commits_session n) (sessions db)) \<noteq> 0" using u by (auto simp: filter_empty_conv)
  have sel: "selectedRootKeyForUploadSession (ciUploadID n) (db\<lparr>sessions := us1\<rparr>) = Inr ?root"
    using find1 root by (simp add: selectedRootKeyForUploadSession_def committed_session_def)
  have ins: "insertAsset n ?root (db\<lparr>sessions := us1\<rparr>)
      = Some (?id, db\<lparr>sessions := us1, lastAssetID := ?id, assets := assets db @ [?row]\<rparr>)"
    using noid by (simp add: insertAsset_def Let_def reserved_row_def)
  have tx: "reserveTx n db = (Inr (GetUploadedAssetBySourceIdentity (ciDeviceID n) (ciSourceAssetID n)
      (ciSourceAssetVersion n)), db1)"
    unfolding reserveTx_def up1 prod.case if_not_P [OF ne] sel sum.case ins option.case Let_def db1_def
    by simp
  have db1: "assets db1 = assets db @ [?row]" "sessions db1 = us1" "epochs db1 = epochs db"
    by (simp_all add: db1_def insertCommitEvent_def upsertAssetChecksumsTx_def)
  have ok1: "db_ok db1" by (rule reserve_keeps [OF ok tx trim(1-3)])
  obtain e where e: "epochs db (ciDeviceID n) = Some e"
    using db_okD(4) [OF ok] u by (auto simp: epochs_ok_def commits_session_def)
  define x where "x = \<lparr>uaLedgerEpoch = e, uaRow = ?row, uaChecksums = checksumsForAsset ?id db1\<rparr>"
  have d1: "distinct (map uaID (assets db1))" "distinct (map identity (assets db1))"
    using db_okD(1) [OF ok1] by (simp_all add: assets_ok_def)
  have row1: "?row \<in> set (assets db1)" by (simp add: db1)
  have "find (has_identity (ciDeviceID n) (ciSourceAssetID n) (ciSourceAssetVersion n)) (assets db1) = Some ?row"
    using find_unique [OF d1(2) row1] by (simp add: has_identity_iff [abs_def] reserved_row_def)
  then have "GetUploadedAssetBySourceIdentity (ciDeviceID n) (ciSourceAssetID n) (ciSourceAssetVersion n) db1
      = Inr (Some x)"
    using e by (simp add: GetUploadedAssetBySourceIdentity_def trim scanUploadedAsset_def x_def db1
        reserved_row_def)
  then have reserve: "ReserveUploadCommit clock input db = (Inr x, db1)"
    by (simp add: ReserveUploadCommit_def n transaction_def tx readBack_def)
  let ?now = "nonZeroTime clock now"
  define as2 where "as2 = map (\<lambda>a. if uaID a = ?id then uploaded_row ?now a else a) (assets db1)"
  define us2 where "us2 = map (\<lambda>v. if usUploadID v = ciUploadID n
      then v\<lparr>usStatus := SessionCompleted, usUpdatedAt := ?now\<rparr> else v) us1"
  define db2 where "db2 = insertCommitEvent (ciUploadID n) ?id EventCompleted ?now (db1\<lparr>assets := as2, sessions := us2\<rparr>)"
  have find_row: "find (\<lambda>a. uaID a = ?id) (assets db1) = Some ?row"
    using find_unique [OF d1(1) row1] by (simp add: reserved_row_def)
  have in1: "committed_session n u \<in> set us1" using find1 by (auto simp: find_Some_iff)
  have uid1: "usUploadID (committed_session n u) = ciUploadID n" by (simp add: committed_session_def uid)
  have "markUploadedTx ?id ?now db1 = (Inr (getUploadedAssetByID ?id), db2)"
  proof -
    have "uaID ?row = ?id" by (simp add: reserved_row_def)
    with row1 have "filter (\<lambda>a. uaID a = ?id) (assets db1) \<noteq> []"
      by (auto simp: filter_empty_conv)
    moreover have "filter (\<lambda>v. usUploadID v = ciUploadID n) us1 \<noteq> []"
      using in1 uid1 by (auto simp: filter_empty_conv)
    ultimately show ?thesis
      by (simp add: markUploadedTx_def find_row update_uploaded update_sessions_def db1(2) db2_def as2_def us2_def
          reserved_row_def)
  qed
  moreover have "find (\<lambda>a. uaID a = ?id) as2 = Some (uploaded_row ?now ?row)"
    using find_update [of uaID "uploaded_row ?now" ?id "\<lambda>a. uaID a = ?id" "assets db1"] find_row
    by (simp add: as2_def uploaded_row_def reserved_row_def)
  moreover define y where "y = \<lparr>uaLedgerEpoch = e, uaRow = uploaded_row ?now ?row, uaChecksums = checksumsForAsset ?id db2\<rparr>"
  ultimately have mark: "MarkUploaded clock ?id now db1 = (Inr y, db2)"
    using e by (simp add: MarkUploaded_def transaction_def readBack_def getUploadedAssetByID_def
        scanUploadedAsset_def db2_def insertCommitEvent_def db1 uploaded_row_def reserved_row_def)
  have "uaChecksums y = uaChecksums x"
    by (simp add: x_def y_def checksumsForAsset_def db2_def insertCommitEvent_def)
  moreover have "uploaded_row ?now ?row \<in> set (assets db2)"
    using row1 by (force simp: db2_def insertCommitEvent_def as2_def reserved_row_def)
  then have "\<exists>a\<in>set (assets db2). has_identity (ciDeviceID n) (ciSourceAssetID n) (ciSourceAssetVersion n) a
      \<and> uaStatus a = AssetUploaded"
    by (intro bexI [of _ "uploaded_row ?now ?row"])
      (simp_all add: has_identity_def uploaded_row_def reserved_row_def)
  then have "CheckUploaded blob (ciDeviceID n) [(ciSourceAssetID n, ciSourceAssetVersion n)] db2 = (Inr (e, [True]), db2)"
    using e trim(1) normalizeCommitInput_device [OF n] db1(3)
    by (simp add: CheckUploaded_def LedgerEpoch_def Let_def list_ex_iff db2_def insertCommitEvent_def)
  moreover have "\<exists>v\<in>set (sessions db2). usUploadID v = ciUploadID n \<and> usStatus v = SessionCompleted"
  proof (rule bexI)
    let ?v = "(committed_session n u)\<lparr>usStatus := SessionCompleted, usUpdatedAt := ?now\<rparr>"
    show "usUploadID ?v = ciUploadID n \<and> usStatus ?v = SessionCompleted" using uid1 by simp
    have "sessions db2 = us2" by (simp add: db2_def insertCommitEvent_def)
    then show "?v \<in> set (sessions db2)"
      unfolding us2_def set_map
      by (simp only: set_map) (rule image_eqI [OF _ in1], simp add: uid1)
  qed
  ultimately show ?thesis
    using reserve mark by (intro exI [of _ x] exI [of _ db1] exI [of _ y] exI [of _ db2] exI [of _ e])
      (simp add: x_def y_def reserved_row_def)
qed

theorem upload_commits_witness:
  "\<exists>x db1 y db2. ReserveUploadCommit 1 ex_commit_input ex_active = (Inr x, db1)
     \<and> MarkUploaded 1 (uaID (uaRow x)) 300 db1 = (Inr y, db2) \<and> uaStatus (uaRow y) = AssetUploaded"
proof -
  define n where "n = projr (normalizeCommitInput 1 ex_commit_input)"
  have n: "normalizeCommitInput 1 ex_commit_input = Inr n"
  proof -
    have "is_ok (normalizeCommitInput 1 ex_commit_input)" by code_simp
    then show ?thesis by (auto simp: n_def is_ok_iff)
  qed
  have "sessions ex_active \<noteq> []" by code_simp
  then have u: "hd (sessions ex_active) \<in> set (sessions ex_active)" by simp
  have "commits_session n (hd (sessions ex_active))" unfolding n_def by code_simp
  moreover have "ledger_of ex_active (ciDeviceID n, ciSourceAssetID n, ciSourceAssetVersion n) = None"
    unfolding n_def by code_simp
  moreover have "assets ex_active = []" by code_simp
  then have "\<forall>a\<in>set (assets ex_active). uaUploadID a \<noteq> ciUploadID n" by simp
  ultimately obtain x db1 y db2 where
    "ReserveUploadCommit 1 ex_commit_input ex_active = (Inr x, db1)"
    "MarkUploaded 1 (uaID (uaRow x)) 300 db1 = (Inr y, db2)"
    "uaRow y = uploaded_row (nonZeroTime 1 300) (uaRow x)"
    using upload_commits [OF ex_active_reachable n u, of 300 "[]"] by blast
  then show ?thesis by (auto simp: uploaded_row_def)
qed

section \<open>Maintenance\<close>

lemma predicate_normalized [simp]:
  assumes "\<not> is_zero (kiNow input)"
  shows "uploadCleanupPredicate clock (normalizeUploadCleanupInput clock input) = uploadCleanupPredicate clock input"
proof -
  have "normalizeUploadCleanupInput clock (normalizeUploadCleanupInput clock input)
      = normalizeUploadCleanupInput clock input"
    using assms by (simp add: normalizeUploadCleanupInput_def nonNegativeDuration_def nonZeroTime_def)
  then show ?thesis by (simp add: uploadCleanupPredicate_def fun_eq_iff)
qed

definition removal :: "upload_session \<Rightarrow> nat \<times> upload_temp_file list" where
  "removal u = (1, if usTempRelativePath u = [] then []
     else [\<lparr>tfRootKey = usSelectedRootKey u, tfRelativePath = usTempRelativePath u\<rparr>])"

lemma cleanup_one:
  assumes ok: "db_ok db" and now: "\<not> is_zero (kiNow input)"
    and u: "u \<in> set (sessions db)" and p: "uploadCleanupPredicate clock input u"
  obtains r where "CleanupUploadSession clock (usUploadID u) input db
      = (r, db\<lparr>sessions := filter (\<lambda>v. usUploadID v \<noteq> usUploadID u) (sessions db)\<rparr>)"
    and "RemovedSessions r = 1" and "krTempFiles r = snd (removal u)"
proof -
  have sok: "distinct (map usUploadID (sessions db))" "trim_space (usUploadID u) = usUploadID u"
    using db_okD(3) [OF ok] u by (auto simp: sessions_ok_def trim_space_id)
  have "find (\<lambda>v. usUploadID v = usUploadID u \<and> uploadCleanupPredicate clock input v) (sessions db) = Some u"
  proof -
    have inj: "inj_on usUploadID (set (sessions db))" using sok(1) by (simp add: distinct_map)
    have "(\<lambda>v. v = u) x = (\<lambda>v. usUploadID v = usUploadID u \<and> uploadCleanupPredicate clock input v) x"
      if "x \<in> set (sessions db)" for x
      using inj_onD [OF inj _ that u] p by auto
    then have "find (\<lambda>v. usUploadID v = usUploadID u \<and> uploadCleanupPredicate clock input v) (sessions db)
        = find (\<lambda>v. v = u) (sessions db)"
      by (intro find_cong) auto
    also have "\<dots> = Some u"
      using find_unique [of id "sessions db" u] sok(1) u by (simp add: distinct_map)
    finally show ?thesis .
  qed
  moreover have "usStatus u \<noteq> SessionCommitting" using p by (auto simp: uploadCleanupPredicate_def Let_def)
  ultimately show thesis
    using that now sok(2)
    by (cases "usStatus u")
      (simp_all add: CleanupUploadSession_def Let_def delete_sessions_def RemovedSessions_def emptyCleanupResult_def
        removal_def)
qed

lemma cleanupCandidates_all:
  assumes now: "\<not> is_zero (kiNow input)"
  shows "db_ok db \<Longrightarrow> distinct (map usUploadID us) \<Longrightarrow>
    \<forall>u\<in>set us. u \<in> set (sessions db) \<and> uploadCleanupPredicate clock input u \<Longrightarrow>
    \<exists>r'. cleanupCandidates clock input (map (\<lambda>u. (usUploadID u, usDeviceID u)) us) r db
         = (r', db\<lparr>sessions := filter (\<lambda>v. usUploadID v \<notin> usUploadID ` set us) (sessions db)\<rparr>)
      \<and> RemovedSessions r' = RemovedSessions r + length us
      \<and> krTempFiles r' = krTempFiles r @ concat (map (snd \<circ> removal) us)"
proof (induction us arbitrary: db r)
  case (Cons u us)
  then obtain q where q: "CleanupUploadSession clock (usUploadID u) input db
      = (q, db\<lparr>sessions := filter (\<lambda>v. usUploadID v \<noteq> usUploadID u) (sessions db)\<rparr>)"
    "RemovedSessions q = 1" "krTempFiles q = snd (removal u)"
    using cleanup_one [OF Cons.prems(1) now] by force
  define db1 where "db1 = db\<lparr>sessions := filter (\<lambda>v. usUploadID v \<noteq> usUploadID u) (sessions db)\<rparr>"
  have "db_ok db1"
    using db_ok_delete_sessions [OF Cons.prems(1), of "\<lambda>v. usUploadID v = usUploadID u"]
    by (simp add: db1_def delete_sessions_def)
  moreover have "\<forall>v\<in>set us. v \<in> set (sessions db1) \<and> uploadCleanupPredicate clock input v"
    using Cons.prems(2,3) by (auto simp: db1_def intro: rev_image_eqI)
  ultimately obtain r' where r': "cleanupCandidates clock input (map (\<lambda>u. (usUploadID u, usDeviceID u)) us)
      (r\<lparr>krRemovedExpiredSessions := krRemovedExpiredSessions r + krRemovedExpiredSessions q,
         krRemovedCompleted := krRemovedCompleted r + krRemovedCompleted q,
         krRemovedAborted := krRemovedAborted r + krRemovedAborted q,
         krRemovedFailed := krRemovedFailed r + krRemovedFailed q,
         krTempFiles := krTempFiles r @ krTempFiles q\<rparr>) db1
       = (r', db1\<lparr>sessions := filter (\<lambda>v. usUploadID v \<notin> usUploadID ` set us) (sessions db1)\<rparr>)"
    "RemovedSessions r' = RemovedSessions r + 1 + length us"
    "krTempFiles r' = krTempFiles r @ krTempFiles q @ concat (map (snd \<circ> removal) us)"
    using Cons.IH [of db1] Cons.prems(2) q(2) by (fastforce simp: RemovedSessions_def)
  then show ?case
    using q by (intro exI [of _ r']) (simp add: db1_def conj_commute comp_def)
qed (simp add: RemovedSessions_def)


definition ex_cleanup_input :: upload_cleanup_input where
  "ex_cleanup_input = \<lparr>kiNow = 5000, kiCompletedSessionRetention = 10, kiAbortedSessionRetention = 10,
     kiFailedSessionRetention = 10, kiCommitEventRetention = 10, kiResetEventRetention = - 3\<rparr>"


section \<open>Resets\<close>

lemma temp_files_removal:
  "map (\<lambda>u. \<lparr>tfRootKey = usSelectedRootKey u, tfRelativePath = usTempRelativePath u\<rparr>)
     (filter (\<lambda>u. P u \<and> usTempRelativePath u \<noteq> []) us) = concat (map (snd \<circ> removal) (filter P us))"
  by (induction us) (auto simp: removal_def)

text \<open>
  C31. A reset forgets exactly what the administrator chose: the assets and sessions of the
  one device in the range of capture times, and the checksums of those assets; it gives the
  device a new epoch, so that the app notices, lists the temporary files of the sessions it
  removed, leaves every other device alone, and no identifier of an asset is ever used
  again, since the counter stays.
\<close>

theorem reset_forgets_exactly:
  assumes "upload_reachable db" and "ResetDeviceUploadState clock blob input db = (Inr r, db')"
    and n: "normalizeUploadResetInput clock input = Inr n"
  shows "assets db' = filter (\<lambda>a. \<not> reset_asset n a) (assets db)
    \<and> sessions db' = filter (\<lambda>u. \<not> reset_session n u) (sessions db)
    \<and> checksums db' = filter (\<lambda>c. \<exists>a\<in>set (assets db'). uaID a = ckAssetID c) (checksums db)
    \<and> epochs db' = (epochs db)(trim_space (riDeviceID input) \<mapsto> hex_encode blob)
    \<and> lastAssetID db' = lastAssetID db
    \<and> rrRemovedUploadedAssets r + length (assets db') = length (assets db)
    \<and> rrRemovedSessions r + length (sessions db') = length (sessions db)
    \<and> rrTempFiles r = concat (map (snd \<circ> removal) (filter (reset_session n) (sessions db)))
    \<and> (\<forall>i. fst i \<noteq> trim_space (riDeviceID input) \<longrightarrow> ledger_of db' i = ledger_of db i)"
proof -
  have ok: "db_ok db" using assms(1) by (rule up.inv_reach)
  note tables = reset_tables [OF n, of blob db, unfolded assms(2) snd_conv]
  note dev = normalizeReset_device [OF n]
  have inj: "inj_on uaID (set (assets db))" using db_okD(1) [OF ok] by (simp add: assets_ok_def distinct_map)
  have "(\<not> list_ex (\<lambda>a. reset_asset n a \<and> uaID a = ckAssetID c) (assets db))
      = (\<exists>a\<in>set (assets db'). uaID a = ckAssetID c)" if "c \<in> set (checksums db)" for c
  proof -
    have "ckAssetID c \<in> uaID ` set (assets db)"
      using db_okD(2) [OF ok] that unfolding checksums_ok_def by blast
    then obtain a where a: "a \<in> set (assets db)" "uaID a = ckAssetID c" by auto
    have "x = a" if "x \<in> set (assets db)" "uaID x = ckAssetID c" for x
      using inj_onD [OF inj _ that(1) a(1)] that a by simp
    then show ?thesis using a unfolding tables(1) list_ex_iff set_filter by blast
  qed
  then have "checksums db' = filter (\<lambda>c. \<exists>a\<in>set (assets db'). uaID a = ckAssetID c) (checksums db)"
    unfolding tables(3) by (intro filter_cong) auto
  moreover have "rrRemovedUploadedAssets r = length (filter (reset_asset n) (assets db))"
    "rrRemovedSessions r = length (filter (reset_session n) (sessions db))"
    "rrTempFiles r = uploadSessionTempFilesForResetTx n db"
    using assms(2) n
    by (auto simp: ResetDeviceUploadState_def Let_def delete_assets_def delete_sessions_def
        uploadSessionTempFilesForResetTx_def)
  moreover have "uploadSessionTempFilesForResetTx n db = concat (map (snd \<circ> removal) (filter (reset_session n) (sessions db)))"
    unfolding uploadSessionTempFilesForResetTx_def by (rule temp_files_removal)
  moreover have "ledger_of db' i = ledger_of db i" if "fst i \<noteq> trim_space (riDeviceID input)" for i
  proof -
    show ?thesis using ledger_reset [OF ok tables(1), of i] that dev by auto
  qed
  ultimately show ?thesis
    using tables dev by (simp add: sum_length_filter_compl)
qed

definition ex_reset_input :: upload_reset_input where
  "ex_reset_input = \<lparr>riDeviceID = '' d1 '', riCapturedAfter = None, riCapturedBefore = None,
     riReason = ''r'', riNow = 400\<rparr>"

theorem reset_forgets_exactly_witness:
  "\<exists>r db'. ResetDeviceUploadState 1 ''e'' ex_reset_input ex_uploaded = (Inr r, db')
     \<and> assets ex_uploaded \<noteq> [] \<and> assets db' = [] \<and> sessions db' = [] \<and> checksums db' = []
     \<and> epochs db' ''d1'' = Some (hex_encode ''e'')"
proof -
  have n: "normalizeUploadResetInput 1 ex_reset_input = Inr (ex_reset_input\<lparr>riDeviceID := ''d1''\<rparr>)"
    by code_simp
  obtain r db' where run: "ResetDeviceUploadState 1 ''e'' ex_reset_input ex_uploaded = (Inr r, db')"
    unfolding ResetDeviceUploadState_def n
    by (auto simp: Let_def delete_assets_def delete_sessions_def split: prod.splits)
  have "filter (\<lambda>a. \<not> reset_asset (ex_reset_input\<lparr>riDeviceID := ''d1''\<rparr>) a) (assets ex_uploaded) = []"
    "filter (\<lambda>u. \<not> reset_session (ex_reset_input\<lparr>riDeviceID := ''d1''\<rparr>) u) (sessions ex_uploaded) = []"
    "assets ex_uploaded \<noteq> []" "trim_space (riDeviceID ex_reset_input) = ''d1''"
    by code_simp+
  with reset_forgets_exactly [OF ex_uploaded_reachable run n] run show ?thesis by simp
qed

end
