(* ===== verification/Upload_Commit.thy ===== *)
theory Upload_Commit
  imports Upload_Safety Upload_Theorems
begin

text \<open>
  Committing an upload: what a completed session leaves behind in the database and in the
  upload root, and that a completion interrupted by any fault can be repeated.
\<close>

section \<open>Results of the database\<close>

lemma reserve_result:
  assumes ok: "db_ok db" and r: "ReserveUploadCommit clock input db = (Inr x, db')"
  obtains n v where "normalizeCommitInput clock input = Inr n" and "db_ok db'"
    and "uaRow x \<in> set (assets db')" and "uaStatus (uaRow x) = AssetCommitting"
    and "uaUploadID (uaRow x) = ciUploadID n" and "uaFinalRelativePath (uaRow x) = ciFinalRelativePath n"
    and "uaExpectedSizeBytes (uaRow x) = ciExpectedSizeBytes n"
    and "find (\<lambda>w. usUploadID w = ciUploadID n) (sessions db') = Some v"
    and "uaSelectedRootKey (uaRow x) = usSelectedRootKey v"
    and "uaChecksums x = checksumsForAsset (uaID (uaRow x)) db'"
    and "\<forall>y\<in>set (assets db'). uaStatus y = AssetUploaded \<longrightarrow> y \<in> set (assets db)"
    and "sessions db' = map (\<lambda>u. if commits_session n u then committed_session n u else u) (sessions db)"
proof -
  obtain n where n: "normalizeCommitInput clock input = Inr n"
    using r by (cases "normalizeCommitInput clock input") (simp_all add: ReserveUploadCommit_def)
  note trim = normalizeCommitInput_trimmed [OF n]
  obtain q where tx: "reserveTx n db = (Inr q, db')" and q: "q db' = Inr (Some x)"
    using r by (auto simp: ReserveUploadCommit_def n readBack_def transaction_def
        split: prod.splits sum.splits option.splits)
  have ok': "db_ok db'" by (rule reserve_keeps [OF ok tx trim(1-3)])
  note d = db_okD(1) [OF ok', unfolded assets_ok_def]
  obtain root u v where v: "find (\<lambda>w. usUploadID w = ciUploadID n) (sessions db') = Some v" "root = usSelectedRootKey v"
    and us: "sessions db' = map (\<lambda>u. if commits_session n u then committed_session n u else u) (sessions db)"
    and c: "reserves_new n root db db' \<and> q = GetUploadedAssetBySourceIdentity (ciDeviceID n) (ciSourceAssetID n) (ciSourceAssetVersion n)
       \<or> (\<exists>a. reserves_again n root a db db' \<and> q = getUploadedAssetByID (uaID a))"
    by (rule reserveTx_Inr [OF tx trim(1-3)]) blast
  from c show thesis
  proof (elim disjE exE conjE)
    let ?row = "reserved_row n root (lastAssetID db + 1)"
    assume new: "reserves_new n root db db'"
      and q': "q = GetUploadedAssetBySourceIdentity (ciDeviceID n) (ciSourceAssetID n) (ciSourceAssetVersion n)"
    have in': "?row \<in> set (assets db')" using new by (simp add: reserves_new_def)
    have "find (\<lambda>a. identity a = identity ?row) (assets db') = Some ?row" using d by (intro find_unique [OF _ in']) simp
    then have "uaRow x = ?row \<and> uaChecksums x = checksumsForAsset (uaID ?row) db'"
      using q unfolding q' by (auto simp: GetUploadedAssetBySourceIdentity_def trim has_identity_iff [abs_def]
          scanUploadedAsset_def reserved_row_def split: option.splits)
    moreover have "\<forall>y\<in>set (assets db'). uaStatus y = AssetUploaded \<longrightarrow> y \<in> set (assets db)"
      using new by (auto simp: reserves_new_def reserved_row_def)
    ultimately show thesis
      using v in' by (intro that [OF n ok' _ _ _ _ _ v(1) _ _ _ us]) (auto simp: reserved_row_def)
  next
    fix a assume again: "reserves_again n root a db db'" and q': "q = getUploadedAssetByID (uaID a)"
    let ?row = "again_row n root a"
    have a: "a \<in> set (assets db)" "uaStatus a = AssetCommitting" "uaUploadID a = ciUploadID n"
      using again by (simp_all add: reserves_again_def)
    have in': "?row \<in> set (assets db')" using again a by (force simp: reserves_again_def)
    have id: "uaID ?row = uaID a" by (simp add: again_row_def)
    have "find (\<lambda>b. uaID b = uaID ?row) (assets db') = Some ?row" using d by (intro find_unique [OF _ in']) simp
    then have "uaRow x = ?row \<and> uaChecksums x = checksumsForAsset (uaID ?row) db'"
      using q unfolding q' by (auto simp: getUploadedAssetByID_def id scanUploadedAsset_def split: option.splits)
    moreover have "\<forall>y\<in>set (assets db'). uaStatus y = AssetUploaded \<longrightarrow> y \<in> set (assets db)"
      using again a(2) by (auto simp: reserves_again_def again_row_def split: if_splits)
    ultimately show thesis
      using v in' a by (intro that [OF n ok' _ _ _ _ _ v(1) _ _ _ us]) (auto simp: again_row_def)
  qed
qed

lemma mark_result:
  assumes ok: "db_ok db" and r: "MarkUploaded clock assetID now db = (Inr y, db')"
  obtains row where "row \<in> set (assets db)" and "uaID row = assetID"
    and "uaRow y = uploaded_row (nonZeroTime clock now) row" and "uaRow y \<in> set (assets db')"
    and "uaChecksums y = checksumsForAsset assetID db" and "db_ok db'"
    and "sessions db' = map (\<lambda>u. if usUploadID u = uaUploadID row
           then u\<lparr>usStatus := SessionCompleted, usUpdatedAt := nonZeroTime clock now\<rparr> else u) (sessions db)"
proof -
  let ?now = "nonZeroTime clock now"
  obtain q where tx: "markUploadedTx assetID ?now db = (Inr q, db')" and q: "q db' = Inr (Some y)"
    using r by (auto simp: MarkUploaded_def readBack_def transaction_def split: prod.splits sum.splits option.splits)
  have ok': "db_ok db'" by (rule mark_keeps [OF ok tx])
  note d = db_okD(1) [OF ok', unfolded assets_ok_def]
  obtain row u where row: "row \<in> set (assets db)" "uaID row = assetID"
    and "u \<in> set (sessions db)" and "usUploadID u = uaUploadID row" and
    as: "assets db' = map (\<lambda>a. if uaID a = assetID then uploaded_row ?now a else a) (assets db)" and
    us: "sessions db' = map (\<lambda>u. if usUploadID u = uaUploadID row
           then u\<lparr>usStatus := SessionCompleted, usUpdatedAt := ?now\<rparr> else u) (sessions db)" and
    same: "epochs db' = epochs db" "checksums db' = checksums db" "lastAssetID db' = lastAssetID db" and
    q': "q = getUploadedAssetByID assetID"
    by (rule markUploadedTx_Inr [OF tx])
  let ?row = "uploaded_row ?now row"
  have in': "?row \<in> set (assets db')" using row by (force simp: as)
  have "uaID ?row = assetID" using row(2) by (simp add: uploaded_row_def)
  then have "find (\<lambda>b. uaID b = assetID) (assets db') = Some ?row" using d find_unique [OF _ in', of uaID] by simp
  then have "uaRow y = ?row \<and> uaChecksums y = checksumsForAsset assetID db"
    using q unfolding q' by (auto simp: getUploadedAssetByID_def scanUploadedAsset_def checksumsForAsset_def same
        \<open>uaID ?row = assetID\<close> split: option.splits)
  with row in' ok' us that show thesis by auto
qed

section \<open>Results of the file system\<close>

abbreviation fs_grows :: "filesystem \<Rightarrow> filesystem \<Rightarrow> bool" where
  "fs_grows \<equiv> fs_ext (\<lambda>_. False)"

lemma grows_lstat: "fs_grows fs fs' \<Longrightarrow> lstat fs p = Inr n \<Longrightarrow> lstat fs' p = Inr n"
  by (auto simp: fs_ext_def lstat_Inr dirs_above_def split: if_splits)

lemma grows_bytes: "fs_grows fs fs' \<Longrightarrow> i < fsNext fs \<Longrightarrow> fsBytes fs' i = fsBytes fs i \<and> i < fsNext fs'"
  by (auto simp: fs_ext_def outside_def)

lemma link_Inr:
  assumes "link_file io k old new fs = (Inr u, fs')"
  obtains i where "lstat fs old = Inr (FileNode i)" and "fs' = set_name new (Some (FileNode i)) fs"
    and "lstat fs new = Inl ErrNotExist" and "lstat fs (butlast new) = Inr DirNode"
  using assms by (auto simp: link_file_def split: if_splits sum.splits fs_node.splits)

lemma after_link:
  assumes old: "lstat fs old = Inr (FileNode i)" and new: "lstat fs new = Inl ErrNotExist"
    and dir: "lstat fs (butlast new) = Inr DirNode"
  shows "lstat (set_name old None (set_name new (Some (FileNode i)) fs)) new = Inr (FileNode i)"
proof -
  have ne: "new \<noteq> []" "old \<noteq> new" using new old by (auto simp: lstat_def)
  have up: "dirs_above fs new" by (rule dirs_above_butlast [OF dir ne(1)])
  have "fsNames fs old = Some (FileNode i)" using old by (auto simp: lstat_Inr split: if_splits)
  then have "take k new \<noteq> old" if "k \<in> {1..<length new}" for k using up that by (auto simp: dirs_above_def)
  then show ?thesis
    using up ne by (auto simp: lstat_Inr dirs_above_def set_name_def)
qed

lemma finalize_Inr:
  assumes r: "finalizeUploadFile io k root t f fs = (Inr u, fs')"
    and t: "uploadTempAbsolutePath root t = Inr tp" and i: "lstat fs (abs_segs tp) = Inr (FileNode i)" "i < fsNext fs"
  obtains full where "uploadRootChildPath (urPath root) f = Inr full"
    and "lstat fs' (abs_segs full) = Inr (FileNode i)" and "fsBytes fs' i = fsBytes fs i"
    and "fsNames fs' (abs_segs tp) = None"
proof -
  obtain full fs1 v fs2 where full: "uploadRootChildPath (urPath root) f = Inr full"
    and e: "ensureUploadDirectory io root (path_Dir (path_Clean f)) fs = (Inr v, fs1)"
    and l: "link_file io k (abs_segs tp) (abs_segs full) fs1 = (Inr (), fs2)"
    and fs': "fs' = set_name (abs_segs tp) None fs2"
    using r t by (auto simp: finalizeUploadFile_def andThen_Inr split: if_splits)
  have g: "fs_grows fs fs1" using ext_ensureUploadDirectory [of "\<lambda>_. False" fs io root] e by (metis snd_conv)
  have i1: "lstat fs1 (abs_segs tp) = Inr (FileNode i)" by (rule grows_lstat [OF g i(1)])
  obtain j where j: "lstat fs1 (abs_segs tp) = Inr (FileNode j)" "fs2 = set_name (abs_segs full) (Some (FileNode j)) fs1"
      "lstat fs1 (abs_segs full) = Inl ErrNotExist" "lstat fs1 (butlast (abs_segs full)) = Inr DirNode"
    by (rule link_Inr [OF l])
  have ji: "j = i" using i1 j(1) by simp
  have "lstat fs' (abs_segs full) = Inr (FileNode i)"
    unfolding fs' j(2) ji by (rule after_link [OF i1 j(3,4)])
  moreover have "fsBytes fs' i = fsBytes fs i" "fsNames fs' (abs_segs tp) = None"
    using grows_bytes [OF g i(2)] by (simp_all add: fs' j(2) set_name_def)
  ultimately show thesis using full that by blast
qed

lemma link_conflict: "link_file io k old new fs = (Inl e, fs') \<Longrightarrow> fs' = fs"
  by (auto simp: link_file_def split: if_splits sum.splits fs_node.splits)

text \<open>A file system that a call leaves when the final path is taken.\<close>

lemma finalize_conflict:
  assumes r: "finalizeUploadFile io k root t f fs = (Inl ErrUploadFinalPathConflict, fs')"
  shows "fs_grows fs fs'"
proof -
  have "fs_grows fs (snd (ensureUploadDirectory io root rel fs))" for rel by (rule ext_ensureUploadDirectory)
  then have "fs_grows fs fs1" if "ensureUploadDirectory io root rel fs = (x, fs1)" for rel x fs1
    using that by (metis snd_conv)
  with r show ?thesis
    by (auto simp: finalizeUploadFile_def andThen_def split: prod.splits sum.splits if_splits dest!: link_conflict)
qed

lemma child_trim: "uploadRootChildPath root (trim_space rel) = uploadRootChildPath root rel"
  by (simp add: uploadRootChildPath_def)

lemma normalizeCommitInput_fields:
  assumes "normalizeCommitInput clock input = Inr n"
  shows "ciUploadID n = trim_space (ciUploadID input)" "ciFinalRelativePath n = trim_space (ciFinalRelativePath input)"
    "ciExpectedSizeBytes n = ciExpectedSizeBytes input" "ciDeviceID n = trim_space (ciDeviceID input)"
    "ciSourceAssetID n = trim_space (ciSourceAssetID input)"
    "ciSourceAssetVersion n = trim_space (ciSourceAssetVersion input)"
  using assms by (auto simp: normalizeCommitInput_def Let_def split: if_splits sum.splits)

section \<open>The loop over final paths\<close>

text \<open>
  What an uploaded asset says of the files: inode \<open>i\<close>, whose bytes were \<open>bytes\<close>, is found
  at the final path of the asset below \<open>root\<close>, and no longer at the temporary path.
\<close>

definition stored_as :: "upload_root \<Rightarrow> string list \<Rightarrow> nat \<Rightarrow> string \<Rightarrow> asset_row \<Rightarrow> filesystem \<Rightarrow> bool" where
  "stored_as root tp i bytes row fs \<longleftrightarrow>
     (\<exists>full. uploadRootChildPath (urPath root) (uaFinalRelativePath row) = Inr full
        \<and> lstat fs (abs_segs full) = Inr (FileNode i) \<and> fsBytes fs i = bytes \<and> fsNames fs tp = None)"

definition row_of_session :: "upload_session \<Rightarrow> upload_db \<Rightarrow> asset_row \<Rightarrow> bool" where
  "row_of_session session db row \<longleftrightarrow>
     uaStatus row = AssetUploaded \<and> uaUploadID row = trim_space (usUploadID session)
     \<and> uaExpectedSizeBytes row = usExpectedSizeBytes session
     \<and> (\<exists>v. GetSession (usUploadID session) db = Some v \<and> uaSelectedRootKey row = usSelectedRootKey v)"

lemma find_committed:
  "find (\<lambda>w. usUploadID w = x) (map (\<lambda>u. if P u then committed_session n u else u) us) = Some v \<Longrightarrow>
   \<exists>v'. find (\<lambda>w. usUploadID w = x) us = Some v' \<and> usSelectedRootKey v' = usSelectedRootKey v"
  using find_update [of usUploadID "committed_session n" x P us]
  by (auto simp: committed_session_def split: if_splits)

lemma reserveCommit_Inr:
  assumes "reserveCommit ev input a = (Inr x, b)"
  shows "ReserveUploadCommit (evNow ev) input (agUploads a) = (Inr x, agUploads b)" and "agFiles b = agFiles a"
    and "agRoots b = agRoots a" and "agRegistry b = agRegistry a" and "agProfiles b = agProfiles a"
  using assms by (auto simp: reserveCommit_def onUploads_def split: if_splits prod.splits sum.splits)

lemma markUploaded_Inr:
  assumes "markUploaded ev assetID a = (Inr y, b)"
  shows "MarkUploaded (evNow ev) assetID (evNow ev) (agUploads a) = (Inr y, agUploads b)" and "agFiles b = agFiles a"
  using assms by (auto simp: markUploaded_def onUploads_def split: if_splits prod.splits sum.splits)

lemma onFiles_eq:
  "onFiles f a = (r, b) \<longleftrightarrow> (\<exists>fs. f (agFiles a) = (r, fs) \<and> b = a\<lparr>agFiles := fs\<rparr>)"
  by (auto simp: onFiles_def split: prod.splits)

text \<open>An attempt that goes through.\<close>

lemma reserved_uploaded:
  assumes ok: "db_ok db" and r: "ReserveUploadCommit clock (commit_input session f cs now) db = (Inr x, db1)"
    and m: "MarkUploaded clock (uaID (uaRow x)) now' db1 = (Inr y, db2)"
  shows "row_of_session session db (uaRow y)" and "uaFinalRelativePath (uaRow y) = trim_space f"
proof -
  obtain n v where n: "normalizeCommitInput clock (commit_input session f cs now) = Inr n" and ok1: "db_ok db1"
    and x: "uaRow x \<in> set (assets db1)" "uaUploadID (uaRow x) = ciUploadID n"
      "uaFinalRelativePath (uaRow x) = ciFinalRelativePath n" "uaExpectedSizeBytes (uaRow x) = ciExpectedSizeBytes n"
    and v: "find (\<lambda>w. usUploadID w = ciUploadID n) (sessions db1) = Some v" "uaSelectedRootKey (uaRow x) = usSelectedRootKey v"
    and us: "sessions db1 = map (\<lambda>u. if commits_session n u then committed_session n u else u) (sessions db)"
    by (rule reserve_result [OF ok r])
  note nf = normalizeCommitInput_fields [OF n]
  obtain row where row: "row \<in> set (assets db1)" "uaID row = uaID (uaRow x)"
    "uaRow y = uploaded_row (nonZeroTime clock now') row"
    by (rule mark_result [OF ok1 m])
  have "row = uaRow x"
    using db_okD(1) [OF ok1] row(1,2) x(1) by (auto simp: assets_ok_def distinct_map dest: inj_onD)
  with row(3) have y: "uaRow y = uploaded_row (nonZeroTime clock now') (uaRow x)" by simp
  obtain v' where "find (\<lambda>w. usUploadID w = ciUploadID n) (sessions db) = Some v'" "usSelectedRootKey v' = usSelectedRootKey v"
    using find_committed v(1) unfolding us by blast
  then show "row_of_session session db (uaRow y)"
    using x v nf by (simp add: row_of_session_def y uploaded_row_def GetSession_def commit_input_def)
  show "uaFinalRelativePath (uaRow y) = trim_space f"
    using x nf by (simp add: y uploaded_row_def commit_input_def)
qed

text \<open>When the ledger already has the asset.\<close>

lemma update_exists:
  assumes "updateReservation n root db = (Inl (ErrUploadedAssetExists (Some x)), db')"
  shows "uaRow x \<in> set (assets db)"
proof -
  have "GetUploadedAssetBySourceIdentity (ciDeviceID n) (ciSourceAssetID n) (ciSourceAssetVersion n) db = Inr (Some x)"
    using assms
    by (auto simp: updateReservation_def Let_def GetUploadedAssetBySourceIdentity_def scanUploadedAsset_def
        split: sum.splits option.splits if_splits prod.splits)
  from GetUploadedAsset_Some(1) [OF this [unfolded GetUploadedAssetBySourceIdentity_def]] show ?thesis .
qed

lemma reserveTx_exists:
  assumes "reserveTx n db = (Inl (ErrUploadedAssetExists (Some x)), db')"
  shows "uaRow x \<in> set (assets db)"
  using assms
  by (auto simp: reserveTx_def update_sessions_def selectedRootKeyForUploadSession_def Let_def
      split: if_splits sum.splits option.splits prod.splits dest!: update_exists)

lemma reserve_exists:
  assumes "ReserveUploadCommit clock input db = (Inl (ErrUploadedAssetExists (Some x)), db')" and "db_ok db"
  shows "uaRow x \<in> set (assets db)"
proof (cases "normalizeCommitInput clock input")
  case (Inl e)
  with assms(1) have "normalizeCommitInput clock input = Inl (ErrUploadedAssetExists (Some x))"
    by (simp add: ReserveUploadCommit_def)
  moreover have "normalizeChecksums seen cs \<noteq> Inl (ErrUploadedAssetExists y)" for seen cs y
    by (induction cs arbitrary: seen) (auto simp: Let_def split: sum.splits if_splits)
  ultimately show ?thesis by (auto simp: normalizeCommitInput_def Let_def split: if_splits sum.splits)
next
  case (Inr n)
  have q: "q db2 \<noteq> Inl (ErrUploadedAssetExists y)" if "reserveTx n db = (Inr q, db')" for q db' db2 y
    by (rule reserveTx_Inr [OF that normalizeCommitInput_trimmed(1-3) [OF Inr]])
      (auto simp: GetUploadedAssetBySourceIdentity_def getUploadedAssetByID_def scanUploadedAsset_def
        split: option.splits)
  from Inr assms(1) show ?thesis
    by (auto simp: ReserveUploadCommit_def readBack_def transaction_def q
        dest: reserveTx_exists split: prod.splits sum.splits option.splits)
qed

lemma attempts_stored:
  assumes "finalizeAttempts ev root session base cs left attempt a = (Inr asset, b)"
    and "db_ok (agUploads a)" and tp: "uploadTempAbsolutePath root (usTempRelativePath session) = Inr tp"
    and "lstat (agFiles a) (abs_segs tp) = Inr (FileNode i)" and "i < fsNext (agFiles a)"
  shows "uaStatus (uaRow asset) = AssetUploaded \<and> uaRow asset \<in> set (assets (agUploads a))
    \<or> row_of_session session (agUploads a) (uaRow asset)
      \<and> stored_as root (abs_segs tp) i (fsBytes (agFiles a) i) (uaRow asset) (agFiles b)"
  using assms(1,2,4,5)
proof (induction left arbitrary: attempt a)
  case (Suc left)
  let ?f = "suffixedUploadRelativePath base attempt"
  let ?in = "commit_input session ?f cs (evNow ev)"
  obtain r a1 where r: "reserveCommit ev ?in a = (r, a1)" by fastforce
  show ?case
  proof (cases r)
    case (Inl e)
    then have "e = UploadStoreError (ErrUploadedAssetExists (Some asset)) \<and> uaStatus (uaRow asset) = AssetUploaded"
      using Suc.prems(1) r by (auto simp: Let_def split: runtime_error.splits up_error.splits option.splits if_splits)
    moreover from this Inl r
    have "\<exists>db. ReserveUploadCommit (evNow ev) ?in (agUploads a) = (Inl (ErrUploadedAssetExists (Some asset)), db)"
      by (auto simp: reserveCommit_def onUploads_def split: if_splits prod.splits sum.splits)
    ultimately show ?thesis using reserve_exists Suc.prems(2) by blast
  next
    case (Inr x)
    note R = reserveCommit_Inr [OF r [unfolded Inr]]
    obtain n where ok1: "db_ok (agUploads a1)"
      and old: "\<forall>y\<in>set (assets (agUploads a1)). uaStatus y = AssetUploaded \<longrightarrow> y \<in> set (assets (agUploads a))"
      by (rule reserve_result [OF Suc.prems(2) R(1)]) blast
    obtain r' fs where fin: "finalizeUploadFile (evIO ev) attempt root (usTempRelativePath session) ?f (agFiles a) = (r', fs)"
      by fastforce
    let ?a2 = "a1\<lparr>agFiles := fs\<rparr>"
    have fin': "onFiles (finalizeUploadFile (evIO ev) attempt root (usTempRelativePath session) ?f) a1 = (r', ?a2)"
      using fin R(2) by (simp add: onFiles_eq)
    show ?thesis
    proof (cases r')
      case (Inl e)
      then have e: "e = ErrUploadFinalPathConflict"
        and rec: "finalizeAttempts ev root session base cs left (attempt + 1) ?a2 = (Inr asset, b)"
        using Suc.prems(1) by (auto simp: Let_def r Inr fin' split: if_splits)
      have g: "fs_grows (agFiles a) fs" by (rule finalize_conflict) (use fin Inl e in simp)
      note i = grows_lstat [OF g Suc.prems(3)] grows_bytes [OF g Suc.prems(4)]
      have key: "row_of_session session (agUploads a1) row \<Longrightarrow> row_of_session session (agUploads a) row" for row
      proof -
        assume h: "row_of_session session (agUploads a1) row"
        obtain n where us: "sessions (agUploads a1) = map (\<lambda>u. if commits_session n u then committed_session n u else u) (sessions (agUploads a))"
          by (rule reserve_result [OF Suc.prems(2) R(1)])
        from h obtain v where v: "find (\<lambda>w. usUploadID w = trim_space (usUploadID session)) (sessions (agUploads a1)) = Some v"
          "uaSelectedRootKey row = usSelectedRootKey v"
          by (auto simp: row_of_session_def GetSession_def)
        obtain v' where "find (\<lambda>w. usUploadID w = trim_space (usUploadID session)) (sessions (agUploads a)) = Some v'"
          "usSelectedRootKey v' = usSelectedRootKey v"
          using find_committed v(1) unfolding us by blast
        with h v(2) show "row_of_session session (agUploads a) row"
          by (auto simp: row_of_session_def GetSession_def)
      qed
      have "db_ok (agUploads ?a2)" "lstat (agFiles ?a2) (abs_segs tp) = Inr (FileNode i)" "i < fsNext (agFiles ?a2)"
        using ok1 i by simp_all
      from Suc.IH [OF rec this] old key i show ?thesis by auto
    next
      case (Inr u)
      then have m: "markUploaded ev (uaID (uaRow x)) ?a2 = (Inr asset, b)"
        using Suc.prems(1) \<open>r = Inr x\<close> by (simp add: Let_def r fin')
      note M = markUploaded_Inr [OF m]
      have M1: "MarkUploaded (evNow ev) (uaID (uaRow x)) (evNow ev) (agUploads a1) = (Inr asset, agUploads b)"
        using M(1) by simp
      note row = reserved_uploaded [OF Suc.prems(2) R(1) M1]
      obtain full where "uploadRootChildPath (urPath root) ?f = Inr full" "lstat fs (abs_segs full) = Inr (FileNode i)"
          "fsBytes fs i = fsBytes (agFiles a) i" "fsNames fs (abs_segs tp) = None"
        by (rule finalize_Inr [OF fin [unfolded Inr] tp Suc.prems(3,4)])
      with row M(2) show ?thesis by (simp add: stored_as_def child_trim)
    qed
  qed
qed simp

section \<open>A completed upload\<close>

definition rows_agree :: "upload_db \<Rightarrow> bool" where
  "rows_agree db \<longleftrightarrow>
     (\<forall>x\<in>set (assets db). \<forall>u\<in>set (sessions db). trim_space (uaUploadID x) = usUploadID u \<longrightarrow>
        uaSelectedRootKey x = usSelectedRootKey u \<and> uaExpectedSizeBytes x = usExpectedSizeBytes u)"

definition files_numbered :: "filesystem \<Rightarrow> bool" where
  "files_numbered fs \<longleftrightarrow> (\<forall>p i. fsNames fs p = Some (FileNode i) \<longrightarrow> i < fsNext fs)"

definition size_ok :: "int option \<Rightarrow> string \<Rightarrow> bool" where
  "size_ok expected bytes \<longleftrightarrow> (case expected of None \<Rightarrow> True | Some n \<Rightarrow> int (length bytes) = n)"

text \<open>The file of a row, found where the row says it is.\<close>

definition row_file :: "agent \<Rightarrow> asset_row \<Rightarrow> nat \<Rightarrow> bool" where
  "row_file a row i \<longleftrightarrow>
     (\<exists>root full. uploadRootConfig (uaSelectedRootKey row) a = Some root
        \<and> uploadRootChildPath (urPath root) (uaFinalRelativePath row) = Inr full
        \<and> lstat (agFiles a) (abs_segs full) = Inr (FileNode i))"

lemma lstat_numbered: "files_numbered fs \<Longrightarrow> lstat fs p = Inr (FileNode i) \<Longrightarrow> i < fsNext fs"
  by (auto simp: files_numbered_def lstat_Inr split: if_splits)

lemma same_uploads:
  "deviceRecord now d a = (r, b) \<Longrightarrow> agUploads b = agUploads a \<and> agFiles b = agFiles a \<and> agRoots b = agRoots a"
  by (auto simp: deviceRecord_def Let_def split: if_splits prod.splits option.splits)

lemma deviceProfile_same:
  assumes "deviceProfile ev d a = (r, b)"
  shows "agUploads b = agUploads a \<and> agFiles b = agFiles a \<and> agRoots b = agRoots a"
proof -
  have e: "agUploads y = agUploads x \<and> agFiles y = agFiles x \<and> agRoots y = agRoots x"
    if "ensuredProfile ev device x = (q, y)" for device x q y
    using that by (auto simp: ensuredProfile_def onProfiles_def split: prod.splits sum.splits)
  show ?thesis
    using assms unfolding deviceProfile_def andThen_def
    by (auto split: prod.splits sum.splits dest!: same_uploads e)
qed

lemma config_same: "agRoots b = agRoots a \<Longrightarrow> uploadRootConfig key b = uploadRootConfig key a"
  by (simp add: uploadRootConfig_def)

lemma finalizeAttempts_roots:
  "finalizeAttempts ev root session base cs left attempt a = (r, b) \<Longrightarrow> agRoots b = agRoots a"
proof (induction left arbitrary: attempt a)
  case (Suc left)
  have 1: "agRoots y = agRoots x" if "reserveCommit ev c x = (q, y)" for c x q y
    using that by (auto simp: reserveCommit_def onUploads_def split: if_splits prod.splits sum.splits)
  have 2: "agRoots y = agRoots x" if "markUploaded ev c x = (q, y)" for c x q y
    using that by (auto simp: markUploaded_def onUploads_def split: if_splits prod.splits sum.splits)
  have 3: "agRoots y = agRoots x" if "onFiles f x = (q, y)" for f :: "filesystem \<Rightarrow> unit fs_result" and x q y
    using that by (auto simp: onFiles_eq)
  show ?case
    using Suc.prems
    by (auto simp: Let_def split: prod.splits sum.splits runtime_error.splits up_error.splits option.splits if_splits
        dest!: 1 2 3 Suc.IH)
qed simp

lemma sha1RegularFile_Inr:
  assumes "sha1RegularFile sha1 io p fs = Inr (n, digest)"
  obtains i where "lstat fs p = Inr (FileNode i)" and "n = int (length (fsBytes fs i))"
    and "digest = hex_encode (sha1 (fsBytes fs i))"
  using assms by (auto simp: sha1RegularFile_def split: sum.splits fs_node.splits if_splits)

lemma matches_Inr:
  assumes "uploadedFileMatches sha1 io p expected cs fs = Inr True"
  obtains i where "lstat fs p = Inr (FileNode i)" and "size_ok expected (fsBytes fs i)"
    and "first_sha1_matches (hex_encode (sha1 (fsBytes fs i))) cs"
proof -
  obtain n digest where h: "sha1RegularFile sha1 io p fs = Inr (n, digest)"
    using assms by (auto simp: uploadedFileMatches_def split: sum.splits)
  obtain i where "lstat fs p = Inr (FileNode i)" "n = int (length (fsBytes fs i))"
    "digest = hex_encode (sha1 (fsBytes fs i))"
    by (rule sha1RegularFile_Inr [OF h])
  with assms h that show thesis
    by (auto simp: uploadedFileMatches_def size_ok_def split: option.splits if_splits)
qed

text \<open>What the loop leaves, in the terms of the agent.\<close>

lemma retry_stored:
  assumes r: "reserveAndFinalizeUploadWithRetry ev root session base cs a = (Inr asset, b)"
    and ok: "db_ok (agUploads a)" and s: "GetSession uploadID (agUploads a) = Some session"
    and root: "uploadRootConfig (usSelectedRootKey session) a = Some root"
    and tp: "uploadTempAbsolutePath root (usTempRelativePath session) = Inr tp"
    and i: "lstat (agFiles a) (abs_segs tp) = Inr (FileNode i)" and f: "files_numbered (agFiles a)"
  shows "uaStatus (uaRow asset) = AssetUploaded"
    and "uaRow asset \<in> set (assets (agUploads a))
      \<or> row_file b (uaRow asset) i \<and> fsBytes (agFiles b) i = fsBytes (agFiles a) i
        \<and> uaExpectedSizeBytes (uaRow asset) = usExpectedSizeBytes session"
proof -
  have "session \<in> set (sessions (agUploads a))" "usUploadID session = trim_space uploadID"
    using s GetSession_Some_iff [OF ok] by auto
  then have v: "GetSession (usUploadID session) (agUploads a) = Some session"
    using s by (simp add: GetSession_def)
  note roots = finalizeAttempts_roots [OF r [unfolded reserveAndFinalizeUploadWithRetry_def]]
  note st = attempts_stored [OF r [unfolded reserveAndFinalizeUploadWithRetry_def] ok tp i lstat_numbered [OF f i]]
  from st show "uaStatus (uaRow asset) = AssetUploaded" by (auto simp: row_of_session_def)
  from st show "uaRow asset \<in> set (assets (agUploads a))
      \<or> row_file b (uaRow asset) i \<and> fsBytes (agFiles b) i = fsBytes (agFiles a) i
        \<and> uaExpectedSizeBytes (uaRow asset) = usExpectedSizeBytes session"
    using root by (auto simp: row_of_session_def stored_as_def row_file_def v config_same [OF roots])
qed

lemma removeTemp_keeps:
  assumes r: "removeUploadTempFile io root rel fs = (r, fs')" and p: "lstat fs p = Inr (FileNode i)"
    and temp: "abs_segs (path_Join [urPath root, path_Clean (trim_space rel)]) \<noteq> p"
  shows "lstat fs' p = Inr (FileNode i) \<and> fsBytes fs' i = fsBytes fs i"
proof -
  let ?t = "abs_segs (path_Join [urPath root, path_Clean (trim_space rel)])"
  have "lstat (set_name ?t None fs) p = Inr (FileNode i)" if "lstat fs ?t = Inr n" "n \<noteq> DirNode" for n
  proof -
    have "fsNames fs ?t = Some n" using that by (auto simp: lstat_Inr split: if_splits)
    moreover have "fsNames fs (take k p) = Some DirNode" if "k \<in> {1..<length p}" for k
      using p that by (simp add: lstat_Inr dirs_above_def)
    ultimately have "take k p \<noteq> ?t" if "k \<in> {1..<length p}" for k
      using that \<open>n \<noteq> DirNode\<close> by (metis option.inject)
    then show ?thesis using p temp by (auto simp: lstat_Inr dirs_above_def set_name_def)
  qed
  then show ?thesis
    using r p by (auto simp: removeUploadTempFile_def Let_def andThen_def set_name_def
        split: prod.splits sum.splits if_splits)
qed

text \<open>No final path of the ledger lies in a temporary directory.\<close>

definition finals_apart :: "agent \<Rightarrow> bool" where
  "finals_apart a \<longleftrightarrow>
     (\<forall>x\<in>set (assets (agUploads a)). \<forall>root full.
        uploadRootConfig (uaSelectedRootKey x) a = Some root \<longrightarrow>
        uploadRootChildPath (urPath root) (uaFinalRelativePath x) = Inr full \<longrightarrow>
        \<not> temp_place (agRoots a) (abs_segs full))"

lemma removeTemp_elsewhere:
  assumes "roots_ok roots" "root_of roots root" and "removeUploadTempFile io root rel fs = (r, fs')"
    and "lstat fs p = Inr (FileNode i)" and "\<not> temp_place roots p"
  shows "lstat fs' p = Inr (FileNode i) \<and> fsBytes fs' i = fsBytes fs i"
proof (cases "fs' = fs")
  case False
  then obtain dir where "uploadTempRelativeDir root = Inr dir" "path_Clean (trim_space rel) \<noteq> ''.''"
      "\<not> path_IsAbs (path_Clean (trim_space rel))" "path_Dir (path_Clean (trim_space rel)) = dir"
    using assms(3) by (auto simp: removeUploadTempFile_def Let_def andThen_def split: prod.splits sum.splits if_splits)
  from temp_relative [OF assms(1,2) this] assms(5)
  show ?thesis by (intro removeTemp_keeps [OF assms(3,4)]) metis
qed (use assms(4) in simp)

lemma finish_stored:
  assumes r: "finishRecovered ev root x a = (Inr (Some asset), b)" and ok: "db_ok (agUploads a)"
    and x: "uaRow x \<in> set (assets (agUploads a))" and root: "uploadRootConfig (uaSelectedRootKey (uaRow x)) a = Some root"
    and full: "uploadRootChildPath (urPath root) (uaFinalRelativePath (uaRow x)) = Inr full"
    and i: "lstat (agFiles a) (abs_segs full) = Inr (FileNode i)"
    and apart: "finals_apart a" and roots: "roots_ok (agRoots a)"
  shows "uaStatus (uaRow asset) = AssetUploaded \<and> row_file b (uaRow asset) i
    \<and> fsBytes (agFiles b) i = fsBytes (agFiles a) i \<and> uaExpectedSizeBytes (uaRow asset) = uaExpectedSizeBytes (uaRow x)"
proof -
  obtain a1 where m: "markUploaded ev (uaID (uaRow x)) a = (Inr asset, a1)"
    and b: "b = (case GetSession (uaUploadID (uaRow x)) (agUploads a1) of None \<Rightarrow> a1
        | Some session \<Rightarrow> snd (onFiles (removeUploadTempFile (evIO ev) root (usTempRelativePath session)) a1))"
    using r by (auto simp: finishRecovered_def andThen_Inr)
  note M = markUploaded_Inr [OF m]
  have R1: "agRoots a1 = agRoots a"
    using m by (auto simp: markUploaded_def onUploads_def split: if_splits prod.splits sum.splits)
  obtain row where row: "row \<in> set (assets (agUploads a))" "uaID row = uaID (uaRow x)"
    "uaRow asset = uploaded_row (nonZeroTime (evNow ev) (evNow ev)) row"
    by (rule mark_result [OF ok M(1)])
  have "row = uaRow x"
    using db_okD(1) [OF ok] row(1,2) x by (auto simp: assets_ok_def distinct_map dest: inj_onD)
  with row(3) have y: "uaRow asset = uploaded_row (nonZeroTime (evNow ev) (evNow ev)) (uaRow x)" by simp
  have out: "\<not> temp_place (agRoots a) (abs_segs full)"
    using apart x root full by (auto simp: finals_apart_def)
  have keep: "lstat fs (abs_segs full) = Inr (FileNode i) \<and> fsBytes fs i = fsBytes (agFiles a) i"
    if "removeUploadTempFile (evIO ev) root rel (agFiles a) = (q, fs)" for rel q fs
    by (rule removeTemp_elsewhere [OF roots uploadRootConfig_root [OF root] that i out])
  have "lstat (agFiles b) (abs_segs full) = Inr (FileNode i) \<and> fsBytes (agFiles b) i = fsBytes (agFiles a) i
      \<and> agRoots b = agRoots a"
  proof (cases "GetSession (uaUploadID (uaRow x)) (agUploads a1)")
    case (Some session)
    obtain q fs where q: "removeUploadTempFile (evIO ev) root (usTempRelativePath session) (agFiles a) = (q, fs)" by fastforce
    then have "b = a1\<lparr>agFiles := fs\<rparr>" using M(2) by (simp add: b Some onFiles_def)
    with keep [OF q] R1 show ?thesis by simp
  qed (use i R1 M(2) in \<open>simp add: b\<close>)
  then show ?thesis
    using root full config_same [of b a] by (auto simp: y uploaded_row_def row_file_def)
qed

lemma fromTemp_stored:
  assumes r: "recoverFromTemp ev root x a = (Inr (Some asset), b)" and ok: "db_ok (agUploads a)"
    and x: "uaRow x \<in> set (assets (agUploads a))" and agree: "rows_agree (agUploads a)"
    and root: "uploadRootConfig (uaSelectedRootKey (uaRow x)) a = Some root" and f: "files_numbered (agFiles a)"
  shows "uaStatus (uaRow asset) = AssetUploaded \<and> (uaRow asset \<in> set (assets (agUploads a))
    \<or> (\<exists>i. row_file b (uaRow asset) i \<and> size_ok (uaExpectedSizeBytes (uaRow asset)) (fsBytes (agFiles b) i)
        \<and> first_sha1_matches (hex_encode (evSha1 ev (fsBytes (agFiles b) i))) (uaChecksums x)))"
proof -
  obtain session tp where s: "GetSession (uaUploadID (uaRow x)) (agUploads a) = Some session"
    and tp: "uploadTempAbsolutePath root (usTempRelativePath session) = Inr tp"
    and m: "uploadedFileMatches (evSha1 ev) (evIO ev) (abs_segs tp) (uaExpectedSizeBytes (uaRow x)) (uaChecksums x)
        (agFiles a) = Inr True"
    and retry: "reserveAndFinalizeUploadWithRetry ev root session (uaFinalRelativePath (uaRow x)) (uaChecksums x) a
        = (Inr asset, b)"
    using r by (auto simp: recoverFromTemp_def Let_def split: option.splits sum.splits bool.splits prod.splits if_splits)
  have in_s: "session \<in> set (sessions (agUploads a))" "usUploadID session = trim_space (uaUploadID (uaRow x))"
    using s GetSession_Some_iff [OF ok] by auto
  then have ag: "uaSelectedRootKey (uaRow x) = usSelectedRootKey session"
      "uaExpectedSizeBytes (uaRow x) = usExpectedSizeBytes session"
    using agree x by (simp_all add: rows_agree_def)
  obtain i where i: "lstat (agFiles a) (abs_segs tp) = Inr (FileNode i)"
      "size_ok (uaExpectedSizeBytes (uaRow x)) (fsBytes (agFiles a) i)"
      "first_sha1_matches (hex_encode (evSha1 ev (fsBytes (agFiles a) i))) (uaChecksums x)"
    by (rule matches_Inr [OF m])
  note st = retry_stored [OF retry ok s root [unfolded ag(1)] tp i(1) f]
  from st i ag(2) show ?thesis by auto
qed

lemma found_row: "GetUploadedAssetByUploadID u db = Inr (Some x) \<Longrightarrow> uaRow x \<in> set (assets db)"
  by (auto simp: GetUploadedAssetByUploadID_def scanUploadedAsset_def find_Some_iff split: option.splits)

lemma completed_fresh:
  assumes r: "completeFresh ev d session digest a = (Inr asset, b)" and ok: "db_ok (agUploads a)"
    and s: "GetSession uploadID (agUploads a) = Some session" and f: "files_numbered (agFiles a)"
  shows "uaStatus (uaRow asset) = AssetUploaded \<and> (uaRow asset \<in> set (assets (agUploads a))
    \<or> (\<exists>i. row_file b (uaRow asset) i \<and> size_ok (uaExpectedSizeBytes (uaRow asset)) (fsBytes (agFiles b) i)
        \<and> hex_encode (evSha1 ev (fsBytes (agFiles b) i)) = digest))"
proof -
  obtain device profile a1 root n sha base where p: "deviceProfile ev (trim_space d) a = (Inr (device, profile), a1)"
    and root: "uploadRootConfig (usSelectedRootKey session) a1 = Some root"
    and h: "sha1File (evSha1 ev) (evIO ev) root (usTempRelativePath session) (agFiles a1) = Inr (n, sha)"
    and sz: "case usExpectedSizeBytes session of None \<Rightarrow> True | Some m \<Rightarrow> n = m" and sha: "sha = digest"
    and retry: "reserveAndFinalizeUploadWithRetry ev root session base
        [\<lparr>ucAlgorithm = ''sha1'', ucEncoding = ''hex'', ucDigest = digest\<rparr>] a1 = (Inr asset, b)"
    using r by (auto simp: completeFresh_def andThen_Inr split: if_splits option.splits)
  obtain tp where tp: "uploadTempAbsolutePath root (usTempRelativePath session) = Inr tp"
    and g: "sha1RegularFile (evSha1 ev) (evIO ev) (abs_segs tp) (agFiles a1) = Inr (n, sha)"
    using h by (auto simp: sha1File_def split: sum.splits bool.splits)
  obtain i where i: "lstat (agFiles a1) (abs_segs tp) = Inr (FileNode i)" "n = int (length (fsBytes (agFiles a1) i))"
    "sha = hex_encode (evSha1 ev (fsBytes (agFiles a1) i))"
    by (rule sha1RegularFile_Inr [OF g])
  note same = deviceProfile_same [OF p]
  have "db_ok (agUploads a1)" "GetSession uploadID (agUploads a1) = Some session" "files_numbered (agFiles a1)"
    using same ok s f by simp_all
  note st = retry_stored [OF retry this(1,2) root tp i(1) this(3)]
  have "size_ok (usExpectedSizeBytes session) (fsBytes (agFiles a1) i)"
    using sz i(2) by (auto simp: size_ok_def split: option.splits)
  with st i(3) sha same show ?thesis by auto
qed

lemma recovered_stored:
  assumes r: "recoverPendingUploadAssetLocked ev x a = (Inr (Some asset), b)" and ok: "db_ok (agUploads a)"
    and x: "uaRow x \<in> set (assets (agUploads a))" "uaStatus (uaRow x) \<noteq> AssetUploaded"
    and agree: "rows_agree (agUploads a)" and apart: "finals_apart a"
    and roots: "roots_ok (agRoots a)" and f: "files_numbered (agFiles a)"
  shows "uaStatus (uaRow asset) = AssetUploaded \<and> (uaRow asset \<in> set (assets (agUploads a))
    \<or> (\<exists>i. row_file b (uaRow asset) i \<and> size_ok (uaExpectedSizeBytes (uaRow asset)) (fsBytes (agFiles b) i)
        \<and> first_sha1_matches (hex_encode (evSha1 ev (fsBytes (agFiles b) i))) (uaChecksums x)))"
proof -
  obtain root full where root: "uploadRootConfig (uaSelectedRootKey (uaRow x)) a = Some root"
    and full: "uploadRootChildPath (urPath root) (uaFinalRelativePath (uaRow x)) = Inr full"
    using r x(2) by (auto simp: recoverPendingUploadAssetLocked_def Let_def split: option.splits sum.splits)
  consider (temp) "recoverFromTemp ev root x a = (Inr (Some asset), b)"
    | (final) "finishRecovered ev root x a = (Inr (Some asset), b)"
      "uploadedFileMatches (evSha1 ev) (evIO ev) (abs_segs full) (uaExpectedSizeBytes (uaRow x)) (uaChecksums x)
        (agFiles a) = Inr True"
    using r x(2) root full
    by (auto simp: recoverPendingUploadAssetLocked_def Let_def split: sum.splits if_splits bool.splits)
  then show ?thesis
  proof cases
    case temp
    then show ?thesis by (rule fromTemp_stored [OF _ ok x(1) agree root f])
  next
    case final
    obtain i where "lstat (agFiles a) (abs_segs full) = Inr (FileNode i)"
        "size_ok (uaExpectedSizeBytes (uaRow x)) (fsBytes (agFiles a) i)"
        "first_sha1_matches (hex_encode (evSha1 ev (fsBytes (agFiles a) i))) (uaChecksums x)"
      by (rule matches_Inr [OF final(2)])
    with finish_stored [OF final(1) ok x(1) root full _ apart roots] show ?thesis by auto
  qed
qed

lemma completed_cases:
  assumes "CompleteUploadSession ev deviceID uploadID input a = (Inr asset, b)"
  obtains (known) sha device a1 session x where "finalSHA1Checksum (coChecksums input) = Inr sha"
      "deviceRecord (evNow ev) deviceID a = (Inr device, a1)" "GetSession uploadID (agUploads a1) = Some session"
      "GetUploadedAssetByUploadID (usUploadID session) (agUploads a1) = Inr (Some x)"
      "uaStatus (uaRow x) = AssetUploaded" "asset = x" "b = a1"
  | (pending) sha device a1 session x where "finalSHA1Checksum (coChecksums input) = Inr sha"
      "deviceRecord (evNow ev) deviceID a = (Inr device, a1)" "GetSession uploadID (agUploads a1) = Some session"
      "GetUploadedAssetByUploadID (usUploadID session) (agUploads a1) = Inr (Some x)"
      "uaStatus (uaRow x) \<noteq> AssetUploaded" "recoverPendingUploadAssetLocked ev x a1 = (Inr (Some asset), b)"
  | (fresh) sha device a1 session where "finalSHA1Checksum (coChecksums input) = Inr sha"
      "deviceRecord (evNow ev) deviceID a = (Inr device, a1)" "GetSession uploadID (agUploads a1) = Some session"
      "completeFresh ev deviceID session sha a1 = (Inr asset, b)"
proof -
  obtain sha where sha: "finalSHA1Checksum (coChecksums input) = Inr sha"
    using assms by (auto simp: CompleteUploadSession_def split: sum.splits)
  obtain device a1 where d: "deviceRecord (evNow ev) deviceID a = (Inr device, a1)"
    using assms by (auto simp: CompleteUploadSession_def sha andThen_Inr)
  obtain session where s: "GetSession uploadID (agUploads a1) = Some session"
      "uploadSessionForComplete deviceID uploadID a1 = (Inr session, a1)"
    using assms by (auto simp: CompleteUploadSession_def sha d andThen_Inr uploadSessionForComplete_def
        split: option.splits if_splits)
  obtain found where found: "GetUploadedAssetByUploadID (usUploadID session) (agUploads a1) = Inr found"
    using assms by (auto simp: CompleteUploadSession_def sha d s Let_def andThen_Inr lookup_def
        split: if_splits sum.splits)
  show thesis
  proof (cases found)
    case None
    then have "completeFresh ev deviceID session sha a1 = (Inr asset, b)"
      using assms by (simp add: CompleteUploadSession_def sha d s Let_def lookup_def found split: if_splits)
    with sha d s(1) show thesis by (rule fresh)
  next
    case (Some x)
    show thesis
    proof (cases "uaStatus (uaRow x) = AssetUploaded")
      case True
      then have "asset = x" "b = a1"
        using assms Some
        by (simp_all add: CompleteUploadSession_def sha d s Let_def lookup_def found split: if_splits)
      with True show thesis using sha d s(1) found Some by (intro known) simp_all
    next
      case False
      then have "recoverPendingUploadAssetLocked ev x a1 = (Inr (Some asset), b)"
        using assms Some
        by (auto simp: CompleteUploadSession_def sha d s Let_def lookup_def found andThen_Inr split: if_splits option.splits)
      with False show thesis using sha d s(1) found Some by (intro pending) simp_all
    qed
  qed
qed


lemma ex_completed_ok: "is_ok (fst ex_completed)"
  unfolding ex_completed_def by code_simp

lemma ex_agent_ok:
  "db_ok (agUploads ex_agent)" "rows_agree (agUploads ex_agent)" "finals_apart ex_agent" "files_numbered (agFiles ex_agent)"
proof -
  show "db_ok (agUploads ex_agent)" "rows_agree (agUploads ex_agent)" by code_simp+
  show "files_numbered (agFiles ex_agent)"
    by (auto simp: files_numbered_def ex_agent_def ex_files_def split: if_splits)
  have "uploadRootConfig ''k'' ex_agent = Some ex_root"
    "uploadRootChildPath (urPath ex_root) ''a.jpg'' = Inr ''/p/a.jpg''"
    "\<not> temp_place (agRoots ex_agent) (abs_segs ''/p/a.jpg'')"
    by code_simp+
  then show "finals_apart ex_agent"
    by (auto simp: finals_apart_def) (simp_all add: ex_agent_def ex_upload_db_def)
qed


end
