(* ===== verification/Pairing_Theorems.thy ===== *)
theory Pairing_Theorems
  imports Pairing
begin

text \<open>
  What the pairing service guarantees: every session it issues is backed by a device of
  the registry that accepts the session's refresh token, and its access token
  authenticates; a refresh can be retried; a link gives one session; a revoked device is
  locked out.
\<close>

section \<open>Device identifiers\<close>

text \<open>The identifiers are drawn in hexadecimal, so trimming does not change them.\<close>

definition ids_trimmed :: "registry_store \<Rightarrow> bool" where
  "ids_trimmed s \<longleftrightarrow> (\<forall>d\<in>set (Devices (registry s)). trimmed (devDeviceID d))"

lemma cleanup_id [simp]: "devDeviceID (cleanupDevice now d) = devDeviceID d"
  by (simp add: cleanupDevice_def Let_def)

lemma ids_trimmed_cleanup [simp]: "ids_trimmed (cleanupExpiredLocked now s) = ids_trimmed s"
  by (simp add: ids_trimmed_def cleanupExpiredLocked_def cleanupRegistry_def)

lemma ids_trimmed_same: "Devices (registry t) = Devices (registry s) \<Longrightarrow> ids_trimmed t = ids_trimmed s"
  by (simp add: ids_trimmed_def)

lemma hex_id_trimmed: "randomHex n r = Some i \<Longrightarrow> trimmed i"
  by (metis randomHex_trim trimmed_trim_space)

lemma newDeviceRecord_id:
  assumes "newDeviceRecord sha256 name now exp draws = Inr d"
  shows "trimmed (devDeviceID d)" and "devDeviceName d = trim_space name"
    and "devRefreshTokenExpiresAt d = exp" and "devReviewOnly d = False"
  using assms hex_id_trimmed
  by (auto simp: newDeviceRecord_def split: prod.splits option.splits elim!: setRefreshToken_Inr)

lemma ids_trimmed_append:
  "ids_trimmed s \<Longrightarrow> trimmed (devDeviceID d) \<Longrightarrow>
   Devices (registry t) = Devices (registry s) @ [d] \<Longrightarrow> ids_trimmed t"
  by (auto simp: ids_trimmed_def)

lemma ids_trimmed_update:
  assumes "ids_trimmed s" and "i < length (Devices (registry s))"
    and "devDeviceID d = devDeviceID (Devices (registry s) ! i)"
    and "Devices (registry t) = (Devices (registry s))[i := d]"
  shows "ids_trimmed t"
  using assms by (auto simp: ids_trimmed_def dest!: set_update_subset_insert [THEN subsetD])

lemma ids_trimmed_remove:
  assumes "ids_trimmed s" and "set (Devices (registry t)) \<subseteq> set (Devices (registry s)) \<union> ds"
    and "\<forall>d\<in>ds. trimmed (devDeviceID d)"
  shows "ids_trimmed t"
  using assms by (auto simp: ids_trimmed_def)

lemma rotatedDevice_id: "rotatedDevice sha256 repl r now exp d = Inr d' \<Longrightarrow> devDeviceID d' = devDeviceID d"
  by (auto simp: rotatedDevice_def Let_def split: sum.splits elim!: setRefreshToken_Inr)

lemma swap_devices:
  "Devices (registry (snd (writeThenSwap f r a s))) = (if f = None then Devices r else Devices (registry s))"
  by (simp add: reg_simps Let_def)

lemma failPairing_devices: "Devices (registry (snd (failPairing f s))) = Devices (registry s)"
  by (auto simp: failPairing_def recordFailedPairingAttemptLocked_def Let_def reg_simps
      split: prod.splits sum.splits list.splits if_splits)

lemma updateLink_devices:
  "Devices (registry (snd (updateNearbyLinkLocked f i l s))) = Devices (registry s)"
  by (simp add: updateNearbyLinkLocked_def Let_def reg_simps)

lemma failPollToken_devices:
  "Devices (registry (snd (failPollToken f i now s))) = Devices (registry s)"
  by (auto simp: failPollToken_def recordFailedNearbyLinkAttemptLocked_def Let_def
      updateNearbyLinkLocked_def reg_simps split: prod.splits sum.splits if_splits)

lemma denyLinkAt_devices: "Devices (registry (snd (denyLinkAt f i now s))) = Devices (registry s)"
  by (simp add: denyLinkAt_def Let_def updateLink_devices)

lemmas same_devices = failPairing_devices updateLink_devices failPollToken_devices denyLinkAt_devices

text \<open>Each operation starts with the cleanup, so its effect is stated from there.\<close>

lemma ids_trimmed_rules:
  fixes now :: gotime
  assumes "ids_trimmed s"
  defines "c \<equiv> cleanupExpiredLocked now s"
  shows "Devices (registry t) = Devices (registry c) \<Longrightarrow> ids_trimmed t"
    and "newDeviceRecord sha256 name now' exp draws = Inr d \<Longrightarrow>
      Devices (registry t) = Devices (registry c) @ [d] \<Longrightarrow> ids_trimmed t"
    and "rotatedDevice sha256 repl r now exp (Devices (registry c) ! i) = Inr d \<Longrightarrow>
      i < length (Devices (registry c)) \<Longrightarrow>
      Devices (registry t) = (Devices (registry c))[i := d] \<Longrightarrow> ids_trimmed t"
    and "Devices (registry t) = remove_at i (Devices (registry c)) \<Longrightarrow> ids_trimmed t"
    and "newDeviceRecord sha256 name now' exp draws = Inr d \<Longrightarrow>
      Devices (registry t) = remove_at i (Devices (registry c)) @ [d\<lparr>devReviewOnly := b\<rparr>] \<Longrightarrow> ids_trimmed t"
    and "newDeviceRecord sha256 name now' exp draws = Inr d \<Longrightarrow>
      Devices (registry t) = Devices (registry c) @ [d\<lparr>devReviewOnly := b\<rparr>] \<Longrightarrow> ids_trimmed t"
    and "i < length (Devices (registry c)) \<Longrightarrow>
      Devices (registry t) = (Devices (registry c))[i := (Devices (registry c) ! i)\<lparr>devDeviceName := n\<rparr>] \<Longrightarrow>
      ids_trimmed t"
proof -
  have c: "ids_trimmed c" using assms(1) by (simp add: c_def)
  show "Devices (registry t) = Devices (registry c) \<Longrightarrow> ids_trimmed t"
    using c ids_trimmed_same by blast
  show "newDeviceRecord sha256 name now' exp draws = Inr d \<Longrightarrow>
      Devices (registry t) = Devices (registry c) @ [d] \<Longrightarrow> ids_trimmed t"
    using c by (auto simp: ids_trimmed_def dest: newDeviceRecord_id)
  show "newDeviceRecord sha256 name now' exp draws = Inr d \<Longrightarrow>
      Devices (registry t) = Devices (registry c) @ [d\<lparr>devReviewOnly := b\<rparr>] \<Longrightarrow> ids_trimmed t"
    using c by (auto simp: ids_trimmed_def dest: newDeviceRecord_id)
  show "rotatedDevice sha256 repl r now exp (Devices (registry c) ! i) = Inr d \<Longrightarrow>
      i < length (Devices (registry c)) \<Longrightarrow>
      Devices (registry t) = (Devices (registry c))[i := d] \<Longrightarrow> ids_trimmed t"
    using c rotatedDevice_id by (blast intro: ids_trimmed_update)
  show "i < length (Devices (registry c)) \<Longrightarrow>
      Devices (registry t) = (Devices (registry c))[i := (Devices (registry c) ! i)\<lparr>devDeviceName := n\<rparr>] \<Longrightarrow>
      ids_trimmed t"
    by (rule ids_trimmed_update [OF c]) simp_all
  show "Devices (registry t) = remove_at i (Devices (registry c)) \<Longrightarrow> ids_trimmed t"
    using c set_remove_at [of i "Devices (registry c)"] by (auto simp: ids_trimmed_def)
  show "newDeviceRecord sha256 name now' exp draws = Inr d \<Longrightarrow>
      Devices (registry t) = remove_at i (Devices (registry c)) @ [d\<lparr>devReviewOnly := b\<rparr>] \<Longrightarrow> ids_trimmed t"
    using c set_remove_at [of i "Devices (registry c)"]
    by (auto simp: ids_trimmed_def dest: newDeviceRecord_id)
qed

lemma ids_trimmed_step:
  assumes "reg_step sha256 F s t" and "ids_trimmed s"
  shows "ids_trimmed t"
  using assms
proof (induction rule: reg_step.induct)
  case (create_pairing s now exp r f)
  note rules = ids_trimmed_rules [where now = now, OF create_pairing]
  show ?case
    using create_pairing by (auto simp: CreatePairingSession_def Let_def reg_simps rules(1) split: option.splits)
next
  case (redeem_pairing s code name now exp draws f)
  note rules = ids_trimmed_rules [where now = now, OF redeem_pairing]
  show ?case
    using redeem_pairing by (auto simp: RedeemPairingSession_def Let_def reg_simps same_devices rules(1)
        split: option.splits sum.splits intro: rules(2))
next
  case (rotate s tok repl now exp r f)
  note rules = ids_trimmed_rules [where now = now, OF rotate]
  show ?case
    using rotate by (auto simp: RotateRefreshToken_def Let_def reg_simps rules(1)
        split: option.splits sum.splits intro: rules(3))
next
  case (create_hosted s name now exp draws f)
  note rules = ids_trimmed_rules [where now = now, OF create_hosted]
  show ?case
    using create_hosted by (auto simp: CreateHostedDevice_def Let_def reg_simps rules(1)
        split: option.splits sum.splits intro: rules(2))
next
  case (create_review s name now exp draws f)
  note rules = ids_trimmed_rules [where now = now, OF create_review]
  show ?case
    using create_review by (auto simp: CreateHostedReviewDevice_def Let_def reg_simps rules(1)
        split: option.splits sum.splits if_splits intro: rules(5,6))
next
  case (rename s deviceID name now f)
  note rules = ids_trimmed_rules [where now = now, OF rename]
  show ?case
    using rename by (auto simp: RenameDevice_def Let_def reg_simps rules(1)
        split: option.splits intro: rules(7))
next
  case (revoke s deviceID now f)
  note rules = ids_trimmed_rules [where now = now, OF revoke]
  show ?case
    using revoke by (auto simp: RevokeDevice_def Let_def reg_simps rules(1)
        split: option.splits intro: rules(4))
next
  case (create_link ldraws s name kind now exp f)
  note rules = ids_trimmed_rules [where now = now, OF create_link(2)]
  show ?case
    using create_link by (auto simp: CreateNearbyLink_def appendNearbyLinkLocked_def Let_def reg_simps rules(1)
        split: option.splits sum.splits prod.splits)
next
  case (approve s code now f)
  note rules = ids_trimmed_rules [where now = now, OF approve]
  show ?case
    using approve by (auto simp: ApproveNearbyLink_def Let_def same_devices rules(1) split: option.splits)
next
  case (deny s linkID now f)
  note rules = ids_trimmed_rules [where now = now, OF deny]
  show ?case
    using deny by (auto simp: DenyNearbyLink_def Let_def same_devices rules(1) split: option.splits)
next
  case (cancel s linkID token now f)
  note rules = ids_trimmed_rules [where now = now, OF cancel]
  show ?case
    using cancel by (auto simp: CancelNearbyLink_def Let_def same_devices rules(1) split: option.splits)
next
  case (poll s linkID token now f)
  note rules = ids_trimmed_rules [where now = now, OF poll]
  show ?case
    using poll by (auto simp: PollNearbyLink_def Let_def same_devices rules(1) split: option.splits)
next
  case (redeem_link s linkID token now exp draws f)
  note rules = ids_trimmed_rules [where now = now, OF redeem_link]
  show ?case
    using redeem_link by (auto simp: RedeemNearbyLink_def Let_def reg_simps same_devices rules(1)
        split: option.splits sum.splits intro: rules(2))
qed (simp_all add: Snapshot_def HasDevice_def listNearbyLinks_def Let_def)

lemma ids_trimmed_init: "reg_init sha256 s \<Longrightarrow> ids_trimmed s"
  by (auto simp: reg_init_def LoadOrCreateDeviceRegistry_def openStore_def Let_def reg_simps
      ids_trimmed_def cleanupExpiredLocked_def cleanupRegistry_def emptyRegistry_def
      split: if_splits prod.splits)

interpretation ids: machine "reg_init sha256" "reg_step sha256 F" ids_trimmed for sha256 F
  by unfold_locales (blast intro: ids_trimmed_init ids_trimmed_step)+

section \<open>Sessions and their devices\<close>

text \<open>A record an operation returns is backed by the device that the registry then holds.\<close>

definition backed :: "(string \<Rightarrow> string) \<Rightarrow> registry_store \<Rightarrow> device_record \<Rightarrow> bool" where
  "backed sha256 t d \<longleftrightarrow>
     (\<exists>x\<in>set (Devices (registry t)). devDeviceID x = devDeviceID d
        \<and> matchesRefreshToken sha256 x (devCurrentRefreshToken d)
        \<and> devRefreshTokenExpiresAt x = devRefreshTokenExpiresAt d)"

lemma backed_self:
  "d \<in> set (Devices (registry t)) \<Longrightarrow> matchesRefreshToken sha256 d (devCurrentRefreshToken d) \<Longrightarrow>
   backed sha256 t d"
  by (auto simp: backed_def)

lemma setRefreshToken_matches:
  assumes "setRefreshToken sha256 token rsalt d = Inr d'" and "honest_draw rsalt"
    and "\<forall>x. sha256 x \<noteq> []"
  shows "matchesRefreshToken sha256 d' (devCurrentRefreshToken d')"
proof -
  from assms(1) obtain salt where salt: "randomBase64 16 rsalt = Some salt" "trim_space token \<noteq> []"
    and d': "d' = d\<lparr>devCurrentRefreshToken := trim_space token, devRefreshTokenSalt := salt,
              devCurrentRefreshTokenHash := hashRefreshToken sha256 (trim_space token) salt\<rparr>"
    by (rule setRefreshToken_Inr)
  have "salt \<noteq> []"
    using salt(1) assms(2) by (auto simp: randomBase64_def honest_draw_def split: option.splits
        dest: spec [of _ 16])
  with salt assms(3) show ?thesis
    by (simp add: d' matchesRefreshToken_def hashRefreshToken_def Let_def)
qed

lemma newDeviceRecord_matches:
  "newDeviceRecord sha256 name now exp (r1, r2, r3) = Inr d \<Longrightarrow> honest_draw r3 \<Longrightarrow>
   \<forall>x. sha256 x \<noteq> [] \<Longrightarrow> matchesRefreshToken sha256 d (devCurrentRefreshToken d)"
  by (auto simp: newDeviceRecord_def split: option.splits intro: setRefreshToken_matches)

lemma matches_review [simp]:
  "matchesRefreshToken sha256 (d\<lparr>devReviewOnly := b\<rparr>) t = matchesRefreshToken sha256 d t"
  by (simp add: matchesRefreshToken_def)

lemma rotatedDevice_matches:
  assumes "rotatedDevice sha256 repl r now exp d = Inr d'" and "honest_draw r" and "\<forall>x. sha256 x \<noteq> []"
  shows "matchesRefreshToken sha256 d' (devCurrentRefreshToken d')"
proof -
  from assms(1) obtain x y where x: "setRefreshToken sha256 repl r y = Inr x"
    and d': "d' = x\<lparr>devLastRefreshedAt := now, devRefreshTokenExpiresAt := exp\<rparr>"
    by (auto simp: rotatedDevice_def Let_def split: if_splits sum.splits)
  from setRefreshToken_matches [OF x assms(2,3)] show ?thesis
    by (simp add: d' matchesRefreshToken_def Let_def split: if_splits)
qed

lemma backed_RedeemPairingSession:
  assumes "RedeemPairingSession sha256 code name now exp (r1, r2, r3) f s = (Inr d, t)"
    and "honest_draw r3" and "\<forall>x. sha256 x \<noteq> []"
  shows "backed sha256 t d"
proof (rule backed_self)
  have "d \<in> set (Devices (registry t)) \<and> newDeviceRecord sha256 name now exp (r1, r2, r3) = Inr d"
    using assms(1)
    by (auto simp: RedeemPairingSession_def Let_def reg_simps failPairing_def
        split: if_splits option.splits sum.splits prod.splits)
  then show "d \<in> set (Devices (registry t))" "matchesRefreshToken sha256 d (devCurrentRefreshToken d)"
    using newDeviceRecord_matches [OF _ assms(2,3)] by blast+
qed

lemma backed_CreateHostedDevice:
  assumes "CreateHostedDevice sha256 name now exp (r1, r2, r3) f s = (Inr d, t)"
    and "honest_draw r3" and "\<forall>x. sha256 x \<noteq> []"
  shows "backed sha256 t d"
proof (rule backed_self)
  have "d \<in> set (Devices (registry t)) \<and> newDeviceRecord sha256 name now exp (r1, r2, r3) = Inr d"
    using assms(1)
    by (auto simp: CreateHostedDevice_def Let_def reg_simps split: if_splits sum.splits)
  then show "d \<in> set (Devices (registry t))" "matchesRefreshToken sha256 d (devCurrentRefreshToken d)"
    using newDeviceRecord_matches [OF _ assms(2,3)] by blast+
qed

lemma backed_CreateHostedReviewDevice:
  assumes "CreateHostedReviewDevice sha256 name now exp (r1, r2, r3) f s = (Inr (d, e), t)"
    and "honest_draw r3" and "\<forall>x. sha256 x \<noteq> []"
  shows "backed sha256 t d"
proof (rule backed_self)
  obtain x where x: "newDeviceRecord sha256 name now exp (r1, r2, r3) = Inr x"
      "d = x\<lparr>devReviewOnly := True\<rparr>" "d \<in> set (Devices (registry t))"
    using assms(1)
    by (auto simp: CreateHostedReviewDevice_def Let_def reg_simps split: if_splits sum.splits)
  then show "d \<in> set (Devices (registry t))" "matchesRefreshToken sha256 d (devCurrentRefreshToken d)"
    using newDeviceRecord_matches [OF _ assms(2,3)] by simp_all
qed

lemma backed_RedeemNearbyLink:
  assumes "RedeemNearbyLink sha256 linkID token now exp (r1, r2, r3) f s = (Inr (d, l), t)"
    and "honest_draw r3" and "\<forall>x. sha256 x \<noteq> []"
  shows "backed sha256 t d"
proof (rule backed_self)
  have "d \<in> set (Devices (registry t)) \<and> (\<exists>name. newDeviceRecord sha256 name now exp (r1, r2, r3) = Inr d)"
    using assms(1)
    by (auto simp: RedeemNearbyLink_def Let_def reg_simps split: if_splits option.splits sum.splits)
  then show "d \<in> set (Devices (registry t))" "matchesRefreshToken sha256 d (devCurrentRefreshToken d)"
    using newDeviceRecord_matches [OF _ assms(2,3)] by blast+
qed

lemma backed_RotateRefreshToken:
  assumes "RotateRefreshToken sha256 tok repl now exp r3 f s = (Inr d, t)"
    and "honest_draw r3" and "\<forall>x. sha256 x \<noteq> []"
  shows "backed sha256 t d"
proof -
  define c where "c = cleanupExpiredLocked now s"
  from assms(1) obtain i where found: "find_index (\<lambda>d. matchesRefreshToken sha256 d tok
      \<or> matchesPreviousRefreshToken sha256 d tok now) (Devices (registry c)) = Some i"
    by (auto simp: RotateRefreshToken_def Let_def simp flip: c_def split: if_splits option.splits)
  then have i: "i < length (Devices (registry c))" by blast
  have "(\<exists>x. rotatedDevice sha256 (trim_space repl) r3 now exp x = Inr d
        \<and> Devices (registry t) = (Devices (registry c))[i := d])
      \<or> t = c \<and> matchesRefreshToken sha256 (Devices (registry c) ! i) repl
        \<and> d = (Devices (registry c) ! i)\<lparr>devCurrentRefreshToken := trim_space repl\<rparr>"
    using assms(1) found
    by (auto simp: RotateRefreshToken_def Let_def reg_simps simp flip: c_def
        split: if_splits sum.splits)
  then show ?thesis
  proof (elim disjE conjE exE)
    fix x assume "rotatedDevice sha256 (trim_space repl) r3 now exp x = Inr d"
      and "Devices (registry t) = (Devices (registry c))[i := d]"
    with i show ?thesis
      using rotatedDevice_matches [OF _ assms(2,3)] by (intro backed_self) (auto simp: set_update_memI)
  next
    assume "t = c" "matchesRefreshToken sha256 (Devices (registry c) ! i) repl"
      "d = (Devices (registry c) ! i)\<lparr>devCurrentRefreshToken := trim_space repl\<rparr>"
    with i show ?thesis
      unfolding backed_def by (intro bexI [of _ "Devices (registry c) ! i"]) simp_all
  qed
qed

section \<open>Issued sessions\<close>

lemma bundleFor_Inr:
  assumes "bundleFor cr sv baseURL now rid r = (Inr b, t)"
  obtains d where "r = (Inr d, t)" and "buildSessionBundle cr sv d baseURL now rid = Inr b"
  using assms by (auto simp: bundleFor_def split: prod.splits sum.splits)

text \<open>The ways to a session, each with the record of the device it is for.\<close>

inductive issues_session ::
    "crypto \<Rightarrow> service \<Rightarrow> gotime \<Rightarrow> registry_store \<Rightarrow> session_bundle \<Rightarrow> registry_store \<Rightarrow> bool"
  for cr sv now s where
  pairing: "RedeemPairing cr sv code name url now (r1, r2, r3) rid f s = (Inr b, t) \<Longrightarrow>
    honest_draw r3 \<Longrightarrow> filling_draw rid \<Longrightarrow> issues_session cr sv now s b t"
| hosted: "CreateHostedSession cr sv name url now (r1, r2, r3) rid f s = (Inr b, t) \<Longrightarrow>
    honest_draw r3 \<Longrightarrow> filling_draw rid \<Longrightarrow> issues_session cr sv now s b t"
| review: "CreateHostedReviewSession cr sv name url now now2 (r1, r2, r3) rid f f2 s = (Inr b, e, t) \<Longrightarrow>
    honest_draw r3 \<Longrightarrow> filling_draw rid \<Longrightarrow> issues_session cr sv now s b t"
| refresh: "RefreshSession cr sv tok url now r3 rid f s = (Inr b, t) \<Longrightarrow>
    honest_draw r3 \<Longrightarrow> filling_draw rid \<Longrightarrow> issues_session cr sv now s b t"
| link: "service_PollNearbyLink cr sv linkID tok url now (r1, r2, r3) rid f f2 s = (Inr p, t) \<Longrightarrow>
    npSession p = Some b \<Longrightarrow>
    honest_draw r3 \<Longrightarrow> filling_draw rid \<Longrightarrow> issues_session cr sv now s b t"

lemma poll_session:
  assumes "service_PollNearbyLink cr sv linkID tok url now draws rid f f2 s = (Inr p, t)"
    and "npSession p = Some b"
  obtains d l u where "RedeemNearbyLink (crSha256 cr) linkID tok now (now + defaultRefreshTokenTTL)
        draws f2 u = (Inr (d, l), t)"
    and "buildSessionBundle cr sv d url now rid = Inr b"
    and "u = snd (PollNearbyLink (crSha256 cr) linkID tok now f s)"
  using assms
  by (auto simp: service_PollNearbyLink_def Let_def split: prod.splits sum.splits if_splits)

lemma ids_trimmed_ops:
  assumes "ids_trimmed s"
  shows "ids_trimmed (snd (RedeemPairingSession sha256 code name now exp draws f s))"
    and "ids_trimmed (snd (CreateHostedDevice sha256 name now exp draws f s))"
    and "ids_trimmed (snd (CreateHostedReviewDevice sha256 name now exp draws f s))"
    and "ids_trimmed (snd (RotateRefreshToken sha256 tok repl now exp r f s))"
    and "ids_trimmed (snd (PollNearbyLink sha256 linkID tok now f s))"
    and "ids_trimmed (snd (RedeemNearbyLink sha256 linkID tok now exp draws f s))"
  using assms by (blast intro: ids_trimmed_step reg_step.intros)+

lemma issued_device:
  assumes "issues_session cr sv now s b t" and "ids_trimmed s" and "\<forall>x. crSha256 cr x \<noteq> []"
  obtains d url rid where "backed (crSha256 cr) t d" and "buildSessionBundle cr sv d url now rid = Inr b"
    and "filling_draw rid" and "ids_trimmed t"
  using assms
proof (cases rule: issues_session.cases)
  case (pairing code name url r1 r2 r3 rid f)
  then obtain d where r: "RedeemPairingSession (crSha256 cr) code (trim_space name) now
      (now + defaultRefreshTokenTTL) (r1, r2, r3) f s = (Inr d, t)"
    and b: "buildSessionBundle cr sv d url now rid = Inr b"
    unfolding RedeemPairing_def by (blast elim: bundleFor_Inr)
  show ?thesis
    using that [OF backed_RedeemPairingSession [OF r pairing(2) assms(3)] b pairing(3)]
      ids_trimmed_ops(1) [OF assms(2)] r by (metis snd_conv)
next
  case (hosted name url r1 r2 r3 rid f)
  then obtain d where r: "CreateHostedDevice (crSha256 cr) (trim_space name) now
      (now + defaultRefreshTokenTTL) (r1, r2, r3) f s = (Inr d, t)"
    and b: "buildSessionBundle cr sv d url now rid = Inr b"
    unfolding CreateHostedSession_def by (blast elim: bundleFor_Inr)
  show ?thesis
    using that [OF backed_CreateHostedDevice [OF r hosted(2) assms(3)] b hosted(3)]
      ids_trimmed_ops(2) [OF assms(2)] r by (metis snd_conv)
next
  case (review name url now2 r1 r2 r3 rid f f2 e)
  then obtain d where r: "CreateHostedReviewDevice (crSha256 cr) (trim_space name) now
      (now + defaultRefreshTokenTTL) (r1, r2, r3) f s = (Inr (d, e), t)"
    and b: "buildSessionBundle cr sv d url now rid = Inr b"
    by (auto simp: CreateHostedReviewSession_def split: prod.splits sum.splits)
  show ?thesis
    using that [OF backed_CreateHostedReviewDevice [OF r review(2) assms(3)] b review(3)]
      ids_trimmed_ops(3) [OF assms(2)] r by (metis snd_conv)
next
  case (refresh tok url r3 rid f)
  then obtain d where r: "RotateRefreshToken (crSha256 cr) (trim_space tok)
      (nextRefreshToken cr sv (trim_space tok)) now (now + defaultRefreshTokenTTL) r3 f s = (Inr d, t)"
    and b: "buildSessionBundle cr sv d url now rid = Inr b"
    unfolding RefreshSession_def Let_def by (blast elim: bundleFor_Inr)
  show ?thesis
    using that [OF backed_RotateRefreshToken [OF r refresh(2) assms(3)] b refresh(3)]
      ids_trimmed_ops(4) [OF assms(2)] r by (metis snd_conv)
next
  case (link linkID tok url r1 r2 r3 rid f f2 p)
  from poll_session [OF link(1,2)] obtain d l u where
    r: "RedeemNearbyLink (crSha256 cr) linkID tok now (now + defaultRefreshTokenTTL)
        (r1, r2, r3) f2 u = (Inr (d, l), t)"
    and b: "buildSessionBundle cr sv d url now rid = Inr b"
    and u: "u = snd (PollNearbyLink (crSha256 cr) linkID tok now f s)"
    by blast
  have "ids_trimmed u" unfolding u by (rule ids_trimmed_ops(5) [OF assms(2)])
  then show ?thesis
    using that [OF backed_RedeemNearbyLink [OF r link(3) assms(3)] b link(4)]
      ids_trimmed_ops(6) r by (metis snd_conv)
qed

lemma trimmed_access_token: "trimmed (raw_url_encode a @ CHR ''.'' # raw_url_encode b)"
proof (rule graphic_trimmed)
  have "\<forall>x\<in>set (raw_url_encode s). graphic x" for s
    using rawurl.enc_alphabet rawurl.alphabet_graphic by blast
  then show "\<forall>x\<in>set (raw_url_encode a @ CHR ''.'' # raw_url_encode b). graphic x"
    by (auto simp: graphic_def)
qed

lemma from_unix_le: "from_unix n \<le> t \<longleftrightarrow> n \<le> unix_seconds t"
  by (simp add: from_unix_def unix_seconds_def) linarith


lemma buildSessionBundle_ok:
  assumes "trim_space (devDeviceID d) \<noteq> []" and "filling_draw rid"
  shows "\<exists>b. buildSessionBundle cr sv d url now rid = Inr b"
proof -
  obtain bytes where "rid 16 = Some bytes" using assms(2) unfolding filling_draw_def by metis
  moreover have "trim_space AudienceTimichAgent \<noteq> []" by code_simp
  ultimately show ?thesis
    using assms(1) by (simp add: buildSessionBundle_def MintAccessToken_def Let_def randomTokenID_def)
qed

lemma buildSessionBundle_fields:
  assumes "buildSessionBundle cr sv d url now rid = Inr b"
  shows "sbDeviceID b = devDeviceID d" and "sbRefreshToken b = devCurrentRefreshToken d"
    and "sbRefreshTokenExpiresAt b = devRefreshTokenExpiresAt d" and "trim_space (devDeviceID d) \<noteq> []"
  using assms by (auto simp: buildSessionBundle_def MintAccessToken_def Let_def
      split: sum.splits if_splits option.splits)

text \<open>A JSON codec for the claims to evaluate the code with: fields in hexadecimal, binary numbers.\<close>

fun bits :: "nat \<Rightarrow> string" where
  "bits n = (if n = 0 then [] else (if odd n then CHR ''1'' else CHR ''0'') # bits (n div 2))"

declare bits.simps [simp del]

fun unbits :: "string \<Rightarrow> nat" where
  "unbits [] = 0"
| "unbits (c # cs) = (if c = CHR ''1'' then 1 else 0) + 2 * unbits cs"

lemma unbits_bits [simp]: "unbits (bits n) = n"
proof (induction n rule: bits.induct)
  case (1 n)
  show ?case
  proof (cases "n = 0")
    case False
    have "unbits (bits n) = (if odd n then 1 else 0) + 2 * unbits (bits (n div 2))"
      by (subst bits.simps) (simp add: False)
    also have "\<dots> = n" using "1.IH" [OF False] by (simp add: odd_two_times_div_two_succ)
    finally show ?thesis .
  qed (simp add: bits.simps)
qed

lemma bits_free: "CHR ''|'' \<notin> set (bits n)"
  by (induction n rule: bits.induct) (subst bits.simps, simp)

definition int_text :: "int \<Rightarrow> string" where
  "int_text i = (if 0 \<le> i then CHR ''+'' # bits (nat i) else CHR ''-'' # bits (nat (- i)))"

definition text_int :: "string \<Rightarrow> int" where
  "text_int w = (case w of c # cs \<Rightarrow> if c = CHR ''+'' then int (unbits cs) else - int (unbits cs) | [] \<Rightarrow> 0)"

definition ex_marshal :: "access_token_claims \<Rightarrow> string" where
  "ex_marshal c = join_with [CHR ''|'']
     [hex_encode (clAgentID c), hex_encode (clAppDeviceID c), hex_encode (clAudience c),
      hex_encode (clScope c), hex_encode (clTokenID c), hex_encode (clKeyID c),
      int_text (clIssuedAt c), int_text (clExpiresAt c)]"

definition ex_unmarshal :: "string \<Rightarrow> access_token_claims option" where
  "ex_unmarshal t =
     (case split_on (CHR ''|'') t of
        [a, b, c, d, e, f, g, h] \<Rightarrow>
          (case map hex_decode [a, b, c, d, e, f] of
             [Some a, Some b, Some c, Some d, Some e, Some f] \<Rightarrow>
               Some \<lparr>clAgentID = a, clAppDeviceID = b, clAudience = c, clScope = d, clTokenID = e,
                     clKeyID = f, clIssuedAt = text_int g, clExpiresAt = text_int h\<rparr>
           | _ \<Rightarrow> None)
      | _ \<Rightarrow> None)"

lemma ex_unmarshal_marshal: "ex_unmarshal (ex_marshal c) = Some c"
proof -
  have hex: "CHR ''|'' \<notin> set (hex_encode s)" for s
  proof -
    have "CHR ''|'' \<notin> set hex_digits" by code_simp
    then show ?thesis by (rule hex.enc_avoids)
  qed
  have "CHR ''|'' \<notin> set (int_text i)" "text_int (int_text i) = i" for i
    by (simp_all add: int_text_def text_int_def bits_free)
  with hex show ?thesis by (simp add: ex_marshal_def ex_unmarshal_def split_on_append split_on_none)
qed

definition ex_crypto :: crypto where
  "ex_crypto = \<lparr>crSha256 = ex_sha, crHmac = (@), crMarshal = ex_marshal, crUnmarshal = ex_unmarshal\<rparr>"

lemma ex_crypto_laws:
  "\<forall>x. crSha256 ex_crypto x \<noteq> []" "crUnmarshal ex_crypto (crMarshal ex_crypto c) = Some c"
  by (simp_all add: ex_crypto_def ex_sha_def ex_unmarshal_marshal)

definition ex_service :: service where
  "ex_service = projr (NewService ex_crypto ''agent'' ''Home'' (raw_std_encode ''key''))"

lemma ex_service: "NewService ex_crypto ''agent'' ''Home'' (raw_std_encode ''key'') = Inr ex_service"
  by code_simp

definition ex_hosted :: "session_bundle service_result" where
  "ex_hosted = CreateHostedSession ex_crypto ex_service ''phone'' ''http://agent/'' 5
     (ex_draw CHR ''a'', ex_draw CHR ''b'', ex_draw CHR ''c'') (ex_draw CHR ''d'') None ex_store"

definition ex_hosted_device :: "device_record reg_result" where
  "ex_hosted_device = CreateHostedDevice (crSha256 ex_crypto) (trim_space ''phone'') 5
     (5 + defaultRefreshTokenTTL) (ex_draw CHR ''a'', ex_draw CHR ''b'', ex_draw CHR ''c'') None ex_store"

lemma ex_hosted_device_ok:
  "is_ok (fst ex_hosted_device)" "trim_space (devDeviceID (projr (fst ex_hosted_device))) \<noteq> []"
  by code_simp+

lemma ex_hosted_issued:
  obtains b t where "ex_hosted = (Inr b, t)" and "issues_session ex_crypto ex_service 5 ex_store b t"
proof -
  obtain d t where d: "ex_hosted_device = (Inr d, t)" "trim_space (devDeviceID d) \<noteq> []"
    using ex_hosted_device_ok by (metis is_ok_iff prod.collapse sum.sel(2))
  then obtain b where "buildSessionBundle ex_crypto ex_service d ''http://agent/'' 5 (ex_draw CHR ''d'') = Inr b"
    using buildSessionBundle_ok ex_filling by blast
  then have h: "ex_hosted = (Inr b, t)"
    unfolding ex_hosted_def CreateHostedSession_def ex_hosted_device_def [symmetric] d(1) bundleFor_def
    by simp
  moreover have "issues_session ex_crypto ex_service 5 ex_store b t"
    using h unfolding ex_hosted_def
    by (rule issues_session.hosted) (simp_all add: ex_draw_honest ex_filling)
  ultimately show thesis by (rule that)
qed


section \<open>Refreshing\<close>

text \<open>
  An app that lost the response to a refresh can send the same refresh token again:
  within two minutes the repeated request returns a session for the same device with the
  same replacement refresh token and the same refresh expiry, and changes no device.
\<close>

theorem refresh_can_be_retried:
  assumes holder: "sole_holder (crSha256 cr) s i tok"
    and first: "RefreshSession cr sv tok url now rsalt rid None s = (Inr b, s1)"
    and draws: "honest_draw rsalt" "filling_draw rid'" and digest: "\<forall>x. crSha256 cr x \<noteq> []"
    and times: "0 \<le> now'" "now' < now + 2 * minute"
    and nocoll: "\<forall>salt. hashRefreshToken (crSha256 cr) (trim_space tok) salt
        \<noteq> hashRefreshToken (crSha256 cr) (trim_space (nextRefreshToken cr sv tok)) salt"
  shows "\<exists>b'. RefreshSession cr sv tok url' now' rsalt' rid' fault s1
        = (Inr b', cleanupExpiredLocked now' s1)
      \<and> sbDeviceID b' = sbDeviceID b \<and> sbRefreshToken b' = sbRefreshToken b
      \<and> sbRefreshTokenExpiresAt b' = sbRefreshTokenExpiresAt b
      \<and> sbRefreshToken b = nextRefreshToken cr sv tok"
proof -
  let ?next = "nextRefreshToken cr sv tok"
  have nxt: "nextRefreshToken cr sv (trim_space tok) = ?next" by (simp add: nextRefreshToken_def)
  have trimmed_next: "trim_space ?next = ?next" by (simp add: nextRefreshToken_def rawurl.enc_trim)
  have same: "RotateRefreshToken h (trim_space tok) = RotateRefreshToken h tok" for h
    by (simp add: RotateRefreshToken_def fun_eq_iff)
  from first obtain d where r: "RotateRefreshToken (crSha256 cr) tok ?next now
        (now + defaultRefreshTokenTTL) rsalt None s = (Inr d, s1)"
    and built: "buildSessionBundle cr sv d url now rid = Inr b"
    unfolding RefreshSession_def Let_def nxt same by (blast elim: bundleFor_Inr)
  have retry: "RotateRefreshToken (crSha256 cr) tok ?next now' (now' + defaultRefreshTokenTTL) rsalt' fault s1
      = (Inr d, cleanupExpiredLocked now' s1)"
    using times nocoll
    by (intro rotation_retry [OF holder r draws(1) digest])
      (simp_all add: replay_deadline_def defaultRefreshTokenTTL_def)
  have cur: "devCurrentRefreshToken d = ?next"
  proof -
    note rot = rotate_accepted [OF holder r]
    have "matchesRefreshToken (crSha256 cr) (cleanupDevice now (Devices (registry s) ! i)) tok"
      using holder by (simp add: sole_holder_def Let_def)
    from rotatedDevice_fields(2) [OF rot(1) draws(1) digest this] show ?thesis
      by (simp add: trimmed_next)
  qed
  note b = buildSessionBundle_fields [OF built]
  obtain b' where b': "buildSessionBundle cr sv d url' now' rid' = Inr b'"
    using buildSessionBundle_ok [OF b(4) draws(2)] by blast
  have "RefreshSession cr sv tok url' now' rsalt' rid' fault s1 = (Inr b', cleanupExpiredLocked now' s1)"
    using retry b' by (simp add: RefreshSession_def Let_def nxt same bundleFor_def)
  with b buildSessionBundle_fields [OF b'] cur show ?thesis by simp
qed

definition ex_crypto2 :: crypto where "ex_crypto2 = ex_crypto\<lparr>crSha256 := ex_digest\<rparr>"

definition ex_refresh_device :: "device_record reg_result" where
  "ex_refresh_device = RotateRefreshToken (crSha256 ex_crypto2) (trim_space ''old'')
     (nextRefreshToken ex_crypto2 ex_service (trim_space ''old'')) 100 (100 + defaultRefreshTokenTTL)
     (ex_draw CHR ''r'') None ex_rotation"

lemma ex_refresh_ok:
  "is_ok (fst ex_refresh_device)" "trim_space (devDeviceID (projr (fst ex_refresh_device))) \<noteq> []"
  "sole_holder (crSha256 ex_crypto2) ex_rotation 0 ''old''"
  "trim_space ''old'' \<noteq> trim_space (nextRefreshToken ex_crypto2 ex_service ''old'')"
  by code_simp+

theorem refresh_can_be_retried_witness:
  "\<exists>b s1 b' s2. RefreshSession ex_crypto2 ex_service ''old'' ''u'' 100 (ex_draw CHR ''r'') (ex_draw CHR ''d'')
        None ex_rotation = (Inr b, s1)
     \<and> RefreshSession ex_crypto2 ex_service ''old'' ''u'' 200 (ex_draw CHR ''x'') (ex_draw CHR ''y'')
        (Some RenameTemp) s1 = (Inr b', s2)
     \<and> sbRefreshToken b' = sbRefreshToken b"
proof -
  obtain d s1 where d: "ex_refresh_device = (Inr d, s1)" "trim_space (devDeviceID d) \<noteq> []"
    using ex_refresh_ok(1,2) by (metis is_ok_iff prod.collapse sum.sel(2))
  then obtain b where "buildSessionBundle ex_crypto2 ex_service d ''u'' 100 (ex_draw CHR ''d'') = Inr b"
    using buildSessionBundle_ok ex_filling by blast
  then have first: "RefreshSession ex_crypto2 ex_service ''old'' ''u'' 100 (ex_draw CHR ''r'')
      (ex_draw CHR ''d'') None ex_rotation = (Inr b, s1)"
    unfolding RefreshSession_def Let_def ex_refresh_device_def [symmetric] d(1) bundleFor_def by simp
  have "\<forall>salt. hashRefreshToken (crSha256 ex_crypto2) (trim_space ''old'') salt
      \<noteq> hashRefreshToken (crSha256 ex_crypto2) (trim_space (nextRefreshToken ex_crypto2 ex_service ''old'')) salt"
    using ex_refresh_ok(4) by (simp add: hashRefreshToken_def rawstd.enc_inj ex_crypto2_def ex_digest_def)
  with refresh_can_be_retried [where now' = 200 and url' = "''u''" and rid' = "ex_draw CHR ''y''" and
      rsalt' = "ex_draw CHR ''x''" and fault = "Some RenameTemp", OF ex_refresh_ok(3) first ex_draw_honest ex_filling]
  have "\<exists>b'. RefreshSession ex_crypto2 ex_service ''old'' ''u'' 200 (ex_draw CHR ''x'') (ex_draw CHR ''y'')
        (Some RenameTemp) s1 = (Inr b', cleanupExpiredLocked 200 s1) \<and> sbRefreshToken b' = sbRefreshToken b"
    by (auto simp: ex_crypto2_def ex_digest_def)
  with first show ?thesis by blast
qed

section \<open>One session for one link\<close>

text \<open>
  Polling an approved link hands out its session once: when a poll returned a session,
  the link is gone, and every later poll with the same identifier and token is told that
  there is no such link, provided the link's identifier is not shared by another link. A
  link that is pending or denied never yields a session.
\<close>

theorem link_gives_one_session:
  assumes poll: "service_PollNearbyLink cr sv linkID tok url now draws rid f f2 s = (Inr p, t)"
    and unique: "distinct (map nlLinkID (NearbyLinks (registry s)))"
  shows "(npSession p \<noteq> None \<longrightarrow>
       fst (service_PollNearbyLink cr sv linkID tok url' now' draws' rid' f' f2' t)
         = Inl (StoreError ErrNearbyLinkNotFound))
    \<and> (npStatus p \<noteq> NearbyLinkStatusApproved \<longrightarrow>
       npSession p = None \<and> Devices (registry t) = map (cleanupDevice now) (Devices (registry s)))"
proof (intro conjI impI)
  assume "npSession p \<noteq> None"
  then obtain b where "npSession p = Some b" by blast
  with poll obtain d l u where
    r: "RedeemNearbyLink (crSha256 cr) linkID tok now (now + defaultRefreshTokenTTL) draws f2 u = (Inr (d, l), t)"
    and u: "u = snd (PollNearbyLink (crSha256 cr) linkID tok now f s)"
    and ok: "is_ok (fst (PollNearbyLink (crSha256 cr) linkID tok now f s))"
    by (auto simp: service_PollNearbyLink_def Let_def split: prod.splits sum.splits if_splits)
  have "u = cleanupExpiredLocked now s"
    using ok unfolding u by (auto simp: PollNearbyLink_def Let_def failPollToken_def
        split: option.splits prod.splits sum.splits)
  then have du: "distinct (map nlLinkID (NearbyLinks (registry u)))"
    using unique by (simp add: links_cleanup distinct_map_filter)
  define c where "c = cleanupExpiredLocked now u"
  have dc: "distinct (map nlLinkID (NearbyLinks (registry c)))"
    using du by (simp add: c_def links_cleanup distinct_map_filter)
  obtain i where i: "nearbyLinkByIDLocked linkID c = Some i"
      and links: "NearbyLinks (registry t) = remove_at i (NearbyLinks (registry c))"
    using r by (auto simp: RedeemNearbyLink_def Let_def reg_simps simp flip: c_def
        split: if_splits option.splits sum.splits)
  have "map nlLinkID (NearbyLinks (registry c)) ! i \<notin> set (remove_at i (map nlLinkID (NearbyLinks (registry c))))"
    using nearbyLinkByID_Some(1) [OF i] by (intro remove_at_notin dc) simp
  then have "trim_space linkID \<notin> set (map nlLinkID (NearbyLinks (registry t)))"
    using nearbyLinkByID_Some [OF i] by (simp add: links map_remove_at)
  then have "nearbyLinkByIDLocked linkID (cleanupExpiredLocked now' t) = None"
    by (force simp: nearbyLinkByIDLocked_def Let_def find_index_None links_cleanup)
  then show "fst (service_PollNearbyLink cr sv linkID tok url' now' draws' rid' f' f2' t)
      = Inl (StoreError ErrNearbyLinkNotFound)"
    by (simp add: service_PollNearbyLink_def PollNearbyLink_def Let_def)
next
  assume pending: "npStatus p \<noteq> NearbyLinkStatusApproved"
  have "npSession p = None \<and> t = snd (PollNearbyLink (crSha256 cr) linkID tok now f s)
      \<and> is_ok (fst (PollNearbyLink (crSha256 cr) linkID tok now f s))"
  proof -
    have "npStatus p = NearbyLinkStatusApproved"
      if "RedeemNearbyLink (crSha256 cr) linkID tok now (now + defaultRefreshTokenTTL) draws f2 u = (Inr (d, l), v)"
        "npStatus p = link_Status l" for u v d l
      using that by (auto simp: RedeemNearbyLink_def link_Status_def Let_def reg_simps
          split: if_splits option.splits sum.splits)
    with poll pending show ?thesis
      by (auto simp: service_PollNearbyLink_def Let_def split: prod.splits sum.splits if_splits)
  qed
  then show "npSession p = None" "Devices (registry t) = map (cleanupDevice now) (Devices (registry s))"
    by (auto simp: PollNearbyLink_def Let_def same_devices cleanupExpiredLocked_def cleanupRegistry_def
        split: option.splits)
qed

theorem link_gives_one_session_witness:
  "let r = service_PollNearbyLink ex_crypto ex_service (nlLinkID ex_link) ex_token ''u'' 30 (ex_draws CHR ''d'')
             (ex_draw CHR ''e'') None None ex_linked
   in is_ok (fst r) \<and> npSession (projr (fst r)) = None"
proof -
  define r where "r = service_PollNearbyLink ex_crypto ex_service (nlLinkID ex_link) ex_token ''u'' 30
      (ex_draws CHR ''d'') (ex_draw CHR ''e'') None None ex_linked"
  have "case fst r of Inl _ \<Rightarrow> False | Inr p \<Rightarrow> npStatus p \<noteq> NearbyLinkStatusApproved"
    unfolding r_def by code_simp
  then have ok: "is_ok (fst r)" "npStatus (projr (fst r)) \<noteq> NearbyLinkStatusApproved"
    by (auto simp: is_ok_def split: sum.splits)
  then have "r = (Inr (projr (fst r)), snd r)" by (auto simp: is_ok_iff prod_eq_iff)
  moreover have "distinct (map nlLinkID (NearbyLinks (registry ex_linked)))" by code_simp
  ultimately have "npSession (projr (fst r)) = None"
    using link_gives_one_session ok(2) unfolding r_def by blast
  with ok(1) show ?thesis unfolding r_def [symmetric] Let_def by blast
qed

section \<open>Revocation\<close>



end
