(* ===== verification/Upload_Locks.thy ===== *)
theory Upload_Locks
  imports Prelude "HOL-Library.Multiset"
begin

text \<open>
  \<open>internal/runtime/upload_locks.go\<close>: the registries of device gates and session locks, the
  calls that take and release them, and the operations that take a device gate and then a
  session lock. A state holds the calls in flight as a multiset; a step is one atomic section
  of one call (the part under \<open>r.mu\<close>, or one operation on the entry's \<open>sync.RWMutex\<close>).
\<close>

section \<open>Go's read-write mutex\<close>

text \<open>
  A writer first announces itself, which keeps new readers and other writers out, and holds
  the mutex when the last reader has left. A blocking operation is \<open>None\<close> while it blocks.
\<close>

datatype writer_state = NoWriter | WriterAnnounced | WriterHolds

record upload_lock_entry =
  leWriter :: writer_state
  leReaders :: nat
  leRefs :: int

definition rw_RLock :: "upload_lock_entry \<Rightarrow> upload_lock_entry option" where
  "rw_RLock e = (if leWriter e = NoWriter then Some (e\<lparr>leReaders := leReaders e + 1\<rparr>) else None)"

definition rw_announce :: "upload_lock_entry \<Rightarrow> upload_lock_entry option" where
  "rw_announce e = (if leWriter e = NoWriter then Some (e\<lparr>leWriter := WriterAnnounced\<rparr>) else None)"

definition rw_Lock :: "upload_lock_entry \<Rightarrow> upload_lock_entry option" where
  "rw_Lock e = (if leReaders e = 0 then Some (e\<lparr>leWriter := WriterHolds\<rparr>) else None)"

definition rw_TryLock :: "upload_lock_entry \<Rightarrow> upload_lock_entry option" where
  "rw_TryLock e =
     (if leWriter e = NoWriter \<and> leReaders e = 0 then Some (e\<lparr>leWriter := WriterHolds\<rparr>) else None)"

definition rw_unlock :: "bool \<Rightarrow> upload_lock_entry \<Rightarrow> upload_lock_entry" where
  "rw_unlock shared e =
     (if shared then e\<lparr>leReaders := leReaders e - 1\<rparr> else e\<lparr>leWriter := NoWriter\<rparr>)"

section \<open>The registry\<close>

text \<open>An entry is an address, so that a deleted and a new entry of a key are different mutexes.\<close>

record upload_lock_registry =
  lrEntries :: "string \<Rightarrow> nat option"
  lrHeap :: "nat \<Rightarrow> upload_lock_entry"
  lrNext :: nat

definition update_entry ::
    "nat \<Rightarrow> (upload_lock_entry \<Rightarrow> upload_lock_entry) \<Rightarrow> upload_lock_registry \<Rightarrow> upload_lock_registry" where
  "update_entry p f r = r\<lparr>lrHeap := (lrHeap r)(p := f (lrHeap r p))\<rparr>"

definition countRef :: "string \<Rightarrow> upload_lock_registry \<Rightarrow> nat \<times> upload_lock_registry" where
  "countRef key r =
     (case lrEntries r key of
        Some p \<Rightarrow> (p, update_entry p (\<lambda>e. e\<lparr>leRefs := leRefs e + 1\<rparr>) r)
      | None \<Rightarrow>
          let p = lrNext r in
          (p, r\<lparr>lrEntries := (lrEntries r)(key \<mapsto> p),
                lrHeap := (lrHeap r)(p := \<lparr>leWriter = NoWriter, leReaders = 0, leRefs = 1\<rparr>),
                lrNext := p + 1\<rparr>))"

definition releaseRef :: "string \<Rightarrow> nat \<Rightarrow> upload_lock_registry \<Rightarrow> upload_lock_registry" where
  "releaseRef key p r =
     (let r = update_entry p (\<lambda>e. e\<lparr>leRefs := leRefs e - 1\<rparr>) r in
      if leRefs (lrHeap r p) = 0 then r\<lparr>lrEntries := (lrEntries r)(key := None)\<rparr> else r)"

section \<open>One call of acquire\<close>

datatype lock_level = DeviceGate | SessionLock

datatype lock_phase = Counted | Announced | Holding | Dropped

record lock_request =
  rqLevel :: lock_level
  rqKey :: string
  rqShared :: bool
  rqTry :: bool

record lock_call =
  lcRequest :: lock_request
  lcEntry :: nat
  lcPhase :: lock_phase

definition acquire :: "lock_request \<Rightarrow> upload_lock_registry \<Rightarrow> lock_call \<times> upload_lock_registry" where
  "acquire q r =
     (let q = q\<lparr>rqKey := trim_space (rqKey q)\<rparr> in
      case countRef (rqKey q) r of
        (p, r) \<Rightarrow> (\<lparr>lcRequest = q, lcEntry = p, lcPhase = Counted\<rparr>, r))"

text \<open>The next section of a call that does not hold its lock yet; \<open>None\<close> while it is blocked.\<close>

definition tryMutex :: "lock_call \<Rightarrow> upload_lock_registry \<Rightarrow> lock_call \<times> upload_lock_registry" where
  "tryMutex c r =
     (case (if rqShared (lcRequest c) then rw_RLock else rw_TryLock) (lrHeap r (lcEntry c)) of
        None \<Rightarrow> (c\<lparr>lcPhase := Dropped\<rparr>, r)
      | Some e \<Rightarrow> (c\<lparr>lcPhase := Holding\<rparr>, update_entry (lcEntry c) (\<lambda>_. e) r))"

definition waitMutex :: "lock_call \<Rightarrow> upload_lock_registry \<Rightarrow> (lock_call \<times> upload_lock_registry) option" where
  "waitMutex c r =
     (let e = lrHeap r (lcEntry c) in
      if lcPhase c = Announced
      then map_option (\<lambda>e. (c\<lparr>lcPhase := Holding\<rparr>, update_entry (lcEntry c) (\<lambda>_. e) r)) (rw_Lock e)
      else if rqShared (lcRequest c)
      then map_option (\<lambda>e. (c\<lparr>lcPhase := Holding\<rparr>, update_entry (lcEntry c) (\<lambda>_. e) r)) (rw_RLock e)
      else map_option (\<lambda>e. (c\<lparr>lcPhase := Announced\<rparr>, update_entry (lcEntry c) (\<lambda>_. e) r)) (rw_announce e))"

definition waiting :: "lock_call \<Rightarrow> bool" where
  "waiting c \<longleftrightarrow> lcPhase c = Counted \<or> lcPhase c = Announced"

definition callStep :: "lock_call \<Rightarrow> upload_lock_registry \<Rightarrow> (lock_call \<times> upload_lock_registry) option" where
  "callStep c r = (if rqTry (lcRequest c) then Some (tryMutex c r) else waitMutex c r)"

text \<open>The first half of the function that \<open>acquire\<close> returns; the second is \<open>releaseRef\<close>.\<close>

definition dropMutex :: "lock_call \<Rightarrow> upload_lock_registry \<Rightarrow> lock_call \<times> upload_lock_registry" where
  "dropMutex c r =
     (c\<lparr>lcPhase := Dropped\<rparr>, update_entry (lcEntry c) (rw_unlock (rqShared (lcRequest c))) r)"

definition forgetCall :: "lock_call \<Rightarrow> upload_lock_registry \<Rightarrow> upload_lock_registry" where
  "forgetCall c r = releaseRef (rqKey (lcRequest c)) (lcEntry c) r"

section \<open>Operations\<close>

text \<open>
  What an operation locks, in order: \<open>lock\<close>, \<open>readLock\<close>, \<open>tryLock\<close> and \<open>tryReadLock\<close> on the
  two registries, and the two pairs of the code. \<open>StartUploadSession\<close> takes the locks of an
  action when it recovers a reserved commit.
\<close>

definition request :: "lock_level \<Rightarrow> bool \<Rightarrow> bool \<Rightarrow> string \<Rightarrow> lock_request" where
  "request level shared try key = \<lparr>rqLevel = level, rqKey = key, rqShared = shared, rqTry = try\<rparr>"

definition lockUploadSession :: "string \<Rightarrow> string \<Rightarrow> lock_request list" where
  "lockUploadSession deviceID uploadID =
     [request DeviceGate True False deviceID, request SessionLock False False uploadID]"

definition tryLockUploadSession :: "string \<Rightarrow> string \<Rightarrow> lock_request list" where
  "tryLockUploadSession deviceID uploadID =
     [request DeviceGate True True deviceID, request SessionLock False True uploadID]"

datatype upload_operation =
  DeviceOperation string
| SessionOperation string string
| ExclusiveOperation string
| MaintainSession string string
| RemoveOrphan string

fun lock_plan :: "upload_operation \<Rightarrow> lock_request list" where
  "lock_plan (DeviceOperation deviceID) = [request DeviceGate True False deviceID]"
| "lock_plan (SessionOperation deviceID uploadID) = lockUploadSession deviceID uploadID"
| "lock_plan (ExclusiveOperation deviceID) = [request DeviceGate False False deviceID]"
| "lock_plan (MaintainSession deviceID uploadID) = tryLockUploadSession deviceID uploadID"
| "lock_plan (RemoveOrphan uploadID) = [request SessionLock False True uploadID]"

text \<open>A running operation: its calls, the last one first, and the requests still to come.\<close>

record running =
  rnCalls :: "lock_call list"
  rnPlan :: "lock_request list"

type_synonym lock_registries = "lock_level \<Rightarrow> upload_lock_registry"

definition on_level ::
    "lock_level \<Rightarrow> (upload_lock_registry \<Rightarrow> 'a \<times> upload_lock_registry) \<Rightarrow> lock_registries \<Rightarrow> 'a \<times> lock_registries" where
  "on_level l f rs = (case f (rs l) of (x, r) \<Rightarrow> (x, rs(l := r)))"

text \<open>
  The next section of an operation: the lock it waits for, the next lock of its plan, or,
  when it has run, releasing its locks in reverse order. When a try fails the operation is
  skipped and what it has taken is released. \<open>None\<close> while it is blocked.
\<close>

fun opStep :: "running \<Rightarrow> lock_registries \<Rightarrow> (running \<times> lock_registries) option" where
  "opStep \<lparr>rnCalls = [], rnPlan = []\<rparr> rs = None"
| "opStep \<lparr>rnCalls = [], rnPlan = q # qs\<rparr> rs =
     (case on_level (rqLevel q) (acquire q) rs of
        (c, rs) \<Rightarrow> Some (\<lparr>rnCalls = [c], rnPlan = qs\<rparr>, rs))"
| "opStep \<lparr>rnCalls = c # cs, rnPlan = qs\<rparr> rs =
     (let l = rqLevel (lcRequest c) in
      if waiting c then
        (case callStep c (rs l) of
           None \<Rightarrow> None
         | Some (c, r) \<Rightarrow> Some (\<lparr>rnCalls = c # cs, rnPlan = if lcPhase c = Dropped then [] else qs\<rparr>, rs(l := r)))
      else if lcPhase c = Dropped then
        Some (\<lparr>rnCalls = cs, rnPlan = []\<rparr>, rs(l := forgetCall c (rs l)))
      else case qs of
        [] \<Rightarrow> (case dropMutex c (rs l) of (c, r) \<Rightarrow> Some (\<lparr>rnCalls = c # cs, rnPlan = []\<rparr>, rs(l := r)))
      | q # qs \<Rightarrow>
          (case on_level (rqLevel q) (acquire q) rs of
             (d, rs) \<Rightarrow> Some (\<lparr>rnCalls = d # c # cs, rnPlan = qs\<rparr>, rs)))"

record lock_system =
  syRegistries :: lock_registries
  syRunning :: "running multiset"

definition empty_registry :: upload_lock_registry where
  "empty_registry = \<lparr>lrEntries = (\<lambda>_. None), lrHeap = (\<lambda>_. \<lparr>leWriter = NoWriter, leReaders = 0, leRefs = 0\<rparr>), lrNext = 0\<rparr>"

definition locks_init :: "lock_system \<Rightarrow> bool" where
  "locks_init s \<longleftrightarrow> s = \<lparr>syRegistries = (\<lambda>_. empty_registry), syRunning = {#}\<rparr>"

inductive lock_step :: "lock_system \<Rightarrow> lock_system \<Rightarrow> bool" where
  begin_operation: "lock_step s (s\<lparr>syRunning := add_mset \<lparr>rnCalls = [], rnPlan = lock_plan operation\<rparr> (syRunning s)\<rparr>)"
| advance: "op \<in># syRunning s \<Longrightarrow> opStep op (syRegistries s) = Some (op', rs) \<Longrightarrow>
    lock_step s \<lparr>syRegistries = rs, syRunning = add_mset op' (syRunning s - {#op#})\<rparr>"
| end_operation: "\<lparr>rnCalls = [], rnPlan = []\<rparr> \<in># syRunning s \<Longrightarrow>
    lock_step s (s\<lparr>syRunning := syRunning s - {#\<lparr>rnCalls = [], rnPlan = []\<rparr>#}\<rparr>)"

section \<open>What an entry says about the calls\<close>

abbreviation call_key :: "lock_call \<Rightarrow> string" where "call_key c \<equiv> rqKey (lcRequest c)"
abbreviation call_level :: "lock_call \<Rightarrow> lock_level" where "call_level c \<equiv> rqLevel (lcRequest c)"
abbreviation call_shared :: "lock_call \<Rightarrow> bool" where "call_shared c \<equiv> rqShared (lcRequest c)"

definition readers :: "lock_call multiset \<Rightarrow> lock_call multiset" where
  "readers C = {#c \<in># C. call_shared c \<and> lcPhase c = Holding#}"

definition writers :: "lock_call multiset \<Rightarrow> lock_call multiset" where
  "writers C = {#c \<in># C. \<not> call_shared c \<and> (lcPhase c = Announced \<or> lcPhase c = Holding)#}"

definition entry_ok :: "upload_lock_entry \<Rightarrow> lock_call multiset \<Rightarrow> bool" where
  "entry_ok e C \<longleftrightarrow>
     leRefs e = int (size C) \<and> leReaders e = size (readers C)
     \<and> (case leWriter e of
          NoWriter \<Rightarrow> writers C = {#}
        | WriterAnnounced \<Rightarrow> \<exists>c. writers C = {#c#} \<and> lcPhase c = Announced
        | WriterHolds \<Rightarrow> leReaders e = 0 \<and> (\<exists>c. writers C = {#c#} \<and> lcPhase c = Holding))
     \<and> (\<forall>c\<in>#C. lcPhase c = Announced \<longrightarrow> \<not> call_shared c \<and> \<not> rqTry (lcRequest c))"

lemma readers_add [simp]:
  "readers (add_mset c C) = (if call_shared c \<and> lcPhase c = Holding then add_mset c (readers C) else readers C)"
  by (simp add: readers_def)

lemma writers_add [simp]:
  "writers (add_mset c C) =
     (if \<not> call_shared c \<and> (lcPhase c = Announced \<or> lcPhase c = Holding) then add_mset c (writers C) else writers C)"
  by (simp add: writers_def)

lemma entry_empty: "entry_ok \<lparr>leWriter = NoWriter, leReaders = 0, leRefs = 0\<rparr> {#}"
  by (simp add: entry_ok_def readers_def writers_def)

lemma entry_count:
  "entry_ok e C \<Longrightarrow> lcPhase c = Counted \<Longrightarrow> entry_ok (e\<lparr>leRefs := leRefs e + 1\<rparr>) (add_mset c C)"
  by (auto simp: entry_ok_def split: writer_state.splits)

lemma entry_forget:
  "entry_ok e (add_mset c C) \<Longrightarrow> lcPhase c = Dropped \<Longrightarrow> entry_ok (e\<lparr>leRefs := leRefs e - 1\<rparr>) C"
  by (auto simp: entry_ok_def split: writer_state.splits)

lemma entry_try:
  assumes "entry_ok e (add_mset c C)" and "lcPhase c = Counted"
    and "(if call_shared c then rw_RLock else rw_TryLock) e = Some e'"
  shows "entry_ok e' (add_mset (c\<lparr>lcPhase := Holding\<rparr>) C)"
  using assms by (auto simp: entry_ok_def rw_RLock_def rw_TryLock_def split: if_splits writer_state.splits)

lemma entry_try_failed:
  "entry_ok e (add_mset c C) \<Longrightarrow> lcPhase c = Counted \<Longrightarrow> entry_ok e (add_mset (c\<lparr>lcPhase := Dropped\<rparr>) C)"
  by (auto simp: entry_ok_def split: writer_state.splits)

lemma entry_announce:
  "entry_ok e (add_mset c C) \<Longrightarrow> lcPhase c = Counted \<Longrightarrow> \<not> call_shared c \<Longrightarrow> \<not> rqTry (lcRequest c) \<Longrightarrow>
   rw_announce e = Some e' \<Longrightarrow> entry_ok e' (add_mset (c\<lparr>lcPhase := Announced\<rparr>) C)"
  by (auto simp: entry_ok_def rw_announce_def split: if_splits writer_state.splits)

lemma entry_lock:
  "entry_ok e (add_mset c C) \<Longrightarrow> lcPhase c = Announced \<Longrightarrow> rw_Lock e = Some e' \<Longrightarrow>
   entry_ok e' (add_mset (c\<lparr>lcPhase := Holding\<rparr>) C)"
  by (auto simp: entry_ok_def rw_Lock_def split: if_splits writer_state.splits)

lemma entry_drop:
  "entry_ok e (add_mset c C) \<Longrightarrow> lcPhase c = Holding \<Longrightarrow>
   entry_ok (rw_unlock (call_shared c) e) (add_mset (c\<lparr>lcPhase := Dropped\<rparr>) C)"
  by (auto simp: entry_ok_def rw_unlock_def split: if_splits writer_state.splits)

lemma entry_step:
  assumes "entry_ok (lrHeap r (lcEntry c)) (add_mset c C)" and "waiting c" and "callStep c r = Some (c', r')"
  shows "\<exists>e'. r' = update_entry (lcEntry c) (\<lambda>_. e') r \<and> entry_ok e' (add_mset c' C)
    \<and> lcRequest c' = lcRequest c \<and> lcEntry c' = lcEntry c"
proof (cases "rqTry (lcRequest c)")
  case True
  let ?e = "lrHeap r (lcEntry c)"
  have counted: "lcPhase c = Counted" using assms(1,2) True by (auto simp: waiting_def entry_ok_def)
  have same: "r = update_entry (lcEntry c) (\<lambda>_. ?e) r" by (simp add: update_entry_def)
  show ?thesis
  proof (cases "(if call_shared c then rw_RLock else rw_TryLock) ?e")
    case None
    then have "c' = c\<lparr>lcPhase := Dropped\<rparr>" "r' = r"
      using assms(3) True by (simp_all add: callStep_def tryMutex_def)
    with entry_try_failed [OF assms(1) counted] same show ?thesis by auto
  next
    case (Some e)
    then have "c' = c\<lparr>lcPhase := Holding\<rparr>" "r' = update_entry (lcEntry c) (\<lambda>_. e) r"
      using assms(3) True by (simp_all add: callStep_def tryMutex_def)
    with entry_try [OF assms(1) counted Some] show ?thesis by auto
  qed
next
  case False
  show ?thesis
  proof (cases "lcPhase c = Announced")
    case True
    with False assms(3) entry_lock [OF assms(1)] show ?thesis by (auto simp: callStep_def waitMutex_def Let_def)
  next
    case False
    then have "lcPhase c = Counted" using assms(2) by (simp add: waiting_def)
    with \<open>\<not> rqTry (lcRequest c)\<close> assms(3) entry_try [OF assms(1)] entry_announce [OF assms(1)]
    show ?thesis by (auto simp: callStep_def waitMutex_def Let_def split: if_splits)
  qed
qed

section \<open>What a registry says about the calls\<close>

definition calls_at :: "nat \<Rightarrow> lock_call multiset \<Rightarrow> lock_call multiset" where
  "calls_at p M = {#c \<in># M. lcEntry c = p#}"

lemma calls_at_add [simp]:
  "calls_at p (add_mset c M) = (if lcEntry c = p then add_mset c (calls_at p M) else calls_at p M)"
  by (simp add: calls_at_def)

lemma calls_at_empty: "calls_at p M = {#} \<longleftrightarrow> (\<forall>c\<in>#M. lcEntry c \<noteq> p)"
  unfolding calls_at_def by (induction M) auto

definition lock_inv :: "upload_lock_registry \<Rightarrow> lock_call multiset \<Rightarrow> bool" where
  "lock_inv r M \<longleftrightarrow>
     (\<forall>c\<in>#M. lrEntries r (call_key c) = Some (lcEntry c) \<and> entry_ok (lrHeap r (lcEntry c)) (calls_at (lcEntry c) M))
     \<and> (\<forall>k p. lrEntries r k = Some p \<longrightarrow> p < lrNext r \<and> (\<exists>c\<in>#M. call_key c = k))
     \<and> (\<forall>k l p. lrEntries r k = Some p \<longrightarrow> lrEntries r l = Some p \<longrightarrow> k = l)"

lemma lock_invD:
  assumes "lock_inv r M"
  shows "c \<in># M \<Longrightarrow> lrEntries r (call_key c) = Some (lcEntry c)"
    and "c \<in># M \<Longrightarrow> entry_ok (lrHeap r (lcEntry c)) (calls_at (lcEntry c) M)"
    and "lrEntries r k = Some p \<Longrightarrow> p < lrNext r"
    and "lrEntries r k = Some p \<Longrightarrow> \<exists>c\<in>#M. call_key c = k \<and> lcEntry c = p"
  using assms unfolding lock_inv_def by (blast, blast, blast, metis option.inject)

lemma lock_inv_empty: "lock_inv empty_registry {#}"
  by (simp add: lock_inv_def empty_registry_def)

lemma lock_inv_replace:
  assumes "lock_inv r (add_mset c M)" and "lcRequest c' = lcRequest c" "lcEntry c' = lcEntry c"
    and "entry_ok e (add_mset c' (calls_at (lcEntry c) M))"
  shows "lock_inv (update_entry (lcEntry c) (\<lambda>_. e) r) (add_mset c' M)"
  using assms by (auto simp: lock_inv_def update_entry_def)

lemma lock_inv_acquire:
  assumes inv: "lock_inv r M" and a: "acquire q r = (c, r')"
  shows "lock_inv r' (add_mset c M)"
proof (cases "lrEntries r (trim_space (rqKey q))")
  case None
  then have c: "c = \<lparr>lcRequest = q\<lparr>rqKey := trim_space (rqKey q)\<rparr>, lcEntry = lrNext r, lcPhase = Counted\<rparr>"
    and r': "r' = r\<lparr>lrEntries := (lrEntries r)(trim_space (rqKey q) \<mapsto> lrNext r),
        lrHeap := (lrHeap r)(lrNext r := \<lparr>leWriter = NoWriter, leReaders = 0, leRefs = 1\<rparr>), lrNext := lrNext r + 1\<rparr>"
    using a by (simp_all add: acquire_def countRef_def Let_def split: prod.splits)
  have fresh: "lcEntry d \<noteq> lrNext r" "call_key d \<noteq> trim_space (rqKey q)" if "d \<in># M" for d
    using lock_invD(1) [OF inv that] lock_invD(3) [OF inv] None by fastforce+
  then have none: "calls_at (lrNext r) M = {#}" by (auto simp: calls_at_empty)
  from entry_count [OF entry_empty, of c] have e: "entry_ok \<lparr>leWriter = NoWriter, leReaders = 0, leRefs = 1\<rparr> {#c#}"
    by (simp add: c)
  have bound: "p < lrNext r" if "lrEntries r k = Some p" for k p using inv that by (auto simp: lock_inv_def)
  have "lrEntries r' (call_key x) = Some (lcEntry x) \<and> entry_ok (lrHeap r' (lcEntry x)) (calls_at (lcEntry x) (add_mset c M))"
    if "x \<in># add_mset c M" for x
  proof (cases "x \<in># M")
    case True
    from fresh [OF this] True inv show ?thesis by (simp add: lock_inv_def r' c)
  next
    case False
    with that none e show ?thesis by (simp add: r' c)
  qed
  moreover have "p < lrNext r' \<and> (\<exists>x\<in>#add_mset c M. call_key x = k)" if "lrEntries r' k = Some p" for k p
    using inv that by (auto simp: lock_inv_def r' c less_Suc_eq split: if_splits)
  moreover have "k = l" if "lrEntries r' k = Some p" "lrEntries r' l = Some p" for k l p
    using inv that bound by (auto simp: lock_inv_def r' split: if_splits)
  ultimately show ?thesis unfolding lock_inv_def by blast
next
  case (Some p)
  then have c: "c = \<lparr>lcRequest = q\<lparr>rqKey := trim_space (rqKey q)\<rparr>, lcEntry = p, lcPhase = Counted\<rparr>"
    and r': "r' = update_entry p (\<lambda>e. e\<lparr>leRefs := leRefs e + 1\<rparr>) r"
    using a by (simp_all add: acquire_def countRef_def Let_def split: prod.splits)
  have "entry_ok (lrHeap r p) (calls_at p M)" using lock_invD(4) [OF inv Some] lock_invD(2) [OF inv] by blast
  from entry_count [OF this, of c] have "entry_ok ((lrHeap r p)\<lparr>leRefs := leRefs (lrHeap r p) + 1\<rparr>) (add_mset c (calls_at p M))"
    by (simp add: c)
  with inv Some show ?thesis by (auto simp: lock_inv_def r' c update_entry_def)
qed

lemma lock_inv_forget:
  assumes inv: "lock_inv r (add_mset c M)" and d: "lcPhase c = Dropped"
  shows "lock_inv (forgetCall c r) M"
proof -
  let ?p = "lcEntry c" let ?r = "update_entry ?p (\<lambda>e. e\<lparr>leRefs := leRefs e - 1\<rparr>) r"
  have k: "lrEntries r (call_key c) = Some ?p" and "entry_ok (lrHeap r ?p) (add_mset c (calls_at ?p M))"
    using inv by (auto simp: lock_inv_def)
  from entry_forget [OF this(2) d] have e: "entry_ok (lrHeap ?r ?p) (calls_at ?p M)" by (simp add: update_entry_def)
  have only: "call_key x = call_key c" if "x \<in># M" "lcEntry x = ?p" for x
    using inv k that by (auto simp: lock_inv_def)
  show ?thesis
  proof (cases "calls_at ?p M = {#}")
    case True
    then have "forgetCall c r = ?r\<lparr>lrEntries := (lrEntries ?r)(call_key c := None)\<rparr>"
      using e by (simp add: forgetCall_def releaseRef_def Let_def entry_ok_def)
    moreover have "lcEntry x \<noteq> ?p" "?p \<noteq> lcEntry x" if "x \<in># M" for x
      using True that by (auto simp: calls_at_empty)
    moreover have "call_key x \<noteq> call_key c" if "x \<in># M" for x
      using lock_invD(1) [OF inv, of x] that k calculation(2) [OF that] by auto
    ultimately show ?thesis using inv by (auto simp: lock_inv_def update_entry_def)
  next
    case False
    then have "forgetCall c r = ?r" using e by (simp add: forgetCall_def releaseRef_def Let_def entry_ok_def)
    moreover obtain x where "x \<in># M" "lcEntry x = ?p"
      using False by (auto simp: calls_at_empty)
    moreover from this only have "\<exists>x\<in>#M. call_key x = call_key c" by blast
    ultimately show ?thesis
      using inv e by (auto simp: lock_inv_def update_entry_def)
  qed
qed

section \<open>Steps of an operation\<close>

lemma phase_cases: "\<not> waiting c \<Longrightarrow> lcPhase c \<noteq> Dropped \<Longrightarrow> lcPhase c = Holding"
  by (cases "lcPhase c") (auto simp: waiting_def)

lemma opStep_cases:
  assumes "opStep op rs = Some (op', rs')"
  obtains (request) q qs cs c r where "op = \<lparr>rnCalls = cs, rnPlan = q # qs\<rparr>" "cs = [] \<or> lcPhase (hd cs) = Holding"
      "acquire q (rs (rqLevel q)) = (c, r)" "op' = \<lparr>rnCalls = c # cs, rnPlan = qs\<rparr>" "rs' = rs(rqLevel q := r)"
  | (mutex) c cs qs c' r where "op = \<lparr>rnCalls = c # cs, rnPlan = qs\<rparr>" "waiting c"
      "callStep c (rs (call_level c)) = Some (c', r)"
      "op' = \<lparr>rnCalls = c' # cs, rnPlan = if lcPhase c' = Dropped then [] else qs\<rparr>" "rs' = rs(call_level c := r)"
  | (forget) c cs qs where "op = \<lparr>rnCalls = c # cs, rnPlan = qs\<rparr>" "lcPhase c = Dropped"
      "op' = \<lparr>rnCalls = cs, rnPlan = []\<rparr>" "rs' = rs(call_level c := forgetCall c (rs (call_level c)))"
  | (release) c cs where "op = \<lparr>rnCalls = c # cs, rnPlan = []\<rparr>" "lcPhase c = Holding"
      "op' = \<lparr>rnCalls = c\<lparr>lcPhase := Dropped\<rparr> # cs, rnPlan = []\<rparr>"
      "rs' = rs(call_level c := update_entry (lcEntry c) (rw_unlock (call_shared c)) (rs (call_level c)))"
  using assms
proof (induction op rs rule: opStep.induct)
  case (2 q qs rs)
  obtain c r where a: "acquire q (rs (rqLevel q)) = (c, r)" by fastforce
  with "2.prems"(5) have "op' = \<lparr>rnCalls = [c], rnPlan = qs\<rparr>" "rs' = rs(rqLevel q := r)"
    by (simp_all add: on_level_def)
  with a show ?case by (intro "2.prems"(1)) simp_all
next
  case (3 c cs qs rs)
  show ?case
  proof (cases "waiting c")
    case True
    then obtain c' r where a: "callStep c (rs (call_level c)) = Some (c', r)"
      using "3.prems"(5) by (auto simp: Let_def split: option.splits)
    with True "3.prems"(5) have "op' = \<lparr>rnCalls = c' # cs, rnPlan = if lcPhase c' = Dropped then [] else qs\<rparr>"
        "rs' = rs(call_level c := r)"
      by (simp_all add: Let_def)
    with True a show ?thesis by (intro "3.prems"(2)) simp_all
  next
    case w: False
    show ?thesis
    proof (cases "lcPhase c = Dropped")
      case True
      with w "3.prems"(5) have "op' = \<lparr>rnCalls = cs, rnPlan = []\<rparr>"
          "rs' = rs(call_level c := forgetCall c (rs (call_level c)))"
        by (simp_all add: Let_def)
      with True show ?thesis by (intro "3.prems"(3)) simp_all
    next
      case False
      with w have holding: "lcPhase c = Holding" by (intro phase_cases)
      show ?thesis
      proof (cases qs)
        case Nil
        with w False "3.prems"(5) have "op' = \<lparr>rnCalls = c\<lparr>lcPhase := Dropped\<rparr> # cs, rnPlan = []\<rparr>"
            "rs' = rs(call_level c := update_entry (lcEntry c) (rw_unlock (call_shared c)) (rs (call_level c)))"
          by (simp_all add: Let_def dropMutex_def)
        with Nil holding show ?thesis by (intro "3.prems"(4)) simp_all
      next
        case (Cons q qs')
        obtain d r where a: "acquire q (rs (rqLevel q)) = (d, r)" by fastforce
        with Cons w False "3.prems"(5) have "op' = \<lparr>rnCalls = d # c # cs, rnPlan = qs'\<rparr>" "rs' = rs(rqLevel q := r)"
          by (simp_all add: Let_def on_level_def)
        with Cons a holding show ?thesis by (intro "3.prems"(1)) simp_all
      qed
    qed
  qed
qed simp

definition on_lock :: "lock_level \<Rightarrow> lock_call multiset \<Rightarrow> lock_call multiset" where
  "on_lock l M = {#c \<in># M. call_level c = l#}"

lemma on_lock_add [simp]:
  "on_lock l (add_mset c M) = (if call_level c = l then add_mset c (on_lock l M) else on_lock l M)"
  by (simp add: on_lock_def)

definition locks_ok :: "lock_registries \<Rightarrow> lock_call multiset \<Rightarrow> bool" where
  "locks_ok rs M \<longleftrightarrow> (\<forall>l. lock_inv (rs l) (on_lock l M))"

lemma locks_okD: "locks_ok rs M \<Longrightarrow> lock_inv (rs l) (on_lock l M)"
  by (simp add: locks_ok_def)

lemma locks_ok_change:
  assumes "locks_ok rs (add_mset c M)" and "call_level c' = call_level c"
    and "lock_inv (rs (call_level c)) (add_mset c (on_lock (call_level c) M)) \<Longrightarrow>
      lock_inv r (add_mset c' (on_lock (call_level c) M))"
  shows "locks_ok (rs(call_level c := r)) (add_mset c' M)"
  unfolding locks_ok_def
proof
  fix l
  show "lock_inv ((rs(call_level c := r)) l) (on_lock l (add_mset c' M))"
    using assms(2,3) locks_okD [OF assms(1), of l] by (cases "call_level c = l") auto
qed

lemma acquire_request: "acquire q r = (c, r') \<Longrightarrow> call_level c = rqLevel q"
  by (auto simp: acquire_def Let_def split: prod.splits)

lemma opStep_locks:
  assumes "opStep op rs = Some (op', rs')" and "locks_ok rs (mset (rnCalls op) + M)"
  shows "locks_ok rs' (mset (rnCalls op') + M)"
  using assms(1)
proof (cases rule: opStep_cases)
  case (request q qs cs c r)
  have "lock_inv r (add_mset c (on_lock (rqLevel q) (mset cs + M)))"
    using locks_okD [OF assms(2)] request(1) by (intro lock_inv_acquire [OF _ request(3)]) simp
  with request(1,4,5) acquire_request [OF request(3)] locks_okD [OF assms(2)] show ?thesis
    by (auto simp: locks_ok_def)
next
  case (mutex c cs qs c' r)
  let ?r = "rs (call_level c)" and ?M = "on_lock (call_level c) (mset cs + M)"
  have inv: "lock_inv ?r (add_mset c ?M)" using locks_okD [OF assms(2), of "call_level c"] mutex(1) by simp
  then have "entry_ok (lrHeap ?r (lcEntry c)) (add_mset c (calls_at (lcEntry c) ?M))"
    using lock_invD(2) [OF inv, of c] by simp
  from entry_step [OF this mutex(2,3)] obtain e' where e: "r = update_entry (lcEntry c) (\<lambda>_. e') ?r"
    "entry_ok e' (add_mset c' (calls_at (lcEntry c) ?M))" "lcRequest c' = lcRequest c" "lcEntry c' = lcEntry c" by blast
  have "lock_inv r (add_mset c' ?M)" unfolding e(1) by (rule lock_inv_replace [OF inv e(3,4,2)])
  then have "locks_ok (rs(call_level c := r)) (add_mset c' (mset cs + M))"
    using assms(2) mutex(1) e(3) by (intro locks_ok_change) simp_all
  with mutex(4,5) show ?thesis by simp
next
  case (forget c cs qs)
  have "lock_inv (forgetCall c (rs (call_level c))) (on_lock (call_level c) (mset cs + M))"
    using locks_okD [OF assms(2), of "call_level c"] forget(1) by (intro lock_inv_forget [OF _ forget(2)]) simp
  moreover have "lock_inv (rs l) (on_lock l (mset cs + M))" if "l \<noteq> call_level c" for l
    using locks_okD [OF assms(2), of l] forget(1) that by (simp split: if_splits)
  ultimately show ?thesis using forget(3,4) by (simp add: locks_ok_def)
next
  case (release c cs)
  let ?r = "rs (call_level c)" and ?M = "on_lock (call_level c) (mset cs + M)" and ?d = "c\<lparr>lcPhase := Dropped\<rparr>"
  have inv: "lock_inv ?r (add_mset c ?M)" using locks_okD [OF assms(2), of "call_level c"] release(1) by simp
  then have "entry_ok (lrHeap ?r (lcEntry c)) (add_mset c (calls_at (lcEntry c) ?M))"
    using lock_invD(2) [OF inv, of c] by simp
  from entry_drop [OF this release(2)]
  have "lock_inv (update_entry (lcEntry c) (\<lambda>_. rw_unlock (call_shared c) (lrHeap ?r (lcEntry c))) ?r) (add_mset ?d ?M)"
    by (intro lock_inv_replace [OF inv]) simp_all
  then have "lock_inv (update_entry (lcEntry c) (rw_unlock (call_shared c)) ?r) (add_mset ?d ?M)"
    by (simp add: update_entry_def)
  then have "locks_ok (rs(call_level c := update_entry (lcEntry c) (rw_unlock (call_shared c)) ?r)) (add_mset ?d (mset cs + M))"
    using assms(2) release(1) by (intro locks_ok_change) simp_all
  with release(3,4) show ?thesis by simp
qed

section \<open>The order of the locks\<close>

definition levels :: "running \<Rightarrow> lock_level list" where
  "levels op = map call_level (rev (rnCalls op)) @ map rqLevel (rnPlan op)"

definition op_ok :: "running \<Rightarrow> bool" where
  "op_ok op \<longleftrightarrow> levels op \<in> {[], [DeviceGate], [SessionLock], [DeviceGate, SessionLock]}
     \<and> (\<forall>c\<in>set (tl (rnCalls op)). lcPhase c = Holding)"

lemma op_ok_plan: "op_ok \<lparr>rnCalls = [], rnPlan = lock_plan operation\<rparr>"
  by (cases operation)
    (simp_all add: op_ok_def levels_def request_def lockUploadSession_def tryLockUploadSession_def)

lemma callStep_request:
  "callStep c r = Some (c', r') \<Longrightarrow> lcRequest c' = lcRequest c"
  by (auto simp: callStep_def tryMutex_def waitMutex_def Let_def split: option.splits if_splits)

lemma levels_prefix:
  "xs @ ys \<in> {[], [DeviceGate], [SessionLock], [DeviceGate, SessionLock]} \<Longrightarrow>
   xs \<in> {[], [DeviceGate], [SessionLock], [DeviceGate, SessionLock]}"
  by (auto simp: append_eq_Cons_conv)

lemma opStep_ok:
  assumes "opStep op rs = Some (op', rs')" and "op_ok op"
  shows "op_ok op'"
  using assms(1)
proof (cases rule: opStep_cases)
  case (request q qs cs c r)
  with assms(2) acquire_request [OF request(3)] show ?thesis by (cases cs) (auto simp: op_ok_def levels_def)
next
  case (mutex c cs qs c' r)
  have "call_level c' = call_level c" using callStep_request [OF mutex(3)] by simp
  with mutex assms(2) levels_prefix [of "map call_level (rev (c # cs))" "map rqLevel qs"] show ?thesis
    by (auto simp: op_ok_def levels_def)
next
  case (forget c cs qs)
  with assms(2) levels_prefix [of "map call_level (rev cs)" "call_level c # map rqLevel qs"] show ?thesis
    by (cases cs) (auto simp: op_ok_def levels_def)
next
  case (release c cs)
  with assms(2) show ?thesis by (auto simp: op_ok_def levels_def)
qed

section \<open>The invariant\<close>

definition all_calls :: "running multiset \<Rightarrow> lock_call multiset" where
  "all_calls R = (\<Sum>op\<in>#R. mset (rnCalls op))"

definition locks_inv :: "lock_system \<Rightarrow> bool" where
  "locks_inv s \<longleftrightarrow> locks_ok (syRegistries s) (all_calls (syRunning s)) \<and> (\<forall>op\<in>#syRunning s. op_ok op)"

lemma all_calls_add [simp]: "all_calls (add_mset op R) = mset (rnCalls op) + all_calls R"
  by (simp add: all_calls_def)

interpretation upload_locks: machine locks_init lock_step locks_inv
proof
  show "locks_inv s" if "locks_init s" for s
    using that lock_inv_empty by (simp add: locks_init_def locks_inv_def locks_ok_def all_calls_def on_lock_def)
  show "locks_inv t" if inv: "locks_inv s" and "lock_step s t" for s t
    using that(2)
  proof (cases rule: lock_step.cases)
    case (begin_operation operation)
    with inv op_ok_plan show ?thesis by (simp add: locks_inv_def)
  next
    case (advance op op' rs)
    obtain R where R: "syRunning s = add_mset op R" using advance(2) by (metis mset_add)
    with inv opStep_locks [OF advance(3), of "all_calls R"] opStep_ok [OF advance(3)] advance(1) show ?thesis
      by (simp add: locks_inv_def)
  next
    case end_operation
    let ?op = "\<lparr>rnCalls = [], rnPlan = []\<rparr> :: running"
    obtain R where R: "syRunning s = add_mset ?op R" using end_operation(2) by (metis mset_add)
    with inv end_operation(1) show ?thesis by (simp add: locks_inv_def)
  qed
qed

abbreviation locks_reachable :: "lock_system \<Rightarrow> bool" where
  "locks_reachable \<equiv> reach locks_init lock_step"

section \<open>Exclusion\<close>

lemma in_all_calls: "c \<in># all_calls R \<longleftrightarrow> (\<exists>op\<in>#R. c \<in> set (rnCalls op))"
  by (induction R) (auto simp: all_calls_def)

lemma two_calls:
  assumes "op \<in># R" and "op' \<in># R - {#op#}" and "c \<in> set (rnCalls op)" and "d \<in> set (rnCalls op')"
  obtains N where "all_calls R = add_mset c (add_mset d N)"
proof -
  obtain S where R: "R = add_mset op (add_mset op' S)"
    using assms(1,2) by (metis insert_DiffM)
  obtain A where A: "mset (rnCalls op) = add_mset c A" using assms(3) by (metis in_multiset_in_set mset_add)
  obtain B where B: "mset (rnCalls op') = add_mset d B" using assms(4) by (metis in_multiset_in_set mset_add)
  have "all_calls R = add_mset c (add_mset d (A + B + all_calls S))" by (simp add: R A B)
  then show thesis by (rule that)
qed

lemma holders_shared:
  assumes "lock_inv r (add_mset c (add_mset d N))" and "call_key c = call_key d"
    and "lcPhase c = Holding" and "lcPhase d = Holding"
  shows "call_shared c \<and> call_shared d"
proof -
  have "lcEntry c = lcEntry d"
    using assms(2) lock_invD(1) [OF assms(1), of c] lock_invD(1) [OF assms(1), of d] by simp
  with lock_invD(2) [OF assms(1), of c] assms(3,4) show ?thesis
    by (auto simp: entry_ok_def split: writer_state.splits if_splits)
qed

text \<open>
  C18. Upload operations that run at the same time never share a lock that one of them needs for itself. In every
  state that the lock registries can reach, two different operations that both hold a lock of the same level
  (device gates or session locks) with the same key hold it shared: so at most one operation works on a session,
  and a reset or a revocation of a device runs alone on it. It does not matter how often the entry of the key
  was deleted and created again in between, how many operations wait, or which tries failed.
\<close>

theorem upload_locks_exclude:
  assumes "locks_reachable s" and "op \<in># syRunning s" and "op' \<in># syRunning s - {#op#}"
    and "c \<in> set (rnCalls op)" and "d \<in> set (rnCalls op')" and "call_level c = call_level d"
    and "call_key c = call_key d" and "lcPhase c = Holding" and "lcPhase d = Holding"
  shows "call_shared c \<and> call_shared d"
proof -
  obtain N where N: "all_calls (syRunning s) = add_mset c (add_mset d N)"
    by (rule two_calls [OF assms(2-5)])
  have "locks_ok (syRegistries s) (all_calls (syRunning s))"
    using upload_locks.inv_reach [OF assms(1)] by (simp add: locks_inv_def)
  from locks_okD [OF this, of "call_level c"] assms(6)
  have "lock_inv (syRegistries s (call_level c)) (add_mset c (add_mset d (on_lock (call_level c) N)))" by (simp add: N)
  then show ?thesis by (rule holders_shared) (fact assms)+
qed

definition calls_of :: "lock_level \<Rightarrow> string \<Rightarrow> lock_system \<Rightarrow> lock_call multiset" where
  "calls_of level key s = {#c \<in># on_lock level (all_calls (syRunning s)). call_key c = key#}"

text \<open>
  No lock is leaked and none is lost: in every reachable state a registry has an entry for a key exactly when
  a running operation holds a lock with that key or waits for it, and its count is the number of them.
\<close>

theorem lock_entries_are_referenced:
  assumes "locks_reachable s"
  shows "case lrEntries (syRegistries s level) key of
      None \<Rightarrow> calls_of level key s = {#}
    | Some p \<Rightarrow> calls_of level key s \<noteq> {#}
        \<and> leRefs (lrHeap (syRegistries s level) p) = int (size (calls_of level key s))"
proof -
  let ?r = "syRegistries s level" and ?M = "on_lock level (all_calls (syRunning s))"
  have "locks_ok (syRegistries s) (all_calls (syRunning s))"
    using upload_locks.inv_reach [OF assms] by (simp add: locks_inv_def)
  then have inv: "lock_inv ?r ?M" by (rule locks_okD)
  show ?thesis
  proof (cases "lrEntries ?r key")
    case None
    then have "call_key c \<noteq> key" if "c \<in># ?M" for c using lock_invD(1) [OF inv that] by auto
    with None show ?thesis by (auto simp: calls_of_def)
  next
    case (Some p)
    obtain c where c: "c \<in># ?M" "call_key c = key" "lcEntry c = p" using lock_invD(4) [OF inv Some] by blast
    have "call_key d = key \<longleftrightarrow> lcEntry d = p" if "d \<in># ?M" for d
      using lock_invD(1) [OF inv that] Some inv unfolding lock_inv_def by auto
    then have "calls_of level key s = calls_at p ?M"
      unfolding calls_at_def calls_of_def by (rule filter_mset_cong [OF refl])
    moreover have "leRefs (lrHeap ?r p) = int (size (calls_at p ?M))"
      using lock_invD(2) [OF inv c(1)] c(3) by (simp add: entry_ok_def)
    moreover have "calls_at p ?M \<noteq> {#}" using c by (auto simp: calls_at_empty)
    ultimately show ?thesis using Some by simp
  qed
qed

section \<open>Every operation finishes\<close>

inductive drain_step :: "lock_system \<Rightarrow> lock_system \<Rightarrow> bool" where
  "op \<in># syRunning s \<Longrightarrow> opStep op (syRegistries s) = Some (op', rs) \<Longrightarrow>
    drain_step s \<lparr>syRegistries = rs, syRunning = add_mset op' (syRunning s - {#op#})\<rparr>"
| "\<lparr>rnCalls = [], rnPlan = []\<rparr> \<in># syRunning s \<Longrightarrow>
    drain_step s (s\<lparr>syRunning := syRunning s - {#\<lparr>rnCalls = [], rnPlan = []\<rparr>#}\<rparr>)"

lemma drain_lock_step: "drain_step s t \<Longrightarrow> lock_step s t"
  by (auto elim!: drain_step.cases intro: lock_step.intros)

fun phase_work :: "lock_phase \<Rightarrow> nat" where
  "phase_work Counted = 4" | "phase_work Announced = 3" | "phase_work Holding = 2" | "phase_work Dropped = 1"

definition op_work :: "running \<Rightarrow> nat" where
  "op_work op = 1 + 5 * length (rnPlan op) + (\<Sum>c\<leftarrow>rnCalls op. phase_work (lcPhase c))"

definition work :: "lock_system \<Rightarrow> nat" where
  "work s = (\<Sum>op\<in>#syRunning s. op_work op)"

lemma phase_work_step:
  "callStep c r = Some (c', r') \<Longrightarrow> waiting c \<Longrightarrow> phase_work (lcPhase c') < phase_work (lcPhase c)"
  by (auto simp: callStep_def tryMutex_def waitMutex_def waiting_def Let_def split: option.splits if_splits)

lemma op_work_step:
  assumes "opStep op rs = Some (op', rs')"
  shows "op_work op' < op_work op"
  using assms
proof (cases rule: opStep_cases)
  case (request q qs cs c r)
  have "lcPhase c = Counted" using request(3) by (auto simp: acquire_def Let_def split: prod.splits)
  with request show ?thesis by (simp add: op_work_def)
next
  case (mutex c cs qs c' r)
  with phase_work_step [OF mutex(3,2)] show ?thesis by (auto simp: op_work_def)
qed (auto simp: op_work_def)

lemma drain_work: "drain_step s t \<Longrightarrow> work t < work s"
proof (induction rule: drain_step.induct)
  case (1 op s op' rs)
  then obtain R where "syRunning s = add_mset op R" by (metis mset_add)
  with op_work_step [OF 1(2)] show ?case by (simp add: work_def)
next
  case (2 s)
  then obtain R where "syRunning s = add_mset \<lparr>rnCalls = [], rnPlan = []\<rparr> R" by (metis mset_add)
  then show ?case by (simp add: work_def op_work_def)
qed

lemma entry_blocked:
  assumes "entry_ok (lrHeap r (lcEntry c)) C" and "waiting c" and "callStep c r = None"
    and "\<And>d. d \<in># C \<Longrightarrow> lcEntry d = lcEntry c"
  shows "\<exists>d\<in>#C. lcPhase d = Holding \<or> (waiting d \<and> callStep d r \<noteq> None)"
proof -
  let ?e = "lrHeap r (lcEntry c)"
  have blocking: "\<not> rqTry (lcRequest c)" using assms(3) by (auto simp: callStep_def)
  consider (reading) "leReaders ?e \<noteq> 0" | (writing) "leReaders ?e = 0" "leWriter ?e \<noteq> NoWriter"
    using assms(2,3) blocking
    by (auto simp: callStep_def waitMutex_def Let_def rw_Lock_def rw_RLock_def rw_announce_def waiting_def split: if_splits)
  then show ?thesis
  proof cases
    case reading
    then have "readers C \<noteq> {#}" using assms(1) by (auto simp: entry_ok_def)
    then obtain d where "d \<in># readers C" by auto
    then show ?thesis by (auto simp: readers_def)
  next
    case writing
    then obtain d where d: "writers C = {#d#}" "lcPhase d = Holding \<or> lcPhase d = Announced"
      using assms(1) by (auto simp: entry_ok_def split: writer_state.splits)
    have "d \<in># writers C" using d(1) by simp
    then have "d \<in># C" by (simp add: writers_def)
    moreover have "callStep d r \<noteq> None" if "lcPhase d = Announced"
    proof -
      have "\<not> rqTry (lcRequest d)" using assms(1) \<open>d \<in># C\<close> that by (auto simp: entry_ok_def)
      with that writing(1) assms(4) [OF \<open>d \<in># C\<close>] show ?thesis
        by (simp add: callStep_def waitMutex_def Let_def rw_Lock_def)
    qed
    ultimately show ?thesis using d(2) by (auto simp: waiting_def)
  qed
qed

lemma opStep_None:
  assumes "opStep op rs = None"
  shows "op = \<lparr>rnCalls = [], rnPlan = []\<rparr> \<or>
    (\<exists>c cs qs. op = \<lparr>rnCalls = c # cs, rnPlan = qs\<rparr> \<and> waiting c \<and> callStep c (rs (call_level c)) = None)"
  using assms
proof (induction op rs rule: opStep.induct)
  case (3 c cs qs rs)
  then show ?case
    by (cases "waiting c"; cases "lcPhase c = Dropped"; cases qs)
      (auto simp: Let_def dropMutex_def on_level_def split: option.splits prod.splits)
qed (auto simp: on_level_def split: prod.splits)

definition stuck :: "lock_system \<Rightarrow> bool" where
  "stuck s \<longleftrightarrow> (\<forall>op\<in>#syRunning s. opStep op (syRegistries s) = None \<and> op \<noteq> \<lparr>rnCalls = [], rnPlan = []\<rparr>)"

text \<open>Of a stuck system, an operation that waits for a lock of a level makes one that holds such a lock.\<close>

lemma stuck_waits:
  assumes "stuck s" and inv: "locks_inv s" and op: "\<lparr>rnCalls = c # cs, rnPlan = qs\<rparr> \<in># syRunning s"
    and "waiting c" and "callStep c (syRegistries s (call_level c)) = None"
  obtains op' d where "op' \<in># syRunning s" and "d \<in> set (rnCalls op')" and "lcPhase d = Holding" and "call_level d = call_level c"
proof -
  let ?l = "call_level c" let ?r = "syRegistries s ?l" let ?M = "on_lock ?l (all_calls (syRunning s))"
  have inv_l: "lock_inv ?r ?M" using inv by (auto simp: locks_inv_def intro: locks_okD)
  have "c \<in># ?M" using op by (force simp: on_lock_def in_all_calls)
  from lock_invD(2) [OF inv_l this]
  have "\<exists>d\<in>#calls_at (lcEntry c) ?M. lcPhase d = Holding \<or> (waiting d \<and> callStep d ?r \<noteq> None)"
    by (rule entry_blocked) (use assms(4,5) in \<open>auto simp: calls_at_def\<close>)
  then obtain d where d: "d \<in># all_calls (syRunning s)" "call_level d = ?l"
    "lcPhase d = Holding \<or> (waiting d \<and> callStep d ?r \<noteq> None)"
    by (auto simp: calls_at_def on_lock_def)
  obtain op' where op': "op' \<in># syRunning s" "d \<in> set (rnCalls op')" using d(1) by (auto simp: in_all_calls)
  have "lcPhase d = Holding"
  proof (rule ccontr)
    assume n: "lcPhase d \<noteq> Holding"
    have "op_ok op'" using inv op'(1) by (simp add: locks_inv_def)
    have "opStep op' (syRegistries s) = None" "op' \<noteq> \<lparr>rnCalls = [], rnPlan = []\<rparr>"
      using assms(1) op'(1) by (simp_all add: stuck_def)
    then obtain x xs where x: "rnCalls op' = x # xs" "callStep x (syRegistries s (call_level x)) = None"
      using opStep_None [of op' "syRegistries s"] by auto
    have "d \<notin> set xs" using \<open>op_ok op'\<close> x(1) n by (auto simp: op_ok_def)
    then have "d = x" using op'(2) x(1) by simp
    with n x(2) d(2,3) show False by simp
  qed
  with op' d(2) show thesis by (intro that)
qed

lemma no_deadlock:
  assumes "locks_inv s" and "stuck s"
  shows "syRunning s = {#}"
proof (rule ccontr)
  assume "syRunning s \<noteq> {#}"
  then obtain op where "op \<in># syRunning s" by auto
  have head: "\<exists>c cs qs. op = \<lparr>rnCalls = c # cs, rnPlan = qs\<rparr> \<and> waiting c \<and> callStep c (syRegistries s (call_level c)) = None"
    if "op \<in># syRunning s" for op
    using opStep_None [of op "syRegistries s"] assms(2) that by (auto simp: stuck_def)
  have last: False if h: "op \<in># syRunning s" "d \<in> set (rnCalls op)" "lcPhase d = Holding" "call_level d = SessionLock" for op d
  proof -
    obtain c cs qs where c: "op = \<lparr>rnCalls = c # cs, rnPlan = qs\<rparr>" "waiting c" using head [OF h(1)] by blast
    then have "d \<in> set cs" using h(2,3) by (auto simp: waiting_def)
    moreover have "op_ok op" using assms(1) h(1) by (simp add: locks_inv_def)
    ultimately show False using c(1) h(4) by (cases cs rule: rev_cases) (auto simp: op_ok_def levels_def append_eq_Cons_conv)
  qed
  have session: False if "op \<in># syRunning s" "op = \<lparr>rnCalls = c # cs, rnPlan = qs\<rparr>" "waiting c"
    "callStep c (syRegistries s (call_level c)) = None" "call_level c = SessionLock" for op c cs qs
    using stuck_waits [OF assms(2,1)] that last by metis
  obtain c cs qs where c: "op = \<lparr>rnCalls = c # cs, rnPlan = qs\<rparr>" "waiting c"
      "callStep c (syRegistries s (call_level c)) = None"
    using head [OF \<open>op \<in># syRunning s\<close>] by blast
  then have dev: "call_level c = DeviceGate" using session \<open>op \<in># syRunning s\<close> by (cases "call_level c") auto
  obtain op' d where d: "op' \<in># syRunning s" "d \<in> set (rnCalls op')" "lcPhase d = Holding" "call_level d = DeviceGate"
    using stuck_waits [OF assms(2,1)] c \<open>op \<in># syRunning s\<close> dev by metis
  obtain x xs ys where x: "op' = \<lparr>rnCalls = x # xs, rnPlan = ys\<rparr>" "waiting x"
      "callStep x (syRegistries s (call_level x)) = None"
    using head [OF d(1)] by blast
  have "d \<in> set xs" using x d(2,3) by (auto simp: waiting_def)
  moreover have "op_ok op'" using assms(1) d(1) by (simp add: locks_inv_def)
  ultimately have "call_level x = SessionLock"
    using x(1) d(4) by (cases xs rule: rev_cases) (auto simp: op_ok_def levels_def append_eq_Cons_conv)
  then show False using session d(1) x by blast
qed

text \<open>
  C19. Upload operations cannot deadlock, and each one finishes. From every reachable state, however the running
  operations interleave, they make only so many more steps (at most \<open>work\<close>, a number that is read off the state),
  and when none of them can go on it is because all of them have finished and given back their locks; then both
  registries are empty again. It rests on the order that the code promises: a device gate before a session lock.
\<close>

theorem upload_operations_finish:
  assumes "locks_reachable s" and "(drain_step ^^ n) s t"
  shows "n \<le> work s \<and> ((\<exists>u. drain_step t u) \<or> syRunning t = {#} \<and> (\<forall>l. lrEntries (syRegistries t l) = (\<lambda>_. None)))"
proof -
  have r: "locks_reachable t" if "(drain_step ^^ n) s t" for n t
    using that assms(1) by (induction n arbitrary: t) (auto intro: reach.step drain_lock_step)
  have w: "work t + n \<le> work s" if "(drain_step ^^ n) s t" for n t
    using that by (induction n arbitrary: t) (fastforce dest: drain_work)+
  have inv: "locks_inv t" by (rule upload_locks.inv_reach [OF r [OF assms(2)]])
  have "syRunning t = {#}" if "\<nexists>u. drain_step t u"
  proof (rule no_deadlock [OF inv])
    show "stuck t"
      unfolding stuck_def
    proof (intro ballI conjI)
      fix op assume op: "op \<in># syRunning t"
      show "opStep op (syRegistries t) = None"
        using that op drain_step.intros(1) by (cases "opStep op (syRegistries t)") fastforce+
      show "op \<noteq> \<lparr>rnCalls = [], rnPlan = []\<rparr>" using that op drain_step.intros(2) by blast
    qed
  qed
  moreover have "lrEntries (syRegistries t l) = (\<lambda>_. None)" if "syRunning t = {#}" for l
  proof
    fix k
    have "lock_inv (syRegistries t l) {#}"
      using inv that by (auto simp: locks_inv_def locks_ok_def all_calls_def on_lock_def)
    then show "lrEntries (syRegistries t l) k = None" by (auto simp: lock_inv_def)
  qed
  ultimately show ?thesis using w [OF assms(2)] by auto
qed

section \<open>An example\<close>

definition go :: "running \<Rightarrow> lock_system \<Rightarrow> lock_system" where
  "go op s = (case opStep op (syRegistries s) of
     None \<Rightarrow> s | Some (op', rs) \<Rightarrow> \<lparr>syRegistries = rs, syRunning = add_mset op' (syRunning s - {#op#})\<rparr>)"

lemma go_reachable: "locks_reachable s \<Longrightarrow> op \<in># syRunning s \<Longrightarrow> locks_reachable (go op s)"
  by (auto simp: go_def split: option.splits intro: reach.step lock_step.advance)

lemma go_drain: "op \<in># syRunning s \<Longrightarrow> opStep op (syRegistries s) \<noteq> None \<Longrightarrow> drain_step s (go op s)"
  by (auto simp: go_def intro: drain_step.intros)

definition ex_call :: "lock_phase \<Rightarrow> lock_call" where
  "ex_call ph = \<lparr>lcRequest = request DeviceGate True False ''d'', lcEntry = 0, lcPhase = ph\<rparr>"

definition ex_begin :: "lock_system \<Rightarrow> lock_system" where
  "ex_begin s = s\<lparr>syRunning := add_mset \<lparr>rnCalls = [], rnPlan = lock_plan (DeviceOperation '' d'')\<rparr> (syRunning s)\<rparr>"

definition ex_gate :: "lock_system \<Rightarrow> lock_system" where
  "ex_gate s = go \<lparr>rnCalls = [ex_call Counted], rnPlan = []\<rparr>
     (go \<lparr>rnCalls = [], rnPlan = lock_plan (DeviceOperation '' d'')\<rparr> (ex_begin s))"

definition ex_locks :: lock_system where
  "ex_locks = ex_gate (ex_gate \<lparr>syRegistries = (\<lambda>_. empty_registry), syRunning = {#}\<rparr>)"

lemma ex_locks_running:
  "syRunning ex_locks = {#\<lparr>rnCalls = [ex_call Holding], rnPlan = []\<rparr>, \<lparr>rnCalls = [ex_call Holding], rnPlan = []\<rparr>#}"
  by code_simp

lemma ex_gate_reachable:
  assumes "locks_reachable s" and "\<lparr>rnCalls = [ex_call Counted], rnPlan = []\<rparr> \<in># syRunning
      (go \<lparr>rnCalls = [], rnPlan = lock_plan (DeviceOperation '' d'')\<rparr> (ex_begin s))"
  shows "locks_reachable (ex_gate s)"
  unfolding ex_gate_def
proof (intro go_reachable)
  show "locks_reachable (ex_begin s)"
    unfolding ex_begin_def by (rule reach.step [OF assms(1)]) (rule lock_step.begin_operation)
  show "\<lparr>rnCalls = [], rnPlan = lock_plan (DeviceOperation '' d'')\<rparr> \<in># syRunning (ex_begin s)"
    by (simp add: ex_begin_def)
qed (fact assms(2))

lemma ex_locks_reachable: "locks_reachable ex_locks"
  unfolding ex_locks_def
proof (intro ex_gate_reachable)
  show "locks_reachable \<lparr>syRegistries = (\<lambda>_. empty_registry), syRunning = {#}\<rparr>"
    by (rule reach.start) (simp add: locks_init_def)
qed code_simp+

theorem upload_locks_exclude_witness:
  "\<exists>c. {#\<lparr>rnCalls = [c], rnPlan = []\<rparr>, \<lparr>rnCalls = [c], rnPlan = []\<rparr>#} = syRunning ex_locks \<and> call_shared c"
proof -
  let ?c = "ex_call Holding" let ?op = "\<lparr>rnCalls = [?c], rnPlan = []\<rparr> :: running"
  have "call_shared ?c \<and> call_shared ?c"
    by (rule upload_locks_exclude [OF ex_locks_reachable, of ?op ?op]) (simp_all add: ex_locks_running ex_call_def)
  then show ?thesis using ex_locks_running by metis
qed

theorem lock_entries_are_referenced_witness:
  "lrEntries (syRegistries ex_locks DeviceGate) ''d'' = Some 0
     \<and> leRefs (lrHeap (syRegistries ex_locks DeviceGate) 0) = int (size (calls_of DeviceGate ''d'' ex_locks))
     \<and> size (calls_of DeviceGate ''d'' ex_locks) = 2"
proof -
  have e: "lrEntries (syRegistries ex_locks DeviceGate) ''d'' = Some 0" by code_simp
  have "size (calls_of DeviceGate ''d'' ex_locks) = 2"
    by (simp add: calls_of_def all_calls_def ex_locks_running ex_call_def on_lock_def request_def)
  with e lock_entries_are_referenced [OF ex_locks_reachable, of DeviceGate "''d''"] show ?thesis by simp
qed

theorem upload_operations_finish_witness:
  "\<exists>t. drain_step ex_locks t \<and> 1 \<le> work ex_locks"
proof -
  let ?op = "\<lparr>rnCalls = [ex_call Holding], rnPlan = []\<rparr> :: running"
  have "drain_step ex_locks (go ?op ex_locks)"
  proof (rule go_drain)
    show "?op \<in># syRunning ex_locks" by (simp add: ex_locks_running)
    show "opStep ?op (syRegistries ex_locks) \<noteq> None"
      by (simp add: ex_call_def waiting_def Let_def dropMutex_def)
  qed
  moreover from this have "(drain_step ^^ 1) ex_locks (go ?op ex_locks)" by (simp only: relpowp_1)
  with upload_operations_finish [OF ex_locks_reachable] have "1 \<le> work ex_locks" by blast
  ultimately show ?thesis by blast
qed

end
