(* ===== verification/Lifecycle.thy ===== *)
theory Lifecycle
  imports Prelude
begin

text \<open>
  \<open>internal/lifecycle/group.go\<close>: admission of work and waiting for it at shutdown. Every
  method runs under \<open>g.mu\<close>, so it is one atomic function; \<open>None\<close> is the panic of closing a
  closed (or nil) channel. The functions that \<open>Acquire\<close> returns are tokens; \<open>sync.OnceFunc\<close>
  makes a second call of one do nothing.
\<close>

section \<open>The group\<close>

datatype done_channel = NilChannel | OpenChannel | ClosedChannel

record group =
  gpClosed :: bool
  gpActive :: int
  gpDone :: done_channel
  gpCancelled :: bool

definition zero_group :: group where
  "zero_group = \<lparr>gpClosed = False, gpActive = 0, gpDone = NilChannel, gpCancelled = False\<rparr>"

definition initLocked :: "group \<Rightarrow> group" where
  "initLocked g = (if gpDone g = NilChannel then g\<lparr>gpDone := OpenChannel, gpCancelled := False\<rparr> else g)"

definition close_done :: "group \<Rightarrow> group option" where
  "close_done g = (if gpDone g = OpenChannel then Some (g\<lparr>gpDone := ClosedChannel\<rparr>) else None)"

definition Acquire :: "group \<Rightarrow> bool \<times> group" where
  "Acquire g =
     (let g = initLocked g in if gpClosed g then (False, g) else (True, g\<lparr>gpActive := gpActive g + 1\<rparr>))"

definition releaseAcquired :: "group \<Rightarrow> group option" where
  "releaseAcquired g =
     (let g = g\<lparr>gpActive := gpActive g - 1\<rparr> in
      if gpClosed g \<and> gpActive g = 0 then close_done g else Some g)"

definition CloseAdmission :: "group \<Rightarrow> group option" where
  "CloseAdmission g =
     (let g = initLocked g in
      if gpClosed g then Some g
      else let g = g\<lparr>gpClosed := True\<rparr> in if gpActive g = 0 then close_done g else Some g)"

definition CancelGroup :: "group \<Rightarrow> group" where
  "CancelGroup g = (initLocked g)\<lparr>gpCancelled := True\<rparr>"

datatype wait_result = WaitDone | WaitContextError | WaitBlocked

definition Wait :: "bool \<Rightarrow> group \<Rightarrow> wait_result \<times> group" where
  "Wait contextDone g =
     (let g = initLocked g in
      (if gpDone g = ClosedChannel then WaitDone
       else if contextDone then WaitContextError else WaitBlocked, g))"

definition Pending :: "group \<Rightarrow> int" where "Pending g = gpActive g"

text \<open>\<open>Handler\<close>: a request runs while the group admits it, else the answer is 503.\<close>

definition handlerStatus :: "group \<Rightarrow> nat option" where
  "handlerStatus g = (if fst (Acquire g) then None else Some 503)"

section \<open>Running\<close>

text \<open>The group, with a flag for every work admitted so far: whether it was released.\<close>

record group_run =
  grGroup :: group
  grReleased :: "bool list"

definition release_work :: "nat \<Rightarrow> group_run \<Rightarrow> group_run option" where
  "release_work i s =
     (if length (grReleased s) \<le> i \<or> grReleased s ! i then Some s
      else map_option (\<lambda>g. \<lparr>grGroup = g, grReleased = (grReleased s)[i := True]\<rparr>) (releaseAcquired (grGroup s)))"

definition admit_work :: "group_run \<Rightarrow> group_run" where
  "admit_work s = (case Acquire (grGroup s) of
     (ok, g) \<Rightarrow> \<lparr>grGroup = g, grReleased = grReleased s @ (if ok then [False] else [])\<rparr>)"

inductive group_step :: "group_run \<Rightarrow> group_run \<Rightarrow> bool" where
  admit: "group_step s (admit_work s)"
| release: "release_work i s = Some t \<Longrightarrow> group_step s t"
| close: "CloseAdmission (grGroup s) = Some g \<Longrightarrow> group_step s (s\<lparr>grGroup := g\<rparr>)"
| cancel: "group_step s (s\<lparr>grGroup := CancelGroup (grGroup s)\<rparr>)"
| wait: "group_step s (s\<lparr>grGroup := snd (Wait contextDone (grGroup s))\<rparr>)"

definition group_init :: "group_run \<Rightarrow> bool" where
  "group_init s \<longleftrightarrow> s = \<lparr>grGroup = zero_group, grReleased = []\<rparr>"

definition unreleased :: "group_run \<Rightarrow> nat" where
  "unreleased s = length (filter Not (grReleased s))"

definition group_inv :: "group_run \<Rightarrow> bool" where
  "group_inv s \<longleftrightarrow>
     gpActive (grGroup s) = int (unreleased s)
     \<and> (gpDone (grGroup s) = ClosedChannel \<longleftrightarrow> gpClosed (grGroup s) \<and> unreleased s = 0)
     \<and> (gpDone (grGroup s) = NilChannel \<longrightarrow> \<not> gpClosed (grGroup s) \<and> grReleased s = [])"

lemma unreleased_set:
  "i < length bs \<Longrightarrow> \<not> bs ! i \<Longrightarrow> length (filter Not bs) = Suc (length (filter Not (bs[i := True])))"
proof (induction bs arbitrary: i)
  case (Cons b bs)
  then show ?case by (cases i) auto
qed simp

lemma inv_initLocked: "group_inv s \<Longrightarrow> group_inv (s\<lparr>grGroup := initLocked (grGroup s)\<rparr>)"
  by (auto simp: group_inv_def initLocked_def unreleased_def)

lemma release_work_cases:
  assumes "group_inv s"
  shows "\<exists>t. release_work i s = Some t \<and> group_inv t"
proof (cases "length (grReleased s) \<le> i \<or> grReleased s ! i")
  case False
  then have "unreleased s = Suc (unreleased (s\<lparr>grReleased := (grReleased s)[i := True]\<rparr>))"
    using unreleased_set [of i "grReleased s"] by (simp add: unreleased_def)
  with False assms show ?thesis
    by (cases "gpDone (grGroup s)")
      (auto simp: release_work_def releaseAcquired_def close_done_def group_inv_def unreleased_def Let_def)
qed (use assms in \<open>auto simp: release_work_def\<close>)

lemma CloseAdmission_cases:
  assumes "group_inv s"
  shows "\<exists>g. CloseAdmission (grGroup s) = Some g \<and> group_inv (s\<lparr>grGroup := g\<rparr>) \<and> gpClosed g"
  using assms
  by (cases "gpDone (grGroup s)")
    (auto simp: CloseAdmission_def initLocked_def close_done_def group_inv_def unreleased_def Let_def)

interpretation groups: machine group_init group_step group_inv
proof
  show "group_inv s" if "group_init s" for s
    using that by (simp add: group_init_def group_inv_def zero_group_def unreleased_def)
  show "group_inv t" if inv: "group_inv s" and "group_step s t" for s t
    using that(2)
  proof (cases rule: group_step.cases)
    case admit
    with inv show ?thesis
      by (auto simp: admit_work_def Acquire_def initLocked_def group_inv_def unreleased_def Let_def)
  next
    case (release i)
    with release_work_cases [OF inv, of i] show ?thesis by auto
  next
    case (close g)
    with CloseAdmission_cases [OF inv] show ?thesis by auto
  next
    case cancel
    with inv show ?thesis by (auto simp: CancelGroup_def initLocked_def group_inv_def unreleased_def)
  next
    case (wait contextDone)
    with inv_initLocked [OF inv] show ?thesis by (simp add: Wait_def Let_def)
  qed
qed

text \<open>
  C22. Shutting down waits for all admitted work and for nothing else. In every state a group can reach, waiting
  succeeds exactly when admission was closed and every piece of work that was admitted has been released (once,
  however often its release function is called); then nothing is admitted any more and a request is answered
  with 503. No call ever closes the channel twice, so none panics.
\<close>

theorem group_waits_for_all_work:
  assumes "reach group_init group_step s"
  shows "(fst (Wait contextDone (grGroup s)) = WaitDone) = (gpClosed (grGroup s) \<and> list_all id (grReleased s))
    \<and> Pending (grGroup s) = int (length (filter Not (grReleased s)))
    \<and> handlerStatus (grGroup s) = (if gpClosed (grGroup s) then Some 503 else None)
    \<and> release_work i s \<noteq> None \<and> CloseAdmission (grGroup s) \<noteq> None"
proof -
  have inv: "group_inv s" by (rule groups.inv_reach [OF assms])
  have "unreleased s = 0 \<longleftrightarrow> list_all id (grReleased s)"
    by (auto simp: unreleased_def list_all_iff filter_empty_conv)
  with inv release_work_cases [OF inv, of i] CloseAdmission_cases [OF inv] show ?thesis
    by (auto simp: Wait_def Pending_def handlerStatus_def Acquire_def initLocked_def group_inv_def unreleased_def Let_def)
qed

theorem group_waits_for_all_work_witness:
  "\<exists>s :: group_run. grReleased s = [False] \<and> Pending (grGroup s) = 1 \<and> fst (Wait False (grGroup s)) = WaitBlocked"
proof -
  let ?s = "admit_work \<lparr>grGroup = zero_group, grReleased = []\<rparr>"
  have "reach group_init group_step ?s"
    by (rule reach.step [OF reach.start]) (simp add: group_init_def, rule group_step.admit)
  note w = group_waits_for_all_work [OF this, of False 0]
  have "grReleased ?s = [False]" by (simp add: admit_work_def Acquire_def initLocked_def zero_group_def)
  moreover from this w have "Pending (grGroup ?s) = 1" by simp
  moreover have "fst (Wait False (grGroup ?s)) = WaitBlocked"
    by (simp add: admit_work_def Acquire_def initLocked_def zero_group_def Wait_def)
  ultimately show ?thesis by blast
qed

end
