(* ===== verification/Semantic_Heap.thy ===== *)
theory Semantic_Heap
  imports Prelude "HOL-Library.Multiset" "HOL-Library.Word"
begin

text \<open>
  The candidates of a semantic search (\<open>internal/catalog/semantic_binary_index.go\<close> and
  \<open>semantic_index_builder.go\<close>): the order of 32-bit floating-point numbers, and Go's
  \<open>container/heap\<close> over the slice of candidates. The heap always hands out a best candidate;
  with a score that is not a number it still hands out every candidate once.
\<close>

section \<open>Floating-point order\<close>

text \<open>A \<open>float32\<close> is its bits; a comparison with a NaN is false, and the two zeros are equal.\<close>

type_synonym float32 = "32 word"

definition f32_magnitude :: "float32 \<Rightarrow> int" where
  "f32_magnitude w = uint w mod 2 ^ 31"

definition f32_nan :: "float32 \<Rightarrow> bool" where
  "f32_nan w \<longleftrightarrow> 0x7F800000 < f32_magnitude w"

definition f32_key :: "float32 \<Rightarrow> int" where
  "f32_key w = (if uint w div 2 ^ 31 = 1 then - f32_magnitude w else f32_magnitude w)"

definition f32_less :: "float32 \<Rightarrow> float32 \<Rightarrow> bool" where
  "f32_less a b \<longleftrightarrow> \<not> f32_nan a \<and> \<not> f32_nan b \<and> f32_key a < f32_key b"

definition f32_equal :: "float32 \<Rightarrow> float32 \<Rightarrow> bool" where
  "f32_equal a b \<longleftrightarrow> \<not> f32_nan a \<and> \<not> f32_nan b \<and> f32_key a = f32_key b"

record scored =
  scOrdinal :: nat
  scSimilarity :: float32

definition scored_less :: "scored \<Rightarrow> scored \<Rightarrow> bool" where
  "scored_less a b =
     (if f32_equal (scSimilarity a) (scSimilarity b) then scOrdinal a < scOrdinal b
      else f32_less (scSimilarity b) (scSimilarity a))"

definition a_number :: "scored \<Rightarrow> bool" where
  "a_number x \<longleftrightarrow> \<not> f32_nan (scSimilarity x)"

section \<open>The heap of Go's standard library\<close>

definition swap :: "nat \<Rightarrow> nat \<Rightarrow> 'a list \<Rightarrow> 'a list" where
  "swap i j h = h[i := h ! j, j := h ! i]"

fun heap_up :: "('a \<Rightarrow> 'a \<Rightarrow> bool) \<Rightarrow> nat \<Rightarrow> 'a list \<Rightarrow> 'a list" where
  "heap_up lt j h =
     (if j = 0 then h
      else if lt (h ! j) (h ! ((j - 1) div 2))
      then heap_up lt ((j - 1) div 2) (swap ((j - 1) div 2) j h)
      else h)"

definition better_child :: "('a \<Rightarrow> 'a \<Rightarrow> bool) \<Rightarrow> nat \<Rightarrow> nat \<Rightarrow> 'a list \<Rightarrow> nat" where
  "better_child lt i n h =
     (if 2 * i + 2 < n \<and> lt (h ! (2 * i + 2)) (h ! (2 * i + 1)) then 2 * i + 2 else 2 * i + 1)"

function heap_down :: "('a \<Rightarrow> 'a \<Rightarrow> bool) \<Rightarrow> nat \<Rightarrow> nat \<Rightarrow> 'a list \<Rightarrow> 'a list" where
  "heap_down lt i n h =
     (if n \<le> 2 * i + 1 then h
      else if lt (h ! better_child lt i n h) (h ! i)
      then heap_down lt (better_child lt i n h) n (swap i (better_child lt i n h) h)
      else h)"
  by pat_completeness auto
termination by (relation "measure (\<lambda>(lt, i, n, h). n - i)") (auto simp: better_child_def)

declare heap_up.simps [simp del] heap_down.simps [simp del]

definition heap_push :: "('a \<Rightarrow> 'a \<Rightarrow> bool) \<Rightarrow> 'a \<Rightarrow> 'a list \<Rightarrow> 'a list" where
  "heap_push lt x h = heap_up lt (length h) (h @ [x])"

definition heap_pop :: "('a \<Rightarrow> 'a \<Rightarrow> bool) \<Rightarrow> 'a list \<Rightarrow> 'a \<times> 'a list" where
  "heap_pop lt h =
     (let n = length h - 1; h = heap_down lt 0 n (swap 0 n h) in (h ! n, take n h))"

section \<open>The elements of a heap\<close>

lemma length_swap [simp]: "length (swap i j h) = length h"
  by (simp add: swap_def)

lemma nth_swap: "i < length h \<Longrightarrow> j < length h \<Longrightarrow>
    swap i j h ! k = (if k = j then h ! i else if k = i then h ! j else h ! k)"
  by (auto simp: swap_def nth_list_update)

lemma mset_swap_at [simp]: "i < length h \<Longrightarrow> j < length h \<Longrightarrow> mset (swap i j h) = mset h"
  unfolding swap_def by (rule mset_swap)

lemma heap_up_elements: "j < length h \<Longrightarrow> length (heap_up lt j h) = length h \<and> mset (heap_up lt j h) = mset h"
proof (induction lt j h rule: heap_up.induct)
  case (1 lt j h)
  have "(j - 1) div 2 < length h" using "1.prems" by linarith
  with 1 show ?case by (subst (1 2) heap_up.simps) auto
qed

lemma better_child_bounds: "2 * i + 1 < n \<Longrightarrow> better_child lt i n h < n \<and> i < better_child lt i n h"
  by (auto simp: better_child_def)

lemma heap_down_elements:
  "n \<le> length h \<Longrightarrow> length (heap_down lt i n h) = length h \<and> mset (heap_down lt i n h) = mset h
    \<and> (\<forall>k. n \<le> k \<longrightarrow> heap_down lt i n h ! k = h ! k)"
proof (induction lt i n h rule: heap_down.induct)
  case (1 lt i n h)
  show ?case
  proof (cases "2 * i + 1 < n \<and> lt (h ! better_child lt i n h) (h ! i)")
    case True
    let ?c = "better_child lt i n h"
    have c: "?c < n" "i < ?c" using True better_child_bounds [of i n lt h] by auto
    have e: "heap_down lt i n h = heap_down lt ?c n (swap i ?c h)"
      using True by (subst heap_down.simps) simp
    have "swap i ?c h ! k = h ! k" if "n \<le> k" for k using c 1(2) that by (simp add: nth_swap)
    with 1(1) 1(2) True c show ?thesis by (simp add: e)
  next
    case False
    then have "heap_down lt i n h = h" by (subst heap_down.simps) auto
    then show ?thesis by simp
  qed
qed

lemma heap_push_elements: "mset (heap_push lt x h) = add_mset x (mset h)"
  using heap_up_elements [of "length h" "h @ [x]" lt] by (simp add: heap_push_def)

lemma heap_pop_elements:
  assumes "h \<noteq> []" and "heap_pop lt h = (x, h')"
  shows "mset h = add_mset x (mset h')" and "x = hd h"
proof -
  let ?n = "length h - 1" let ?d = "heap_down lt 0 ?n (swap 0 ?n h)"
  have n: "?n < length h" using assms(1) by simp
  note e = heap_down_elements [of ?n "swap 0 ?n h" lt 0]
  have d: "length ?d = length h" "mset ?d = mset h" using e n assms(1) by simp_all
  have x: "x = ?d ! ?n" "h' = take ?n ?d" using assms(2) by (auto simp: heap_pop_def Let_def)
  have "?d = take ?n ?d @ [?d ! ?n]" using d(1) n take_Suc_conv_app_nth [of ?n ?d] by simp
  then have "mset ?d = add_mset x (mset h')" using x by (metis mset_append mset_single_iff union_mset_add_mset_right add.right_neutral mset.simps)
  with d(2) show "mset h = add_mset x (mset h')" by simp
  have "?d ! ?n = swap 0 ?n h ! ?n" using e n by simp
  then show "x = hd h" using x(1) n assms(1) by (simp add: nth_swap hd_conv_nth)
qed

section \<open>Order of a heap\<close>

text \<open>What a comparison has to satisfy on the elements that occur, so that the heap is ordered.\<close>

locale heap_order =
  fixes lt :: "'a \<Rightarrow> 'a \<Rightarrow> bool" and ok :: "'a \<Rightarrow> bool"
  assumes asym: "ok a \<Longrightarrow> ok b \<Longrightarrow> lt a b \<Longrightarrow> \<not> lt b a"
    and negtrans: "ok a \<Longrightarrow> ok b \<Longrightarrow> ok c \<Longrightarrow> \<not> lt b a \<Longrightarrow> \<not> lt c b \<Longrightarrow> \<not> lt c a"
begin

definition is_heap :: "nat \<Rightarrow> 'a list \<Rightarrow> bool" where
  "is_heap n h \<longleftrightarrow> (\<forall>k. 0 < k \<longrightarrow> k < n \<longrightarrow> \<not> lt (h ! k) (h ! ((k - 1) div 2)))"

lemma root_least:
  assumes "is_heap n h" and "n \<le> length h" and "\<forall>x\<in>set h. ok x" and "k < n"
  shows "\<not> lt (h ! k) (h ! 0)"
  using assms(4)
proof (induction k rule: less_induct)
  case (less k)
  have ok: "ok (h ! j)" if "j < n" for j using assms(2,3) that by simp
  show ?case
  proof (cases "k = 0")
    case True
    then show ?thesis using asym [OF ok ok] less.prems by blast
  next
    case False
    let ?p = "(k - 1) div 2"
    have p: "?p < k" "?p < n" using False less.prems by linarith+
    have "\<not> lt (h ! k) (h ! ?p)" using assms(1) False less.prems by (simp add: is_heap_def)
    with negtrans [OF ok [of 0] ok [OF p(2)] ok [OF less.prems] less.IH [OF p]] less.prems show ?thesis by simp
  qed
qed

lemma heap_up_heap:
  assumes "j < length h" and "\<forall>x\<in>set h. ok x"
    and "\<And>k. 0 < k \<Longrightarrow> k < length h \<Longrightarrow> k \<noteq> j \<Longrightarrow> \<not> lt (h ! k) (h ! ((k - 1) div 2))"
    and "\<And>k. 0 < k \<Longrightarrow> k < length h \<Longrightarrow> (k - 1) div 2 = j \<Longrightarrow> 0 < j \<Longrightarrow> \<not> lt (h ! k) (h ! ((j - 1) div 2))"
  shows "is_heap (length h) (heap_up lt j h)"
  using assms
proof (induction j arbitrary: h rule: less_induct)
  case (less j)
  let ?i = "(j - 1) div 2"
  show ?case
  proof (cases "j = 0 \<or> \<not> lt (h ! j) (h ! ?i)")
    case True
    then have "heap_up lt j h = h" using heap_up.simps [of lt j h] by auto
    with True less.prems(3) show ?thesis by (auto simp: is_heap_def)
  next
    case False
    let ?h = "swap ?i j h"
    have j: "0 < j" "?i < j" "?i < length h" using False less.prems(1) by linarith+
    have ok: "ok (h ! k)" if "k < length h" for k using less.prems(2) that by simp
    have up: "heap_up lt j h = heap_up lt ?i ?h" using False heap_up.simps [of lt j h] by simp
    have s: "?h ! k = (if k = j then h ! ?i else if k = ?i then h ! j else h ! k)" for k
      using j less.prems(1) by (simp add: nth_swap)
    have ji: "\<not> lt (h ! ?i) (h ! j)" using asym [OF ok [OF less.prems(1)] ok [OF j(3)]] False by blast
    have "is_heap (length ?h) (heap_up lt ?i ?h)"
    proof (rule less.IH [OF j(2)])
      show "?i < length ?h" using j by simp
      have "set ?h = set h" using mset_swap_at [OF j(3) less.prems(1)] by (metis set_mset_mset)
      then show "\<forall>x\<in>set ?h. ok x" using less.prems(2) by simp
      show "\<not> lt (?h ! k) (?h ! ((k - 1) div 2))" if k: "0 < k" "k < length ?h" "k \<noteq> ?i" for k
      proof -
        consider "k = j" | "k \<noteq> j" "(k - 1) div 2 = ?i" | "(k - 1) div 2 = j" "k \<noteq> j"
          | "k \<noteq> j" "(k - 1) div 2 \<noteq> ?i" "(k - 1) div 2 \<noteq> j" by blast
        then show ?thesis
        proof cases
          case 1
          with ji j s show ?thesis by simp
        next
          case 2
          have "\<not> lt (h ! k) (h ! ?i)" using less.prems(3) [of k] k 2 by simp
          then have "\<not> lt (h ! k) (h ! j)"
            using negtrans [OF ok [OF less.prems(1)] ok [OF j(3)] ok [of k] ji] k(2) by simp
          with 2 k s j show ?thesis by simp
        next
          case 3
          with less.prems(4) [of k] k j s show ?thesis by simp
        next
          case 4
          with less.prems(3) [of k] k s show ?thesis by simp
        qed
      qed
      show "\<not> lt (?h ! k) (?h ! ((?i - 1) div 2))" if k: "0 < k" "k < length ?h" "(k - 1) div 2 = ?i" "0 < ?i" for k
      proof -
        let ?p = "(?i - 1) div 2"
        have p: "?p < ?i" "?p < length h" using k(4) j by linarith+
        have up: "\<not> lt (h ! ?i) (h ! ?p)" using less.prems(3) [of ?i] k j by simp
        show ?thesis
        proof (cases "k = j")
          case True
          with up s p j show ?thesis by simp
        next
          case False
          have "\<not> lt (h ! k) (h ! ?i)" using less.prems(3) [of k] k False by simp
          then have "\<not> lt (h ! k) (h ! ?p)"
            using negtrans [OF ok [OF p(2)] ok [OF j(3)] ok [of k] up] k(2) by simp
          moreover have "k \<noteq> ?i" using k by linarith
          ultimately show ?thesis using s p j False by simp
        qed
      qed
    qed
    then show ?thesis by (simp add: up)
  qed
qed

lemma heap_push_heap:
  assumes "is_heap (length h) h" and "\<forall>y\<in>set h. ok y" and "ok x"
  shows "is_heap (length (heap_push lt x h)) (heap_push lt x h)"
proof -
  have "is_heap (length (h @ [x])) (heap_up lt (length h) (h @ [x]))"
  proof (rule heap_up_heap)
    show "\<not> lt ((h @ [x]) ! k) ((h @ [x]) ! ((k - 1) div 2))"
      if "0 < k" "k < length (h @ [x])" "k \<noteq> length h" for k
    proof -
      have "k < length h" "(k - 1) div 2 < length h" using that by auto
      with that assms(1) show ?thesis by (simp add: is_heap_def nth_append)
    qed
    show "\<not> lt ((h @ [x]) ! k) ((h @ [x]) ! ((length h - 1) div 2))"
      if "0 < k" "k < length (h @ [x])" "(k - 1) div 2 = length h" "0 < length h" for k
      using that by simp
  qed (use assms in auto)
  then show ?thesis using heap_up_elements [of "length h" "h @ [x]" lt] by (simp add: heap_push_def)
qed

lemma heap_down_heap:
  assumes "n \<le> length h" and "\<forall>x\<in>set h. ok x"
    and "\<And>k. 0 < k \<Longrightarrow> k < n \<Longrightarrow> (k - 1) div 2 \<noteq> i \<Longrightarrow> \<not> lt (h ! k) (h ! ((k - 1) div 2))"
    and "\<And>k. 0 < k \<Longrightarrow> k < n \<Longrightarrow> (k - 1) div 2 = i \<Longrightarrow> 0 < i \<Longrightarrow> \<not> lt (h ! k) (h ! ((i - 1) div 2))"
  shows "is_heap n (heap_down lt i n h)"
  using assms
proof (induction "n - i" arbitrary: i h rule: less_induct)
  case less
  let ?c = "better_child lt i n h"
  have ok: "ok (h ! k)" if "k < n" for k using less.prems(1,2) that by simp
  show ?case
  proof (cases "2 * i + 1 < n")
    case False
    then have "heap_down lt i n h = h" using heap_down.simps [of lt i n h] by simp
    moreover have "(k - 1) div 2 \<noteq> i" if "0 < k" "k < n" for k using False that by linarith
    ultimately show ?thesis using less.prems(3) by (auto simp: is_heap_def)
  next
    case True
    note c = better_child_bounds [OF True, of lt h]
    have child: "(?c - 1) div 2 = i" "0 < ?c" by (auto simp: better_child_def)
    have best: "\<not> lt (h ! k) (h ! ?c)" if k: "0 < k" "k < n" "(k - 1) div 2 = i" for k
    proof -
      have "k = 2 * i + 1 \<or> k = 2 * i + 2" using k by linarith
      then consider "k = 2 * i + 1" | "k = 2 * i + 2" by blast
      then show ?thesis
      proof cases
        case 1
        with asym [OF ok ok, of "2 * i + 1" "2 * i + 1"] asym [OF ok ok, of "2 * i + 2" "2 * i + 1"] True
        show ?thesis by (auto simp: better_child_def)
      next
        case 2
        with asym [OF ok ok, of "2 * i + 2" "2 * i + 2"] k(2) show ?thesis by (auto simp: better_child_def)
      qed
    qed
    show ?thesis
    proof (cases "lt (h ! ?c) (h ! i)")
      case False
      have "heap_down lt i n h = h" using False heap_down.simps [of lt i n h] by simp
      moreover have "\<not> lt (h ! k) (h ! i)" if "0 < k" "k < n" "(k - 1) div 2 = i" for k
        using negtrans [OF ok [of i] ok [of ?c] ok [of k] False best [OF that]] c that(2) by linarith
      ultimately show ?thesis using less.prems(3) unfolding is_heap_def by metis
    next
      case lt: True
      let ?h = "swap i ?c h"
      have down: "heap_down lt i n h = heap_down lt ?c n ?h" using True lt heap_down.simps [of lt i n h] by simp
      have bounds: "i < length h" "?c < length h" "i < n" using c less.prems(1) by linarith+
      have s: "?h ! k = (if k = ?c then h ! i else if k = i then h ! ?c else h ! k)" for k
        using bounds by (simp add: nth_swap)
      have "is_heap n (heap_down lt ?c n ?h)"
      proof (rule less.hyps)
        show "n - ?c < n - i" using c by linarith
        show "n \<le> length ?h" using less.prems(1) by simp
        have "set ?h = set h" using mset_swap_at [OF bounds(1,2)] by (metis set_mset_mset)
        then show "\<forall>x\<in>set ?h. ok x" using less.prems(2) by simp
        show "\<not> lt (?h ! k) (?h ! ((k - 1) div 2))" if k: "0 < k" "k < n" "(k - 1) div 2 \<noteq> ?c" for k
        proof -
          consider "k = ?c" | "k \<noteq> ?c" "(k - 1) div 2 = i" | "k = i" | "k \<noteq> ?c" "(k - 1) div 2 \<noteq> i" "k \<noteq> i" by blast
          then show ?thesis
          proof cases
            case 1
            have "\<not> lt (h ! i) (h ! ?c)" using asym [OF ok [of ?c] ok [of i] lt] c bounds by simp
            with 1 child s c show ?thesis by simp
          next
            case 2
            have "k \<noteq> i" using k 2 by linarith
            with best [OF k(1,2)] 2 s c show ?thesis by simp
          next
            case 3
            have "(i - 1) div 2 \<noteq> i" "(i - 1) div 2 \<noteq> ?c" "i \<noteq> ?c" using k 3 c by linarith+
            with less.prems(4) [OF child(2) _ child(1)] k 3 c s show ?thesis by simp
          next
            case 4
            with less.prems(3) [of k] k s show ?thesis by simp
          qed
        qed
        show "\<not> lt (?h ! k) (?h ! ((?c - 1) div 2))" if k: "0 < k" "k < n" "(k - 1) div 2 = ?c" "0 < ?c" for k
        proof -
          have "k \<noteq> ?c" "k \<noteq> i" using k c by linarith+
          moreover have "\<not> lt (h ! k) (h ! ?c)" using less.prems(3) [of k] k c by simp
          ultimately show ?thesis using s c child by simp
        qed
      qed
      then show ?thesis by (simp add: down)
    qed
  qed
qed

lemma heap_pop_heap:
  assumes "h \<noteq> []" and "is_heap (length h) h" and "\<forall>x\<in>set h. ok x" and "heap_pop lt h = (x, h')"
  shows "is_heap (length h') h'" and "y \<in> set h \<Longrightarrow> \<not> lt y x"
proof -
  let ?n = "length h - 1" let ?s = "swap 0 ?n h" let ?d = "heap_down lt 0 ?n ?s"
  have n: "?n < length h" "0 < length h" using assms(1) by simp_all
  have s: "?s ! k = h ! k" if "0 < k" "k < ?n" for k using that n by (simp add: nth_swap)
  have "is_heap ?n ?d"
  proof (rule heap_down_heap)
    show "\<not> lt (?s ! k) (?s ! ((k - 1) div 2))" if "0 < k" "k < ?n" "(k - 1) div 2 \<noteq> 0" for k
    proof -
      have "0 < (k - 1) div 2" "(k - 1) div 2 < ?n" using that by linarith+
      with that assms(2) s show ?thesis by (simp add: is_heap_def)
    qed
    have "set ?s = set h" using mset_swap_at [OF n(2,1)] by (metis set_mset_mset)
    then show "\<forall>x\<in>set ?s. ok x" using assms(3) by simp
  qed simp_all
  moreover have h': "h' = take ?n ?d" "length h' = ?n"
    using assms(4) heap_down_elements [of ?n ?s lt 0] by (auto simp: heap_pop_def Let_def)
  moreover have "(k - 1) div 2 < ?n" if "k < ?n" for k using that by linarith
  ultimately show "is_heap (length h') h'" by (simp add: is_heap_def)
  assume "y \<in> set h"
  then obtain k where "k < length h" "y = h ! k" by (auto simp: in_set_conv_nth)
  with root_least [OF assms(2) _ assms(3)] heap_pop_elements(2) [OF assms(1,4)] assms(1)
  show "\<not> lt y x" by (simp add: hd_conv_nth)
qed

end

interpretation candidates: heap_order scored_less a_number
  by unfold_locales
    (auto simp: scored_less_def f32_equal_def f32_less_def a_number_def split: if_splits)

end
