(* ===== verification/Semantic_File.thy ===== *)
theory Semantic_File
  imports Semantic_Heap Codec
begin

text \<open>
  The file of a semantic index (\<open>internal/catalog/semantic_binary_index.go\<close>): a header of
  4096 bytes, then the nodes, the vectors, the edges and the metadata strings, and the reader
  that an opened file becomes. A file is the string of its bytes; integers of Go are \<open>int\<close>
  with the wrap-around of 64 bits written out, or words of 32 and 16 bits; the JSON codec of
  headers is a parameter. Contexts are never cancelled here.
\<close>

section \<open>Little-endian integers\<close>

primrec le_put :: "nat \<Rightarrow> nat \<Rightarrow> string" where
  "le_put 0 x = []"
| "le_put (Suc n) x = char_of (x mod 256) # le_put n (x div 256)"

primrec le_get :: "string \<Rightarrow> nat" where
  "le_get [] = 0"
| "le_get (c # cs) = of_char c + 256 * le_get cs"

definition int64 :: "int \<Rightarrow> int" where "int64 x = signed_take_bit 63 x"

definition put64 :: "int \<Rightarrow> string" where "put64 x = le_put 8 (nat (take_bit 64 x))"
definition get64 :: "string \<Rightarrow> int" where "get64 s = int64 (int (le_get s))"
definition put32 :: "32 word \<Rightarrow> string" where "put32 w = le_put 4 (unat w)"
definition get32 :: "string \<Rightarrow> 32 word" where "get32 s = word_of_nat (le_get s)"
definition put16 :: "16 word \<Rightarrow> string" where "put16 w = le_put 2 (unat w)"
definition get16 :: "string \<Rightarrow> 16 word" where "get16 s = word_of_nat (le_get s)"

definition slice :: "nat \<Rightarrow> nat \<Rightarrow> string \<Rightarrow> string" where
  "slice a b s = take (b - a) (drop a s)"

text \<open>\<open>os.File.ReadAt\<close> of \<open>n\<close> bytes: it fails at a negative offset and before the end of the buffer.\<close>

definition readAt :: "string \<Rightarrow> nat \<Rightarrow> int \<Rightarrow> string option" where
  "readAt f n off =
     (if off < 0 then None
      else if n = 0 then Some []
      else if length f < nat off + n then None
      else Some (slice (nat off) (nat off + n) f))"

section \<open>Header\<close>

record index_header =
  hdVersion :: int
  hdPrecision :: string
  hdSourceKey :: string
  hdModelID :: string
  hdVectorSpaceID :: string
  hdEmbeddingDim :: int
  hdIndexedVectorCount :: int
  hdBuiltAt :: string
  hdAssetGeneration :: int
  hdNodeCount :: int
  hdEdgeCount :: int
  hdNodeOffset :: int
  hdVectorOffset :: int
  hdEdgeOffset :: int
  hdStringOffset :: int
  hdVectorStride :: int
  hdNodeRecordSize :: int
  hdEdgeRecordSize :: int

record index_profile =
  pfModelID :: string
  pfVectorSpaceID :: string
  pfEmbeddingDim :: int

datatype index_error = IndexUnavailable | IndexIO | IndexHeaderTooLarge | IndexDecode | IndexOutOfRange

type_synonym 'a index_result = "(index_error, 'a) result"

definition semanticBinaryIndexMagic :: string where "semanticBinaryIndexMagic = ''TIMBIDX1''"
definition semanticBinaryIndexVersion :: int where "semanticBinaryIndexVersion = 3"
definition semanticBinaryIndexHeaderBytes :: nat where "semanticBinaryIndexHeaderBytes = 4096"
definition semanticBinaryIndexNodeRecordSize :: nat where "semanticBinaryIndexNodeRecordSize = 64"
definition semanticBinaryIndexEdgeRecordSize :: nat where "semanticBinaryIndexEdgeRecordSize = 8"
definition semanticBinaryIndexNoDuration :: "32 word" where "semanticBinaryIndexNoDuration = - 1"
definition semanticSearchIndexPrecision :: string where "semanticSearchIndexPrecision = ''fp32''"

abbreviation MaxInt64 :: int where "MaxInt64 \<equiv> 2 ^ 63 - 1"

definition semanticBinaryVectorStride :: "int \<Rightarrow> int" where
  "semanticBinaryVectorStride dim = (if dim \<le> 0 \<or> MaxInt64 div 4 < dim then 0 else int64 (dim * 4))"

definition semanticBinaryCheckedSectionEnd :: "int \<Rightarrow> int \<Rightarrow> int \<Rightarrow> int option" where
  "semanticBinaryCheckedSectionEnd offset n width =
     (if offset < 0 \<or> n < 0 \<or> width \<le> 0 then None
      else if 0 < n \<and> (MaxInt64 - offset) div width < n then None
      else Some (add64 offset (int64 (n * width))))"

definition validateSemanticBinaryIndexLayout :: "index_header \<Rightarrow> int \<Rightarrow> bool" where
  "validateSemanticBinaryIndexLayout h fileSize \<longleftrightarrow>
     \<not> (fileSize < int semanticBinaryIndexHeaderBytes
        \<or> hdNodeCount h < 0 \<or> hdEdgeCount h < 0
        \<or> hdNodeRecordSize h \<noteq> int semanticBinaryIndexNodeRecordSize
        \<or> hdEdgeRecordSize h \<noteq> int semanticBinaryIndexEdgeRecordSize
        \<or> hdNodeOffset h \<noteq> int semanticBinaryIndexHeaderBytes
        \<or> hdVectorStride h \<noteq> semanticBinaryVectorStride (hdEmbeddingDim h)
        \<or> hdVectorStride h \<le> 0)
     \<and> semanticBinaryCheckedSectionEnd (hdNodeOffset h) (hdNodeCount h) (int semanticBinaryIndexNodeRecordSize)
         = Some (hdVectorOffset h)
     \<and> semanticBinaryCheckedSectionEnd (hdVectorOffset h) (hdNodeCount h) (hdVectorStride h) = Some (hdEdgeOffset h)
     \<and> semanticBinaryCheckedSectionEnd (hdEdgeOffset h) (hdEdgeCount h) (int semanticBinaryIndexEdgeRecordSize)
         = Some (hdStringOffset h)
     \<and> hdStringOffset h \<le> fileSize"

definition validateSemanticBinaryIndexHeaderIdentity :: "index_header \<Rightarrow> string \<Rightarrow> index_profile \<Rightarrow> bool" where
  "validateSemanticBinaryIndexHeaderIdentity h sourceKey profile \<longleftrightarrow>
     \<not> (hdVersion h \<noteq> semanticBinaryIndexVersion \<or> hdPrecision h \<noteq> semanticSearchIndexPrecision
        \<or> hdSourceKey h \<noteq> trim_space sourceKey \<or> hdModelID h \<noteq> pfModelID profile
        \<or> hdVectorSpaceID h \<noteq> pfVectorSpaceID profile \<or> hdEmbeddingDim h \<noteq> pfEmbeddingDim profile
        \<or> hdNodeCount h \<noteq> hdIndexedVectorCount h)"

definition maxHeaderJSON :: nat where
  "maxHeaderJSON = semanticBinaryIndexHeaderBytes - length semanticBinaryIndexMagic - 4"

definition writeSemanticBinaryHeader :: "(index_header \<Rightarrow> string) \<Rightarrow> index_header \<Rightarrow> string index_result" where
  "writeSemanticBinaryHeader toJSON h =
     (let raw = toJSON h in
      if maxHeaderJSON < length raw then Inl IndexHeaderTooLarge
      else Inr (semanticBinaryIndexMagic @ put32 (word_of_nat (length raw)) @ raw
                @ replicate (maxHeaderJSON - length raw) nul))"

definition readSemanticBinaryIndexHeaderFromFile ::
    "(string \<Rightarrow> index_header option) \<Rightarrow> string \<Rightarrow> index_header index_result" where
  "readSemanticBinaryIndexHeaderFromFile ofJSON f =
     (case readAt f semanticBinaryIndexHeaderBytes 0 of
        None \<Rightarrow> Inl IndexIO
      | Some headerBytes \<Rightarrow>
          let m = length semanticBinaryIndexMagic in
          if take m headerBytes \<noteq> semanticBinaryIndexMagic then Inl IndexUnavailable
          else
            let headerLength = unat (get32 (slice m (m + 4) headerBytes)) in
            if headerLength = 0 \<or> maxHeaderJSON < headerLength then Inl IndexDecode
            else case ofJSON (slice (m + 4) (m + 4 + headerLength) headerBytes) of
              None \<Rightarrow> Inl IndexDecode
            | Some h \<Rightarrow> Inr h)"

section \<open>Records\<close>

record node_record =
  ndCapturedAtUnixNano :: int
  ndVectorOffset :: int
  ndEdgeOffset :: int
  ndStringOffset :: int
  ndEdgeCount :: "32 word"
  ndStringLength :: "32 word"
  ndMaxLevel :: "16 word"

record edge_record =
  edNeighbor :: "32 word"
  edLevel :: "16 word"
  edRank :: "16 word"

definition writeSemanticBinaryNode :: "node_record \<Rightarrow> string" where
  "writeSemanticBinaryNode n =
     put64 (ndCapturedAtUnixNano n) @ put64 (ndVectorOffset n) @ put64 (ndEdgeOffset n) @ put64 (ndStringOffset n)
     @ put32 (ndEdgeCount n) @ put32 (ndStringLength n) @ put16 (ndMaxLevel n) @ replicate 22 nul"

definition readNode :: "string \<Rightarrow> node_record" where
  "readNode raw =
     \<lparr>ndCapturedAtUnixNano = get64 (slice 0 8 raw), ndVectorOffset = get64 (slice 8 16 raw),
      ndEdgeOffset = get64 (slice 16 24 raw), ndStringOffset = get64 (slice 24 32 raw),
      ndEdgeCount = get32 (slice 32 36 raw), ndStringLength = get32 (slice 36 40 raw),
      ndMaxLevel = get16 (slice 40 42 raw)\<rparr>"

definition writeSemanticBinaryEdge :: "edge_record \<Rightarrow> string" where
  "writeSemanticBinaryEdge e = put32 (edNeighbor e) @ put16 (edLevel e) @ put16 (edRank e)"

definition readEdge :: "string \<Rightarrow> edge_record" where
  "readEdge raw =
     \<lparr>edNeighbor = get32 (slice 0 4 raw), edLevel = get16 (slice 4 6 raw), edRank = get16 (slice 6 8 raw)\<rparr>"

type_synonym vector = "float32 list"

definition writeSemanticBinaryVector :: "int \<Rightarrow> vector \<Rightarrow> string index_result" where
  "writeSemanticBinaryVector dim v = (if int (length v) \<noteq> dim then Inl IndexDecode else Inr (concat (map put32 v)))"

text \<open>The \<open>n\<close> records of a size that a string of bytes holds.\<close>

definition records :: "nat \<Rightarrow> nat \<Rightarrow> string \<Rightarrow> string list" where
  "records w n raw = map (\<lambda>i. slice (i * w) (i * w + w) raw) [0..<n]"

section \<open>Metadata\<close>

record semantic_asset =
  saSourceKey :: string
  saID :: string
  saMediaType :: string
  saFilename :: string
  saCapturedAt :: gotime
  saDuration :: "string option"
  saVector :: vector
  saMaxLevel :: int

definition encodeSemanticBinaryMetadata :: "semantic_asset \<Rightarrow> string" where
  "encodeSemanticBinaryMetadata a =
     (let durationLength = (case saDuration a of
            None \<Rightarrow> semanticBinaryIndexNoDuration | Some d \<Rightarrow> word_of_nat (length d));
          duration = (case saDuration a of None \<Rightarrow> [] | Some d \<Rightarrow> d)
      in put32 (word_of_nat (length (saID a))) @ put32 (word_of_nat (length (saMediaType a)))
         @ put32 (word_of_nat (length (saFilename a))) @ put32 durationLength
         @ saID a @ saMediaType a @ saFilename a @ duration)"

definition decodeSemanticBinaryMetadata :: "string \<Rightarrow> string \<Rightarrow> node_record \<Rightarrow> semantic_asset index_result" where
  "decodeSemanticBinaryMetadata raw sourceKey node =
     (if length raw < 16 then Inl IndexDecode
      else
        let idLength = unat (get32 (slice 0 4 raw));
            mediaTypeLength = unat (get32 (slice 4 8 raw));
            filenameLength = unat (get32 (slice 8 12 raw));
            durationLength = get32 (slice 12 16 raw);
            media = 16 + idLength; filename = media + mediaTypeLength; duration = filename + filenameLength
        in if length raw < duration then Inl IndexDecode
           else
             let asset = \<lparr>saSourceKey = sourceKey, saID = slice 16 media raw,
                   saMediaType = slice media filename raw, saFilename = slice filename duration raw,
                   saCapturedAt = ndCapturedAtUnixNano node, saDuration = None, saVector = [],
                   saMaxLevel = int (unat (ndMaxLevel node))\<rparr>
             in if durationLength = semanticBinaryIndexNoDuration then Inr asset
                else if length raw < duration + unat durationLength then Inl IndexDecode
                else Inr (asset\<lparr>saDuration := Some (slice duration (duration + unat durationLength) raw)\<rparr>))"

section \<open>Reading a file\<close>

record index_reader =
  rdFile :: string
  rdHeader :: index_header
  rdNodes :: "node_record list"

text \<open>The end of a section that a node refers to has to exist and to lie before the next section.\<close>

definition section_within :: "int \<Rightarrow> int \<Rightarrow> int \<Rightarrow> int \<Rightarrow> bool" where
  "section_within offset n width limit \<longleftrightarrow>
     (case semanticBinaryCheckedSectionEnd offset n width of None \<Rightarrow> False | Some e \<Rightarrow> e \<le> limit)"

definition validateSemanticBinaryNodeLayout :: "index_header \<Rightarrow> node_record \<Rightarrow> int \<Rightarrow> int \<Rightarrow> bool" where
  "validateSemanticBinaryNodeLayout h node ordinal fileSize \<longleftrightarrow>
     semanticBinaryCheckedSectionEnd (hdVectorOffset h) ordinal (hdVectorStride h) = Some (ndVectorOffset node)
     \<and> section_within (ndVectorOffset node) 1 (hdVectorStride h) (hdEdgeOffset h)
     \<and> hdEdgeOffset h \<le> ndEdgeOffset node
     \<and> section_within (ndEdgeOffset node) (int (unat (ndEdgeCount node))) (int semanticBinaryIndexEdgeRecordSize)
         (hdStringOffset h)
     \<and> hdStringOffset h \<le> ndStringOffset node
     \<and> section_within (ndStringOffset node) (int (unat (ndStringLength node))) 1 fileSize"

fun validateNodes :: "index_header \<Rightarrow> int \<Rightarrow> int \<Rightarrow> node_record list \<Rightarrow> bool" where
  "validateNodes h fileSize ordinal [] = True"
| "validateNodes h fileSize ordinal (node # nodes) =
     (validateSemanticBinaryNodeLayout h node ordinal fileSize \<and> validateNodes h fileSize (ordinal + 1) nodes)"

definition readHeaderAndNodes :: "(string \<Rightarrow> index_header option) \<Rightarrow> string \<Rightarrow> index_reader index_result" where
  "readHeaderAndNodes ofJSON f =
     (case readSemanticBinaryIndexHeaderFromFile ofJSON f of
        Inl e \<Rightarrow> Inl e
      | Inr h \<Rightarrow>
          if \<not> validateSemanticBinaryIndexLayout h (int (length f)) then Inl IndexUnavailable
          else
            let n = nat (hdNodeCount h) in
            case readAt f (n * semanticBinaryIndexNodeRecordSize) (hdNodeOffset h) of
              None \<Rightarrow> Inl IndexIO
            | Some rawNodes \<Rightarrow>
                let nodes = map readNode (records semanticBinaryIndexNodeRecordSize n rawNodes) in
                if validateNodes h (int (length f)) 0 nodes
                then Inr \<lparr>rdFile = f, rdHeader = h, rdNodes = nodes\<rparr>
                else Inl IndexUnavailable)"

definition openSemanticBinaryIndexFileForGeneration ::
    "(string \<Rightarrow> index_header option) \<Rightarrow> string \<Rightarrow> index_profile \<Rightarrow> string option \<Rightarrow> index_reader index_result" where
  "openSemanticBinaryIndexFileForGeneration ofJSON sourceKey profile file =
     (case file of
        None \<Rightarrow> Inl IndexUnavailable
      | Some f \<Rightarrow>
          (case readHeaderAndNodes ofJSON f of
             Inl e \<Rightarrow> Inl e
           | Inr r \<Rightarrow>
               if validateSemanticBinaryIndexHeaderIdentity (rdHeader r) sourceKey profile
               then Inr r else Inl IndexUnavailable))"

definition edgeRecords :: "index_reader \<Rightarrow> nat \<Rightarrow> edge_record list index_result" where
  "edgeRecords r ordinal =
     (if length (rdNodes r) \<le> ordinal then Inl IndexUnavailable
      else
        let node = rdNodes r ! ordinal; n = unat (ndEdgeCount node) in
        if n = 0 then Inr []
        else case readAt (rdFile r) (n * semanticBinaryIndexEdgeRecordSize) (ndEdgeOffset node) of
          None \<Rightarrow> Inl IndexIO
        | Some raw \<Rightarrow> Inr (map readEdge (records semanticBinaryIndexEdgeRecordSize n raw)))"

definition neighborOrdinals :: "index_reader \<Rightarrow> nat \<Rightarrow> nat \<Rightarrow> nat list index_result" where
  "neighborOrdinals r ordinal level =
     (case edgeRecords r ordinal of
        Inl e \<Rightarrow> Inl e
      | Inr es \<Rightarrow> Inr (map (\<lambda>e. unat (edNeighbor e)) (filter (\<lambda>e. unat (edLevel e) = level) es)))"

definition readVectorBytes :: "index_reader \<Rightarrow> nat \<Rightarrow> string index_result" where
  "readVectorBytes r ordinal =
     (if length (rdNodes r) \<le> ordinal then Inl IndexUnavailable
      else case readAt (rdFile r) (nat (hdVectorStride (rdHeader r))) (ndVectorOffset (rdNodes r ! ordinal)) of
        None \<Rightarrow> Inl IndexIO
      | Some raw \<Rightarrow> if hdPrecision (rdHeader r) \<noteq> semanticSearchIndexPrecision then Inl IndexUnavailable else Inr raw)"

definition vectorForOrdinal :: "index_reader \<Rightarrow> nat \<Rightarrow> vector index_result" where
  "vectorForOrdinal r ordinal =
     (case readVectorBytes r ordinal of
        Inl e \<Rightarrow> Inl e
      | Inr raw \<Rightarrow> Inr (map get32 (records 4 (nat (hdEmbeddingDim (rdHeader r))) raw)))"

text \<open>The score of a node; addition and multiplication of \<open>float32\<close> are parameters.\<close>

definition dotOrdinalWithBuffer ::
    "(float32 \<Rightarrow> float32 \<Rightarrow> float32) \<Rightarrow> (float32 \<Rightarrow> float32 \<Rightarrow> float32) \<Rightarrow> index_reader \<Rightarrow> nat \<Rightarrow> vector \<Rightarrow>
     float32 index_result" where
  "dotOrdinalWithBuffer fadd fmul r ordinal query =
     (case readVectorBytes r ordinal of
        Inl e \<Rightarrow> Inl e
      | Inr raw \<Rightarrow>
          let dim = min (length query) (nat (hdEmbeddingDim (rdHeader r))) in
          Inr (fold (\<lambda>(q, v) sum. fadd sum (fmul q v)) (zip query (map get32 (records 4 dim raw))) 0))"

definition assetForOrdinal :: "index_reader \<Rightarrow> nat \<Rightarrow> semantic_asset index_result" where
  "assetForOrdinal r ordinal =
     (if length (rdNodes r) \<le> ordinal then Inl IndexUnavailable
      else
        let node = rdNodes r ! ordinal in
        case readAt (rdFile r) (unat (ndStringLength node)) (ndStringOffset node) of
          None \<Rightarrow> Inl IndexIO
        | Some raw \<Rightarrow>
            (case decodeSemanticBinaryMetadata raw (hdSourceKey (rdHeader r)) node of
               Inl e \<Rightarrow> Inl e
             | Inr asset \<Rightarrow>
                 (case vectorForOrdinal r ordinal of
                    Inl e \<Rightarrow> Inl e
                  | Inr v \<Rightarrow> Inr (asset\<lparr>saVector := v\<rparr>))))"

definition assetIDForOrdinal :: "index_reader \<Rightarrow> nat \<Rightarrow> string index_result" where
  "assetIDForOrdinal r ordinal =
     (if length (rdNodes r) \<le> ordinal then Inl IndexUnavailable
      else
        let node = rdNodes r ! ordinal in
        if unat (ndStringLength node) < 16 then Inl IndexUnavailable
        else case readAt (rdFile r) 4 (ndStringOffset node) of
          None \<Rightarrow> Inl IndexIO
        | Some header \<Rightarrow>
            let idLength = unat (get32 header) in
            if idLength = 0 \<or> unat (ndStringLength node) - 16 < idLength then Inl IndexUnavailable
            else case readAt (rdFile r) idLength (add64 (ndStringOffset node) 16) of
              None \<Rightarrow> Inl IndexIO
            | Some raw \<Rightarrow> Inr raw)"

text \<open>\<open>validateSemanticBinaryFileSize\<close> of \<open>semantic_index_check.go\<close>.\<close>

definition validateSemanticBinaryFileSize :: "int \<Rightarrow> index_header \<Rightarrow> node_record list \<Rightarrow> bool" where
  "validateSemanticBinaryFileSize fileSize h nodes \<longleftrightarrow>
     fold (\<lambda>node minSize.
         let vectorEnd = add64 (ndVectorOffset node) (hdVectorStride h);
             minSize = (if minSize < vectorEnd then vectorEnd else minSize);
             edgeEnd = add64 (ndEdgeOffset node) (int (unat (ndEdgeCount node)) * int semanticBinaryIndexEdgeRecordSize);
             minSize = (if minSize < edgeEnd then edgeEnd else minSize);
             stringEnd = add64 (ndStringOffset node) (int (unat (ndStringLength node)))
         in if minSize < stringEnd then stringEnd else minSize)
       nodes (hdStringOffset h) \<le> fileSize"

end
