(* ===== verification/Semantic_Builder.thy ===== *)
theory Semantic_Builder
  imports Semantic_File
begin

text \<open>
  The builder of a semantic index (\<open>internal/catalog/semantic_index_builder.go\<close>): nodes are
  inserted one after the other in a layered graph of nearest neighbours, in transactions of 128
  nodes; a chain of edges is then forced into level 0, and the graph is written as a file. The
  tables of the build database are lists of rows. The SIMD dot product, the payload that holds the
  vector of a node, and \<open>sort.Slice\<close>, which leaves the order of equal elements open, are the
  environment. Contexts and leases do not interrupt a call here, and a cached vector is the vector
  of the payload.
\<close>

section \<open>State\<close>

record builder_node =
  bnAssetID :: string
  bnCapturedAtNS :: int
  bnMaxLevel :: nat
  bnMetadata :: string

record builder_edge =
  beSource :: nat
  beLevel :: nat
  beNeighbor :: nat
  beRank :: nat
  beSimilarity :: float32

text \<open>\<open>bdEntry\<close> holds \<open>entry_ordinal\<close> and \<open>entry_level\<close>, \<open>None\<close> where the table has \<open>-1\<close>.\<close>

record builder =
  bdNodes :: "builder_node list"
  bdEdges :: "builder_edge list"
  bdNext :: nat
  bdChainNext :: nat
  bdEntry :: "(nat \<times> nat) option"
  bdReady :: bool

record build_env =
  envDot :: "vector \<Rightarrow> vector \<Rightarrow> float32"
  envPayload :: "nat \<Rightarrow> vector option"
  envSort :: "(scored \<Rightarrow> scored \<Rightarrow> bool) \<Rightarrow> scored list \<Rightarrow> scored list"

datatype build_error = NodeMissing | VectorUnavailable | ConstraintFailed | EdgeOutOfRange | WriteFailed

type_synonym 'a build_result = "(build_error, 'a) result"

definition semanticHNSWMaxNeighbors :: nat where "semanticHNSWMaxNeighbors = 16"
definition semanticHNSWMaxLevel :: nat where "semanticHNSWMaxLevel = 5"
definition semanticHNSWEfConstruction :: nat where "semanticHNSWEfConstruction = 192"
definition semanticIndexBuilderTransactionSize :: nat where "semanticIndexBuilderTransactionSize = 128"

section \<open>Population\<close>

text \<open>The level of an asset: the leading bytes of the digest of its id that have two zero bits at the end.\<close>

fun hnsw_level :: "nat \<Rightarrow> string \<Rightarrow> nat" where
  "hnsw_level level [] = level"
| "hnsw_level level (c # cs) =
     (if level < semanticHNSWMaxLevel then
        (if (of_char c :: nat) mod 4 \<noteq> 0 then level else hnsw_level (level + 1) cs)
      else level)"

definition semanticHNSWLevel :: "(string \<Rightarrow> string) \<Rightarrow> string \<Rightarrow> nat" where
  "semanticHNSWLevel sha256 assetID = hnsw_level 0 (sha256 assetID)"

text \<open>The assets come in the order of the query, the latest first; their ids are unique in the table.\<close>

definition populate :: "(string \<Rightarrow> string) \<Rightarrow> semantic_asset list \<Rightarrow> builder build_result" where
  "populate sha256 assets =
     (if \<not> distinct (map saID assets) then Inl ConstraintFailed
      else Inr \<lparr>bdNodes = map (\<lambda>a. \<lparr>bnAssetID = saID a, bnCapturedAtNS = saCapturedAt a,
              bnMaxLevel = semanticHNSWLevel sha256 (saID a), bnMetadata = encodeSemanticBinaryMetadata a\<rparr>) assets,
            bdEdges = [], bdNext = 0, bdChainNext = 0, bdEntry = None, bdReady = False\<rparr>)"

section \<open>Rows of the graph\<close>

definition edges :: "builder_edge list \<Rightarrow> nat \<Rightarrow> nat \<Rightarrow> builder_edge list" where
  "edges E source level =
     sort_key beRank (sort_key beNeighbor (filter (\<lambda>e. beSource e = source \<and> beLevel e = level) E))"

text \<open>An insertion fails on the primary key, and on a similarity that is not a number, which is stored as NULL.\<close>

definition insertEdge :: "builder_edge \<Rightarrow> builder_edge list \<Rightarrow> builder_edge list build_result" where
  "insertEdge e E =
     (if f32_nan (beSimilarity e)
         \<or> list_ex (\<lambda>d. beSource d = beSource e \<and> beLevel d = beLevel e \<and> beNeighbor d = beNeighbor e) E
      then Inl ConstraintFailed else Inr (E @ [e]))"

fun insertEdges :: "nat \<Rightarrow> nat \<Rightarrow> nat \<Rightarrow> scored list \<Rightarrow> builder_edge list \<Rightarrow> builder_edge list build_result" where
  "insertEdges source level rank [] E = Inr E"
| "insertEdges source level rank (x # xs) E =
     (if scOrdinal x = source then insertEdges source level (rank + 1) xs E
      else case insertEdge \<lparr>beSource = source, beLevel = level, beNeighbor = scOrdinal x, beRank = rank,
             beSimilarity = scSimilarity x\<rparr> E of
        Inl e \<Rightarrow> Inl e
      | Inr E \<Rightarrow> insertEdges source level (rank + 1) xs E)"

definition replaceEdges :: "nat \<Rightarrow> nat \<Rightarrow> scored list \<Rightarrow> builder_edge list \<Rightarrow> builder_edge list build_result" where
  "replaceEdges source level selected E =
     insertEdges source level 0 selected (filter (\<lambda>e. \<not> (beSource e = source \<and> beLevel e = level)) E)"

definition more_similar :: "scored \<Rightarrow> scored \<Rightarrow> bool" where
  "more_similar a b \<longleftrightarrow> f32_less (scSimilarity b) (scSimilarity a)"

text \<open>The neighbours that a node keeps when a candidate is added.\<close>

definition prune :: "build_env \<Rightarrow> scored list \<Rightarrow> scored \<Rightarrow> bool \<Rightarrow> scored list" where
  "prune env present candidate force =
     (let updated = map (\<lambda>x. if scOrdinal x = scOrdinal candidate
            then x\<lparr>scSimilarity := scSimilarity candidate\<rparr> else x) present;
          found = list_ex (\<lambda>x. scOrdinal x = scOrdinal candidate) present;
          sorted = envSort env scored_less (if found then updated else updated @ [candidate])
      in if semanticHNSWMaxNeighbors < length sorted then
           (if force then
              envSort env more_similar
                (take (semanticHNSWMaxNeighbors - 1) (filter (\<lambda>x. scOrdinal x \<noteq> scOrdinal candidate) sorted)
                 @ [candidate])
            else take semanticHNSWMaxNeighbors sorted)
         else sorted)"

definition addPrunedEdge ::
    "build_env \<Rightarrow> nat \<Rightarrow> nat \<Rightarrow> scored \<Rightarrow> bool \<Rightarrow> builder_edge list \<Rightarrow> builder_edge list build_result" where
  "addPrunedEdge env source level candidate force E =
     replaceEdges source level
       (prune env (map (\<lambda>e. \<lparr>scOrdinal = beNeighbor e, scSimilarity = beSimilarity e\<rparr>) (edges E source level))
          candidate force) E"

section \<open>Search while building\<close>

text \<open>The vector of a node; a node or a payload that is missing is an error.\<close>

definition vectorOf :: "build_env \<Rightarrow> builder \<Rightarrow> nat \<Rightarrow> vector build_result" where
  "vectorOf env b i =
     (if length (bdNodes b) \<le> i then Inl NodeMissing
      else case envPayload env i of None \<Rightarrow> Inl VectorUnavailable | Some v \<Rightarrow> Inr v)"

definition similarity :: "build_env \<Rightarrow> builder \<Rightarrow> vector \<Rightarrow> nat \<Rightarrow> scored build_result" where
  "similarity env b query i =
     (case vectorOf env b i of
        Inl e \<Rightarrow> Inl e | Inr v \<Rightarrow> Inr \<lparr>scOrdinal = i, scSimilarity = envDot env query v\<rparr>)"

fun scanEdges :: "build_env \<Rightarrow> builder \<Rightarrow> vector \<Rightarrow> builder_edge list \<Rightarrow> scored \<Rightarrow> bool \<Rightarrow> (scored \<times> bool) build_result" where
  "scanEdges env b query [] current improved = Inr (current, improved)"
| "scanEdges env b query (e # es) current improved =
     (case similarity env b query (beNeighbor e) of
        Inl err \<Rightarrow> Inl err
      | Inr x \<Rightarrow>
          if f32_less (scSimilarity current) (scSimilarity x)
             \<or> f32_equal (scSimilarity x) (scSimilarity current) \<and> scOrdinal x < scOrdinal current
          then scanEdges env b query es x True
          else scanEdges env b query es current improved)"

definition closer_nodes :: "build_env \<Rightarrow> builder \<Rightarrow> vector \<Rightarrow> scored \<Rightarrow> nat set" where
  "closer_nodes env b query c =
     {i. i < length (bdNodes b) \<and> (\<exists>x. similarity env b query i = Inr x \<and> scored_less x c)}"

lemma scored_less_trans: "scored_less a b \<Longrightarrow> scored_less b c \<Longrightarrow> scored_less a c"
  by (auto simp: scored_less_def f32_equal_def f32_less_def split: if_splits)

lemma scored_less_irrefl [simp]: "\<not> scored_less a a"
  by (auto simp: scored_less_def f32_equal_def f32_less_def)

lemma closer_iff:
  "f32_less (scSimilarity c) (scSimilarity x)
     \<or> f32_equal (scSimilarity x) (scSimilarity c) \<and> scOrdinal x < scOrdinal c \<longleftrightarrow> scored_less x c"
  by (auto simp: scored_less_def f32_equal_def f32_less_def)

lemma finite_closer_nodes [simp]: "finite (closer_nodes env b query c)"
  by (simp add: closer_nodes_def)

lemma similarity_in_range: "similarity env b query i = Inr x \<Longrightarrow> i < length (bdNodes b) \<and> scOrdinal x = i"
  by (auto simp: similarity_def vectorOf_def split: if_splits option.splits)

lemma scanEdges_improves:
  "scanEdges env b query es c m = Inr (c', m') \<Longrightarrow>
     (m' \<longrightarrow> m \<or> scored_less c' c) \<and>
     (c' = c \<or> scored_less c' c \<and> (\<exists>e\<in>set es. similarity env b query (beNeighbor e) = Inr c'))"
proof (induction es arbitrary: c m)
  case (Cons e es)
  then show ?case by (fastforce simp: closer_iff split: sum.splits if_splits dest: scored_less_trans)
qed simp

function greedyNearestLoop :: "build_env \<Rightarrow> builder \<Rightarrow> vector \<Rightarrow> nat \<Rightarrow> scored \<Rightarrow> nat build_result" where
  "greedyNearestLoop env b query level current =
     (case scanEdges env b query (edges (bdEdges b) (scOrdinal current) level) current False of
        Inl e \<Rightarrow> Inl e
      | Inr (c, improved) \<Rightarrow> if improved then greedyNearestLoop env b query level c else Inr (scOrdinal c))"
  by pat_completeness auto
termination
proof (relation "measure (\<lambda>(env, b, query, level, c). card (closer_nodes env b query c))")
  fix env b query level c p c' m
  assume "scanEdges env b query (edges (bdEdges b) (scOrdinal c) level) c False = Inr p" and "(c', m) = p" and m
  then have less: "scored_less c' c" and "\<exists>i. similarity env b query i = Inr c'"
    using scanEdges_improves [of env b query "edges (bdEdges b) (scOrdinal c) level" c False c' m] by auto
  then obtain i where "similarity env b query i = Inr c'" by blast
  with less have "i \<in> closer_nodes env b query c" "i \<notin> closer_nodes env b query c'"
      "closer_nodes env b query c' \<subseteq> closer_nodes env b query c"
    using similarity_in_range scored_less_trans by (auto simp: closer_nodes_def)
  then have "closer_nodes env b query c' \<subset> closer_nodes env b query c" by blast
  then show "((env, b, query, level, c'), (env, b, query, level, c))
      \<in> measure (\<lambda>(env, b, query, level, c). card (closer_nodes env b query c))"
    by (auto intro: psubset_card_mono)
qed simp

declare greedyNearestLoop.simps [simp del]

definition greedyNearest :: "build_env \<Rightarrow> builder \<Rightarrow> vector \<Rightarrow> nat \<Rightarrow> nat \<Rightarrow> nat build_result" where
  "greedyNearest env b query current level =
     (case similarity env b query current of Inl e \<Rightarrow> Inl e | Inr c \<Rightarrow> greedyNearestLoop env b query level c)"

text \<open>The neighbours that were not visited; the visited nodes grow with each.\<close>

fun unvisited :: "builder_edge list \<Rightarrow> nat set \<Rightarrow> nat list \<times> nat set" where
  "unvisited [] visited = ([], visited)"
| "unvisited (e # es) visited =
     (if beNeighbor e \<in> visited then unvisited es visited
      else let (ns, v) = unvisited es (insert (beNeighbor e) visited) in (beNeighbor e # ns, v))"

fun pushAll :: "build_env \<Rightarrow> builder \<Rightarrow> vector \<Rightarrow> nat list \<Rightarrow> scored list \<Rightarrow> scored list build_result" where
  "pushAll env b query [] candidates = Inr candidates"
| "pushAll env b query (n # ns) candidates =
     (case similarity env b query n of
        Inl e \<Rightarrow> Inl e | Inr x \<Rightarrow> pushAll env b query ns (heap_push scored_less x candidates))"

text \<open>The map of results as a list of pairs.\<close>

fun putResult :: "scored \<Rightarrow> scored list \<Rightarrow> scored list" where
  "putResult x [] = [x]"
| "putResult x (y # ys) =
     (if scOrdinal y = scOrdinal x
      then (if f32_less (scSimilarity y) (scSimilarity x) then x # ys else y # ys)
      else y # putResult x ys)"

lemma unvisited_result:
  "unvisited es visited = (ns, v) \<Longrightarrow>
     v = visited \<union> beNeighbor ` set es \<and> set ns = beNeighbor ` set es - visited \<and> distinct ns"
proof (induction es arbitrary: visited ns v)
  case (Cons e es)
  then show ?case by (fastforce split: if_splits prod.splits)
qed simp

lemma pushAll_elements:
  "pushAll env b query ns c = Inr c' \<Longrightarrow>
     length c' = length c + length ns \<and> (\<forall>n\<in>set ns. n < length (bdNodes b))"
proof (induction ns arbitrary: c)
  case (Cons n ns)
  have "length (heap_push scored_less x c) = Suc (length c)" for x
    using heap_push_elements [of scored_less x c] by (metis size_mset size_add_mset)
  with Cons show ?case by (auto split: sum.splits dest: similarity_in_range)
qed simp

function searchLayerLoop :: "build_env \<Rightarrow> builder \<Rightarrow> vector \<Rightarrow> nat \<Rightarrow> nat \<Rightarrow> scored list \<Rightarrow> nat set \<Rightarrow> scored list \<Rightarrow>
    scored list build_result" where
  "searchLayerLoop env b query level limit candidates visited results =
     (if candidates = [] \<or> max limit semanticHNSWMaxNeighbors < card visited then Inr results
      else
        let (item, rest) = heap_pop scored_less candidates;
            results = putResult item results;
            (ns, visited) = unvisited (edges (bdEdges b) (scOrdinal item) level) visited
        in case pushAll env b query ns rest of
             Inl e \<Rightarrow> Inl e
           | Inr candidates \<Rightarrow> searchLayerLoop env b query level limit candidates visited results)"
  by pat_completeness auto
termination
proof (relation "measure (\<lambda>(env, b, query, level, limit, candidates, visited, results).
    2 * card ({..<length (bdNodes b)} - visited) + length candidates)")
  fix env b query level limit candidates visited results p item rest r q ns visited' candidates'
  assume more: "\<not> (candidates = [] \<or> max limit semanticHNSWMaxNeighbors < card visited)"
    and "p = heap_pop scored_less candidates" and "(item, rest) = p" and "r = putResult item results"
    and q: "q = unvisited (edges (bdEdges b) (scOrdinal item) level) visited" "(ns, visited') = q"
    and push: "pushAll env b query ns rest = Inr candidates'"
  then have "mset candidates = add_mset item (mset rest)" using heap_pop_elements [of candidates scored_less item rest] by simp
  then have rest: "length candidates = Suc (length rest)" by (metis size_mset size_add_mset)
  note u = unvisited_result [of "edges (bdEdges b) (scOrdinal item) level" visited ns visited'] q
  have ns: "set ns \<subseteq> {..<length (bdNodes b)} - visited" "visited \<union> set ns \<subseteq> visited'" "distinct ns"
    using u pushAll_elements [OF push] by auto
  have "card ({..<length (bdNodes b)} - visited') + length ns \<le> card ({..<length (bdNodes b)} - visited)"
  proof -
    have "card ({..<length (bdNodes b)} - visited') \<le> card ({..<length (bdNodes b)} - visited - set ns)"
      using ns(2) by (intro card_mono) auto
    also have "\<dots> = card ({..<length (bdNodes b)} - visited) - length ns"
      using ns(1,3) by (simp add: card_Diff_subset distinct_card)
    finally show ?thesis using card_mono [OF _ ns(1)] ns(3) by (simp add: distinct_card)
  qed
  then show "((env, b, query, level, limit, candidates', visited', r), (env, b, query, level, limit, candidates, visited, results))
      \<in> measure (\<lambda>(env, b, query, level, limit, candidates, visited, results).
        2 * card ({..<length (bdNodes b)} - visited) + length candidates)"
    using rest pushAll_elements [OF push] by simp
qed simp

declare searchLayerLoop.simps [simp del]

definition searchLayer :: "build_env \<Rightarrow> builder \<Rightarrow> vector \<Rightarrow> nat \<Rightarrow> nat \<Rightarrow> nat \<Rightarrow> scored list build_result" where
  "searchLayer env b query entry level limit =
     (case similarity env b query entry of
        Inl e \<Rightarrow> Inl e
      | Inr x \<Rightarrow>
          (case searchLayerLoop env b query level limit [x] {entry} [] of
             Inl e \<Rightarrow> Inl e
           | Inr results \<Rightarrow> Inr (envSort env scored_less results)))"

section \<open>Insertion\<close>

definition recordInsertion :: "nat \<Rightarrow> nat \<Rightarrow> nat \<Rightarrow> builder \<Rightarrow> builder" where
  "recordInsertion entryOrdinal entryLevel nextOrdinal b = b\<lparr>bdEntry := Some (entryOrdinal, entryLevel), bdNext := nextOrdinal\<rparr>"

text \<open>The levels above the node's: \<open>n\<close> steps down from \<open>level + n\<close>.\<close>

fun approach :: "build_env \<Rightarrow> builder \<Rightarrow> vector \<Rightarrow> nat \<Rightarrow> nat \<Rightarrow> nat \<Rightarrow> nat build_result" where
  "approach env b query level 0 current = Inr current"
| "approach env b query level (Suc n) current =
     (case greedyNearest env b query current (level + Suc n) of
        Inl e \<Rightarrow> Inl e | Inr c \<Rightarrow> approach env b query level n c)"

fun backLinks :: "build_env \<Rightarrow> nat \<Rightarrow> nat \<Rightarrow> nat \<Rightarrow> scored list \<Rightarrow> builder_edge list \<Rightarrow> builder_edge list build_result" where
  "backLinks env i level rank [] E = Inr E"
| "backLinks env i level rank (x # xs) E =
     (case addPrunedEdge env (scOrdinal x) level \<lparr>scOrdinal = i, scSimilarity = scSimilarity x\<rparr> (rank = 0) E of
        Inl e \<Rightarrow> Inl e | Inr E \<Rightarrow> backLinks env i level (rank + 1) xs E)"

text \<open>One level of an insertion: the nearest nodes that a search finds are linked both ways.\<close>

definition linkLevel :: "build_env \<Rightarrow> nat \<Rightarrow> vector \<Rightarrow> nat \<Rightarrow> nat \<Rightarrow> builder \<Rightarrow> (nat \<times> builder) build_result" where
  "linkLevel env i query level current b =
     (case searchLayer env b query current level semanticHNSWEfConstruction of
        Inl e \<Rightarrow> Inl e
      | Inr found \<Rightarrow>
          let selected = take semanticHNSWMaxNeighbors found in
          case replaceEdges i level selected (bdEdges b) of
            Inl e \<Rightarrow> Inl e
          | Inr E \<Rightarrow>
              (case backLinks env i level 0 selected E of
                 Inl e \<Rightarrow> Inl e
               | Inr E \<Rightarrow> Inr (if selected = [] then current else scOrdinal (hd selected), b\<lparr>bdEdges := E\<rparr>)))"

text \<open>The levels below \<open>n\<close>, the highest first.\<close>

fun linkLevels :: "build_env \<Rightarrow> nat \<Rightarrow> vector \<Rightarrow> nat \<Rightarrow> nat \<Rightarrow> builder \<Rightarrow> builder build_result" where
  "linkLevels env i query 0 current b = Inr b"
| "linkLevels env i query (Suc level) current b =
     (case linkLevel env i query level current b of
        Inl e \<Rightarrow> Inl e | Inr (c, b) \<Rightarrow> linkLevels env i query level c b)"

definition insertNode :: "build_env \<Rightarrow> nat \<Rightarrow> builder \<Rightarrow> builder build_result" where
  "insertNode env i b =
     (if length (bdNodes b) \<le> i then Inl NodeMissing
      else
        let maxLevel = bnMaxLevel (bdNodes b ! i) in
        case bdEntry b of
          None \<Rightarrow> Inr (recordInsertion i maxLevel (i + 1) b)
        | Some (entryOrdinal, entryLevel) \<Rightarrow>
            (case vectorOf env b i of
               Inl e \<Rightarrow> Inl e
             | Inr query \<Rightarrow>
                 (case approach env b query maxLevel (entryLevel - maxLevel) entryOrdinal of
                    Inl e \<Rightarrow> Inl e
                  | Inr current \<Rightarrow>
                      (case linkLevels env i query (min maxLevel entryLevel + 1) current b of
                         Inl e \<Rightarrow> Inl e
                       | Inr b \<Rightarrow>
                           Inr (if entryLevel < maxLevel \<or> maxLevel = entryLevel \<and> i < entryOrdinal
                                then recordInsertion i maxLevel (i + 1) b
                                else recordInsertion entryOrdinal entryLevel (i + 1) b)))))"

section \<open>Transactions\<close>

fun each :: "(nat \<Rightarrow> builder \<Rightarrow> builder build_result) \<Rightarrow> nat list \<Rightarrow> builder \<Rightarrow> builder build_result" where
  "each f [] b = Inr b"
| "each f (i # is) b = (case f i b of Inl e \<Rightarrow> Inl e | Inr b \<Rightarrow> each f is b)"

definition prefetchOrdinalRange :: "build_env \<Rightarrow> builder \<Rightarrow> nat \<Rightarrow> nat \<Rightarrow> unit build_result" where
  "prefetchOrdinalRange env b start end =
     (if list_all (\<lambda>i. is_ok (vectorOf env b i)) [start..<end] then Inr () else Inl VectorUnavailable)"

text \<open>The chunks of \<open>Build\<close>: a chunk that fails is rolled back, those before it are kept.\<close>

definition chunkEnd :: "nat \<Rightarrow> nat \<Rightarrow> nat" where
  "chunkEnd start n = min (start + semanticIndexBuilderTransactionSize) n"

function insertChunks :: "build_env \<Rightarrow> nat \<Rightarrow> nat \<Rightarrow> builder \<Rightarrow> unit build_result \<times> builder" where
  "insertChunks env n start b =
     (if n \<le> start then (Inr (), b)
      else case prefetchOrdinalRange env b start (chunkEnd start n) of
        Inl e \<Rightarrow> (Inl e, b)
      | Inr _ \<Rightarrow>
          (case each (insertNode env) [start..<chunkEnd start n] b of
             Inl e \<Rightarrow> (Inl e, b)
           | Inr b \<Rightarrow> insertChunks env n (chunkEnd start n) b))"
  by pat_completeness auto
termination
  by (relation "measure (\<lambda>(env, n, start, b). n - start)")
    (auto simp: chunkEnd_def semanticIndexBuilderTransactionSize_def)

text \<open>The edges from a node to its neighbours in the order of the ordinals are forced into level 0.\<close>

fun chainEdges :: "build_env \<Rightarrow> nat \<Rightarrow> vector \<Rightarrow> nat list \<Rightarrow> builder \<Rightarrow> builder build_result" where
  "chainEdges env i v [] b = Inr b"
| "chainEdges env i v (n # ns) b =
     (case similarity env b v n of
        Inl e \<Rightarrow> Inl e
      | Inr x \<Rightarrow>
          (case addPrunedEdge env i 0 x True (bdEdges b) of
             Inl e \<Rightarrow> Inl e
           | Inr E \<Rightarrow> chainEdges env i v ns (b\<lparr>bdEdges := E\<rparr>)))"

definition chainNode :: "build_env \<Rightarrow> nat \<Rightarrow> nat \<Rightarrow> builder \<Rightarrow> builder build_result" where
  "chainNode env nodeCount i b =
     (case vectorOf env b i of
        Inl e \<Rightarrow> Inl e
      | Inr v \<Rightarrow>
          chainEdges env i v ((if i = 0 then [] else [i - 1]) @ (if i + 1 < nodeCount then [i + 1] else [])) b)"

function chainChunks :: "build_env \<Rightarrow> nat \<Rightarrow> nat \<Rightarrow> builder \<Rightarrow> unit build_result \<times> builder" where
  "chainChunks env n start b =
     (if n \<le> start then (Inr (), b)
      else case prefetchOrdinalRange env b (start - 1) (min (chunkEnd start n + 1) n) of
        Inl e \<Rightarrow> (Inl e, b)
      | Inr _ \<Rightarrow>
          (case each (chainNode env n) [start..<chunkEnd start n] b of
             Inl e \<Rightarrow> (Inl e, b)
           | Inr b \<Rightarrow> chainChunks env n (chunkEnd start n) (b\<lparr>bdChainNext := chunkEnd start n\<rparr>)))"
  by pat_completeness auto
termination
  by (relation "measure (\<lambda>(env, n, start, b). n - start)")
    (auto simp: chunkEnd_def semanticIndexBuilderTransactionSize_def)

declare insertChunks.simps [simp del] chainChunks.simps [simp del]

definition ensureLevelZeroChain :: "build_env \<Rightarrow> nat \<Rightarrow> builder \<Rightarrow> unit build_result \<times> builder" where
  "ensureLevelZeroChain env nodeCount b =
     (if nodeCount < 2 then (Inr (), b) else chainChunks env nodeCount (bdChainNext b) b)"

definition Build :: "build_env \<Rightarrow> builder \<Rightarrow> unit build_result \<times> builder" where
  "Build env b =
     (let n = length (bdNodes b) in
      case insertChunks env n (bdNext b) b of
        (Inl e, b) \<Rightarrow> (Inl e, b)
      | (Inr _, b) \<Rightarrow>
          if bdReady b then (Inr (), b)
          else case ensureLevelZeroChain env n b of
            (Inl e, b) \<Rightarrow> (Inl e, b)
          | (Inr _, b) \<Rightarrow> (Inr (), b\<lparr>bdReady := True\<rparr>))"

section \<open>Writing the file\<close>

text \<open>The rows of the edges in the order of the file: by source, then from the highest level, by rank.\<close>

definition edgesInOrder :: "builder_edge list \<Rightarrow> builder_edge list" where
  "edgesInOrder E =
     sort_key beSource (sort_key (\<lambda>e. - int (beLevel e)) (sort_key beRank (sort_key beNeighbor E)))"

text \<open>The records of the nodes; the offsets of edges and strings advance with each.\<close>

fun nodeRecords :: "index_header \<Rightarrow> builder_edge list \<Rightarrow> nat \<Rightarrow> int \<Rightarrow> int \<Rightarrow> builder_node list \<Rightarrow> node_record list" where
  "nodeRecords h E ordinal nextEdgeOffset nextStringOffset [] = []"
| "nodeRecords h E ordinal nextEdgeOffset nextStringOffset (node # nodes) =
     (let nodeEdges = length (filter (\<lambda>e. beSource e = ordinal) E) in
      \<lparr>ndCapturedAtUnixNano = bnCapturedAtNS node,
       ndVectorOffset = add64 (hdVectorOffset h) (int64 (int ordinal * hdVectorStride h)),
       ndEdgeOffset = nextEdgeOffset, ndStringOffset = nextStringOffset,
       ndEdgeCount = word_of_nat nodeEdges, ndStringLength = word_of_nat (length (bnMetadata node)),
       ndMaxLevel = word_of_nat (bnMaxLevel node)\<rparr>
      # nodeRecords h E (ordinal + 1)
          (add64 nextEdgeOffset (int64 (int nodeEdges * int semanticBinaryIndexEdgeRecordSize)))
          (add64 nextStringOffset (int (length (bnMetadata node)))) nodes)"

fun writeVectors :: "build_env \<Rightarrow> builder \<Rightarrow> int \<Rightarrow> nat list \<Rightarrow> string build_result" where
  "writeVectors env b dim [] = Inr []"
| "writeVectors env b dim (i # is) =
     (case vectorOf env b i of
        Inl e \<Rightarrow> Inl e
      | Inr v \<Rightarrow>
          (case writeSemanticBinaryVector dim v of
             Inl _ \<Rightarrow> Inl WriteFailed
           | Inr s \<Rightarrow> (case writeVectors env b dim is of Inl e \<Rightarrow> Inl e | Inr rest \<Rightarrow> Inr (s @ rest))))"

definition edge_in_range :: "builder_edge \<Rightarrow> bool" where
  "edge_in_range e \<longleftrightarrow> beNeighbor e \<le> 4294967295 \<and> beLevel e \<le> 65535 \<and> beRank e \<le> 65535"

definition writeEdges :: "builder_edge list \<Rightarrow> string build_result" where
  "writeEdges E =
     (if list_all edge_in_range E
      then Inr (concat (map (\<lambda>e. writeSemanticBinaryEdge \<lparr>edNeighbor = word_of_nat (beNeighbor e),
             edLevel = word_of_nat (beLevel e), edRank = word_of_nat (beRank e)\<rparr>) E))
      else Inl EdgeOutOfRange)"

definition binaryHeader :: "string \<Rightarrow> index_profile \<Rightarrow> int \<Rightarrow> string \<Rightarrow> builder \<Rightarrow> index_header" where
  "binaryHeader sourceKey profile generation builtAt b =
     (let nodeCount = int (length (bdNodes b)); edgeCount = int (length (bdEdges b));
          stride = semanticBinaryVectorStride (pfEmbeddingDim profile);
          nodeOffset = int semanticBinaryIndexHeaderBytes;
          vectorOffset = add64 nodeOffset (int64 (nodeCount * int semanticBinaryIndexNodeRecordSize));
          edgeOffset = add64 vectorOffset (int64 (nodeCount * stride));
          stringOffset = add64 edgeOffset (int64 (edgeCount * int semanticBinaryIndexEdgeRecordSize))
      in \<lparr>hdVersion = semanticBinaryIndexVersion, hdPrecision = semanticSearchIndexPrecision,
          hdSourceKey = sourceKey, hdModelID = pfModelID profile, hdVectorSpaceID = pfVectorSpaceID profile,
          hdEmbeddingDim = pfEmbeddingDim profile, hdIndexedVectorCount = nodeCount, hdBuiltAt = builtAt,
          hdAssetGeneration = generation, hdNodeCount = nodeCount, hdEdgeCount = edgeCount,
          hdNodeOffset = nodeOffset, hdVectorOffset = vectorOffset, hdEdgeOffset = edgeOffset,
          hdStringOffset = stringOffset, hdVectorStride = stride,
          hdNodeRecordSize = int semanticBinaryIndexNodeRecordSize,
          hdEdgeRecordSize = int semanticBinaryIndexEdgeRecordSize\<rparr>)"

text \<open>
  The bytes that \<open>WriteBinary\<close> publishes once the graph is built; the time of the build is its text,
  and the file is written in a temporary one that is renamed when nothing failed.
\<close>

definition fileBytes :: "(index_header \<Rightarrow> string) \<Rightarrow> build_env \<Rightarrow> index_header \<Rightarrow> builder \<Rightarrow> string build_result" where
  "fileBytes toJSON env h b =
     (case writeSemanticBinaryHeader toJSON h of
        Inl _ \<Rightarrow> Inl WriteFailed
      | Inr header \<Rightarrow>
          let nodes = concat (map writeSemanticBinaryNode
                (nodeRecords h (bdEdges b) 0 (hdEdgeOffset h) (hdStringOffset h) (bdNodes b)));
              file = header @ nodes
          in case writeVectors env b (hdEmbeddingDim h) [0..<length (bdNodes b)] of
               Inl e \<Rightarrow> Inl e
             | Inr vectors \<Rightarrow>
                 let file = write_at (nat (hdVectorOffset h)) vectors file in
                 case writeEdges (edgesInOrder (bdEdges b)) of
                   Inl e \<Rightarrow> Inl e
                 | Inr edgeBytes \<Rightarrow>
                     let file = write_at (nat (hdEdgeOffset h)) edgeBytes file in
                     Inr (write_at (nat (hdStringOffset h)) (concat (map bnMetadata (bdNodes b))) file))"

definition WriteBinary ::
    "(index_header \<Rightarrow> string) \<Rightarrow> build_env \<Rightarrow> string \<Rightarrow> index_profile \<Rightarrow> int \<Rightarrow> string \<Rightarrow> builder \<Rightarrow>
     string build_result \<times> builder" where
  "WriteBinary toJSON env sourceKey profile generation builtAt b =
     (case Build env b of
        (Inl e, b) \<Rightarrow> (Inl e, b)
      | (Inr _, b) \<Rightarrow> (fileBytes toJSON env (binaryHeader (trim_space sourceKey) profile generation builtAt b) b, b))"

end
