(* ===== verification/Semantic_Graph.thy ===== *)
theory Semantic_Graph
  imports Semantic_Builder
begin

text \<open>
  What holds of the graph that the builder makes: its rows stay well formed under every operation,
  every node keeps at most 16 neighbours on a level, and a build in transactions is a build in
  one go.
\<close>

section \<open>Well-formed graphs\<close>

abbreviation level_of :: "builder \<Rightarrow> nat \<Rightarrow> nat" where
  "level_of b i \<equiv> bnMaxLevel (bdNodes b ! i)"

definition at :: "nat \<Rightarrow> nat \<Rightarrow> builder_edge \<Rightarrow> bool" where
  "at source level e \<longleftrightarrow> beSource e = source \<and> beLevel e = level"

definition edge_key :: "builder_edge \<Rightarrow> nat \<times> nat \<times> nat" where
  "edge_key e = (beSource e, beLevel e, beNeighbor e)"

text \<open>An edge joins two different nodes below a bound, both of which are on its level.\<close>

definition edge_ok :: "(nat \<Rightarrow> nat) \<Rightarrow> nat \<Rightarrow> builder_edge \<Rightarrow> bool" where
  "edge_ok lv k e \<longleftrightarrow> beSource e < k \<and> beNeighbor e < k \<and> beSource e \<noteq> beNeighbor e
     \<and> beLevel e \<le> lv (beSource e) \<and> beLevel e \<le> lv (beNeighbor e) \<and> beRank e < semanticHNSWMaxNeighbors"

definition rows_ok :: "(nat \<Rightarrow> nat) \<Rightarrow> nat \<Rightarrow> builder_edge list \<Rightarrow> bool" where
  "rows_ok lv k E \<longleftrightarrow> (\<forall>e\<in>set E. edge_ok lv k e) \<and> distinct (map edge_key E)
     \<and> (\<forall>e\<in>set E. \<not> f32_nan (beSimilarity e))
     \<and> (\<forall>s l. length (filter (at s l) E) \<le> semanticHNSWMaxNeighbors)"

text \<open>The scored neighbours that a node may get on a level.\<close>

definition selection_ok :: "(nat \<Rightarrow> nat) \<Rightarrow> nat \<Rightarrow> nat \<Rightarrow> nat \<Rightarrow> scored list \<Rightarrow> bool" where
  "selection_ok lv k source level xs \<longleftrightarrow> distinct (map scOrdinal xs) \<and> length xs \<le> semanticHNSWMaxNeighbors
     \<and> (\<forall>x\<in>set xs. a_number x \<and> scOrdinal x < k \<and> scOrdinal x \<noteq> source \<and> level \<le> lv (scOrdinal x))"

section \<open>Replacing the edges of a node\<close>

fun rows :: "nat \<Rightarrow> nat \<Rightarrow> nat \<Rightarrow> scored list \<Rightarrow> builder_edge list" where
  "rows source level rank [] = []"
| "rows source level rank (x # xs) =
     \<lparr>beSource = source, beLevel = level, beNeighbor = scOrdinal x, beRank = rank, beSimilarity = scSimilarity x\<rparr>
     # rows source level (rank + 1) xs"

lemma length_rows [simp]: "length (rows s l k xs) = length xs"
  by (induction xs arbitrary: k) auto

lemma neighbors_rows [simp]: "map beNeighbor (rows s l k xs) = map scOrdinal xs"
  by (induction xs arbitrary: k) auto

lemma set_rows:
  "e \<in> set (rows s l k xs) \<Longrightarrow> beSource e = s \<and> beLevel e = l \<and> beRank e < k + length xs
     \<and> (\<exists>x\<in>set xs. beNeighbor e = scOrdinal x \<and> beSimilarity e = scSimilarity x)"
  by (induction xs arbitrary: k) fastforce+

lemma keys_rows: "map edge_key (rows s l k xs) = map (\<lambda>x. (s, l, scOrdinal x)) xs"
  by (induction xs arbitrary: k) (auto simp: edge_key_def)

lemma insertEdges_rows:
  assumes "distinct (map scOrdinal xs)" and "\<forall>x\<in>set xs. a_number x \<and> scOrdinal x \<noteq> source"
    and "\<forall>e\<in>set E. at source level e \<longrightarrow> beNeighbor e \<notin> scOrdinal ` set xs"
  shows "insertEdges source level k xs E = Inr (E @ rows source level k xs)"
  using assms
proof (induction xs arbitrary: E k)
  case (Cons x xs)
  let ?e = "\<lparr>beSource = source, beLevel = level, beNeighbor = scOrdinal x, beRank = k, beSimilarity = scSimilarity x\<rparr>"
  have "insertEdge ?e E = Inr (E @ [?e])"
    using Cons.prems by (auto simp: insertEdge_def a_number_def at_def list_ex_iff)
  moreover have "insertEdges source level (k + 1) xs (E @ [?e]) = Inr ((E @ [?e]) @ rows source level (k + 1) xs)"
    using Cons.prems by (intro Cons.IH) auto
  ultimately show ?case using Cons.prems(2) by simp
qed simp

lemma selected_at: "filter (\<lambda>e. beSource e = s \<and> beLevel e = l) E = filter (at s l) E"
  by (simp add: at_def [abs_def])

lemma replaceEdges_rows:
  assumes "selection_ok lv k source level xs"
  shows "replaceEdges source level xs E = Inr (filter (\<lambda>e. \<not> at source level e) E @ rows source level 0 xs)"
  unfolding replaceEdges_def at_def [symmetric]
  using assms by (intro insertEdges_rows) (auto simp: selection_ok_def)

lemma rows_ok_replace:
  assumes "rows_ok lv k E" and "selection_ok lv k source level xs" and "source < k" and "level \<le> lv source"
  shows "rows_ok lv k (filter (\<lambda>e. \<not> at source level e) E @ rows source level 0 xs)"
proof -
  let ?E = "filter (\<lambda>e. \<not> at source level e) E"
  note sel = assms(2) [unfolded selection_ok_def] note ok = assms(1) [unfolded rows_ok_def]
  have edge: "edge_ok lv k e \<and> \<not> f32_nan (beSimilarity e) \<and> at source level e" if e: "e \<in> set (rows source level 0 xs)" for e
  proof -
    from set_rows [OF e] obtain x where "beSource e = source" "beLevel e = level" "beRank e < length xs"
        "x \<in> set xs" "beNeighbor e = scOrdinal x" "beSimilarity e = scSimilarity x" by auto
    with sel assms(3,4) show ?thesis by (force simp: edge_ok_def a_number_def at_def)
  qed
  have "distinct (map edge_key ?E)" using ok by (simp add: distinct_map_filter)
  moreover have "distinct (map edge_key (rows source level 0 xs))"
    using sel by (simp add: keys_rows distinct_map inj_on_def)
  moreover have "edge_key ` set ?E \<inter> edge_key ` set (rows source level 0 xs) = {}"
    using edge by (auto simp: edge_key_def at_def)
  ultimately have keys: "distinct (map edge_key (?E @ rows source level 0 xs))" by simp
  have len: "length (filter (at s l) (?E @ rows source level 0 xs)) \<le> semanticHNSWMaxNeighbors" for s l
  proof (cases "s = source \<and> l = level")
    case True
    then have "filter (at s l) ?E = []" by (simp add: filter_empty_conv)
    moreover have "length (filter (at s l) (rows source level 0 xs)) \<le> length xs"
      using length_filter_le [of "at s l" "rows source level 0 xs"] by simp
    ultimately show ?thesis using sel by simp
  next
    case False
    then have "filter (at s l) (rows source level 0 xs) = []"
      using edge by (auto simp: filter_empty_conv at_def)
    moreover have "filter (at s l) ?E = filter (at s l) E"
      using False by (auto simp: at_def intro!: filter_cong)
    ultimately show ?thesis using ok by simp
  qed
  show ?thesis unfolding rows_ok_def using ok edge keys len by auto
qed

section \<open>Pruning\<close>

definition permutes :: "build_env \<Rightarrow> bool" where
  "permutes env \<longleftrightarrow> (\<forall>lt xs. mset (envSort env lt xs) = mset xs)"

lemma sorted_elements:
  assumes "permutes env"
  shows "set (envSort env lt xs) = set xs" and "length (envSort env lt xs) = length xs"
    and "distinct (map f (envSort env lt xs)) \<longleftrightarrow> distinct (map f xs)"
proof -
  have m: "mset (envSort env lt xs) = mset xs" using assms by (simp add: permutes_def)
  show "set (envSort env lt xs) = set xs" using m by (rule mset_eq_setD)
  show "length (envSort env lt xs) = length xs" using m by (rule mset_eq_length)
  have "mset (map f (envSort env lt xs)) = mset (map f xs)" using m by simp
  then show "distinct (map f (envSort env lt xs)) \<longleftrightarrow> distinct (map f xs)" by (rule mset_eq_imp_distinct_iff)
qed

lemma prune_ok:
  fixes force :: bool
  assumes "permutes env" and "distinct (map scOrdinal present)" and "\<forall>x\<in>set present. a_number x" and "a_number c"
  defines "kept \<equiv> prune env present c force"
  shows "distinct (map scOrdinal kept)" and "length kept \<le> semanticHNSWMaxNeighbors"
    and "scOrdinal ` set kept \<subseteq> insert (scOrdinal c) (scOrdinal ` set present)"
    and "\<forall>x\<in>set kept. a_number x"
    and "force \<Longrightarrow> scOrdinal c \<in> scOrdinal ` set kept"
    and "length present < semanticHNSWMaxNeighbors \<Longrightarrow>
      scOrdinal ` set kept = insert (scOrdinal c) (scOrdinal ` set present)"
proof -
  define u where "u = map (\<lambda>x. if scOrdinal x = scOrdinal c then x\<lparr>scSimilarity := scSimilarity c\<rparr> else x) present"
  let ?found = "list_ex (\<lambda>x. scOrdinal x = scOrdinal c) present"
  define all where "all = (if ?found then u else u @ [c])"
  define sorted where "sorted = envSort env scored_less all"
  define cut where "cut = take (semanticHNSWMaxNeighbors - 1) (filter (\<lambda>x. scOrdinal x \<noteq> scOrdinal c) sorted) @ [c]"
  have kept: "kept = (if semanticHNSWMaxNeighbors < length sorted
      then (if force then envSort env more_similar cut else take semanticHNSWMaxNeighbors sorted) else sorted)"
    unfolding kept_def prune_def Let_def sorted_def all_def cut_def u_def by (rule refl)
  have u: "map scOrdinal u = map scOrdinal present" by (simp add: u_def)
  then have us: "scOrdinal ` set u = scOrdinal ` set present" by (metis list.set_map)
  have un: "\<forall>x\<in>set u. a_number x" using assms(3,4) by (auto simp: u_def a_number_def)
  have ul: "length u = length present" by (simp add: u_def)
  have d: "distinct (map scOrdinal all)" using assms(2) u us by (auto simp: all_def list_ex_iff)
  have "?found \<longleftrightarrow> scOrdinal c \<in> scOrdinal ` set present"
    unfolding list_ex_iff by (metis imageE imageI)
  then have o: "scOrdinal ` set all = insert (scOrdinal c) (scOrdinal ` set present)"
    using us by (simp add: all_def insert_absorb)
  have n: "\<forall>x\<in>set all. a_number x" using un assms(4) by (simp add: all_def)
  note s = sorted_elements [OF assms(1), where lt = scored_less and xs = all, folded sorted_def]
  have cut: "distinct (map scOrdinal cut)" "set cut \<subseteq> insert c (set all)" "length cut \<le> semanticHNSWMaxNeighbors" "c \<in> set cut"
  proof -
    have "distinct (map scOrdinal (take m (filter P sorted)))" for m P
      using s(3) [of scOrdinal] d by (simp add: distinct_map_filter take_map [symmetric] distinct_take)
    then show "distinct (map scOrdinal cut)" by (auto simp: cut_def dest!: in_set_takeD)
    show "set cut \<subseteq> insert c (set all)" using s(1) by (auto simp: cut_def dest!: in_set_takeD)
    show "length cut \<le> semanticHNSWMaxNeighbors" by (simp add: cut_def semanticHNSWMaxNeighbors_def)
    show "c \<in> set cut" by (simp add: cut_def)
  qed
  note r = sorted_elements [OF assms(1), where lt = more_similar and xs = cut]
  show "distinct (map scOrdinal kept)"
    using r(3) [of scOrdinal] cut(1) s(3) [of scOrdinal] d by (simp add: kept take_map [symmetric] distinct_take)
  show "length kept \<le> semanticHNSWMaxNeighbors" using r(2) cut(3) by (simp add: kept)
  have sub: "set kept \<subseteq> insert c (set all)"
    using r(1) cut(2) s(1) by (auto simp: kept dest!: in_set_takeD)
  then have "scOrdinal ` set kept \<subseteq> insert (scOrdinal c) (scOrdinal ` set all)" by blast
  then show "scOrdinal ` set kept \<subseteq> insert (scOrdinal c) (scOrdinal ` set present)" using o by simp
  show "\<forall>x\<in>set kept. a_number x" using sub n assms(4) by blast
  have found: "scOrdinal c \<in> scOrdinal ` set sorted" using o s(1) by simp
  show "force \<Longrightarrow> scOrdinal c \<in> scOrdinal ` set kept" using found cut(4) r(1) by (auto simp: kept)
  assume "length present < semanticHNSWMaxNeighbors"
  then have "kept = sorted" using s(2) ul by (simp add: kept all_def)
  then show "scOrdinal ` set kept = insert (scOrdinal c) (scOrdinal ` set present)" using o s(1) by simp
qed

section \<open>Neighbours\<close>

definition nbrs :: "builder_edge list \<Rightarrow> nat \<Rightarrow> nat \<Rightarrow> nat set" where
  "nbrs E source level = beNeighbor ` set (filter (at source level) E)"

lemma set_edges [simp]: "set (edges E s l) = set (filter (at s l) E)"
  by (simp add: edges_def selected_at)

lemma length_edges: "length (edges E s l) = length (filter (at s l) E)"
  by (simp add: edges_def selected_at)

lemma distinct_edges:
  assumes "rows_ok lv k E"
  shows "distinct (map beNeighbor (edges E s l))"
proof -
  have "distinct (map edge_key (filter (at s l) E))" using assms by (simp add: rows_ok_def distinct_map_filter)
  moreover have "edge_key e = (s, l, beNeighbor e)" if "e \<in> set (filter (at s l) E)" for e
    using that by (simp add: edge_key_def at_def)
  ultimately have "distinct (map beNeighbor (filter (at s l) E))" by (auto simp: distinct_map inj_on_def)
  moreover have "mset (map beNeighbor (edges E s l)) = mset (map beNeighbor (filter (at s l) E))"
    by (simp add: edges_def selected_at)
  ultimately show ?thesis using mset_eq_imp_distinct_iff by blast
qed

lemma rows_ok_mono: "rows_ok lv k E \<Longrightarrow> k \<le> m \<Longrightarrow> rows_ok lv m E"
  unfolding rows_ok_def edge_ok_def using order_less_le_trans by blast

lemma replaced_nbrs:
  "nbrs (filter (\<lambda>e. \<not> at source level e) E @ rows source level 0 xs) s l
     = (if s = source \<and> l = level then scOrdinal ` set xs else nbrs E s l)"
proof (cases "s = source \<and> l = level")
  case True
  have "filter (at source level) (rows source level 0 xs) = rows source level 0 xs"
    using set_rows [of _ source level 0 xs] by (auto simp: at_def intro: filter_True)
  moreover have "beNeighbor ` set (rows source level 0 xs) = scOrdinal ` set xs"
    using neighbors_rows [of source level 0 xs] by (metis list.set_map)
  ultimately show ?thesis using True by (simp add: nbrs_def)
next
  case False
  then have "filter (at s l) (rows source level 0 xs) = []"
    using set_rows [of _ source level 0 xs] by (auto simp: filter_empty_conv at_def)
  moreover have "filter (at s l) (filter (\<lambda>e. \<not> at source level e) E) = filter (at s l) E"
    using False by (auto simp: at_def intro!: filter_cong)
  ultimately show ?thesis using False by (auto simp: nbrs_def)
qed

lemma addPrunedEdge_ok:
  fixes force :: bool
  assumes "permutes env" and "rows_ok lv k E" and "source < k" and "level \<le> lv source"
    and "a_number c" and "scOrdinal c < k" and "scOrdinal c \<noteq> source" and "level \<le> lv (scOrdinal c)"
  shows "\<exists>E'. addPrunedEdge env source level c force E = Inr E' \<and> rows_ok lv k E'
    \<and> (\<forall>s l. (s, l) \<noteq> (source, level) \<longrightarrow> nbrs E' s l = nbrs E s l)
    \<and> nbrs E' source level \<subseteq> insert (scOrdinal c) (nbrs E source level)
    \<and> (force \<longrightarrow> scOrdinal c \<in> nbrs E' source level)"
proof -
  let ?p = "map (\<lambda>e. \<lparr>scOrdinal = beNeighbor e, scSimilarity = beSimilarity e\<rparr>) (edges E source level)"
  let ?kept = "prune env ?p c force"
  note ok = assms(2) [unfolded rows_ok_def]
  have o: "map scOrdinal ?p = map beNeighbor (edges E source level)" by simp
  have d: "distinct (map scOrdinal ?p)" unfolding o by (rule distinct_edges [OF assms(2)])
  have so: "scOrdinal ` set ?p = nbrs E source level" by (simp add: image_image nbrs_def)
  have num: "\<forall>x\<in>set ?p. a_number x" using ok by (auto simp: a_number_def)
  note p = prune_ok [OF assms(1) d num assms(5), of force]
  have edge: "scOrdinal x < k \<and> scOrdinal x \<noteq> source \<and> level \<le> lv (scOrdinal x)" if "x \<in> set ?kept" for x
  proof -
    have "scOrdinal x \<in> insert (scOrdinal c) (nbrs E source level)" using p(3) so that by blast
    then show ?thesis using assms(6-8) ok by (auto simp: nbrs_def edge_ok_def at_def)
  qed
  have sel: "selection_ok lv k source level ?kept" unfolding selection_ok_def using p(1,2,4) edge by blast
  let ?E = "filter (\<lambda>e. \<not> at source level e) E @ rows source level 0 ?kept"
  have "addPrunedEdge env source level c force E = Inr ?E"
    unfolding addPrunedEdge_def by (rule replaceEdges_rows [OF sel])
  moreover have "rows_ok lv k ?E" by (rule rows_ok_replace [OF assms(2) sel assms(3,4)])
  moreover have "nbrs ?E s l = nbrs E s l" if "(s, l) \<noteq> (source, level)" for s l
    using that by (auto simp: replaced_nbrs simp del: filter_append)
  moreover have "nbrs ?E source level = scOrdinal ` set ?kept" by (simp add: replaced_nbrs del: filter_append)
  ultimately show ?thesis using p(3,5) so by auto
qed

lemma backLinks_ok:
  assumes "permutes env" and "rows_ok lv k E" and "selection_ok lv k i level xs" and "i < k" and "level \<le> lv i"
  shows "\<exists>E'. backLinks env i level rank xs E = Inr E' \<and> rows_ok lv k E'"
  using assms(2,3)
proof (induction xs arbitrary: E rank)
  case (Cons x xs)
  let ?c = "\<lparr>scOrdinal = i, scSimilarity = scSimilarity x\<rparr>"
  have x: "a_number ?c" "scOrdinal x < k" "scOrdinal x \<noteq> i" "level \<le> lv (scOrdinal x)"
    using Cons.prems(2) by (simp_all add: selection_ok_def a_number_def)
  have "scOrdinal ?c < k" "scOrdinal ?c \<noteq> scOrdinal x" "level \<le> lv (scOrdinal ?c)" using assms(4,5) x by simp_all
  from addPrunedEdge_ok [OF assms(1) Cons.prems(1) x(2,4,1) this] obtain E'
    where "addPrunedEdge env (scOrdinal x) level ?c (rank = 0) E = Inr E'" "rows_ok lv k E'" by blast
  moreover have "selection_ok lv k i level xs" using Cons.prems(2) by (simp add: selection_ok_def)
  ultimately show ?case using Cons.IH by simp
qed simp

section \<open>The searches of an insertion\<close>

text \<open>The payload has the vector of every node, and their similarities are numbers.\<close>

definition env_ok :: "build_env \<Rightarrow> builder \<Rightarrow> bool" where
  "env_ok env b \<longleftrightarrow> permutes env
     \<and> (\<forall>i < length (bdNodes b). envPayload env i \<noteq> None)
     \<and> (\<forall>i < length (bdNodes b). \<forall>j < length (bdNodes b).
          \<not> f32_nan (envDot env (the (envPayload env i)) (the (envPayload env j))))"

lemma vectorOf_ok: "env_ok env b \<Longrightarrow> i < length (bdNodes b) \<Longrightarrow> vectorOf env b i = Inr (the (envPayload env i))"
  by (auto simp: env_ok_def vectorOf_def)

lemma similarity_ok:
  assumes "env_ok env b" and "i < length (bdNodes b)" and "j < length (bdNodes b)"
  shows "\<exists>x. similarity env b (the (envPayload env i)) j = Inr x \<and> scOrdinal x = j \<and> a_number x"
  using assms vectorOf_ok [OF assms(1,3)] by (simp add: similarity_def a_number_def env_ok_def)

definition candidate_ok :: "builder \<Rightarrow> nat \<Rightarrow> nat \<Rightarrow> scored \<Rightarrow> bool" where
  "candidate_ok b k level x \<longleftrightarrow> a_number x \<and> scOrdinal x < k \<and> level \<le> level_of b (scOrdinal x)"

text \<open>The state in which the search for a node \<open>i\<close> walks over the nodes below \<open>k\<close> on a level.\<close>

definition searching :: "build_env \<Rightarrow> builder \<Rightarrow> nat \<Rightarrow> nat \<Rightarrow> nat \<Rightarrow> bool" where
  "searching env b i k level \<longleftrightarrow> env_ok env b \<and> i < length (bdNodes b) \<and> k \<le> length (bdNodes b)
     \<and> (\<forall>e\<in>set (bdEdges b). beLevel e = level \<longrightarrow> edge_ok (level_of b) k e)"

abbreviation payload :: "build_env \<Rightarrow> nat \<Rightarrow> vector" where
  "payload env i \<equiv> the (envPayload env i)"

lemma neighbor_similarity:
  assumes "searching env b i k level" and "e \<in> set (edges (bdEdges b) s level)"
  obtains x where "similarity env b (payload env i) (beNeighbor e) = Inr x"
    and "scOrdinal x = beNeighbor e" and "candidate_ok b k level x"
proof -
  have e: "beNeighbor e < k" "level \<le> level_of b (beNeighbor e)"
    using assms by (auto simp: searching_def rows_ok_def edge_ok_def at_def)
  then have "beNeighbor e < length (bdNodes b)" using assms(1) by (simp add: searching_def)
  with similarity_ok [of env b i] e assms(1) show ?thesis
    by (fastforce intro: that simp: candidate_ok_def searching_def)
qed

lemma scanEdges_ok:
  assumes "searching env b i k level" and "set es \<subseteq> set (edges (bdEdges b) s level)"
  shows "\<exists>c' m'. scanEdges env b (payload env i) es c m = Inr (c', m')
    \<and> (candidate_ok b k level c \<longrightarrow> candidate_ok b k level c')"
  using assms(2)
proof (induction es arbitrary: c m)
  case (Cons e es)
  have e: "e \<in> set (edges (bdEdges b) s level)" and es: "set es \<subseteq> set (edges (bdEdges b) s level)"
    using Cons.prems by (simp_all del: set_edges)
  obtain x where x: "similarity env b (payload env i) (beNeighbor e) = Inr x" "candidate_ok b k level x"
    using neighbor_similarity [OF assms(1) e] .
  show ?case using Cons.IH [OF es, of x True] Cons.IH [OF es, of c m] x by auto
qed simp

lemma greedyNearestLoop_ok:
  assumes "searching env b i k level" and "query = payload env i" and "candidate_ok b k level c"
  shows "\<exists>n. greedyNearestLoop env b query level c = Inr n \<and> n < k \<and> level \<le> level_of b n"
  using assms
proof (induction env b query level c rule: greedyNearestLoop.induct)
  case (1 env b query level c)
  let ?es = "edges (bdEdges b) (scOrdinal c) level"
  obtain c' m where s: "scanEdges env b query ?es c False = Inr (c', m)" "candidate_ok b k level c'"
    using scanEdges_ok [OF "1.prems"(1) order_refl, of "scOrdinal c" c False] "1.prems"(2,3) by auto
  show ?case
  proof (cases m)
    case True
    from "1.IH" [OF s(1) refl True "1.prems"(1,2) s(2)] s(1) True show ?thesis
      by (simp add: greedyNearestLoop.simps [of env b query level c])
  next
    case False
    with s show ?thesis by (simp add: greedyNearestLoop.simps [of env b query level c] candidate_ok_def)
  qed
qed

lemma greedyNearest_ok:
  assumes "searching env b i k level" and "c < k" and "level \<le> level_of b c"
  shows "\<exists>n. greedyNearest env b (payload env i) c level = Inr n \<and> n < k \<and> level \<le> level_of b n"
proof -
  have "c < length (bdNodes b)" using assms(1,2) by (simp add: searching_def)
  then obtain x where x: "similarity env b (payload env i) c = Inr x" "scOrdinal x = c" "a_number x"
    using similarity_ok [of env b i c] assms(1) by (auto simp: searching_def)
  then have "candidate_ok b k level x" using assms(2,3) by (simp add: candidate_ok_def)
  from greedyNearestLoop_ok [OF assms(1) refl this] x(1) show ?thesis by (simp add: greedyNearest_def)
qed

lemma approach_ok:
  assumes "\<forall>l. searching env b i k l" and "c < k" and "level + n \<le> level_of b c"
  shows "\<exists>m. approach env b (payload env i) level n c = Inr m \<and> m < k \<and> level \<le> level_of b m"
  using assms(2,3)
proof (induction n arbitrary: c)
  case (Suc n)
  obtain m where m: "greedyNearest env b (payload env i) c (level + Suc n) = Inr m" "m < k"
      "level + Suc n \<le> level_of b m"
    using greedyNearest_ok [OF _ Suc.prems] assms(1) by blast
  from m(3) have "level + n \<le> level_of b m" by simp
  from Suc.IH [OF m(2) this] m(1) show ?case by simp
qed simp

lemma pushAll_ok:
  assumes "searching env b i k level" and "set ns \<subseteq> beNeighbor ` set (edges (bdEdges b) s level)"
    and "\<forall>x\<in>set c. candidate_ok b k level x"
  shows "\<exists>c'. pushAll env b (payload env i) ns c = Inr c' \<and> (\<forall>x\<in>set c'. candidate_ok b k level x)"
  using assms(2,3)
proof (induction ns arbitrary: c)
  case (Cons n ns)
  have ns: "set ns \<subseteq> beNeighbor ` set (edges (bdEdges b) s level)" using Cons.prems(1) by (simp del: set_edges)
  obtain e where e: "e \<in> set (edges (bdEdges b) s level)" "n = beNeighbor e"
    using Cons.prems(1) by (auto simp del: set_edges)
  obtain x where x: "similarity env b (payload env i) n = Inr x" "candidate_ok b k level x"
    using neighbor_similarity [OF assms(1) e(1)] e(2) by metis
  have "set (heap_push scored_less x c) = insert x (set c)"
    using heap_push_elements [of scored_less x c] by (metis set_mset_add_mset_insert set_mset_mset)
  with Cons.prems(2) x(2) have "\<forall>y\<in>set (heap_push scored_less x c). candidate_ok b k level y" by simp
  from Cons.IH [OF ns this] x(1) show ?case by simp
qed simp

lemma putResult_elements:
  "set (putResult x ys) \<subseteq> insert x (set ys)"
  "scOrdinal ` set (putResult x ys) = insert (scOrdinal x) (scOrdinal ` set ys)"
  "distinct (map scOrdinal ys) \<Longrightarrow> distinct (map scOrdinal (putResult x ys))"
proof -
  show "set (putResult x ys) \<subseteq> insert x (set ys)" by (induction ys) auto
  show s: "scOrdinal ` set (putResult x ys) = insert (scOrdinal x) (scOrdinal ` set ys)" for ys
    by (induction ys) auto
  show "distinct (map scOrdinal ys) \<Longrightarrow> distinct (map scOrdinal (putResult x ys))"
    by (induction ys) (auto simp: s)
qed

lemma searchLayerLoop_ok:
  assumes "searching env b i k level" and "query = payload env i"
    and "\<forall>x\<in>set candidates \<union> set results. candidate_ok b k level x" and "distinct (map scOrdinal results)"
  shows "\<exists>xs. searchLayerLoop env b query level limit candidates visited results = Inr xs
    \<and> (\<forall>x\<in>set xs. candidate_ok b k level x) \<and> distinct (map scOrdinal xs)"
  using assms
proof (induction env b query level limit candidates visited results rule: searchLayerLoop.induct)
  case (1 env b query level limit candidates visited results)
  note unf = searchLayerLoop.simps [of env b query level limit candidates visited results]
  show ?case
  proof (cases "candidates = [] \<or> max limit semanticHNSWMaxNeighbors < card visited")
    case True
    then show ?thesis using "1.prems"(3,4) unf by simp
  next
    case False
    obtain item rest where pop: "heap_pop scored_less candidates = (item, rest)" by fastforce
    let ?es = "edges (bdEdges b) (scOrdinal item) level"
    obtain ns v where u: "unvisited ?es visited = (ns, v)" by fastforce
    have "mset candidates = add_mset item (mset rest)" using heap_pop_elements(1) [OF _ pop] False by simp
    then have cs: "set candidates = insert item (set rest)" by (metis set_mset_add_mset_insert set_mset_mset)
    have "set ns \<subseteq> beNeighbor ` set ?es" using unvisited_result [OF u] by (auto simp del: set_edges)
    moreover have "\<forall>x\<in>set rest. candidate_ok b k level x" using "1.prems"(3) cs by simp
    ultimately obtain c' where push: "pushAll env b query ns rest = Inr c'" "\<forall>x\<in>set c'. candidate_ok b k level x"
      using pushAll_ok [OF "1.prems"(1)] "1.prems"(2) by blast
    have "\<forall>x\<in>set c' \<union> set (putResult item results). candidate_ok b k level x"
      using push(2) putResult_elements(1) [of item results] "1.prems"(3) cs by auto
    from "1.IH" [OF False pop [symmetric] refl refl u [symmetric] refl push(1) "1.prems"(1,2) this
        putResult_elements(3) [OF "1.prems"(4)]]
    show ?thesis unfolding unf if_not_P [OF False] using pop u push(1) by simp
  qed
qed

lemma searchLayer_ok:
  assumes "searching env b i k level" and "c < k" and "level \<le> level_of b c"
  shows "\<exists>xs. searchLayer env b (payload env i) c level limit = Inr xs
    \<and> (\<forall>x\<in>set xs. candidate_ok b k level x) \<and> distinct (map scOrdinal xs)"
proof -
  have "c < length (bdNodes b)" using assms(1,2) by (simp add: searching_def)
  then obtain x where x: "similarity env b (payload env i) c = Inr x" "scOrdinal x = c" "a_number x"
    using similarity_ok [of env b i c] assms(1) by (auto simp: searching_def)
  then have "\<forall>y\<in>set [x] \<union> set []. candidate_ok b k level y" using assms(2,3) by (simp add: candidate_ok_def)
  from searchLayerLoop_ok [OF assms(1) refl this, of limit "{c}"] obtain xs where
      "searchLayerLoop env b (payload env i) level limit [x] {c} [] = Inr xs"
      "\<forall>x\<in>set xs. candidate_ok b k level x" "distinct (map scOrdinal xs)" by auto
  moreover have p: "permutes env" using assms(1) by (simp add: searching_def env_ok_def)
  ultimately show ?thesis
    using x(1) sorted_elements(1) [OF p, of scored_less xs] sorted_elements(3) [OF p, of scOrdinal scored_less xs]
    by (simp add: searchLayer_def)
qed

section \<open>Insertion\<close>

text \<open>
  While node \<open>k\<close> is inserted, its edges are on levels above a bound only; below it the rows still join
  the nodes that were there before.
\<close>

definition inserting :: "build_env \<Rightarrow> builder \<Rightarrow> nat \<Rightarrow> nat \<Rightarrow> bool" where
  "inserting env b k n \<longleftrightarrow> env_ok env b \<and> k < length (bdNodes b) \<and> rows_ok (level_of b) (k + 1) (bdEdges b)
     \<and> (\<forall>e\<in>set (bdEdges b). beLevel e < n \<longrightarrow> edge_ok (level_of b) k e)"

lemma insertEdges_new:
  "insertEdges source level r xs E = Inr E' \<Longrightarrow> e \<in> set E' \<Longrightarrow> e \<in> set E \<or> at source level e"
proof (induction xs arbitrary: r E)
  case (Cons x xs)
  then show ?case by (fastforce simp: insertEdge_def at_def split: if_splits)
qed simp

lemma addPrunedEdge_new:
  "addPrunedEdge env source level c force E = Inr E' \<Longrightarrow> e \<in> set E' \<Longrightarrow> e \<in> set E \<or> at source level e"
  unfolding addPrunedEdge_def replaceEdges_def using insertEdges_new by fastforce

lemma linkLevel_edges_below:
  assumes "backLinks env i level rank xs E = Inr E'" and "e \<in> set E'" and "beLevel e < level"
  shows "e \<in> set E"
  using assms(1,2)
proof (induction xs arbitrary: E rank)
  case (Cons x xs)
  obtain G where g: "addPrunedEdge env (scOrdinal x) level \<lparr>scOrdinal = i, scSimilarity = scSimilarity x\<rparr> (rank = 0) E = Inr G"
    and r: "backLinks env i level (rank + 1) xs G = Inr E'" using Cons.prems(1) by (auto split: sum.splits)
  from Cons.IH [OF r Cons.prems(2)] addPrunedEdge_new [OF g] assms(3) show ?case by (auto simp: at_def)
qed simp

lemma linkLevel_ok:
  assumes "inserting env b k (Suc level)" and "c < k" and "level \<le> level_of b c" and "level \<le> level_of b k"
  shows "\<exists>c' b'. linkLevel env k (payload env k) level c b = Inr (c', b') \<and> inserting env b' k level
    \<and> b' = b\<lparr>bdEdges := bdEdges b'\<rparr> \<and> c' < k \<and> level \<le> level_of b c'"
proof -
  note i = assms(1) [unfolded inserting_def]
  have env: "permutes env" using i by (simp add: env_ok_def)
  have "searching env b k k level" using i by (simp add: searching_def)
  from searchLayer_ok [OF this assms(2,3), of semanticHNSWEfConstruction] obtain xs where
      xs: "searchLayer env b (payload env k) c level semanticHNSWEfConstruction = Inr xs"
      "\<forall>x\<in>set xs. candidate_ok b k level x" "distinct (map scOrdinal xs)" by blast
  let ?sel = "take semanticHNSWMaxNeighbors xs"
  have "selection_ok (level_of b) (k + 1) k level ?sel"
    using xs(2,3) by (fastforce simp: selection_ok_def candidate_ok_def take_map [symmetric] distinct_take dest: in_set_takeD)
  note sel = this
  let ?E = "filter (\<lambda>e. \<not> at k level e) (bdEdges b) @ rows k level 0 ?sel"
  have rep: "replaceEdges k level ?sel (bdEdges b) = Inr ?E" by (rule replaceEdges_rows [OF sel])
  have ok: "rows_ok (level_of b) (k + 1) ?E" using i assms(4) by (intro rows_ok_replace [OF _ sel]) auto
  obtain E' where bl: "backLinks env k level 0 ?sel ?E = Inr E'" "rows_ok (level_of b) (k + 1) E'"
    using backLinks_ok [OF env ok sel, of 0] assms(4) by auto
  have "\<forall>e\<in>set ?E. beLevel e < level \<longrightarrow> edge_ok (level_of b) k e"
    using i set_rows [of _ k level 0 ?sel] by auto
  then have "\<forall>e\<in>set E'. beLevel e < level \<longrightarrow> edge_ok (level_of b) k e"
    using linkLevel_edges_below [OF bl(1)] by blast
  with bl(2) i have ins: "inserting env (b\<lparr>bdEdges := E'\<rparr>) k level" by (simp add: inserting_def env_ok_def)
  let ?c = "if ?sel = [] then c else scOrdinal (hd ?sel)"
  have "candidate_ok b k level (hd ?sel)" if "?sel \<noteq> []" using xs(2) that hd_in_set [OF that] by (auto dest: in_set_takeD)
  then have "?c < k \<and> level \<le> level_of b ?c" using assms(2,3) by (simp add: candidate_ok_def)
  with xs(1) rep bl(1) ins show ?thesis by (simp add: linkLevel_def Let_def)
qed

lemma linkLevels_ok:
  assumes "inserting env b k n" and "c < k" and "n \<le> Suc (level_of b c)" and "n \<le> Suc (level_of b k)"
  shows "\<exists>b'. linkLevels env k (payload env k) n c b = Inr b' \<and> rows_ok (level_of b) (k + 1) (bdEdges b')
    \<and> b' = b\<lparr>bdEdges := bdEdges b'\<rparr>"
  using assms
proof (induction n arbitrary: b c)
  case (Suc level)
  obtain c' b' where l: "linkLevel env k (payload env k) level c b = Inr (c', b')" "inserting env b' k level"
      "b' = b\<lparr>bdEdges := bdEdges b'\<rparr>" "c' < k" "level \<le> level_of b c'"
    using linkLevel_ok [OF Suc.prems(1,2)] Suc.prems(3,4) by auto
  have n: "bdNodes b' = bdNodes b" using l(3) by (metis builder.select_convs(1) builder.surjective builder.update_convs(2))
  have "level \<le> Suc (level_of b' c')" "level \<le> Suc (level_of b' k)" using l(5) Suc.prems(4) n by auto
  from Suc.IH [OF l(2,4) this] obtain b'' where
      "linkLevels env k (payload env k) level c' b' = Inr b''" "rows_ok (level_of b') (k + 1) (bdEdges b'')"
      "b'' = b'\<lparr>bdEdges := bdEdges b''\<rparr>" by blast
  moreover from this l(3) have "b'' = b\<lparr>bdEdges := bdEdges b''\<rparr>" by (metis builder.update_convs(2) builder.surjective)
  ultimately show ?case using l(1) n by auto
next
  case 0
  then show ?case by (auto simp: inserting_def)
qed

text \<open>The entry is the first of the nodes on the highest level.\<close>

definition entry_ok :: "builder \<Rightarrow> bool" where
  "entry_ok b \<longleftrightarrow>
     (case bdEntry b of
        None \<Rightarrow> bdNext b = 0
      | Some (e, l) \<Rightarrow> e < bdNext b \<and> l = level_of b e \<and> (\<forall>j < bdNext b. level_of b j \<le> l)
          \<and> (\<forall>j < e. level_of b j < l))"

definition build_ok :: "builder \<Rightarrow> bool" where
  "build_ok b \<longleftrightarrow> bdNext b \<le> length (bdNodes b) \<and> rows_ok (level_of b) (bdNext b) (bdEdges b) \<and> entry_ok b"

lemma insertNode_ok:
  assumes "build_ok b" and "env_ok env b" and "bdNext b < length (bdNodes b)"
  shows "\<exists>b'. insertNode env (bdNext b) b = Inr b' \<and> build_ok b' \<and> bdNext b' = bdNext b + 1
    \<and> bdNodes b' = bdNodes b \<and> bdChainNext b' = bdChainNext b \<and> bdReady b' = bdReady b"
proof (cases "bdEntry b")
  case None
  then have "bdNext b = 0" using assms(1) by (simp add: build_ok_def entry_ok_def)
  with None assms show ?thesis
    by (auto simp: insertNode_def recordInsertion_def build_ok_def entry_ok_def Suc_le_eq intro: rows_ok_mono)
next
  case (Some p)
  then obtain e l where entry: "bdEntry b = Some (e, l)" by (cases p) auto
  let ?k = "bdNext b" let ?m = "level_of b ?k"
  have e: "e < ?k" "l = level_of b e" "\<forall>j < ?k. level_of b j \<le> l" "\<forall>j < e. level_of b j < l"
    using assms(1) entry by (auto simp: build_ok_def entry_ok_def)
  have rows: "rows_ok (level_of b) ?k (bdEdges b)" using assms(1) by (simp add: build_ok_def)
  then have "\<forall>l. searching env b ?k ?k l" using assms(2,3) by (simp add: searching_def rows_ok_def)
  from approach_ok [OF this e(1), of "min ?m l" "l - min ?m l"] e(2)
  obtain c where c: "approach env b (payload env ?k) (min ?m l) (l - min ?m l) e = Inr c" "c < ?k" "min ?m l \<le> level_of b c"
    by auto
  have same: "approach env b (payload env ?k) ?m (l - ?m) e = Inr c"
    using c(1) by (cases "?m \<le> l") (simp_all add: min_def)
  have "inserting env b ?k (min ?m l + 1)"
    using assms(2,3) rows rows_ok_mono [OF rows, of "?k + 1"] by (simp add: inserting_def rows_ok_def)
  from linkLevels_ok [OF this c(2)] c(3) obtain b' where
      b': "linkLevels env ?k (payload env ?k) (min ?m l + 1) c b = Inr b'" "rows_ok (level_of b) (?k + 1) (bdEdges b')"
      "b' = b\<lparr>bdEdges := bdEdges b'\<rparr>" by auto
  have fields: "bdNodes b' = bdNodes b" "bdNext b' = bdNext b" "bdChainNext b' = bdChainNext b" "bdReady b' = bdReady b"
    by (subst b'(3), simp)+
  have "vectorOf env b ?k = Inr (payload env ?k)" using vectorOf_ok [OF assms(2,3)] .
  then have ins: "insertNode env ?k b = Inr (if l < ?m then recordInsertion ?k ?m (?k + 1) b' else recordInsertion e l (?k + 1) b')"
    using assms(3) entry same b'(1) e(1) by (simp add: insertNode_def Let_def)
  have "\<forall>j < ?k. level_of b j < ?m" if "l < ?m" using e(3) that by fastforce
  then show ?thesis
    using ins b'(2) fields e assms(3)
    by (auto simp: recordInsertion_def build_ok_def entry_ok_def less_Suc_eq less_imp_le)
qed

end
