(* ===== verification/Semantic_Build.thy ===== *)
theory Semantic_Build
  imports Semantic_Graph
begin

text \<open>
  Building a graph in transactions: the build always ends with a well-formed graph whose entry is the
  node a search starts from, it does not depend on where the transactions end, and a build that was
  interrupted by a missing payload gives the same graph when it is run again.
\<close>

section \<open>Sequences of steps\<close>

lemma each_append:
  "each f (xs @ ys) b = (case each f xs b of Inl e \<Rightarrow> Inl e | Inr b \<Rightarrow> each f ys b)"
  by (induction xs arbitrary: b) (auto split: sum.splits)

lemma chunk_bounds: "start < n \<Longrightarrow> start < chunkEnd start n \<and> chunkEnd start n \<le> n"
  by (simp add: chunkEnd_def semanticIndexBuilderTransactionSize_def)

lemma upt_chunk: "start < n \<Longrightarrow> [start..<n] = [start..<chunkEnd start n] @ [chunkEnd start n..<n]"
  using chunk_bounds [of start n] upt_add_eq_append [of start "chunkEnd start n" "n - chunkEnd start n"] by simp

lemma env_ok_cong: "length (bdNodes b') = length (bdNodes b) \<Longrightarrow> env_ok env b' = env_ok env b"
  by (simp add: env_ok_def)

lemma prefetch_ok: "env_ok env b \<Longrightarrow> e \<le> length (bdNodes b) \<Longrightarrow> prefetchOrdinalRange env b s e = Inr ()"
  by (auto simp: prefetchOrdinalRange_def list_all_iff vectorOf_ok)

section \<open>The insertions\<close>

lemma inserts_ok:
  assumes "build_ok b" and "env_ok env b" and "bdNext b \<le> e" and "e \<le> length (bdNodes b)"
  shows "\<exists>b'. each (insertNode env) [bdNext b..<e] b = Inr b' \<and> build_ok b' \<and> bdNext b' = e
    \<and> bdNodes b' = bdNodes b \<and> bdChainNext b' = bdChainNext b \<and> bdReady b' = bdReady b"
  using assms
proof (induction "e - bdNext b" arbitrary: b)
  case (Suc m)
  then have less: "bdNext b < length (bdNodes b)" "bdNext b < e" by linarith+
  obtain b' where b': "insertNode env (bdNext b) b = Inr b'" "build_ok b'" "bdNext b' = bdNext b + 1"
      "bdNodes b' = bdNodes b" "bdChainNext b' = bdChainNext b" "bdReady b' = bdReady b"
    using insertNode_ok [OF Suc.prems(1,2) less(1)] by blast
  have "m = e - bdNext b'" "bdNext b' \<le> e" "env_ok env b'"
    using Suc.hyps(2) b' less(2) env_ok_cong [of b' b env] Suc.prems(2) by auto
  from Suc.hyps(1) [OF this(1) b'(2) this(3,2)] b' Suc.prems(4) show ?case
    using less(2) by (simp add: upt_conv_Cons)
qed simp

lemma insertChunks_ok:
  assumes "build_ok b" and "env_ok env b" and "start = bdNext b" and "n = length (bdNodes b)"
  shows "\<exists>b'. insertChunks env n start b = (Inr (), b') \<and> each (insertNode env) [start..<n] b = Inr b'
    \<and> build_ok b' \<and> bdNext b' = n \<and> bdNodes b' = bdNodes b \<and> bdChainNext b' = bdChainNext b \<and> bdReady b' = bdReady b"
  using assms
proof (induction env n start b rule: insertChunks.induct)
  case (1 env n start b)
  show ?case
  proof (cases "n \<le> start")
    case True
    then have "insertChunks env n start b = (Inr (), b)" by (simp add: insertChunks.simps [of env n start b])
    moreover have "start = n" using True "1.prems" by (simp add: build_ok_def)
    ultimately show ?thesis using "1.prems" by simp
  next
    case False
    then have bounds: "start < chunkEnd start n" "chunkEnd start n \<le> n" using chunk_bounds by simp_all
    obtain b' where b': "each (insertNode env) [start..<chunkEnd start n] b = Inr b'" "build_ok b'"
        "bdNext b' = chunkEnd start n" "bdNodes b' = bdNodes b" "bdChainNext b' = bdChainNext b" "bdReady b' = bdReady b"
      using inserts_ok [OF "1.prems"(1,2), of "chunkEnd start n"] "1.prems"(3,4) bounds by auto
    have pre: "prefetchOrdinalRange env b start (chunkEnd start n) = Inr ()"
      using prefetch_ok "1.prems"(2,4) bounds by simp
    have "env_ok env b'" using env_ok_cong [of b' b env] b'(4) "1.prems"(2) by simp
    from "1.IH" [OF False pre b'(1,2) this] b' "1.prems"(4) obtain b'' where
        "insertChunks env n (chunkEnd start n) b' = (Inr (), b'')" "each (insertNode env) [chunkEnd start n..<n] b' = Inr b''"
        "build_ok b''" "bdNext b'' = n" "bdNodes b'' = bdNodes b" "bdChainNext b'' = bdChainNext b" "bdReady b'' = bdReady b"
      by auto
    moreover have "insertChunks env n start b = insertChunks env n (chunkEnd start n) b'"
      using False pre b'(1) by (simp add: insertChunks.simps [of env n start b])
    moreover have "each (insertNode env) [start..<n] b = each (insertNode env) [chunkEnd start n..<n] b'"
      using False b'(1) upt_chunk [of start n] by (simp add: each_append)
    ultimately show ?thesis by simp
  qed
qed

section \<open>The chain\<close>

lemma chainEdges_ok:
  assumes "env_ok env b" and "rows_ok (level_of b) (length (bdNodes b)) (bdEdges b)" and "i < length (bdNodes b)"
    and "set ns \<subseteq> {..<length (bdNodes b)} - {i}"
  shows "\<exists>b'. chainEdges env i (payload env i) ns b = Inr b' \<and> b' = b\<lparr>bdEdges := bdEdges b'\<rparr>
    \<and> rows_ok (level_of b) (length (bdNodes b)) (bdEdges b')
    \<and> (\<forall>s l. (s, l) \<noteq> (i, 0) \<longrightarrow> nbrs (bdEdges b') s l = nbrs (bdEdges b) s l)
    \<and> nbrs (bdEdges b') i 0 \<subseteq> nbrs (bdEdges b) i 0 \<union> set ns
    \<and> (ns \<noteq> [] \<longrightarrow> last ns \<in> nbrs (bdEdges b') i 0)"
  using assms
proof (induction ns arbitrary: b)
  case (Cons n ns)
  have n: "n < length (bdNodes b)" "n \<noteq> i" using Cons.prems(4) by auto
  obtain x where x: "similarity env b (payload env i) n = Inr x" "scOrdinal x = n" "a_number x"
    using similarity_ok [OF Cons.prems(1,3) n(1)] by blast
  have p: "permutes env" using Cons.prems(1) by (simp add: env_ok_def)
  obtain E where E: "addPrunedEdge env i 0 x True (bdEdges b) = Inr E" "rows_ok (level_of b) (length (bdNodes b)) E"
      "\<forall>s l. (s, l) \<noteq> (i, 0) \<longrightarrow> nbrs E s l = nbrs (bdEdges b) s l"
      "nbrs E i 0 \<subseteq> insert n (nbrs (bdEdges b) i 0)" "n \<in> nbrs E i 0"
    using addPrunedEdge_ok [OF p Cons.prems(2,3) _ x(3), of 0 True] x(2) n by auto
  let ?b = "b\<lparr>bdEdges := E\<rparr>"
  have "env_ok env ?b" "i < length (bdNodes ?b)" "set ns \<subseteq> {..<length (bdNodes ?b)} - {i}"
      "rows_ok (level_of ?b) (length (bdNodes ?b)) (bdEdges ?b)"
    using Cons.prems env_ok_cong [of ?b b env] E(2) by auto
  from Cons.IH [OF this(1,4,2,3)] obtain b' where b': "chainEdges env i (payload env i) ns ?b = Inr b'"
      "b' = ?b\<lparr>bdEdges := bdEdges b'\<rparr>" "rows_ok (level_of b) (length (bdNodes b)) (bdEdges b')"
      "\<forall>s l. (s, l) \<noteq> (i, 0) \<longrightarrow> nbrs (bdEdges b') s l = nbrs E s l"
      "nbrs (bdEdges b') i 0 \<subseteq> nbrs E i 0 \<union> set ns" "ns \<noteq> [] \<longrightarrow> last ns \<in> nbrs (bdEdges b') i 0" by auto
  have "ns = [] \<Longrightarrow> nbrs (bdEdges b') i 0 = nbrs E i 0" using b'(1) by auto
  then have "last (n # ns) \<in> nbrs (bdEdges b') i 0" using b'(6) E(5) by auto
  moreover have "b' = b\<lparr>bdEdges := bdEdges b'\<rparr>" using b'(2) by simp
  moreover have "chainEdges env i (payload env i) (n # ns) b = Inr b'" using x(1) E(1) b'(1) by simp
  ultimately show ?case using b'(3,4,5) E(3,4) by auto
qed simp

lemma chainNode_ok:
  assumes "env_ok env b" and "rows_ok (level_of b) (length (bdNodes b)) (bdEdges b)" and "i < n" and "n = length (bdNodes b)"
  shows "\<exists>b'. chainNode env n i b = Inr b' \<and> b' = b\<lparr>bdEdges := bdEdges b'\<rparr>
    \<and> rows_ok (level_of b) n (bdEdges b')
    \<and> (\<forall>s l. (s, l) \<noteq> (i, 0) \<longrightarrow> nbrs (bdEdges b') s l = nbrs (bdEdges b) s l)
    \<and> nbrs (bdEdges b') i 0 \<subseteq> nbrs (bdEdges b) i 0 \<union> ({i - 1, i + 1} - {i})
    \<and> (i + 1 < n \<longrightarrow> i + 1 \<in> nbrs (bdEdges b') i 0)"
proof -
  let ?ns = "(if i = 0 then [] else [i - 1]) @ (if i + 1 < n then [i + 1] else [])"
  have "set ?ns \<subseteq> {..<length (bdNodes b)} - {i}" using assms(3,4) by auto
  moreover have "vectorOf env b i = Inr (payload env i)" using vectorOf_ok [OF assms(1)] assms(3,4) by simp
  ultimately show ?thesis
    using chainEdges_ok [OF assms(1,2), of i ?ns] assms(3,4)
    unfolding chainNode_def by (fastforce split: if_splits)
qed

text \<open>The nodes below a bound have an edge to the node that follows them.\<close>

definition chained :: "builder \<Rightarrow> nat \<Rightarrow> bool" where
  "chained b m \<longleftrightarrow> (\<forall>i < m. i + 1 < length (bdNodes b) \<longrightarrow> i + 1 \<in> nbrs (bdEdges b) i 0)"

lemma chain_ok:
  assumes "env_ok env b" and "rows_ok (level_of b) n (bdEdges b)" and "n = length (bdNodes b)"
    and "s \<le> e" and "e \<le> n" and "chained b s"
  shows "\<exists>b'. each (chainNode env n) [s..<e] b = Inr b' \<and> b' = b\<lparr>bdEdges := bdEdges b'\<rparr>
    \<and> rows_ok (level_of b) n (bdEdges b') \<and> chained b' e"
  using assms
proof (induction "e - s" arbitrary: b s)
  case (Suc m)
  then have less: "s < e" "s < n" by linarith+
  obtain b' where b': "chainNode env n s b = Inr b'" "b' = b\<lparr>bdEdges := bdEdges b'\<rparr>"
      "rows_ok (level_of b) n (bdEdges b')" "\<forall>s' l. (s', l) \<noteq> (s, 0) \<longrightarrow> nbrs (bdEdges b') s' l = nbrs (bdEdges b) s' l"
      "s + 1 < n \<longrightarrow> s + 1 \<in> nbrs (bdEdges b') s 0"
    using chainNode_ok [OF Suc.prems(1) _ less(2) Suc.prems(3)] Suc.prems(2,3) by blast
  have nodes: "bdNodes b' = bdNodes b" by (subst b'(2)) simp
  have "chained b' (s + 1)"
    using Suc.prems(3,6) b'(4,5) nodes by (auto simp: chained_def less_Suc_eq)
  moreover have "env_ok env b'" "rows_ok (level_of b') n (bdEdges b')" "n = length (bdNodes b')" "m = e - (s + 1)"
    using env_ok_cong [of b' b env] nodes Suc.prems(1,3) b'(3) Suc.hyps(2) by auto
  ultimately obtain b'' where b'': "each (chainNode env n) [s + 1..<e] b' = Inr b''" "b'' = b'\<lparr>bdEdges := bdEdges b''\<rparr>"
      "rows_ok (level_of b') n (bdEdges b'')" "chained b'' e"
    using Suc.hyps(1) [of "s + 1" b'] less Suc.prems(5) by auto
  have "b'' = b\<lparr>bdEdges := bdEdges b''\<rparr>" by (subst b''(2), subst b'(2)) simp
  with b'' b'(1) nodes less show ?case by (auto simp: upt_conv_Cons)
next
  case 0
  then show ?case by simp
qed

lemma chainEdges_frame:
  "chainEdges env i v ns (b\<lparr>bdChainNext := m\<rparr>) = map_sum id (\<lambda>b. b\<lparr>bdChainNext := m\<rparr>) (chainEdges env i v ns b)"
proof (induction ns arbitrary: b)
  case (Cons n ns)
  have "similarity env (b\<lparr>bdChainNext := m\<rparr>) v n = similarity env b v n" by (simp add: similarity_def vectorOf_def)
  moreover have "chainEdges env i v ns (b\<lparr>bdChainNext := m, bdEdges := E\<rparr>)
      = map_sum id (\<lambda>b. b\<lparr>bdChainNext := m\<rparr>) (chainEdges env i v ns (b\<lparr>bdEdges := E\<rparr>))" for E
  proof -
    have "b\<lparr>bdChainNext := m, bdEdges := E\<rparr> = b\<lparr>bdEdges := E, bdChainNext := m\<rparr>" by simp
    then show ?thesis by (simp only: Cons.IH [of "b\<lparr>bdEdges := E\<rparr>"])
  qed
  ultimately show ?case by (auto simp: id_def split: sum.splits)
qed simp

lemma chains_frame:
  "each (chainNode env n) is (b\<lparr>bdChainNext := m\<rparr>) = map_sum id (\<lambda>b. b\<lparr>bdChainNext := m\<rparr>) (each (chainNode env n) is b)"
proof (induction "is" arbitrary: b)
  case (Cons i "is")
  have "chainNode env n i (b\<lparr>bdChainNext := m\<rparr>) = map_sum id (\<lambda>b. b\<lparr>bdChainNext := m\<rparr>) (chainNode env n i b)"
    by (auto simp: chainNode_def vectorOf_def chainEdges_frame split: sum.splits)
  with Cons.IH show ?case by (auto split: sum.splits)
qed simp

lemma chainChunks_ok:
  assumes "env_ok env b" and "rows_ok (level_of b) n (bdEdges b)" and "n = length (bdNodes b)"
    and "start < n" and "chained b start"
  shows "\<exists>b'. each (chainNode env n) [start..<n] b = Inr b' \<and> chainChunks env n start b = (Inr (), b'\<lparr>bdChainNext := n\<rparr>)
    \<and> b' = b\<lparr>bdEdges := bdEdges b'\<rparr> \<and> rows_ok (level_of b) n (bdEdges b') \<and> chained b' n"
  using assms
proof (induction env n start b rule: chainChunks.induct)
  case (1 env n start b)
  let ?e = "chunkEnd start n"
  have bounds: "start < ?e" "?e \<le> n" using chunk_bounds "1.prems"(4) by simp_all
  obtain b' where b': "each (chainNode env n) [start..<?e] b = Inr b'" "b' = b\<lparr>bdEdges := bdEdges b'\<rparr>"
      "rows_ok (level_of b) n (bdEdges b')" "chained b' ?e"
    using chain_ok [OF "1.prems"(1-3), of start ?e] bounds "1.prems"(5) by auto
  have nodes: "bdNodes b' = bdNodes b" by (subst b'(2)) simp
  have pre: "prefetchOrdinalRange env b (start - 1) (min (?e + 1) n) = Inr ()"
    using prefetch_ok "1.prems"(1,3) by simp
  let ?b = "b'\<lparr>bdChainNext := ?e\<rparr>"
  have chunk: "chainChunks env n start b = chainChunks env n ?e ?b"
    using pre b'(1) "1.prems"(4) by (simp add: chainChunks.simps [of env n start b])
  have split: "each (chainNode env n) [start..<n] b = each (chainNode env n) [?e..<n] b'"
    using b'(1) upt_chunk [OF "1.prems"(4)] by (simp add: each_append)
  show ?case
  proof (cases "?e = n")
    case True
    then show ?thesis
      using chunk split b' by (intro exI [of _ b']) (simp add: chainChunks.simps [of env n n])
  next
    case False
    have "env_ok env ?b" "rows_ok (level_of ?b) n (bdEdges ?b)" "n = length (bdNodes ?b)" "?e < n" "chained ?b ?e"
      using env_ok_cong [of ?b b env] nodes "1.prems"(1,3) b'(3,4) False bounds(2) by (auto simp: chained_def)
    from "1.IH" [OF _ pre b'(1) this] "1.prems"(4) obtain b'' where
        b'': "each (chainNode env n) [?e..<n] ?b = Inr b''" "chainChunks env n ?e ?b = (Inr (), b''\<lparr>bdChainNext := n\<rparr>)"
        "b'' = ?b\<lparr>bdEdges := bdEdges b''\<rparr>" "rows_ok (level_of ?b) n (bdEdges b'')" "chained b'' n" by auto
    let ?c = "b\<lparr>bdEdges := bdEdges b''\<rparr>"
    obtain c where c: "each (chainNode env n) [?e..<n] b' = Inr c" "b'' = c\<lparr>bdChainNext := ?e\<rparr>"
      using b''(1) chains_frame [of env n "[?e..<n]" ?e b'] by (cases "each (chainNode env n) [?e..<n] b'") auto
    obtain d where "each (chainNode env n) [?e..<n] b' = Inr d" "d = b'\<lparr>bdEdges := bdEdges d\<rparr>"
      using chain_ok [of env b' n ?e n] env_ok_cong [of b' b env] nodes "1.prems"(1,3) b'(3,4) bounds by auto
    with c(1) have "c = b'\<lparr>bdEdges := bdEdges c\<rparr>" by simp
    then have "c = b\<lparr>bdEdges := bdEdges c\<rparr>" using b'(2) by (metis builder.update_convs(2) builder.surjective)
    moreover have "rows_ok (level_of b) n (bdEdges c)" "chained c n"
      using b''(4,5) c(2) nodes by (simp_all add: chained_def)
    moreover have "chainChunks env n ?e ?b = (Inr (), c\<lparr>bdChainNext := n\<rparr>)" using b''(2) c(2) by simp
    ultimately show ?thesis using split c(1) chunk by auto
  qed
qed

section \<open>The whole build\<close>

definition graph_built :: "builder \<Rightarrow> bool" where
  "graph_built b \<longleftrightarrow> bdReady b \<and> bdNext b = length (bdNodes b) \<and> entry_ok b
     \<and> rows_ok (level_of b) (length (bdNodes b)) (bdEdges b) \<and> chained b (length (bdNodes b))"

text \<open>A build without transactions.\<close>

definition buildAtOnce :: "build_env \<Rightarrow> builder \<Rightarrow> builder build_result" where
  "buildAtOnce env b =
     (let n = length (bdNodes b) in
      case each (insertNode env) [0..<n] b of
        Inl e \<Rightarrow> Inl e
      | Inr b \<Rightarrow>
          if n < 2 then Inr (b\<lparr>bdReady := True\<rparr>)
          else (case each (chainNode env n) [0..<n] b of
            Inl e \<Rightarrow> Inl e
          | Inr b \<Rightarrow> Inr (b\<lparr>bdChainNext := n, bdReady := True\<rparr>)))"

lemma Build_ok:
  assumes "build_ok b" and "env_ok env b" and "bdNext b = 0" and "bdChainNext b = 0" and "\<not> bdReady b"
  shows "\<exists>b'. Build env b = (Inr (), b') \<and> buildAtOnce env b = Inr b' \<and> bdNodes b' = bdNodes b \<and> graph_built b'"
proof -
  let ?n = "length (bdNodes b)"
  obtain c where c: "insertChunks env ?n 0 b = (Inr (), c)" "each (insertNode env) [0..<?n] b = Inr c" "build_ok c"
      "bdNext c = ?n" "bdNodes c = bdNodes b" "bdChainNext c = 0" "\<not> bdReady c"
    using insertChunks_ok [OF assms(1,2) refl refl] assms(3-5) by auto
  have rows: "rows_ok (level_of c) ?n (bdEdges c)" and entry: "entry_ok c" using c(3,4) by (auto simp: build_ok_def)
  have start: "chained c 0" by (simp add: chained_def)
  show ?thesis
  proof (cases "?n < 2")
    case True
    then have "chained c ?n" by (auto simp: chained_def c(5))
    with c rows entry True assms(3) show ?thesis
      by (auto simp: Build_def buildAtOnce_def ensureLevelZeroChain_def Let_def graph_built_def entry_ok_def chained_def
          split: option.splits)
  next
    case False
    have "env_ok env c" using env_ok_cong [of c b env] assms(2) c(5) by simp
    moreover have "?n = length (bdNodes c)" using c(5) by simp
    moreover have "0 < ?n" using False by linarith
    ultimately obtain d where
        d: "each (chainNode env ?n) [0..<?n] c = Inr d" "chainChunks env ?n 0 c = (Inr (), d\<lparr>bdChainNext := ?n\<rparr>)"
        "d = c\<lparr>bdEdges := bdEdges d\<rparr>" "rows_ok (level_of c) ?n (bdEdges d)" "chained d ?n"
      using chainChunks_ok [OF _ rows _ _ start] by blast
    have fields: "bdNodes d = bdNodes b" "bdNext d = ?n" "bdEntry d = bdEntry c"
      by (subst d(3), simp add: c(4,5))+
    have "\<not> bdReady d" by (subst d(3)) (simp add: c(7))
    let ?d = "d\<lparr>bdChainNext := ?n, bdReady := True\<rparr>"
    have "graph_built ?d"
      using d(4,5) fields entry c(4,5) by (auto simp: graph_built_def entry_ok_def chained_def split: option.splits)
    moreover have "Build env b = (Inr (), ?d)" "buildAtOnce env b = Inr ?d"
      using c(1,2,6,7) d(1,2) False assms(3) \<open>\<not> bdReady d\<close>
      by (simp_all add: Build_def buildAtOnce_def ensureLevelZeroChain_def Let_def)
    ultimately show ?thesis using fields by simp
  qed
qed

lemma populate_ok:
  assumes "populate sha256 assets = Inr b"
  shows "build_ok b" and "bdNext b = 0" and "bdChainNext b = 0" and "\<not> bdReady b"
    and "length (bdNodes b) = length assets"
  using assms by (auto simp: populate_def build_ok_def rows_ok_def entry_ok_def split: if_splits)


definition one_asset :: "string \<Rightarrow> gotime \<Rightarrow> semantic_asset" where
  "one_asset name t = \<lparr>saSourceKey = ''s'', saID = name, saMediaType = ''image'', saFilename = name @ ''.jpg'',
     saCapturedAt = t, saDuration = None, saVector = [], saMaxLevel = 0\<rparr>"

definition two_assets :: "semantic_asset list" where "two_assets = [one_asset ''b'' 7, one_asset ''a'' 5]"

text \<open>An environment of two vectors with one coordinate; every similarity is one.\<close>

definition unit_env :: build_env where
  "unit_env = \<lparr>envDot = \<lambda>v w. 0x3F800000,
     envPayload = \<lambda>i. if i < 2 then Some [0x3F800000] else None, envSort = \<lambda>lt xs. xs\<rparr>"

definition flat_digest :: "string \<Rightarrow> string" where "flat_digest s = replicate 32 (CHR ''a'')"

lemma unit_env_ok: "length (bdNodes b) = 2 \<Longrightarrow> env_ok unit_env b"
  by (auto simp: env_ok_def unit_env_def permutes_def f32_nan_def f32_magnitude_def less_2_cases_iff)


section \<open>Interrupted builds\<close>

text \<open>The same environment where some payloads cannot be read.\<close>

definition weaker :: "build_env \<Rightarrow> build_env \<Rightarrow> bool" where
  "weaker env' env \<longleftrightarrow> envDot env' = envDot env \<and> envSort env' = envSort env
     \<and> (\<forall>i v. envPayload env' i = Some v \<longrightarrow> envPayload env i = Some v)"

lemma vectorOf_weaker: "weaker env' env \<Longrightarrow> vectorOf env' b i = Inr v \<Longrightarrow> vectorOf env b i = Inr v"
  by (auto simp: weaker_def vectorOf_def split: if_splits option.splits)

lemma similarity_weaker: "weaker env' env \<Longrightarrow> similarity env' b q i = Inr x \<Longrightarrow> similarity env b q i = Inr x"
  using vectorOf_weaker [of env' env b i] by (auto simp: similarity_def weaker_def split: sum.splits)

lemma prune_weaker: "weaker env' env \<Longrightarrow> prune env' present c force = prune env present c force"
  unfolding prune_def weaker_def by (elim conjE) (simp only:)

lemma addPrunedEdge_weaker: "weaker env' env \<Longrightarrow> addPrunedEdge env' s l c force E = addPrunedEdge env s l c force E"
  by (simp add: addPrunedEdge_def prune_weaker)

lemma backLinks_weaker: "weaker env' env \<Longrightarrow> backLinks env' i l rank xs E = backLinks env i l rank xs E"
  by (induction xs arbitrary: E rank) (auto simp: addPrunedEdge_weaker split: sum.splits)

lemma scanEdges_weaker:
  "weaker env' env \<Longrightarrow> scanEdges env' b q es c m = Inr x \<Longrightarrow> scanEdges env b q es c m = Inr x"
  by (induction es arbitrary: c m) (auto split: sum.splits if_splits dest: similarity_weaker)

lemma greedyNearestLoop_weaker:
  "weaker env' env \<Longrightarrow> greedyNearestLoop env' b q l c = Inr n \<Longrightarrow> greedyNearestLoop env b q l c = Inr n"
proof (induction env' b q l c rule: greedyNearestLoop.induct)
  case (1 env' b q l c)
  from "1.prems"(2) obtain c' m where s: "scanEdges env' b q (edges (bdEdges b) (scOrdinal c) l) c False = Inr (c', m)"
    by (auto simp: greedyNearestLoop.simps [of env' b q l c] split: sum.splits)
  then show ?case
    using "1.IH" [OF s refl _ "1.prems"(1)] "1.prems" scanEdges_weaker [OF "1.prems"(1) s]
    by (auto simp: greedyNearestLoop.simps [of env' b q l c] greedyNearestLoop.simps [of env b q l c] split: if_splits)
qed

lemma greedyNearest_weaker:
  assumes "weaker env' env" and "greedyNearest env' b q c l = Inr n"
  shows "greedyNearest env b q c l = Inr n"
proof -
  obtain x where "similarity env' b q c = Inr x" "greedyNearestLoop env' b q l x = Inr n"
    using assms(2) by (auto simp: greedyNearest_def split: sum.splits)
  then show ?thesis
    using similarity_weaker [OF assms(1)] greedyNearestLoop_weaker [OF assms(1)] by (simp add: greedyNearest_def)
qed

lemma approach_weaker: "weaker env' env \<Longrightarrow> approach env' b q l n c = Inr m \<Longrightarrow> approach env b q l n c = Inr m"
  by (induction n arbitrary: c) (auto split: sum.splits dest: greedyNearest_weaker)

lemma pushAll_weaker: "weaker env' env \<Longrightarrow> pushAll env' b q ns c = Inr c' \<Longrightarrow> pushAll env b q ns c = Inr c'"
  by (induction ns arbitrary: c) (auto split: sum.splits dest: similarity_weaker)

lemma searchLayerLoop_weaker:
  "weaker env' env \<Longrightarrow> searchLayerLoop env' b q l m cs v rs = Inr xs \<Longrightarrow> searchLayerLoop env b q l m cs v rs = Inr xs"
proof (induction env' b q l m cs v rs rule: searchLayerLoop.induct)
  case (1 env' b q l m cs v rs)
  note unf = searchLayerLoop.simps [of _ b q l m cs v rs]
  show ?case
  proof (cases "cs = [] \<or> max m semanticHNSWMaxNeighbors < card v")
    case True
    then show ?thesis using "1.prems"(2) unf by simp
  next
    case False
    obtain item rest where pop: "heap_pop scored_less cs = (item, rest)" by fastforce
    obtain ns w where u: "unvisited (edges (bdEdges b) (scOrdinal item) l) v = (ns, w)" by fastforce
    obtain cs' where push: "pushAll env' b q ns rest = Inr cs'"
      using "1.prems"(2) unfolding unf if_not_P [OF False] by (auto simp: pop u split: sum.splits)
    have "searchLayerLoop env' b q l m cs' w (putResult item rs) = Inr xs"
      using "1.prems"(2) push unfolding unf if_not_P [OF False] by (simp add: pop u)
    from "1.IH" [OF False pop [symmetric] refl refl u [symmetric] refl push "1.prems"(1) this]
    show ?thesis unfolding unf if_not_P [OF False] by (simp add: pop u pushAll_weaker [OF "1.prems"(1) push])
  qed
qed

lemma searchLayer_weaker:
  assumes "weaker env' env" and "searchLayer env' b q c l m = Inr xs"
  shows "searchLayer env b q c l m = Inr xs"
proof -
  obtain x ys where "similarity env' b q c = Inr x" "searchLayerLoop env' b q l m [x] {c} [] = Inr ys"
      "xs = envSort env' scored_less ys"
    using assms(2) by (auto simp: searchLayer_def split: sum.splits)
  moreover have "envSort env' = envSort env" using assms(1) by (simp add: weaker_def)
  ultimately show ?thesis
    using similarity_weaker [OF assms(1)] searchLayerLoop_weaker [OF assms(1)] by (simp add: searchLayer_def)
qed

lemma linkLevel_weaker:
  assumes "weaker env' env" and "linkLevel env' i q l c b = Inr r"
  shows "linkLevel env i q l c b = Inr r"
proof -
  obtain xs E E' where xs: "searchLayer env' b q c l semanticHNSWEfConstruction = Inr xs"
      "replaceEdges i l (take semanticHNSWMaxNeighbors xs) (bdEdges b) = Inr E"
      "backLinks env' i l 0 (take semanticHNSWMaxNeighbors xs) E = Inr E'"
      "r = (if take semanticHNSWMaxNeighbors xs = [] then c else scOrdinal (hd (take semanticHNSWMaxNeighbors xs)),
          b\<lparr>bdEdges := E'\<rparr>)"
    using assms(2) by (force simp: linkLevel_def Let_def split: sum.splits)
  have "backLinks env i l 0 (take semanticHNSWMaxNeighbors xs) E = Inr E'"
    using xs(3) by (simp add: backLinks_weaker [OF assms(1)])
  with xs searchLayer_weaker [OF assms(1) xs(1)] show ?thesis by (simp add: linkLevel_def Let_def)
qed

lemma linkLevels_weaker:
  assumes "weaker env' env"
  shows "linkLevels env' i q n c b = Inr r \<Longrightarrow> linkLevels env i q n c b = Inr r"
proof (induction n arbitrary: c b)
  case (Suc n)
  then obtain c' b' where "linkLevel env' i q n c b = Inr (c', b')" "linkLevels env' i q n c' b' = Inr r"
    by (auto split: sum.splits)
  with Suc.IH linkLevel_weaker [OF assms] show ?case by simp
qed simp

lemma insertNode_weaker:
  assumes "weaker env' env" and "insertNode env' i b = Inr b'"
  shows "insertNode env i b = Inr b'"
proof (cases "bdEntry b")
  case None
  with assms(2) show ?thesis by (simp add: insertNode_def split: if_splits)
next
  case (Some p)
  obtain e l where p: "p = (e, l)" by (cases p)
  let ?m = "level_of b i"
  obtain q c b'' where q: "vectorOf env' b i = Inr q" "approach env' b q ?m (l - ?m) e = Inr c"
      "linkLevels env' i q (min ?m l + 1) c b = Inr b''"
    using assms(2) Some p by (auto simp: insertNode_def Let_def split: sum.splits if_splits)
  note w = vectorOf_weaker [OF assms(1) q(1)] approach_weaker [OF assms(1) q(2)] linkLevels_weaker [OF assms(1) q(3)]
  from assms(2) Some p q w show ?thesis by (auto simp: insertNode_def Let_def simp del: linkLevels.simps split: if_splits)
qed

lemma each_weaker:
  assumes "\<And>i b b'. f i b = Inr b' \<Longrightarrow> g i b = Inr b'"
  shows "each f is b = Inr b' \<Longrightarrow> each g is b = Inr b'"
proof (induction "is" arbitrary: b)
  case (Cons i "is")
  then obtain c where "f i b = Inr c" "each f is c = Inr b'" by (auto split: sum.splits)
  with Cons.IH assms show ?case by simp
qed simp

lemma prefetch_weaker:
  "weaker env' env \<Longrightarrow> prefetchOrdinalRange env' b s e = Inr () \<Longrightarrow> prefetchOrdinalRange env b s e = Inr ()"
  unfolding prefetchOrdinalRange_def list_all_iff is_ok_iff by (metis vectorOf_weaker sum.distinct(1))

lemma chainEdges_weaker:
  assumes "weaker env' env"
  shows "chainEdges env' i v ns b = Inr b' \<Longrightarrow> chainEdges env i v ns b = Inr b'"
proof (induction ns arbitrary: b)
  case (Cons n ns)
  then obtain x E where "similarity env' b v n = Inr x" "addPrunedEdge env' i 0 x True (bdEdges b) = Inr E"
      "chainEdges env' i v ns (b\<lparr>bdEdges := E\<rparr>) = Inr b'" by (auto split: sum.splits)
  with Cons.IH similarity_weaker [OF assms] show ?case by (simp add: addPrunedEdge_weaker [OF assms])
qed simp

lemma chainNode_weaker:
  assumes "weaker env' env" and "chainNode env' n i b = Inr b'"
  shows "chainNode env n i b = Inr b'"
proof -
  obtain v where "vectorOf env' b i = Inr v" using assms(2) by (auto simp: chainNode_def split: sum.splits)
  with vectorOf_weaker [OF assms(1)] chainEdges_weaker [OF assms(1)] assms(2) show ?thesis by (simp add: chainNode_def)
qed

text \<open>An insertion leaves the nodes and the progress of the chain, and records the next ordinal.\<close>

lemma linkLevels_frame: "linkLevels env i q n c b = Inr b' \<Longrightarrow> b' = b\<lparr>bdEdges := bdEdges b'\<rparr>"
proof (induction n arbitrary: c b)
  case (Suc n)
  obtain c' d where d: "linkLevel env i q n c b = Inr (c', d)" "linkLevels env i q n c' d = Inr b'"
    using Suc.prems by (auto split: sum.splits)
  have "d = b\<lparr>bdEdges := bdEdges d\<rparr>" using d(1) by (auto simp: linkLevel_def Let_def split: sum.splits)
  with Suc.IH [OF d(2)] show ?case by (metis builder.update_convs(2) builder.surjective)
qed simp

definition steps_over :: "builder \<Rightarrow> builder \<Rightarrow> bool" where
  "steps_over b b' \<longleftrightarrow> bdNodes b' = bdNodes b \<and> bdChainNext b' = bdChainNext b \<and> bdReady b' = bdReady b"

lemma insertNode_frame:
  assumes "insertNode env i b = Inr b'"
  shows "bdNext b' = i + 1" and "steps_over b b'"
proof -
  obtain c where c: "steps_over b c" "\<exists>e l. b' = recordInsertion e l (i + 1) c"
  proof (cases "bdEntry b")
    case None
    with assms show ?thesis by (intro that [of b]) (auto simp: insertNode_def steps_over_def split: if_splits)
  next
    case (Some p)
    obtain e l where p: "p = (e, l)" by (cases p)
    obtain q c d where link: "linkLevels env i q (min (level_of b i) l + 1) c b = Inr d"
      and ins: "b' = (if l < level_of b i \<or> level_of b i = l \<and> i < e then recordInsertion i (level_of b i) (i + 1) d
          else recordInsertion e l (i + 1) d)"
      using assms Some p
      by (cases "length (bdNodes b) \<le> i") (simp_all add: insertNode_def Let_def del: linkLevels.simps split: sum.splits)
    have d: "d = b\<lparr>bdEdges := bdEdges d\<rparr>" by (rule linkLevels_frame [OF link])
    have "steps_over b d" using d unfolding steps_over_def by (metis builder.select_convs builder.update_convs(2) builder.surjective)
    moreover have "\<exists>e l. b' = recordInsertion e l (i + 1) d" using ins by (auto split: if_splits)
    ultimately show ?thesis using that by blast
  qed
  then show "bdNext b' = i + 1" "steps_over b b'" by (auto simp: recordInsertion_def steps_over_def)
qed

lemma inserts_frame:
  "each (insertNode env) [s..<e] b = Inr b' \<Longrightarrow> s < e \<Longrightarrow> bdNext b' = e \<and> steps_over b b'"
proof (induction "e - s" arbitrary: s b)
  case (Suc m)
  then obtain c where c: "insertNode env s b = Inr c" "each (insertNode env) [s + 1..<e] c = Inr b'"
    by (auto simp: upt_conv_Cons split: sum.splits)
  note f = insertNode_frame [OF c(1)]
  show ?case
  proof (cases "s + 1 < e")
    case True
    with Suc.hyps(1) [of "s + 1" c] Suc.hyps(2) c(2) f show ?thesis by (auto simp: steps_over_def)
  next
    case False
    then have "e = s + 1" using Suc.prems(2) by simp
    with c(2) f show ?thesis by simp
  qed
qed simp

text \<open>Where the insertions stop for want of a payload, they go on with the payload there.\<close>

lemma insertChunks_resume:
  assumes "weaker env' env" and "insertChunks env' n start b = (r, b')" and "bdNext b = start"
  shows "insertChunks env n (bdNext b') b' = insertChunks env n start b \<and> steps_over b b'
    \<and> (r = Inr () \<longrightarrow> n \<le> bdNext b' \<and> insertChunks env n start b = (Inr (), b'))"
  using assms
proof (induction env' n start b rule: insertChunks.induct)
  case (1 env' n start b)
  let ?e = "chunkEnd start n"
  note unf = insertChunks.simps [of _ n start b]
  show ?case
  proof (cases "n \<le> start")
    case True
    with "1.prems"(2,3) unf show ?thesis by (auto simp: steps_over_def)
  next
    case False
    show ?thesis
    proof (cases "prefetchOrdinalRange env' b start ?e")
      case (Inl err)
      with "1.prems"(2,3) unf False show ?thesis by (auto simp: steps_over_def)
    next
      case pre: (Inr u)
      show ?thesis
      proof (cases "each (insertNode env') [start..<?e] b")
        case (Inl err)
        with "1.prems"(2,3) unf False pre show ?thesis by (auto simp: steps_over_def)
      next
        case (Inr c)
        have e: "each (insertNode env) [start..<?e] b = Inr c"
          by (rule each_weaker [OF insertNode_weaker [OF "1.prems"(1)] Inr])
        have f: "bdNext c = ?e" "steps_over b c"
          using inserts_frame [OF Inr] chunk_bounds [of start n] False by simp_all
        have "insertChunks env' n ?e c = (r, b')" using "1.prems"(2) unf False pre Inr by simp
        from "1.IH" [OF False pre Inr "1.prems"(1) this f(1)]
        have ih: "insertChunks env n (bdNext b') b' = insertChunks env n ?e c" "steps_over c b'"
          "r = Inr () \<longrightarrow> n \<le> bdNext b' \<and> insertChunks env n ?e c = (Inr (), b')" by blast+
        have "insertChunks env n start b = insertChunks env n ?e c"
          using unf False e prefetch_weaker [OF "1.prems"(1), of b start ?e] pre by simp
        with ih f(2) show ?thesis by (auto simp: steps_over_def)
      qed
    qed
  qed
qed

lemma chains_edges_only: "each (chainNode env n) is b = Inr b' \<Longrightarrow> b' = b\<lparr>bdEdges := bdEdges b'\<rparr>"
proof (induction "is" arbitrary: b)
  case (Cons i "is")
  have edges: "chainEdges env i v ns b = Inr c \<Longrightarrow> c = b\<lparr>bdEdges := bdEdges c\<rparr>" for i v ns b c
  proof (induction ns arbitrary: b)
    case (Cons n ns)
    then obtain E where "chainEdges env i v ns (b\<lparr>bdEdges := E\<rparr>) = Inr c" by (auto split: sum.splits)
    from Cons.IH [OF this] show ?case by simp
  qed simp
  obtain c where c: "chainNode env n i b = Inr c" "each (chainNode env n) is c = Inr b'"
    using Cons.prems by (auto split: sum.splits)
  have "c = b\<lparr>bdEdges := bdEdges c\<rparr>" using c(1) edges by (auto simp: chainNode_def split: sum.splits)
  with Cons.IH [OF c(2)] show ?case by (metis builder.update_convs(2) builder.surjective)
qed simp

lemma chainChunks_resume:
  assumes "weaker env' env" and "chainChunks env' n start b = (r, b')" and "bdChainNext b = start"
  shows "chainChunks env n (bdChainNext b') b' = chainChunks env n start b
    \<and> bdNodes b' = bdNodes b \<and> bdNext b' = bdNext b \<and> bdReady b' = bdReady b
    \<and> (r = Inr () \<longrightarrow> chainChunks env n start b = (Inr (), b'))"
  using assms
proof (induction env' n start b rule: chainChunks.induct)
  case (1 env' n start b)
  let ?e = "chunkEnd start n"
  note unf = chainChunks.simps [of _ n start b]
  show ?case
  proof (cases "n \<le> start")
    case True
    with "1.prems"(2,3) unf show ?thesis by auto
  next
    case False
    show ?thesis
    proof (cases "prefetchOrdinalRange env' b (start - 1) (min (?e + 1) n)")
      case (Inl err)
      with "1.prems"(2,3) unf False show ?thesis by auto
    next
      case pre: (Inr u)
      show ?thesis
      proof (cases "each (chainNode env' n) [start..<?e] b")
        case (Inl err)
        with "1.prems"(2,3) unf False pre show ?thesis by auto
      next
        case (Inr c)
        let ?c = "c\<lparr>bdChainNext := ?e\<rparr>"
        have e: "each (chainNode env n) [start..<?e] b = Inr c"
          by (rule each_weaker [OF chainNode_weaker [OF "1.prems"(1)] Inr])
        have "c = b\<lparr>bdEdges := bdEdges c\<rparr>" using chains_edges_only [OF Inr] .
        then have f: "bdNodes c = bdNodes b" "bdNext c = bdNext b" "bdReady c = bdReady b"
          by (metis builder.select_convs builder.update_convs(2) builder.surjective)+
        have "chainChunks env' n ?e ?c = (r, b')" using "1.prems"(2) unf False pre Inr by simp
        from "1.IH" [OF False pre Inr "1.prems"(1) this]
        have ih: "chainChunks env n (bdChainNext b') b' = chainChunks env n ?e ?c"
          "bdNodes b' = bdNodes b \<and> bdNext b' = bdNext b \<and> bdReady b' = bdReady b"
          "r = Inr () \<longrightarrow> chainChunks env n ?e ?c = (Inr (), b')" using f by simp_all
        have "chainChunks env n start b = chainChunks env n ?e ?c"
          using unf False e prefetch_weaker [OF "1.prems"(1), of b "start - 1" "min (?e + 1) n"] pre by simp
        with ih show ?thesis by simp
      qed
    qed
  qed
qed

text \<open>
  C20. A build that stops because a payload could not be read loses nothing: once the payload can be
  read, running it again from what was committed gives exactly the graph, and the answer, of a build
  that was never interrupted. A build that had ended is not changed by running it again.
\<close>

theorem interrupted_build_resumes:
  assumes "weaker env' env" and "Build env' b = (r, b')"
  shows "Build env b' = Build env b"
proof -
  let ?n = "length (bdNodes b)"
  obtain r1 c where c: "insertChunks env' ?n (bdNext b) b = (r1, c)" by fastforce
  note ic = insertChunks_resume [OF assms(1) c refl]
  show ?thesis
  proof (cases r1)
    case (Inl e)
    then have "b' = c" using assms(2) c by (simp add: Build_def Let_def)
    moreover have "bdNodes c = bdNodes b" using ic by (simp add: steps_over_def)
    ultimately show ?thesis using ic by (simp add: Build_def)
  next
    case (Inr u)
    then have ins: "insertChunks env ?n (bdNext b) b = (Inr (), c)" and n: "?n \<le> bdNext c" using ic by simp_all
    have nodes: "bdNodes c = bdNodes b" "bdReady c = bdReady b" using ic by (simp_all add: steps_over_def)
    have again: "insertChunks env ?n (bdNext d) d = (Inr (), d)" if "bdNext d = bdNext c" for d
      using n that by (simp add: insertChunks.simps)
    show ?thesis
    proof (cases "bdReady c")
      case True
      then have "b' = c" using assms(2) c Inr by (simp add: Build_def Let_def)
      then show ?thesis using ins again [of c] nodes True by (simp add: Build_def)
    next
      case False
      obtain r2 d where d: "ensureLevelZeroChain env' ?n c = (r2, d)" by fastforce
      have chain: "ensureLevelZeroChain env ?n d = ensureLevelZeroChain env ?n c"
        "bdNodes d = bdNodes c" "bdNext d = bdNext c" "bdReady d = bdReady c"
        "r2 = Inr () \<longrightarrow> ensureLevelZeroChain env ?n c = (Inr (), d)"
        using d chainChunks_resume [OF assms(1) _ refl, of ?n c r2 d]
        by (auto simp: ensureLevelZeroChain_def split: if_splits)
      have build: "Build env b = (case ensureLevelZeroChain env ?n c of
          (Inl e, b) \<Rightarrow> (Inl e, b) | (Inr _, b) \<Rightarrow> (Inr (), b\<lparr>bdReady := True\<rparr>))"
        using ins False by (simp add: Build_def Let_def)
      show ?thesis
      proof (cases r2)
        case (Inl e)
        then have "b' = d" using assms(2) c Inr False d by (simp add: Build_def Let_def)
        then show ?thesis using build chain again [of d] nodes False by (simp add: Build_def)
      next
        case two: (Inr u)
        then have "b' = d\<lparr>bdReady := True\<rparr>" using assms(2) c Inr False d by (simp add: Build_def Let_def)
        moreover have "Build env b = (Inr (), d\<lparr>bdReady := True\<rparr>)" using build chain two by simp
        moreover have "insertChunks env ?n (bdNext d) (d\<lparr>bdReady := True\<rparr>) = (Inr (), d\<lparr>bdReady := True\<rparr>)"
          using again [of "d\<lparr>bdReady := True\<rparr>"] chain by simp
        ultimately show ?thesis using chain nodes by (simp add: Build_def)
      qed
    qed
  qed
qed

definition half_env :: build_env where
  "half_env = unit_env\<lparr>envPayload := \<lambda>i. if i < 1 then Some [0x3F800000] else None\<rparr>"

theorem interrupted_build_resumes_witness:
  "\<exists>b. populate flat_digest two_assets = Inr b \<and> fst (Build half_env b) = Inl VectorUnavailable
     \<and> Build unit_env (snd (Build half_env b)) = Build unit_env b"
proof -
  obtain b where b: "populate flat_digest two_assets = Inr b"
    by (auto simp: populate_def two_assets_def one_asset_def)
  have two: "length (bdNodes b) = 2" "bdNext b = 0" using populate_ok [OF b] by (simp_all add: two_assets_def)
  have "vectorOf half_env b 1 = Inl VectorUnavailable" using two by (simp add: vectorOf_def half_env_def)
  then have "prefetchOrdinalRange half_env b 0 (chunkEnd 0 2) = Inl VectorUnavailable"
    by (auto simp: prefetchOrdinalRange_def chunkEnd_def semanticIndexBuilderTransactionSize_def list_all_iff is_ok_def
        intro!: bexI [of _ 1])
  then have "insertChunks half_env 2 0 b = (Inl VectorUnavailable, b)" by (simp add: insertChunks.simps [of half_env 2 0 b])
  then have "fst (Build half_env b) = Inl VectorUnavailable" using two by (simp add: Build_def)
  moreover have "weaker half_env unit_env" by (auto simp: weaker_def half_env_def unit_env_def split: if_splits)
  from interrupted_build_resumes [OF this surjective_pairing]
  have "Build unit_env (snd (Build half_env b)) = Build unit_env b" .
  ultimately show ?thesis using b by blast
qed

end
