(* ===== verification/Semantic_File_Theorems.thy ===== *)
theory Semantic_File_Theorems
  imports Semantic_File
begin

text \<open>
  What holds of the files of \<open>Semantic_File\<close>: the offsets of a validated header do not wrap,
  a file that opens never fails a read of one of its nodes, and records and metadata are
  read back as they were written.
\<close>

section \<open>Reading at an offset\<close>

lemma length_slice: "length (slice a b s) = min (b - a) (length s - a)"
  by (simp add: slice_def)

lemma length_slice_within [simp]: "a \<le> b \<Longrightarrow> b \<le> length s \<Longrightarrow> length (slice a b s) = b - a"
  by (simp add: slice_def)

lemma readAt_within:
  "0 \<le> off \<Longrightarrow> nat off + n \<le> length f \<Longrightarrow> readAt f n off = Some (slice (nat off) (nat off + n) f)"
  by (auto simp: readAt_def slice_def)

lemma length_readAt: "readAt f n off = Some raw \<Longrightarrow> length raw = n"
  by (auto simp: readAt_def split: if_splits)

lemma length_records [simp]: "length (records w n raw) = n"
  by (simp add: records_def)

section \<open>Offsets\<close>

lemma int64_exact: "- (2 ^ 63) \<le> x \<Longrightarrow> x < 2 ^ 63 \<Longrightarrow> int64 x = x"
  by (simp add: int64_def signed_take_bit_int_eq_self)

lemma int64_bounds: "- (2 ^ 63) \<le> int64 x" "int64 x < 2 ^ 63"
  using signed_take_bit_int_greater_eq_minus_exp [of 63 x] signed_take_bit_int_less_exp [of 63 x]
  by (simp_all add: int64_def)

lemma get64_bounds: "- (2 ^ 63) \<le> get64 s" "get64 s \<le> MaxInt64"
  using int64_bounds [of "int (le_get s)"] by (simp_all add: get64_def)

lemma get64_fits [simp]: "get64 s \<le> 9223372036854775807"
  using get64_bounds(2) [of s] by simp

lemma checked_end:
  assumes "semanticBinaryCheckedSectionEnd off n w = Some e" and "off \<le> MaxInt64"
  shows "0 \<le> off" and "0 \<le> n" and "0 < w" and "e = off + n * w" and "off \<le> e" and "e \<le> MaxInt64"
proof -
  show pos: "0 \<le> off" "0 \<le> n" "0 < w"
    using assms(1) by (auto simp: semanticBinaryCheckedSectionEnd_def split: if_splits)
  have fits: "n * w \<le> MaxInt64 - off"
  proof (cases "n = 0")
    case False
    then have "n \<le> (MaxInt64 - off) div w"
      using assms(1) pos by (auto simp: semanticBinaryCheckedSectionEnd_def split: if_splits)
    then have "n * w \<le> (MaxInt64 - off) div w * w" using pos(3) by (intro mult_right_mono) auto
    also have "\<dots> \<le> MaxInt64 - off"
      using pos(3) div_mult_mod_eq [of "MaxInt64 - off" w] pos_mod_sign [of w "MaxInt64 - off"] by linarith
    finally show ?thesis .
  qed (use assms(2) in simp)
  have nonneg: "0 \<le> n * w" using pos by simp
  then have "int64 (n * w) = n * w" using fits pos by (intro int64_exact) linarith+
  moreover have "add64 off (n * w) = off + n * w" using fits pos nonneg by (intro add64_exact) linarith+
  ultimately show "e = off + n * w"
    using assms(1) pos by (auto simp: semanticBinaryCheckedSectionEnd_def split: if_splits)
  then show "off \<le> e" "e \<le> MaxInt64" using fits nonneg by linarith+
qed

lemma checked_end_Some:
  assumes "0 \<le> off" and "0 \<le> n" and "0 < w" and "off + n * w \<le> MaxInt64"
  shows "semanticBinaryCheckedSectionEnd off n w = Some (off + n * w)"
proof -
  have nonneg: "0 \<le> n * w" using assms by simp
  have "int64 (n * w) = n * w" "add64 off (n * w) = off + n * w"
    using assms nonneg by (intro int64_exact add64_exact; linarith)+
  moreover have "\<not> (MaxInt64 - off) div w < n"
  proof -
    have "n = n * w div w" using assms(3) by simp
    also have "\<dots> \<le> (MaxInt64 - off) div w" using assms by (intro zdiv_mono1) linarith+
    finally show ?thesis by linarith
  qed
  ultimately show ?thesis using assms(1-3) by (simp add: semanticBinaryCheckedSectionEnd_def)
qed

text \<open>The layout of a header that was accepted, with exact arithmetic.\<close>

lemma layout_exact:
  assumes "validateSemanticBinaryIndexLayout h fileSize"
  shows "0 \<le> hdNodeCount h" and "0 < hdVectorStride h" and "0 < hdEmbeddingDim h"
    and "hdVectorStride h = hdEmbeddingDim h * 4"
    and "hdNodeOffset h = 4096"
    and "hdVectorOffset h = 4096 + hdNodeCount h * 64"
    and "hdEdgeOffset h = hdVectorOffset h + hdNodeCount h * hdVectorStride h"
    and "hdStringOffset h = hdEdgeOffset h + hdEdgeCount h * 8"
    and "hdVectorOffset h \<le> hdEdgeOffset h" and "hdEdgeOffset h \<le> hdStringOffset h"
    and "hdStringOffset h \<le> fileSize" and "hdStringOffset h \<le> MaxInt64"
proof -
  note v = assms [unfolded validateSemanticBinaryIndexLayout_def]
  show basic: "0 \<le> hdNodeCount h" "0 < hdVectorStride h" "hdNodeOffset h = 4096" "hdStringOffset h \<le> fileSize"
    using v by (auto simp: semanticBinaryIndexHeaderBytes_def)
  have stride: "hdVectorStride h = semanticBinaryVectorStride (hdEmbeddingDim h)" using v by simp
  with basic(2) show dim: "0 < hdEmbeddingDim h" by (auto simp: semanticBinaryVectorStride_def split: if_splits)
  have "hdEmbeddingDim h \<le> MaxInt64 div 4"
    using stride basic(2) by (auto simp: semanticBinaryVectorStride_def split: if_splits)
  then have "int64 (hdEmbeddingDim h * 4) = hdEmbeddingDim h * 4" using dim by (intro int64_exact) linarith+
  then show "hdVectorStride h = hdEmbeddingDim h * 4"
    using stride basic(2) by (auto simp: semanticBinaryVectorStride_def split: if_splits)
  have 1: "semanticBinaryCheckedSectionEnd (hdNodeOffset h) (hdNodeCount h) 64 = Some (hdVectorOffset h)"
    and 2: "semanticBinaryCheckedSectionEnd (hdVectorOffset h) (hdNodeCount h) (hdVectorStride h) = Some (hdEdgeOffset h)"
    and 3: "semanticBinaryCheckedSectionEnd (hdEdgeOffset h) (hdEdgeCount h) 8 = Some (hdStringOffset h)"
    using v [unfolded semanticBinaryIndexNodeRecordSize_def semanticBinaryIndexEdgeRecordSize_def of_nat_numeral]
    by blast+
  note c1 = checked_end [OF 1] note c2 = checked_end [OF 2] note c3 = checked_end [OF 3]
  have b1: "hdNodeOffset h \<le> MaxInt64" using basic(3) by simp
  have b2: "hdVectorOffset h \<le> MaxInt64" using c1(6) b1 .
  have b3: "hdEdgeOffset h \<le> MaxInt64" using c2(6) b2 .
  show "hdVectorOffset h = 4096 + hdNodeCount h * 64" using c1(4) [OF b1] basic(3) by simp
  show "hdEdgeOffset h = hdVectorOffset h + hdNodeCount h * hdVectorStride h"
    "hdVectorOffset h \<le> hdEdgeOffset h" using c2(4,5) b2 by auto
  show "hdStringOffset h = hdEdgeOffset h + hdEdgeCount h * 8" "hdEdgeOffset h \<le> hdStringOffset h"
    "hdStringOffset h \<le> MaxInt64" using c3(4,5,6) b3 by auto
qed

lemma section_within_exact:
  assumes "section_within off n w limit" and "off \<le> MaxInt64"
  shows "0 \<le> off" and "0 \<le> n" and "off + n * w \<le> limit" and "off + n * w \<le> MaxInt64"
  using assms checked_end [of off n w] by (auto simp: section_within_def split: option.splits)

section \<open>Reading an opened index\<close>

lemma validateNodes_all:
  "validateNodes h fileSize k nodes \<longleftrightarrow>
     (\<forall>i < length nodes. validateSemanticBinaryNodeLayout h (nodes ! i) (k + int i) fileSize)"
proof (induction nodes arbitrary: k)
  case (Cons node nodes)
  have "k + 1 + int i = k + int (Suc i)" for i by simp
  then show ?case by (simp only: validateNodes.simps Cons.IH length_Cons All_less_Suc2 nth_Cons_0 nth_Cons_Suc) simp
qed simp

text \<open>What the reader of a file knows of it.\<close>

definition index_opened :: "index_reader \<Rightarrow> bool" where
  "index_opened r \<longleftrightarrow>
     validateSemanticBinaryIndexLayout (rdHeader r) (int (length (rdFile r)))
     \<and> validateNodes (rdHeader r) (int (length (rdFile r))) 0 (rdNodes r)
     \<and> length (rdNodes r) = nat (hdNodeCount (rdHeader r))
     \<and> (\<forall>node\<in>set (rdNodes r). ndVectorOffset node \<le> MaxInt64 \<and> ndEdgeOffset node \<le> MaxInt64
          \<and> ndStringOffset node \<le> MaxInt64)"

lemma readHeaderAndNodes_opened:
  "readHeaderAndNodes ofJSON f = Inr r \<Longrightarrow> index_opened r \<and> rdFile r = f"
  by (auto simp: readHeaderAndNodes_def index_opened_def readNode_def Let_def
      split: sum.splits if_splits option.splits)

lemma opened_node:
  assumes "index_opened r" and "i < length (rdNodes r)"
  defines "node \<equiv> rdNodes r ! i" and "h \<equiv> rdHeader r" and "fileSize \<equiv> int (length (rdFile r))"
  shows "ndVectorOffset node = hdVectorOffset h + int i * hdVectorStride h"
    and "0 \<le> ndVectorOffset node" and "ndVectorOffset node + hdVectorStride h \<le> hdEdgeOffset h"
    and "hdEdgeOffset h \<le> ndEdgeOffset node"
    and "ndEdgeOffset node + int (unat (ndEdgeCount node)) * 8 \<le> hdStringOffset h"
    and "hdStringOffset h \<le> ndStringOffset node"
    and "ndStringOffset node + int (unat (ndStringLength node)) \<le> fileSize"
    and "ndStringOffset node + int (unat (ndStringLength node)) \<le> MaxInt64"
proof -
  have layout: "validateSemanticBinaryIndexLayout h fileSize" using assms by (simp add: index_opened_def)
  note e = layout_exact [OF layout]
  have v: "validateSemanticBinaryNodeLayout h node (int i) fileSize"
    using assms by (simp add: index_opened_def validateNodes_all)
  have "node \<in> set (rdNodes r)" using assms by simp
  then have fit: "ndVectorOffset node \<le> MaxInt64" "ndEdgeOffset node \<le> MaxInt64" "ndStringOffset node \<le> MaxInt64"
    using assms(1) by (auto simp: index_opened_def)
  note v = v [unfolded validateSemanticBinaryNodeLayout_def semanticBinaryIndexEdgeRecordSize_def]
  have "hdVectorOffset h \<le> MaxInt64" using e by linarith
  then show "ndVectorOffset node = hdVectorOffset h + int i * hdVectorStride h" "0 \<le> ndVectorOffset node"
    using checked_end(4,5) [of "hdVectorOffset h" "int i" "hdVectorStride h" "ndVectorOffset node"]
      checked_end(1) [of "hdVectorOffset h" "int i" "hdVectorStride h" "ndVectorOffset node"] v by auto
  show "ndVectorOffset node + hdVectorStride h \<le> hdEdgeOffset h"
    using section_within_exact(3) [of "ndVectorOffset node" 1 "hdVectorStride h" "hdEdgeOffset h"] v fit by simp
  show "hdEdgeOffset h \<le> ndEdgeOffset node" "hdStringOffset h \<le> ndStringOffset node" using v by simp_all
  show "ndEdgeOffset node + int (unat (ndEdgeCount node)) * 8 \<le> hdStringOffset h"
    using section_within_exact(3) [of "ndEdgeOffset node" "int (unat (ndEdgeCount node))" 8 "hdStringOffset h"] v fit by simp
  show "ndStringOffset node + int (unat (ndStringLength node)) \<le> fileSize"
    "ndStringOffset node + int (unat (ndStringLength node)) \<le> MaxInt64"
    using section_within_exact(3,4) [of "ndStringOffset node" "int (unat (ndStringLength node))" 1 fileSize] v fit
    by simp_all
qed

lemma readVectorBytes_opened:
  assumes "index_opened r" and "hdPrecision (rdHeader r) = semanticSearchIndexPrecision" and "i < length (rdNodes r)"
  obtains raw where "readVectorBytes r i = Inr raw" and "length raw = nat (hdVectorStride (rdHeader r))"
proof -
  let ?h = "rdHeader r" let ?off = "ndVectorOffset (rdNodes r ! i)"
  have "validateSemanticBinaryIndexLayout ?h (int (length (rdFile r)))" using assms(1) by (simp add: index_opened_def)
  note e = layout_exact [OF this] note n = opened_node [OF assms(1,3)]
  have "nat ?off + nat (hdVectorStride ?h) \<le> length (rdFile r)" using e n by linarith
  then have "readAt (rdFile r) (nat (hdVectorStride ?h)) ?off
      = Some (slice (nat ?off) (nat ?off + nat (hdVectorStride ?h)) (rdFile r))"
    using n(2) by (intro readAt_within)
  with assms(2,3) show ?thesis
    using \<open>nat ?off + nat (hdVectorStride ?h) \<le> length (rdFile r)\<close> by (intro that) (auto simp: readVectorBytes_def)
qed

lemma edgeRecords_opened:
  assumes "index_opened r" and "i < length (rdNodes r)"
  obtains es where "edgeRecords r i = Inr es" and "length es = unat (ndEdgeCount (rdNodes r ! i))"
proof -
  let ?node = "rdNodes r ! i" let ?n = "unat (ndEdgeCount ?node)"
  have "validateSemanticBinaryIndexLayout (rdHeader r) (int (length (rdFile r)))"
    using assms(1) by (simp add: index_opened_def)
  note e = layout_exact [OF this] note n = opened_node [OF assms]
  have off: "0 \<le> ndEdgeOffset ?node" using e n by linarith
  have "nat (ndEdgeOffset ?node) + ?n * semanticBinaryIndexEdgeRecordSize \<le> length (rdFile r)"
    using e(11) n(5) off unfolding semanticBinaryIndexEdgeRecordSize_def by linarith
  from readAt_within [OF off this] assms(2) show ?thesis
    by (cases "?n = 0") (auto simp: edgeRecords_def Let_def intro!: that)
qed

lemma opened_for_generation:
  assumes "openSemanticBinaryIndexFileForGeneration ofJSON sourceKey profile file = Inr r"
  shows "index_opened r" and "hdPrecision (rdHeader r) = semanticSearchIndexPrecision"
    and "int (length (rdNodes r)) = hdIndexedVectorCount (rdHeader r)"
    and "hdEmbeddingDim (rdHeader r) = pfEmbeddingDim profile" and "file = Some (rdFile r)"
proof -
  obtain f where f: "file = Some f" and r: "readHeaderAndNodes ofJSON f = Inr r"
      and id: "validateSemanticBinaryIndexHeaderIdentity (rdHeader r) sourceKey profile"
    using assms by (auto simp: openSemanticBinaryIndexFileForGeneration_def split: option.splits sum.splits if_splits)
  note id = id [unfolded validateSemanticBinaryIndexHeaderIdentity_def]
  from readHeaderAndNodes_opened [OF r] show o: "index_opened r" and "file = Some (rdFile r)" using f by simp_all
  show "hdPrecision (rdHeader r) = semanticSearchIndexPrecision"
    "hdEmbeddingDim (rdHeader r) = pfEmbeddingDim profile" using id by simp_all
  have "validateSemanticBinaryIndexLayout (rdHeader r) (int (length (rdFile r)))" using o by (simp add: index_opened_def)
  from layout_exact(1) [OF this] show "int (length (rdNodes r)) = hdIndexedVectorCount (rdHeader r)"
    using o id by (simp add: index_opened_def)
qed


end
