(* ===== verification/Semantic_Search.thy ===== *)
theory Semantic_Search
  imports Semantic_File_Theorems
begin

text \<open>
  The search in a semantic index (\<open>newSearchSession\<close> and \<open>advance\<close> of
  \<open>internal/catalog/semantic_binary_index.go\<close>): a greedy descent through the upper levels of the
  graph picks the node to start from, and a best-first traversal of level 0 then hands out scored
  assets in batches. The addition and the multiplication of \<open>float32\<close> are parameters. A session
  keeps the state it has when a call fails.
\<close>

section \<open>Operations\<close>

type_synonym arith32 = "(float32 \<Rightarrow> float32 \<Rightarrow> float32) \<times> (float32 \<Rightarrow> float32 \<Rightarrow> float32)"

abbreviation score :: "arith32 \<Rightarrow> index_reader \<Rightarrow> vector \<Rightarrow> nat \<Rightarrow> float32 index_result" where
  "score ar r query i \<equiv> dotOrdinalWithBuffer (fst ar) (snd ar) r i query"

text \<open>The loop over the neighbours of a node in the descent; it may move while it scans.\<close>

fun scanNeighbors :: "arith32 \<Rightarrow> index_reader \<Rightarrow> vector \<Rightarrow> nat list \<Rightarrow> nat \<Rightarrow> float32 \<Rightarrow> bool \<Rightarrow>
    (nat \<times> float32 \<times> bool) index_result" where
  "scanNeighbors ar r query [] current currentScore improved = Inr (current, currentScore, improved)"
| "scanNeighbors ar r query (n # ns) current currentScore improved =
     (case score ar r query n of
        Inl e \<Rightarrow> Inl e
      | Inr s \<Rightarrow>
          if f32_less currentScore s then scanNeighbors ar r query ns n s True
          else scanNeighbors ar r query ns current currentScore improved)"

text \<open>The nodes that score better than a node: they bound how often the descent can move.\<close>

definition better_nodes :: "arith32 \<Rightarrow> index_reader \<Rightarrow> vector \<Rightarrow> float32 \<Rightarrow> nat set" where
  "better_nodes ar r query s = {i. i < length (rdNodes r) \<and> (\<exists>t. score ar r query i = Inr t \<and> f32_less s t)}"

lemma f32_less_trans: "f32_less a b \<Longrightarrow> f32_less b c \<Longrightarrow> f32_less a c"
  by (auto simp: f32_less_def)

lemma f32_less_irrefl [simp]: "\<not> f32_less a a"
  by (simp add: f32_less_def)

lemma finite_better_nodes [simp]: "finite (better_nodes ar r query s)"
  by (simp add: better_nodes_def)

lemma score_in_range: "score ar r query i = Inr s \<Longrightarrow> i < length (rdNodes r)"
  by (auto simp: dotOrdinalWithBuffer_def readVectorBytes_def split: sum.splits option.splits if_splits)

lemma better_nodes_mono: "f32_less s t \<Longrightarrow> better_nodes ar r query t \<subseteq> better_nodes ar r query s"
  using f32_less_trans by (auto simp: better_nodes_def)

lemma scan_improves:
  "scanNeighbors ar r query ns c s b = Inr (c', s', b') \<Longrightarrow>
     (b' \<longrightarrow> b \<or> f32_less s s' \<and> score ar r query c' = Inr s') \<and> (c' = c \<and> s' = s \<or> f32_less s s' \<and> score ar r query c' = Inr s')"
proof (induction ns arbitrary: c s b)
  case (Cons n ns)
  then show ?case by (fastforce split: sum.splits if_splits dest: f32_less_trans)
qed simp

function descendLevel :: "arith32 \<Rightarrow> index_reader \<Rightarrow> vector \<Rightarrow> nat \<Rightarrow> nat \<Rightarrow> float32 \<Rightarrow> (nat \<times> float32) index_result" where
  "descendLevel ar r query level current currentScore =
     (case neighborOrdinals r current level of
        Inl e \<Rightarrow> Inl e
      | Inr ns \<Rightarrow>
          (case scanNeighbors ar r query ns current currentScore False of
             Inl e \<Rightarrow> Inl e
           | Inr (c, s, improved) \<Rightarrow>
               if improved then descendLevel ar r query level c s else Inr (c, s)))"
  by pat_completeness auto
termination
proof (relation "measure (\<lambda>(ar, r, query, level, c, s). card (better_nodes ar r query s))")
  fix ar r query level c s ns p c' sb s' b
  assume "scanNeighbors ar r query ns c s False = Inr p" and "(c', sb) = p" and "(s', b) = sb" and b
  then have "f32_less s s'" "score ar r query c' = Inr s'" using scan_improves by blast+
  then have "c' \<in> better_nodes ar r query s" "c' \<notin> better_nodes ar r query s'"
      "better_nodes ar r query s' \<subseteq> better_nodes ar r query s"
    using better_nodes_mono [of s s' ar r query] score_in_range [of ar r c' query s']
    by (auto simp: better_nodes_def)
  then have "better_nodes ar r query s' \<subset> better_nodes ar r query s" by blast
  then show "((ar, r, query, level, c', s'), (ar, r, query, level, c, s))
      \<in> measure (\<lambda>(ar, r, query, level, c, s). card (better_nodes ar r query s))"
    by (auto intro: psubset_card_mono)
qed simp

declare descendLevel.simps [simp del]

text \<open>The levels from a level down to 1.\<close>

fun descend :: "arith32 \<Rightarrow> index_reader \<Rightarrow> vector \<Rightarrow> nat \<Rightarrow> nat \<Rightarrow> float32 \<Rightarrow> (nat \<times> float32) index_result" where
  "descend ar r query 0 current currentScore = Inr (current, currentScore)"
| "descend ar r query (Suc level) current currentScore =
     (case descendLevel ar r query (Suc level) current currentScore of
        Inl e \<Rightarrow> Inl e
      | Inr (c, s) \<Rightarrow> descend ar r query level c s)"

record search_session =
  ssReader :: "index_reader option"
  ssQuery :: vector
  ssCandidates :: "scored list"
  ssVisited :: "nat set"
  ssProcessed :: nat

definition entryOrdinal :: "index_reader \<Rightarrow> nat" where
  "entryOrdinal r =
     fold (\<lambda>i entry. if ndMaxLevel (rdNodes r ! entry) < ndMaxLevel (rdNodes r ! i) then i else entry)
       [0..<length (rdNodes r)] 0"

definition newSearchSession :: "arith32 \<Rightarrow> index_reader \<Rightarrow> vector \<Rightarrow> search_session index_result" where
  "newSearchSession ar r query =
     (if rdNodes r = []
      then Inr \<lparr>ssReader = None, ssQuery = [], ssCandidates = [], ssVisited = {}, ssProcessed = 0\<rparr>
      else
        let entry = entryOrdinal r in
        case score ar r query entry of
          Inl e \<Rightarrow> Inl e
        | Inr s \<Rightarrow>
            (case descend ar r query (unat (ndMaxLevel (rdNodes r ! entry))) entry s of
               Inl e \<Rightarrow> Inl e
             | Inr (c, s) \<Rightarrow>
                 Inr \<lparr>ssReader = Some r, ssQuery = query,
                   ssCandidates = heap_push scored_less \<lparr>scOrdinal = c, scSimilarity = s\<rparr> [],
                   ssVisited = {c}, ssProcessed = 0\<rparr>))"

text \<open>The neighbours of a processed node: those not yet visited become candidates.\<close>

fun pushNeighbors :: "arith32 \<Rightarrow> index_reader \<Rightarrow> nat list \<Rightarrow> search_session \<Rightarrow> unit index_result \<times> search_session" where
  "pushNeighbors ar r [] s = (Inr (), s)"
| "pushNeighbors ar r (n # ns) s =
     (if n \<in> ssVisited s then pushNeighbors ar r ns s
      else
        let s = s\<lparr>ssVisited := insert n (ssVisited s)\<rparr> in
        case score ar r (ssQuery s) n of
          Inl e \<Rightarrow> (Inl e, s)
        | Inr x \<Rightarrow>
            pushNeighbors ar r ns
              (s\<lparr>ssCandidates := heap_push scored_less \<lparr>scOrdinal = n, scSimilarity = x\<rparr> (ssCandidates s)\<rparr>))"

type_synonym scored_asset = "semantic_asset \<times> float32"

text \<open>One round of the loop of \<open>advance\<close>: the best candidate is taken and its neighbours are added.\<close>

definition visitBest :: "arith32 \<Rightarrow> index_reader \<Rightarrow> search_session \<Rightarrow> scored_asset index_result \<times> search_session" where
  "visitBest ar r s =
     (let (item, rest) = heap_pop scored_less (ssCandidates s);
          s = s\<lparr>ssCandidates := rest, ssProcessed := ssProcessed s + 1\<rparr>
      in case assetForOrdinal r (scOrdinal item) of
           Inl e \<Rightarrow> (Inl e, s)
         | Inr asset \<Rightarrow>
             (case neighborOrdinals r (scOrdinal item) 0 of
                Inl e \<Rightarrow> (Inl e, s)
              | Inr ns \<Rightarrow>
                  (case pushNeighbors ar r ns s of
                     (Inl e, s) \<Rightarrow> (Inl e, s)
                   | (Inr _, s) \<Rightarrow> (Inr (asset, scSimilarity item), s))))"

text \<open>At most \<open>k\<close> rounds, as long as there are candidates.\<close>

primrec visits :: "arith32 \<Rightarrow> index_reader \<Rightarrow> nat \<Rightarrow> search_session \<Rightarrow> scored_asset list index_result \<times> search_session" where
  "visits ar r 0 s = (Inr [], s)"
| "visits ar r (Suc k) s =
     (if ssCandidates s = [] then (Inr [], s)
      else case visitBest ar r s of
        (Inl e, s) \<Rightarrow> (Inl e, s)
      | (Inr x, s) \<Rightarrow>
          (case visits ar r k s of
             (Inl e, s) \<Rightarrow> (Inl e, s)
           | (Inr xs, s) \<Rightarrow> (Inr (x # xs), s)))"

definition advance :: "arith32 \<Rightarrow> search_session \<Rightarrow> int \<Rightarrow> (scored_asset list \<times> bool) index_result \<times> search_session" where
  "advance ar s additionalVisits =
     (case ssReader s of
        None \<Rightarrow> (Inr ([], True), s)
      | Some r \<Rightarrow>
          if additionalVisits \<le> 0 then (Inr ([], True), s)
          else
            let remaining = min additionalVisits (int (length (rdNodes r)) - int (ssProcessed s)) in
            case visits ar r (nat remaining) s of
              (Inl e, s) \<Rightarrow> (Inl e, s)
            | (Inr results, s) \<Rightarrow> (Inr (results, ssCandidates s = []), s))"

end
