(* ===== verification/Semantic_Search_Theorems.thy ===== *)
theory Semantic_Search_Theorems
  imports Semantic_Search
begin

text \<open>
  What a search returns: with enough visits exactly the nodes that level 0 of the graph reaches from
  the node the descent ends in, each once and best candidate first, and the same in one call as in
  several.
\<close>

section \<open>Sound indexes\<close>

text \<open>An open index whose edges lead to nodes and whose metadata decode.\<close>

definition node_sound :: "index_reader \<Rightarrow> nat \<Rightarrow> bool" where
  "node_sound r i \<longleftrightarrow>
     (case edgeRecords r i of
        Inl _ \<Rightarrow> False
      | Inr es \<Rightarrow> list_all (\<lambda>e. unat (edNeighbor e) < length (rdNodes r)) es)
     \<and> is_ok (assetForOrdinal r i)"

definition index_sound :: "index_reader \<Rightarrow> bool" where
  "index_sound r \<longleftrightarrow>
     index_opened r \<and> hdPrecision (rdHeader r) = semanticSearchIndexPrecision
     \<and> list_all (node_sound r) [0..<length (rdNodes r)]"

definition level0 :: "index_reader \<Rightarrow> nat rel" where
  "level0 r = {(i, j). \<exists>ns. neighborOrdinals r i 0 = Inr ns \<and> j \<in> set ns}"

lemma sound_score:
  assumes "index_sound r" and "i < length (rdNodes r)"
  obtains s where "score ar r query i = Inr s"
proof -
  obtain raw where "readVectorBytes r i = Inr raw"
    using readVectorBytes_opened [of r i] assms by (auto simp: index_sound_def)
  then show ?thesis by (intro that) (simp add: dotOrdinalWithBuffer_def Let_def)
qed

lemma sound_neighbors:
  assumes "index_sound r" and "i < length (rdNodes r)"
  obtains ns where "neighborOrdinals r i level = Inr ns" and "set ns \<subseteq> {..<length (rdNodes r)}"
proof -
  have "node_sound r i" using assms by (auto simp: index_sound_def list_all_iff)
  then obtain es where "edgeRecords r i = Inr es" "\<forall>e\<in>set es. unat (edNeighbor e) < length (rdNodes r)"
    by (auto simp: node_sound_def list_all_iff split: sum.splits)
  then show ?thesis
    by (intro that [of "map (\<lambda>e. unat (edNeighbor e)) (filter (\<lambda>e. unat (edLevel e) = level) es)"])
      (auto simp: neighborOrdinals_def)
qed

lemma sound_asset:
  assumes "index_sound r" and "i < length (rdNodes r)"
  obtains a where "assetForOrdinal r i = Inr a"
proof -
  have "node_sound r i" using assms by (auto simp: index_sound_def list_all_iff)
  then show ?thesis using that by (auto simp: node_sound_def is_ok_iff)
qed

lemma level0_in_range:
  assumes "index_sound r" and "(i, j) \<in> level0 r"
  shows "i < length (rdNodes r)" and "j < length (rdNodes r)"
proof -
  obtain ns where ns: "neighborOrdinals r i 0 = Inr ns" "j \<in> set ns" using assms(2) by (auto simp: level0_def)
  show i: "i < length (rdNodes r)"
    using ns(1) by (auto simp: neighborOrdinals_def edgeRecords_def split: sum.splits if_splits)
  show "j < length (rdNodes r)" using sound_neighbors [OF assms(1) i, of 0] ns by auto
qed

lemma reachable_in_range:
  assumes "index_sound r" and "(i, j) \<in> (level0 r)\<^sup>*" and "i < length (rdNodes r)"
  shows "j < length (rdNodes r)"
  using assms(2,3) by (induction rule: rtrancl_induct) (auto dest: level0_in_range [OF assms(1)])

section \<open>The descent\<close>

lemma scanNeighbors_sound:
  assumes "index_sound r" and "set ns \<subseteq> {..<length (rdNodes r)}"
  shows "\<exists>c' s' b'. scanNeighbors ar r query ns c s b = Inr (c', s', b') \<and>
    (c < length (rdNodes r) \<longrightarrow> score ar r query c = Inr s \<longrightarrow>
       c' < length (rdNodes r) \<and> score ar r query c' = Inr s')"
  using assms(2)
proof (induction ns arbitrary: c s b)
  case (Cons n ns)
  have n: "n < length (rdNodes r)" "set ns \<subseteq> {..<length (rdNodes r)}" using Cons.prems by auto
  obtain x where x: "score ar r query n = Inr x" using sound_score [OF assms(1) n(1)] .
  show ?case
    using Cons.IH [OF n(2), of n x True] Cons.IH [OF n(2), of c s b] x n(1) by (cases "f32_less s x") auto
qed simp

lemma descendLevel_sound:
  assumes "index_sound r" and "c < length (rdNodes r)" and "score ar r query c = Inr s"
  shows "\<exists>c' s'. descendLevel ar r query level c s = Inr (c', s') \<and> c' < length (rdNodes r) \<and> score ar r query c' = Inr s'"
  using assms
proof (induction ar r query level c s rule: descendLevel.induct)
  case (1 ar r query level c s)
  obtain ns where ns: "neighborOrdinals r c level = Inr ns" "set ns \<subseteq> {..<length (rdNodes r)}"
    using sound_neighbors [OF "1.prems"(1,2)] .
  obtain c' s' b' where scan: "scanNeighbors ar r query ns c s False = Inr (c', s', b')"
      "c' < length (rdNodes r)" "score ar r query c' = Inr s'"
    using scanNeighbors_sound [OF "1.prems"(1) ns(2), of ar query c s False] "1.prems"(2,3) by blast
  show ?case
  proof (cases b')
    case True
    then show ?thesis
      using "1.IH" [OF ns(1) scan(1) refl refl True "1.prems"(1) scan(2,3)] ns(1) scan(1)
      by (simp add: descendLevel.simps [of ar r query level c s])
  next
    case False
    then show ?thesis using ns(1) scan by (simp add: descendLevel.simps [of ar r query level c s])
  qed
qed

lemma descend_sound:
  assumes "index_sound r" and "c < length (rdNodes r)" and "score ar r query c = Inr s"
  shows "\<exists>c' s'. descend ar r query level c s = Inr (c', s') \<and> c' < length (rdNodes r) \<and> score ar r query c' = Inr s'"
  using assms(2,3)
proof (induction level arbitrary: c s)
  case (Suc level)
  then show ?case using descendLevel_sound [OF assms(1) Suc.prems, of "Suc level"] by auto
qed simp

lemma entryOrdinal_in_range: "rdNodes r \<noteq> [] \<Longrightarrow> entryOrdinal r < length (rdNodes r)"
proof -
  have "fold (\<lambda>i entry. if ndMaxLevel (rdNodes r ! entry) < ndMaxLevel (rdNodes r ! i) then i else entry) is e < n"
    if "set is \<subseteq> {..<n}" "e < n" for "is" e n
    using that by (induction "is" arbitrary: e) auto
  then show "rdNodes r \<noteq> [] \<Longrightarrow> entryOrdinal r < length (rdNodes r)"
    by (simp add: entryOrdinal_def atLeast0LessThan)
qed

section \<open>The traversal\<close>

definition shows_node :: "arith32 \<Rightarrow> index_reader \<Rightarrow> vector \<Rightarrow> nat \<Rightarrow> scored_asset \<Rightarrow> bool" where
  "shows_node ar r query i x \<longleftrightarrow> assetForOrdinal r i = Inr (fst x) \<and> score ar r query i = Inr (snd x)"

abbreviation waiting :: "search_session \<Rightarrow> nat list" where
  "waiting s \<equiv> map scOrdinal (ssCandidates s)"

text \<open>The state of a session that started at a node and has processed a list of nodes.\<close>

definition search_inv :: "arith32 \<Rightarrow> index_reader \<Rightarrow> vector \<Rightarrow> nat \<Rightarrow> nat list \<Rightarrow> search_session \<Rightarrow> bool" where
  "search_inv ar r query start done s \<longleftrightarrow>
     ssReader s = Some r \<and> ssQuery s = query \<and> ssProcessed s = length done
     \<and> distinct (done @ waiting s) \<and> ssVisited s = set done \<union> set (waiting s)
     \<and> start \<in> ssVisited s \<and> start < length (rdNodes r) \<and> ssVisited s \<subseteq> (level0 r)\<^sup>* `` {start}
     \<and> level0 r `` set done \<subseteq> ssVisited s
     \<and> (\<forall>c\<in>set (ssCandidates s). score ar r query (scOrdinal c) = Inr (scSimilarity c))"

lemma set_push [simp]: "set (heap_push lt x h) = insert x (set h)"
  using heap_push_elements [of lt x h] by (metis set_mset_add_mset_insert set_mset_mset)

lemma distinct_push: "distinct (map f (heap_push lt x h)) \<longleftrightarrow> f x \<notin> f ` set h \<and> distinct (map f h)"
proof -
  have "mset (map f (heap_push lt x h)) = mset (map f (x # h))" by (simp add: heap_push_elements)
  then have "distinct (map f (heap_push lt x h)) \<longleftrightarrow> distinct (map f (x # h))"
    by (rule mset_eq_imp_distinct_iff)
  then show ?thesis by simp
qed

text \<open>The neighbours of the node that is being processed are added one by one.\<close>

definition pushing_inv :: "arith32 \<Rightarrow> index_reader \<Rightarrow> vector \<Rightarrow> nat \<Rightarrow> nat list \<Rightarrow> search_session \<Rightarrow> bool" where
  "pushing_inv ar r query start done s \<longleftrightarrow>
     ssReader s = Some r \<and> ssQuery s = query \<and> ssProcessed s = length done
     \<and> distinct (done @ waiting s) \<and> ssVisited s = set done \<union> set (waiting s)
     \<and> start \<in> ssVisited s \<and> start < length (rdNodes r) \<and> ssVisited s \<subseteq> (level0 r)\<^sup>* `` {start}
     \<and> (\<forall>c\<in>set (ssCandidates s). score ar r query (scOrdinal c) = Inr (scSimilarity c))"

lemma pushNeighbors_sound:
  assumes "index_sound r" and "pushing_inv ar r query start done s"
    and "set ns \<subseteq> (level0 r)\<^sup>* `` {start}"
  shows "\<exists>s'. pushNeighbors ar r ns s = (Inr (), s') \<and> pushing_inv ar r query start done s'
    \<and> ssVisited s' = ssVisited s \<union> set ns"
  using assms(2,3)
proof (induction ns arbitrary: s)
  case (Cons n ns)
  show ?case
  proof (cases "n \<in> ssVisited s")
    case True
    with Cons show ?thesis by (auto simp: insert_absorb)
  next
    case False
    have "n < length (rdNodes r)"
      using reachable_in_range [OF assms(1), of start n] Cons.prems by (auto simp: pushing_inv_def)
    then obtain x where x: "score ar r query n = Inr x" using sound_score [OF assms(1)] by blast
    let ?s = "s\<lparr>ssVisited := insert n (ssVisited s),
      ssCandidates := heap_push scored_less \<lparr>scOrdinal = n, scSimilarity = x\<rparr> (ssCandidates s)\<rparr>"
    have "pushing_inv ar r query start done ?s"
      using Cons.prems False x by (auto simp: pushing_inv_def distinct_push)
    from Cons.IH [OF this] Cons.prems False x show ?thesis
      by (auto simp: pushing_inv_def Let_def)
  qed
qed simp

lemma set_pop:
  assumes "ssCandidates s \<noteq> []" and "heap_pop scored_less (ssCandidates s) = (item, rest)"
  shows "set (ssCandidates s) = insert item (set rest)"
    and "distinct (waiting s) \<longleftrightarrow> scOrdinal item \<notin> scOrdinal ` set rest \<and> distinct (map scOrdinal rest)"
proof -
  note e = heap_pop_elements(1) [OF assms]
  then show "set (ssCandidates s) = insert item (set rest)" by (metis set_mset_add_mset_insert set_mset_mset)
  have "mset (waiting s) = mset (map scOrdinal (item # rest))" using e by simp
  then have "distinct (waiting s) \<longleftrightarrow> distinct (map scOrdinal (item # rest))" by (rule mset_eq_imp_distinct_iff)
  then show "distinct (waiting s) \<longleftrightarrow> scOrdinal item \<notin> scOrdinal ` set rest \<and> distinct (map scOrdinal rest)" by simp
qed

lemma visitBest_sound:
  assumes "index_sound r" and inv: "search_inv ar r query start done s" and ne: "ssCandidates s \<noteq> []"
  shows "\<exists>i x s'. visitBest ar r s = (Inr x, s') \<and> shows_node ar r query i x \<and> search_inv ar r query start (done @ [i]) s'"
proof -
  obtain item rest where pop: "heap_pop scored_less (ssCandidates s) = (item, rest)" by fastforce
  note e = set_pop [OF ne pop] note inv = inv [unfolded search_inv_def]
  let ?i = "scOrdinal item"
  let ?s = "s\<lparr>ssCandidates := rest, ssProcessed := ssProcessed s + 1\<rparr>"
  have start: "start < length (rdNodes r)" and reach: "(start, ?i) \<in> (level0 r)\<^sup>*" using inv e by auto
  then have i: "?i < length (rdNodes r)" using reachable_in_range [OF assms(1)] by blast
  obtain a where a: "assetForOrdinal r ?i = Inr a" using sound_asset [OF assms(1) i] .
  obtain ns where ns: "neighborOrdinals r ?i 0 = Inr ns" using sound_neighbors [OF assms(1) i] by metis
  have l0: "level0 r `` {?i} = set ns" using ns by (auto simp: level0_def)
  have w: "set (waiting s) = insert ?i (scOrdinal ` set rest)" using e(1) by simp
  have "distinct (done @ [?i] @ map scOrdinal rest)" using inv e w by auto
  moreover have "ssVisited s = set (done @ [?i]) \<union> scOrdinal ` set rest" using inv w by auto
  ultimately have p: "pushing_inv ar r query start (done @ [?i]) ?s"
    using inv e unfolding pushing_inv_def by (elim conjE) simp
  have "set ns \<subseteq> (level0 r)\<^sup>* `` {start}" using l0 reach by (auto intro: rtrancl_into_rtrancl)
  from pushNeighbors_sound [OF assms(1) p this] obtain s' where s': "pushNeighbors ar r ns ?s = (Inr (), s')"
      "pushing_inv ar r query start (done @ [?i]) s'" "ssVisited s' = ssVisited s \<union> set ns" by auto
  have "level0 r `` set (done @ [?i]) = level0 r `` set done \<union> set ns" using l0 by auto
  moreover have "level0 r `` set done \<subseteq> ssVisited s" using inv by blast
  ultimately have "level0 r `` set (done @ [?i]) \<subseteq> ssVisited s'" using s'(3) by auto
  then have "search_inv ar r query start (done @ [?i]) s'"
    using s'(2) unfolding search_inv_def pushing_inv_def by blast
  moreover have "shows_node ar r query ?i (a, scSimilarity item)" using a inv e by (simp add: shows_node_def)
  moreover have "visitBest ar r s = (Inr (a, scSimilarity item), s')"
    using pop a ns s'(1) by (simp add: visitBest_def)
  ultimately show ?thesis by blast
qed

lemma visits_sound:
  assumes "index_sound r" and "search_inv ar r query start done s"
  shows "\<exists>is xs s'. visits ar r k s = (Inr xs, s') \<and> list_all2 (shows_node ar r query) is xs \<and> length is \<le> k
    \<and> search_inv ar r query start (done @ is) s' \<and> (length is < k \<longrightarrow> ssCandidates s' = [])"
  using assms(2)
proof (induction k arbitrary: s "done")
  case (Suc k)
  show ?case
  proof (cases "ssCandidates s = []")
    case True
    with Suc.prems show ?thesis by (intro exI [of _ "[]"]) simp
  next
    case False
    obtain i x s' where v: "visitBest ar r s = (Inr x, s')" "shows_node ar r query i x"
        "search_inv ar r query start (done @ [i]) s'"
      using visitBest_sound [OF assms(1) Suc.prems False] by blast
    obtain "is" xs s'' where w: "visits ar r k s' = (Inr xs, s'')" "list_all2 (shows_node ar r query) is xs"
        "length is \<le> k" "search_inv ar r query start ((done @ [i]) @ is) s''" "length is < k \<longrightarrow> ssCandidates s'' = []"
      using Suc.IH [OF v(3)] by blast
    show ?thesis
      by (rule exI [of _ "i # is"], rule exI [of _ "x # xs"]) (use v w False in simp)
  qed
qed (intro exI [of _ "[]"], simp)

text \<open>With as many visits as nodes the traversal has handed out all that it can reach.\<close>

lemma advance_exhausts:
  assumes "index_sound r" and "search_inv ar r query start [] s"
  shows "\<exists>is xs s'. advance ar s (int (length (rdNodes r))) = (Inr (xs, True), s') \<and> distinct is
    \<and> set is = (level0 r)\<^sup>* `` {start} \<and> list_all2 (shows_node ar r query) is xs"
proof -
  let ?n = "length (rdNodes r)"
  obtain "is" xs s' where v: "visits ar r ?n s = (Inr xs, s')" "list_all2 (shows_node ar r query) is xs" "length is \<le> ?n"
      "search_inv ar r query start is s'" "length is < ?n \<longrightarrow> ssCandidates s' = []"
    using visits_sound [OF assms, of ?n] by auto
  note inv = v(4) [unfolded search_inv_def]
  have range: "set is \<union> set (waiting s') \<subseteq> {..<?n}"
  proof -
    have "start < ?n" using inv by simp
    then have "(level0 r)\<^sup>* `` {start} \<subseteq> {..<?n}" using reachable_in_range [OF assms(1)] by blast
    moreover have "set is \<union> set (waiting s') = ssVisited s'" using inv by simp
    ultimately show ?thesis using inv by blast
  qed
  have empty: "ssCandidates s' = []"
  proof (rule ccontr)
    assume ne: "ssCandidates s' \<noteq> []"
    with v(3,5) have "length is = ?n" by auto
    moreover have "length (is @ waiting s') \<le> ?n"
      using inv range card_mono [of "{..<?n}" "set (is @ waiting s')"] distinct_card [of "is @ waiting s'"] by simp
    ultimately show False using ne by simp
  qed
  have "start \<in> set is" "level0 r `` set is \<subseteq> set is" "set is \<subseteq> (level0 r)\<^sup>* `` {start}"
    using inv empty by auto
  then have "set is = (level0 r)\<^sup>* `` {start}"
    using Image_closed_trancl [of "level0 r" "set is"] by auto
  moreover have "0 < ?n" and "ssReader s = Some r" "ssProcessed s = 0" using assms(2) by (auto simp: search_inv_def)
  ultimately show ?thesis using v(1,2) inv empty
    by (intro exI [of _ "is"] exI [of _ xs] exI [of _ s']) (simp add: advance_def)
qed

lemma newSearchSession_sound:
  assumes "index_sound r" and "rdNodes r \<noteq> []"
  shows "\<exists>s start. newSearchSession ar r query = Inr s \<and> search_inv ar r query start [] s"
proof -
  let ?e = "entryOrdinal r"
  have e: "?e < length (rdNodes r)" using entryOrdinal_in_range [OF assms(2)] .
  obtain x where x: "score ar r query ?e = Inr x" using sound_score [OF assms(1) e] .
  obtain c y where d: "descend ar r query (unat (ndMaxLevel (rdNodes r ! ?e))) ?e x = Inr (c, y)"
      "c < length (rdNodes r)" "score ar r query c = Inr y"
    using descend_sound [OF assms(1) e x] by blast
  have "set (heap_push scored_less \<lparr>scOrdinal = c, scSimilarity = y\<rparr> []) = {\<lparr>scOrdinal = c, scSimilarity = y\<rparr>}"
    by simp
  then have "search_inv ar r query c [] \<lparr>ssReader = Some r, ssQuery = query,
      ssCandidates = heap_push scored_less \<lparr>scOrdinal = c, scSimilarity = y\<rparr> [], ssVisited = {c}, ssProcessed = 0\<rparr>"
    using d by (simp add: search_inv_def distinct_push)
  then show ?thesis using assms(2) x d(1) by (auto simp: newSearchSession_def Let_def)
qed

text \<open>
  In a sound index a search always starts, and with a budget of as many visits as there are nodes
  it hands out exactly the nodes that level 0 reaches from its starting node, each of them once, with
  its asset and its score, and reports that it is exhausted.
\<close>

lemma search_hands_out_reachable:
  assumes "index_sound r" and "rdNodes r \<noteq> []"
  shows "\<exists>s start xs is s'. newSearchSession ar r query = Inr s \<and> map scOrdinal (ssCandidates s) = [start]
    \<and> advance ar s (int (length (rdNodes r))) = (Inr (xs, True), s')
    \<and> distinct is \<and> set is = (level0 r)\<^sup>* `` {start} \<and> list_all2 (shows_node ar r query) is xs"
proof -
  obtain s start where s: "newSearchSession ar r query = Inr s" "search_inv ar r query start [] s"
    using newSearchSession_sound [OF assms] by blast
  obtain "is" xs s' where a: "advance ar s (int (length (rdNodes r))) = (Inr (xs, True), s')" "distinct is"
      "set is = (level0 r)\<^sup>* `` {start}" "list_all2 (shows_node ar r query) is xs"
    using advance_exhausts [OF assms(1) s(2)] by blast
  obtain c where "ssCandidates s = [c]"
    using s(1) assms(2)
    by (auto simp: newSearchSession_def Let_def heap_push_def heap_up.simps [of _ 0] split: sum.splits)
  moreover from this have "waiting s = [start]"
    using s(2) by (auto simp: search_inv_def)
  ultimately show ?thesis using s(1) a by (intro exI conjI) assumption+
qed

section \<open>Batches\<close>

lemma pushNeighbors_frame:
  "pushNeighbors ar r ns s = (x, s') \<Longrightarrow> ssReader s' = ssReader s \<and> ssProcessed s' = ssProcessed s"
  by (induction ns arbitrary: s) (force simp: Let_def split: if_splits sum.splits)+

lemma visitBest_frame:
  "visitBest ar r s = (x, s') \<Longrightarrow> ssReader s' = ssReader s \<and> ssProcessed s' = Suc (ssProcessed s)"
  by (auto simp: visitBest_def Let_def split: prod.splits sum.splits dest!: pushNeighbors_frame)

lemma visits_frame:
  "visits ar r k s = (Inr xs, s') \<Longrightarrow>
     ssReader s' = ssReader s \<and> ssProcessed s' = ssProcessed s + length xs \<and> length xs \<le> k
     \<and> (length xs < k \<longrightarrow> ssCandidates s' = [])"
proof (induction k arbitrary: s xs)
  case (Suc k)
  show ?case
  proof (cases "ssCandidates s = []")
    case False
    then obtain x t ys where "visitBest ar r s = (Inr x, t)" "visits ar r k t = (Inr ys, s')" "xs = x # ys"
      using Suc.prems by (auto split: prod.splits sum.splits)
    with Suc.IH [of t ys] visitBest_frame [of ar r s "Inr x" t] show ?thesis by auto
  qed (use Suc.prems in auto)
qed simp

lemma visits_none: "ssCandidates s = [] \<Longrightarrow> visits ar r k s = (Inr [], s)"
  by (cases k) simp_all

lemma visits_add:
  "visits ar r (j + k) s =
     (case visits ar r j s of
        (Inl e, s) \<Rightarrow> (Inl e, s)
      | (Inr xs, s) \<Rightarrow> (case visits ar r k s of (Inl e, s) \<Rightarrow> (Inl e, s) | (Inr ys, s) \<Rightarrow> (Inr (xs @ ys), s)))"
proof (induction j arbitrary: s)
  case 0
  show ?case by (auto split: prod.splits sum.splits)
next
  case (Suc j)
  show ?case
  proof (cases "ssCandidates s = []")
    case True
    then show ?thesis by (simp add: visits_none)
  next
    case False
    then show ?thesis using Suc.IH by (auto split: prod.splits sum.splits)
  qed
qed


section \<open>Order\<close>

text \<open>The candidates of a session are a heap, and their scores are numbers.\<close>

definition ordered :: "search_session \<Rightarrow> bool" where
  "ordered s \<longleftrightarrow> candidates.is_heap (length (ssCandidates s)) (ssCandidates s)
     \<and> (\<forall>c\<in>set (ssCandidates s). a_number c)"

definition scores_are_numbers :: "arith32 \<Rightarrow> index_reader \<Rightarrow> vector \<Rightarrow> bool" where
  "scores_are_numbers ar r query \<longleftrightarrow> (\<forall>i t. score ar r query i = Inr t \<longrightarrow> \<not> f32_nan t)"

lemma push_ordered:
  assumes "ordered s" and "a_number x"
  shows "ordered (s\<lparr>ssCandidates := heap_push scored_less x (ssCandidates s)\<rparr>)"
  using assms candidates.heap_push_heap [of "ssCandidates s" x] by (auto simp: ordered_def)

lemma pushNeighbors_ordered:
  assumes "scores_are_numbers ar r (ssQuery s)" and "ordered s"
  shows "ordered (snd (pushNeighbors ar r ns s)) \<and> ssQuery (snd (pushNeighbors ar r ns s)) = ssQuery s"
  using assms
proof (induction ns arbitrary: s)
  case (Cons n ns)
  let ?s = "s\<lparr>ssVisited := insert n (ssVisited s)\<rparr>"
  have o: "ordered ?s" using Cons.prems(2) by (simp add: ordered_def)
  show ?case
  proof (cases "score ar r (ssQuery s) n")
    case (Inl e)
    with o Cons show ?thesis by (auto simp: Let_def)
  next
    case (Inr x)
    then have "a_number \<lparr>scOrdinal = n, scSimilarity = x\<rparr>"
      using Cons.prems(1) by (auto simp: scores_are_numbers_def a_number_def)
    from push_ordered [OF o this] Inr Cons show ?thesis by (auto simp: Let_def)
  qed
qed simp

lemma visitBest_ordered:
  assumes "scores_are_numbers ar r (ssQuery s)" and "ordered s" and "ssCandidates s \<noteq> []"
    and "visitBest ar r s = (x, s')"
  shows "ordered s'" and "ssQuery s' = ssQuery s"
    and "x = Inr (a, t) \<Longrightarrow> \<forall>c\<in>set (ssCandidates s). \<not> f32_less t (scSimilarity c)"
proof -
  obtain item rest where pop: "heap_pop scored_less (ssCandidates s) = (item, rest)" by fastforce
  let ?s = "s\<lparr>ssCandidates := rest, ssProcessed := ssProcessed s + 1\<rparr>"
  note h = assms(2) [unfolded ordered_def]
  have num: "\<forall>c\<in>set (ssCandidates s). a_number c" using h by simp
  note p = candidates.heap_pop_heap [OF assms(3) conjunct1 [OF h] num pop] set_pop(1) [OF assms(3) pop]
  have o: "ordered ?s" using p num by (simp add: ordered_def)
  have "ordered (snd (visitBest ar r s)) \<and> ssQuery (snd (visitBest ar r s)) = ssQuery s"
    using pushNeighbors_ordered [of ar r ?s] o assms(1) pop
    by (auto simp: visitBest_def Let_def split: sum.splits prod.splits dest!: arg_cong [of _ _ snd])
  then show "ordered s'" "ssQuery s' = ssQuery s" using assms(4) by simp_all
  assume "x = Inr (a, t)"
  then have t: "t = scSimilarity item"
    using assms(4) pop by (auto simp: visitBest_def Let_def split: sum.splits prod.splits)
  show "\<forall>c\<in>set (ssCandidates s). \<not> f32_less t (scSimilarity c)"
  proof
    fix c assume c: "c \<in> set (ssCandidates s)"
    then have "\<not> scored_less c item" using p(2) by blast
    then show "\<not> f32_less t (scSimilarity c)"
      unfolding t by (auto simp: scored_less_def f32_equal_def f32_less_def split: if_splits)
  qed
qed

lemma visits_ordered:
  assumes "scores_are_numbers ar r (ssQuery s)" and "ordered s"
  shows "ordered (snd (visits ar r k s)) \<and> ssQuery (snd (visits ar r k s)) = ssQuery s"
  using assms
proof (induction k arbitrary: s)
  case (Suc k)
  show ?case
  proof (cases "ssCandidates s = []")
    case False
    obtain x s' where v: "visitBest ar r s = (x, s')" by fastforce
    note w = visitBest_ordered(1,2) [OF Suc.prems False v]
    with Suc.IH [of s'] Suc.prems(1) v False show ?thesis by (auto split: sum.splits prod.splits)
  qed (use Suc.prems in simp)
qed simp

lemma descendLevel_score:
  "descendLevel ar r query level c s = Inr (c', s') \<Longrightarrow> score ar r query c = Inr s \<Longrightarrow> score ar r query c' = Inr s'"
proof (induction ar r query level c s rule: descendLevel.induct)
  case (1 ar r query level c s)
  show ?case
  proof (cases "neighborOrdinals r c level")
    case (Inr ns)
    with "1.prems"(1) obtain d t b where scan: "scanNeighbors ar r query ns c s False = Inr (d, t, b)"
      by (auto simp: descendLevel.simps [of ar r query level c s] split: sum.splits)
    have d: "score ar r query d = Inr t" using scan_improves [OF scan] "1.prems"(2) by blast
    show ?thesis
    proof (cases b)
      case True
      with "1.IH" [OF Inr scan refl refl True _ d] "1.prems"(1) Inr scan show ?thesis
        by (simp add: descendLevel.simps [of ar r query level c s])
    next
      case False
      with "1.prems"(1) Inr scan d show ?thesis by (simp add: descendLevel.simps [of ar r query level c s])
    qed
  qed (use "1.prems"(1) in \<open>simp add: descendLevel.simps [of ar r query level c s]\<close>)
qed

lemma descend_score:
  "descend ar r query level c s = Inr (c', s') \<Longrightarrow> score ar r query c = Inr s \<Longrightarrow> score ar r query c' = Inr s'"
  by (induction level arbitrary: c s) (auto split: sum.splits dest: descendLevel_score)

lemma newSearchSession_ordered:
  assumes "scores_are_numbers ar r query" and "newSearchSession ar r query = Inr s" and "rdNodes r \<noteq> []"
  shows "ordered s" and "ssQuery s = query" and "ssReader s = Some r"
proof -
  obtain c x e y where d: "score ar r query e = Inr y" "descend ar r query (unat (ndMaxLevel (rdNodes r ! e))) e y = Inr (c, x)"
      "s = \<lparr>ssReader = Some r, ssQuery = query,
         ssCandidates = heap_push scored_less \<lparr>scOrdinal = c, scSimilarity = x\<rparr> [], ssVisited = {c}, ssProcessed = 0\<rparr>"
    using assms(2,3) by (auto simp: newSearchSession_def Let_def split: sum.splits)
  then show "ssQuery s = query" "ssReader s = Some r" by simp_all
  have "score ar r query c = Inr x" using descend_score [OF d(2,1)] .
  then have "a_number \<lparr>scOrdinal = c, scSimilarity = x\<rparr>"
    using assms(1) by (auto simp: scores_are_numbers_def a_number_def)
  moreover have "ordered (s\<lparr>ssCandidates := []\<rparr>)" by (simp add: ordered_def candidates.is_heap_def)
  ultimately have "ordered (s\<lparr>ssCandidates := []\<rparr>\<lparr>ssCandidates := heap_push scored_less
      \<lparr>scOrdinal = c, scSimilarity = x\<rparr> []\<rparr>)" using push_ordered by fastforce
  then show "ordered s" using d(3) by simp
qed


end
