(* ===== verification/Semantic_Write.thy ===== *)
theory Semantic_Write
  imports Semantic_Build Semantic_Search_Theorems
begin

text \<open>
  The file that the builder writes is the index that the reader opens: every number, record and
  string is read back as it was written, so that a search in the file walks the graph of the builder
  and shows the assets that were indexed.
\<close>

section \<open>Numbers and records\<close>

lemma length_le_put [simp]: "length (le_put n x) = n"
  by (induction n arbitrary: x) auto

lemma le_get_put: "le_get (le_put n x) = x mod 256 ^ n"
proof (induction n arbitrary: x)
  case (Suc n)
  have "(of_char (char_of (x mod 256) :: char) :: nat) = x mod 256" by (simp add: of_char_of)
  with Suc.IH show ?case by (simp add: mod_mult2_eq)
qed simp

lemma length_puts [simp]: "length (put64 x) = 8" "length (put32 w) = 4" "length (put16 v) = 2"
  by (simp_all add: put64_def put32_def put16_def)

lemma get32_put32 [simp]: "get32 (put32 w) = w"
proof -
  have "unat w < 2 ^ 32" using unsigned_less [of w] by simp
  then show ?thesis by (simp add: get32_def put32_def le_get_put)
qed

lemma get16_put16 [simp]: "get16 (put16 w) = w"
proof -
  have "unat w < 2 ^ 16" using unsigned_less [of w] by simp
  then show ?thesis by (simp add: get16_def put16_def le_get_put)
qed

lemma get64_put64:
  assumes "- (2 ^ 63) \<le> x" and "x < 2 ^ 63"
  shows "get64 (put64 x) = x"
proof -
  have "int (nat (take_bit 64 x) mod 256 ^ 8) = take_bit 64 x"
    by (simp add: take_bit_eq_mod)
  then have "get64 (put64 x) = signed_take_bit 63 (take_bit 64 x)"
    by (simp add: get64_def put64_def le_get_put int64_def)
  also have "\<dots> = signed_take_bit 63 x" by (simp add: signed_take_bit_take_bit)
  also have "\<dots> = x" using assms by (simp add: signed_take_bit_int_eq_self)
  finally show ?thesis .
qed

lemma length_writeNode [simp]: "length (writeSemanticBinaryNode n) = 64"
  by (simp add: writeSemanticBinaryNode_def)

lemma length_writeEdge [simp]: "length (writeSemanticBinaryEdge e) = 8"
  by (simp add: writeSemanticBinaryEdge_def)

definition node_fits :: "node_record \<Rightarrow> bool" where
  "node_fits n \<longleftrightarrow> (\<forall>x\<in>{ndCapturedAtUnixNano n, ndVectorOffset n, ndEdgeOffset n, ndStringOffset n}.
     - (2 ^ 63) \<le> x \<and> x < 2 ^ 63)"

lemma readNode_write: "node_fits n \<Longrightarrow> readNode (writeSemanticBinaryNode n) = n"
  by (simp add: node_fits_def readNode_def writeSemanticBinaryNode_def slice_def get64_put64)

lemma readEdge_write: "readEdge (writeSemanticBinaryEdge e) = e"
  by (simp add: readEdge_def writeSemanticBinaryEdge_def slice_def)

section \<open>Slices of concatenations\<close>

lemma slice_middle: "length a = x \<Longrightarrow> length m = n \<Longrightarrow> slice x (x + n) (a @ m @ z) = m"
  by (simp add: slice_def)

lemma slice_within: "x + n \<le> length m \<Longrightarrow> slice (length a + x) (length a + (x + n)) (a @ m @ z) = slice x (x + n) m"
  by (simp add: slice_def)

lemma slice_concat:
  assumes "i < length L"
  shows "slice (length (concat (take i L))) (length (concat (take i L)) + length (L ! i)) (concat L) = L ! i"
proof -
  have "concat L = concat (take i L) @ L ! i @ concat (drop (Suc i) L)"
    using id_take_nth_drop [OF assms] by (metis concat.simps(2) concat_append)
  then show ?thesis by (metis slice_middle)
qed

lemma slice_concat_bound:
  assumes "i < length L"
  shows "length (concat (take i L)) + length (L ! i) \<le> length (concat L)"
proof -
  have "concat L = concat (take i L) @ L ! i @ concat (drop (Suc i) L)"
    using id_take_nth_drop [OF assms] by (metis concat.simps(2) concat_append)
  then show ?thesis by simp
qed

lemma length_concat_const: "\<forall>x\<in>set L. length x = w \<Longrightarrow> length (concat L) = length L * w"
  by (induction L) auto

lemma records_concat:
  assumes "\<forall>x\<in>set L. length x = w"
  shows "records w (length L) (concat L) = L"
proof (rule nth_equalityI)
  fix i assume "i < length (records w (length L) (concat L))"
  then have i: "i < length L" by simp
  have "length (concat (take i L)) = i * w" using length_concat_const [of "take i L" w] assms i by (auto dest: in_set_takeD)
  moreover have "length (L ! i) = w" using assms i by simp
  ultimately show "records w (length L) (concat L) ! i = L ! i" using slice_concat [OF i] i by (simp add: records_def)
qed simp

lemma write_at_end: "write_at (length f) s f = f @ s"
  by (simp add: write_at_def truncate_at_def)

section \<open>Metadata\<close>

definition asset_fits :: "semantic_asset \<Rightarrow> bool" where
  "asset_fits a \<longleftrightarrow> length (saID a) < 2 ^ 32 \<and> length (saMediaType a) < 2 ^ 32 \<and> length (saFilename a) < 2 ^ 32
     \<and> (case saDuration a of None \<Rightarrow> True | Some d \<Rightarrow> length d < 2 ^ 32 - 1)"

lemma unat_word_of_length: "n < 2 ^ 32 \<Longrightarrow> unat (word_of_nat n :: 32 word) = n"
  by (simp add: unat_of_nat)

lemma take_of_append: "length a = n \<Longrightarrow> take n (a @ b) = a"
  by simp

text \<open>
  The metadata of an asset are decoded as they were encoded, with the source of the index, the time
  and the level of the node.
\<close>

lemma metadata_decoded:
  assumes "asset_fits a"
  shows "decodeSemanticBinaryMetadata (encodeSemanticBinaryMetadata a) sourceKey node =
    Inr (a\<lparr>saSourceKey := sourceKey, saCapturedAt := ndCapturedAtUnixNano node, saVector := [],
        saMaxLevel := int (unat (ndMaxLevel node))\<rparr>)"
proof -
  let ?dur = "case saDuration a of None \<Rightarrow> [] | Some d \<Rightarrow> d"
  let ?dl = "case saDuration a of None \<Rightarrow> semanticBinaryIndexNoDuration | Some d \<Rightarrow> word_of_nat (length d)"
  define hd1 where "hd1 = put32 (word_of_nat (length (saID a)))"
  define hd2 where "hd2 = put32 (word_of_nat (length (saMediaType a)))"
  define hd3 where "hd3 = put32 (word_of_nat (length (saFilename a)))"
  define hd4 where "hd4 = put32 ?dl"
  have len: "length hd1 = 4" "length hd2 = 4" "length hd3 = 4" "length hd4 = 4"
    by (simp_all add: hd1_def hd2_def hd3_def hd4_def)
  have enc: "encodeSemanticBinaryMetadata a = hd1 @ hd2 @ hd3 @ hd4 @ saID a @ saMediaType a @ saFilename a @ ?dur"
    by (simp add: encodeSemanticBinaryMetadata_def hd1_def hd2_def hd3_def hd4_def Let_def)
  have get: "unat (get32 hd1) = length (saID a)" "unat (get32 hd2) = length (saMediaType a)"
      "unat (get32 hd3) = length (saFilename a)" "get32 hd4 = ?dl"
    using assms by (simp_all add: asset_fits_def hd1_def hd2_def hd3_def hd4_def unat_word_of_length del: unat_of_nat)
  have dl: "saDuration a = Some d \<Longrightarrow> unat (word_of_nat (length d) :: 32 word) = length d
      \<and> (word_of_nat (length d) :: 32 word) \<noteq> semanticBinaryIndexNoDuration" for d
  proof -
    assume "saDuration a = Some d"
    then have "length d < 2 ^ 32 - 1" using assms by (simp add: asset_fits_def)
    then have u: "unat (word_of_nat (length d) :: 32 word) = length d" by (intro unat_word_of_length) simp
    moreover have "unat semanticBinaryIndexNoDuration = 2 ^ 32 - 1"
      by (simp add: semanticBinaryIndexNoDuration_def unsigned_minus_1_eq_mask mask_eq_exp_minus_1)
    ultimately show ?thesis using \<open>length d < 2 ^ 32 - 1\<close> by (metis less_irrefl)
  qed
  show ?thesis
  proof (cases "saDuration a")
    case None
    then show ?thesis
      unfolding enc by (simp add: decodeSemanticBinaryMetadata_def Let_def slice_def len get)
  next
    case (Some d)
    with dl [OF Some] show ?thesis
      unfolding enc by (simp add: decodeSemanticBinaryMetadata_def Let_def slice_def len get)
  qed
qed

section \<open>The records of the nodes\<close>

lemma length_nodeRecords [simp]: "length (nodeRecords h E k eo so nodes) = length nodes"
  by (induction h E k eo so nodes rule: nodeRecords.induct) (simp_all add: Let_def)

abbreviation edge_count :: "builder_edge list \<Rightarrow> nat \<Rightarrow> nat" where
  "edge_count E i \<equiv> length (filter (\<lambda>e. beSource e = i) E)"

lemma sum_first: "(\<Sum>j < Suc n. f j) = (f 0 :: nat) + (\<Sum>j < n. f (Suc j))"
  by (rule sum.lessThan_Suc_shift)

lemma nodeRecords_nth:
  assumes "i < length nodes" and "0 \<le> eo" and "0 \<le> so"
    and "eo + 8 * int (\<Sum>j < length nodes. edge_count E (k + j)) \<le> MaxInt64"
    and "so + int (\<Sum>j < length nodes. length (bnMetadata (nodes ! j))) \<le> MaxInt64"
  shows "nodeRecords h E k eo so nodes ! i =
    \<lparr>ndCapturedAtUnixNano = bnCapturedAtNS (nodes ! i),
     ndVectorOffset = add64 (hdVectorOffset h) (int64 (int (k + i) * hdVectorStride h)),
     ndEdgeOffset = eo + 8 * int (\<Sum>j < i. edge_count E (k + j)),
     ndStringOffset = so + int (\<Sum>j < i. length (bnMetadata (nodes ! j))),
     ndEdgeCount = word_of_nat (edge_count E (k + i)),
     ndStringLength = word_of_nat (length (bnMetadata (nodes ! i))),
     ndMaxLevel = word_of_nat (bnMaxLevel (nodes ! i))\<rparr>"
  using assms
proof (induction nodes arbitrary: k eo so i)
  case (Cons node nodes)
  let ?c = "edge_count E k" let ?m = "length (bnMetadata node)"
  have sums: "(\<Sum>j < length (node # nodes). edge_count E (k + j)) = ?c + (\<Sum>j < length nodes. edge_count E (Suc k + j))"
      "(\<Sum>j < length (node # nodes). length (bnMetadata ((node # nodes) ! j)))
        = ?m + (\<Sum>j < length nodes. length (bnMetadata (nodes ! j)))"
    by (simp_all only: length_Cons sum_first) simp_all
  have le: "eo + 8 * int ?c + 8 * int (\<Sum>j < length nodes. edge_count E (Suc k + j)) \<le> MaxInt64"
      "so + int ?m + int (\<Sum>j < length nodes. length (bnMetadata (nodes ! j))) \<le> MaxInt64"
    using Cons.prems(4,5) by (simp_all only: sums of_nat_add distrib_left add.assoc)
  have "int64 (int ?c * 8) = int ?c * 8" using le(1) Cons.prems(2) by (intro int64_exact) linarith+
  moreover have "add64 eo (int ?c * 8) = eo + 8 * int ?c" using le(1) Cons.prems(2) by (subst add64_exact) linarith+
  ultimately have eo: "add64 eo (int64 (int ?c * int semanticBinaryIndexEdgeRecordSize)) = eo + 8 * int ?c"
    by (simp add: semanticBinaryIndexEdgeRecordSize_def)
  have so: "add64 so (int ?m) = so + int ?m" using le(2) Cons.prems(3) by (subst add64_exact) linarith+
  show ?case
  proof (cases i)
    case 0
    then show ?thesis by (simp add: Let_def)
  next
    case (Suc j)
    have "j < length nodes" using Cons.prems(1) Suc by simp
    from Cons.IH [OF this _ _ le(1) le(2)] Cons.prems(2,3)
    have "nodeRecords h E (Suc k) (eo + 8 * int ?c) (so + int ?m) nodes ! j = \<lparr>ndCapturedAtUnixNano = bnCapturedAtNS (nodes ! j),
       ndVectorOffset = add64 (hdVectorOffset h) (int64 (int (Suc k + j) * hdVectorStride h)),
       ndEdgeOffset = eo + 8 * int ?c + 8 * int (\<Sum>i < j. edge_count E (Suc k + i)),
       ndStringOffset = so + int ?m + int (\<Sum>i < j. length (bnMetadata (nodes ! i))),
       ndEdgeCount = word_of_nat (edge_count E (Suc k + j)),
       ndStringLength = word_of_nat (length (bnMetadata (nodes ! j))),
       ndMaxLevel = word_of_nat (bnMaxLevel (nodes ! j))\<rparr>" by simp
    moreover have "nodeRecords h E k eo so (node # nodes) ! Suc j
        = nodeRecords h E (Suc k) (eo + 8 * int ?c) (so + int ?m) nodes ! j"
      by (simp only: nodeRecords.simps Let_def nth_Cons_Suc eo so add_Suc_right add_0_right One_nat_def)
    ultimately show ?thesis unfolding Suc sum_first by (simp add: distrib_left add.assoc)
  qed
qed simp

section \<open>The edges of the file\<close>

lemma edgesInOrder_elements [simp]: "set (edgesInOrder E) = set E" "length (edgesInOrder E) = length E"
  "edge_count (edgesInOrder E) i = edge_count E i"
proof -
  have m: "mset (edgesInOrder E) = mset E" by (simp add: edgesInOrder_def)
  show "set (edgesInOrder E) = set E" using m by (rule mset_eq_setD)
  show "length (edgesInOrder E) = length E" using m by (rule mset_eq_length)
  show "edge_count (edgesInOrder E) i = edge_count E i" using m by (metis mset_filter size_mset)
qed

lemma concat_by_source:
  assumes "sorted (map beSource E)" and "\<forall>e\<in>set E. beSource e < n"
  shows "concat (map (\<lambda>i. filter (\<lambda>e. beSource e = i) E) [0..<n]) = E"
proof -
  have "concat (map (\<lambda>i. filter (\<lambda>e. beSource e = i) E) [0..<k]) = filter (\<lambda>e. beSource e < k) E" for k
  proof (induction k)
    case (Suc k)
    have "filter (\<lambda>e. beSource e < k) xs @ filter (\<lambda>e. beSource e = k) xs = filter (\<lambda>e. beSource e < Suc k) xs"
      if "sorted (map beSource xs)" for xs
      using that
    proof (induction xs)
      case (Cons x xs)
      have "filter (\<lambda>e. beSource e < k) xs = []" if "k \<le> beSource x"
        using Cons.prems that by (auto simp: filter_empty_conv)
      with Cons show ?case by (cases "beSource x < k"; cases "beSource x = k") auto
    qed simp
    with Suc assms(1) show ?case by simp
  qed simp
  then show ?thesis using assms(2) by (simp add: filter_id_conv)
qed

lemma sorted_edgesInOrder: "sorted (map beSource (edgesInOrder E))"
  by (simp add: edgesInOrder_def)

definition edge_of_row :: "builder_edge \<Rightarrow> edge_record" where
  "edge_of_row e = \<lparr>edNeighbor = word_of_nat (beNeighbor e), edLevel = word_of_nat (beLevel e),
     edRank = word_of_nat (beRank e)\<rparr>"

lemma writeEdges_rows:
  "list_all edge_in_range E \<Longrightarrow> writeEdges E = Inr (concat (map (writeSemanticBinaryEdge \<circ> edge_of_row) E))"
  by (simp add: writeEdges_def edge_of_row_def [abs_def] comp_def)

lemma length_edge_bytes: "length (concat (map (writeSemanticBinaryEdge \<circ> edge_of_row) E)) = 8 * length E"
  using length_concat_const [of "map (writeSemanticBinaryEdge \<circ> edge_of_row) E" 8] by simp

lemma read_edge_bytes:
  "map readEdge (records 8 (length E) (concat (map (writeSemanticBinaryEdge \<circ> edge_of_row) E))) = map edge_of_row E"
  using records_concat [of "map (writeSemanticBinaryEdge \<circ> edge_of_row) E" 8] by (simp add: readEdge_write)

section \<open>The vectors of the file\<close>

lemma length_vector_bytes: "length (concat (map put32 v)) = 4 * length v"
  using length_concat_const [of "map put32 v" 4] by simp

lemma read_vector_bytes: "map get32 (records 4 (length v) (concat (map put32 v))) = v"
  using records_concat [of "map put32 v" 4] by (simp add: comp_def)

lemma writeVectors_ok:
  assumes "env_ok env b" and "set is \<subseteq> {..<length (bdNodes b)}" and "\<forall>i\<in>set is. int (length (payload env i)) = dim"
  shows "writeVectors env b dim is = Inr (concat (map (\<lambda>i. concat (map put32 (payload env i))) is))"
  using assms(2,3)
proof (induction "is")
  case (Cons i "is")
  have "vectorOf env b i = Inr (payload env i)" using vectorOf_ok [OF assms(1)] Cons.prems(1) by simp
  with Cons show ?case by (simp add: writeSemanticBinaryVector_def)
qed simp

section \<open>The whole file\<close>

definition metadata_size :: "builder \<Rightarrow> nat" where
  "metadata_size b = (\<Sum>i < length (bdNodes b). length (bnMetadata (bdNodes b ! i)))"

text \<open>The numbers of a built graph fit their fields, and its header can be encoded.\<close>

definition file_fits ::
    "(index_header \<Rightarrow> string) \<Rightarrow> (string \<Rightarrow> index_header option) \<Rightarrow> build_env \<Rightarrow> index_header \<Rightarrow> builder \<Rightarrow> bool" where
  "file_fits toJSON ofJSON env h b \<longleftrightarrow>
     ofJSON (toJSON h) = Some h \<and> 0 < length (toJSON h) \<and> length (toJSON h) \<le> maxHeaderJSON
     \<and> 0 < hdEmbeddingDim h \<and> hdEmbeddingDim h \<le> MaxInt64 div 4
     \<and> (\<forall>i < length (bdNodes b). int (length (payload env i)) = hdEmbeddingDim h)
     \<and> 4096 + int (length (bdNodes b)) * 64 + int (length (bdNodes b)) * (hdEmbeddingDim h * 4)
         + 8 * int (length (bdEdges b)) + int (metadata_size b) \<le> MaxInt64
     \<and> length (bdNodes b) < 2 ^ 32 \<and> length (bdEdges b) < 2 ^ 32
     \<and> (\<forall>node\<in>set (bdNodes b). - (2 ^ 63) \<le> bnCapturedAtNS node \<and> bnCapturedAtNS node < 2 ^ 63
          \<and> bnMaxLevel node < 2 ^ 16 \<and> length (bnMetadata node) < 2 ^ 32)"

text \<open>The index that a reader of the file of a graph is.\<close>

definition reads_graph :: "build_env \<Rightarrow> index_header \<Rightarrow> builder \<Rightarrow> index_reader \<Rightarrow> bool" where
  "reads_graph env h b r \<longleftrightarrow>
     rdHeader r = h \<and> length (rdNodes r) = length (bdNodes b)
     \<and> (\<forall>i < length (bdNodes b).
          edgeRecords r i = Inr (map edge_of_row (filter (\<lambda>e. beSource e = i) (edgesInOrder (bdEdges b))))
          \<and> vectorForOrdinal r i = Inr (payload env i)
          \<and> ndMaxLevel (rdNodes r ! i) = word_of_nat (level_of b i)
          \<and> ndCapturedAtUnixNano (rdNodes r ! i) = bnCapturedAtNS (bdNodes b ! i)
          \<and> readAt (rdFile r) (unat (ndStringLength (rdNodes r ! i))) (ndStringOffset (rdNodes r ! i))
              = Some (bnMetadata (bdNodes b ! i)))"

lemma binaryHeader_fields [simp]:
  "hdVersion (binaryHeader sk p g t b) = semanticBinaryIndexVersion"
  "hdPrecision (binaryHeader sk p g t b) = semanticSearchIndexPrecision"
  "hdSourceKey (binaryHeader sk p g t b) = sk"
  "hdModelID (binaryHeader sk p g t b) = pfModelID p"
  "hdVectorSpaceID (binaryHeader sk p g t b) = pfVectorSpaceID p"
  "hdEmbeddingDim (binaryHeader sk p g t b) = pfEmbeddingDim p"
  "hdIndexedVectorCount (binaryHeader sk p g t b) = int (length (bdNodes b))"
  "hdNodeCount (binaryHeader sk p g t b) = int (length (bdNodes b))"
  "hdEdgeCount (binaryHeader sk p g t b) = int (length (bdEdges b))"
  "hdNodeOffset (binaryHeader sk p g t b) = 4096"
  "hdNodeRecordSize (binaryHeader sk p g t b) = 64"
  "hdEdgeRecordSize (binaryHeader sk p g t b) = 8"
  by (simp_all add: binaryHeader_def Let_def semanticBinaryIndexHeaderBytes_def
      semanticBinaryIndexNodeRecordSize_def semanticBinaryIndexEdgeRecordSize_def)

lemma stride_exact:
  assumes "0 < dim" and "dim \<le> MaxInt64 div 4"
  shows "semanticBinaryVectorStride dim = dim * 4"
  using assms int64_exact [of "dim * 4"] by (simp add: semanticBinaryVectorStride_def)

lemma binaryHeader_offsets:
  fixes p :: index_profile and b :: builder and sk t :: string and g :: int
  assumes "0 < pfEmbeddingDim p" and "pfEmbeddingDim p \<le> MaxInt64 div 4"
    and "4096 + int (length (bdNodes b)) * 64 + int (length (bdNodes b)) * (pfEmbeddingDim p * 4)
      + 8 * int (length (bdEdges b)) \<le> MaxInt64"
  defines "h \<equiv> binaryHeader sk p g t b"
  shows "hdVectorStride h = pfEmbeddingDim p * 4"
    and "hdVectorOffset h = 4096 + int (length (bdNodes b)) * 64"
    and "hdEdgeOffset h = hdVectorOffset h + int (length (bdNodes b)) * (pfEmbeddingDim p * 4)"
    and "hdStringOffset h = hdEdgeOffset h + 8 * int (length (bdEdges b))"
proof -
  let ?n = "int (length (bdNodes b))" let ?w = "pfEmbeddingDim p * 4" let ?e = "int (length (bdEdges b))"
  have w: "semanticBinaryVectorStride (pfEmbeddingDim p) = ?w" by (rule stride_exact [OF assms(1,2)])
  have pos: "0 \<le> ?n * ?w" "0 \<le> ?n" "0 \<le> ?e" using assms(1) by simp_all
  have i: "int64 (?n * 64) = ?n * 64" "int64 (?n * ?w) = ?n * ?w" "int64 (?e * 8) = ?e * 8"
    using assms(3) pos by (intro int64_exact; linarith)+
  have a: "add64 4096 (?n * 64) = 4096 + ?n * 64"
      "add64 (4096 + ?n * 64) (?n * ?w) = 4096 + ?n * 64 + ?n * ?w"
      "add64 (4096 + ?n * 64 + ?n * ?w) (?e * 8) = 4096 + ?n * 64 + ?n * ?w + ?e * 8"
    using assms(3) pos by (intro add64_exact; linarith)+
  have sizes: "int semanticBinaryIndexHeaderBytes = 4096" "int semanticBinaryIndexNodeRecordSize = 64"
      "int semanticBinaryIndexEdgeRecordSize = 8"
    by (simp_all add: semanticBinaryIndexHeaderBytes_def semanticBinaryIndexNodeRecordSize_def
        semanticBinaryIndexEdgeRecordSize_def)
  show "hdVectorStride h = ?w" by (simp only: h_def binaryHeader_def Let_def w index_header.simps)
  show "hdVectorOffset h = 4096 + ?n * 64"
    by (simp only: h_def binaryHeader_def Let_def sizes i a index_header.simps)
  then show "hdEdgeOffset h = hdVectorOffset h + ?n * ?w"
    by (simp only: h_def binaryHeader_def Let_def sizes w i a index_header.simps)
  then show "hdStringOffset h = hdEdgeOffset h + 8 * ?e"
    by (simp only: h_def binaryHeader_def Let_def sizes w i a index_header.simps mult.commute)
qed

lemma header_written:
  assumes "0 < length (toJSON h)" and "length (toJSON h) \<le> maxHeaderJSON" and "ofJSON (toJSON h) = Some h"
  shows "\<exists>H. writeSemanticBinaryHeader toJSON h = Inr H \<and> length H = 4096
    \<and> readSemanticBinaryIndexHeaderFromFile ofJSON (H @ rest) = Inr h"
proof -
  let ?raw = "toJSON h" let ?H = "semanticBinaryIndexMagic @ put32 (word_of_nat (length ?raw)) @ ?raw
    @ replicate (maxHeaderJSON - length ?raw) nul"
  have m: "length semanticBinaryIndexMagic = 8" by (simp add: semanticBinaryIndexMagic_def)
  have max: "maxHeaderJSON = 4084" by (simp add: maxHeaderJSON_def m semanticBinaryIndexHeaderBytes_def)
  have len: "length ?H = 4096" using assms(2) by (simp add: m max)
  have u: "unat (word_of_nat (length ?raw) :: 32 word) = length ?raw"
    using assms(2) max by (intro unat_word_of_length) simp
  have "readAt (?H @ rest) semanticBinaryIndexHeaderBytes 0 = Some ?H"
    using readAt_within [of 0 4096 "?H @ rest"] len by (simp add: semanticBinaryIndexHeaderBytes_def slice_def)
  then have "readSemanticBinaryIndexHeaderFromFile ofJSON (?H @ rest) = Inr h"
    using assms u by (simp add: readSemanticBinaryIndexHeaderFromFile_def Let_def m slice_def)
  then show ?thesis using len assms(2) by (simp add: writeSemanticBinaryHeader_def Let_def)
qed

text \<open>Chunks of bytes that follow each other.\<close>

lemma length_chunks: "length (concat (map g [0..<n])) = (\<Sum>j < n. length (g j))"
  by (induction n) simp_all

lemma chunk_slice:
  assumes "i < n"
  shows "slice (\<Sum>j < i. length (g j)) ((\<Sum>j < i. length (g j)) + length (g i)) (concat (map g [0..<n])) = g i"
    and "(\<Sum>j < i. length (g j)) + length (g i) \<le> length (concat (map g [0..<n]))"
proof -
  have t: "take i (map g [0..<n]) = map g [0..<i]" using assms by (simp add: take_map)
  have i: "i < length (map g [0..<n])" using assms by simp
  show "slice (\<Sum>j < i. length (g j)) ((\<Sum>j < i. length (g j)) + length (g i)) (concat (map g [0..<n])) = g i"
    using slice_concat [OF i] assms unfolding t length_chunks by simp
  show "(\<Sum>j < i. length (g j)) + length (g i) \<le> length (concat (map g [0..<n]))"
    using slice_concat_bound [OF i] assms unfolding t length_chunks by simp
qed

lemma chunk_read:
  assumes "i < n" and "off = int (length a) + int (\<Sum>j < i. length (g j))" and "k = length (g i)"
  shows "readAt (a @ concat (map g [0..<n]) @ z) k off = Some (g i)"
proof -
  let ?x = "\<Sum>j < i. length (g j)"
  have o: "0 \<le> off" "nat off = length a + ?x" using assms(2) by linarith+
  have le: "?x + k \<le> length (concat (map g [0..<n]))" using chunk_slice(2) [OF assms(1)] assms(3) by simp
  have "slice (length a + ?x) (length a + (?x + k)) (a @ concat (map g [0..<n]) @ z) = g i"
    unfolding slice_within [OF le] using chunk_slice(1) [OF assms(1)] assms(3) by simp
  then show ?thesis using readAt_within [OF o(1), of k] o(2) le by (simp add: add.assoc)
qed

lemma concat_map_concat: "concat (map f (concat xss)) = concat (map (\<lambda>xs. concat (map f xs)) xss)"
  by (induction xss) simp_all

lemma section_withinI:
  "0 \<le> off \<Longrightarrow> 0 \<le> n \<Longrightarrow> 0 < w \<Longrightarrow> off + n * w \<le> limit \<Longrightarrow> off + n * w \<le> MaxInt64 \<Longrightarrow> section_within off n w limit"
  using checked_end_Some [of off n w] by (simp add: section_within_def)

abbreviation edge_chunk :: "builder \<Rightarrow> nat \<Rightarrow> string" where
  "edge_chunk b i \<equiv> concat (map (writeSemanticBinaryEdge \<circ> edge_of_row)
     (filter (\<lambda>e. beSource e = i) (edgesInOrder (bdEdges b))))"

abbreviation vector_chunk :: "build_env \<Rightarrow> nat \<Rightarrow> string" where
  "vector_chunk env i \<equiv> concat (map put32 (payload env i))"

abbreviation metadata_chunk :: "builder \<Rightarrow> nat \<Rightarrow> string" where
  "metadata_chunk b i \<equiv> bnMetadata (bdNodes b ! i)"

definition node_row :: "index_header \<Rightarrow> builder \<Rightarrow> nat \<Rightarrow> node_record" where
  "node_row h b i =
    \<lparr>ndCapturedAtUnixNano = bnCapturedAtNS (bdNodes b ! i),
     ndVectorOffset = hdVectorOffset h + int i * hdVectorStride h,
     ndEdgeOffset = hdEdgeOffset h + int (\<Sum>j < i. length (edge_chunk b j)),
     ndStringOffset = hdStringOffset h + int (\<Sum>j < i. length (metadata_chunk b j)),
     ndEdgeCount = word_of_nat (edge_count (bdEdges b) i),
     ndStringLength = word_of_nat (length (metadata_chunk b i)),
     ndMaxLevel = word_of_nat (level_of b i)\<rparr>"

lemma length_edge_chunk: "length (edge_chunk b i) = 8 * edge_count (bdEdges b) i"
  unfolding length_edge_bytes by simp

lemma all_edge_chunks:
  assumes "\<forall>e\<in>set (bdEdges b). beSource e < n"
  shows "concat (map (edge_chunk b) [0..<n]) = concat (map (writeSemanticBinaryEdge \<circ> edge_of_row) (edgesInOrder (bdEdges b)))"
proof -
  have "concat (map (\<lambda>i. filter (\<lambda>e. beSource e = i) (edgesInOrder (bdEdges b))) [0..<n]) = edgesInOrder (bdEdges b)"
    using assms by (intro concat_by_source sorted_edgesInOrder) simp
  then have "concat (map (writeSemanticBinaryEdge \<circ> edge_of_row) (edgesInOrder (bdEdges b)))
      = concat (map (writeSemanticBinaryEdge \<circ> edge_of_row)
          (concat (map (\<lambda>i. filter (\<lambda>e. beSource e = i) (edgesInOrder (bdEdges b))) [0..<n])))" by simp
  then show ?thesis by (simp add: concat_map_concat comp_def)
qed

text \<open>The arithmetic of a file that fits: its offsets as sums, and its records.\<close>

lemma fitting_records:
  fixes p :: index_profile and b :: builder and sk t :: string and g :: int
  defines "h \<equiv> binaryHeader sk p g t b" and "n \<equiv> length (bdNodes b)"
  assumes "file_fits toJSON ofJSON env h b" and "\<forall>e\<in>set (bdEdges b). beSource e < n"
  shows "hdVectorStride h = pfEmbeddingDim p * 4"
    and "hdVectorOffset h = 4096 + int n * 64"
    and "hdEdgeOffset h = hdVectorOffset h + int n * (pfEmbeddingDim p * 4)"
    and "hdStringOffset h = hdEdgeOffset h + 8 * int (length (bdEdges b))"
    and "hdStringOffset h + int (metadata_size b) \<le> MaxInt64"
    and "nodeRecords h (bdEdges b) 0 (hdEdgeOffset h) (hdStringOffset h) (bdNodes b) = map (node_row h b) [0..<n]"
proof -
  note fits = assms(3) [unfolded file_fits_def]
  have dim: "hdEmbeddingDim h = pfEmbeddingDim p" by (simp add: h_def)
  have d: "0 < pfEmbeddingDim p" "pfEmbeddingDim p \<le> MaxInt64 div 4" using fits dim by simp_all
  have total: "4096 + int n * 64 + int n * (pfEmbeddingDim p * 4) + 8 * int (length (bdEdges b)) + int (metadata_size b) \<le> MaxInt64"
    using fits unfolding dim n_def by blast
  then have "4096 + int n * 64 + int n * (pfEmbeddingDim p * 4) + 8 * int (length (bdEdges b)) \<le> MaxInt64" by linarith
  note o = binaryHeader_offsets [OF d this [unfolded n_def], of sk g t, folded h_def n_def]
  show "hdVectorStride h = pfEmbeddingDim p * 4" "hdVectorOffset h = 4096 + int n * 64"
    "hdEdgeOffset h = hdVectorOffset h + int n * (pfEmbeddingDim p * 4)"
    "hdStringOffset h = hdEdgeOffset h + 8 * int (length (bdEdges b))" by (rule o)+
  show end_le: "hdStringOffset h + int (metadata_size b) \<le> MaxInt64" using o total by linarith
  have pos: "0 \<le> int n * (pfEmbeddingDim p * 4)" using d by simp
  have edges: "(\<Sum>j < n. edge_count (bdEdges b) j) = length (bdEdges b)"
  proof -
    have "8 * (\<Sum>j < n. edge_count (bdEdges b) j) = length (concat (map (edge_chunk b) [0..<n]))"
      unfolding length_chunks length_edge_chunk by (simp add: sum_distrib_left)
    also have "\<dots> = 8 * length (bdEdges b)" unfolding all_edge_chunks [OF assms(4)] length_edge_bytes by simp
    finally show ?thesis by simp
  qed
  show "nodeRecords h (bdEdges b) 0 (hdEdgeOffset h) (hdStringOffset h) (bdNodes b) = map (node_row h b) [0..<n]"
  proof (rule nth_equalityI)
    fix i assume "i < length (nodeRecords h (bdEdges b) 0 (hdEdgeOffset h) (hdStringOffset h) (bdNodes b))"
    then have i: "i < n" by (simp add: n_def)
    have le: "hdEdgeOffset h + 8 * int (\<Sum>j < length (bdNodes b). edge_count (bdEdges b) (0 + j)) \<le> MaxInt64"
        "hdStringOffset h + int (\<Sum>j < length (bdNodes b). length (bnMetadata (bdNodes b ! j))) \<le> MaxInt64"
    proof -
      have "hdEdgeOffset h + 8 * int (length (bdEdges b)) \<le> MaxInt64" using o end_le by linarith
      then show "hdEdgeOffset h + 8 * int (\<Sum>j < length (bdNodes b). edge_count (bdEdges b) (0 + j)) \<le> MaxInt64"
        unfolding add_0 n_def [symmetric] edges .
    qed (use end_le in \<open>simp only: metadata_size_def\<close>)
    have nonneg: "0 \<le> hdEdgeOffset h" "0 \<le> hdStringOffset h" using o pos by linarith+
    have "int i * (pfEmbeddingDim p * 4) \<le> int n * (pfEmbeddingDim p * 4)" using i d by (intro mult_right_mono) auto
    moreover have "0 \<le> int i * (pfEmbeddingDim p * 4)" using d by simp
    ultimately have "int64 (int i * hdVectorStride h) = int i * hdVectorStride h"
      "add64 (hdVectorOffset h) (int i * hdVectorStride h) = hdVectorOffset h + int i * hdVectorStride h"
      using o total pos unfolding o(1) by (intro int64_exact add64_exact; linarith)+
    then show "nodeRecords h (bdEdges b) 0 (hdEdgeOffset h) (hdStringOffset h) (bdNodes b) ! i = map (node_row h b) [0..<n] ! i"
      using nodeRecords_nth [OF i [unfolded n_def] nonneg le, of h] i
      by (simp add: node_row_def length_edge_chunk sum_distrib_left)
  qed (simp add: n_def)
qed

text \<open>What the file of a graph is, part by part.\<close>

lemma fileBytes_parts:
  fixes p :: index_profile and b :: builder and sk t :: string and g :: int
  defines "h \<equiv> binaryHeader sk p g t b" and "n \<equiv> length (bdNodes b)"
  assumes fits: "file_fits toJSON ofJSON env h b" and ok: "rows_ok (level_of b) n (bdEdges b)" and env: "env_ok env b"
  shows "\<exists>H. fileBytes toJSON env h b = Inr (H @ concat (map (writeSemanticBinaryNode \<circ> node_row h b) [0..<n])
      @ concat (map (vector_chunk env) [0..<n]) @ concat (map (edge_chunk b) [0..<n]) @ concat (map (metadata_chunk b) [0..<n]))
    \<and> length H = 4096 \<and> (\<forall>rest. readSemanticBinaryIndexHeaderFromFile ofJSON (H @ rest) = Inr h)"
proof -
  let ?N = "concat (map (writeSemanticBinaryNode \<circ> node_row h b) [0..<n])"
  let ?V = "concat (map (vector_chunk env) [0..<n])" let ?G = "concat (map (edge_chunk b) [0..<n])"
  have src: "\<forall>e\<in>set (bdEdges b). beSource e < n" using ok by (auto simp: rows_ok_def edge_ok_def)
  note r = fitting_records [OF fits [unfolded h_def] src [unfolded n_def], folded h_def n_def]
  note f = fits [unfolded file_fits_def]
  have dim: "hdEmbeddingDim h = pfEmbeddingDim p" by (simp add: h_def)
  obtain H where H: "writeSemanticBinaryHeader toJSON h = Inr H" "length H = 4096"
      "\<forall>rest. readSemanticBinaryIndexHeaderFromFile ofJSON (H @ rest) = Inr h"
  proof -
    have "\<exists>H. writeSemanticBinaryHeader toJSON h = Inr H \<and> length H = 4096
      \<and> readSemanticBinaryIndexHeaderFromFile ofJSON (H @ rest) = Inr h" for rest
      using f by (intro header_written) auto
    then show ?thesis using that by (metis Inr_inject)
  qed
  have V: "writeVectors env b (hdEmbeddingDim h) [0..<length (bdNodes b)] = Inr ?V"
    using writeVectors_ok [OF env, of "[0..<n]" "hdEmbeddingDim h"] f by (simp add: n_def atLeast0LessThan)
  have len: "length (H @ ?N) = nat (hdVectorOffset h)" "length ((H @ ?N) @ ?V) = nat (hdEdgeOffset h)"
      "length (((H @ ?N) @ ?V) @ ?G) = nat (hdStringOffset h)"
  proof -
    have lN: "length ?N = n * 64" using length_concat_const [of "map (writeSemanticBinaryNode \<circ> node_row h b) [0..<n]" 64] by simp
    have d: "length (payload env i) = nat (pfEmbeddingDim p)" if "i < n" for i
    proof -
      have "int (length (payload env i)) = pfEmbeddingDim p" using f that dim by (simp add: n_def)
      then show ?thesis by simp
    qed
    have "length ?V = n * (4 * nat (pfEmbeddingDim p))"
      using length_concat_const [of "map (vector_chunk env) [0..<n]" "4 * nat (pfEmbeddingDim p)"] d
      by (simp add: length_vector_bytes)
    then have lV: "int (length ?V) = int n * (pfEmbeddingDim p * 4)" using f dim by simp
    have lG: "length ?G = 8 * length (bdEdges b)" unfolding all_edge_chunks [OF src] length_edge_bytes by simp
    show 1: "length (H @ ?N) = nat (hdVectorOffset h)" using r(2) H(2) lN by simp
    have pos: "0 \<le> int n * (pfEmbeddingDim p * 4)" using f dim by simp
    show 2: "length ((H @ ?N) @ ?V) = nat (hdEdgeOffset h)"
      using r(2,3) 1 lV pos unfolding length_append [of "H @ ?N" ?V] by linarith
    show "length (((H @ ?N) @ ?V) @ ?G) = nat (hdStringOffset h)"
      using r(2-4) 2 lG pos unfolding length_append [of "(H @ ?N) @ ?V" ?G] by linarith
  qed
  have "\<forall>e\<in>set (edgesInOrder (bdEdges b)). edge_in_range e"
  proof
    fix e assume "e \<in> set (edgesInOrder (bdEdges b))"
    then have "edge_ok (level_of b) n e" using ok by (simp add: rows_ok_def)
    then have e: "beNeighbor e < n" "beLevel e \<le> level_of b (beNeighbor e)" "beRank e < 16"
      by (simp_all add: edge_ok_def semanticHNSWMaxNeighbors_def)
    then have "bdNodes b ! beNeighbor e \<in> set (bdNodes b)" by (simp add: n_def)
    then have "level_of b (beNeighbor e) < 2 ^ 16" using f by blast
    then have "beLevel e \<le> 65535" using e(2) by simp
    moreover have "n < 2 ^ 32" using f by (simp only: n_def)
    ultimately show "edge_in_range e" using e(1,3) by (simp add: edge_in_range_def)
  qed
  then have G: "writeEdges (edgesInOrder (bdEdges b)) = Inr ?G"
    using writeEdges_rows [of "edgesInOrder (bdEdges b)"] all_edge_chunks [OF src] by (simp add: list_all_iff)
  have S: "concat (map bnMetadata (bdNodes b)) = concat (map (metadata_chunk b) [0..<n])"
    unfolding n_def by (metis (no_types, lifting) map_nth map_map comp_def map_cong)
  have "map writeSemanticBinaryNode (nodeRecords h (bdEdges b) 0 (hdEdgeOffset h) (hdStringOffset h) (bdNodes b))
      = map (writeSemanticBinaryNode \<circ> node_row h b) [0..<n]" unfolding r(6) by simp
  then have "fileBytes toJSON env h b = Inr (((((H @ ?N) @ ?V) @ ?G) @ concat (map (metadata_chunk b) [0..<n])))"
    using H(1) V G unfolding fileBytes_def by (simp only: sum.case Let_def len [symmetric] write_at_end S)
  then show ?thesis using H(2,3) by auto
qed

lemma node_row_fits:
  fixes p :: index_profile and b :: builder and sk t :: string and g :: int
  defines "h \<equiv> binaryHeader sk p g t b" and "n \<equiv> length (bdNodes b)"
  assumes fits: "file_fits toJSON ofJSON env h b" and src: "\<forall>e\<in>set (bdEdges b). beSource e < n" and i: "i < n"
    and size: "hdStringOffset h + int (metadata_size b) \<le> fileSize"
  shows "node_fits (node_row h b i)" and "validateSemanticBinaryNodeLayout h (node_row h b i) (int i) fileSize"
    and "unat (ndEdgeCount (node_row h b i)) = edge_count (bdEdges b) i"
    and "unat (ndStringLength (node_row h b i)) = length (metadata_chunk b i)"
proof -
  note r = fitting_records [OF fits [unfolded h_def] src [unfolded n_def], folded h_def n_def]
  note f = fits [unfolded file_fits_def]
  have dim: "hdEmbeddingDim h = pfEmbeddingDim p" by (simp add: h_def)
  let ?w = "pfEmbeddingDim p * 4"
  have w: "0 < ?w" using f dim by simp
  have vec: "0 \<le> int i * ?w" "int i * ?w + ?w \<le> int n * ?w"
  proof -
    show "0 \<le> int i * ?w" using w by simp
    have "int (Suc i) * ?w \<le> int n * ?w" using i w by (intro mult_right_mono) auto
    then show "int i * ?w + ?w \<le> int n * ?w" by (simp add: algebra_simps)
  qed
  let ?e = "\<Sum>j < i. length (edge_chunk b j)" let ?s = "\<Sum>j < i. length (metadata_chunk b j)"
  have e: "?e + 8 * edge_count (bdEdges b) i \<le> 8 * length (bdEdges b)"
    using chunk_slice(2) [OF i, of "edge_chunk b"] unfolding all_edge_chunks [OF src] length_edge_bytes length_edge_chunk by simp
  have s: "?s + length (metadata_chunk b i) \<le> metadata_size b"
    using chunk_slice(2) [OF i, of "metadata_chunk b"] unfolding length_chunks metadata_size_def n_def .
  have node: "bdNodes b ! i \<in> set (bdNodes b)" using i by (simp add: n_def)
  have "edge_count (bdEdges b) i < 2 ^ 32" using f le_less_trans [OF length_filter_le] by blast
  then show c: "unat (ndEdgeCount (node_row h b i)) = edge_count (bdEdges b) i"
    unfolding node_row_def node_record.simps by (rule unat_word_of_length)
  have "length (metadata_chunk b i) < 2 ^ 32" using f node by blast
  then show m: "unat (ndStringLength (node_row h b i)) = length (metadata_chunk b i)"
    unfolding node_row_def node_record.simps by (rule unat_word_of_length)
  have captured: "- (2 ^ 63) \<le> bnCapturedAtNS (bdNodes b ! i)" "bnCapturedAtNS (bdNodes b ! i) < 2 ^ 63" using f node by blast+
  have fields: "ndVectorOffset (node_row h b i) = hdVectorOffset h + int i * ?w"
      "ndEdgeOffset (node_row h b i) = hdEdgeOffset h + int ?e"
      "ndStringOffset (node_row h b i) = hdStringOffset h + int ?s"
      "ndCapturedAtUnixNano (node_row h b i) = bnCapturedAtNS (bdNodes b ! i)"
    by (simp_all only: node_row_def node_record.simps r(1))
  have "int ?e + 8 * int (edge_count (bdEdges b) i) \<le> 8 * int (length (bdEdges b))" using e by linarith
  note eo = this
  have "int ?s + int (length (metadata_chunk b i)) \<le> int (metadata_size b)" using s by linarith
  note so = this
  have ge: "0 \<le> hdVectorOffset h" "hdVectorOffset h + int i * ?w + ?w \<le> hdEdgeOffset h" "0 \<le> hdEdgeOffset h"
      "hdEdgeOffset h \<le> hdStringOffset h" "hdStringOffset h \<le> MaxInt64"
    using r(2-5) vec w by linarith+
  show "node_fits (node_row h b i)"
    unfolding node_fits_def fields using captured ge vec eo so r(2-5) w by (auto simp del: of_nat_sum)
  have "semanticBinaryCheckedSectionEnd (hdVectorOffset h) (int i) (hdVectorStride h) = Some (ndVectorOffset (node_row h b i))"
    unfolding fields r(1) using ge vec w by (intro checked_end_Some) linarith+
  moreover have "section_within (ndVectorOffset (node_row h b i)) 1 (hdVectorStride h) (hdEdgeOffset h)"
    unfolding fields r(1) using ge vec w by (intro section_withinI) linarith+
  moreover have "section_within (ndEdgeOffset (node_row h b i)) (int (unat (ndEdgeCount (node_row h b i)))) 8 (hdStringOffset h)"
    unfolding fields c using ge r(4) eo by (intro section_withinI) linarith+
  moreover have "section_within (ndStringOffset (node_row h b i)) (int (unat (ndStringLength (node_row h b i)))) 1 fileSize"
    unfolding fields m using ge so size r(5) by (intro section_withinI) linarith+
  moreover have "hdEdgeOffset h \<le> ndEdgeOffset (node_row h b i)" "hdStringOffset h \<le> ndStringOffset (node_row h b i)"
    unfolding fields by linarith+
  ultimately show "validateSemanticBinaryNodeLayout h (node_row h b i) (int i) fileSize"
    by (simp add: validateSemanticBinaryNodeLayout_def semanticBinaryIndexEdgeRecordSize_def)
qed

lemma written_layout:
  fixes p :: index_profile and b :: builder and sk t :: string and g :: int
  defines "h \<equiv> binaryHeader sk p g t b" and "n \<equiv> length (bdNodes b)"
  assumes fits: "file_fits toJSON ofJSON env h b" and src: "\<forall>e\<in>set (bdEdges b). beSource e < n"
    and size: "hdStringOffset h + int (metadata_size b) \<le> fileSize"
  shows "validateSemanticBinaryIndexLayout h fileSize"
proof -
  note r = fitting_records [OF fits [unfolded h_def] src [unfolded n_def], folded h_def n_def]
  note f = fits [unfolded file_fits_def]
  have dim: "hdEmbeddingDim h = pfEmbeddingDim p" by (simp add: h_def)
  have w: "0 < pfEmbeddingDim p * 4" using f dim by simp
  have pos: "0 \<le> int n * (pfEmbeddingDim p * 4)" using w by simp
  have stride: "semanticBinaryVectorStride (hdEmbeddingDim h) = hdVectorStride h"
    using stride_exact [of "pfEmbeddingDim p"] f dim r(1) by simp
  have fields: "hdNodeCount h = int n" "hdEdgeCount h = int (length (bdEdges b))" "hdNodeOffset h = 4096"
      "hdNodeRecordSize h = 64" "hdEdgeRecordSize h = 8" by (simp_all add: h_def n_def)
  have "semanticBinaryCheckedSectionEnd 4096 (int n) 64 = Some (hdVectorOffset h)"
    using checked_end_Some [of 4096 "int n" 64] r(2-5) pos by simp
  moreover have "semanticBinaryCheckedSectionEnd (hdVectorOffset h) (int n) (hdVectorStride h) = Some (hdEdgeOffset h)"
    unfolding r(1) r(3) using r(2-5) pos w by (intro checked_end_Some) linarith+
  moreover have "semanticBinaryCheckedSectionEnd (hdEdgeOffset h) (int (length (bdEdges b))) 8 = Some (hdStringOffset h)"
    unfolding r(4) mult.commute [of 8] using r(2-5) pos by (intro checked_end_Some) linarith+
  moreover have "4096 \<le> fileSize" "hdStringOffset h \<le> fileSize" using r(2-4) pos size by linarith+
  moreover have "0 < hdVectorStride h" using r(1) w by simp
  ultimately show ?thesis
    unfolding validateSemanticBinaryIndexLayout_def semanticBinaryIndexHeaderBytes_def semanticBinaryIndexNodeRecordSize_def
      semanticBinaryIndexEdgeRecordSize_def fields stride by simp
qed

lemma readHeaderAndNodesI:
  assumes "readSemanticBinaryIndexHeaderFromFile ofJSON f = Inr h"
    and "validateSemanticBinaryIndexLayout h (int (length f))" and "nat (hdNodeCount h) = n"
    and "readAt f (n * 64) (hdNodeOffset h) = Some raw" and "map readNode (records 64 n raw) = nodes"
    and "validateNodes h (int (length f)) 0 nodes"
  shows "readHeaderAndNodes ofJSON f = Inr \<lparr>rdFile = f, rdHeader = h, rdNodes = nodes\<rparr>"
  using assms by (simp add: readHeaderAndNodes_def semanticBinaryIndexNodeRecordSize_def)

text \<open>The file of a graph as the header, the nodes, the vectors, the edges and the metadata.\<close>

abbreviation written :: "(nat \<Rightarrow> string) \<Rightarrow> builder \<Rightarrow> string" where
  "written g b \<equiv> concat (map g [0..<length (bdNodes b)])"

lemma vector_chunk_length:
  assumes "file_fits toJSON ofJSON env h b" and "i < length (bdNodes b)" and "hdVectorStride h = hdEmbeddingDim h * 4"
  shows "int (length (vector_chunk env i)) = hdVectorStride h" and "nat (hdEmbeddingDim h) = length (payload env i)"
proof -
  have "int (length (payload env i)) = hdEmbeddingDim h" using assms(1,2) by (simp add: file_fits_def)
  then show "int (length (vector_chunk env i)) = hdVectorStride h" "nat (hdEmbeddingDim h) = length (payload env i)"
    using assms(3) length_vector_bytes [of "payload env i"] by linarith+
qed

lemma vector_chunks_length:
  assumes "file_fits toJSON ofJSON env h b" and "i \<le> length (bdNodes b)" and "hdVectorStride h = hdEmbeddingDim h * 4"
  shows "int (\<Sum>j < i. length (vector_chunk env j)) = int i * hdVectorStride h"
  using assms(2) by (induction i)
    (use vector_chunk_length(1) [OF assms(1) _ assms(3)] in \<open>auto simp: algebra_simps simp del: of_nat_sum\<close>)

lemma written_sections:
  fixes p :: index_profile and b :: builder and sourceKey t :: string and g :: int
  defines "h \<equiv> binaryHeader (trim_space sourceKey) p g t b"
  assumes "rows_ok (level_of b) (length (bdNodes b)) (bdEdges b)" and "env_ok env b"
    and "file_fits toJSON ofJSON env h b"
  obtains H where
    "fileBytes toJSON env h b = Inr (H @ written (writeSemanticBinaryNode \<circ> node_row h b) b @ written (vector_chunk env) b
       @ written (edge_chunk b) b @ written (metadata_chunk b) b)"
    and "length H = 4096" and "\<forall>rest. readSemanticBinaryIndexHeaderFromFile ofJSON (H @ rest) = Inr h"
    and "length (written (writeSemanticBinaryNode \<circ> node_row h b) b) = 64 * length (bdNodes b)"
    and "length (written (metadata_chunk b) b) = metadata_size b"
    and "hdVectorOffset h = int (length (H @ written (writeSemanticBinaryNode \<circ> node_row h b) b))"
    and "hdEdgeOffset h = int (length ((H @ written (writeSemanticBinaryNode \<circ> node_row h b) b) @ written (vector_chunk env) b))"
    and "hdStringOffset h = int (length (((H @ written (writeSemanticBinaryNode \<circ> node_row h b) b)
       @ written (vector_chunk env) b) @ written (edge_chunk b) b))"
proof -
  let ?n = "length (bdNodes b)"
  have src: "\<forall>e\<in>set (bdEdges b). beSource e < ?n" using assms(2) by (auto simp: rows_ok_def edge_ok_def)
  note fits = assms(4) [unfolded h_def]
  note r = fitting_records [OF fits src, folded h_def]
  obtain H where H: "fileBytes toJSON env h b = Inr (H @ written (writeSemanticBinaryNode \<circ> node_row h b) b
        @ written (vector_chunk env) b @ written (edge_chunk b) b @ written (metadata_chunk b) b)" "length H = 4096"
      "\<forall>rest. readSemanticBinaryIndexHeaderFromFile ofJSON (H @ rest) = Inr h"
    using fileBytes_parts [OF fits assms(2,3), folded h_def] by blast
  have N: "length (written (writeSemanticBinaryNode \<circ> node_row h b) b) = 64 * ?n"
    using length_concat_const [of "map (writeSemanticBinaryNode \<circ> node_row h b) [0..<?n]" 64] by simp
  have "hdVectorStride h = hdEmbeddingDim h * 4" using r(1) by (simp add: h_def)
  from vector_chunks_length [OF assms(4) order_refl this] r(1)
  have V: "int (length (written (vector_chunk env) b)) = int ?n * (pfEmbeddingDim p * 4)" unfolding length_chunks by simp
  have G: "length (written (edge_chunk b) b) = 8 * length (bdEdges b)"
    unfolding all_edge_chunks [OF src] length_edge_bytes by simp
  have S: "length (written (metadata_chunk b) b) = metadata_size b" unfolding length_chunks metadata_size_def ..
  show ?thesis by (rule that [OF H N S]) (use r(2-4) N V G H(2) in simp_all)
qed

text \<open>What a reader finds at the places that the record of a node names.\<close>

lemma written_node_is_read:
  fixes p :: index_profile and b :: builder and sourceKey t :: string and g :: int
  defines "h \<equiv> binaryHeader (trim_space sourceKey) p g t b"
  assumes "rows_ok (level_of b) (length (bdNodes b)) (bdEdges b)" and "file_fits toJSON ofJSON env h b"
    and offs: "hdVectorOffset h = int (length (H @ N))" "hdEdgeOffset h = int (length ((H @ N) @ written (vector_chunk env) b))"
      "hdStringOffset h = int (length (((H @ N) @ written (vector_chunk env) b) @ written (edge_chunk b) b))"
    and f: "f = H @ N @ written (vector_chunk env) b @ written (edge_chunk b) b @ written (metadata_chunk b) b"
    and size: "hdStringOffset h + int (metadata_size b) \<le> int (length f)"
    and i: "i < length (bdNodes b)"
  defines "r \<equiv> \<lparr>rdFile = f, rdHeader = h, rdNodes = map (node_row h b) [0..<length (bdNodes b)]\<rparr>"
  shows "vectorForOrdinal r i = Inr (payload env i)"
    and "edgeRecords r i = Inr (map edge_of_row (filter (\<lambda>e. beSource e = i) (edgesInOrder (bdEdges b))))"
    and "readAt (rdFile r) (unat (ndStringLength (rdNodes r ! i))) (ndStringOffset (rdNodes r ! i))
      = Some (bnMetadata (bdNodes b ! i))"
proof -
  have src: "\<forall>e\<in>set (bdEdges b). beSource e < length (bdNodes b)" using assms(2) by (auto simp: rows_ok_def edge_ok_def)
  note fits = assms(3) [unfolded h_def]
  note row = node_row_fits [OF fits src _ size [unfolded h_def], folded h_def]
  have stride: "hdVectorStride h = hdEmbeddingDim h * 4" using fitting_records(1) [OF fits src] by (simp add: h_def)
  note vec = vector_chunk_length [OF assms(3) i stride]
  have at: "rdNodes r ! i = node_row h b i" using i by (simp add: r_def)
  have off: "ndVectorOffset (node_row h b i) = hdVectorOffset h + int i * hdVectorStride h"
    "ndEdgeOffset (node_row h b i) = hdEdgeOffset h + int (\<Sum>j < i. length (edge_chunk b j))"
    "ndStringOffset (node_row h b i) = hdStringOffset h + int (\<Sum>j < i. length (metadata_chunk b j))"
    by (simp_all only: node_row_def node_record.simps)
  have sum: "int i * hdVectorStride h = int (\<Sum>j < i. length (vector_chunk env j))"
    using vector_chunks_length [OF assms(3) _ stride, of i] i by simp
  have "nat (hdVectorStride h) = length (vector_chunk env i)" using vec(1) by linarith
  from chunk_read [OF i off(1) [unfolded sum offs(1)] this, of "written (edge_chunk b) b @ written (metadata_chunk b) b"]
  have "readAt f (nat (hdVectorStride h)) (ndVectorOffset (node_row h b i)) = Some (vector_chunk env i)"
    unfolding f by (simp only: append_assoc)
  then show "vectorForOrdinal r i = Inr (payload env i)"
    using i vec(2) by (simp add: vectorForOrdinal_def readVectorBytes_def read_vector_bytes r_def h_def)
  let ?es = "filter (\<lambda>e. beSource e = i) (edgesInOrder (bdEdges b))"
  define k where "k = edge_count (bdEdges b) i"
  have "k * 8 = length (edge_chunk b i)" unfolding length_edge_chunk k_def by simp
  from chunk_read [OF i off(2) [unfolded offs(2)] this, of "written (metadata_chunk b) b"]
  have "readAt f (k * 8) (ndEdgeOffset (node_row h b i)) = Some (edge_chunk b i)"
    unfolding f by (simp only: append_assoc)
  moreover have "length ?es = k" by (simp add: k_def)
  moreover from this have "(k = 0) = (?es = [])" by (metis length_0_conv)
  ultimately show "edgeRecords r i = Inr (map edge_of_row ?es)"
    using i row(3) [OF i, folded k_def] read_edge_bytes [of ?es]
    by (simp add: edgeRecords_def Let_def semanticBinaryIndexEdgeRecordSize_def r_def)
  from chunk_read [OF i off(3) [unfolded offs(3)] refl, of "[]"]
  show "readAt (rdFile r) (unat (ndStringLength (rdNodes r ! i))) (ndStringOffset (rdNodes r ! i)) = Some (bnMetadata (bdNodes b ! i))"
    unfolding at row(4) [OF i] f by (simp only: r_def append_assoc append_Nil2 index_reader.simps f)
qed

lemma written_graph_opens:
  fixes p :: index_profile and b :: builder and sourceKey t :: string and g :: int
  defines "h \<equiv> binaryHeader (trim_space sourceKey) p g t b"
  assumes "rows_ok (level_of b) (length (bdNodes b)) (bdEdges b)" and "env_ok env b"
    and "file_fits toJSON ofJSON env h b"
  shows "\<exists>f r. fileBytes toJSON env h b = Inr f
    \<and> openSemanticBinaryIndexFileForGeneration ofJSON sourceKey p (Some f) = Inr r
    \<and> rdFile r = f \<and> reads_graph env h b r"
proof (rule written_sections [OF assms(2-4) [unfolded h_def], folded h_def])
  fix H
  let ?n = "length (bdNodes b)" and ?N = "written (writeSemanticBinaryNode \<circ> node_row h b) b"
  let ?f = "H @ ?N @ written (vector_chunk env) b @ written (edge_chunk b) b @ written (metadata_chunk b) b"
  assume H: "fileBytes toJSON env h b = Inr ?f" "length H = 4096"
      "\<forall>rest. readSemanticBinaryIndexHeaderFromFile ofJSON (H @ rest) = Inr h"
    and lens: "length ?N = 64 * ?n" "length (written (metadata_chunk b) b) = metadata_size b"
    and offs: "hdVectorOffset h = int (length (H @ ?N))" "hdEdgeOffset h = int (length ((H @ ?N) @ written (vector_chunk env) b))"
      "hdStringOffset h = int (length (((H @ ?N) @ written (vector_chunk env) b) @ written (edge_chunk b) b))"
  have src: "\<forall>e\<in>set (bdEdges b). beSource e < ?n" using assms(2) by (auto simp: rows_ok_def edge_ok_def)
  note fits = assms(4) [unfolded h_def]
  have size: "hdStringOffset h + int (metadata_size b) \<le> int (length ?f)" using offs(3) lens(2) by simp
  have layout: "validateSemanticBinaryIndexLayout h (int (length ?f))"
    using written_layout [OF fits src] size by (simp only: h_def [symmetric])
  note row = node_row_fits [OF fits src _ size [unfolded h_def], folded h_def]
  have raw: "readAt ?f (?n * 64) (hdNodeOffset h) = Some ?N"
    using readAt_within [of 4096 "?n * 64" ?f] slice_middle [OF H(2), of ?N "?n * 64"] lens(1) H(2) by (simp add: h_def)
  have nodes: "map readNode (records 64 ?n ?N) = map (node_row h b) [0..<?n]"
    using records_concat [of "map (writeSemanticBinaryNode \<circ> node_row h b) [0..<?n]" 64] row(1)
    by (simp add: readNode_write)
  have valid: "validateNodes h (int (length ?f)) 0 (map (node_row h b) [0..<?n])"
    using row(2) by (simp add: validateNodes_all)
  let ?r = "\<lparr>rdFile = ?f, rdHeader = h, rdNodes = map (node_row h b) [0..<?n]\<rparr>"
  have count: "nat (hdNodeCount h) = ?n" by (simp add: h_def)
  have "readHeaderAndNodes ofJSON ?f = Inr ?r"
    using H(3) by (intro readHeaderAndNodesI [OF _ layout count raw nodes valid]) blast
  moreover have "validateSemanticBinaryIndexHeaderIdentity h sourceKey p"
    by (simp add: validateSemanticBinaryIndexHeaderIdentity_def h_def)
  ultimately have "openSemanticBinaryIndexFileForGeneration ofJSON sourceKey p (Some ?f) = Inr ?r"
    by (simp add: openSemanticBinaryIndexFileForGeneration_def)
  moreover have "reads_graph env h b ?r"
    using written_node_is_read [OF assms(2) fits offs [unfolded h_def] refl size [unfolded h_def], folded h_def]
    by (simp add: reads_graph_def node_row_def)
  ultimately show ?thesis using H(1) by auto
qed

end
