(* ===== verification/Semantic_Index.thy ===== *)
theory Semantic_Index
  imports Semantic_Write
begin

text \<open>
  The semantic index from end to end: the assets that a build database was populated with are
  what a search over the published file hands out. The graph that the reader sees is the graph of
  the builder, its level 0 is connected forwards by the forced chain, and an opened file of a build is
  a sound index, on which the theorems of the search rest.
\<close>

section \<open>The graph that the reader sees\<close>

lemma fitting_words:
  "n < 2 ^ 32 \<Longrightarrow> unat (word_of_nat n :: 32 word) = n" "k < 2 ^ 16 \<Longrightarrow> unat (word_of_nat k :: 16 word) = k"
  by (simp_all add: unat_of_nat)

lemma row_fits:
  assumes "rows_ok (level_of b) (length (bdNodes b)) (bdEdges b)"
    and "length (bdNodes b) < 2 ^ 32" and "\<forall>node\<in>set (bdNodes b). bnMaxLevel node < 2 ^ 16" and "e \<in> set (bdEdges b)"
  shows "unat (edNeighbor (edge_of_row e)) = beNeighbor e" and "unat (edLevel (edge_of_row e)) = beLevel e"
    and "beNeighbor e < length (bdNodes b)"
proof -
  have e: "edge_ok (level_of b) (length (bdNodes b)) e" using assms(1,4) by (simp add: rows_ok_def)
  then have "level_of b (beSource e) < 2 ^ 16" using assms(3) by (simp add: edge_ok_def)
  with e assms(2) show "unat (edNeighbor (edge_of_row e)) = beNeighbor e" "unat (edLevel (edge_of_row e)) = beLevel e"
      "beNeighbor e < length (bdNodes b)"
    by (simp_all add: edge_of_row_def edge_ok_def fitting_words del: unat_of_nat)
qed

lemma graph_neighbors:
  assumes "reads_graph env h b r" and "rows_ok (level_of b) (length (bdNodes b)) (bdEdges b)"
    and "length (bdNodes b) < 2 ^ 32" and "\<forall>node\<in>set (bdNodes b). bnMaxLevel node < 2 ^ 16" and "i < length (bdNodes b)"
  shows "\<exists>ns. neighborOrdinals r i level = Inr ns \<and> set ns = nbrs (bdEdges b) i level"
proof -
  let ?es = "filter (\<lambda>e. beSource e = i) (edgesInOrder (bdEdges b))"
  note fits = row_fits [OF assms(2-4)]
  have "edgeRecords r i = Inr (map edge_of_row ?es)" using assms(1,5) by (simp add: reads_graph_def)
  then have "neighborOrdinals r i level
      = Inr (map (\<lambda>e. unat (edNeighbor e)) (filter (\<lambda>e. unat (edLevel e) = level) (map edge_of_row ?es)))"
    by (simp add: neighborOrdinals_def)
  moreover have "set (map (\<lambda>e. unat (edNeighbor e)) (filter (\<lambda>e. unat (edLevel e) = level) (map edge_of_row ?es)))
      = nbrs (bdEdges b) i level"
    using fits by (force simp: nbrs_def at_def image_iff)
  ultimately show ?thesis by blast
qed

text \<open>The asset of a node as the reader returns it.\<close>

definition stored_asset :: "build_env \<Rightarrow> string \<Rightarrow> builder \<Rightarrow> nat \<Rightarrow> semantic_asset \<Rightarrow> semantic_asset" where
  "stored_asset env sourceKey b i a =
     a\<lparr>saSourceKey := sourceKey, saCapturedAt := bnCapturedAtNS (bdNodes b ! i), saVector := payload env i,
       saMaxLevel := int (level_of b i)\<rparr>"

lemma graph_asset:
  assumes "reads_graph env h b r" and "i < length (bdNodes b)" and "level_of b i < 2 ^ 16"
    and "bnMetadata (bdNodes b ! i) = encodeSemanticBinaryMetadata a" and "asset_fits a"
  shows "assetForOrdinal r i = Inr (stored_asset env (hdSourceKey h) b i a)"
proof -
  have "unat (ndMaxLevel (rdNodes r ! i)) = level_of b i"
    using assms(1-3) by (simp add: reads_graph_def fitting_words del: unat_of_nat)
  then have "decodeSemanticBinaryMetadata (bnMetadata (bdNodes b ! i)) (hdSourceKey h) (rdNodes r ! i)
      = Inr (a\<lparr>saSourceKey := hdSourceKey h, saCapturedAt := bnCapturedAtNS (bdNodes b ! i), saVector := [],
          saMaxLevel := int (level_of b i)\<rparr>)"
    using assms(1,2) unfolding assms(4) metadata_decoded [OF assms(5)] by (simp only: reads_graph_def)
  then show ?thesis using assms(1,2) by (simp add: assetForOrdinal_def reads_graph_def stored_asset_def Let_def)
qed

lemma zip_records: "zip query (records w (min (length query) n) raw) = zip query (records w n raw)"
  by (rule nth_equalityI) (auto simp: records_def)

lemma graph_score:
  assumes "reads_graph env h b r" and "i < length (bdNodes b)"
  shows "score ar r query i = Inr (fold (\<lambda>(q, v) sum. fst ar sum (snd ar q v)) (zip query (payload env i)) 0)"
proof -
  let ?n = "nat (hdEmbeddingDim (rdHeader r))"
  have "vectorForOrdinal r i = Inr (payload env i)" using assms by (simp add: reads_graph_def)
  then obtain raw where raw: "readVectorBytes r i = Inr raw" "payload env i = map get32 (records 4 ?n raw)"
    by (auto simp: vectorForOrdinal_def split: sum.splits)
  have "zip query (map get32 (records 4 (min (length query) ?n) raw)) = zip query (payload env i)"
    unfolding raw(2) by (simp only: zip_map2 zip_records)
  with raw(1) show ?thesis by (simp add: dotOrdinalWithBuffer_def)
qed

section \<open>The file of a build is a sound index\<close>

text \<open>The nodes of a graph hold the metadata of a list of assets.\<close>

definition holds_assets :: "builder \<Rightarrow> semantic_asset list \<Rightarrow> bool" where
  "holds_assets b assets \<longleftrightarrow> map bnMetadata (bdNodes b) = map encodeSemanticBinaryMetadata assets
     \<and> list_all asset_fits assets"

lemma holds_assets_nth:
  assumes "holds_assets b assets" and "i < length (bdNodes b)"
  shows "i < length assets" and "bnMetadata (bdNodes b ! i) = encodeSemanticBinaryMetadata (assets ! i)"
    and "asset_fits (assets ! i)"
proof -
  have "length (map bnMetadata (bdNodes b)) = length (map encodeSemanticBinaryMetadata assets)"
    using assms(1) by (simp add: holds_assets_def)
  then show i: "i < length assets" using assms(2) by simp
  show "bnMetadata (bdNodes b ! i) = encodeSemanticBinaryMetadata (assets ! i)"
    using assms i nth_map [of i "bdNodes b" bnMetadata] nth_map [of i assets encodeSemanticBinaryMetadata]
    by (simp add: holds_assets_def)
  show "asset_fits (assets ! i)" using assms(1) i by (simp add: holds_assets_def list_all_length)
qed

lemma graph_is_sound:
  assumes "reads_graph env h b r" and "rows_ok (level_of b) (length (bdNodes b)) (bdEdges b)" and "index_opened r"
    and "hdPrecision h = semanticSearchIndexPrecision" and "holds_assets b assets"
    and "length (bdNodes b) < 2 ^ 32" and "\<forall>node\<in>set (bdNodes b). bnMaxLevel node < 2 ^ 16"
  shows "index_sound r" and "level0 r = {(i, j). i < length (bdNodes b) \<and> j \<in> nbrs (bdEdges b) i 0}"
proof -
  let ?n = "length (bdNodes b)"
  have r: "length (rdNodes r) = ?n" "rdHeader r = h" using assms(1) by (simp_all add: reads_graph_def)
  have "node_sound r i" if i: "i < ?n" for i
  proof -
    let ?es = "filter (\<lambda>e. beSource e = i) (edgesInOrder (bdEdges b))"
    have "edgeRecords r i = Inr (map edge_of_row ?es)" using assms(1) i by (simp add: reads_graph_def)
    moreover have "unat (edNeighbor (edge_of_row e)) < ?n" if "e \<in> set ?es" for e
      using that row_fits [OF assms(2,6,7), of e] by simp
    moreover have "level_of b i < 2 ^ 16" using assms(7) i by simp
    then have "is_ok (assetForOrdinal r i)"
      using graph_asset [OF assms(1) i _ holds_assets_nth(2,3) [OF assms(5) i]] by (simp add: is_ok_iff)
    ultimately show ?thesis by (simp add: node_sound_def list_all_iff r(1))
  qed
  then show "index_sound r" using assms(3,4) r by (simp add: index_sound_def list_all_iff)
  show "level0 r = {(i, j). i < ?n \<and> j \<in> nbrs (bdEdges b) i 0}"
  proof (rule set_eqI, clarify)
    fix i j
    show "(i, j) \<in> level0 r \<longleftrightarrow> (i, j) \<in> {(i, j). i < ?n \<and> j \<in> nbrs (bdEdges b) i 0}"
    proof (cases "i < ?n")
      case True
      obtain ns where "neighborOrdinals r i 0 = Inr ns" "set ns = nbrs (bdEdges b) i 0"
        using graph_neighbors [OF assms(1,2,6,7) True] by blast
      with True show ?thesis by (simp add: level0_def)
    next
      case False
      with r(1) show ?thesis by (auto simp: level0_def neighborOrdinals_def edgeRecords_def)
    qed
  qed
qed

text \<open>The chain leads from a node to all that follow it.\<close>

lemma chain_reaches:
  assumes "chained b (length (bdNodes b))" and "i \<le> j" and "j < length (bdNodes b)"
  shows "(i, j) \<in> {(i, j). i < length (bdNodes b) \<and> j \<in> nbrs (bdEdges b) i 0}\<^sup>*"
  using assms(2,3)
proof (induction j rule: dec_induct)
  case (step j)
  then have "(j, Suc j) \<in> {(i, j). i < length (bdNodes b) \<and> j \<in> nbrs (bdEdges b) i 0}"
    using assms(1) by (simp add: chained_def)
  with step show ?case by (auto intro: rtrancl_into_rtrancl)
qed simp

text \<open>The header of the file that a build publishes.\<close>

abbreviation built_header :: "build_env \<Rightarrow> string \<Rightarrow> index_profile \<Rightarrow> int \<Rightarrow> string \<Rightarrow> builder \<Rightarrow> index_header" where
  "built_header env sourceKey p g t b \<equiv> binaryHeader (trim_space sourceKey) p g t (snd (Build env b))"

section \<open>An example\<close>

text \<open>Two assets with a vector of one coordinate each.\<close>

definition unit_profile :: index_profile where
  "unit_profile = \<lparr>pfModelID = ''m'', pfVectorSpaceID = ''v'', pfEmbeddingDim = 1\<rparr>"

definition unit_arith :: arith32 where "unit_arith = (\<lambda>_ _. 0x3F800000, \<lambda>_ _. 0x3F800000)"

definition two_nodes :: builder where
  "two_nodes = (case populate flat_digest two_assets of Inr b \<Rightarrow> b | Inl _ \<Rightarrow>
     \<lparr>bdNodes = [], bdEdges = [], bdNext = 0, bdChainNext = 0, bdEntry = None, bdReady = False\<rparr>)"

lemma two_nodes: "populate flat_digest two_assets = Inr two_nodes"
  by (simp add: two_nodes_def populate_def two_assets_def one_asset_def)

lemma two_nodes_nodes:
  "bdNodes two_nodes = [\<lparr>bnAssetID = ''b'', bnCapturedAtNS = 7, bnMaxLevel = 0,
       bnMetadata = encodeSemanticBinaryMetadata (one_asset ''b'' 7)\<rparr>,
     \<lparr>bnAssetID = ''a'', bnCapturedAtNS = 5, bnMaxLevel = 0, bnMetadata = encodeSemanticBinaryMetadata (one_asset ''a'' 5)\<rparr>]"
proof -
  have "semanticHNSWLevel flat_digest n = 0" for n
  proof -
    have "flat_digest n = CHR ''a'' # replicate 31 (CHR ''a'')" by (simp add: flat_digest_def flip: replicate_Suc)
    then show ?thesis by (simp add: semanticHNSWLevel_def semanticHNSWMaxLevel_def)
  qed
  moreover have "bdNodes two_nodes = map (\<lambda>a. \<lparr>bnAssetID = saID a, bnCapturedAtNS = saCapturedAt a,
      bnMaxLevel = semanticHNSWLevel flat_digest (saID a), bnMetadata = encodeSemanticBinaryMetadata a\<rparr>) two_assets"
    using two_nodes by (auto simp: populate_def dest!: arg_cong [of _ two_nodes bdNodes] split: if_splits)
  ultimately show ?thesis by (simp only: two_assets_def list.map) (simp add: one_asset_def)
qed

lemma length_encoded: "length (encodeSemanticBinaryMetadata (one_asset n t)) = 21 + 2 * length n + 4"
  by (simp add: encodeSemanticBinaryMetadata_def one_asset_def Let_def)

text \<open>The number of rows of a graph whose nodes are all on level 0.\<close>

lemma few_rows:
  assumes "rows_ok lv n E" and "\<forall>i < n. lv i = 0"
  shows "length E \<le> n * n"
proof -
  have "set (map edge_key E) \<subseteq> {..<n} \<times> {0} \<times> {..<n}"
    using assms by (auto simp: rows_ok_def edge_ok_def edge_key_def)
  then have "card (set (map edge_key E)) \<le> card ({..<n} \<times> {0::nat} \<times> {..<n})" by (intro card_mono) auto
  moreover have "length (map edge_key E) = card (set (map edge_key E))"
    using assms(1) by (simp only: rows_ok_def distinct_card)
  ultimately show ?thesis by (simp add: card_cartesian_product)
qed

abbreviation unit_header :: index_header where
  "unit_header \<equiv> built_header unit_env ''s'' unit_profile 1 ''t'' two_nodes"

lemma two_nodes_fit:
  "file_fits (\<lambda>_. ''h'') (\<lambda>_. Some unit_header) unit_env unit_header (snd (Build unit_env two_nodes))"
proof -
  note pop = populate_ok [OF two_nodes]
  obtain b where b: "Build unit_env two_nodes = (Inr (), b)" "bdNodes b = bdNodes two_nodes" "graph_built b"
    using Build_ok [OF pop(1) unit_env_ok pop(2-4)] pop(5) by (auto simp: two_assets_def)
  have two: "length (bdNodes b) = 2" and zero: "\<forall>i < 2. level_of b i = 0"
    using b(2) by (simp_all add: two_nodes_nodes less_2_cases_iff)
  have "length (bdEdges b) \<le> 2 * 2" using b(3) few_rows [OF _ zero] two by (simp add: graph_built_def)
  moreover have "metadata_size b = 54" using b(2) by (simp add: metadata_size_def two_nodes_nodes length_encoded)
  moreover have "\<forall>node\<in>set (bdNodes b). bnMaxLevel node = 0 \<and> - (2 ^ 63) \<le> bnCapturedAtNS node \<and> bnCapturedAtNS node < 2 ^ 63
      \<and> length (bnMetadata node) = 27"
    using b(2) by (simp add: two_nodes_nodes length_encoded)
  moreover have "length (payload unit_env i) = 1" if "i < 2" for i using that by (simp add: unit_env_def)
  ultimately show ?thesis
    using two by (simp add: file_fits_def b(1) unit_profile_def maxHeaderJSON_def semanticBinaryIndexHeaderBytes_def
        semanticBinaryIndexMagic_def)
qed

lemma two_assets_fit: "list_all asset_fits two_assets"
  by (simp add: two_assets_def one_asset_def asset_fits_def)

lemma two_nodes_env: "env_ok unit_env two_nodes"
  by (rule unit_env_ok) (simp add: two_nodes_nodes)

section \<open>Writing and reading\<close>

text \<open>
  C17. What the builder writes is what the reader opens: the file of a well-formed graph that fits its
  format is accepted, under the identity it was written with, and every node has the edges in the
  order of their ranks, the vector, the level, the time and the metadata of the builder.
\<close>

theorem written_index_is_read_back:
  fixes p :: index_profile and b :: builder and sourceKey t :: string and g :: int
  defines "h \<equiv> binaryHeader (trim_space sourceKey) p g t b"
  assumes "rows_ok (level_of b) (length (bdNodes b)) (bdEdges b)" and "env_ok env b"
    and "file_fits toJSON ofJSON env h b"
  shows "\<exists>f r. fileBytes toJSON env h b = Inr f
    \<and> openSemanticBinaryIndexFileForGeneration ofJSON sourceKey p (Some f) = Inr r
    \<and> rdFile r = f \<and> reads_graph env h b r"
  using assms(2-4) unfolding h_def by (rule written_graph_opens)

theorem written_index_is_read_back_witness:
  "\<exists>f r. fileBytes (\<lambda>_. ''h'') unit_env unit_header (snd (Build unit_env two_nodes)) = Inr f
    \<and> openSemanticBinaryIndexFileForGeneration (\<lambda>_. Some unit_header) ''s'' unit_profile (Some f) = Inr r
    \<and> rdFile r = f \<and> reads_graph unit_env unit_header (snd (Build unit_env two_nodes)) r"
proof -
  note pop = populate_ok [OF two_nodes]
  obtain b where b: "Build unit_env two_nodes = (Inr (), b)" "bdNodes b = bdNodes two_nodes" "graph_built b"
    using Build_ok [OF pop(1) two_nodes_env pop(2-4)] by blast
  have "env_ok unit_env b" using env_ok_cong [of b two_nodes unit_env] two_nodes_env b(2) by simp
  moreover have "rows_ok (level_of b) (length (bdNodes b)) (bdEdges b)" using b(3) by (simp add: graph_built_def)
  ultimately show ?thesis using written_index_is_read_back [OF _ _ two_nodes_fit] b(1) by simp
qed

section \<open>From the assets to the results\<close>

text \<open>The asset that a search returns for the \<open>i\<close>th asset of a build.\<close>

definition indexed_asset ::
    "(string \<Rightarrow> string) \<Rightarrow> build_env \<Rightarrow> string \<Rightarrow> semantic_asset list \<Rightarrow> nat \<Rightarrow> semantic_asset" where
  "indexed_asset sha256 env sourceKey assets i =
     (assets ! i)\<lparr>saSourceKey := trim_space sourceKey, saVector := payload env i,
       saMaxLevel := int (semanticHNSWLevel sha256 (saID (assets ! i)))\<rparr>"

definition dot :: "arith32 \<Rightarrow> vector \<Rightarrow> vector \<Rightarrow> float32" where
  "dot ar query v = fold (\<lambda>(q, x) sum. fst ar sum (snd ar q x)) (zip query v) 0"

lemma populate_holds_assets:
  assumes "populate sha256 assets = Inr b" and "list_all asset_fits assets"
  shows "holds_assets b assets"
    and "i < length assets \<Longrightarrow> bnCapturedAtNS (bdNodes b ! i) = saCapturedAt (assets ! i)"
    and "i < length assets \<Longrightarrow> level_of b i = semanticHNSWLevel sha256 (saID (assets ! i))"
  using assms by (auto simp: populate_def holds_assets_def comp_def split: if_splits)

lemma built_index:
  assumes "populate sha256 assets = Inr b" and "list_all asset_fits assets" and "env_ok env b"
    and "file_fits toJSON ofJSON env (built_header env sourceKey p g t b) (snd (Build env b))"
  obtains f r b' where "WriteBinary toJSON env sourceKey p g t b = (Inr f, b')"
    and "openSemanticBinaryIndexFileForGeneration ofJSON sourceKey p (Some f) = Inr r"
    and "index_sound r" and "length (rdNodes r) = length assets"
    and "\<And>i j. i \<le> j \<Longrightarrow> j < length assets \<Longrightarrow> (i, j) \<in> (level0 r)\<^sup>*"
    and "\<And>i. i < length assets \<Longrightarrow> assetForOrdinal r i = Inr (indexed_asset sha256 env sourceKey assets i)"
    and "\<And>ar query i. i < length assets \<Longrightarrow> score ar r query i = Inr (dot ar query (payload env i))"
proof -
  note pop = populate_ok [OF assms(1)]
  obtain b' where b': "Build env b = (Inr (), b')" "bdNodes b' = bdNodes b" "graph_built b'"
    using Build_ok [OF pop(1) assms(3) pop(2-4)] by blast
  let ?n = "length (bdNodes b')" and ?h = "binaryHeader (trim_space sourceKey) p g t b'"
  have n: "?n = length assets" using b'(2) pop(5) by simp
  have rows: "rows_ok (level_of b') ?n (bdEdges b')" and chain: "chained b' ?n"
    using b'(3) by (simp_all add: graph_built_def)
  have env: "env_ok env b'" using env_ok_cong [of b' b env] assms(3) b'(2) by simp
  have fits: "file_fits toJSON ofJSON env ?h b'" using assms(4) b'(1) by simp
  obtain f r where f: "fileBytes toJSON env ?h b' = Inr f"
      "openSemanticBinaryIndexFileForGeneration ofJSON sourceKey p (Some f) = Inr r" "reads_graph env ?h b' r"
    using written_graph_opens [OF rows env fits] by blast
  have small: "?n < 2 ^ 32" "\<forall>node\<in>set (bdNodes b'). bnMaxLevel node < 2 ^ 16"
    using fits by (simp_all add: file_fits_def)
  have holds: "holds_assets b' assets"
    using populate_holds_assets(1) [OF assms(1,2)] b'(2) by (simp add: holds_assets_def)
  note sound = graph_is_sound [OF f(3) rows opened_for_generation(1) [OF f(2)] _ holds small]
  have "WriteBinary toJSON env sourceKey p g t b = (Inr f, b')" using b'(1) f(1) by (simp add: WriteBinary_def)
  moreover note f(2)
  moreover have "index_sound r" by (rule sound(1)) simp
  moreover have "length (rdNodes r) = length assets" using f(3) n by (simp add: reads_graph_def)
  moreover have "(i, j) \<in> (level0 r)\<^sup>*" if "i \<le> j" "j < length assets" for i j
    using chain_reaches [OF chain that(1)] that(2) n sound(2) by simp
  moreover have "assetForOrdinal r i = Inr (indexed_asset sha256 env sourceKey assets i)" if "i < length assets" for i
  proof -
    have i: "i < ?n" using that n by simp
    then have "level_of b' i < 2 ^ 16" using small(2) by simp
    from graph_asset [OF f(3) i this holds_assets_nth(2,3) [OF holds i]]
    show ?thesis using populate_holds_assets(2,3) [OF assms(1,2) that] b'(2)
      by (simp add: stored_asset_def indexed_asset_def)
  qed
  moreover have "score ar r query i = Inr (dot ar query (payload env i))" if "i < length assets" for ar query i
    using graph_score [OF f(3), of i ar query] that n by (simp add: dot_def)
  ultimately show ?thesis by (rule that)
qed

text \<open>
  C12. What is indexed is found: the file that is written for a populated build database opens, and a
  search with a budget of as many visits as there are assets ends and returns every asset from the node
  it starts at onwards, none of them twice, each with its own metadata and vector and with the dot
  product of the query and this vector as its score.
\<close>

theorem indexed_assets_are_found:
  assumes "populate sha256 assets = Inr b" and "assets \<noteq> []" and "list_all asset_fits assets" and "env_ok env b"
    and "file_fits toJSON ofJSON env (built_header env sourceKey p g t b) (snd (Build env b))"
  shows "\<exists>f b' r s start xs is s'. WriteBinary toJSON env sourceKey p g t b = (Inr f, b')
    \<and> openSemanticBinaryIndexFileForGeneration ofJSON sourceKey p (Some f) = Inr r
    \<and> newSearchSession ar r query = Inr s \<and> map scOrdinal (ssCandidates s) = [start]
    \<and> advance ar s (int (length assets)) = (Inr (xs, True), s')
    \<and> distinct is \<and> {start..<length assets} \<subseteq> set is \<and> set is \<subseteq> {..<length assets}
    \<and> xs = map (\<lambda>i. (indexed_asset sha256 env sourceKey assets i, dot ar query (payload env i))) is"
proof (rule built_index [OF assms(1,3-5)])
  fix f r b'
  assume w: "WriteBinary toJSON env sourceKey p g t b = (Inr f, b')"
    "openSemanticBinaryIndexFileForGeneration ofJSON sourceKey p (Some f) = Inr r"
    and r: "index_sound r" "length (rdNodes r) = length assets"
    and reach: "\<And>i j. i \<le> j \<Longrightarrow> j < length assets \<Longrightarrow> (i, j) \<in> (level0 r)\<^sup>*"
    and read: "\<And>i. i < length assets \<Longrightarrow> assetForOrdinal r i = Inr (indexed_asset sha256 env sourceKey assets i)"
      "\<And>ar query i. i < length assets \<Longrightarrow> score ar r query i = Inr (dot ar query (payload env i))"
  have "rdNodes r \<noteq> []" using r(2) assms(2) by auto
  from search_hands_out_reachable [OF r(1) this, of ar query]
  obtain s start xs "is" s' where s: "newSearchSession ar r query = Inr s" "map scOrdinal (ssCandidates s) = [start]"
      "advance ar s (int (length assets)) = (Inr (xs, True), s')" "distinct is" "set is = (level0 r)\<^sup>* `` {start}"
      "list_all2 (shows_node ar r query) is xs"
    unfolding r(2) by (elim exE conjE) (rule that)
  have range: "set is \<subseteq> {..<length assets}"
  proof -
    have "is ! k < length assets" if "k < length is" for k
      using list_all2_nthD [OF s(6) that] r(2) score_in_range by (fastforce simp: shows_node_def)
    then show ?thesis by (auto simp: in_set_conv_nth)
  qed
  moreover have "{start..<length assets} \<subseteq> set is" using reach s(5) by auto
  moreover have "xs = map (\<lambda>i. (indexed_asset sha256 env sourceKey assets i, dot ar query (payload env i))) is"
  proof (rule nth_equalityI)
    fix k assume "k < length xs"
    then have k: "k < length is" using list_all2_lengthD [OF s(6)] by simp
    have "shows_node ar r query (is ! k) (xs ! k)" using list_all2_nthD [OF s(6) k] .
    moreover have "is ! k < length assets" using nth_mem [OF k] range by blast
    ultimately
    show "xs ! k = map (\<lambda>i. (indexed_asset sha256 env sourceKey assets i, dot ar query (payload env i))) is ! k"
      using read k by (simp add: shows_node_def prod_eq_iff)
  qed (use s(6) in \<open>simp add: list_all2_lengthD\<close>)
  ultimately show ?thesis using w s(1-4) by (intro exI conjI) assumption+
qed

theorem indexed_assets_are_found_witness:
  "\<exists>f b' r s start xs is s'. WriteBinary (\<lambda>_. ''h'') unit_env ''s'' unit_profile 1 ''t'' two_nodes = (Inr f, b')
    \<and> openSemanticBinaryIndexFileForGeneration (\<lambda>_. Some unit_header) ''s'' unit_profile (Some f) = Inr r
    \<and> newSearchSession unit_arith r [0x3F800000] = Inr s \<and> map scOrdinal (ssCandidates s) = [start]
    \<and> advance unit_arith s 2 = (Inr (xs, True), s')
    \<and> distinct is \<and> {start..<2} \<subseteq> set is \<and> set is \<subseteq> {..<2}
    \<and> xs = map (\<lambda>i. (indexed_asset flat_digest unit_env ''s'' two_assets i, dot unit_arith [0x3F800000] (payload unit_env i))) is"
proof -
  have "two_assets \<noteq> []" and "length two_assets = 2" by (simp_all add: two_assets_def)
  with indexed_assets_are_found [OF two_nodes _ two_assets_fit two_nodes_env two_nodes_fit, of unit_arith "[0x3F800000]"]
  show ?thesis by simp
qed

lemma two_nodes_open:
  obtains f r where "openSemanticBinaryIndexFileForGeneration (\<lambda>_. Some unit_header) ''s'' unit_profile (Some f) = Inr r"
    and "index_sound r" and "length (rdNodes r) = 2"
    and "\<And>ar query i. i < 2 \<Longrightarrow> score ar r query i = Inr (dot ar query (payload unit_env i))"
  by (rule built_index [OF two_nodes two_assets_fit two_nodes_env two_nodes_fit]) (simp add: two_assets_def that)

section \<open>Opened files\<close>

text \<open>
  C21. An index that opened is completely readable: for every node that its header counts, the
  vector has the dimension of the profile, all the recorded edges are read, a score is computed, and
  the bytes of the metadata are all there, so that the only error an asset can have is metadata that
  does not decode; a node it does not count is refused by each read.
\<close>

theorem opened_index_is_readable:
  assumes "openSemanticBinaryIndexFileForGeneration ofJSON sourceKey profile file = Inr r"
  shows "(int i < hdIndexedVectorCount (rdHeader r) \<and>
      (\<exists>v. vectorForOrdinal r i = Inr v \<and> int (length v) = pfEmbeddingDim profile) \<and>
      (\<exists>es. edgeRecords r i = Inr es \<and> length es = unat (ndEdgeCount (rdNodes r ! i))) \<and>
      (\<exists>ns. neighborOrdinals r i level = Inr ns) \<and>
      (\<exists>score. dotOrdinalWithBuffer fadd fmul r i query = Inr score) \<and>
      assetForOrdinal r i \<in> {Inl IndexDecode} \<union> range Inr)
    \<or> (hdIndexedVectorCount (rdHeader r) \<le> int i \<and>
      vectorForOrdinal r i = Inl IndexUnavailable \<and> edgeRecords r i = Inl IndexUnavailable \<and>
      neighborOrdinals r i level = Inl IndexUnavailable \<and>
      dotOrdinalWithBuffer fadd fmul r i query = Inl IndexUnavailable \<and>
      assetForOrdinal r i = Inl IndexUnavailable)"
proof (cases "i < length (rdNodes r)")
  case True
  note o = opened_for_generation [OF assms]
  have "validateSemanticBinaryIndexLayout (rdHeader r) (int (length (rdFile r)))" using o(1) by (simp add: index_opened_def)
  note e = layout_exact [OF this]
  obtain raw where raw: "readVectorBytes r i = Inr raw" using readVectorBytes_opened [OF o(1,2) True] .
  obtain es where es: "edgeRecords r i = Inr es" "length es = unat (ndEdgeCount (rdNodes r ! i))"
    using edgeRecords_opened [OF o(1) True] .
  have v: "\<exists>v. vectorForOrdinal r i = Inr v \<and> int (length v) = pfEmbeddingDim profile"
    using e(3) o(4) raw by (simp add: vectorForOrdinal_def)
  note n = opened_node [OF o(1) True]
  have "0 \<le> ndStringOffset (rdNodes r ! i)" using e n(6) by linarith
  moreover have "nat (ndStringOffset (rdNodes r ! i)) + unat (ndStringLength (rdNodes r ! i)) \<le> length (rdFile r)"
    using e n(6,7) by linarith
  ultimately obtain meta where "readAt (rdFile r) (unat (ndStringLength (rdNodes r ! i))) (ndStringOffset (rdNodes r ! i)) = Some meta"
    using readAt_within by blast
  then have "assetForOrdinal r i \<in> {Inl IndexDecode} \<union> range Inr"
    using True v by (auto simp: assetForOrdinal_def decodeSemanticBinaryMetadata_def Let_def split: sum.splits)
  with v es raw True o(3) show ?thesis by (auto simp: neighborOrdinals_def dotOrdinalWithBuffer_def Let_def)
next
  case False
  with opened_for_generation(3) [OF assms] show ?thesis
    by (auto simp: vectorForOrdinal_def edgeRecords_def neighborOrdinals_def dotOrdinalWithBuffer_def
        assetForOrdinal_def readVectorBytes_def)
qed

section \<open>Batches and order\<close>

theorem opened_index_is_readable_witness:
  "\<exists>r :: index_reader. hdIndexedVectorCount (rdHeader r) = 2 \<and> (\<exists>v. vectorForOrdinal r 1 = Inr v \<and> length v = 1)
    \<and> (\<exists>es. edgeRecords r 1 = Inr es) \<and> assetForOrdinal r 2 = Inl IndexUnavailable"
proof (rule two_nodes_open)
  fix f r
  assume o: "openSemanticBinaryIndexFileForGeneration (\<lambda>_. Some unit_header) ''s'' unit_profile (Some f) = Inr r"
    and n: "length (rdNodes r) = 2"
  have "hdIndexedVectorCount (rdHeader r) = 2" using opened_for_generation(3) [OF o] n by simp
  moreover from this opened_index_is_readable [OF o, of 1 0 "\<lambda>x y. x" "\<lambda>x y. x" "[]"]
  have "(\<exists>v. vectorForOrdinal r 1 = Inr v \<and> length v = 1) \<and> (\<exists>es. edgeRecords r 1 = Inr es)"
    by (auto simp: unit_profile_def)
  moreover from calculation(1) opened_index_is_readable [OF o, of 2 0 "\<lambda>x y. x" "\<lambda>x y. x" "[]"]
  have "assetForOrdinal r 2 = Inl IndexUnavailable" by auto
  ultimately show ?thesis by blast
qed

text \<open>
  Asking for a batch and then for another is the same as asking once for as many visits as the two
  together: the same results in the same order, the same error, and the same session afterwards.
\<close>

theorem advance_in_batches:
  assumes "0 < a" and "0 < b"
  shows "advance ar s (a + b) =
    (case advance ar s a of
       (Inl e, s) \<Rightarrow> (Inl e, s)
     | (Inr (xs, _), s) \<Rightarrow>
         (case advance ar s b of
            (Inl e, s) \<Rightarrow> (Inl e, s)
          | (Inr (ys, exhausted), s) \<Rightarrow> (Inr (xs @ ys, exhausted), s)))"
proof (cases "ssReader s")
  case None
  then show ?thesis by (simp add: advance_def)
next
  case (Some r)
  define left where "left = int (length (rdNodes r)) - int (ssProcessed s)"
  define j where "j = nat (min a left)"
  show ?thesis
  proof (cases "fst (visits ar r j s)")
    case (Inl e)
    then obtain t where v: "visits ar r j s = (Inl e, t)" by (metis surjective_pairing)
    have "\<exists>k. nat (min (a + b) left) = j + k"
      unfolding j_def using assms by (intro exI [of _ "nat (min (a + b) left) - nat (min a left)"]) (auto simp: nat_le_eq_zle)
    then obtain k where "nat (min (a + b) left) = j + k" ..
    with v Some assms show ?thesis by (simp add: advance_def visits_add left_def [symmetric] j_def)
  next
    case (Inr xs)
    then obtain t where v: "visits ar r j s = (Inr xs, t)" by (metis surjective_pairing)
    note f = visits_frame [OF v]
    define k where "k = nat (min b (int (length (rdNodes r)) - int (ssProcessed t)))"
    have adv: "advance ar s a = (Inr (xs, ssCandidates t = []), t)"
      using v Some assms by (simp add: advance_def left_def j_def)
    have eq: "visits ar r (nat (min (a + b) left)) s
        = (case visits ar r k t of (Inl e, s) \<Rightarrow> (Inl e, s) | (Inr ys, s) \<Rightarrow> (Inr (xs @ ys), s))"
    proof (cases "length xs < j")
      case True
      then have "ssCandidates t = []" using f by simp
      moreover have "nat (min (a + b) left) = j + (nat (min (a + b) left) - j)" using assms by (simp add: j_def)
      ultimately show ?thesis using v by (metis (no_types, lifting) visits_add visits_none case_prod_conv sum.case(2))
    next
      case False
      then have "int (ssProcessed t) = int (ssProcessed s) + int j" using f by simp
      then have "k = nat (min b (left - int j))" by (simp add: k_def left_def algebra_simps)
      then have "nat (min (a + b) left) = j + k"
        using assms unfolding j_def by (cases "left \<le> 0"; cases "a \<le> left") (auto simp: min_def)
      with v show ?thesis by (simp add: visits_add)
    qed
    have "ssReader t = Some r" using f Some by simp
    with adv eq Some assms show ?thesis
      by (simp add: advance_def left_def [symmetric] k_def [symmetric] split: prod.splits sum.splits)
  qed
qed

text \<open>A search over the example that hands out one asset and then the other.\<close>

lemma two_nodes_search:
  obtains r s0 s1 x y "end" where "newSearchSession unit_arith r [0x3F800000] = Inr s0" and "scores_are_numbers unit_arith r [0x3F800000]"
    and "advance unit_arith s0 0 = (Inr ([], True), s0)" and "advance unit_arith s0 1 = (Inr ([(x, y)], end), s1)"
proof (rule two_nodes_open)
  fix r
  assume r: "index_sound r" "length (rdNodes r) = 2"
    and sc: "\<And>ar query i. i < 2 \<Longrightarrow> score ar r query i = Inr (dot ar query (payload unit_env i))"
  obtain s start where s: "newSearchSession unit_arith r [0x3F800000] = Inr s" "search_inv unit_arith r [0x3F800000] start [] s"
    using newSearchSession_sound [OF r(1)] r(2) by fastforce
  obtain "is" xs s' where v: "visits unit_arith r 1 s = (Inr xs, s')" "list_all2 (shows_node unit_arith r [0x3F800000]) is xs"
      "length is \<le> 1" "search_inv unit_arith r [0x3F800000] start is s'" "length is < 1 \<longrightarrow> ssCandidates s' = []"
    using visits_sound [OF r(1) s(2), of 1] by auto
  have "is \<noteq> []" using v(4,5) by (auto simp: search_inv_def)
  then have "length xs = 1" using v(3) list_all2_lengthD [OF v(2)] by (cases "is") auto
  then obtain x y where "xs = [(x, y)]" by (cases xs) auto
  then have "advance unit_arith s 1 = (Inr ([(x, y)], ssCandidates s' = []), s')"
    using v(1) s(2) r(2) by (simp add: advance_def search_inv_def)
  moreover have "scores_are_numbers unit_arith r [0x3F800000]"
  proof -
    have "\<not> f32_nan t" if "score unit_arith r [0x3F800000] i = Inr t" for i t
    proof -
      have i: "i < 2" using score_in_range [OF that] r(2) by simp
      have "dot unit_arith [0x3F800000] (payload unit_env i) = 0x3F800000" using i by (simp add: dot_def unit_arith_def unit_env_def)
      then have "t = 0x3F800000" using sc [OF i, of unit_arith "[0x3F800000]"] that by (simp only: sum.inject)
      then show ?thesis by (simp add: f32_nan_def f32_magnitude_def)
    qed
    then show ?thesis by (simp add: scores_are_numbers_def)
  qed
  moreover have "advance unit_arith s 0 = (Inr ([], True), s)" using s(2) by (simp add: advance_def search_inv_def)
  ultimately show ?thesis using s(1) that by blast
qed

theorem advance_in_batches_witness:
  "\<exists>r s0 s1 x end. newSearchSession unit_arith r [0x3F800000] = Inr s0 \<and> advance unit_arith s0 1 = (Inr ([x], end), s1)
    \<and> advance unit_arith s0 (1 + 1) = (case advance unit_arith s1 1 of
        (Inl e, s) \<Rightarrow> (Inl e, s) | (Inr (ys, exhausted), s) \<Rightarrow> (Inr (x # ys, exhausted), s))"
proof (rule two_nodes_search)
  fix r s0 s1 x y "end"
  assume s: "newSearchSession unit_arith r [0x3F800000] = Inr s0" "advance unit_arith s0 1 = (Inr ([(x, y)], end), s1)"
  have "advance unit_arith s0 (1 + 1) = (case advance unit_arith s1 1 of
        (Inl e, s) \<Rightarrow> (Inl e, s) | (Inr (ys, exhausted), s) \<Rightarrow> (Inr ((x, y) # ys, exhausted), s))"
    using advance_in_batches [of 1 1 unit_arith s0] s(2) by (simp only: prod.case sum.case append_Cons append_Nil zero_less_one)
  with s show ?thesis by blast
qed

text \<open>
  C16. A search is best first: whatever was handed out before, the next result is scored at least as
  high as every candidate that was waiting.
\<close>

theorem search_is_best_first:
  assumes "scores_are_numbers ar r query" and "newSearchSession ar r query = Inr s0"
    and "advance ar s0 a = (Inr before, s)" and "advance ar s 1 = (Inr ([(asset, t)], exhausted), s')"
  shows "\<forall>c\<in>set (ssCandidates s). \<not> f32_less t (scSimilarity c)"
proof (cases "rdNodes r = []")
  case True
  with assms(2-4) show ?thesis by (auto simp: newSearchSession_def advance_def split: if_splits)
next
  case False
  note o = newSearchSession_ordered [OF assms(1,2) False]
  have "ordered s \<and> ssQuery s = query \<and> ssReader s = Some r"
  proof (cases "a \<le> 0")
    case True
    with assms(3) o show ?thesis by (auto simp: advance_def)
  next
    case False
    with assms(3) o obtain k xs where "visits ar r k s0 = (Inr xs, s)"
      by (auto simp: advance_def split: prod.splits sum.splits)
    with visits_ordered [of ar r s0 k] visits_frame [of ar r k s0 xs s] assms(1) o show ?thesis by simp
  qed
  then have s: "ordered s" "ssQuery s = query" "ssReader s = Some r" by simp_all
  obtain k where k: "visits ar r k s = (Inr [(asset, t)], s')"
    using assms(4) s(3) by (auto simp: advance_def Let_def split: prod.splits sum.splits)
  then have k0: "k \<noteq> 0" and ne: "ssCandidates s \<noteq> []" by (auto simp: visits_none intro: ccontr)
  then have "\<exists>u. visitBest ar r s = (Inr (asset, t), u)"
    using k by (cases k) (auto split: prod.splits sum.splits)
  then show ?thesis using visitBest_ordered(3) [OF _ s(1) ne] assms(1) s(2) by blast
qed

theorem search_is_best_first_witness:
  "\<exists>r s0 asset t end s1. newSearchSession unit_arith r [0x3F800000] = Inr s0
    \<and> advance unit_arith s0 1 = (Inr ([(asset, t)], end), s1)
    \<and> list_all (\<lambda>c. \<not> f32_less t (scSimilarity c)) (ssCandidates s0) \<and> ssCandidates s0 \<noteq> []"
proof (rule two_nodes_search)
  fix r s0 s1 x y "end"
  assume s: "newSearchSession unit_arith r [0x3F800000] = Inr s0" "scores_are_numbers unit_arith r [0x3F800000]"
    "advance unit_arith s0 0 = (Inr ([], True), s0)" "advance unit_arith s0 1 = (Inr ([(x, y)], end), s1)"
  from search_is_best_first [OF s(2,1,3,4)]
  have "list_all (\<lambda>c. \<not> f32_less y (scSimilarity c)) (ssCandidates s0)" by (simp add: list_all_iff)
  moreover have "ssCandidates s0 \<noteq> []"
    using s(4) by (auto simp: advance_def visits_none split: option.splits if_splits prod.splits sum.splits)
  ultimately show ?thesis using s(1,4) by blast
qed

end
