(* ===== verification/Media_Lease.thy ===== *)
theory Media_Lease
  imports Prelude
begin

text \<open>
  The authorization of WebRTC media sessions (\<open>internal/webrtcmedia/authorization.go\<close>, with the
  requests of a session and the end of \<open>AnswerOffer\<close> in \<open>manager.go\<close>, and the question to the relay in
  \<open>internal/controlplane/media_authorization.go\<close>). A session lives as long as its token, and a hosted
  session also needs a lease that the relay renews. Every function that holds the manager's mutex is
  one function from the manager to the manager; the clock, the identifiers that are drawn and the answers
  of the relay are arguments. Peer connections and timers are not part of the state: a timer may fire at any time.
\<close>

section \<open>Clocks\<close>

text \<open>
  A reading of \<open>time.Now\<close> has the wall clock, which may be set, and the monotonic clock. An expiry that
  comes from a token has only the wall clock. Times and durations are nanoseconds.
\<close>

record clock =
  ckWall :: int
  ckMono :: int

definition clock_add :: "clock \<Rightarrow> int \<Rightarrow> clock" where
  "clock_add c d = \<lparr>ckWall = ckWall c + d, ckMono = ckMono c + d\<rparr>"

definition leaseDeadlineValid :: "clock \<Rightarrow> clock \<Rightarrow> bool" where
  "leaseDeadlineValid deadline now \<longleftrightarrow> ckMono now < ckMono deadline \<and> ckWall now < ckWall deadline"

definition second :: int where "second = 10 ^ 9"

definition MediaAuthorizationMaxAge :: int where "MediaAuthorizationMaxAge = 60 * second"

section \<open>State\<close>

record media_authorization =
  maAgentID :: string
  maDeviceID :: string
  maKeyID :: string
  maAuthority :: string
  maIssuedAt :: int
  maExpiresAt :: int

text \<open>The contexts of scopes, sessions and requests are the flags that tell whether they are cancelled.\<close>

record lease_scope =
  lsKey :: string
  lsAuthority :: string
  lsDevice :: string
  lsCancelled :: bool
  lsReady :: bool
  lsDeadline :: "clock option"
  lsUsed :: bool
  lsRefs :: int

record media_session =
  msID :: string
  msAuth :: media_authorization
  msActive :: bool
  msClosed :: bool
  msCancelled :: bool
  msLease :: "nat option"
  msRequests :: "string \<Rightarrow> nat option"

record media_request =
  mrSession :: nat
  mrID :: string
  mrCancelled :: bool

text \<open>Sessions, scopes and requests are pointers into the lists of all that were ever made.\<close>

record media_manager =
  mgSessions :: "string \<Rightarrow> nat option"
  mgLeases :: "string \<Rightarrow> nat option"
  mgCanceled :: bool
  mgAllSessions :: "media_session list"
  mgAllScopes :: "lease_scope list"
  mgAllRequests :: "media_request list"

datatype media_error = ErrAuthorization | ErrCanceled | ErrReach

definition NewManager :: media_manager where
  "NewManager = \<lparr>mgSessions = (\<lambda>_. None), mgLeases = (\<lambda>_. None), mgCanceled = False,
     mgAllSessions = [], mgAllScopes = [], mgAllRequests = []\<rparr>"

definition on_session :: "nat \<Rightarrow> (media_session \<Rightarrow> media_session) \<Rightarrow> media_manager \<Rightarrow> media_manager" where
  "on_session p f m = m\<lparr>mgAllSessions := (mgAllSessions m)[p := f (mgAllSessions m ! p)]\<rparr>"

definition on_scope :: "nat \<Rightarrow> (lease_scope \<Rightarrow> lease_scope) \<Rightarrow> media_manager \<Rightarrow> media_manager" where
  "on_scope q f m = m\<lparr>mgAllScopes := (mgAllScopes m)[q := f (mgAllScopes m ! q)]\<rparr>"

section \<open>Sessions\<close>

definition leaseKey :: "media_authorization \<Rightarrow> string" where
  "leaseKey a = maAuthority a @ [nul] @ maAgentID a @ [nul] @ maDeviceID a"

text \<open>The scope of a hosted authorization: the one that is registered, or a new one.\<close>

definition leaseScope :: "media_authorization \<Rightarrow> media_manager \<Rightarrow> nat option \<times> media_manager" where
  "leaseScope a m =
     (if maAuthority a = [] then (None, m)
      else case mgLeases m (leaseKey a) of
        Some q \<Rightarrow> (Some q, on_scope q (\<lambda>s. s\<lparr>lsRefs := lsRefs s + 1\<rparr>) m)
      | None \<Rightarrow>
          let q = length (mgAllScopes m) in
          (Some q, m\<lparr>mgLeases := (mgLeases m)(leaseKey a \<mapsto> q),
             mgAllScopes := mgAllScopes m @ [\<lparr>lsKey = leaseKey a, lsAuthority = maAuthority a, lsDevice = maDeviceID a,
               lsCancelled = False, lsReady = False, lsDeadline = None, lsUsed = False, lsRefs = 1\<rparr>]\<rparr>))"

definition Prepare :: "clock \<Rightarrow> string \<Rightarrow> media_authorization \<Rightarrow> media_manager \<Rightarrow>
    (media_error, string) result \<times> media_manager" where
  "Prepare now sid a m =
     (if maAgentID a = [] \<or> maDeviceID a = [] \<or> maKeyID a = [] \<or> \<not> ckWall now < maExpiresAt a
      then (Inl ErrAuthorization, m)
      else if mgCanceled m then (Inl ErrCanceled, m)
      else case leaseScope a m of
        (lease, m) \<Rightarrow>
          (Inr sid, m\<lparr>mgSessions := (mgSessions m)(sid \<mapsto> length (mgAllSessions m)),
             mgAllSessions := mgAllSessions m @ [\<lparr>msID = sid, msAuth = a, msActive = False, msClosed = False,
               msCancelled = False, msLease = lease, msRequests = (\<lambda>_. None)\<rparr>]\<rparr>))"

definition authorizedLocked :: "media_manager \<Rightarrow> media_session \<Rightarrow> clock \<Rightarrow> bool" where
  "authorizedLocked m s now \<longleftrightarrow>
     \<not> (msClosed s \<or> \<not> ckWall now < maExpiresAt (msAuth s))
     \<and> (case msLease s of
          None \<Rightarrow> True
        | Some q \<Rightarrow> \<not> lsCancelled (mgAllScopes m ! q)
            \<and> (case lsDeadline (mgAllScopes m ! q) of None \<Rightarrow> False | Some d \<Rightarrow> leaseDeadlineValid d now))"

definition authorized :: "media_manager \<Rightarrow> nat \<Rightarrow> clock \<Rightarrow> bool" where
  "authorized m p now \<longleftrightarrow> msActive (mgAllSessions m ! p) \<and> authorizedLocked m (mgAllSessions m ! p) now"

definition Reauthorize :: "clock \<Rightarrow> string \<Rightarrow> media_authorization \<Rightarrow> media_manager \<Rightarrow> (media_error, unit) result \<times> media_manager" where
  "Reauthorize now sid a m =
     (case mgSessions m sid of
        None \<Rightarrow> (Inl ErrAuthorization, m)
      | Some p \<Rightarrow>
          let s = mgAllSessions m ! p in
          if \<not> authorizedLocked m s now \<or> \<not> msActive s \<or> maAgentID a \<noteq> maAgentID (msAuth s)
             \<or> maDeviceID a \<noteq> maDeviceID (msAuth s) \<or> maKeyID a \<noteq> maKeyID (msAuth s)
             \<or> maAuthority a \<noteq> maAuthority (msAuth s) \<or> \<not> ckWall now < maExpiresAt a
          then (Inl ErrAuthorization, m)
          else if maIssuedAt a < maIssuedAt (msAuth s) \<or> maExpiresAt a \<le> maExpiresAt (msAuth s) then (Inr (), m)
          else (Inr (), on_session p (\<lambda>s. s\<lparr>msAuth := a\<rparr>) m))"

text \<open>The end of \<open>AnswerOffer\<close>: the session becomes active if it is still authorized.\<close>

definition activateSession :: "clock \<Rightarrow> nat \<Rightarrow> media_manager \<Rightarrow> (media_error, unit) result \<times> media_manager" where
  "activateSession now p m =
     (if \<not> authorizedLocked m (mgAllSessions m ! p) now then (Inl ErrAuthorization, m)
      else (Inr (), on_session p (\<lambda>s. s\<lparr>msActive := True\<rparr>) m))"

text \<open>A closing session gives its scope back; the last one ends it.\<close>

definition releaseScope :: "nat \<Rightarrow> media_manager \<Rightarrow> media_manager" where
  "releaseScope q m =
     (let m = on_scope q (\<lambda>s. s\<lparr>lsRefs := lsRefs s - 1\<rparr>) m in
      if lsRefs (mgAllScopes m ! q) = 0 then
        on_scope q (\<lambda>s. s\<lparr>lsCancelled := True\<rparr>)
          (if mgLeases m (lsKey (mgAllScopes m ! q)) = Some q
           then m\<lparr>mgLeases := (mgLeases m)(lsKey (mgAllScopes m ! q) := None)\<rparr> else m)
      else m)"

definition cancelAllMediaRequests :: "nat \<Rightarrow> media_manager \<Rightarrow> media_manager" where
  "cancelAllMediaRequests p m =
     on_session p (\<lambda>s. s\<lparr>msRequests := (\<lambda>_. None)\<rparr>)
       (m\<lparr>mgAllRequests := map (\<lambda>i. let r = mgAllRequests m ! i in
            if mrSession r = p \<and> msRequests (mgAllSessions m ! p) (mrID r) = Some i
            then r\<lparr>mrCancelled := True\<rparr> else r) [0..<length (mgAllRequests m)]\<rparr>)"

definition closeSession :: "clock \<Rightarrow> string \<Rightarrow> bool \<Rightarrow> media_manager \<Rightarrow> media_manager" where
  "closeSession now sid expiredOnly m =
     (case mgSessions m sid of
        None \<Rightarrow> m
      | Some p \<Rightarrow>
          let s = mgAllSessions m ! p in
          if expiredOnly \<and> authorizedLocked m s now then m
          else
            let m = on_session p (\<lambda>s. s\<lparr>msClosed := True\<rparr>) m;
                m = m\<lparr>mgSessions := (mgSessions m)(sid := None)\<rparr>;
                m = (case msLease s of None \<Rightarrow> m | Some q \<Rightarrow> releaseScope q m);
                m = on_session p (\<lambda>s. s\<lparr>msCancelled := True\<rparr>) m
            in cancelAllMediaRequests p m)"

text \<open>The sessions that a revocation or the end of a lease closes are collected first and closed one by one.\<close>

definition sessionsWith :: "(media_session \<Rightarrow> bool) \<Rightarrow> media_manager \<Rightarrow> string list" where
  "sessionsWith P m =
     map (\<lambda>p. msID (mgAllSessions m ! p))
       (filter (\<lambda>p. mgSessions m (msID (mgAllSessions m ! p)) = Some p \<and> P (mgAllSessions m ! p))
         [0..<length (mgAllSessions m)])"

definition RevokeDevice :: "clock \<Rightarrow> string \<Rightarrow> media_manager \<Rightarrow> media_manager" where
  "RevokeDevice now device m =
     fold (\<lambda>sid. closeSession now sid False) (sessionsWith (\<lambda>s. maDeviceID (msAuth s) = device) m) m"

section \<open>Leases\<close>

definition endLease :: "clock \<Rightarrow> nat \<Rightarrow> bool \<Rightarrow> media_manager \<Rightarrow> media_manager option" where
  "endLease now q force m =
     (let s = mgAllScopes m ! q in
      if mgLeases m (lsKey s) \<noteq> Some q
         \<or> \<not> force \<and> (case lsDeadline s of None \<Rightarrow> False | Some d \<Rightarrow> leaseDeadlineValid d now)
      then None
      else Some ((on_scope q (\<lambda>s. s\<lparr>lsCancelled := True\<rparr>) m)\<lparr>mgLeases := (mgLeases m)(lsKey s := None)\<rparr>))"

definition expireLease :: "clock \<Rightarrow> nat \<Rightarrow> bool \<Rightarrow> media_manager \<Rightarrow> media_manager" where
  "expireLease now q force m =
     (case endLease now q force m of
        None \<Rightarrow> m
      | Some m' \<Rightarrow> fold (\<lambda>sid. closeSession now sid False) (sessionsWith (\<lambda>s. msLease s = Some q) m) m')"

definition applyLease :: "clock \<Rightarrow> nat \<Rightarrow> clock \<Rightarrow> media_manager \<Rightarrow> media_manager" where
  "applyLease now q deadline m =
     (let s = mgAllScopes m ! q in
      if mgLeases m (lsKey s) \<noteq> Some q \<or> lsCancelled s \<or> \<not> leaseDeadlineValid deadline now
         \<or> (case lsDeadline s of None \<Rightarrow> False | Some d \<Rightarrow> \<not> leaseDeadlineValid d now)
      then m
      else on_scope q (\<lambda>s. s\<lparr>lsDeadline := Some deadline\<rparr>) m)"

text \<open>
  The answer of the relay to a question about a device, and what the client makes of it: an age that is
  zero is a definitive denial, everything unexpected is an error.
\<close>

record media_answer =
  anNonce :: string
  anDecision :: string
  anMaxAgeMillis :: int

definition checkMediaAuthorization ::
    "string \<Rightarrow> string \<Rightarrow> bool \<Rightarrow> string \<Rightarrow> media_answer option \<Rightarrow> (media_error, int) result" where
  "checkMediaAuthorization own authority connected nonce answer =
     (if authority = [] \<or> authority \<noteq> own then Inl ErrReach
      else if \<not> connected then Inl ErrReach
      else case answer of
        None \<Rightarrow> Inl ErrReach
      | Some r \<Rightarrow>
          if anNonce r \<noteq> nonce then Inl ErrReach
          else if anDecision r = ''denied'' then Inr 0
          else if anDecision r = ''allowed'' \<and> 0 < anMaxAgeMillis r
                  \<and> anMaxAgeMillis r \<le> MediaAuthorizationMaxAge div 1000000
          then Inr (anMaxAgeMillis r * 1000000)
          else Inl ErrReach)"

text \<open>The flag that a lease was used: it is handed to the check and comes back when the check fails.\<close>

definition takeUsed :: "nat \<Rightarrow> media_manager \<Rightarrow> bool \<times> media_manager" where
  "takeUsed q m = (lsUsed (mgAllScopes m ! q), on_scope q (\<lambda>s. s\<lparr>lsUsed := False\<rparr>) m)"

definition giveBackUsed :: "nat \<Rightarrow> bool \<Rightarrow> (media_error, int) result \<Rightarrow> media_manager \<Rightarrow> media_manager" where
  "giveBackUsed q used result m =
     (if used \<and> \<not> is_ok result then on_scope q (\<lambda>s. s\<lparr>lsUsed := True\<rparr>) m else m)"

text \<open>
  What a round of \<open>renewLease\<close> does with the result of a check that started at a time; \<open>None\<close> ends the
  goroutine, otherwise it waits for the next round.
\<close>

definition renewDelay :: "clock \<Rightarrow> clock \<Rightarrow> int \<Rightarrow> int" where
  "renewDelay now deadline jitter =
     min ((20 + jitter) * second) (max second ((ckMono deadline - ckMono now) div 2))"

definition renewRound ::
    "clock \<Rightarrow> clock \<Rightarrow> nat \<Rightarrow> (media_error, int) result \<Rightarrow> int \<Rightarrow> media_manager \<Rightarrow> int option \<times> media_manager" where
  "renewRound now started q result jitter m =
     (if lsCancelled (mgAllScopes m ! q) then (None, m)
      else if (case result of Inl _ \<Rightarrow> False | Inr age \<Rightarrow> age \<le> 0)
      then (None, on_scope q (\<lambda>s. s\<lparr>lsReady := True\<rparr>) (expireLease now q True m))
      else
        let m = (case result of
              Inl _ \<Rightarrow> m
            | Inr age \<Rightarrow> if age \<le> MediaAuthorizationMaxAge then applyLease now q (clock_add started age) m else m);
            m = on_scope q (\<lambda>s. s\<lparr>lsReady := True\<rparr>) m
        in (case lsDeadline (mgAllScopes m ! q) of
              None \<Rightarrow> (None, expireLease now q True m)
            | Some d \<Rightarrow> (Some (renewDelay now d jitter), m)))"

section \<open>Requests\<close>

definition cancel_request :: "nat \<Rightarrow> media_manager \<Rightarrow> media_manager" where
  "cancel_request i m = m\<lparr>mgAllRequests := (mgAllRequests m)[i := (mgAllRequests m ! i)\<lparr>mrCancelled := True\<rparr>]\<rparr>"

definition registerMediaRequest :: "clock \<Rightarrow> nat \<Rightarrow> string \<Rightarrow> media_manager \<Rightarrow> nat option \<times> media_manager" where
  "registerMediaRequest now p requestID m =
     (if \<not> authorized m p now then (None, m)
      else
        let m = (case msRequests (mgAllSessions m ! p) requestID of None \<Rightarrow> m | Some i \<Rightarrow> cancel_request i m);
            i = length (mgAllRequests m)
        in (Some i, on_session p (\<lambda>s. s\<lparr>msRequests := (msRequests s)(requestID \<mapsto> i)\<rparr>)
              (m\<lparr>mgAllRequests := mgAllRequests m @ [\<lparr>mrSession = p, mrID = requestID, mrCancelled = False\<rparr>]\<rparr>)))"

text \<open>The function that registering returns: an entry that was replaced meanwhile is left alone.\<close>

definition unregisterMediaRequest :: "nat \<Rightarrow> media_manager \<Rightarrow> media_manager" where
  "unregisterMediaRequest i m =
     (let r = mgAllRequests m ! i; p = mrSession r;
          m = (if msRequests (mgAllSessions m ! p) (mrID r) = Some i
               then on_session p (\<lambda>s. s\<lparr>msRequests := (msRequests s)(mrID r := None)\<rparr>) m else m)
      in cancel_request i m)"

definition cancelMediaRequest :: "nat \<Rightarrow> string \<Rightarrow> media_manager \<Rightarrow> bool \<times> media_manager" where
  "cancelMediaRequest p requestID m =
     (let requestID = trim_space requestID in
      if requestID = [] then (False, m)
      else case msRequests (mgAllSessions m ! p) requestID of
        None \<Rightarrow> (False, m)
      | Some i \<Rightarrow> (True, cancel_request i (on_session p (\<lambda>s. s\<lparr>msRequests := (msRequests s)(requestID := None)\<rparr>) m)))"

text \<open>\<open>markUsed\<close> of a request that was registered, and \<open>cancelPeers\<close> of a manager that shuts down.\<close>

definition markUsed :: "nat \<Rightarrow> media_manager \<Rightarrow> media_manager" where
  "markUsed p m = (case msLease (mgAllSessions m ! p) of None \<Rightarrow> m | Some q \<Rightarrow> on_scope q (\<lambda>s. s\<lparr>lsUsed := True\<rparr>) m)"

definition cancelPeers :: "clock \<Rightarrow> media_manager \<Rightarrow> media_manager" where
  "cancelPeers now m =
     (let m = m\<lparr>mgCanceled := True\<rparr> in
      fold (\<lambda>sid. closeSession now sid False) (sessionsWith (\<lambda>s. True) m) m)"

end
