(* ===== verification/Media_Machine.thy ===== *)
theory Media_Machine
  imports Media_Lease
begin

text \<open>
  The critical sections of the media authorization as steps: the invariant of the tables, the leases,
  the permissions and the requests, that every step keeps it, and what no step undoes.
\<close>

section \<open>Simplification\<close>

lemma on_session_fields [simp]:
  "mgSessions (on_session p f m) = mgSessions m" "mgLeases (on_session p f m) = mgLeases m"
  "mgCanceled (on_session p f m) = mgCanceled m" "mgAllScopes (on_session p f m) = mgAllScopes m"
  "mgAllRequests (on_session p f m) = mgAllRequests m"
  "mgAllSessions (on_session p f m) = (mgAllSessions m)[p := f (mgAllSessions m ! p)]"
  by (simp_all add: on_session_def)

lemma on_scope_fields [simp]:
  "mgSessions (on_scope q f m) = mgSessions m" "mgLeases (on_scope q f m) = mgLeases m"
  "mgCanceled (on_scope q f m) = mgCanceled m" "mgAllSessions (on_scope q f m) = mgAllSessions m"
  "mgAllRequests (on_scope q f m) = mgAllRequests m"
  "mgAllScopes (on_scope q f m) = (mgAllScopes m)[q := f (mgAllScopes m ! q)]"
  by (simp_all add: on_scope_def)

lemma releaseScope_fields [simp]:
  "mgSessions (releaseScope q m) = mgSessions m" "mgAllSessions (releaseScope q m) = mgAllSessions m"
  "mgAllRequests (releaseScope q m) = mgAllRequests m" "mgCanceled (releaseScope q m) = mgCanceled m"
  "length (mgAllScopes (releaseScope q m)) = length (mgAllScopes m)"
  by (simp_all add: releaseScope_def Let_def)

lemma cancel_request_fields [simp]:
  "mgSessions (cancel_request i m) = mgSessions m" "mgLeases (cancel_request i m) = mgLeases m"
  "mgCanceled (cancel_request i m) = mgCanceled m" "mgAllSessions (cancel_request i m) = mgAllSessions m"
  "mgAllScopes (cancel_request i m) = mgAllScopes m"
  "mgAllRequests (cancel_request i m) = (mgAllRequests m)[i := (mgAllRequests m ! i)\<lparr>mrCancelled := True\<rparr>]"
  by (simp_all add: cancel_request_def)

lemma nth_update: "xs[i := y] ! j = (if i = j \<and> i < length xs then y else xs ! j)"
  by (cases "i < length xs") (auto simp: list_update_beyond)

section \<open>The closing of a session\<close>

text \<open>The sessions, the scopes and the requests after a session was closed.\<close>

definition closes :: "nat \<Rightarrow> media_manager \<Rightarrow> media_manager" where
  "closes p m =
     (let s = mgAllSessions m ! p in
      (case msLease s of None \<Rightarrow> m | Some q \<Rightarrow> releaseScope q m)
        \<lparr>mgSessions := (mgSessions m)(msID s := None),
         mgAllSessions := (mgAllSessions m)[p := s\<lparr>msClosed := True, msCancelled := True, msRequests := (\<lambda>_. None)\<rparr>],
         mgAllRequests := map (\<lambda>i. let r = mgAllRequests m ! i in
            if mrSession r = p \<and> msRequests s (mrID r) = Some i
            then r\<lparr>mrCancelled := True\<rparr> else r) [0..<length (mgAllRequests m)]\<rparr>)"

lemma closeSession_closes:
  assumes "mgSessions m sid = Some p" and "p < length (mgAllSessions m)" and "msID (mgAllSessions m ! p) = sid"
    and "\<not> (expiredOnly \<and> authorizedLocked m (mgAllSessions m ! p) now)"
  shows "closeSession now sid expiredOnly m = closes p m"
proof -
  have "mgLeases (releaseScope q (on_session p f m\<lparr>mgSessions := x\<rparr>)) = mgLeases (releaseScope q m)"
    "mgAllScopes (releaseScope q (on_session p f m\<lparr>mgSessions := x\<rparr>)) = mgAllScopes (releaseScope q m)"
    "mgCanceled (releaseScope q (on_session p f m\<lparr>mgSessions := x\<rparr>)) = mgCanceled (releaseScope q m)" for q f x
    by (simp_all add: releaseScope_def Let_def)
  with assms show ?thesis
    by (intro media_manager.equality)
      (auto simp: closeSession_def closes_def cancelAllMediaRequests_def Let_def split: option.split)
qed

lemma closeSession_cases:
  obtains "closeSession now sid expiredOnly m = m"
  | p where "mgSessions m sid = Some p" "closeSession now sid expiredOnly m = closes p m"
    "\<not> (expiredOnly \<and> authorizedLocked m (mgAllSessions m ! p) now)"
  | p where "mgSessions m sid = Some p" "\<not> (p < length (mgAllSessions m) \<and> msID (mgAllSessions m ! p) = sid)"
proof (cases "mgSessions m sid")
  case None
  then show ?thesis by (simp add: closeSession_def that(1))
next
  case (Some p)
  show ?thesis
  proof (cases "p < length (mgAllSessions m) \<and> msID (mgAllSessions m ! p) = sid
      \<and> \<not> (expiredOnly \<and> authorizedLocked m (mgAllSessions m ! p) now)")
    case True
    with Some show ?thesis using closeSession_closes [OF Some] that(2) by blast
  next
    case False
    with Some show ?thesis using that(1,3) by (auto simp: closeSession_def)
  qed
qed

lemma count_update:
  "p < length xs \<Longrightarrow> int (length (filter P (xs[p := y])))
     = int (length (filter P xs)) - (if P (xs ! p) then 1 else 0) + (if P y then 1 else 0)"
proof -
  assume p: "p < length xs"
  have "filter P xs = filter P (take p xs @ xs ! p # drop (Suc p) xs)" using id_take_nth_drop [OF p] by simp
  moreover have "filter P (xs[p := y]) = filter P (take p xs @ y # drop (Suc p) xs)"
    using upd_conv_take_nth_drop [OF p] by simp
  ultimately show ?thesis by simp
qed

section \<open>Running\<close>

text \<open>A permission of the relay: for whom it was asked, when the question was sent, and for how long it holds.\<close>

record media_grant =
  gtAuthority :: string
  gtDevice :: string
  gtStarted :: clock
  gtAge :: int

record media_run =
  mwManager :: media_manager
  mwClock :: clock
  mwGrants :: "media_grant list"

text \<open>
  The critical sections of the program in any order. Identifiers of sessions are fresh; the monotonic clock
  does not go back, the wall clock may be set at will.
\<close>

inductive media_step :: "media_run \<Rightarrow> media_run \<Rightarrow> bool" where
  tick: "ckMono (mwClock w) \<le> ckMono c \<Longrightarrow> media_step w (w\<lparr>mwClock := c\<rparr>)"
| prepare: "sid \<notin> msID ` set (mgAllSessions (mwManager w)) \<Longrightarrow>
    media_step w (w\<lparr>mwManager := snd (Prepare (mwClock w) sid a (mwManager w))\<rparr>)"
| reauthorize: "media_step w (w\<lparr>mwManager := snd (Reauthorize (mwClock w) sid a (mwManager w))\<rparr>)"
| activate: "p < length (mgAllSessions (mwManager w)) \<Longrightarrow>
    media_step w (w\<lparr>mwManager := snd (activateSession (mwClock w) p (mwManager w))\<rparr>)"
| close_session: "media_step w (w\<lparr>mwManager := closeSession (mwClock w) sid expiredOnly (mwManager w)\<rparr>)"
| end_lease: "q < length (mgAllScopes (mwManager w)) \<Longrightarrow> endLease (mwClock w) q force (mwManager w) = Some m \<Longrightarrow>
    media_step w (w\<lparr>mwManager := m\<rparr>)"
| renew: "q < length (mgAllScopes (mwManager w)) \<Longrightarrow>
    checkMediaAuthorization own (lsAuthority (mgAllScopes (mwManager w) ! q)) connected nonce answer = Inr age \<Longrightarrow>
    0 < age \<Longrightarrow> ckMono started \<le> ckMono (mwClock w) \<Longrightarrow>
    media_step w (w\<lparr>mwManager := applyLease (mwClock w) q (clock_add started age) (mwManager w),
      mwGrants := mwGrants w @ [\<lparr>gtAuthority = lsAuthority (mgAllScopes (mwManager w) ! q),
        gtDevice = lsDevice (mgAllScopes (mwManager w) ! q), gtStarted = started, gtAge = age\<rparr>]\<rparr>)"
| flags: "q < length (mgAllScopes (mwManager w)) \<Longrightarrow>
    media_step w (w\<lparr>mwManager := on_scope q (\<lambda>s. s\<lparr>lsUsed := used, lsReady := ready\<rparr>) (mwManager w)\<rparr>)"
| register: "p < length (mgAllSessions (mwManager w)) \<Longrightarrow>
    media_step w (w\<lparr>mwManager := snd (registerMediaRequest (mwClock w) p rid (mwManager w))\<rparr>)"
| unregister: "i < length (mgAllRequests (mwManager w)) \<Longrightarrow>
    media_step w (w\<lparr>mwManager := unregisterMediaRequest i (mwManager w)\<rparr>)"
| cancel: "p < length (mgAllSessions (mwManager w)) \<Longrightarrow>
    media_step w (w\<lparr>mwManager := snd (cancelMediaRequest p rid (mwManager w))\<rparr>)"
| shut_down: "media_step w (w\<lparr>mwManager := (mwManager w)\<lparr>mgCanceled := True\<rparr>\<rparr>)"

definition media_init :: "media_run \<Rightarrow> bool" where
  "media_init w \<longleftrightarrow> mwManager w = NewManager \<and> mwGrants w = []"

section \<open>Invariant\<close>

definition session_ok :: "media_manager \<Rightarrow> nat \<Rightarrow> media_session \<Rightarrow> bool" where
  "session_ok m p s \<longleftrightarrow> (mgSessions m (msID s) = Some p) = (\<not> msClosed s) \<and> msCancelled s = msClosed s
     \<and> (msClosed s \<longrightarrow> msRequests s = (\<lambda>_. None))"

definition tables_ok :: "media_manager \<Rightarrow> bool" where
  "tables_ok m \<longleftrightarrow> distinct (map msID (mgAllSessions m))
     \<and> (\<forall>sid p. mgSessions m sid = Some p \<longrightarrow> p < length (mgAllSessions m) \<and> msID (mgAllSessions m ! p) = sid)
     \<and> (\<forall>p < length (mgAllSessions m). session_ok m p (mgAllSessions m ! p))"

definition holders :: "media_manager \<Rightarrow> nat \<Rightarrow> nat" where
  "holders m q = length (filter (\<lambda>s. \<not> msClosed s \<and> msLease s = Some q) (mgAllSessions m))"

definition scope_ok :: "media_manager \<Rightarrow> nat \<Rightarrow> lease_scope \<Rightarrow> bool" where
  "scope_ok m q s \<longleftrightarrow> lsRefs s = int (holders m q) \<and> (holders m q = 0 \<longrightarrow> lsCancelled s)
     \<and> (lsCancelled s \<or> mgLeases m (lsKey s) = Some q)"

definition scopes_ok :: "media_manager \<Rightarrow> bool" where
  "scopes_ok m \<longleftrightarrow>
     (\<forall>k q. mgLeases m k = Some q \<longrightarrow> q < length (mgAllScopes m) \<and> lsKey (mgAllScopes m ! q) = k
        \<and> \<not> lsCancelled (mgAllScopes m ! q))
     \<and> (\<forall>q < length (mgAllScopes m). scope_ok m q (mgAllScopes m ! q))"

text \<open>A session without an authority has no lease, and a hosted one has a lease for its own key.\<close>

definition lease_ok :: "lease_scope list \<Rightarrow> media_session \<Rightarrow> bool" where
  "lease_ok scopes s \<longleftrightarrow>
     (case msLease s of
        None \<Rightarrow> maAuthority (msAuth s) = []
      | Some q \<Rightarrow> maAuthority (msAuth s) \<noteq> [] \<and> q < length scopes \<and> lsKey (scopes ! q) = leaseKey (msAuth s))"

definition key_ok :: "lease_scope \<Rightarrow> bool" where
  "key_ok s \<longleftrightarrow> (\<exists>agent. lsKey s = lsAuthority s @ [nul] @ agent @ [nul] @ lsDevice s)"

definition leases_ok :: "media_manager \<Rightarrow> bool" where
  "leases_ok m \<longleftrightarrow> list_all (lease_ok (mgAllScopes m)) (mgAllSessions m) \<and> list_all key_ok (mgAllScopes m)"

definition grant_ok :: "clock \<Rightarrow> media_grant \<Rightarrow> bool" where
  "grant_ok now g \<longleftrightarrow> 0 < gtAge g \<and> gtAge g \<le> MediaAuthorizationMaxAge \<and> ckMono (gtStarted g) \<le> ckMono now"

definition granted :: "media_grant list \<Rightarrow> lease_scope \<Rightarrow> bool" where
  "granted gs s \<longleftrightarrow> (case lsDeadline s of None \<Rightarrow> True | Some d \<Rightarrow>
     list_ex (\<lambda>g. gtAuthority g = lsAuthority s \<and> gtDevice g = lsDevice s \<and> d = clock_add (gtStarted g) (gtAge g)) gs)"

definition grants_ok :: "media_run \<Rightarrow> bool" where
  "grants_ok w \<longleftrightarrow> list_all (grant_ok (mwClock w)) (mwGrants w)
     \<and> list_all (granted (mwGrants w)) (mgAllScopes (mwManager w))"

definition requests_ok :: "media_manager \<Rightarrow> bool" where
  "requests_ok m \<longleftrightarrow>
     (\<forall>i < length (mgAllRequests m). let r = mgAllRequests m ! i in
        mrSession r < length (mgAllSessions m)
        \<and> (\<not> mrCancelled r \<longrightarrow> msRequests (mgAllSessions m ! mrSession r) (mrID r) = Some i))
     \<and> (\<forall>p < length (mgAllSessions m). \<forall>rid i. msRequests (mgAllSessions m ! p) rid = Some i \<longrightarrow>
          i < length (mgAllRequests m) \<and> mrSession (mgAllRequests m ! i) = p \<and> mrID (mgAllRequests m ! i) = rid)"

definition media_inv :: "media_run \<Rightarrow> bool" where
  "media_inv w \<longleftrightarrow> tables_ok (mwManager w) \<and> scopes_ok (mwManager w) \<and> leases_ok (mwManager w) \<and> grants_ok w
     \<and> requests_ok (mwManager w)"

lemma tables_okD:
  assumes "tables_ok m" and "mgSessions m sid = Some p"
  shows "p < length (mgAllSessions m)" and "msID (mgAllSessions m ! p) = sid" and "\<not> msClosed (mgAllSessions m ! p)"
  using assms by (auto simp: tables_ok_def session_ok_def)

lemma closeSession_ok:
  assumes "tables_ok m"
  obtains "closeSession now sid expiredOnly m = m"
  | p where "mgSessions m sid = Some p" "closeSession now sid expiredOnly m = closes p m"
    "\<not> (expiredOnly \<and> authorizedLocked m (mgAllSessions m ! p) now)"
proof (rule closeSession_cases [of now sid expiredOnly m])
  assume "closeSession now sid expiredOnly m = m"
  then show thesis by (rule that(1))
next
  fix p
  assume "mgSessions m sid = Some p" "closeSession now sid expiredOnly m = closes p m"
    "\<not> (expiredOnly \<and> authorizedLocked m (mgAllSessions m ! p) now)"
  then show thesis by (rule that(2))
next
  fix p
  assume "mgSessions m sid = Some p" "\<not> (p < length (mgAllSessions m) \<and> msID (mgAllSessions m ! p) = sid)"
  then show thesis using tables_okD(1,2) [OF assms] by blast
qed

lemma closes_fields [simp]:
  "mgSessions (closes p m) = (mgSessions m)(msID (mgAllSessions m ! p) := None)"
  "mgAllSessions (closes p m) = (mgAllSessions m)[p := (mgAllSessions m ! p)
     \<lparr>msClosed := True, msCancelled := True, msRequests := (\<lambda>_. None)\<rparr>]"
  "length (mgAllRequests (closes p m)) = length (mgAllRequests m)"
  "length (mgAllScopes (closes p m)) = length (mgAllScopes m)"
  by (simp_all add: closes_def Let_def split: option.split)

lemma closes_requests:
  "i < length (mgAllRequests m) \<Longrightarrow> mgAllRequests (closes p m) ! i =
     (let r = mgAllRequests m ! i in
      if mrSession r = p \<and> msRequests (mgAllSessions m ! p) (mrID r) = Some i then r\<lparr>mrCancelled := True\<rparr> else r)"
  by (simp add: closes_def Let_def)

lemma closes_scopes:
  "mgAllScopes (closes p m) =
     (case msLease (mgAllSessions m ! p) of None \<Rightarrow> mgAllScopes m | Some q \<Rightarrow> mgAllScopes (releaseScope q m))"
  "mgLeases (closes p m) =
     (case msLease (mgAllSessions m ! p) of None \<Rightarrow> mgLeases m | Some q \<Rightarrow> mgLeases (releaseScope q m))"
  by (simp_all add: closes_def Let_def split: option.split)

lemma session_ids: "tables_ok m \<Longrightarrow> p < length (mgAllSessions m) \<Longrightarrow> p' < length (mgAllSessions m) \<Longrightarrow>
    msID (mgAllSessions m ! p) = msID (mgAllSessions m ! p') \<Longrightarrow> p = p'"
  using nth_eq_iff_index_eq [of "map msID (mgAllSessions m)" p p'] by (simp add: tables_ok_def)

lemma closes_tables:
  assumes "tables_ok m" and "p < length (mgAllSessions m)"
  shows "tables_ok (closes p m)"
proof -
  have "map msID (mgAllSessions (closes p m)) = map msID (mgAllSessions m)"
    by (simp add: map_update_same assms(2))
  moreover have "(msID (mgAllSessions m ! p') = msID (mgAllSessions m ! p)) = (p' = p)" if "p' < length (mgAllSessions m)" for p'
    using session_ids [OF assms(1) that assms(2)] by auto
  moreover have "session_ok (closes p m) p' (mgAllSessions (closes p m) ! p')" if "p' < length (mgAllSessions m)" for p'
  proof (cases "p' = p")
    case True
    then show ?thesis using assms(2) by (simp add: session_ok_def)
  next
    case False
    have "session_ok m p' (mgAllSessions m ! p')" using assms(1) that by (simp add: tables_ok_def)
    with False session_ids [OF assms(1) that assms(2)] show ?thesis by (auto simp: session_ok_def)
  qed
  moreover have "p' < length (mgAllSessions (closes p m)) \<and> msID (mgAllSessions (closes p m) ! p') = sid"
    if "mgSessions (closes p m) sid = Some p'" for sid p'
    using tables_okD(1,2) [OF assms(1), of sid p'] that assms(2) by (auto simp: nth_list_update split: if_splits)
  moreover have "length (mgAllSessions (closes p m)) = length (mgAllSessions m)" by simp
  moreover have "distinct (map msID (mgAllSessions m))" using assms(1) by (simp add: tables_ok_def)
  ultimately show ?thesis unfolding tables_ok_def by simp
qed

lemma scopes_okD:
  assumes "scopes_ok m"
  shows "mgLeases m k = Some q \<Longrightarrow> q < length (mgAllScopes m) \<and> lsKey (mgAllScopes m ! q) = k
      \<and> \<not> lsCancelled (mgAllScopes m ! q)"
    and "q < length (mgAllScopes m) \<Longrightarrow> lsRefs (mgAllScopes m ! q) = int (holders m q)"
    and "q < length (mgAllScopes m) \<Longrightarrow> holders m q = 0 \<Longrightarrow> lsCancelled (mgAllScopes m ! q)"
    and "q < length (mgAllScopes m) \<Longrightarrow> lsCancelled (mgAllScopes m ! q) \<or> mgLeases m (lsKey (mgAllScopes m ! q)) = Some q"
  using assms by (auto simp: scopes_ok_def scope_ok_def)

lemma releaseScope_scope:
  assumes "q < length (mgAllScopes m)"
  shows "mgAllScopes (releaseScope q m) = (mgAllScopes m)[q := (mgAllScopes m ! q)\<lparr>lsRefs := lsRefs (mgAllScopes m ! q) - 1,
      lsCancelled := lsCancelled (mgAllScopes m ! q) \<or> lsRefs (mgAllScopes m ! q) = 1\<rparr>]"
    and "mgLeases (releaseScope q m) =
      (if lsRefs (mgAllScopes m ! q) = 1 \<and> mgLeases m (lsKey (mgAllScopes m ! q)) = Some q
       then (mgLeases m)(lsKey (mgAllScopes m ! q) := None) else mgLeases m)"
  using assms by (auto simp: releaseScope_def Let_def)

lemma holders_closes:
  assumes "p < length (mgAllSessions m)" and "\<not> msClosed (mgAllSessions m ! p)"
  shows "int (holders (closes p m) q) = int (holders m q) - (if msLease (mgAllSessions m ! p) = Some q then 1 else 0)"
  using assms by (simp add: holders_def count_update)

lemma closes_scopes_ok:
  assumes "scopes_ok m" and "p < length (mgAllSessions m)" and "\<not> msClosed (mgAllSessions m ! p)"
    and "\<forall>q. msLease (mgAllSessions m ! p) = Some q \<longrightarrow> q < length (mgAllScopes m)"
  shows "scopes_ok (closes p m)"
proof (cases "msLease (mgAllSessions m ! p)")
  case None
  then have "holders (closes p m) q = holders m q" for q using holders_closes [OF assms(2,3), of q] by simp
  with None assms(1) show ?thesis by (simp add: scopes_ok_def scope_ok_def closes_scopes)
next
  case (Some q)
  then have q: "q < length (mgAllScopes m)" using assms(4) by simp
  note old = scopes_okD [OF assms(1)] and rel = releaseScope_scope [OF q]
  have held: "int (holders (closes p m) q') = int (holders m q') - (if q' = q then 1 else 0)" for q'
    using holders_closes [OF assms(2,3), of q'] Some by auto
  have "scope_ok (closes p m) q' (mgAllScopes (closes p m) ! q')" if "q' < length (mgAllScopes m)" for q'
  proof (cases "q' = q")
    case True
    have "lsCancelled (mgAllScopes m ! q) \<or> mgLeases m (lsKey (mgAllScopes m ! q)) = Some q" using old(4) [OF q] .
    with True held [of q] old(2) [OF q] q Some show ?thesis by (auto simp: scope_ok_def closes_scopes rel)
  next
    case False
    with held [of q'] have "holders (closes p m) q' = holders m q'" by simp
    with False old(2,3,4) [OF that] Some show ?thesis by (auto simp: scope_ok_def closes_scopes rel)
  qed
  moreover have "q' < length (mgAllScopes m) \<and> lsKey (mgAllScopes (closes p m) ! q') = k
      \<and> \<not> lsCancelled (mgAllScopes (closes p m) ! q')" if "mgLeases (closes p m) k = Some q'" for k q'
  proof -
    have "mgLeases m k = Some q'" using that Some by (auto simp: closes_scopes rel split: if_splits)
    then have "q' < length (mgAllScopes m)" "lsKey (mgAllScopes m ! q') = k" "\<not> lsCancelled (mgAllScopes m ! q')"
      using old(1) by simp_all
    with that Some q show ?thesis by (auto simp: closes_scopes rel nth_list_update split: if_splits)
  qed
  ultimately show ?thesis unfolding scopes_ok_def by simp
qed

text \<open>What scopes keep: their keys, authorities and devices.\<close>

definition scope_id :: "lease_scope \<Rightarrow> string \<times> string \<times> string" where
  "scope_id s = (lsKey s, lsAuthority s, lsDevice s)"

lemma scope_id_simps [simp]:
  "scope_id (s\<lparr>lsCancelled := b\<rparr>) = scope_id s" "scope_id (s\<lparr>lsRefs := n\<rparr>) = scope_id s"
  "scope_id (s\<lparr>lsReady := b\<rparr>) = scope_id s" "scope_id (s\<lparr>lsUsed := b\<rparr>) = scope_id s"
  "scope_id (s\<lparr>lsDeadline := d\<rparr>) = scope_id s"
  by (simp_all add: scope_id_def)

lemma scope_ids_update [simp]: "scope_id (f (xs ! q)) = scope_id (xs ! q) \<Longrightarrow> map scope_id (xs[q := f (xs ! q)]) = map scope_id xs"
  by (cases "q < length xs") (simp_all add: map_update_same list_update_beyond)

lemma lease_ok_keeps:
  assumes "map scope_id scopes' = map scope_id scopes"
  shows "lease_ok scopes' s = lease_ok scopes s" and "list_all key_ok scopes' = list_all key_ok scopes"
proof -
  have len: "length scopes' = length scopes" using assms map_eq_imp_length_eq by blast
  have "scope_id (scopes' ! q) = scope_id (scopes ! q)" if "q < length scopes" for q
    using arg_cong [OF assms, of "\<lambda>xs. xs ! q"] that len by simp
  then have *: "lsKey (scopes' ! q) = lsKey (scopes ! q)" "key_ok (scopes' ! q) = key_ok (scopes ! q)" if "q < length scopes" for q
    using that by (simp_all add: scope_id_def key_ok_def)
  show "lease_ok scopes' s = lease_ok scopes s" using len * by (auto simp: lease_ok_def split: option.split)
  show "list_all key_ok scopes' = list_all key_ok scopes" using len * by (simp add: list_all_length)
qed

lemma leases_ok_keeps:
  assumes "leases_ok m" and "map scope_id (mgAllScopes m') = map scope_id (mgAllScopes m)"
    and "mgAllSessions m' = (mgAllSessions m)[p := s]"
    and "p < length (mgAllSessions m) \<Longrightarrow> msLease s = msLease (mgAllSessions m ! p)"
    and "p < length (mgAllSessions m) \<Longrightarrow> leaseKey (msAuth s) = leaseKey (msAuth (mgAllSessions m ! p))"
    and "p < length (mgAllSessions m) \<Longrightarrow> maAuthority (msAuth s) = maAuthority (msAuth (mgAllSessions m ! p))"
  shows "leases_ok m'"
proof -
  note keep = lease_ok_keeps [OF assms(2)]
  have "lease_ok (mgAllScopes m) s" if "p < length (mgAllSessions m)"
    using assms(1,4-6) that by (auto simp: leases_ok_def list_all_length lease_ok_def split: option.splits)
  then have "list_all (lease_ok (mgAllScopes m)) (mgAllSessions m')"
    using assms(1,3) set_update_subset_insert [of "mgAllSessions m" p s]
    by (cases "p < length (mgAllSessions m)") (auto simp: leases_ok_def list_all_iff list_update_beyond)
  with assms(1) keep show ?thesis by (simp add: leases_ok_def list_all_length)
qed

lemma scope_ids_release [simp]: "map scope_id (mgAllScopes (releaseScope q m)) = map scope_id (mgAllScopes m)"
proof -
  have "map scope_id (xs[q := (xs ! q)\<lparr>lsRefs := n\<rparr>]) = map scope_id xs" for xs :: "lease_scope list" and n
    by (rule scope_ids_update) simp
  moreover have "map scope_id (xs[q := (xs ! q)\<lparr>lsCancelled := b\<rparr>]) = map scope_id xs" for xs :: "lease_scope list" and b
    by (rule scope_ids_update) simp
  ultimately show ?thesis by (simp add: releaseScope_def Let_def)
qed

lemma scope_ids_closes [simp]: "map scope_id (mgAllScopes (closes p m)) = map scope_id (mgAllScopes m)"
  by (simp add: closes_scopes split: option.split)

lemma closes_leases_ok: "leases_ok m \<Longrightarrow> leases_ok (closes p m)"
  by (rule leases_ok_keeps [OF _ scope_ids_closes closes_fields(2)]) simp_all

lemma closes_requests_ok:
  assumes "requests_ok m" and "p < length (mgAllSessions m)"
  shows "requests_ok (closes p m)"
proof -
  have same: "mrSession (mgAllRequests (closes p m) ! i) = mrSession (mgAllRequests m ! i)"
    "mrID (mgAllRequests (closes p m) ! i) = mrID (mgAllRequests m ! i)" if "i < length (mgAllRequests m)" for i
    using closes_requests [OF that, of p] by (simp_all add: Let_def)
  show ?thesis
    unfolding requests_ok_def Let_def
  proof (intro conjI allI impI)
    fix i assume "i < length (mgAllRequests (closes p m))"
    then have i: "i < length (mgAllRequests m)" by simp
    let ?r = "mgAllRequests m ! i"
    have r: "mrSession ?r < length (mgAllSessions m)"
      "\<not> mrCancelled ?r \<Longrightarrow> msRequests (mgAllSessions m ! mrSession ?r) (mrID ?r) = Some i"
      using assms(1) i by (simp_all add: requests_ok_def Let_def)
    then show "mrSession (mgAllRequests (closes p m) ! i) < length (mgAllSessions (closes p m))" using same [OF i] by simp
    assume "\<not> mrCancelled (mgAllRequests (closes p m) ! i)"
    then show "msRequests (mgAllSessions (closes p m) ! mrSession (mgAllRequests (closes p m) ! i))
        (mrID (mgAllRequests (closes p m) ! i)) = Some i"
      using r(2) same [OF i] closes_requests [OF i, of p] assms(2)
      by (cases "mrSession ?r = p") (auto simp: Let_def split: if_splits)
  next
    fix p' rid i
    assume "p' < length (mgAllSessions (closes p m))" "msRequests (mgAllSessions (closes p m) ! p') rid = Some i"
    then have "p' < length (mgAllSessions m)" "msRequests (mgAllSessions m ! p') rid = Some i"
      using assms(2) by (auto simp: nth_list_update split: if_splits)
    then have "i < length (mgAllRequests m)" "mrSession (mgAllRequests m ! i) = p'" "mrID (mgAllRequests m ! i) = rid"
      using assms(1) by (simp_all add: requests_ok_def)
    then show "i < length (mgAllRequests (closes p m))" "mrSession (mgAllRequests (closes p m) ! i) = p'"
        "mrID (mgAllRequests (closes p m) ! i) = rid"
      using same by simp_all
  qed
qed

lemma granted_cong:
  "scope_id s = scope_id t \<Longrightarrow> lsDeadline s = lsDeadline t \<Longrightarrow> granted gs s = granted gs t"
  by (cases "lsDeadline t") (simp_all add: granted_def scope_id_def)

lemma granted_update:
  assumes "list_all (granted gs) xs" and "q < length xs \<Longrightarrow> granted gs (xs ! q) \<Longrightarrow> granted gs y"
  shows "list_all (granted gs) (xs[q := y])"
proof (cases "q < length xs")
  case True
  then show ?thesis using assms set_update_subset_insert [of xs q y] by (auto simp: list_all_iff)
qed (use assms(1) in \<open>simp add: list_update_beyond\<close>)

lemma granted_release:
  assumes "list_all (granted gs) (mgAllScopes m)"
  shows "list_all (granted gs) (mgAllScopes (releaseScope q m))"
proof (cases "q < length (mgAllScopes m)")
  case True
  let ?s = "(mgAllScopes m ! q)\<lparr>lsRefs := lsRefs (mgAllScopes m ! q) - 1,
      lsCancelled := lsCancelled (mgAllScopes m ! q) \<or> lsRefs (mgAllScopes m ! q) = 1\<rparr>"
  have "granted gs ?s = granted gs (mgAllScopes m ! q)" by (rule granted_cong) simp_all
  then show ?thesis using releaseScope_scope(1) [OF True] granted_update [OF assms, of q ?s] by simp
next
  case False
  then show ?thesis using assms by (simp add: releaseScope_def Let_def list_update_beyond)
qed

lemma closes_grants_ok:
  "grants_ok w \<Longrightarrow> grants_ok (w\<lparr>mwManager := closes p (mwManager w)\<rparr>)"
  by (auto simp: grants_ok_def closes_scopes granted_release split: option.split)

section \<open>The other sections\<close>

text \<open>A change of a session that keeps its identity, its state and its lease.\<close>

lemma session_update_ok:
  assumes ok: "tables_ok m" "scopes_ok m" "leases_ok m" and p: "p < length (mgAllSessions m)"
    and m': "mgSessions m' = mgSessions m" "mgLeases m' = mgLeases m" "mgAllScopes m' = mgAllScopes m"
      "mgAllSessions m' = (mgAllSessions m)[p := s]"
    and s: "msID s = msID (mgAllSessions m ! p)" "msClosed s = msClosed (mgAllSessions m ! p)"
      "msCancelled s = msCancelled (mgAllSessions m ! p)" "msLease s = msLease (mgAllSessions m ! p)"
      "msClosed s \<Longrightarrow> msRequests s = (\<lambda>_. None)"
    and a: "leaseKey (msAuth s) = leaseKey (msAuth (mgAllSessions m ! p))"
      "maAuthority (msAuth s) = maAuthority (msAuth (mgAllSessions m ! p))"
  shows "tables_ok m' \<and> scopes_ok m' \<and> leases_ok m'"
proof (intro conjI)
  have ids: "map msID (mgAllSessions m') = map msID (mgAllSessions m)" using m'(4) p s(1) by (simp add: map_update_same)
  have "session_ok m' p' (mgAllSessions m' ! p')" if "p' < length (mgAllSessions m)" for p'
  proof -
    have "session_ok m p (mgAllSessions m ! p)" "session_ok m p' (mgAllSessions m ! p')"
      using ok(1) p that by (simp_all add: tables_ok_def)
    then show ?thesis using m'(1,4) s p by (auto simp: session_ok_def nth_list_update)
  qed
  moreover have "p' < length (mgAllSessions m') \<and> msID (mgAllSessions m' ! p') = sid" if "mgSessions m' sid = Some p'" for sid p'
    using tables_okD(1,2) [OF ok(1), of sid p'] that m'(1,4) s(1) p by (auto simp: nth_list_update)
  moreover have "distinct (map msID (mgAllSessions m))" using ok(1) by (simp add: tables_ok_def)
  ultimately show "tables_ok m'" using ids m'(4) unfolding tables_ok_def by simp
  have "holders m' q = holders m q" for q
    using count_update [OF p, of "\<lambda>s. \<not> msClosed s \<and> msLease s = Some q" s] m'(4) s by (simp add: holders_def)
  then show "scopes_ok m'" using ok(2) m'(2,3) by (simp add: scopes_ok_def scope_ok_def)
  show "leases_ok m'" by (rule leases_ok_keeps [OF ok(3) _ m'(4)]) (use m'(3) s a in simp_all)
qed

lemma Reauthorize_ok:
  assumes "media_inv w"
  shows "media_inv (w\<lparr>mwManager := snd (Reauthorize now sid a (mwManager w))\<rparr>)"
proof -
  let ?m = "mwManager w"
  show ?thesis
  proof (cases "snd (Reauthorize now sid a ?m) = ?m")
    case True
    then show ?thesis using assms by simp
  next
    case False
    then obtain p where p: "mgSessions ?m sid = Some p"
        "snd (Reauthorize now sid a ?m) = on_session p (\<lambda>s. s\<lparr>msAuth := a\<rparr>) ?m"
        "maAgentID a = maAgentID (msAuth (mgAllSessions ?m ! p))" "maDeviceID a = maDeviceID (msAuth (mgAllSessions ?m ! p))"
        "maAuthority a = maAuthority (msAuth (mgAllSessions ?m ! p))"
      by (auto simp: Reauthorize_def Let_def split: option.splits if_splits)
    have ok: "tables_ok ?m" "scopes_ok ?m" "leases_ok ?m" "requests_ok ?m" "grants_ok w" using assms by (simp_all add: media_inv_def)
    note l = tables_okD [OF ok(1) p(1)]
    let ?m' = "on_session p (\<lambda>s. s\<lparr>msAuth := a\<rparr>) ?m"
    have "tables_ok ?m' \<and> scopes_ok ?m' \<and> leases_ok ?m'"
      by (rule session_update_ok [OF ok(1-3) l(1) _ _ _ on_session_fields(6)]) (use l p in \<open>simp_all add: leaseKey_def\<close>)
    moreover have "requests_ok ?m'" using ok(4) l(1) by (auto simp: requests_ok_def Let_def nth_list_update)
    moreover have "grants_ok (w\<lparr>mwManager := ?m'\<rparr>)" using ok(5) by (simp add: grants_ok_def)
    ultimately show ?thesis using p(2) by (simp add: media_inv_def)
  qed
qed

lemma activateSession_ok:
  assumes "media_inv w" and "p < length (mgAllSessions (mwManager w))"
  shows "media_inv (w\<lparr>mwManager := snd (activateSession now p (mwManager w))\<rparr>)"
proof -
  let ?m = "mwManager w" let ?m' = "on_session p (\<lambda>s. s\<lparr>msActive := True\<rparr>) ?m"
  have ok: "tables_ok ?m" "scopes_ok ?m" "leases_ok ?m" "requests_ok ?m" "grants_ok w" using assms(1) by (simp_all add: media_inv_def)
  have "session_ok ?m p (mgAllSessions ?m ! p)" using ok(1) assms(2) by (simp add: tables_ok_def)
  then have "tables_ok ?m' \<and> scopes_ok ?m' \<and> leases_ok ?m'"
    by (intro session_update_ok [OF ok(1-3) assms(2) _ _ _ on_session_fields(6)]) (simp_all add: session_ok_def)
  moreover have "requests_ok ?m'" using ok(4) assms(2) by (auto simp: requests_ok_def Let_def nth_list_update)
  moreover have "grants_ok (w\<lparr>mwManager := ?m'\<rparr>)" using ok(5) by (simp add: grants_ok_def)
  ultimately show ?thesis using assms(1) by (simp add: media_inv_def activateSession_def)
qed

lemma closeSession_inv:
  assumes "media_inv w"
  shows "media_inv (w\<lparr>mwManager := closeSession now sid expiredOnly (mwManager w)\<rparr>)"
proof -
  let ?m = "mwManager w"
  have ok: "tables_ok ?m" "scopes_ok ?m" "leases_ok ?m" "requests_ok ?m" "grants_ok w" using assms by (simp_all add: media_inv_def)
  show ?thesis
  proof (rule closeSession_ok [OF ok(1), of now sid expiredOnly])
    fix p assume p: "mgSessions ?m sid = Some p" "closeSession now sid expiredOnly ?m = closes p ?m"
    note l = tables_okD [OF ok(1) p(1)]
    have "msLease (mgAllSessions ?m ! p) = Some q \<Longrightarrow> q < length (mgAllScopes ?m)" for q
      using ok(3) l(1) by (auto simp: leases_ok_def list_all_length lease_ok_def split: option.splits)
    then show ?thesis
      using closes_tables [OF ok(1) l(1)] closes_scopes_ok [OF ok(2) l(1,3)] closes_leases_ok [OF ok(3)]
        closes_requests_ok [OF ok(4) l(1)] closes_grants_ok [OF ok(5)] p(2)
      by (simp add: media_inv_def)
  qed (use assms in simp)
qed

text \<open>The other changes of scopes: a flag, the end of a lease, a new deadline.\<close>

lemma scope_id_update: "scope_id s = scope_id (xs ! q) \<Longrightarrow> map scope_id (xs[q := s]) = map scope_id xs"
  by (cases "q < length xs") (simp_all add: map_update_same list_update_beyond)

lemma scope_keep_ok:
  assumes ok: "scopes_ok m" "leases_ok m"
    and m': "mgAllSessions m' = mgAllSessions m" "mgAllScopes m' = (mgAllScopes m)[q := s]" "mgLeases m' = mgLeases m"
    and s: "scope_id s = scope_id (mgAllScopes m ! q)" "lsRefs s = lsRefs (mgAllScopes m ! q)"
      "lsCancelled s = lsCancelled (mgAllScopes m ! q)"
  shows "scopes_ok m' \<and> leases_ok m'"
proof
  have "scope_ok m q' (mgAllScopes m ! q') \<Longrightarrow> scope_ok m' q' (mgAllScopes m' ! q')" if "q' < length (mgAllScopes m)" for q'
    using m' s that by (cases "q' = q") (simp_all add: scope_ok_def holders_def scope_id_def)
  moreover have "q' < length (mgAllScopes m') \<and> lsKey (mgAllScopes m' ! q') = k \<and> \<not> lsCancelled (mgAllScopes m' ! q')"
    if "mgLeases m' k = Some q'" for k q'
    using scopes_okD(1) [OF ok(1), of k q'] that m' s by (cases "q' = q") (simp_all add: scope_id_def)
  ultimately show "scopes_ok m'" using ok(1) m'(2) by (simp add: scopes_ok_def)
  show "leases_ok m'"
    using ok(2) m'(1,2) lease_ok_keeps [OF scope_id_update [OF s(1)]] by (simp add: leases_ok_def list_all_length)
qed

lemma endLease_inv:
  assumes "media_inv w" and "q < length (mgAllScopes (mwManager w))" and "endLease now q force (mwManager w) = Some m'"
  shows "media_inv (w\<lparr>mwManager := m'\<rparr>)"
proof -
  let ?m = "mwManager w" let ?s = "mgAllScopes ?m ! q"
  have ok: "tables_ok ?m" "scopes_ok ?m" "leases_ok ?m" "requests_ok ?m" "grants_ok w" using assms(1) by (simp_all add: media_inv_def)
  have key: "mgLeases ?m (lsKey ?s) = Some q"
    and m': "m' = (on_scope q (\<lambda>s. s\<lparr>lsCancelled := True\<rparr>) ?m)\<lparr>mgLeases := (mgLeases ?m)(lsKey ?s := None)\<rparr>"
    using assms(3) by (auto simp: endLease_def Let_def split: if_splits)
  note old = scopes_okD [OF ok(2)]
  have "scope_ok m' q' (mgAllScopes m' ! q')" if "q' < length (mgAllScopes ?m)" for q'
    using old(2-4) [OF that] old(1) [of "lsKey ?s" q] key m' that assms(2)
    by (auto simp: scope_ok_def holders_def nth_list_update)
  moreover have "q' < length (mgAllScopes m') \<and> lsKey (mgAllScopes m' ! q') = k \<and> \<not> lsCancelled (mgAllScopes m' ! q')"
    if "mgLeases m' k = Some q'" for k q'
    using that old(1) [of k q'] m' by (cases "q' = q") (auto split: if_splits)
  ultimately have "scopes_ok m'" using m' by (simp add: scopes_ok_def)
  moreover have "leases_ok m'"
    using ok(3) m' lease_ok_keeps [of "mgAllScopes m'" "mgAllScopes ?m"] scope_ids_update [of "\<lambda>s. s\<lparr>lsCancelled := True\<rparr>" "mgAllScopes ?m" q]
    by (simp add: leases_ok_def list_all_length)
  moreover have "granted gs (?s\<lparr>lsCancelled := True\<rparr>) = granted gs ?s" for gs by (rule granted_cong) simp_all
  then have "grants_ok (w\<lparr>mwManager := m'\<rparr>)" using ok(5) m' by (simp add: grants_ok_def granted_update)
  moreover have "tables_ok m'" "requests_ok m'" using ok(1,4) m' by (simp_all add: tables_ok_def session_ok_def requests_ok_def)
  ultimately show ?thesis by (simp add: media_inv_def)
qed

lemma checked_age: "checkMediaAuthorization own authority connected nonce answer = Inr age \<Longrightarrow> 0 \<le> age \<and> age \<le> MediaAuthorizationMaxAge"
  by (auto simp: checkMediaAuthorization_def MediaAuthorizationMaxAge_def second_def split: option.splits if_splits)

lemma applyLease_inv:
  assumes "media_inv w" and "0 < age" and "age \<le> MediaAuthorizationMaxAge" and "ckMono started \<le> ckMono (mwClock w)"
    and "s = mgAllScopes (mwManager w) ! q"
  shows "media_inv (w\<lparr>mwManager := applyLease now q (clock_add started age) (mwManager w),
      mwGrants := mwGrants w @ [\<lparr>gtAuthority = lsAuthority s, gtDevice = lsDevice s, gtStarted = started, gtAge = age\<rparr>]\<rparr>)"
proof -
  let ?m = "mwManager w" let ?m' = "applyLease now q (clock_add started age) ?m"
  let ?g = "\<lparr>gtAuthority = lsAuthority s, gtDevice = lsDevice s, gtStarted = started, gtAge = age\<rparr>"
  have ok: "tables_ok ?m" "scopes_ok ?m" "leases_ok ?m" "requests_ok ?m" "grants_ok w" using assms(1) by (simp_all add: media_inv_def)
  have more: "granted gs t \<Longrightarrow> granted (gs @ [g]) t" for gs g t by (auto simp: granted_def split: option.splits)
  have old: "list_all (granted (mwGrants w @ [?g])) (mgAllScopes ?m)"
    using ok(5) more by (simp add: grants_ok_def list_all_length)
  have "?m' = ?m \<or> ?m' = on_scope q (\<lambda>s. s\<lparr>lsDeadline := Some (clock_add started age)\<rparr>) ?m"
    by (simp add: applyLease_def Let_def)
  moreover have "scopes_ok (on_scope q (\<lambda>s. s\<lparr>lsDeadline := d\<rparr>) ?m) \<and> leases_ok (on_scope q (\<lambda>s. s\<lparr>lsDeadline := d\<rparr>) ?m)" for d
    by (rule scope_keep_ok [OF ok(2,3) on_scope_fields(4,6)]) simp_all
  moreover have "list_all (granted (mwGrants w @ [?g]))
      (mgAllScopes (on_scope q (\<lambda>s. s\<lparr>lsDeadline := Some (clock_add started age)\<rparr>) ?m))"
    using old by (simp add: granted_update granted_def assms(5))
  ultimately have "scopes_ok ?m' \<and> leases_ok ?m' \<and> list_all (granted (mwGrants w @ [?g])) (mgAllScopes ?m')"
    using ok(2,3) old by metis
  moreover have "tables_ok ?m'" "requests_ok ?m'"
    using ok(1,4) by (simp_all add: applyLease_def Let_def tables_ok_def session_ok_def requests_ok_def)
  ultimately show ?thesis using ok(5) assms(2-4) by (simp add: media_inv_def grants_ok_def grant_ok_def)
qed

lemma flags_inv:
  assumes "media_inv w"
  shows "media_inv (w\<lparr>mwManager := on_scope q (\<lambda>s. s\<lparr>lsUsed := used, lsReady := ready\<rparr>) (mwManager w)\<rparr>)"
proof -
  let ?m = "mwManager w" let ?m' = "on_scope q (\<lambda>s. s\<lparr>lsUsed := used, lsReady := ready\<rparr>) ?m"
  have ok: "tables_ok ?m" "scopes_ok ?m" "leases_ok ?m" "requests_ok ?m" "grants_ok w" using assms(1) by (simp_all add: media_inv_def)
  have "scopes_ok ?m' \<and> leases_ok ?m'"
    by (rule scope_keep_ok [OF ok(2,3) on_scope_fields(4,6)]) simp_all
  moreover have "granted gs ((mgAllScopes ?m ! q)\<lparr>lsUsed := used, lsReady := ready\<rparr>) = granted gs (mgAllScopes ?m ! q)" for gs
    by (rule granted_cong) simp_all
  then have "grants_ok (w\<lparr>mwManager := ?m'\<rparr>)" using ok(5) by (simp add: grants_ok_def granted_update)
  moreover have "tables_ok ?m'" "requests_ok ?m'" using ok(1,4) by (simp_all add: tables_ok_def session_ok_def requests_ok_def)
  ultimately show ?thesis by (simp add: media_inv_def)
qed

section \<open>A new session\<close>

definition new_session :: "string \<Rightarrow> media_authorization \<Rightarrow> nat option \<Rightarrow> media_session" where
  "new_session sid a lease = \<lparr>msID = sid, msAuth = a, msActive = False, msClosed = False, msCancelled = False,
     msLease = lease, msRequests = (\<lambda>_. None)\<rparr>"

definition add_session :: "media_session \<Rightarrow> media_manager \<Rightarrow> media_manager" where
  "add_session s m = m\<lparr>mgSessions := (mgSessions m)(msID s \<mapsto> length (mgAllSessions m)), mgAllSessions := mgAllSessions m @ [s]\<rparr>"

lemma Prepare_cases:
  obtains "snd (Prepare now sid a m) = m"
  | lease m' where "leaseScope a m = (lease, m')" "snd (Prepare now sid a m) = add_session (new_session sid a lease) m'"
proof (cases "snd (Prepare now sid a m) = m")
  case False
  then have "snd (Prepare now sid a m)
      = (case leaseScope a m of (lease, m') \<Rightarrow> add_session (new_session sid a lease) m')"
    by (auto simp: Prepare_def new_session_def add_session_def split: if_splits prod.splits)
  then show ?thesis by (cases "leaseScope a m") (simp add: that(2))
qed (rule that(1))

lemma add_session_tables:
  assumes "tables_ok m" and "msID s \<notin> msID ` set (mgAllSessions m)" and "\<not> msClosed s" and "\<not> msCancelled s"
  shows "tables_ok (add_session s m)"
proof -
  let ?m = "add_session s m" let ?n = "length (mgAllSessions m)"
  have "session_ok ?m p (mgAllSessions ?m ! p)" if "p < Suc ?n" for p
  proof (cases "p = ?n")
    case True
    then show ?thesis using assms(3,4) by (simp add: session_ok_def add_session_def)
  next
    case False
    then have p: "p < ?n" using that by simp
    then have "msID (mgAllSessions m ! p) \<noteq> msID s" using assms(2) by (metis image_eqI nth_mem)
    then show ?thesis using assms(1) p by (simp add: tables_ok_def session_ok_def add_session_def nth_append)
  qed
  moreover have "p < Suc ?n \<and> msID (mgAllSessions ?m ! p) = sid" if "mgSessions ?m sid = Some p" for sid p
    using that tables_okD(1,2) [OF assms(1), of sid p] by (auto simp: add_session_def nth_append split: if_splits)
  moreover have "distinct (map msID (mgAllSessions ?m))" using assms(1,2) by (simp add: tables_ok_def add_session_def)
  ultimately show ?thesis unfolding tables_ok_def by (simp add: add_session_def)
qed

lemma holders_add: "holders (add_session s m) q = holders m q + (if \<not> msClosed s \<and> msLease s = Some q then 1 else 0)"
  by (simp add: holders_def add_session_def)

lemma no_holders:
  assumes "leases_ok m" and "length (mgAllScopes m) \<le> q"
  shows "holders m q = 0"
  using assms by (fastforce simp: holders_def leases_ok_def list_all_iff lease_ok_def filter_empty_conv)

lemma lease_ok_mono: "lease_ok scopes s \<Longrightarrow> lease_ok (scopes @ added) s"
  by (auto simp: lease_ok_def nth_append split: option.splits)

lemma leaseScope_ok:
  fixes sid :: string
  assumes ok: "scopes_ok m" "leases_ok m" "list_all (granted gs) (mgAllScopes m)" and l: "leaseScope a m = (lease, m')"
  defines "m'' \<equiv> add_session (new_session sid a lease) m'"
  shows "scopes_ok m'' \<and> leases_ok m'' \<and> list_all (granted gs) (mgAllScopes m'')
    \<and> mgAllSessions m' = mgAllSessions m \<and> mgSessions m' = mgSessions m \<and> mgAllRequests m' = mgAllRequests m"
proof (cases "maAuthority a = []")
  case True
  then have "lease = None" "m' = m" using l by (simp_all add: leaseScope_def)
  moreover have "scopes_ok (add_session (new_session sid a None) m)"
    using ok(1) by (simp add: scopes_ok_def scope_ok_def holders_add new_session_def) (simp add: add_session_def)
  ultimately show ?thesis using ok True unfolding m''_def
    by (simp add: leases_ok_def add_session_def new_session_def lease_ok_def)
next
  case hosted: False
  show ?thesis
  proof (cases "mgLeases m (leaseKey a)")
    case (Some q)
    let ?s = "(mgAllScopes m ! q)\<lparr>lsRefs := lsRefs (mgAllScopes m ! q) + 1\<rparr>"
    have m': "lease = Some q" "m' = on_scope q (\<lambda>s. s\<lparr>lsRefs := lsRefs s + 1\<rparr>) m"
      using l hosted Some by (simp_all add: leaseScope_def)
    have q: "q < length (mgAllScopes m)" "lsKey (mgAllScopes m ! q) = leaseKey a" "\<not> lsCancelled (mgAllScopes m ! q)"
      using scopes_okD(1) [OF ok(1) Some] by simp_all
    have held: "holders m'' q' = holders m q' + (if q' = q then 1 else 0)" for q'
      using m' by (auto simp: m''_def holders_add new_session_def) (simp_all add: holders_def)
    have "scope_ok m'' q' (mgAllScopes m'' ! q')" if "q' < length (mgAllScopes m)" for q'
      using scopes_okD(2-4) [OF ok(1) that] held [of q'] m' q(1,3)
      by (cases "q' = q") (simp_all add: scope_ok_def m''_def add_session_def)
    moreover have "q' < length (mgAllScopes m'') \<and> lsKey (mgAllScopes m'' ! q') = k \<and> \<not> lsCancelled (mgAllScopes m'' ! q')"
      if "mgLeases m'' k = Some q'" for k q'
      using scopes_okD(1) [OF ok(1), of k q'] that m' by (cases "q' = q") (simp_all add: m''_def add_session_def)
    ultimately have scopes: "scopes_ok m''" using m' by (simp add: scopes_ok_def m''_def add_session_def)
    have "map scope_id (mgAllScopes m'') = map scope_id (mgAllScopes m)"
      using m' by (simp add: m''_def add_session_def scope_id_update)
    note keep = lease_ok_keeps [OF this]
    have "lease_ok (mgAllScopes m) (new_session sid a (Some q))" using q hosted by (simp add: lease_ok_def new_session_def)
    moreover have "mgAllSessions m'' = mgAllSessions m @ [new_session sid a (Some q)]"
      using m' by (simp add: m''_def add_session_def)
    ultimately have "leases_ok m''"
      using ok(2) keep(2) unfolding leases_ok_def keep(1) [abs_def] by simp
    moreover have "granted gs ?s = granted gs (mgAllScopes m ! q)" by (rule granted_cong) simp_all
    then have "list_all (granted gs) (mgAllScopes m'')"
      using ok(3) m' by (simp add: m''_def add_session_def granted_update)
    ultimately show ?thesis using m' scopes by simp
  next
    case None
    let ?q = "length (mgAllScopes m)"
    let ?s = "\<lparr>lsKey = leaseKey a, lsAuthority = maAuthority a, lsDevice = maDeviceID a, lsCancelled = False,
      lsReady = False, lsDeadline = None, lsUsed = False, lsRefs = 1\<rparr>"
    have m': "lease = Some ?q" "m' = m\<lparr>mgLeases := (mgLeases m)(leaseKey a \<mapsto> ?q), mgAllScopes := mgAllScopes m @ [?s]\<rparr>"
      using l hosted None by (auto simp: leaseScope_def Let_def)
    have held: "holders m'' q' = holders m q' + (if q' = ?q then 1 else 0)" for q'
      using m' by (auto simp: m''_def holders_add new_session_def) (simp_all add: holders_def)
    have none: "holders m ?q = 0" by (rule no_holders [OF ok(2)]) simp
    have "scope_ok m'' q' (mgAllScopes m'' ! q')" if "q' < Suc ?q" for q'
    proof (cases "q' = ?q")
      case True
      then show ?thesis using held [of ?q] none m' by (simp add: scope_ok_def m''_def add_session_def)
    next
      case False
      then have "q' < ?q" using that by simp
      then show ?thesis
        using scopes_okD(2-4) [OF ok(1), of q'] held [of q'] m' None
        by (auto simp: scope_ok_def m''_def add_session_def nth_append)
    qed
    moreover have "q' < length (mgAllScopes m'') \<and> lsKey (mgAllScopes m'' ! q') = k \<and> \<not> lsCancelled (mgAllScopes m'' ! q')"
      if "mgLeases m'' k = Some q'" for k q'
      using scopes_okD(1) [OF ok(1), of k q'] that m' by (auto simp: m''_def add_session_def nth_append split: if_splits)
    ultimately have "scopes_ok m''" using m' by (simp add: scopes_ok_def m''_def add_session_def)
    moreover have "key_ok ?s" by (auto simp: key_ok_def leaseKey_def)
    then have "leases_ok m''"
      using ok(2) m' hosted lease_ok_mono [of "mgAllScopes m" _ "[?s]"]
      by (simp add: leases_ok_def m''_def add_session_def list_all_iff) (simp add: lease_ok_def new_session_def)
    moreover have "list_all (granted gs) (mgAllScopes m'')"
      using ok(3) m' by (simp add: m''_def add_session_def granted_def)
    ultimately show ?thesis using m' by simp
  qed
qed

lemma Prepare_inv:
  assumes "media_inv w" and "sid \<notin> msID ` set (mgAllSessions (mwManager w))"
  shows "media_inv (w\<lparr>mwManager := snd (Prepare now sid a (mwManager w))\<rparr>)"
proof (rule Prepare_cases [of now sid a "mwManager w"])
  let ?m = "mwManager w"
  fix lease m' assume l: "leaseScope a ?m = (lease, m')" "snd (Prepare now sid a ?m) = add_session (new_session sid a lease) m'"
  let ?m'' = "add_session (new_session sid a lease) m'"
  have ok: "tables_ok ?m" "scopes_ok ?m" "leases_ok ?m" "requests_ok ?m" "grants_ok w" using assms(1) by (simp_all add: media_inv_def)
  then have gr: "list_all (granted (mwGrants w)) (mgAllScopes ?m)" by (simp add: grants_ok_def)
  note new = leaseScope_ok [OF ok(2,3) gr l(1), of sid]
  have "tables_ok m'" using ok(1) new by (simp add: tables_ok_def session_ok_def)
  then have "tables_ok ?m''" by (rule add_session_tables) (use assms(2) new in \<open>simp_all add: new_session_def\<close>)
  moreover have "grants_ok (w\<lparr>mwManager := ?m''\<rparr>)" using ok(5) new by (simp add: grants_ok_def)
  moreover have "requests_ok ?m''"
    using ok(4) new unfolding requests_ok_def Let_def
    by (auto simp: add_session_def new_session_def nth_append less_Suc_eq split: if_splits)
  ultimately show ?thesis using new l(2) by (simp add: media_inv_def)
qed (use assms in simp)

section \<open>Requests\<close>

lemma requests_okD:
  assumes "requests_ok m"
  shows "i < length (mgAllRequests m) \<Longrightarrow> mrSession (mgAllRequests m ! i) < length (mgAllSessions m)"
    and "i < length (mgAllRequests m) \<Longrightarrow> \<not> mrCancelled (mgAllRequests m ! i) \<Longrightarrow>
      msRequests (mgAllSessions m ! mrSession (mgAllRequests m ! i)) (mrID (mgAllRequests m ! i)) = Some i"
    and "p < length (mgAllSessions m) \<Longrightarrow> msRequests (mgAllSessions m ! p) rid = Some i \<Longrightarrow>
      i < length (mgAllRequests m) \<and> mrSession (mgAllRequests m ! i) = p \<and> mrID (mgAllRequests m ! i) = rid"
  using assms by (simp_all add: requests_ok_def Let_def)

text \<open>An entry that leaves the table of its session together with its cancellation.\<close>

definition drop_request :: "nat \<Rightarrow> media_manager \<Rightarrow> media_manager" where
  "drop_request i m =
     (let r = mgAllRequests m ! i in
      cancel_request i
        (if msRequests (mgAllSessions m ! mrSession r) (mrID r) = Some i
         then on_session (mrSession r) (\<lambda>s. s\<lparr>msRequests := (msRequests s)(mrID r := None)\<rparr>) m else m))"

lemma drop_request_ok:
  assumes "requests_ok m" and "i < length (mgAllRequests m)"
  shows "requests_ok (drop_request i m)"
proof -
  let ?r = "mgAllRequests m ! i" let ?m = "drop_request i m"
  note old = requests_okD [OF assms(1)]
  have len: "length (mgAllSessions ?m) = length (mgAllSessions m)" "length (mgAllRequests ?m) = length (mgAllRequests m)"
    by (simp_all add: drop_request_def Let_def)
  have req: "mrSession (mgAllRequests ?m ! j) = mrSession (mgAllRequests m ! j)" "mrID (mgAllRequests ?m ! j) = mrID (mgAllRequests m ! j)"
      "mrCancelled (mgAllRequests ?m ! j) = (mrCancelled (mgAllRequests m ! j) \<or> j = i)" if "j < length (mgAllRequests m)" for j
    using that assms(2) by (auto simp: drop_request_def Let_def nth_list_update)
  have ses: "msRequests (mgAllSessions ?m ! p) rid = (if msRequests (mgAllSessions m ! p) rid = Some i then None
      else msRequests (mgAllSessions m ! p) rid)" if "p < length (mgAllSessions m)" for p rid
  proof -
    have all: "mgAllSessions ?m = (if msRequests (mgAllSessions m ! mrSession ?r) (mrID ?r) = Some i
        then (mgAllSessions m)[mrSession ?r := (mgAllSessions m ! mrSession ?r)
          \<lparr>msRequests := (msRequests (mgAllSessions m ! mrSession ?r))(mrID ?r := None)\<rparr>] else mgAllSessions m)"
      by (simp add: drop_request_def Let_def)
    show ?thesis
    proof (cases "p = mrSession ?r \<and> rid = mrID ?r")
      case True
      then show ?thesis using that unfolding all by simp
    next
      case False
      then have "msRequests (mgAllSessions m ! p) rid \<noteq> Some i" using old(3) [OF that, of rid i] by blast
      moreover have "msRequests (mgAllSessions ?m ! p) rid = msRequests (mgAllSessions m ! p) rid"
        using False that unfolding all by (cases "p = mrSession ?r") simp_all
      ultimately show ?thesis by simp
    qed
  qed
  show ?thesis
    unfolding requests_ok_def Let_def
  proof (intro conjI allI impI)
    fix j assume "j < length (mgAllRequests ?m)"
    then have j: "j < length (mgAllRequests m)" using len by simp
    show "mrSession (mgAllRequests ?m ! j) < length (mgAllSessions ?m)" using old(1) [OF j] req(1) [OF j] len by simp
    assume "\<not> mrCancelled (mgAllRequests ?m ! j)"
    then show "msRequests (mgAllSessions ?m ! mrSession (mgAllRequests ?m ! j)) (mrID (mgAllRequests ?m ! j)) = Some j"
      using old(2) [OF j] old(1) [OF j] req [OF j] ses by simp
  next
    fix p rid j
    assume "p < length (mgAllSessions ?m)" "msRequests (mgAllSessions ?m ! p) rid = Some j"
    then have "p < length (mgAllSessions m)" "msRequests (mgAllSessions m ! p) rid = Some j"
      using ses len by (auto split: if_splits)
    from old(3) [OF this] show "j < length (mgAllRequests ?m)" "mrSession (mgAllRequests ?m ! j) = p" "mrID (mgAllRequests ?m ! j) = rid"
      using req len by simp_all
  qed
qed

text \<open>A change of the table of requests of a session that is open, or that only loses entries.\<close>

lemma request_tables_ok:
  assumes "media_inv w" and "requests_ok m'"
    and "mgSessions m' = mgSessions (mwManager w)" "mgLeases m' = mgLeases (mwManager w)" "mgAllScopes m' = mgAllScopes (mwManager w)"
    and "mgAllSessions m' = (mgAllSessions (mwManager w))[p := (mgAllSessions (mwManager w) ! p)\<lparr>msRequests := f\<rparr>]"
    and "p < length (mgAllSessions (mwManager w))" and "msClosed (mgAllSessions (mwManager w) ! p) \<Longrightarrow> f = (\<lambda>_. None)"
  shows "media_inv (w\<lparr>mwManager := m'\<rparr>)"
proof -
  have ok: "tables_ok (mwManager w)" "scopes_ok (mwManager w)" "leases_ok (mwManager w)" "grants_ok w"
    using assms(1) by (simp_all add: media_inv_def)
  have "tables_ok m' \<and> scopes_ok m' \<and> leases_ok m'"
    by (rule session_update_ok [OF ok(1-3) assms(7,3-6)]) (use assms(8) in simp_all)
  moreover have "grants_ok (w\<lparr>mwManager := m'\<rparr>)" using ok(4) assms(5) by (simp add: grants_ok_def)
  ultimately show ?thesis using assms(2) by (simp add: media_inv_def)
qed

lemma drop_request_inv:
  assumes "media_inv w" and "i < length (mgAllRequests (mwManager w))"
  shows "media_inv (w\<lparr>mwManager := drop_request i (mwManager w)\<rparr>)"
proof -
  let ?m = "mwManager w" let ?r = "mgAllRequests ?m ! i" let ?s = "mgAllSessions ?m ! mrSession ?r"
  have ok: "tables_ok ?m" "requests_ok ?m" using assms(1) by (simp_all add: media_inv_def)
  have p: "mrSession ?r < length (mgAllSessions ?m)" using requests_okD(1) [OF ok(2) assms(2)] .
  have "session_ok ?m (mrSession ?r) ?s" using ok(1) p by (simp add: tables_ok_def)
  then have closed: "msClosed ?s \<Longrightarrow> msRequests ?s = (\<lambda>_. None)" by (simp add: session_ok_def)
  let ?f = "if msRequests ?s (mrID ?r) = Some i then (msRequests ?s)(mrID ?r := None) else msRequests ?s"
  show ?thesis
    by (rule request_tables_ok [OF assms(1) drop_request_ok [OF ok(2) assms(2)], of "mrSession ?r" ?f])
      (use p closed in \<open>auto simp: drop_request_def Let_def\<close>)
qed

lemma registerMediaRequest_inv:
  assumes "media_inv w" and "p < length (mgAllSessions (mwManager w))"
  shows "media_inv (w\<lparr>mwManager := snd (registerMediaRequest now p rid (mwManager w))\<rparr>)"
proof (cases "authorized (mwManager w) p now")
  case False
  then show ?thesis using assms(1) by (simp add: registerMediaRequest_def)
next
  case True
  let ?m = "mwManager w" let ?s = "mgAllSessions ?m ! p" let ?n = "length (mgAllRequests ?m)"
  let ?m' = "snd (registerMediaRequest now p rid ?m)"
  have ok: "tables_ok ?m" "requests_ok ?m" using assms(1) by (simp_all add: media_inv_def)
  note old = requests_okD [OF ok(2)]
  have open_session: "\<not> msClosed ?s" using True by (simp add: authorized_def authorizedLocked_def)
  have len: "length (mgAllSessions ?m') = length (mgAllSessions ?m)" "length (mgAllRequests ?m') = Suc ?n"
    using True by (simp_all add: registerMediaRequest_def Let_def split: option.split)
  have req: "mrSession (mgAllRequests ?m' ! j) = mrSession (mgAllRequests ?m ! j)" "mrID (mgAllRequests ?m' ! j) = mrID (mgAllRequests ?m ! j)"
      "mrCancelled (mgAllRequests ?m' ! j) = (mrCancelled (mgAllRequests ?m ! j) \<or> msRequests ?s rid = Some j)" if "j < ?n" for j
    using that True by (auto simp: registerMediaRequest_def Let_def nth_append nth_update split: option.split)
  have last: "mgAllRequests ?m' ! ?n = \<lparr>mrSession = p, mrID = rid, mrCancelled = False\<rparr>"
    using True by (simp add: registerMediaRequest_def Let_def nth_append split: option.split)
  have ses: "mgAllSessions ?m' = (mgAllSessions ?m)[p := ?s\<lparr>msRequests := (msRequests ?s)(rid \<mapsto> ?n)\<rparr>]"
    using True by (simp add: registerMediaRequest_def Let_def split: option.split)
  have "requests_ok ?m'"
    unfolding requests_ok_def Let_def
  proof (intro conjI allI impI)
    fix j assume j: "j < length (mgAllRequests ?m')"
    show "mrSession (mgAllRequests ?m' ! j) < length (mgAllSessions ?m')"
      using j len req old(1) [of j] last assms(2) by (cases "j = ?n") auto
    assume live: "\<not> mrCancelled (mgAllRequests ?m' ! j)"
    show "msRequests (mgAllSessions ?m' ! mrSession (mgAllRequests ?m' ! j)) (mrID (mgAllRequests ?m' ! j)) = Some j"
    proof (cases "j = ?n")
      case True
      then show ?thesis using last ses assms(2) by simp
    next
      case False
      then have j: "j < ?n" using j len by simp
      then show ?thesis using live req [OF j] old(1,2) [OF j] ses assms(2)
        by (cases "mrSession (mgAllRequests ?m ! j) = p") auto
    qed
  next
    fix p' rid' j
    assume "p' < length (mgAllSessions ?m')" and j: "msRequests (mgAllSessions ?m' ! p') rid' = Some j"
    then have p': "p' < length (mgAllSessions ?m)" using len by simp
    have "j = ?n \<and> p' = p \<and> rid' = rid \<or> msRequests (mgAllSessions ?m ! p') rid' = Some j"
      using j ses assms(2) by (cases "p' = p") (auto split: if_splits)
    then show "j < length (mgAllRequests ?m')" "mrSession (mgAllRequests ?m' ! j) = p'" "mrID (mgAllRequests ?m' ! j) = rid'"
      using old(3) [OF p', of rid' j] len req [of j] last by auto
  qed
  moreover have "mgSessions ?m' = mgSessions ?m" "mgLeases ?m' = mgLeases ?m" "mgAllScopes ?m' = mgAllScopes ?m"
    using True by (simp_all add: registerMediaRequest_def Let_def split: option.split)
  ultimately show ?thesis using request_tables_ok [OF assms(1) _ _ _ _ ses assms(2)] open_session by simp
qed

lemma cancelMediaRequest_drops:
  assumes "requests_ok m" and "p < length (mgAllSessions m)"
  shows "snd (cancelMediaRequest p rid m) = m \<or> (\<exists>i < length (mgAllRequests m). snd (cancelMediaRequest p rid m) = drop_request i m)"
proof (cases "msRequests (mgAllSessions m ! p) (trim_space rid)")
  case (Some i)
  then show ?thesis using requests_okD(3) [OF assms Some]
    by (auto simp: cancelMediaRequest_def drop_request_def Let_def intro!: exI [of _ i])
qed (simp add: cancelMediaRequest_def Let_def)

lemma unregisterMediaRequest_drops: "unregisterMediaRequest i m = drop_request i m"
  by (simp add: unregisterMediaRequest_def drop_request_def Let_def)

section \<open>Reachable states\<close>

lemma media_step_inv: "media_step w w' \<Longrightarrow> media_inv w \<Longrightarrow> media_inv w'"
proof (induction rule: media_step.induct)
  case (tick w c)
  then show ?case by (fastforce simp: media_inv_def grants_ok_def grant_ok_def list_all_iff)
next
  case (renew w q own connected nonce answer age started)
  then show ?case using checked_age by (intro applyLease_inv) auto
next
  case (cancel p w rid)
  then have "requests_ok (mwManager w)" by (simp add: media_inv_def)
  with cancel cancelMediaRequest_drops [of "mwManager w" p rid] drop_request_inv show ?case by auto
next
  case (shut_down w)
  then show ?case
    by (simp add: media_inv_def tables_ok_def session_ok_def scopes_ok_def scope_ok_def holders_def leases_ok_def
        grants_ok_def requests_ok_def)
next
  case (unregister i w)
  then show ?case unfolding unregisterMediaRequest_drops by (intro drop_request_inv)
qed (blast intro: Prepare_inv Reauthorize_ok activateSession_ok closeSession_inv endLease_inv flags_inv
      registerMediaRequest_inv)+

lemma media_init_inv: "media_init w \<Longrightarrow> media_inv w"
  by (simp add: media_init_def media_inv_def NewManager_def tables_ok_def scopes_ok_def leases_ok_def grants_ok_def
      requests_ok_def)

interpretation media: machine media_init media_step media_inv
  by unfold_locales (blast intro: media_init_inv media_step_inv)+

section \<open>What never comes back\<close>

text \<open>A later manager: closed sessions and cancelled scopes stay so, a session keeps its lease and its device.\<close>

definition later :: "media_manager \<Rightarrow> media_manager \<Rightarrow> bool" where
  "later m m' \<longleftrightarrow> length (mgAllSessions m) \<le> length (mgAllSessions m') \<and> length (mgAllScopes m) \<le> length (mgAllScopes m')
     \<and> (\<forall>p < length (mgAllSessions m). let s = mgAllSessions m ! p; s' = mgAllSessions m' ! p in
          (msClosed s \<longrightarrow> msClosed s') \<and> msLease s' = msLease s \<and> maDeviceID (msAuth s') = maDeviceID (msAuth s))
     \<and> (\<forall>q < length (mgAllScopes m). lsCancelled (mgAllScopes m ! q) \<longrightarrow> lsCancelled (mgAllScopes m' ! q))"

lemma later_refl [simp]: "later m m"
  by (simp add: later_def)

lemma later_trans: "later a b \<Longrightarrow> later b c \<Longrightarrow> later a c"
  by (auto simp: later_def Let_def)

lemma later_session:
  assumes "mgAllSessions m' = (mgAllSessions m)[p := s]" and "mgAllScopes m' = mgAllScopes m"
    and "p < length (mgAllSessions m) \<Longrightarrow> (msClosed (mgAllSessions m ! p) \<longrightarrow> msClosed s)
      \<and> msLease s = msLease (mgAllSessions m ! p) \<and> maDeviceID (msAuth s) = maDeviceID (msAuth (mgAllSessions m ! p))"
  shows "later m m'"
  using assms by (auto simp: later_def Let_def nth_update)

lemma later_scope:
  assumes "mgAllSessions m' = mgAllSessions m" and "mgAllScopes m' = (mgAllScopes m)[q := s]"
    and "lsCancelled (mgAllScopes m ! q) \<Longrightarrow> lsCancelled s"
  shows "later m m'"
  using assms by (auto simp: later_def Let_def nth_update)

lemma later_releaseScope: "later m (releaseScope q m)"
  by (auto simp: later_def releaseScope_def Let_def nth_update)

lemma later_closes: "later m (closes p m)"
proof -
  have "later m (case msLease (mgAllSessions m ! p) of None \<Rightarrow> m | Some q \<Rightarrow> releaseScope q m)"
    by (simp add: later_releaseScope split: option.split)
  then show ?thesis by (auto simp: later_def Let_def nth_update closes_scopes split: option.splits)
qed

lemma later_Prepare: "later m (snd (Prepare now sid a m))"
proof (rule Prepare_cases [of now sid a m])
  fix lease m' assume l: "leaseScope a m = (lease, m')" "snd (Prepare now sid a m) = add_session (new_session sid a lease) m'"
  have "later m m'"
    using l(1) by (auto simp: leaseScope_def Let_def later_def nth_update nth_append split: if_splits option.splits)
  moreover have "later m' (add_session s m')" for s by (simp add: later_def add_session_def nth_append)
  ultimately show ?thesis using l(2) later_trans by metis
qed simp

lemma media_step_later:
  assumes "media_step w w'" and "media_inv w"
  shows "later (mwManager w) (mwManager w')"
  using assms
proof (induction rule: media_step.induct)
  case (prepare sid w a)
  then show ?case by (simp add: later_Prepare)
next
  case (reauthorize w sid a)
  then show ?case
    by (auto simp: Reauthorize_def Let_def split: option.split intro!: later_session [OF on_session_fields(6)])
next
  case (activate p w)
  then show ?case by (auto simp: activateSession_def intro!: later_session [OF on_session_fields(6)])
next
  case (close_session w sid expiredOnly)
  then have "tables_ok (mwManager w)" by (simp add: media_inv_def)
  then show ?case by (rule closeSession_ok [of _ "mwClock w" sid expiredOnly]) (simp_all add: later_closes)
next
  case (end_lease q w force m)
  then show ?case by (auto simp: endLease_def Let_def later_def nth_update split: if_splits)
next
  case (renew w q own connected nonce answer age started)
  then show ?case by (auto simp: applyLease_def Let_def intro!: later_scope [OF on_scope_fields(4,6)])
next
  case (flags q w used ready)
  then show ?case by (auto intro!: later_scope [OF on_scope_fields(4,6)])
next
  case (register p w rid)
  then show ?case by (auto simp: registerMediaRequest_def Let_def later_def nth_update split: option.split)
next
  case (unregister i w)
  then show ?case by (auto simp: unregisterMediaRequest_def Let_def later_def nth_update)
next
  case (cancel p w rid)
  then show ?case by (auto simp: cancelMediaRequest_def Let_def later_def nth_update split: option.split)
next
  case (shut_down w)
  show ?case by (simp add: later_def)
qed simp

lemma media_steps_later: "media_step\<^sup>*\<^sup>* w w' \<Longrightarrow> media_inv w \<Longrightarrow> later (mwManager w) (mwManager w') \<and> media_inv w'"
  by (induction rule: rtranclp_induct) (auto intro: later_trans media_step_later media_step_inv)

text \<open>A deadline that the monotonic clock has passed is never replaced.\<close>

lemma deadline_final_step:
  assumes "media_step w w'" and "media_inv w" and "q < length (mgAllScopes (mwManager w))"
    and "lsDeadline (mgAllScopes (mwManager w) ! q) = Some d" and "ckMono d \<le> ckMono (mwClock w)"
  shows "lsDeadline (mgAllScopes (mwManager w') ! q) = Some d \<and> ckMono d \<le> ckMono (mwClock w')"
  using assms
proof (induction rule: media_step.induct)
  case (prepare sid w a)
  let ?m = "mwManager w"
  have "lsDeadline (mgAllScopes (snd (Prepare (mwClock w) sid a ?m)) ! q) = Some d"
  proof (rule Prepare_cases [of "mwClock w" sid a ?m])
    fix lease m' assume l: "leaseScope a ?m = (lease, m')"
      "snd (Prepare (mwClock w) sid a ?m) = add_session (new_session sid a lease) m'"
    have "lsDeadline (mgAllScopes m' ! q) = Some d"
      using l(1) prepare(3,4) by (auto simp: leaseScope_def Let_def nth_update nth_append split: if_splits option.splits)
    then show ?thesis using l(2) by (simp add: add_session_def)
  qed (use prepare(4) in simp)
  then show ?case using prepare(5) by simp
next
  case (reauthorize w sid a)
  then show ?case by (auto simp: Reauthorize_def Let_def split: option.split)
next
  case (activate p w)
  then show ?case by (simp add: activateSession_def)
next
  case (close_session w sid expiredOnly)
  then have "tables_ok (mwManager w)" by (simp add: media_inv_def)
  then show ?case
    by (rule closeSession_ok [of _ "mwClock w" sid expiredOnly])
      (use close_session in \<open>auto simp: closes_scopes releaseScope_def Let_def nth_update split: option.split\<close>)
next
  case (end_lease q' w force m)
  then show ?case by (auto simp: endLease_def Let_def nth_update split: if_splits)
next
  case (renew q' w own connected nonce answer age started)
  then show ?case by (auto simp: applyLease_def Let_def nth_update leaseDeadlineValid_def)
next
  case (flags q' w used ready)
  then show ?case by (auto simp: nth_update)
next
  case (register p w rid)
  then show ?case by (auto simp: registerMediaRequest_def Let_def split: option.split)
next
  case (unregister i w)
  then show ?case by (auto simp: unregisterMediaRequest_def Let_def)
next
  case (cancel p w rid)
  then show ?case by (auto simp: cancelMediaRequest_def Let_def split: option.split)
qed auto

end
