(* ===== verification/Media_Theorems.thy ===== *)
theory Media_Theorems
  imports Media_Machine
begin

text \<open>
  What the authorization of media sessions guarantees, in every interleaving of the manager's
  critical sections, clock changes and answers of the relay: media are served only while a token is valid and,
  for hosted sessions, under a recent permission of the relay; what was closed, denied or expired stays so;
  leases are counted exactly; and no request outlives its session.
\<close>

section \<open>Permissions\<close>

lemma parts_unique:
  fixes c :: char
  assumes "A @ [c] @ x @ [c] @ D = A' @ [c] @ x' @ [c] @ D'" and "c \<notin> set A" and "c \<notin> set x" and "c \<notin> set D"
  shows "A' = A \<and> D' = D"
proof -
  have "count_list (A' @ [c] @ x' @ [c] @ D') c = count_list (A @ [c] @ x @ [c] @ D) c" using assms(1) by simp
  also have "\<dots> = 2" using assms(2-4) by (simp add: count_list_0_iff)
  finally have "count_list A' c = 0" "count_list D' c = 0" by simp_all
  then have free: "c \<notin> set A'" "c \<notin> set D'" by (simp_all add: count_list_0_iff)
  have "split_on c (A' @ c # x' @ c # D') = split_on c (A @ c # x @ c # D)" using assms(1) by simp
  then have "A' = A" "split_on c (x' @ c # D') = split_on c (x @ c # D)"
    using assms(2) free by (simp_all add: split_on_append)
  moreover have "rev D' = rev D"
  proof -
    have "takeWhile (\<lambda>d. d \<noteq> c) (rev (A' @ [c] @ x' @ [c] @ D')) = takeWhile (\<lambda>d. d \<noteq> c) (rev (A @ [c] @ x @ [c] @ D))"
      using assms(1) by simp
    moreover have "takeWhile (\<lambda>d. d \<noteq> c) (rev (X @ [c] @ D)) = rev D" if "c \<notin> set D" for X D
      using that by (auto simp: takeWhile_tail takeWhile_eq_all_conv)
    ultimately show ?thesis using assms(4) free(2) by (metis append_assoc)
  qed
  ultimately show ?thesis by simp
qed

definition nul_free :: "media_authorization \<Rightarrow> bool" where
  "nul_free a \<longleftrightarrow> nul \<notin> set (maAuthority a) \<and> nul \<notin> set (maAgentID a) \<and> nul \<notin> set (maDeviceID a)"

text \<open>
  C13. Media are served only under a valid authority: a session that is authorized has a token that has not
  expired, and if it came over a relay, this relay was asked about this device at most a minute ago and
  allowed it for a time that neither the monotonic nor the wall clock has passed.
\<close>

theorem media_served_under_authority:
  assumes "reach media_init media_step w" and "p < length (mgAllSessions (mwManager w))"
    and "authorized (mwManager w) p (mwClock w)" and "a = msAuth (mgAllSessions (mwManager w) ! p)" and "nul_free a"
  shows "ckWall (mwClock w) < maExpiresAt a
    \<and> (maAuthority a = [] \<or>
       (\<exists>g\<in>set (mwGrants w). gtAuthority g = maAuthority a \<and> gtDevice g = maDeviceID a
          \<and> ckMono (gtStarted g) \<le> ckMono (mwClock w) \<and> ckMono (mwClock w) < ckMono (gtStarted g) + 60 * 10 ^ 9
          \<and> ckMono (mwClock w) < ckMono (gtStarted g) + gtAge g \<and> ckWall (mwClock w) < ckWall (gtStarted g) + gtAge g))"
proof -
  let ?m = "mwManager w" let ?s = "mgAllSessions ?m ! p"
  have "media_inv w" by (rule media.inv_reach [OF assms(1)])
  then have ok: "leases_ok ?m" "grants_ok w" by (simp_all add: media_inv_def)
  have auth: "ckWall (mwClock w) < maExpiresAt a"
    using assms(3,4) by (simp add: authorized_def authorizedLocked_def)
  show ?thesis
  proof (cases "maAuthority a = []")
    case hosted: False
    have "lease_ok (mgAllScopes ?m) ?s" using ok(1) assms(2) by (simp add: leases_ok_def list_all_length)
    then obtain q where q: "msLease ?s = Some q" "q < length (mgAllScopes ?m)" "lsKey (mgAllScopes ?m ! q) = leaseKey a"
      using hosted assms(4) by (auto simp: lease_ok_def split: option.splits)
    let ?q = "mgAllScopes ?m ! q"
    obtain d where d: "lsDeadline ?q = Some d" "leaseDeadlineValid d (mwClock w)"
      using assms(3) q(1) by (auto simp: authorized_def authorizedLocked_def split: option.splits)
    have "key_ok ?q" "granted (mwGrants w) ?q" using ok q(2) by (simp_all add: leases_ok_def grants_ok_def list_all_length)
    then obtain agent g where g: "leaseKey a = lsAuthority ?q @ [nul] @ agent @ [nul] @ lsDevice ?q" "g \<in> set (mwGrants w)"
        "gtAuthority g = lsAuthority ?q" "gtDevice g = lsDevice ?q" "d = clock_add (gtStarted g) (gtAge g)"
      using d(1) q(3) by (auto simp: key_ok_def granted_def list_ex_iff)
    have "lsAuthority ?q = maAuthority a \<and> lsDevice ?q = maDeviceID a"
      by (rule parts_unique [of _ nul "maAgentID a" _ _ agent]) (use g(1) assms(5) in \<open>simp_all add: leaseKey_def nul_free_def\<close>)
    moreover have "grant_ok (mwClock w) g" using ok(2) g(2) by (simp add: grants_ok_def list_all_iff)
    ultimately show ?thesis using auth d(2) g
      by (intro conjI disjI2 bexI [of _ g])
        (auto simp: grant_ok_def leaseDeadlineValid_def clock_add_def MediaAuthorizationMaxAge_def second_def)
  qed (use auth in simp)
qed

section \<open>Closed sessions\<close>


section \<open>Leases\<close>

text \<open>
  Leases are counted exactly: the count of a scope is the number of open sessions that use it, a scope
  that no session uses has been cancelled, so that its renewal ends, and the registry finds exactly
  the scopes that are not cancelled, each under its own key.
\<close>

theorem leases_are_counted:
  assumes "reach media_init media_step w" and "q < length (mgAllScopes (mwManager w))"
    and "scope = mgAllScopes (mwManager w) ! q"
  shows "lsRefs scope = int (length (filter (\<lambda>s. \<not> msClosed s \<and> msLease s = Some q) (mgAllSessions (mwManager w))))
    \<and> (lsRefs scope \<noteq> 0 \<or> lsCancelled scope)
    \<and> (mgLeases (mwManager w) (lsKey scope) = Some q) = (\<not> lsCancelled scope)"
proof -
  have "scopes_ok (mwManager w)" using media.inv_reach [OF assms(1)] by (simp add: media_inv_def)
  note s = scopes_okD [OF this]
  show ?thesis using s(2-4) [OF assms(2)] s(1) [of "lsKey scope" q] assms(3) by (auto simp: holders_def)
qed

section \<open>Revocation and denial\<close>

definition close_all :: "clock \<Rightarrow> string list \<Rightarrow> media_manager \<Rightarrow> media_manager" where
  "close_all now sids m = fold (\<lambda>sid. closeSession now sid False) sids m"

lemma close_all_steps: "media_step\<^sup>*\<^sup>* w (w\<lparr>mwManager := close_all (mwClock w) sids (mwManager w)\<rparr>)"
proof (induction sids arbitrary: w)
  case (Cons sid sids)
  let ?w = "w\<lparr>mwManager := closeSession (mwClock w) sid False (mwManager w)\<rparr>"
  have "media_step w ?w" by (rule media_step.close_session)
  with Cons.IH [of ?w] show ?case by (simp add: close_all_def converse_rtranclp_into_rtranclp)
qed (simp add: close_all_def)

lemma close_one:
  assumes "media_inv w" and "m = mwManager w" and "p < length (mgAllSessions m)"
  shows "length (mgAllSessions (closeSession now sid False m)) = length (mgAllSessions m)
    \<and> (msID (mgAllSessions m ! p) = sid \<longrightarrow> msClosed (mgAllSessions (closeSession now sid False m) ! p))
    \<and> (msID (mgAllSessions m ! p) \<noteq> sid \<longrightarrow> mgAllSessions (closeSession now sid False m) ! p = mgAllSessions m ! p)
    \<and> (\<forall>p < length (mgAllSessions m). msID (mgAllSessions (closeSession now sid False m) ! p) = msID (mgAllSessions m ! p))"
proof -
  have ok: "tables_ok m" using assms(1,2) by (simp add: media_inv_def)
  show ?thesis
  proof (cases "mgSessions m sid")
    case None
    have "session_ok m p (mgAllSessions m ! p)" using ok assms(3) by (simp add: tables_ok_def)
    with None show ?thesis by (auto simp: closeSession_def session_ok_def)
  next
    case (Some p')
    note l = tables_okD [OF ok Some]
    have "closeSession now sid False m = closes p' m" using closeSession_closes [OF Some l(1,2)] by simp
    then show ?thesis using l session_ids [OF ok assms(3) l(1)] assms(3) by (auto simp: nth_update)
  qed
qed

lemma close_all_sessions:
  assumes "media_inv w" and "p < length (mgAllSessions (mwManager w))"
  shows "(msID (mgAllSessions (mwManager w) ! p) \<in> set sids \<longrightarrow> msClosed (mgAllSessions (close_all now sids (mwManager w)) ! p))
    \<and> (msID (mgAllSessions (mwManager w) ! p) \<notin> set sids \<longrightarrow>
        mgAllSessions (close_all now sids (mwManager w)) ! p = mgAllSessions (mwManager w) ! p)
    \<and> (msClosed (mgAllSessions (mwManager w) ! p) \<longrightarrow> msClosed (mgAllSessions (close_all now sids (mwManager w)) ! p))"
  using assms
proof (induction sids arbitrary: w)
  case (Cons sid sids)
  let ?m = "closeSession now sid False (mwManager w)" let ?w = "w\<lparr>mwManager := ?m\<rparr>"
  note one = close_one [OF Cons.prems(1) refl Cons.prems(2), of now sid]
  have inv: "media_inv ?w" by (rule closeSession_inv [OF Cons.prems(1)])
  have "tables_ok (mwManager w)" using Cons.prems(1) by (simp add: media_inv_def)
  then have "later (mwManager w) ?m" by (rule closeSession_ok [of _ now sid False]) (simp_all add: later_closes)
  then have "msClosed (mgAllSessions (mwManager w) ! p) \<longrightarrow> msClosed (mgAllSessions ?m ! p)"
    using Cons.prems(2) by (simp add: later_def Let_def)
  moreover have "close_all now (sid # sids) (mwManager w) = close_all now sids ?m" by (simp add: close_all_def)
  moreover have "msID (mgAllSessions ?m ! p) = msID (mgAllSessions (mwManager w) ! p)" using one Cons.prems(2) by blast
  ultimately show ?case using Cons.IH [OF inv] one Cons.prems(2) by auto
qed (simp add: close_all_def)

lemma sessionsWith_iff:
  assumes "tables_ok m" and "p < length (mgAllSessions m)"
  shows "msID (mgAllSessions m ! p) \<in> set (sessionsWith P m) \<longleftrightarrow> \<not> msClosed (mgAllSessions m ! p) \<and> P (mgAllSessions m ! p)"
proof -
  have "session_ok m p (mgAllSessions m ! p)" using assms by (simp add: tables_ok_def)
  then show ?thesis using assms(2) session_ids [OF assms] by (auto simp: sessionsWith_def session_ok_def)
qed

text \<open>Closing the sessions that satisfy a condition closes exactly these.\<close>

lemma close_with:
  assumes "media_inv w" and "p < length (mgAllSessions (mwManager w))" and "s = mgAllSessions (mwManager w) ! p"
  shows "(P s \<longrightarrow> msClosed (mgAllSessions (close_all now (sessionsWith P (mwManager w)) (mwManager w)) ! p))
    \<and> (\<not> P s \<longrightarrow> mgAllSessions (close_all now (sessionsWith P (mwManager w)) (mwManager w)) ! p = s)"
proof -
  have "tables_ok (mwManager w)" using assms(1) by (simp add: media_inv_def)
  from sessionsWith_iff [OF this assms(2), of P] close_all_sessions [OF assms(1,2), of "sessionsWith P (mwManager w)" now]
  show ?thesis using assms(3) by blast
qed

lemma expireLease_force:
  assumes "media_inv w" and "q < length (mgAllScopes (mwManager w))" and "\<not> lsCancelled (mgAllScopes (mwManager w) ! q)"
  obtains m where "endLease now q True (mwManager w) = Some m" and "media_inv (w\<lparr>mwManager := m\<rparr>)"
    and "mgAllSessions m = mgAllSessions (mwManager w)" and "lsCancelled (mgAllScopes m ! q)"
    and "expireLease now q True (mwManager w) = close_all now (sessionsWith (\<lambda>s. msLease s = Some q) m) m"
proof -
  have "scopes_ok (mwManager w)" using assms(1) by (simp add: media_inv_def)
  then have key: "mgLeases (mwManager w) (lsKey (mgAllScopes (mwManager w) ! q)) = Some q" using scopes_okD(4) assms(2,3) by blast
  then obtain m where m: "endLease now q True (mwManager w) = Some m" by (simp add: endLease_def)
  have s: "mgAllSessions m = mgAllSessions (mwManager w)" "mgSessions m = mgSessions (mwManager w)" "lsCancelled (mgAllScopes m ! q)"
    using m assms(2) by (auto simp: endLease_def Let_def split: if_splits)
  then have "sessionsWith P m = sessionsWith P (mwManager w)" for P by (simp add: sessionsWith_def)
  then show ?thesis
    using that [OF m endLease_inv [OF assms(1,2) m] s(1,3)] m by (simp add: expireLease_def close_all_def)
qed

text \<open>
  C23. Revoking a device closes every session of this device and no other, and a denial of the relay ends
  the renewal of a lease and closes every session that uses it and no other. Both are runs of the critical
  sections, so the sessions stay closed.
\<close>

theorem revocation_and_denial_close:
  assumes "reach media_init media_step w" and "now = mwClock w" and "m = mwManager w"
    and "q < length (mgAllScopes m)" and "\<not> lsCancelled (mgAllScopes m ! q)" and "p < length (mgAllSessions m)"
    and "renewRound now started q (Inr 0) jitter m = (delay, denied)"
  shows "(let s = mgAllSessions m ! p; s' = mgAllSessions (RevokeDevice now device m) ! p in
        if maDeviceID (msAuth s) = device then msClosed s' else s' = s)
    \<and> (let s = mgAllSessions m ! p; s' = mgAllSessions denied ! p in if msLease s = Some q then msClosed s' else s' = s)
    \<and> delay = None \<and> media_step\<^sup>*\<^sup>* w (w\<lparr>mwManager := RevokeDevice now device m\<rparr>)
    \<and> media_step\<^sup>*\<^sup>* w (w\<lparr>mwManager := denied\<rparr>)"
proof -
  have inv: "media_inv w" by (rule media.inv_reach [OF assms(1)])
  have r: "RevokeDevice now device m = close_all now (sessionsWith (\<lambda>s. maDeviceID (msAuth s) = device) m) m"
    by (simp add: RevokeDevice_def close_all_def)
  obtain m1 where m1: "endLease now q True m = Some m1" "media_inv (w\<lparr>mwManager := m1\<rparr>)" "mgAllSessions m1 = mgAllSessions m"
      "expireLease now q True m = close_all now (sessionsWith (\<lambda>s. msLease s = Some q) m1) m1"
    using expireLease_force [OF inv, of q now] assms(3-5) by auto
  let ?m2 = "expireLease now q True m"
  have d: "delay = None" "denied = on_scope q (\<lambda>s. s\<lparr>lsReady := True\<rparr>) ?m2"
    using assms(5,7) by (simp_all add: renewRound_def)
  let ?w1 = "w\<lparr>mwManager := m1\<rparr>" let ?w2 = "w\<lparr>mwManager := ?m2\<rparr>"
  have "media_step w ?w1" using media_step.end_lease [of q w True m1] m1(1) assms(2-4) by simp
  moreover have run: "media_step\<^sup>*\<^sup>* ?w1 ?w2" using close_all_steps [of ?w1] m1(4) assms(2) by simp
  moreover have "media_step ?w2 (w\<lparr>mwManager := denied\<rparr>)"
  proof -
    have "later m1 ?m2" using media_steps_later [OF run m1(2)] by simp
    then have q: "q < length (mgAllScopes ?m2)" using assms(4) m1(1)
      by (auto simp: later_def endLease_def Let_def split: if_splits)
    have "denied = on_scope q (\<lambda>s. s\<lparr>lsUsed := lsUsed (mgAllScopes ?m2 ! q), lsReady := True\<rparr>) ?m2"
      unfolding d(2) on_scope_def by (intro media_manager.equality) (simp_all add: nth_update)
    then show ?thesis using media_step.flags [of q ?w2 True "lsUsed (mgAllScopes ?m2 ! q)"] q by simp
  qed
  ultimately have "media_step\<^sup>*\<^sup>* w (w\<lparr>mwManager := denied\<rparr>)"
    by (meson converse_rtranclp_into_rtranclp rtranclp.rtrancl_into_rtrancl)
  moreover have "media_step\<^sup>*\<^sup>* w (w\<lparr>mwManager := RevokeDevice now device m\<rparr>)"
    unfolding r using close_all_steps [of w] assms(2,3) by simp
  moreover note close_with [OF inv assms(6) [unfolded assms(3)] refl, of "\<lambda>s. maDeviceID (msAuth s) = device" now]
  moreover have "p < length (mgAllSessions (mwManager ?w1))" using assms(6) m1(3) by simp
  from close_with [OF m1(2) this refl, of "\<lambda>s. msLease s = Some q" now]
  have "if msLease (mgAllSessions m ! p) = Some q then msClosed (mgAllSessions denied ! p)
      else mgAllSessions denied ! p = mgAllSessions m ! p"
    using m1(3,4) d(2) by simp
  ultimately show ?thesis using d(1) r assms(3) by (simp add: Let_def)
qed

section \<open>An example\<close>

text \<open>A hosted session that was prepared, allowed for a minute and activated, and then closed.\<close>

definition ex_authorization :: media_authorization where
  "ex_authorization = \<lparr>maAgentID = ''a'', maDeviceID = ''d'', maKeyID = ''k'', maAuthority = ''r'', maIssuedAt = 0, maExpiresAt = 10 ^ 12\<rparr>"

definition ex_start :: media_run where
  "ex_start = \<lparr>mwManager = NewManager, mwClock = \<lparr>ckWall = 0, ckMono = 0\<rparr>, mwGrants = []\<rparr>"

definition ex_prepared :: media_run where
  "ex_prepared = ex_start\<lparr>mwManager := snd (Prepare (mwClock ex_start) ''s'' ex_authorization (mwManager ex_start))\<rparr>"

definition ex_allowed :: media_run where
  "ex_allowed = ex_prepared
     \<lparr>mwManager := applyLease (mwClock ex_prepared) 0 (clock_add (mwClock ex_prepared) (60000 * 1000000)) (mwManager ex_prepared),
      mwGrants := mwGrants ex_prepared @ [\<lparr>gtAuthority = lsAuthority (mgAllScopes (mwManager ex_prepared) ! 0),
        gtDevice = lsDevice (mgAllScopes (mwManager ex_prepared) ! 0), gtStarted = mwClock ex_prepared, gtAge = 60000 * 1000000\<rparr>]\<rparr>"

definition ex_active :: media_run where
  "ex_active = ex_allowed\<lparr>mwManager := snd (activateSession (mwClock ex_allowed) 0 (mwManager ex_allowed))\<rparr>"

lemmas ex_run_defs = ex_active_def ex_allowed_def ex_prepared_def ex_start_def ex_authorization_def NewManager_def Prepare_def
  leaseScope_def leaseKey_def applyLease_def activateSession_def authorizedLocked_def leaseDeadlineValid_def clock_add_def on_session_def
  on_scope_def Let_def

lemma ex_reachable: "reach media_init media_step ex_active"
proof -
  have "reach media_init media_step ex_start" by (rule reach.start) (simp add: media_init_def ex_start_def)
  moreover have "media_step ex_start ex_prepared"
    unfolding ex_prepared_def by (rule media_step.prepare) (simp add: ex_start_def NewManager_def)
  moreover have "media_step ex_prepared ex_allowed"
    unfolding ex_allowed_def
  proof (rule media_step.renew)
    show "0 < length (mgAllScopes (mwManager ex_prepared))" by (simp add: ex_run_defs)
    show "checkMediaAuthorization ''r'' (lsAuthority (mgAllScopes (mwManager ex_prepared) ! 0)) True ''n''
        (Some \<lparr>anNonce = ''n'', anDecision = ''allowed'', anMaxAgeMillis = 60000\<rparr>) = Inr (60000 * 1000000)"
      by (simp add: ex_run_defs checkMediaAuthorization_def MediaAuthorizationMaxAge_def second_def)
  qed simp_all
  moreover have "media_step ex_allowed ex_active"
    unfolding ex_active_def by (rule media_step.activate) (simp add: ex_run_defs)
  ultimately show ?thesis by (blast intro: reach.step)
qed

lemma ex_active_manager:
  "mgAllSessions (mwManager ex_active) = [\<lparr>msID = ''s'', msAuth = ex_authorization, msActive = True, msClosed = False,
     msCancelled = False, msLease = Some 0, msRequests = (\<lambda>_. None)\<rparr>]"
  "mgAllScopes (mwManager ex_active) = [\<lparr>lsKey = leaseKey ex_authorization, lsAuthority = ''r'', lsDevice = ''d'', lsCancelled = False,
     lsReady = False, lsDeadline = Some \<lparr>ckWall = 60000000000, ckMono = 60000000000\<rparr>, lsUsed = False, lsRefs = 1\<rparr>]"
  "mwClock ex_active = \<lparr>ckWall = 0, ckMono = 0\<rparr>"
  by (simp_all add: ex_run_defs)

theorem media_served_under_authority_witness:
  "authorized (mwManager ex_active) 0 (mwClock ex_active)
    \<and> list_ex (\<lambda>g. gtAuthority g = ''r'' \<and> gtDevice g = ''d'') (mwGrants ex_active)"
proof -
  have auth: "authorized (mwManager ex_active) 0 (mwClock ex_active)"
    by (simp add: authorized_def authorizedLocked_def ex_active_manager ex_authorization_def leaseDeadlineValid_def)
  have "nul_free ex_authorization" by (simp add: nul_free_def ex_authorization_def nul_def)
  with media_served_under_authority [OF ex_reachable _ auth, of ex_authorization] auth show ?thesis
    by (auto simp: ex_active_manager list_ex_iff) (auto simp: ex_authorization_def)
qed


theorem leases_are_counted_witness:
  "lsRefs (mgAllScopes (mwManager ex_active) ! 0) = 1
    \<and> mgLeases (mwManager ex_active) (leaseKey ex_authorization) = Some 0"
  using leases_are_counted [OF ex_reachable, of 0] by (simp add: ex_active_manager)

theorem revocation_and_denial_close_witness:
  "msClosed (mgAllSessions (RevokeDevice (mwClock ex_active) ''d'' (mwManager ex_active)) ! 0)
    \<and> msClosed (mgAllSessions (snd (renewRound (mwClock ex_active) (mwClock ex_active) 0 (Inr 0) 0 (mwManager ex_active))) ! 0)"
  using revocation_and_denial_close [OF ex_reachable refl refl, of 0 0 "mwClock ex_active" 0 _ _ "''d''"]
  by (cases "renewRound (mwClock ex_active) (mwClock ex_active) 0 (Inr 0) 0 (mwManager ex_active)")
    (simp add: ex_active_manager ex_authorization_def)

end
