(* ===== verification/Asset_Id.thy ===== *)
theory Asset_Id
  imports Codec
begin

text \<open>
  The identifiers that the agent hands out for assets (\<open>internal/runtime/asset_id.go\<close>): the key of the
  source and the id of the asset upstream, sealed under a key derived from the session signing key, so that
  clients can neither read nor make them. AES-GCM and HMAC-SHA-256 are parameters; what the code relies on is the
  law of an authenticated encryption, stated where it is used.
\<close>

section \<open>Operations\<close>

definition timichAssetIDPrefix :: string where "timichAssetIDPrefix = ''ta2_''"
definition timichAssetIDKeyPurpose :: string where "timichAssetIDKeyPurpose = ''timich-asset-id-v2''"
definition timichAssetIDNoncePurpose :: string where "timichAssetIDNoncePurpose = ''timich-asset-id-nonce-v2''"
definition timichLegacyAssetIDPrefix :: string where "timichLegacyAssetIDPrefix = ''ta1_''"
definition timichLegacyAssetIDKeyPurpose :: string where "timichLegacyAssetIDKeyPurpose = ''timich-asset-id-v1''"
definition timichLegacyAssetIDSignatureSize :: nat where "timichLegacyAssetIDSignatureSize = 16"
definition timichAssetIDSourceKeySize :: nat where "timichAssetIDSourceKeySize = 8"
definition timichAssetIDMaxUpstreamID :: nat where "timichAssetIDMaxUpstreamID = 512"

datatype asset_id_error = InvalidAssetID | InvalidSigningKey | NoCipher

record asset_id_keys =
  akCurrent :: string
  akLegacy :: string

text \<open>
  The standard library's part: HMAC, and sealing and opening with a key, a nonce and additional data; GCM has
  nonces of 12 bytes and adds 16.
\<close>

record asset_id_crypto =
  acHMAC :: "string \<Rightarrow> string \<Rightarrow> string"
  acSeal :: "string \<Rightarrow> string \<Rightarrow> string \<Rightarrow> string \<Rightarrow> string"
  acOpen :: "string \<Rightarrow> string \<Rightarrow> string \<Rightarrow> string \<Rightarrow> string option"

definition nonceSize :: nat where "nonceSize = 12"
definition overhead :: nat where "overhead = 16"

definition deriveAssetIDKeys :: "asset_id_crypto \<Rightarrow> string \<Rightarrow> (asset_id_error, asset_id_keys) result" where
  "deriveAssetIDKeys cr encodedSessionSigningKey =
     (case raw_std_decode (trim_space encodedSessionSigningKey) of
        None \<Rightarrow> Inl InvalidSigningKey
      | Some key \<Rightarrow>
          if key = [] then Inl InvalidSigningKey
          else Inr \<lparr>akCurrent = acHMAC cr key timichAssetIDKeyPurpose, akLegacy = acHMAC cr key timichLegacyAssetIDKeyPurpose\<rparr>)"

text \<open>AES takes keys of 16, 24 and 32 bytes.\<close>

definition assetIDAEAD :: "string \<Rightarrow> (asset_id_error, unit) result" where
  "assetIDAEAD key = (if length key \<in> {16, 24, 32} then Inr () else Inl NoCipher)"

definition assetIDNonce :: "asset_id_crypto \<Rightarrow> string \<Rightarrow> string \<Rightarrow> nat \<Rightarrow> string" where
  "assetIDNonce cr key payload n = take n (acHMAC cr key (timichAssetIDNoncePurpose @ [nul] @ payload))"

definition encodeTimichAssetID :: "asset_id_crypto \<Rightarrow> asset_id_keys \<Rightarrow> string \<Rightarrow> string \<Rightarrow> (asset_id_error, string) result" where
  "encodeTimichAssetID cr keys sourceKey upstreamAssetID =
     (case hex_decode (trim_space sourceKey) of
        None \<Rightarrow> Inl InvalidAssetID
      | Some sourceKeyBytes \<Rightarrow>
          let upstream = trim_space upstreamAssetID; payload = sourceKeyBytes @ upstream in
          if length sourceKeyBytes \<noteq> timichAssetIDSourceKeySize then Inl InvalidAssetID
          else if upstream = [] \<or> timichAssetIDMaxUpstreamID < length upstream then Inl InvalidAssetID
          else case assetIDAEAD (akCurrent keys) of
            Inl e \<Rightarrow> Inl e
          | Inr _ \<Rightarrow>
              let nonce = assetIDNonce cr (akCurrent keys) payload nonceSize in
              Inr (timichAssetIDPrefix
                @ raw_url_encode (nonce @ acSeal cr (akCurrent keys) nonce payload timichAssetIDPrefix)))"

text \<open>The source and the upstream id in a payload that was verified.\<close>

definition splitPayload :: "string \<Rightarrow> (asset_id_error, string \<times> string) result" where
  "splitPayload payload =
     (let upstream = drop timichAssetIDSourceKeySize payload in
      if trim_space upstream = [] then Inl InvalidAssetID
      else Inr (hex_encode (take timichAssetIDSourceKeySize payload), upstream))"

definition payloadLengthOK :: "string \<Rightarrow> bool" where
  "payloadLengthOK payload \<longleftrightarrow>
     \<not> (length payload \<le> timichAssetIDSourceKeySize
        \<or> timichAssetIDMaxUpstreamID < length payload - timichAssetIDSourceKeySize)"

definition decodeLegacyTimichAssetID :: "asset_id_crypto \<Rightarrow> string \<Rightarrow> string \<Rightarrow> (asset_id_error, string \<times> string) result" where
  "decodeLegacyTimichAssetID cr key s =
     (case split_on (CHR ''.'') (drop (length timichLegacyAssetIDPrefix) s) of
        [p, q] \<Rightarrow>
          (case (raw_url_decode p, raw_url_decode q) of
             (Some payload, Some signature) \<Rightarrow>
               if \<not> payloadLengthOK payload \<or> length signature \<noteq> timichLegacyAssetIDSignatureSize then Inl InvalidAssetID
               else if signature \<noteq> take timichLegacyAssetIDSignatureSize (acHMAC cr key payload) then Inl InvalidAssetID
               else splitPayload payload
           | _ \<Rightarrow> Inl InvalidAssetID)
      | _ \<Rightarrow> Inl InvalidAssetID)"

definition decodeTimichAssetID :: "asset_id_crypto \<Rightarrow> asset_id_keys \<Rightarrow> string \<Rightarrow> (asset_id_error, string \<times> string) result" where
  "decodeTimichAssetID cr keys s =
     (let s = trim_space s in
      if has_prefix s timichLegacyAssetIDPrefix then decodeLegacyTimichAssetID cr (akLegacy keys) s
      else if \<not> has_prefix s timichAssetIDPrefix then Inl InvalidAssetID
      else case raw_url_decode (drop (length timichAssetIDPrefix) s) of
        None \<Rightarrow> Inl InvalidAssetID
      | Some raw \<Rightarrow>
          (case assetIDAEAD (akCurrent keys) of
             Inl e \<Rightarrow> Inl e
           | Inr _ \<Rightarrow>
               if length raw \<le> nonceSize + overhead + timichAssetIDSourceKeySize then Inl InvalidAssetID
               else case acOpen cr (akCurrent keys) (take nonceSize raw) (drop nonceSize raw) timichAssetIDPrefix of
                 None \<Rightarrow> Inl InvalidAssetID
               | Some payload \<Rightarrow> if payloadLengthOK payload then splitPayload payload else Inl InvalidAssetID))"

section \<open>Hexadecimal source keys\<close>

lemma hex_value_digit: "hex_value c = Some i \<Longrightarrow> i < 16 \<and> hex_digits ! i = lower_char c"
  unfolding hex_value_def using find_index_SomeD by (fastforce simp: hex_digits_def)

lemma hex_encode_decode: "hex_decode s = Some b \<Longrightarrow> hex_encode b = map lower_char s"
proof (induction s arbitrary: b rule: hex_decode.induct)
  case (3 x y cs)
  then obtain i j r where d: "hex_value x = Some i" "hex_value y = Some j" "hex_decode cs = Some r" "b = char_of (i * 16 + j) # r"
    by (auto split: option.splits)
  have "i * 16 + j < 256" using hex_value_digit [OF d(1)] hex_value_digit [OF d(2)] by linarith
  then have "of_char (char_of (i * 16 + j) :: char) = i * 16 + j" by simp
  moreover have "(i * 16 + j) div 16 = i" "(i * 16 + j) mod 16 = j" using hex_value_digit [OF d(2)] by simp_all
  ultimately show ?case using d hex_value_digit [OF d(1)] hex_value_digit [OF d(2)] "3.IH" [OF d(3)] by simp
qed auto

lemma prefix_length: "length timichAssetIDPrefix = 4" "length timichLegacyAssetIDPrefix = 4"
  by (simp_all add: timichAssetIDPrefix_def timichLegacyAssetIDPrefix_def)

section \<open>Round trip\<close>

text \<open>The law of an authenticated encryption: what is sealed opens, and nothing else opens.\<close>

definition aead_law :: "asset_id_crypto \<Rightarrow> bool" where
  "aead_law cr \<longleftrightarrow>
     (\<forall>key nonce p ad. length nonce = nonceSize \<longrightarrow>
        acOpen cr key nonce (acSeal cr key nonce p ad) ad = Some p
        \<and> length (acSeal cr key nonce p ad) = length p + overhead)
     \<and> (\<forall>key nonce c ad p. length nonce = nonceSize \<longrightarrow> acOpen cr key nonce c ad = Some p \<longrightarrow>
        c = acSeal cr key nonce p ad)
     \<and> (\<forall>key m. length (acHMAC cr key m) = 32)"

text \<open>
  C24. An identifier that the agent issues leads back to its asset: decoding it gives the key of the source,
  in lower case, and the id upstream, and the identifier is accepted with blanks around it.
\<close>

theorem asset_id_round_trip:
  assumes "aead_law cr" and "encodeTimichAssetID cr keys sourceKey upstreamAssetID = Inr s" and "trim_space t = s"
  shows "decodeTimichAssetID cr keys t = Inr (map lower_char (trim_space sourceKey), trim_space upstreamAssetID)
    \<and> has_prefix s timichAssetIDPrefix"
proof -
  let ?up = "trim_space upstreamAssetID" let ?key = "akCurrent keys"
  obtain b where b: "hex_decode (trim_space sourceKey) = Some b" "length b = timichAssetIDSourceKeySize" "?up \<noteq> []"
      "length ?up \<le> timichAssetIDMaxUpstreamID" "assetIDAEAD ?key = Inr ()"
      "s = timichAssetIDPrefix @ raw_url_encode (assetIDNonce cr ?key (b @ ?up) nonceSize
            @ acSeal cr ?key (assetIDNonce cr ?key (b @ ?up) nonceSize) (b @ ?up) timichAssetIDPrefix)"
    using assms(2) by (auto simp: encodeTimichAssetID_def Let_def split: option.splits if_splits sum.splits)
  let ?nonce = "assetIDNonce cr ?key (b @ ?up) nonceSize"
  let ?sealed = "acSeal cr ?key ?nonce (b @ ?up) timichAssetIDPrefix"
  have n: "length ?nonce = nonceSize" using assms(1) by (simp add: aead_law_def assetIDNonce_def nonceSize_def)
  with assms(1) have law: "acOpen cr ?key ?nonce ?sealed timichAssetIDPrefix = Some (b @ ?up)"
      "length ?sealed = length b + length ?up + overhead"
    by (simp_all add: aead_law_def)
  have p: "has_prefix s timichAssetIDPrefix" "\<not> has_prefix s timichLegacyAssetIDPrefix"
      "drop (length timichAssetIDPrefix) s = raw_url_encode (?nonce @ ?sealed)"
    by (simp_all add: b(6) has_prefix_def timichAssetIDPrefix_def timichLegacyAssetIDPrefix_def)
  have "0 < length ?up" using b(3) by simp
  then have "\<not> length (?nonce @ ?sealed) \<le> nonceSize + overhead + timichAssetIDSourceKeySize" using law(2) n b(2) by simp
  moreover have "payloadLengthOK (b @ ?up)" using b(2-4) by (auto simp: payloadLengthOK_def)
  moreover have "splitPayload (b @ ?up) = Inr (map lower_char (trim_space sourceKey), ?up)"
    using b(2,3) hex_encode_decode [OF b(1)] by (simp add: splitPayload_def Let_def)
  ultimately show ?thesis
    using p law(1) n b(5) assms(3) by (simp add: decodeTimichAssetID_def Let_def rawurl.dec_enc)
qed

text \<open>
  C25. The agent accepts no other identifiers: one that is accepted was sealed under the current key over the
  payload of its answer, or carries the first 16 bytes of the HMAC of this payload under the legacy key.
\<close>

theorem accepted_asset_id_was_issued:
  assumes "aead_law cr" and "decodeTimichAssetID cr keys s = Inr (sourceKey, upstream)"
  shows "\<exists>b. length b = timichAssetIDSourceKeySize \<and> sourceKey = hex_encode b
    \<and> trim_space upstream \<noteq> [] \<and> length upstream \<le> timichAssetIDMaxUpstreamID
    \<and> ((\<exists>nonce. raw_url_decode (drop 4 (trim_space s)) = Some (nonce @ acSeal cr (akCurrent keys) nonce (b @ upstream) timichAssetIDPrefix))
       \<or> (\<exists>p q. split_on (CHR ''.'') (drop 4 (trim_space s)) = [p, q] \<and> raw_url_decode p = Some (b @ upstream)
            \<and> raw_url_decode q = Some (take 16 (acHMAC cr (akLegacy keys) (b @ upstream)))))"
proof -
  have split: "splitPayload payload = Inr (sourceKey, upstream) \<Longrightarrow> payloadLengthOK payload \<Longrightarrow>
      \<exists>b. payload = b @ upstream \<and> length b = timichAssetIDSourceKeySize \<and> sourceKey = hex_encode b
        \<and> trim_space upstream \<noteq> [] \<and> length upstream \<le> timichAssetIDMaxUpstreamID" for payload
    by (intro exI [of _ "take timichAssetIDSourceKeySize payload"])
      (auto simp: splitPayload_def payloadLengthOK_def Let_def split: if_splits)
  show ?thesis
  proof (cases "has_prefix (trim_space s) timichLegacyAssetIDPrefix")
    case True
    with assms(2) obtain p q payload where "split_on (CHR ''.'') (drop 4 (trim_space s)) = [p, q]"
        "raw_url_decode p = Some payload" "raw_url_decode q = Some (take 16 (acHMAC cr (akLegacy keys) payload))"
        "payloadLengthOK payload" "splitPayload payload = Inr (sourceKey, upstream)"
      by (auto simp: decodeTimichAssetID_def decodeLegacyTimichAssetID_def Let_def prefix_length
          timichLegacyAssetIDSignatureSize_def split: list.splits option.splits if_splits)
    with split show ?thesis by blast
  next
    case False
    with assms(2) obtain raw payload where raw: "raw_url_decode (drop 4 (trim_space s)) = Some raw"
        "acOpen cr (akCurrent keys) (take nonceSize raw) (drop nonceSize raw) timichAssetIDPrefix = Some payload"
        "payloadLengthOK payload" "splitPayload payload = Inr (sourceKey, upstream)" "nonceSize < length raw"
      by (auto simp: decodeTimichAssetID_def Let_def prefix_length split: option.splits sum.splits if_splits)
    from raw(2,5) assms(1) have "drop nonceSize raw = acSeal cr (akCurrent keys) (take nonceSize raw) payload timichAssetIDPrefix"
      by (simp add: aead_law_def)
    then have "raw = take nonceSize raw @ acSeal cr (akCurrent keys) (take nonceSize raw) payload timichAssetIDPrefix"
      by (metis append_take_drop_id)
    with raw split show ?thesis by metis
  qed
qed

section \<open>An example\<close>

text \<open>A toy encryption that satisfies the law: the text, and a tag of 16 bytes that is always the same.\<close>

definition toy_crypto :: asset_id_crypto where
  "toy_crypto = \<lparr>acHMAC = \<lambda>key m. replicate 32 (CHR ''h''), acSeal = \<lambda>key nonce p ad. p @ replicate 16 (CHR ''t''),
     acOpen = \<lambda>key nonce c ad. if 16 \<le> length c \<and> drop (length c - 16) c = replicate 16 (CHR ''t'')
       then Some (take (length c - 16) c) else None\<rparr>"

lemma toy_crypto_law: "aead_law toy_crypto"
proof -
  have "c = take (length c - 16) c @ replicate 16 (CHR ''t'')"
    if "drop (length c - 16) c = replicate 16 (CHR ''t'')" for c :: string
    using that by (metis append_take_drop_id)
  then show ?thesis by (auto simp: aead_law_def toy_crypto_def overhead_def)
qed

definition toy_keys :: asset_id_keys where
  "toy_keys = \<lparr>akCurrent = replicate 32 (CHR ''k''), akLegacy = replicate 32 (CHR ''l'')\<rparr>"

definition toy_id :: string where
  "toy_id = timichAssetIDPrefix @ raw_url_encode (replicate 12 (CHR ''h'')
     @ replicate 7 (char_of (0::nat)) @ [char_of (171::nat)] @ ''x'' @ replicate 16 (CHR ''t''))"

lemma toy_id_issued: "encodeTimichAssetID toy_crypto toy_keys ''00000000000000AB'' ''x'' = Inr toy_id"
  by code_simp

lemma toy_id_trim: "trim_space toy_id = toy_id"
  by code_simp

theorem asset_id_round_trip_witness:
  "encodeTimichAssetID toy_crypto toy_keys ''00000000000000AB'' ''x'' = Inr toy_id
   \<and> decodeTimichAssetID toy_crypto toy_keys toy_id = Inr (map lower_char (trim_space ''00000000000000AB''), trim_space ''x'')"
  using asset_id_round_trip [OF toy_crypto_law toy_id_issued toy_id_trim] toy_id_issued by simp

lemma toy_id_accepted: "decodeTimichAssetID toy_crypto toy_keys toy_id = Inr (''00000000000000ab'', ''x'')"
  by code_simp

theorem accepted_asset_id_was_issued_witness:
  "\<exists>b. length b = timichAssetIDSourceKeySize \<and> ''00000000000000ab'' = hex_encode b \<and> decodeTimichAssetID toy_crypto toy_keys toy_id = Inr (hex_encode b, ''x'')"
proof -
  from accepted_asset_id_was_issued [OF toy_crypto_law toy_id_accepted] obtain b where
    "length b = timichAssetIDSourceKeySize" "''00000000000000ab'' = hex_encode b" by blast
  with toy_id_accepted show ?thesis by metis
qed

end
