(* ===== verification/Mirror_Asset.thy ===== *)
theory Mirror_Asset
  imports Codec Paths
begin

text \<open>
  Assets as Immich describes them and as the mirror keeps them (\<open>internal/catalog/service.go\<close> and
  \<open>catalog_external_identity.go\<close>): what the agent makes of an upstream asset before it writes it to the
  catalogue. Parsed JSON is the input. SHA-1 and the lower case of runes beyond ASCII are parameters.
\<close>

section \<open>Upstream assets\<close>

text \<open>
  What \<open>encoding/json\<close> finds in a raw message that may be a number: an integer of 64 bits, another number
  (with what its conversion to \<open>int64\<close> gives), a string, nothing or \<open>null\<close>, or something else.
\<close>

datatype raw_number = RawNone | RawInt int | RawFloat int | RawText string | RawOther

record immich_exif =
  ieCity :: string
  ieState :: string
  ieCountry :: string
  ieDescription :: string
  ieFileSizeInByte :: raw_number

record immich_asset =
  iaID :: string
  iaType :: string
  iaOriginalFileName :: string
  iaFileCreatedAt :: gotime
  iaUpdatedAt :: "gotime option"
  iaDuration :: "string option"
  iaIsArchived :: bool
  iaIsTrashed :: bool
  iaIsFavorite :: bool
  iaChecksum :: string
  iaOriginalPath :: string
  iaFileSizeInByte :: raw_number
  iaFileSize :: raw_number
  iaVisibility :: string
  iaDeletedAt :: "gotime option"
  iaTrashedAt :: "gotime option"
  iaExifInfo :: "immich_exif option"

text \<open>The mirrored asset, with the fields of \<open>ImmichMirrorAsset\<close>.\<close>

record mirror_asset =
  maExcluded :: bool
  maUpstreamAssetID :: string
  maMediaType :: string
  maFilename :: string
  maCapturedAt :: gotime
  maDuration :: "string option"
  maSourceUpdatedAt :: "gotime option"
  maUpstreamChecksumAlgorithm :: string
  maContentSHA1Hex :: string
  maContentSizeBytes :: int
  maCanonicalContentSHA1Hex :: string
  maCanonicalContentSizeBytes :: int
  maMappedLocalSourceKey :: string
  maMappedLocalRootKey :: string
  maMappedLocalRelativePath :: string
  maExternalContentIdentityScopeKey :: string
  maIsFavorite :: bool
  maCity :: string
  maState :: string
  maCountry :: string
  maPlaceLabel :: string
  maDescription :: string

text \<open>A mapping of paths of the Immich server to a local source (\<open>immichExternalLibraryMapping\<close>).\<close>

record library_mapping =
  lmImmichSourceKey :: string
  lmLocalSourceKey :: string
  lmLocalRootKey :: string
  lmOriginalPathPrefix :: string

section \<open>Numbers and checksums\<close>

text \<open>\<open>strconv.ParseInt\<close> in base 10 for 64 bits.\<close>

definition digits_value :: "string \<Rightarrow> int" where
  "digits_value s = foldl (\<lambda>n c. n * 10 + (of_char c - 48)) 0 s"

definition parse_int64 :: "string \<Rightarrow> int option" where
  "parse_int64 s =
     (let negative = has_prefix s ''-''; digits = (if negative \<or> has_prefix s ''+'' then tl s else s);
          n = (if negative then - digits_value digits else digits_value digits) in
      if digits = [] \<or> \<not> list_all is_digit digits then None
      else if - (2 ^ 63) \<le> n \<and> n < 2 ^ 63 then Some n else None)"

definition decodeFlexibleInt64Raw :: "raw_number \<Rightarrow> int" where
  "decodeFlexibleInt64Raw data =
     (case data of
        RawInt n \<Rightarrow> n
      | RawFloat n \<Rightarrow> n
      | RawText s \<Rightarrow> (case parse_int64 (trim_space s) of None \<Rightarrow> 0 | Some n \<Rightarrow> n)
      | _ \<Rightarrow> 0)"

definition ContentSizeBytes :: "immich_asset \<Rightarrow> int" where
  "ContentSizeBytes a =
     (let n = decodeFlexibleInt64Raw (iaFileSizeInByte a);
          n = (if n \<le> 0 then decodeFlexibleInt64Raw (iaFileSize a) else n)
      in (case iaExifInfo a of
            Some e \<Rightarrow> if n \<le> 0 then decodeFlexibleInt64Raw (ieFileSizeInByte e) else n
          | None \<Rightarrow> n))"

definition normalizeCatalogSHA1Hex :: "string \<Rightarrow> string" where
  "normalizeCatalogSHA1Hex v =
     (let v = to_lower (trim_space v) in
      if length v \<noteq> 40 then []
      else case hex_decode v of None \<Rightarrow> [] | Some b \<Rightarrow> if length b \<noteq> 20 then [] else v)"

text \<open>
  Base64 with padding: ignoring line breaks, a multiple of four characters of which the last one or
  two may be \<open>=\<close>. Twenty bytes take one of them.
\<close>

definition padded_decode :: "string \<Rightarrow> string \<Rightarrow> string option" where
  "padded_decode al s =
     (let s = filter (\<lambda>c. c \<noteq> CHR 0x0D \<and> c \<noteq> CHR 0x0A) s; body = takeWhile (\<lambda>c. c \<noteq> CHR ''='') s;
          pad = drop (length body) s in
      if length s mod 4 = 0 \<and> length pad \<le> 2 \<and> list_all (\<lambda>c. c = CHR ''='') pad then b64_decode al body else None)"

definition normalizeImmichSHA1Checksum :: "string \<Rightarrow> string" where
  "normalizeImmichSHA1Checksum v =
     (let v = trim_space v in
      if v = [] then []
      else if normalizeCatalogSHA1Hex v \<noteq> [] then normalizeCatalogSHA1Hex v
      else case filter (\<lambda>d. d \<noteq> None \<and> length (the d) = 20)
             [padded_decode std_alphabet v, raw_std_decode v, padded_decode url_alphabet v, raw_url_decode v] of
        Some decoded # _ \<Rightarrow> hex_encode decoded
      | _ \<Rightarrow> [])"

definition upstreamChecksumAlgorithmSHA1 :: string where "upstreamChecksumAlgorithmSHA1 = ''sha1''"
definition upstreamChecksumAlgorithmSHA1Path :: string where "upstreamChecksumAlgorithmSHA1Path = ''sha1-path''"
definition upstreamChecksumAlgorithmUnknown :: string where "upstreamChecksumAlgorithmUnknown = ''unknown''"

definition immichExternalPathChecksumHex :: "(string \<Rightarrow> string) \<Rightarrow> string \<Rightarrow> string" where
  "immichExternalPathChecksumHex sha1 originalPath = hex_encode (sha1 (''path:'' @ trim_space originalPath))"

text \<open>The checksum that Immich gives to an external file is one of its path, not of its content.\<close>

definition UpstreamChecksumIdentity :: "(string \<Rightarrow> string) \<Rightarrow> immich_asset \<Rightarrow> string \<times> string" where
  "UpstreamChecksumIdentity sha1 a =
     (let sha1Hex = normalizeImmichSHA1Checksum (iaChecksum a); originalPath = trim_space (iaOriginalPath a) in
      if sha1Hex = [] then (upstreamChecksumAlgorithmUnknown, [])
      else if originalPath \<noteq> [] \<and> sha1Hex = immichExternalPathChecksumHex sha1 originalPath
      then (upstreamChecksumAlgorithmSHA1Path, sha1Hex)
      else (upstreamChecksumAlgorithmSHA1, sha1Hex))"

definition ContentIdentity :: "(string \<Rightarrow> string) \<Rightarrow> immich_asset \<Rightarrow> string \<times> int" where
  "ContentIdentity sha1 a =
     (case UpstreamChecksumIdentity sha1 a of (algorithm, sha1Hex) \<Rightarrow>
        if algorithm \<noteq> upstreamChecksumAlgorithmSHA1 then ([], 0) else (sha1Hex, ContentSizeBytes a))"

section \<open>Visibility and texts\<close>

definition present :: "gotime option \<Rightarrow> bool" where
  "present t \<longleftrightarrow> (case t of None \<Rightarrow> False | Some t \<Rightarrow> \<not> is_zero t)"

definition ShouldMirror :: "immich_asset \<Rightarrow> bool" where
  "ShouldMirror a \<longleftrightarrow>
     \<not> (iaIsArchived a \<or> iaIsTrashed a)
     \<and> (let visibility = trim_space (to_lower (iaVisibility a)) in visibility = [] \<or> visibility = ''timeline'')
     \<and> \<not> present (iaDeletedAt a) \<and> \<not> present (iaTrashedAt a)"

definition LocationMetadata :: "immich_asset \<Rightarrow> string \<times> string \<times> string \<times> string" where
  "LocationMetadata a =
     (case iaExifInfo a of
        None \<Rightarrow> ([], [], [], [])
      | Some e \<Rightarrow> (trim_space (ieCity e), trim_space (ieState e), trim_space (ieCountry e), trim_space (ieDescription e)))"

text \<open>\<open>strings.ToUpper\<close>, compared with an ASCII word: two other runes have an ASCII letter as upper case.\<close>

definition upper_char :: "char \<Rightarrow> char" where
  "upper_char c = (let n = of_char c :: nat in if 97 \<le> n \<and> n \<le> 122 then char_of (n - 32) else c)"

function to_upper :: "string \<Rightarrow> string" where
  "to_upper [] = []"
| "to_upper (c # cs) =
     (if c = CHR 0xC4 \<and> take 1 cs = [CHR 0xB1] then CHR ''I'' # to_upper (drop 1 cs)
      else if c = CHR 0xC5 \<and> take 1 cs = [CHR 0xBF] then CHR ''S'' # to_upper (drop 1 cs)
      else upper_char c # to_upper cs)"
  by pat_completeness auto
termination
  by (relation "measure length") auto

definition normalizeAssetType :: "string \<Rightarrow> string" where
  "normalizeAssetType v = (if to_upper (trim_space v) = ''VIDEO'' then ''video'' else ''image'')"

fun placeValues :: "(string \<Rightarrow> string) \<Rightarrow> string list \<Rightarrow> string set \<Rightarrow> string list" where
  "placeValues lower [] seen = []"
| "placeValues lower (part # parts) seen =
     (let part = trim_space part in
      if part = [] \<or> lower part \<in> seen then placeValues lower parts seen
      else part # placeValues lower parts (insert (lower part) seen))"

definition mirrorPlaceLabel :: "(string \<Rightarrow> string) \<Rightarrow> string list \<Rightarrow> string" where
  "mirrorPlaceLabel lower parts = join_with '', '' (placeValues lower parts {})"

section \<open>External libraries\<close>

definition normalizeImmichExternalPath :: "string \<Rightarrow> string" where
  "normalizeImmichExternalPath v = (let v = trim_space v in if v = [] then [] else path_Clean v)"

definition immichExternalRelativePath :: "string \<Rightarrow> string \<Rightarrow> string option" where
  "immichExternalRelativePath originalPath pre =
     (let originalPath = normalizeImmichExternalPath originalPath; pre = normalizeImmichExternalPath pre in
      if originalPath = [] \<or> pre = [] \<or> originalPath = pre \<or> \<not> has_prefix originalPath (pre @ ''/'') then None
      else
        let rel = drop (length pre + 1) originalPath in
        if rel = [] \<or> rel = ''.'' \<or> rel = ''..'' \<or> has_prefix rel ''../'' \<or> path_IsAbs rel then None
        else if path_Clean rel \<noteq> rel then None
        else Some rel)"

fun mappedImmichExternalPath :: "library_mapping list \<Rightarrow> string \<Rightarrow> string \<Rightarrow> (library_mapping \<times> string) option" where
  "mappedImmichExternalPath [] immichSourceKey originalPath = None"
| "mappedImmichExternalPath (m # ms) immichSourceKey originalPath =
     (if lmImmichSourceKey m \<noteq> trim_space immichSourceKey then mappedImmichExternalPath ms immichSourceKey originalPath
      else case immichExternalRelativePath originalPath (lmOriginalPathPrefix m) of
        Some rel \<Rightarrow> Some (m, rel)
      | None \<Rightarrow> mappedImmichExternalPath ms immichSourceKey originalPath)"

definition immichExternalOriginalPath :: "string \<Rightarrow> string \<Rightarrow> string option" where
  "immichExternalOriginalPath pre relativePath =
     (let pre = normalizeImmichExternalPath pre; rel = trim_space relativePath in
      if pre = [] \<or> rel = [] \<or> rel = ''.'' \<or> rel = ''..'' \<or> has_prefix rel ''../'' \<or> path_IsAbs rel then None
      else if path_Clean rel \<noteq> rel then None
      else Some (pre @ ''/'' @ rel))"

section \<open>Mirrored assets\<close>

text \<open>What the agent knows of itself when it reads a library.\<close>

record mirror_context =
  mcSourceKey :: string
  mcMappings :: "library_mapping list"
  mcScopeKey :: string
  mcSHA1 :: "string \<Rightarrow> string"
  mcLower :: "string \<Rightarrow> string"

definition updatedTime :: "immich_asset \<Rightarrow> gotime option" where
  "updatedTime a = (if present (iaUpdatedAt a) then iaUpdatedAt a else None)"

definition mirrorAsset :: "mirror_context \<Rightarrow> immich_asset \<Rightarrow> mirror_asset" where
  "mirrorAsset c a =
     (case LocationMetadata a of (city, state, country, description) \<Rightarrow>
      case UpstreamChecksumIdentity (mcSHA1 c) a of (algorithm, checksumHex) \<Rightarrow>
      case ContentIdentity (mcSHA1 c) a of (canonicalHex, canonicalSize) \<Rightarrow>
      case (case mappedImmichExternalPath (mcMappings c) (mcSourceKey c) (iaOriginalPath a) of
              None \<Rightarrow> ([], [], []) | Some (m, rel) \<Rightarrow> (lmLocalSourceKey m, lmLocalRootKey m, rel)) of (source, root, rel) \<Rightarrow>
        \<lparr>maExcluded = False, maUpstreamAssetID = iaID a, maMediaType = normalizeAssetType (iaType a),
         maFilename = iaOriginalFileName a, maCapturedAt = iaFileCreatedAt a, maDuration = iaDuration a,
         maSourceUpdatedAt = updatedTime a, maUpstreamChecksumAlgorithm = algorithm, maContentSHA1Hex = checksumHex,
         maContentSizeBytes = (if algorithm = upstreamChecksumAlgorithmSHA1 then ContentSizeBytes a else 0),
         maCanonicalContentSHA1Hex = canonicalHex, maCanonicalContentSizeBytes = canonicalSize,
         maMappedLocalSourceKey = source, maMappedLocalRootKey = root, maMappedLocalRelativePath = rel,
         maExternalContentIdentityScopeKey = mcScopeKey c, maIsFavorite = iaIsFavorite a,
         maCity = city, maState = state, maCountry = country,
         maPlaceLabel = mirrorPlaceLabel (mcLower c) [city, state, country], maDescription = description\<rparr>)"

text \<open>An asset that left the timeline: an update of an existing row, never a new one.\<close>

definition excludedAsset :: "immich_asset \<Rightarrow> mirror_asset" where
  "excludedAsset a =
     \<lparr>maExcluded = True, maUpstreamAssetID = iaID a, maMediaType = [], maFilename = [], maCapturedAt = zero_time,
      maDuration = None, maSourceUpdatedAt = updatedTime a, maUpstreamChecksumAlgorithm = [], maContentSHA1Hex = [],
      maContentSizeBytes = 0, maCanonicalContentSHA1Hex = [], maCanonicalContentSizeBytes = 0,
      maMappedLocalSourceKey = [], maMappedLocalRootKey = [], maMappedLocalRelativePath = [],
      maExternalContentIdentityScopeKey = [], maIsFavorite = False, maCity = [], maState = [], maCountry = [],
      maPlaceLabel = [], maDescription = []\<rparr>"

definition mirrorAssetHasRichMetadata :: "mirror_asset \<Rightarrow> bool" where
  "mirrorAssetHasRichMetadata m \<longleftrightarrow>
     (trim_space (maCanonicalContentSHA1Hex m) \<noteq> [] \<and> 0 < maCanonicalContentSizeBytes m)
     \<and> (maIsFavorite m \<or> trim_space (maCity m) \<noteq> [] \<or> trim_space (maState m) \<noteq> [] \<or> trim_space (maCountry m) \<noteq> []
        \<or> trim_space (maDescription m) \<noteq> [])"

definition enrichMirrorAssetFromImmichAsset :: "mirror_context \<Rightarrow> mirror_asset \<Rightarrow> immich_asset \<Rightarrow> mirror_asset" where
  "enrichMirrorAssetFromImmichAsset c m a =
     (case LocationMetadata a of (city, state, country, description) \<Rightarrow>
      case UpstreamChecksumIdentity (mcSHA1 c) a of (algorithm, checksumHex) \<Rightarrow>
      case ContentIdentity (mcSHA1 c) a of (canonicalHex, canonicalSize) \<Rightarrow>
        m\<lparr>maMediaType := normalizeAssetType (iaType a),
          maFilename := (if trim_space (iaOriginalFileName a) \<noteq> [] then trim_space (iaOriginalFileName a) else maFilename m),
          maCapturedAt := (if is_zero (iaFileCreatedAt a) then maCapturedAt m else iaFileCreatedAt a),
          maDuration := (if iaDuration a = None then maDuration m else iaDuration a),
          maSourceUpdatedAt := (if present (iaUpdatedAt a) then iaUpdatedAt a else maSourceUpdatedAt m),
          maUpstreamChecksumAlgorithm := algorithm, maContentSHA1Hex := checksumHex,
          maContentSizeBytes := (if algorithm = upstreamChecksumAlgorithmSHA1 then ContentSizeBytes a else 0),
          maCanonicalContentSHA1Hex := canonicalHex, maCanonicalContentSizeBytes := canonicalSize,
          maIsFavorite := iaIsFavorite a, maCity := city, maState := state, maCountry := country,
          maPlaceLabel := mirrorPlaceLabel (mcLower c) [city, state, country], maDescription := description\<rparr>)"

end
