(* ===== verification/Mirror_Pager.thy ===== *)
theory Mirror_Pager
  imports Mirror_Asset
begin

text \<open>
  Reading the assets of an Immich server (\<open>internal/catalog/immich_mirror_pager.go\<close>,
  \<open>immich_mirror_clock.go\<close> and \<open>fetchImmichMirrorAssets\<close> in \<open>service.go\<close>). The server is a parameter: its
  answer to the nth request of a synchronization, so that it may change between requests.
\<close>

section \<open>Requests\<close>

datatype mirror_error =
  ErrCatalogNotConfigured | ErrUnsupportedSearch | ErrInvalidSearchRequest | ErrRequest | ErrStatus | ErrDecode
| ErrContinuation | ErrNoCaptureTime | ErrOverfull | ErrClockStatus | ErrClockCached | ErrClockDate | ErrClockBackward
| ErrReconciliationRequired | ErrCursor | ErrScopeChanged

record fetch_options =
  foLatestAssetLimit :: int
  foUpdatedAfter :: "gotime option"
  foUpdatedBefore :: "gotime option"
  foVisibility :: string
  foDetailLimit :: int

record page_request =
  rqSize :: nat
  rqVisibility :: string
  rqWithDeleted :: bool
  rqUpdatedAfter :: "gotime option"
  rqUpdatedBefore :: "gotime option"
  rqTakenBefore :: "gotime option"

record search_page =
  spItems :: "immich_asset list"
  spNextPage :: "int option"

text \<open>An answer: no response, or a status and a body that may not decode.\<close>

type_synonym 'a answer = "(int \<times> 'a option) option"

definition read_answer :: "'a answer \<Rightarrow> (mirror_error, 'a) result" where
  "read_answer answer =
     (case answer of
        None \<Rightarrow> Inl ErrRequest
      | Some (status, body) \<Rightarrow>
          if status < 200 \<or> 300 \<le> status then Inl ErrStatus
          else case body of None \<Rightarrow> Inl ErrDecode | Some b \<Rightarrow> Inr b)"

record ping_response =
  prStatus :: int
  prAge :: string
  prDate :: "gotime option"

record mirror_server =
  svPing :: "ping_response option"
  svPage :: "nat \<Rightarrow> page_request \<Rightarrow> search_page answer"
  svDetail :: "nat \<Rightarrow> string \<Rightarrow> immich_asset answer"

text \<open>The time of the server, to the second; a cached answer would tell an older one.\<close>

definition immichMirrorWindowEnd :: "mirror_server \<Rightarrow> (mirror_error, gotime) result" where
  "immichMirrorWindowEnd sv =
     (case svPing sv of
        None \<Rightarrow> Inl ErrRequest
      | Some r \<Rightarrow>
          if prStatus r \<noteq> 200 then Inl ErrClockStatus
          else if trim_space (prAge r) \<noteq> [] \<and> trim_space (prAge r) \<noteq> ''0'' then Inl ErrClockCached
          else case prDate r of None \<Rightarrow> Inl ErrClockDate | Some t \<Rightarrow> Inr t)"

section \<open>The pager\<close>

definition maxPageSize :: nat where "maxPageSize = 200"
definition immichMirrorMaxPageSize :: nat where "immichMirrorMaxPageSize = 1000"

record mirror_pager =
  pgOptions :: fetch_options
  pgBefore :: "gotime option"
  pgSize :: nat
  pgSeen :: "string \<Rightarrow> gotime option"
  pgDone :: bool
  pgPendingErr :: bool

definition newPager :: "fetch_options \<Rightarrow> mirror_pager" where
  "newPager options = \<lparr>pgOptions = options, pgBefore = None, pgSize = 0, pgSeen = (\<lambda>_. None), pgDone = False, pgPendingErr = False\<rparr>"

definition filledSize :: "nat \<Rightarrow> nat" where
  "filledSize n = (if n = 0 then maxPageSize else n)"

definition pageRequest :: "mirror_pager \<Rightarrow> page_request" where
  "pageRequest p =
     (let known = (\<lambda>t. if present t then t else None); options = pgOptions p in
      \<lparr>rqSize = filledSize (pgSize p),
       rqVisibility = (if foVisibility options = [] then ''timeline'' else foVisibility options),
       rqWithDeleted = (foUpdatedAfter options \<noteq> None),
       rqUpdatedAfter = known (foUpdatedAfter options),
       rqUpdatedBefore = known (foUpdatedBefore options),
       rqTakenBefore = known (pgBefore p)\<rparr>)"

text \<open>
  The oldest capture time of a page, the end of its millisecond, and the range of the next request. A page that
  does not get past its boundary is read again in the largest size, and after that it is too full.
\<close>

fun oldestCapture :: "immich_asset list \<Rightarrow> gotime \<Rightarrow> (mirror_error, gotime) result" where
  "oldestCapture [] oldest = Inr oldest"
| "oldestCapture (a # as) oldest =
     (if is_zero (iaFileCreatedAt a) then Inl ErrNoCaptureTime
      else oldestCapture as (if is_zero oldest \<or> iaFileCreatedAt a < oldest then iaFileCreatedAt a else oldest))"

definition pageBoundary :: "gotime \<Rightarrow> gotime" where
  "pageBoundary oldest = oldest - oldest mod 1000000 + 1000000"

definition narrow :: "gotime \<Rightarrow> mirror_pager \<Rightarrow> mirror_pager" where
  "narrow boundary p =
     (if (case pgBefore p of None \<Rightarrow> False | Some b \<Rightarrow> b \<le> boundary) then
        if pgSize p < immichMirrorMaxPageSize then p\<lparr>pgSize := immichMirrorMaxPageSize\<rparr> else p\<lparr>pgPendingErr := True\<rparr>
      else p\<lparr>pgBefore := Some boundary\<rparr>)"

definition continuePage :: "search_page \<Rightarrow> mirror_pager \<Rightarrow> (mirror_error, mirror_pager) result" where
  "continuePage page p =
     (case spNextPage page of
        None \<Rightarrow> Inr (p\<lparr>pgDone := True\<rparr>)
      | Some n \<Rightarrow>
          if n \<noteq> 2 \<or> spItems page = [] then Inl ErrContinuation
          else case oldestCapture (spItems page) zero_time of
            Inl e \<Rightarrow> Inl e
          | Inr oldest \<Rightarrow> Inr (narrow (pageBoundary oldest) p))"

text \<open>Assets of the page before are left out unless they were updated since.\<close>

definition updatedOrZero :: "immich_asset \<Rightarrow> gotime" where
  "updatedOrZero a = (case iaUpdatedAt a of None \<Rightarrow> zero_time | Some t \<Rightarrow> t)"

definition seenOf :: "immich_asset list \<Rightarrow> string \<Rightarrow> gotime option" where
  "seenOf items = fold (\<lambda>a seen. seen(iaID a \<mapsto> updatedOrZero a)) items (\<lambda>_. None)"

definition freshItems :: "(string \<Rightarrow> gotime option) \<Rightarrow> immich_asset list \<Rightarrow> immich_asset list" where
  "freshItems seen items =
     filter (\<lambda>a. case seen (iaID a) of None \<Rightarrow> True | Some previous \<Rightarrow> previous < updatedOrZero a) items"

definition pager_next :: "search_page answer \<Rightarrow> mirror_pager \<Rightarrow> (mirror_error, immich_asset list \<times> mirror_pager) result" where
  "pager_next answer p =
     (if pgPendingErr p then Inl ErrOverfull
      else
        let p = p\<lparr>pgSize := filledSize (pgSize p)\<rparr> in
        case read_answer answer of
          Inl e \<Rightarrow> Inl e
        | Inr page \<Rightarrow>
            (case continuePage page p of
               Inl e \<Rightarrow> Inl e
             | Inr p' \<Rightarrow> Inr (freshItems (pgSeen p) (spItems page), p'\<lparr>pgSeen := seenOf (spItems page)\<rparr>)))"

section \<open>Fetching a library\<close>

text \<open>The state of \<open>fetchImmichMirrorAssets\<close>: how many requests were made, what was found, and the details left to ask.\<close>

record fetch_state =
  fsRequests :: nat
  fsAssets :: "mirror_asset list"
  fsIndexes :: "string \<Rightarrow> nat option"
  fsDetails :: int

definition limited :: "int \<Rightarrow> string \<Rightarrow> mirror_asset \<Rightarrow> fetch_state \<Rightarrow> fetch_state" where
  "limited limit sid m st =
     (if 0 < limit then
        case fsIndexes st sid of
          Some i \<Rightarrow> st\<lparr>fsAssets := (fsAssets st)[i := m]\<rparr>
        | None \<Rightarrow> st\<lparr>fsAssets := fsAssets st @ [m], fsIndexes := (fsIndexes st)(sid \<mapsto> length (fsAssets st))\<rparr>
      else st\<lparr>fsAssets := fsAssets st @ [m]\<rparr>)"

text \<open>What is asked of the server about an asset whose metadata are poor; \<open>None\<close> drops it.\<close>

definition withDetail ::
    "mirror_server \<Rightarrow> mirror_context \<Rightarrow> bool \<Rightarrow> immich_asset \<Rightarrow> fetch_state \<Rightarrow>
     (mirror_error, mirror_asset option \<times> fetch_state) result" where
  "withDetail sv c incremental a st =
     (let m = mirrorAsset c a in
      if fsDetails st \<le> 0 \<or> mirrorAssetHasRichMetadata m then Inr (Some m, st)
      else if trim_space (iaID a) = [] then Inl ErrInvalidSearchRequest
      else case read_answer (svDetail sv (fsRequests st) (trim_space (iaID a))) of
        Inl e \<Rightarrow> Inl e
      | Inr detail \<Rightarrow>
          let st = st\<lparr>fsRequests := fsRequests st + 1, fsDetails := fsDetails st - 1\<rparr> in
          if \<not> ShouldMirror detail then Inr (None, st)
          else
            let m = enrichMirrorAssetFromImmichAsset c m detail in
            Inr (Some (if incremental then m\<lparr>maSourceUpdatedAt := updatedTime a\<rparr> else m), st))"

text \<open>One asset of a page: an error, or the next state and whether the limit is reached.\<close>

definition fetchItem ::
    "mirror_server \<Rightarrow> mirror_context \<Rightarrow> bool \<Rightarrow> int \<Rightarrow> immich_asset \<Rightarrow> fetch_state \<Rightarrow> (mirror_error, bool \<times> fetch_state) result" where
  "fetchItem sv c incremental limit a st =
     (if trim_space (iaID a) = [] then Inr (False, st)
      else if \<not> ShouldMirror a then
        Inr (False, if incremental then st\<lparr>fsAssets := fsAssets st @ [excludedAsset a]\<rparr> else st)
      else if is_zero (iaFileCreatedAt a) then Inr (False, st)
      else case withDetail sv c incremental a st of
        Inl e \<Rightarrow> Inl e
      | Inr (None, st) \<Rightarrow>
          Inr (False, if incremental then st\<lparr>fsAssets := fsAssets st @ [excludedAsset a]\<rparr> else st)
      | Inr (Some m, st) \<Rightarrow>
          let st = limited limit (iaID a) m st in Inr (0 < limit \<and> limit \<le> int (length (fsAssets st)), st))"

fun fetchItems ::
    "mirror_server \<Rightarrow> mirror_context \<Rightarrow> bool \<Rightarrow> int \<Rightarrow> immich_asset list \<Rightarrow> fetch_state \<Rightarrow> (mirror_error, bool \<times> fetch_state) result" where
  "fetchItems sv c incremental limit [] st = Inr (False, st)"
| "fetchItems sv c incremental limit (a # as) st =
     (case fetchItem sv c incremental limit a st of
        Inl e \<Rightarrow> Inl e
      | Inr (True, st) \<Rightarrow> Inr (True, st)
      | Inr (False, st) \<Rightarrow> fetchItems sv c incremental limit as st)"

text \<open>The loop over the pages, for at most as many pages as there is fuel; \<open>None\<close> when it runs out.\<close>

fun fetchPages ::
    "nat \<Rightarrow> mirror_server \<Rightarrow> mirror_context \<Rightarrow> bool \<Rightarrow> int \<Rightarrow> mirror_pager \<Rightarrow> fetch_state \<Rightarrow> (mirror_error, fetch_state) result option" where
  "fetchPages fuel sv c incremental limit p st =
     (if pgDone p then Some (Inr st)
      else case fuel of
        0 \<Rightarrow> None
      | Suc fuel \<Rightarrow>
          (case pager_next (svPage sv (fsRequests st) (pageRequest p)) p of
             Inl e \<Rightarrow> Some (Inl e)
           | Inr (items, p) \<Rightarrow>
               (case fetchItems sv c incremental limit items (st\<lparr>fsRequests := fsRequests st + 1\<rparr>) of
                  Inl e \<Rightarrow> Some (Inl e)
                | Inr (True, st) \<Rightarrow> Some (Inr st)
                | Inr (False, st) \<Rightarrow> fetchPages fuel sv c incremental limit p st)))"

declare fetchPages.simps [simp del]

definition fetchImmichMirrorAssets ::
    "nat \<Rightarrow> mirror_server \<Rightarrow> mirror_context \<Rightarrow> fetch_options \<Rightarrow> nat \<Rightarrow> (mirror_error, fetch_state) result option" where
  "fetchImmichMirrorAssets fuel sv c options requests =
     fetchPages fuel sv c (present (foUpdatedAfter options)) (max 0 (foLatestAssetLimit options)) (newPager options)
       \<lparr>fsRequests = requests, fsAssets = [], fsIndexes = (\<lambda>_. None), fsDetails = max 0 (foDetailLimit options)\<rparr>"

end
