(* ===== verification/Mirror_Store.thy ===== *)
theory Mirror_Store
  imports Mirror_Pager "HOL-Library.Char_ord" "HOL-Library.List_Lexorder"
begin

text \<open>
  The mirror of an Immich library in the catalogue (\<open>internal/catalog/catalog_store.go\<close> and
  \<open>immich_mirror_cursor.go\<close>), and the synchronization that keeps it up to date (\<open>syncMirrorDatasource\<close> in
  \<open>service.go\<close>). Of the catalogue's tables the state has the assets, the state of the mirrors and the scope of external
  identities; the identities of local files are read only. The canonical assets and the generations of the
  semantic index follow from the identifiers that each synchronization reports as changed. A transaction that
  returns an error rolls back; failures of SQLite are not modelled. \<open>NULL\<close> is \<open>None\<close>.
\<close>

section \<open>Tables\<close>

record asset_columns =
  acMediaType :: string
  acFilename :: string
  acCapturedAt :: gotime
  acDuration :: "string option"
  acSourceUpdatedAt :: "gotime option"
  acIsFavorite :: bool
  acUpstreamChecksumAlgorithm :: string
  acContentSHA1Hex :: "string option"
  acContentSizeBytes :: "int option"
  acCanonicalContentSHA1Hex :: "string option"
  acCanonicalContentSizeBytes :: "int option"
  acPlaceLabel :: "string option"
  acDescription :: "string option"

record catalog_row =
  crSourceKey :: string
  crDatasourceKind :: string
  crUpstreamAssetID :: string
  crVisibilityStatus :: string
  crColumns :: asset_columns
  crFirstSeenAt :: gotime
  crUpdatedAt :: gotime

record mirror_state =
  mtStatus :: string
  mtLatestAssetLimit :: int
  mtLastFullSyncAt :: "gotime option"
  mtLastIncrementalSyncAt :: "gotime option"
  mtLastError :: "string option"
  mtUpdatedAt :: gotime
  mtSyncedThrough :: "gotime option"
  mtSyncClock :: string

record catalog =
  ctAssets :: "catalog_row list"
  ctStates :: "string \<Rightarrow> mirror_state option"
  ctScopeKey :: "string option"
  ctLocal :: "string \<Rightarrow> string \<Rightarrow> string \<Rightarrow> (string \<times> int) option"

definition MirrorVisibilityActive :: string where "MirrorVisibilityActive = ''active''"
definition MirrorVisibilityMissing :: string where "MirrorVisibilityMissing = ''missing''"
definition MirrorVisibilityOutOfScope :: string where "MirrorVisibilityOutOfScope = ''out_of_scope''"
definition immichMirrorClock :: string where "immichMirrorClock = ''upstream-http-date-v1''"
definition immichKind :: string where "immichKind = ''immich''"

section \<open>Rows\<close>

definition nullableCatalogText :: "string \<Rightarrow> string option" where
  "nullableCatalogText v = (let v = trim_space v in if v = [] then None else Some v)"

definition nullableCatalogSHA1 :: "string \<Rightarrow> string option" where
  "nullableCatalogSHA1 v = (let v = normalizeCatalogSHA1Hex v in if v = [] then None else Some v)"

definition nullablePositiveInt64 :: "int \<Rightarrow> int option" where
  "nullablePositiveInt64 n = (if n \<le> 0 then None else Some n)"

definition normalizeMirrorMediaType :: "string \<Rightarrow> string" where
  "normalizeMirrorMediaType v = (if to_lower (trim_space v) = ''video'' then ''video'' else ''image'')"

definition normalizeMirrorUpstreamChecksumAlgorithm :: "mirror_asset \<Rightarrow> string" where
  "normalizeMirrorUpstreamChecksumAlgorithm m =
     (let algorithm = trim_space (maUpstreamChecksumAlgorithm m) in
      if algorithm \<in> {upstreamChecksumAlgorithmSHA1, upstreamChecksumAlgorithmSHA1Path, upstreamChecksumAlgorithmUnknown}
      then algorithm
      else if algorithm = [] \<and> normalizeCatalogSHA1Hex (maContentSHA1Hex m) \<noteq> [] then upstreamChecksumAlgorithmSHA1
      else upstreamChecksumAlgorithmUnknown)"

definition columnsOf :: "mirror_asset \<Rightarrow> asset_columns" where
  "columnsOf m =
     \<lparr>acMediaType = normalizeMirrorMediaType (maMediaType m), acFilename = trim_space (maFilename m),
      acCapturedAt = maCapturedAt m, acDuration = maDuration m,
      acSourceUpdatedAt = (if present (maSourceUpdatedAt m) then maSourceUpdatedAt m else None),
      acIsFavorite = maIsFavorite m,
      acUpstreamChecksumAlgorithm = normalizeMirrorUpstreamChecksumAlgorithm m,
      acContentSHA1Hex = nullableCatalogSHA1 (maContentSHA1Hex m),
      acContentSizeBytes = nullablePositiveInt64 (maContentSizeBytes m),
      acCanonicalContentSHA1Hex = nullableCatalogSHA1 (maCanonicalContentSHA1Hex m),
      acCanonicalContentSizeBytes = nullablePositiveInt64 (maCanonicalContentSizeBytes m),
      acPlaceLabel = nullableCatalogText (maPlaceLabel m), acDescription = nullableCatalogText (maDescription m)\<rparr>"

text \<open>The row of an asset, and the upsert that changes a row only if it differs.\<close>

definition is_row :: "string \<Rightarrow> string \<Rightarrow> catalog_row \<Rightarrow> bool" where
  "is_row source sid r \<longleftrightarrow> crSourceKey r = source \<and> crUpstreamAssetID r = sid"

definition rowDiffers :: "asset_columns \<Rightarrow> catalog_row \<Rightarrow> bool" where
  "rowDiffers cols r \<longleftrightarrow>
     crDatasourceKind r \<noteq> immichKind \<or> crVisibilityStatus r \<noteq> MirrorVisibilityActive \<or> crColumns r \<noteq> cols"

definition upsertRow :: "string \<Rightarrow> gotime \<Rightarrow> string \<Rightarrow> asset_columns \<Rightarrow> catalog_row list \<Rightarrow> catalog_row list" where
  "upsertRow source now sid cols rows =
     (if list_ex (is_row source sid) rows then
        map (\<lambda>r. if is_row source sid r \<and> rowDiffers cols r
               then r\<lparr>crDatasourceKind := immichKind, crVisibilityStatus := MirrorVisibilityActive, crColumns := cols,
                 crUpdatedAt := now\<rparr>
               else r) rows
      else rows @ [\<lparr>crSourceKey = source, crDatasourceKind = immichKind, crUpstreamAssetID = sid,
        crVisibilityStatus = MirrorVisibilityActive, crColumns = cols, crFirstSeenAt = now, crUpdatedAt = now\<rparr>])"

definition upsertAffects :: "string \<Rightarrow> string \<Rightarrow> asset_columns \<Rightarrow> catalog_row list \<Rightarrow> bool" where
  "upsertAffects source sid cols rows \<longleftrightarrow>
     \<not> list_ex (is_row source sid) rows \<or> list_ex (\<lambda>r. is_row source sid r \<and> rowDiffers cols r) rows"

section \<open>State of a mirror\<close>

definition countVisible :: "string \<Rightarrow> string \<Rightarrow> catalog_row list \<Rightarrow> nat" where
  "countVisible source visibility rows =
     length (filter (\<lambda>r. crSourceKey r = source \<and> crDatasourceKind r = immichKind \<and> crVisibilityStatus r = visibility) rows)"

record mirror_status =
  stStatus :: string
  stLatestAssetLimit :: int
  stActiveCount :: nat
  stOutOfScopeCount :: nat
  stMissingCount :: nat
  stLastFullSyncAt :: "gotime option"
  stLastIncrementalSyncAt :: "gotime option"
  stLastError :: string

definition statusInTx :: "catalog \<Rightarrow> string \<Rightarrow> mirror_status" where
  "statusInTx ct source =
     \<lparr>stStatus = [], stLatestAssetLimit = 0, stActiveCount = countVisible source MirrorVisibilityActive (ctAssets ct),
      stOutOfScopeCount = countVisible source MirrorVisibilityOutOfScope (ctAssets ct),
      stMissingCount = countVisible source MirrorVisibilityMissing (ctAssets ct),
      stLastFullSyncAt = None, stLastIncrementalSyncAt = None, stLastError = []\<rparr>"

definition stateMetadataInTx :: "catalog \<Rightarrow> string \<Rightarrow> int \<times> gotime option \<times> gotime option" where
  "stateMetadataInTx ct source =
     (case ctStates ct source of
        None \<Rightarrow> (0, None, None)
      | Some s \<Rightarrow> (mtLatestAssetLimit s, mtLastFullSyncAt s, mtLastIncrementalSyncAt s))"

definition reconciliationRequired :: string where
  "reconciliationRequired = ''Immich mirror requires one full reconciliation to initialize the upstream-clock checkpoint; run datasource indexing in full mode''"

definition catalog_Status :: "catalog \<Rightarrow> string \<Rightarrow> mirror_status" where
  "catalog_Status ct sourceKey =
     (let source = trim_space sourceKey; status = statusInTx ct source in
      case ctStates ct source of
        None \<Rightarrow> status
      | Some s \<Rightarrow>
          let status = status\<lparr>stStatus := mtStatus s, stLatestAssetLimit := mtLatestAssetLimit s,
                stLastFullSyncAt := mtLastFullSyncAt s, stLastIncrementalSyncAt := mtLastIncrementalSyncAt s,
                stLastError := (case mtLastError s of None \<Rightarrow> [] | Some e \<Rightarrow> e)\<rparr>
          in if mtSyncedThrough s = None \<or> mtSyncClock s \<noteq> immichMirrorClock
             then status\<lparr>stStatus := ''error'', stLastError := reconciliationRequired\<rparr> else status)"

definition upsertStateInTx :: "string \<Rightarrow> mirror_status \<Rightarrow> gotime \<Rightarrow> gotime \<Rightarrow> catalog \<Rightarrow> catalog" where
  "upsertStateInTx source status now syncedThrough ct =
     ct\<lparr>ctStates := (ctStates ct)(source \<mapsto>
       \<lparr>mtStatus = stStatus status, mtLatestAssetLimit = stLatestAssetLimit status,
        mtLastFullSyncAt = stLastFullSyncAt status, mtLastIncrementalSyncAt = stLastIncrementalSyncAt status,
        mtLastError = (if trim_space (stLastError status) \<noteq> [] then Some (stLastError status) else None),
        mtUpdatedAt = now, mtSyncedThrough = (if is_zero syncedThrough then None else Some syncedThrough),
        mtSyncClock = immichMirrorClock\<rparr>)\<rparr>"

text \<open>The cursor of the next incremental synchronization; without a state there is none.\<close>

definition immichMirrorUpdatedAfter :: "catalog \<Rightarrow> string \<Rightarrow> (mirror_error, gotime option) result" where
  "immichMirrorUpdatedAfter ct source =
     (case ctStates ct (trim_space source) of
        None \<Rightarrow> Inr None
      | Some s \<Rightarrow>
          if mtSyncedThrough s = None \<or> mtSyncClock s \<noteq> immichMirrorClock then Inl ErrReconciliationRequired
          else Inr (mtSyncedThrough s))"

text \<open>The identities that the assets were computed for must still be those of the configuration.\<close>

fun scopeOf :: "mirror_asset list \<Rightarrow> string \<Rightarrow> (mirror_error, string) result" where
  "scopeOf [] expected = Inr expected"
| "scopeOf (m # ms) expected =
     (let scope = trim_space (maExternalContentIdentityScopeKey m) in
      if scope = [] then scopeOf ms expected
      else if expected \<noteq> [] \<and> expected \<noteq> scope then Inl ErrScopeChanged
      else scopeOf ms scope)"

definition lockImmichMirrorExternalIdentityScopeInTx :: "mirror_asset list \<Rightarrow> catalog \<Rightarrow> (mirror_error, unit) result" where
  "lockImmichMirrorExternalIdentityScopeInTx assets ct =
     (case scopeOf assets [] of
        Inl e \<Rightarrow> Inl e
      | Inr expected \<Rightarrow> if expected = [] \<or> ctScopeKey ct = Some expected then Inr () else Inl ErrScopeChanged)"

section \<open>Full synchronization\<close>

text \<open>The temporary table of what was fetched; a later entry for the same identifier replaces the earlier one.\<close>

record stage_row =
  sgUpstreamAssetID :: string
  sgColumns :: asset_columns
  sgMapped :: "string option \<times> string option \<times> string option"

definition stageAsset :: "mirror_asset \<Rightarrow> stage_row" where
  "stageAsset m =
     \<lparr>sgUpstreamAssetID = trim_space (maUpstreamAssetID m), sgColumns = columnsOf m,
      sgMapped = (nullableCatalogText (maMappedLocalSourceKey m), nullableCatalogText (maMappedLocalRootKey m),
        nullableCatalogText (maMappedLocalRelativePath m))\<rparr>"

definition stageInsert :: "stage_row \<Rightarrow> stage_row list \<Rightarrow> stage_row list" where
  "stageInsert s stage =
     (if list_ex (\<lambda>t. sgUpstreamAssetID t = sgUpstreamAssetID s) stage
      then map (\<lambda>t. if sgUpstreamAssetID t = sgUpstreamAssetID s
             then t\<lparr>sgColumns := sgColumns s, sgMapped := sgMapped s\<rparr> else t) stage
      else stage @ [s])"

definition stageAssets :: "mirror_asset list \<Rightarrow> stage_row list" where
  "stageAssets assets =
     fold (\<lambda>m stage. if trim_space (maUpstreamAssetID m) = [] \<or> is_zero (maCapturedAt m) then stage
           else stageInsert (stageAsset m) stage) assets []"

text \<open>External files have the identity of the local file that they are mapped to, or none.\<close>

definition resolveStage :: "(string \<Rightarrow> string \<Rightarrow> string \<Rightarrow> (string \<times> int) option) \<Rightarrow> stage_row \<Rightarrow> stage_row" where
  "resolveStage loc s =
     (case sgMapped s of
        (Some source, Some root, Some rel) \<Rightarrow>
          if acUpstreamChecksumAlgorithm (sgColumns s) \<noteq> upstreamChecksumAlgorithmSHA1Path then s
          else s\<lparr>sgColumns := (sgColumns s)\<lparr>acCanonicalContentSHA1Hex := map_option fst (loc source root rel),
                 acCanonicalContentSizeBytes := map_option snd (loc source root rel)\<rparr>\<rparr>
      | _ \<Rightarrow> s)"

definition stageFor :: "stage_row list \<Rightarrow> string \<Rightarrow> stage_row option" where
  "stageFor stage sid = List.find (\<lambda>s. sgUpstreamAssetID s = sid) stage"

text \<open>
  What will change: rows that are hidden, rows that differ and rows that are new, in the order of their
  identifiers, and whether the semantic index is concerned.
\<close>

definition semanticDiffers :: "asset_columns \<Rightarrow> catalog_row \<Rightarrow> bool" where
  "semanticDiffers cols r \<longleftrightarrow>
     crDatasourceKind r \<noteq> immichKind \<or> crVisibilityStatus r \<noteq> MirrorVisibilityActive
     \<or> acMediaType (crColumns r) \<noteq> acMediaType cols \<or> acFilename (crColumns r) \<noteq> acFilename cols
     \<or> acCapturedAt (crColumns r) \<noteq> acCapturedAt cols \<or> acDuration (crColumns r) \<noteq> acDuration cols
     \<or> acContentSHA1Hex (crColumns r) \<noteq> acContentSHA1Hex cols \<or> acContentSizeBytes (crColumns r) \<noteq> acContentSizeBytes cols"

definition immichFullSyncChangesInTx :: "catalog_row list \<Rightarrow> stage_row list \<Rightarrow> string \<Rightarrow> string \<Rightarrow> string list \<times> bool" where
  "immichFullSyncChangesInTx rows stage source hidden =
     (let old = concat (map (\<lambda>r. if crSourceKey r \<noteq> source then [] else
                  case stageFor stage (crUpstreamAssetID r) of
                    None \<Rightarrow> if crDatasourceKind r = immichKind \<and> crVisibilityStatus r \<noteq> hidden
                      then [(crUpstreamAssetID r, True)] else []
                  | Some s \<Rightarrow> if rowDiffers (sgColumns s) r
                      then [(crUpstreamAssetID r, semanticDiffers (sgColumns s) r)] else []) rows);
          new = map (\<lambda>s. (sgUpstreamAssetID s, True))
                  (filter (\<lambda>s. \<not> list_ex (is_row source (sgUpstreamAssetID s)) rows) stage);
          changes = sort_key fst (old @ new)
      in (map fst changes, list_ex snd changes))"

definition hideAbsent :: "string \<Rightarrow> gotime \<Rightarrow> string \<Rightarrow> stage_row list \<Rightarrow> catalog_row list \<Rightarrow> catalog_row list" where
  "hideAbsent source now hidden stage rows =
     map (\<lambda>r. if crSourceKey r = source \<and> crDatasourceKind r = immichKind \<and> crVisibilityStatus r \<noteq> hidden
              \<and> stageFor stage (crUpstreamAssetID r) = None
            then r\<lparr>crVisibilityStatus := hidden, crUpdatedAt := now\<rparr> else r) rows"

definition applyStage :: "string \<Rightarrow> gotime \<Rightarrow> stage_row list \<Rightarrow> catalog_row list \<Rightarrow> catalog_row list" where
  "applyStage source now stage rows = fold (\<lambda>s. upsertRow source now (sgUpstreamAssetID s) (sgColumns s)) stage rows"

record sync_result =
  srSyncedThrough :: gotime
  srMode :: string
  srStatus :: string
  srLatestAssetLimit :: int
  srFetchedCount :: nat
  srActiveCount :: nat
  srOutOfScopeCount :: nat
  srMissingCount :: nat
  srStartedAt :: gotime
  srCompletedAt :: gotime
  srMirror :: mirror_status
  srChangedAssets :: "string list"

definition MirrorSyncModeFull :: string where "MirrorSyncModeFull = ''full''"
definition MirrorSyncModeIncremental :: string where "MirrorSyncModeIncremental = ''incremental''"

definition ReplaceFull ::
    "string \<Rightarrow> mirror_asset list \<Rightarrow> int \<Rightarrow> gotime \<Rightarrow> gotime \<Rightarrow> gotime \<Rightarrow> catalog \<Rightarrow> (mirror_error, sync_result) result \<times> catalog" where
  "ReplaceFull sourceKey assets latestAssetLimit startedAt windowEnd now ct =
     (let source = trim_space sourceKey; limit = max 0 latestAssetLimit in
      if source = [] then (Inl ErrCatalogNotConfigured, ct)
      else case lockImmichMirrorExternalIdentityScopeInTx assets ct of
        Inl e \<Rightarrow> (Inl e, ct)
      | Inr _ \<Rightarrow>
          let hidden = (if 0 < limit then MirrorVisibilityOutOfScope else MirrorVisibilityMissing);
              stage = map (resolveStage (ctLocal ct)) (stageAssets assets);
              (changed, semantic) = immichFullSyncChangesInTx (ctAssets ct) stage source hidden;
              ct = ct\<lparr>ctAssets := applyStage source now stage (hideAbsent source now hidden stage (ctAssets ct))\<rparr>;
              (_, _, lastIncremental) = stateMetadataInTx ct source;
              status = (statusInTx ct source)\<lparr>stStatus := ''ok'', stLatestAssetLimit := limit, stLastFullSyncAt := Some now,
                stLastIncrementalSyncAt := lastIncremental, stLastError := []\<rparr>
          in (Inr \<lparr>srSyncedThrough = windowEnd, srMode = MirrorSyncModeFull, srStatus = ''ok'', srLatestAssetLimit = limit,
                srFetchedCount = length assets, srActiveCount = stActiveCount status, srOutOfScopeCount = stOutOfScopeCount status,
                srMissingCount = stMissingCount status, srStartedAt = startedAt, srCompletedAt = now, srMirror = status,
                srChangedAssets = changed\<rparr>,
              upsertStateInTx source status now windowEnd ct))"

section \<open>Incremental synchronization\<close>

definition resolveImmichMirrorAssetCanonicalIdentityInTx ::
    "(string \<Rightarrow> string \<Rightarrow> string \<Rightarrow> (string \<times> int) option) \<Rightarrow> mirror_asset \<Rightarrow> mirror_asset" where
  "resolveImmichMirrorAssetCanonicalIdentityInTx loc m =
     (if normalizeMirrorUpstreamChecksumAlgorithm m \<noteq> upstreamChecksumAlgorithmSHA1Path
         \<or> trim_space (maMappedLocalSourceKey m) = [] \<or> trim_space (maMappedLocalRootKey m) = []
         \<or> trim_space (maMappedLocalRelativePath m) = [] then m
      else case loc (maMappedLocalSourceKey m) (maMappedLocalRootKey m) (maMappedLocalRelativePath m) of
        None \<Rightarrow> m\<lparr>maCanonicalContentSHA1Hex := [], maCanonicalContentSizeBytes := 0\<rparr>
      | Some (hex, n) \<Rightarrow> m\<lparr>maCanonicalContentSHA1Hex := normalizeCatalogSHA1Hex hex, maCanonicalContentSizeBytes := n\<rparr>)"

definition excludeMatches :: "string \<Rightarrow> string \<Rightarrow> gotime option \<Rightarrow> catalog_row \<Rightarrow> bool" where
  "excludeMatches source sid updated r \<longleftrightarrow>
     is_row source sid r \<and> crDatasourceKind r = immichKind
     \<and> (crVisibilityStatus r \<noteq> MirrorVisibilityOutOfScope
        \<or> updated \<noteq> None \<and> acSourceUpdatedAt (crColumns r) \<noteq> updated)"

definition excludeRow :: "string \<Rightarrow> gotime \<Rightarrow> string \<Rightarrow> gotime option \<Rightarrow> catalog_row list \<Rightarrow> catalog_row list" where
  "excludeRow source now sid updated rows =
     map (\<lambda>r. if excludeMatches source sid updated r
            then r\<lparr>crVisibilityStatus := MirrorVisibilityOutOfScope,
              crColumns := (crColumns r)\<lparr>acSourceUpdatedAt :=
                (if updated = None then acSourceUpdatedAt (crColumns r) else updated)\<rparr>, crUpdatedAt := now\<rparr>
            else r) rows"

text \<open>One asset of the batch: the rows, and the identifiers that were changed so far.\<close>

definition mergeAsset ::
    "(string \<Rightarrow> string \<Rightarrow> string \<Rightarrow> (string \<times> int) option) \<Rightarrow> string \<Rightarrow> gotime \<Rightarrow> mirror_asset \<Rightarrow>
     catalog_row list \<times> string list \<Rightarrow> catalog_row list \<times> string list" where
  "mergeAsset loc source now m acc =
     (case acc of (rows, changed) \<Rightarrow>
        let sid = trim_space (maUpstreamAssetID m); note_changed = (\<lambda>b. if b \<and> sid \<notin> set changed then changed @ [sid] else changed) in
        if sid = [] then acc
        else if maExcluded m then
          let updated = (if present (maSourceUpdatedAt m) then maSourceUpdatedAt m else None) in
          (excludeRow source now sid updated rows, note_changed (list_ex (excludeMatches source sid updated) rows))
        else if is_zero (maCapturedAt m) then acc
        else
          let cols = columnsOf (resolveImmichMirrorAssetCanonicalIdentityInTx loc m) in
          (upsertRow source now sid cols rows, note_changed (upsertAffects source sid cols rows)))"

definition MergeIncremental ::
    "string \<Rightarrow> mirror_asset list \<Rightarrow> gotime \<Rightarrow> gotime \<Rightarrow> gotime \<Rightarrow> catalog \<Rightarrow> (mirror_error, sync_result) result \<times> catalog" where
  "MergeIncremental sourceKey assets startedAt windowEnd now ct =
     (let source = trim_space sourceKey in
      if source = [] then (Inl ErrCatalogNotConfigured, ct)
      else case lockImmichMirrorExternalIdentityScopeInTx assets ct of
        Inl e \<Rightarrow> (Inl e, ct)
      | Inr _ \<Rightarrow>
          let (rows, changed) = fold (mergeAsset (ctLocal ct) source now) assets (ctAssets ct, []);
              ct = ct\<lparr>ctAssets := rows\<rparr>;
              (limit, lastFull, _) = stateMetadataInTx ct source;
              status = (statusInTx ct source)\<lparr>stStatus := ''ok'', stLatestAssetLimit := limit, stLastFullSyncAt := lastFull,
                stLastIncrementalSyncAt := Some now, stLastError := []\<rparr>
          in (Inr \<lparr>srSyncedThrough = windowEnd, srMode = MirrorSyncModeIncremental, srStatus = ''ok'', srLatestAssetLimit = 0,
                srFetchedCount = length assets, srActiveCount = stActiveCount status, srOutOfScopeCount = stOutOfScopeCount status,
                srMissingCount = stMissingCount status, srStartedAt = startedAt, srCompletedAt = now, srMirror = status,
                srChangedAssets = changed\<rparr>,
              upsertStateInTx source status now windowEnd ct))"

section \<open>Synchronization\<close>

record mirror_datasource =
  dsKind :: string
  dsSourceKey :: string
  dsLatestAssetLimit :: int
  dsMetadataDetailLimit :: int

definition immichDatasourceIndexed :: "mirror_datasource \<Rightarrow> bool" where
  "immichDatasourceIndexed ds \<longleftrightarrow> dsKind ds = ''immich_indexed'' \<and> trim_space (dsSourceKey ds) \<noteq> []"

definition mirrorSyncNeedsFullForConfiguredLimit :: "catalog \<Rightarrow> string \<Rightarrow> int \<Rightarrow> bool" where
  "mirrorSyncNeedsFullForConfiguredLimit ct source configuredLimit =
     (let status = catalog_Status ct source in
      stLastFullSyncAt status = None \<or> stLatestAssetLimit status \<noteq> configuredLimit)"

text \<open>The mode that is used and the start of its window.\<close>

definition syncMode :: "catalog \<Rightarrow> string \<Rightarrow> int \<Rightarrow> string \<Rightarrow> (mirror_error, gotime option) result" where
  "syncMode ct source limit mode =
     (if mode \<noteq> MirrorSyncModeIncremental \<or> mirrorSyncNeedsFullForConfiguredLimit ct source limit then Inr None
      else immichMirrorUpdatedAfter ct source)"

text \<open>The three scopes of an incremental synchronization are read over the same window.\<close>

fun fetchScopes ::
    "nat \<Rightarrow> mirror_server \<Rightarrow> mirror_context \<Rightarrow> (string \<Rightarrow> fetch_options) \<Rightarrow> string list \<Rightarrow> nat \<Rightarrow>
     (mirror_error, mirror_asset list \<times> nat) result option" where
  "fetchScopes fuel sv c options [] n = Some (Inr ([], n))"
| "fetchScopes fuel sv c options (v # vs) n =
     (case fetchImmichMirrorAssets fuel sv c (options v) n of
        None \<Rightarrow> None
      | Some (Inl e) \<Rightarrow> Some (Inl e)
      | Some (Inr st) \<Rightarrow>
          (case fetchScopes fuel sv c options vs (fsRequests st) of
             None \<Rightarrow> None
           | Some (Inl e) \<Rightarrow> Some (Inl e)
           | Some (Inr (assets, n)) \<Rightarrow> Some (Inr (fsAssets st @ assets, n))))"

definition fullOptions :: "mirror_datasource \<Rightarrow> fetch_options" where
  "fullOptions ds = \<lparr>foLatestAssetLimit = dsLatestAssetLimit ds, foUpdatedAfter = None, foUpdatedBefore = None,
     foVisibility = [], foDetailLimit = dsMetadataDetailLimit ds\<rparr>"

definition incrementalOptions :: "mirror_datasource \<Rightarrow> gotime \<Rightarrow> gotime \<Rightarrow> string \<Rightarrow> fetch_options" where
  "incrementalOptions ds updatedAfter windowEnd visibility =
     \<lparr>foLatestAssetLimit = 0, foUpdatedAfter = Some updatedAfter, foUpdatedBefore = Some windowEnd,
      foVisibility = visibility, foDetailLimit = dsMetadataDetailLimit ds\<rparr>"

definition syncedScopes :: "string list" where "syncedScopes = [''timeline'', ''hidden'', ''archive'']"

text \<open>After the catalogue was changed, the result gets the status that is read back.\<close>

definition withStatus ::
    "string \<Rightarrow> int \<Rightarrow> (mirror_error, sync_result) result \<times> catalog \<Rightarrow> (mirror_error, sync_result) result \<times> catalog" where
  "withStatus source limit r =
     andThen r (\<lambda>result ct. (Inr (result\<lparr>srMirror := (catalog_Status ct source)\<lparr>stLatestAssetLimit := limit\<rparr>\<rparr>), ct))"

definition syncMirrorDatasource ::
    "nat \<Rightarrow> mirror_server \<Rightarrow> mirror_context \<Rightarrow> mirror_datasource \<Rightarrow> string \<Rightarrow> gotime \<Rightarrow> gotime \<Rightarrow> catalog \<Rightarrow>
     ((mirror_error, sync_result) result \<times> catalog) option" where
  "syncMirrorDatasource fuel sv c ds mode startedAt now ct =
     (let mode = (if trim_space mode = [] then MirrorSyncModeFull else trim_space mode);
          source = trim_space (dsSourceKey ds); limit = dsLatestAssetLimit ds in
      if \<not> immichDatasourceIndexed ds then Some (Inl ErrCatalogNotConfigured, ct)
      else if mode \<noteq> MirrorSyncModeFull \<and> mode \<noteq> MirrorSyncModeIncremental then Some (Inl ErrUnsupportedSearch, ct)
      else case syncMode ct source limit mode of
        Inl e \<Rightarrow> Some (Inl e, ct)
      | Inr updatedAfter \<Rightarrow>
          (case immichMirrorWindowEnd sv of
             Inl e \<Rightarrow> Some (Inl e, ct)
           | Inr windowEnd \<Rightarrow>
               (case updatedAfter of
                  None \<Rightarrow>
                    (case fetchImmichMirrorAssets fuel sv c (fullOptions ds) 0 of
                       None \<Rightarrow> None
                     | Some (Inl e) \<Rightarrow> Some (Inl e, ct)
                     | Some (Inr st) \<Rightarrow>
                         Some (withStatus source limit (ReplaceFull source (fsAssets st) limit startedAt windowEnd now ct)))
                | Some after \<Rightarrow>
                    if windowEnd < after then Some (Inl ErrClockBackward, ct)
                    else
                      (case fetchScopes fuel sv c (incrementalOptions ds after windowEnd) syncedScopes 0 of
                         None \<Rightarrow> None
                       | Some (Inl e) \<Rightarrow> Some (Inl e, ct)
                       | Some (Inr (assets, _)) \<Rightarrow>
                           Some (withStatus source limit (MergeIncremental source assets startedAt windowEnd now ct))))))"

end
