(* ===== verification/Mirror_Fetch.thy ===== *)
theory Mirror_Fetch
  imports Mirror_Pager
begin

text \<open>
  What reading an Immich server finds, although the library may change between the requests: every asset that
  stays as it is while it is read is found, nothing is made up, and a library that stays as it is is read in
  a bounded number of requests.
\<close>

section \<open>An honest server\<close>

text \<open>
  What the agent relies on. A search answers with assets of the library at this moment that are in the scope of
  the request, the newest first: all of them that were taken before the given time, unless there is another
  page, and then all that are younger than the oldest on the page. The detail of an asset tells more about
  it. Identifiers are unique and have no blanks, and every asset has a capture time.
\<close>

definition inScope :: "page_request \<Rightarrow> immich_asset \<Rightarrow> bool" where
  "inScope r a \<longleftrightarrow> iaVisibility a = rqVisibility r
     \<and> (rqWithDeleted r \<or> \<not> present (iaDeletedAt a) \<and> \<not> present (iaTrashedAt a))
     \<and> (case rqUpdatedAfter r of None \<Rightarrow> True | Some t \<Rightarrow> t \<le> updatedOrZero a)
     \<and> (case rqUpdatedBefore r of None \<Rightarrow> True | Some t \<Rightarrow> updatedOrZero a \<le> t)"

definition takenBefore :: "(gotime \<Rightarrow> gotime \<Rightarrow> bool) \<Rightarrow> page_request \<Rightarrow> immich_asset \<Rightarrow> bool" where
  "takenBefore R r a \<longleftrightarrow> (case rqTakenBefore r of None \<Rightarrow> True | Some t \<Rightarrow> R (iaFileCreatedAt a) t)"

definition good_page :: "immich_asset set \<Rightarrow> page_request \<Rightarrow> search_page \<Rightarrow> bool" where
  "good_page L r page \<longleftrightarrow>
     (\<forall>a\<in>set (spItems page). a \<in> L \<and> inScope r a \<and> takenBefore (\<le>) r a)
     \<and> (\<forall>a\<in>L. inScope r a \<longrightarrow> takenBefore (<) r a \<longrightarrow> a \<in> set (spItems page)
          \<or> spNextPage page \<noteq> None \<and> (\<forall>b\<in>set (spItems page). iaFileCreatedAt a \<le> iaFileCreatedAt b))"

definition good_library :: "immich_asset set \<Rightarrow> bool" where
  "good_library L \<longleftrightarrow> inj_on iaID L
     \<and> (\<forall>a\<in>L. zero_time < iaFileCreatedAt a \<and> iaID a \<noteq> [] \<and> trim_space (iaID a) = iaID a)"

definition honest_server :: "mirror_server \<Rightarrow> (nat \<Rightarrow> immich_asset set) \<Rightarrow> (immich_asset \<Rightarrow> immich_asset) \<Rightarrow> bool" where
  "honest_server sv lib detail \<longleftrightarrow>
     (\<forall>n. good_library (lib n))
     \<and> (\<forall>n r page. read_answer (svPage sv n r) = Inr page \<longrightarrow> good_page (lib n) r page)
     \<and> (\<forall>n sid d. read_answer (svDetail sv n sid) = Inr d \<longrightarrow> (\<exists>a\<in>lib n. iaID a = sid \<and> d = detail a))
     \<and> (\<forall>a. ShouldMirror (detail a) = ShouldMirror a)"

lemma good_libraryD:
  assumes "honest_server sv lib detail" and "a \<in> lib n"
  shows "zero_time < iaFileCreatedAt a" and "iaID a \<noteq> []" and "trim_space (iaID a) = iaID a"
    and "b \<in> lib n \<Longrightarrow> iaID b = iaID a \<Longrightarrow> b = a"
  using assms unfolding honest_server_def good_library_def by (blast dest: inj_onD)+

section \<open>Pages\<close>

lemma oldestCapture_Inr:
  assumes "oldestCapture items oldest = Inr t" and "items \<noteq> [] \<or> \<not> is_zero oldest"
  shows "(\<forall>a\<in>set items. t \<le> iaFileCreatedAt a) \<and> (t \<in> iaFileCreatedAt ` set items \<or> t = oldest)
    \<and> (is_zero oldest \<or> t \<le> oldest) \<and> \<not> is_zero t"
  using assms
proof (induction items arbitrary: oldest)
  case (Cons a as)
  let ?o = "if is_zero oldest \<or> iaFileCreatedAt a < oldest then iaFileCreatedAt a else oldest"
  have nz: "\<not> is_zero (iaFileCreatedAt a)" and r: "oldestCapture as ?o = Inr t"
    using Cons.prems(1) by (auto split: if_splits)
  then have "\<not> is_zero ?o" by simp
  from Cons.IH [OF r] this show ?case by (auto split: if_splits)
qed simp

lemma pageBoundary_bounds: "oldest < pageBoundary oldest" "pageBoundary oldest = (oldest div 1000000 + 1) * 1000000"
proof -
  have "oldest mod 1000000 < 1000000" by simp
  then show "oldest < pageBoundary oldest" by (simp add: pageBoundary_def)
  have "oldest - oldest mod 1000000 = oldest div 1000000 * 1000000" by (rule minus_mod_eq_div_mult)
  then show "pageBoundary oldest = (oldest div 1000000 + 1) * 1000000" by (simp add: pageBoundary_def)
qed

lemma seenOf_Some: "seenOf items sid = Some u \<Longrightarrow> \<exists>a\<in>set items. iaID a = sid \<and> u = updatedOrZero a"
proof (unfold seenOf_def, induction items rule: rev_induct)
  case (snoc a as)
  then show ?case by (auto split: if_splits)
qed simp

text \<open>A page that is read: either it is the last, or the next one reaches past its oldest asset.\<close>

lemma pager_next_Inr:
  assumes "pager_next answer p = Inr (items, p')"
  obtains page where "read_answer answer = Inr page" "items = freshItems (pgSeen p) (spItems page)" "\<not> pgPendingErr p"
    "pgOptions p' = pgOptions p" "pgSeen p' = seenOf (spItems page)"
    "if spNextPage page = None then pgDone p' \<and> pgBefore p' = pgBefore p
     else \<exists>oldest. oldestCapture (spItems page) zero_time = Inr oldest \<and> spItems page \<noteq> [] \<and> pgDone p' = pgDone p
       \<and> (if (case pgBefore p of None \<Rightarrow> False | Some b \<Rightarrow> b \<le> pageBoundary oldest)
          then pgBefore p' = pgBefore p \<and> (if filledSize (pgSize p) < immichMirrorMaxPageSize
            then pgSize p' = immichMirrorMaxPageSize \<and> \<not> pgPendingErr p'
            else pgSize p' = filledSize (pgSize p) \<and> pgPendingErr p')
          else pgBefore p' = Some (pageBoundary oldest) \<and> pgSize p' = filledSize (pgSize p) \<and> \<not> pgPendingErr p')"
proof -
  let ?p = "p\<lparr>pgSize := filledSize (pgSize p)\<rparr>"
  obtain page p1 where page: "read_answer answer = Inr page" "continuePage page ?p = Inr p1" "\<not> pgPendingErr p"
      "items = freshItems (pgSeen p) (spItems page)" "p' = p1\<lparr>pgSeen := seenOf (spItems page)\<rparr>"
    using assms by (auto simp: pager_next_def Let_def split: if_splits sum.splits)
  show ?thesis
  proof (rule that [OF page(1,4,3)])
    show "pgOptions p' = pgOptions p" "pgSeen p' = seenOf (spItems page)"
      using page(2,5) by (auto simp: continuePage_def narrow_def split: option.splits if_splits sum.splits)
    show "if spNextPage page = None then pgDone p' \<and> pgBefore p' = pgBefore p
     else \<exists>oldest. oldestCapture (spItems page) zero_time = Inr oldest \<and> spItems page \<noteq> [] \<and> pgDone p' = pgDone p
       \<and> (if (case pgBefore p of None \<Rightarrow> False | Some b \<Rightarrow> b \<le> pageBoundary oldest)
          then pgBefore p' = pgBefore p \<and> (if filledSize (pgSize p) < immichMirrorMaxPageSize
            then pgSize p' = immichMirrorMaxPageSize \<and> \<not> pgPendingErr p'
            else pgSize p' = filledSize (pgSize p) \<and> pgPendingErr p')
          else pgBefore p' = Some (pageBoundary oldest) \<and> pgSize p' = filledSize (pgSize p) \<and> \<not> pgPendingErr p')"
      using page(2,3,5)
      by (cases "spNextPage page"; cases "oldestCapture (spItems page) zero_time"; cases "pgBefore p")
        (auto simp: continuePage_def narrow_def split: if_splits)
  qed
qed

section \<open>What becomes of an asset\<close>

text \<open>The entries that an asset can lead to, given the details that the server tells about it.\<close>

definition enriched :: "mirror_context \<Rightarrow> bool \<Rightarrow> immich_asset \<Rightarrow> immich_asset \<Rightarrow> mirror_asset" where
  "enriched c incremental a d =
     (let m = enrichMirrorAssetFromImmichAsset c (mirrorAsset c a) d in
      if incremental then m\<lparr>maSourceUpdatedAt := updatedTime a\<rparr> else m)"

definition outcomes :: "mirror_context \<Rightarrow> bool \<Rightarrow> immich_asset \<Rightarrow> immich_asset set \<Rightarrow> mirror_asset set" where
  "outcomes c incremental a D =
     (if ShouldMirror a
      then {mirrorAsset c a} \<union> (\<Union>d\<in>D. if ShouldMirror d then {enriched c incremental a d}
             else if incremental then {excludedAsset a} else {})
      else if incremental then {excludedAsset a} else {})"

definition detailsOf :: "mirror_server \<Rightarrow> nat \<Rightarrow> nat \<Rightarrow> immich_asset \<Rightarrow> immich_asset set" where
  "detailsOf sv lo hi a = {d. \<exists>n. lo \<le> n \<and> n < hi \<and> read_answer (svDetail sv n (iaID a)) = Inr d}"

definition plain :: "immich_asset \<Rightarrow> bool" where
  "plain a \<longleftrightarrow> iaID a \<noteq> [] \<and> trim_space (iaID a) = iaID a \<and> \<not> is_zero (iaFileCreatedAt a)"

lemma fetchItem_found:
  assumes "fetchItem sv c inc 0 a st = Inr (b, st')" and "lo \<le> fsRequests st" and "fsRequests st' \<le> hi" and "plain a"
  shows "\<not> b \<and> fsRequests st \<le> fsRequests st'
    \<and> (\<exists>ms. fsAssets st' = fsAssets st @ ms \<and> set ms \<subseteq> outcomes c inc a (detailsOf sv lo hi a)
      \<and> ((ShouldMirror a \<and> (\<forall>d\<in>detailsOf sv lo hi a. ShouldMirror d)) \<or> (\<not> ShouldMirror a \<and> inc) \<longrightarrow> ms \<noteq> []))"
proof (cases "ShouldMirror a")
  case False
  then show ?thesis using assms by (auto simp: fetchItem_def plain_def outcomes_def split: if_splits)
next
  case True
  then obtain m st1 where m: "withDetail sv c inc a st = Inr (m, st1)"
      "\<not> b" "st' = (case m of None \<Rightarrow> if inc then st1\<lparr>fsAssets := fsAssets st1 @ [excludedAsset a]\<rparr> else st1
        | Some e \<Rightarrow> st1\<lparr>fsAssets := fsAssets st1 @ [e]\<rparr>)"
    using assms(1,4) by (auto simp: fetchItem_def plain_def limited_def Let_def split: sum.splits prod.splits option.splits)
  then have r: "fsRequests st' = fsRequests st1" by (cases m) auto
  show ?thesis
  proof (cases "fsDetails st \<le> 0 \<or> mirrorAssetHasRichMetadata (mirrorAsset c a)")
    case True
    then have "m = Some (mirrorAsset c a)" "st1 = st" using m(1) by (auto simp: withDetail_def Let_def)
    then show ?thesis using m(2,3) \<open>ShouldMirror a\<close> by (simp add: outcomes_def)
  next
    case False
    then obtain d where d: "read_answer (svDetail sv (fsRequests st) (iaID a)) = Inr d"
        "st1 = st\<lparr>fsRequests := fsRequests st + 1, fsDetails := fsDetails st - 1\<rparr>"
        "m = (if ShouldMirror d then Some (enriched c inc a d) else None)"
      using m(1) assms(4) by (auto simp: withDetail_def Let_def plain_def enriched_def split: sum.splits if_splits)
    then have "d \<in> detailsOf sv lo hi a" using assms(2,3) r by (auto simp: detailsOf_def)
    then show ?thesis using m(2,3) d(2,3) \<open>ShouldMirror a\<close> by (auto simp: outcomes_def)
  qed
qed

lemma fetchItems_found:
  assumes "fetchItems sv c inc 0 items st = Inr (b, st')" and "lo \<le> fsRequests st" and "fsRequests st' \<le> hi"
    and "\<forall>a\<in>set items. plain a"
  shows "\<not> b \<and> fsRequests st \<le> fsRequests st'
    \<and> (\<exists>ms. fsAssets st' = fsAssets st @ ms \<and> (\<forall>m\<in>set ms. \<exists>a\<in>set items. m \<in> outcomes c inc a (detailsOf sv lo hi a))
      \<and> (\<forall>a\<in>set items. (ShouldMirror a \<and> (\<forall>d\<in>detailsOf sv lo hi a. ShouldMirror d)) \<or> (\<not> ShouldMirror a \<and> inc) \<longrightarrow>
            (\<exists>m\<in>set ms. m \<in> outcomes c inc a (detailsOf sv lo hi a))))"
  using assms
proof (induction items arbitrary: st)
  case (Cons a as)
  obtain b1 st1 where 1: "fetchItem sv c inc 0 a st = Inr (b1, st1)"
    using Cons.prems(1) by (auto split: sum.splits)
  show ?case
  proof (cases b1)
    case False
    with 1 Cons.prems(1) have rest: "fetchItems sv c inc 0 as st1 = Inr (b, st')" by simp
    have low: "fsRequests st \<le> fsRequests st1" 
      using fetchItem_found [OF 1 Cons.prems(2), of "fsRequests st1"] Cons.prems(4) by auto
    from Cons.IH [OF rest] low Cons.prems(2-4) obtain ms2 where 2: "\<not> b" "fsRequests st1 \<le> fsRequests st'"
        "fsAssets st' = fsAssets st1 @ ms2" "\<forall>m\<in>set ms2. \<exists>a\<in>set as. m \<in> outcomes c inc a (detailsOf sv lo hi a)"
        "\<forall>a\<in>set as. (ShouldMirror a \<and> (\<forall>d\<in>detailsOf sv lo hi a. ShouldMirror d)) \<or> (\<not> ShouldMirror a \<and> inc) \<longrightarrow>
            (\<exists>m\<in>set ms2. m \<in> outcomes c inc a (detailsOf sv lo hi a))" by auto
    then obtain ms1 where 3: "fsAssets st1 = fsAssets st @ ms1" "set ms1 \<subseteq> outcomes c inc a (detailsOf sv lo hi a)"
        "(ShouldMirror a \<and> (\<forall>d\<in>detailsOf sv lo hi a. ShouldMirror d)) \<or> (\<not> ShouldMirror a \<and> inc) \<longrightarrow> ms1 \<noteq> []"
      using fetchItem_found [OF 1 Cons.prems(2), of hi] Cons.prems(3,4) by auto
    have "x \<in> outcomes c inc a (detailsOf sv lo hi a)" if "x \<in> set ms1" for x using that 3(2) by blast
    then have "\<exists>m\<in>set ms1. m \<in> outcomes c inc a (detailsOf sv lo hi a)" if "ms1 \<noteq> []"
      using that by (cases ms1) auto
    then show ?thesis using 2 3 low by (intro conjI exI [of _ "ms1 @ ms2"]) auto
  next
    case True
    with fetchItem_found [OF 1 Cons.prems(2), of "fsRequests st1"] Cons.prems(4) show ?thesis by auto
  qed
qed auto

section \<open>Reading all pages\<close>

lemma honest_page:
  assumes "honest_server sv lib detail" and "read_answer (svPage sv n r) = Inr page"
  shows "\<And>a. a \<in> set (spItems page) \<Longrightarrow> a \<in> lib n \<and> inScope r a \<and> takenBefore (\<le>) r a \<and> plain a"
    and "\<And>a. a \<in> lib n \<Longrightarrow> inScope r a \<Longrightarrow> takenBefore (<) r a \<Longrightarrow> a \<in> set (spItems page)
      \<or> spNextPage page \<noteq> None \<and> (\<forall>b\<in>set (spItems page). iaFileCreatedAt a \<le> iaFileCreatedAt b)"
proof -
  have g: "good_page (lib n) r page" using assms by (auto simp: honest_server_def)
  fix a
  show "a \<in> set (spItems page) \<Longrightarrow> a \<in> lib n \<and> inScope r a \<and> takenBefore (\<le>) r a \<and> plain a"
    using g good_libraryD(1-3) [OF assms(1), of a n] by (auto simp: good_page_def plain_def is_zero_def)
  show "a \<in> lib n \<Longrightarrow> inScope r a \<Longrightarrow> takenBefore (<) r a \<Longrightarrow> a \<in> set (spItems page)
      \<or> spNextPage page \<noteq> None \<and> (\<forall>b\<in>set (spItems page). iaFileCreatedAt a \<le> iaFileCreatedAt b)"
    using g by (auto simp: good_page_def)
qed

lemma fetchItem_requests: "fetchItem sv c inc limit a st = Inr (b, st') \<Longrightarrow> fsRequests st \<le> fsRequests st'"
  by (auto simp: fetchItem_def withDetail_def limited_def Let_def split: if_splits sum.splits option.splits)

lemma fetchItems_requests: "fetchItems sv c inc limit items st = Inr (b, st') \<Longrightarrow> fsRequests st \<le> fsRequests st'"
proof (induction items arbitrary: st)
  case (Cons a as)
  then show ?case
    by (auto split: sum.splits prod.splits bool.splits dest!: fetchItem_requests) (meson Cons.IH dual_order.trans)
qed simp

lemma fetchPages_requests:
  "fetchPages fuel sv c inc limit p st = Some (Inr st') \<Longrightarrow> fsRequests st \<le> fsRequests st'"
proof (induction fuel arbitrary: p st)
  case 0
  then show ?case by (subst (asm) fetchPages.simps) (simp split: if_splits)
next
  case (Suc fuel)
  show ?case
  proof (cases "pgDone p")
    case True
    with Suc.prems show ?thesis by (subst (asm) fetchPages.simps) simp
  next
    case False
    with Suc.prems obtain items p1 b st1 where
        "fetchItems sv c inc limit items (st\<lparr>fsRequests := fsRequests st + 1\<rparr>) = Inr (b, st1)"
        "if b then st' = st1 else fetchPages fuel sv c inc limit p1 st1 = Some (Inr st')"
      by (subst (asm) fetchPages.simps) (auto split: sum.splits prod.splits bool.splits)
    with Suc.IH [of p1 st1] fetchItems_requests show ?thesis
      by (cases b) (fastforce dest!: fetchItems_requests)+
  qed
qed

text \<open>One round of the loop.\<close>

lemma fetchPages_step:
  assumes "fetchPages fuel sv c inc 0 p st = Some (Inr st')" and "\<not> pgDone p" and "honest_server sv lib detail"
    and "fsRequests st' \<le> hi" and "lo \<le> fsRequests st"
  obtains fuel' items p1 st1 ms where "fuel = Suc fuel'"
    "pager_next (svPage sv (fsRequests st) (pageRequest p)) p = Inr (items, p1)"
    "fetchPages fuel' sv c inc 0 p1 st1 = Some (Inr st')" "fsRequests st < fsRequests st1" "fsAssets st1 = fsAssets st @ ms"
    "\<forall>m\<in>set ms. \<exists>a\<in>set items. m \<in> outcomes c inc a (detailsOf sv lo hi a)"
    "\<forall>a\<in>set items. (ShouldMirror a \<and> (\<forall>d\<in>detailsOf sv lo hi a. ShouldMirror d)) \<or> (\<not> ShouldMirror a \<and> inc) \<longrightarrow>
       (\<exists>m\<in>set ms. m \<in> outcomes c inc a (detailsOf sv lo hi a))"
proof -
  obtain fuel' items p1 b st1 where 1: "fuel = Suc fuel'"
      "pager_next (svPage sv (fsRequests st) (pageRequest p)) p = Inr (items, p1)"
      "fetchItems sv c inc 0 items (st\<lparr>fsRequests := fsRequests st + 1\<rparr>) = Inr (b, st1)"
      "if b then st' = st1 else fetchPages fuel' sv c inc 0 p1 st1 = Some (Inr st')"
    using assms(1,2) by (subst (asm) fetchPages.simps) (auto split: nat.splits sum.splits prod.splits bool.splits if_splits)
  from 1(2) obtain page where page: "read_answer (svPage sv (fsRequests st) (pageRequest p)) = Inr page"
      "items = freshItems (pgSeen p) (spItems page)" by (rule pager_next_Inr)
  then have plain: "\<forall>a\<in>set items. plain a"
    using honest_page(1) [OF assms(3) page(1)] by (auto simp: freshItems_def)
  let ?st = "st\<lparr>fsRequests := fsRequests st + 1\<rparr>"
  have "\<not> b" using fetchItems_found [OF 1(3) _ order_refl plain, of lo] assms(5) by auto
  with 1(4) have rest: "fetchPages fuel' sv c inc 0 p1 st1 = Some (Inr st')" by simp
  then have "fsRequests st1 \<le> hi" using assms(4) fetchPages_requests [OF rest] by simp
  then obtain ms where ms: "fsRequests ?st \<le> fsRequests st1" "fsAssets st1 = fsAssets ?st @ ms"
      "\<forall>m\<in>set ms. \<exists>a\<in>set items. m \<in> outcomes c inc a (detailsOf sv lo hi a)"
      "\<forall>a\<in>set items. (ShouldMirror a \<and> (\<forall>d\<in>detailsOf sv lo hi a. ShouldMirror d)) \<or> (\<not> ShouldMirror a \<and> inc) \<longrightarrow>
         (\<exists>m\<in>set ms. m \<in> outcomes c inc a (detailsOf sv lo hi a))"
    using fetchItems_found [OF 1(3) _ _ plain, of lo hi] assms(5) by auto
  then show ?thesis by (intro that [OF 1(1,2) rest _ _ ms(3,4)]) auto
qed

lemma inScope_options:
  "pgOptions p = pgOptions p' \<Longrightarrow> inScope (pageRequest p) a = inScope (pageRequest p') a"
  by (simp add: inScope_def pageRequest_def Let_def)

text \<open>Nothing is made up: every entry comes from an asset that was in the library when a page was read.\<close>

lemma fetchPages_sound:
  assumes "honest_server sv lib detail" and "fetchPages fuel sv c inc 0 p st = Some (Inr st')"
    and "lo \<le> fsRequests st" and "fsRequests st' \<le> hi"
  shows "\<exists>ms. fsAssets st' = fsAssets st @ ms \<and> (\<forall>m\<in>set ms. \<exists>n a. lo \<le> n \<and> n < hi \<and> a \<in> lib n
    \<and> inScope (pageRequest p) a \<and> m \<in> outcomes c inc a (detailsOf sv lo hi a))"
  using assms(2-4)
proof (induction fuel arbitrary: p st)
  case 0
  then show ?case by (subst (asm) fetchPages.simps) (simp split: if_splits)
next
  case (Suc fuel)
  show ?case
  proof (cases "pgDone p")
    case True
    with Suc.prems show ?thesis by (subst (asm) fetchPages.simps) simp
  next
    case False
    from fetchPages_step [OF Suc.prems(1) False assms(1) Suc.prems(3,2)]
    obtain fuel' items p1 st1 ms where r: "Suc fuel = Suc fuel'"
        "pager_next (svPage sv (fsRequests st) (pageRequest p)) p = Inr (items, p1)"
        "fetchPages fuel' sv c inc 0 p1 st1 = Some (Inr st')" "fsRequests st < fsRequests st1" "fsAssets st1 = fsAssets st @ ms"
        "\<forall>m\<in>set ms. \<exists>a\<in>set items. m \<in> outcomes c inc a (detailsOf sv lo hi a)" by metis
    from r(2) obtain page where page: "read_answer (svPage sv (fsRequests st) (pageRequest p)) = Inr page"
        "items = freshItems (pgSeen p) (spItems page)" "pgOptions p1 = pgOptions p" by (rule pager_next_Inr)
    have n: "lo \<le> fsRequests st" "fsRequests st < hi" using Suc.prems r(4) fetchPages_requests [OF r(3)] by simp_all
    have "\<exists>n a. lo \<le> n \<and> n < hi \<and> a \<in> lib n \<and> inScope (pageRequest p) a \<and> m \<in> outcomes c inc a (detailsOf sv lo hi a)"
      if "m \<in> set ms" for m
      using that r(6) n honest_page(1) [OF assms(1) page(1)] page(2) unfolding freshItems_def by fastforce
    moreover obtain ms' where "fsAssets st' = fsAssets st1 @ ms'" "\<forall>m\<in>set ms'. \<exists>n a. lo \<le> n \<and> n < hi \<and> a \<in> lib n
          \<and> inScope (pageRequest p1) a \<and> m \<in> outcomes c inc a (detailsOf sv lo hi a)"
      using Suc.IH [of p1 st1] r(1,3,4) Suc.prems(2,3) by auto
    ultimately show ?thesis
      using r(5) inScope_options [OF page(3)] by (intro exI [of _ "ms @ ms'"]) auto
  qed
qed

text \<open>Nothing is lost: an asset that stays in the library and in the scope leads to an entry.\<close>

lemma fetchPages_complete:
  fixes sv c inc a lo hi
  defines "D \<equiv> detailsOf sv lo hi a"
  defines "found \<equiv> \<lambda>st. \<exists>m\<in>set (fsAssets st). m \<in> outcomes c inc a D"
  assumes honest: "honest_server sv lib detail" and "fetchPages fuel sv c inc 0 p st = Some (Inr st')"
    and "lo \<le> fsRequests st" and hi: "fsRequests st' \<le> hi"
    and stays: "\<And>n. lo \<le> n \<Longrightarrow> n < hi \<Longrightarrow> a \<in> lib n" and "inScope (pageRequest p) a"
    and kept: "(ShouldMirror a \<and> (\<forall>d\<in>D. ShouldMirror d)) \<or> (\<not> ShouldMirror a \<and> inc)"
    and "case pgBefore p of None \<Rightarrow> True | Some b \<Rightarrow> found st \<or> iaFileCreatedAt a < b"
    and "\<And>u. pgSeen p (iaID a) = Some u \<Longrightarrow> updatedOrZero a \<le> u \<Longrightarrow> found st"
    and "pgDone p \<Longrightarrow> found st"
  shows "found st'"
  using assms(4,5) assms(8,10-)
proof (induction fuel arbitrary: p st)
  case 0
  then show ?case by (subst (asm) fetchPages.simps) (simp split: if_splits)
next
  case (Suc fuel)
  show ?case
  proof (cases "pgDone p")
    case True
    with Suc.prems(1,6) show ?thesis by (subst (asm) fetchPages.simps) simp
  next
    case False
    from fetchPages_step [OF Suc.prems(1) False honest hi Suc.prems(2)]
    obtain fuel' items p1 st1 ms where r: "Suc fuel = Suc fuel'"
        "pager_next (svPage sv (fsRequests st) (pageRequest p)) p = Inr (items, p1)"
        "fetchPages fuel' sv c inc 0 p1 st1 = Some (Inr st')" "fsRequests st < fsRequests st1" "fsAssets st1 = fsAssets st @ ms"
        "\<forall>a\<in>set items. (ShouldMirror a \<and> (\<forall>d\<in>detailsOf sv lo hi a. ShouldMirror d)) \<or> (\<not> ShouldMirror a \<and> inc) \<longrightarrow>
           (\<exists>m\<in>set ms. m \<in> outcomes c inc a (detailsOf sv lo hi a))" by metis
    have n: "lo \<le> fsRequests st" "fsRequests st < hi" using Suc.prems(2) r(4) fetchPages_requests [OF r(3)] hi by simp_all
    have here: "a \<in> lib (fsRequests st)" by (rule stays [OF n])
    have keep: "found st \<Longrightarrow> found st1" using r(5) by (auto simp: found_def)
    from r(2) obtain page where page: "read_answer (svPage sv (fsRequests st) (pageRequest p)) = Inr page"
        "items = freshItems (pgSeen p) (spItems page)" "pgOptions p1 = pgOptions p" "pgSeen p1 = seenOf (spItems page)"
        "if spNextPage page = None then pgDone p1 \<and> pgBefore p1 = pgBefore p
         else \<exists>oldest. oldestCapture (spItems page) zero_time = Inr oldest \<and> spItems page \<noteq> [] \<and> pgDone p1 = pgDone p
           \<and> (if (case pgBefore p of None \<Rightarrow> False | Some b \<Rightarrow> b \<le> pageBoundary oldest)
              then pgBefore p1 = pgBefore p else pgBefore p1 = Some (pageBoundary oldest))"
      by (rule pager_next_Inr) (auto split: if_splits)
    have on_page: "found st1" if "a \<in> set (spItems page)"
    proof (cases "a \<in> set items")
      case True
      with r(6) kept obtain m where "m \<in> set ms" "m \<in> outcomes c inc a D" unfolding D_def by blast
      then show ?thesis using r(5) by (auto simp: found_def)
    next
      case False
      with that page(2) obtain u where "pgSeen p (iaID a) = Some u" "updatedOrZero a \<le> u"
        by (auto simp: freshItems_def not_less split: option.splits)
      then show ?thesis using Suc.prems(5) keep by blast
    qed
    have here_or_older: "found st1 \<or> spNextPage page \<noteq> None \<and> (\<forall>b\<in>set (spItems page). iaFileCreatedAt a \<le> iaFileCreatedAt b)"
    proof (cases "found st")
      case False
      then have "takenBefore (<) (pageRequest p) a"
        using Suc.prems(4) by (auto simp: takenBefore_def pageRequest_def Let_def split: option.splits)
      then show ?thesis using honest_page(2) [OF honest page(1) here Suc.prems(3)] on_page by blast
    qed (use keep in blast)
    show ?thesis
    proof (rule Suc.IH)
      show "fetchPages fuel sv c inc 0 p1 st1 = Some (Inr st')" using r(1,3) by simp
      show "lo \<le> fsRequests st1" using n(1) r(4) by simp
      show "inScope (pageRequest p1) a" using Suc.prems(3) inScope_options [OF page(3)] by simp
      show "case pgBefore p1 of None \<Rightarrow> True | Some b \<Rightarrow> found st1 \<or> iaFileCreatedAt a < b"
      proof (cases "pgBefore p1 = pgBefore p")
        case True
        then show ?thesis using Suc.prems(4) keep by (auto split: option.splits)
      next
        case False
        with page(5) obtain oldest where o: "oldestCapture (spItems page) zero_time = Inr oldest" "spItems page \<noteq> []"
            "pgBefore p1 = Some (pageBoundary oldest)" by (auto split: if_splits)
        then obtain b where "b \<in> set (spItems page)" "iaFileCreatedAt b = oldest"
          using oldestCapture_Inr [OF o(1)] by (auto simp: is_zero_def)
        then show ?thesis using here_or_older o(3) pageBoundary_bounds(1) [of oldest] by fastforce
      qed
      show "found st1" if seen: "pgSeen p1 (iaID a) = Some u" for u
      proof -
        obtain b where b: "b \<in> set (spItems page)" "iaID b = iaID a"
          using seen page(4) seenOf_Some [of "spItems page" "iaID a" u] by auto
        then have "b \<in> lib (fsRequests st)" using honest_page(1) [OF honest page(1)] by blast
        then have "b = a" using good_libraryD(4) [OF honest here] b(2) by blast
        with b(1) on_page show ?thesis by simp
      qed
      show "found st1" if "pgDone p1"
        using that False page(5) here_or_older by (auto split: if_splits)
    qed
  qed
qed

text \<open>An entry with the identifier of an asset that stays comes from this asset.\<close>

lemma entry_id:
  "maUpstreamAssetID (mirrorAsset c a) = iaID a" "maUpstreamAssetID (excludedAsset a) = iaID a"
  "maUpstreamAssetID (enriched c inc a d) = iaID a"
proof -
  show m: "maUpstreamAssetID (mirrorAsset c a) = iaID a" by (simp add: mirrorAsset_def split: prod.split)
  show "maUpstreamAssetID (excludedAsset a) = iaID a" by (simp add: excludedAsset_def)
  show "maUpstreamAssetID (enriched c inc a d) = iaID a"
    using m by (simp add: enriched_def enrichMirrorAssetFromImmichAsset_def Let_def split: prod.split)
qed

lemma outcomes_id: "m \<in> outcomes c inc a D \<Longrightarrow> maUpstreamAssetID m = iaID a"
  by (auto simp: outcomes_def entry_id split: if_splits)

lemma details_mirror:
  assumes "honest_server sv lib detail" and "\<And>n. lo \<le> n \<Longrightarrow> n < hi \<Longrightarrow> a \<in> lib n" and "d \<in> detailsOf sv lo hi a"
  shows "d = detail a" and "ShouldMirror d = ShouldMirror a"
proof -
  obtain n b where n: "lo \<le> n" "n < hi" "b \<in> lib n" "iaID b = iaID a" "d = detail b"
    using assms(1,3) by (fastforce simp: detailsOf_def honest_server_def)
  then have "b = a" using good_libraryD(4) [OF assms(1) assms(2) [OF n(1,2)]] by blast
  then show "d = detail a" "ShouldMirror d = ShouldMirror a" using n(5) assms(1) by (auto simp: honest_server_def)
qed

lemma fetch_finds:
  assumes honest: "honest_server sv lib detail" and fetch: "fetchImmichMirrorAssets fuel sv c options n0 = Some (Inr st)"
    and "foLatestAssetLimit options \<le> 0" and "inc = present (foUpdatedAfter options)" and "lo \<le> n0" and "fsRequests st \<le> hi"
    and stays: "\<And>n. lo \<le> n \<Longrightarrow> n < hi \<Longrightarrow> a \<in> lib n"
  shows "inScope (pageRequest (newPager options)) a \<Longrightarrow> ShouldMirror a \<or> inc \<Longrightarrow>
      \<exists>m\<in>set (fsAssets st). m \<in> outcomes c inc a {detail a}"
    and "m \<in> set (fsAssets st) \<Longrightarrow> maUpstreamAssetID m = iaID a \<Longrightarrow>
      m \<in> outcomes c inc a {detail a} \<and> inScope (pageRequest (newPager options)) a"
proof -
  let ?st = "\<lparr>fsRequests = n0, fsAssets = [], fsIndexes = (\<lambda>_. None), fsDetails = max 0 (foDetailLimit options)\<rparr>"
  let ?p = "newPager options" let ?D = "detailsOf sv lo hi a"
  have run: "fetchPages fuel sv c inc 0 ?p ?st = Some (Inr st)"
    using fetch assms(3,4) by (simp add: fetchImmichMirrorAssets_def)
  have D: "\<forall>d\<in>?D. d = detail a \<and> ShouldMirror d = ShouldMirror a"
    using details_mirror [OF honest stays] by blast
  then have sub: "outcomes c inc a ?D \<subseteq> outcomes c inc a {detail a}" by (auto simp: outcomes_def split: if_splits)
  show "\<exists>m\<in>set (fsAssets st). m \<in> outcomes c inc a {detail a}"
    if "inScope (pageRequest ?p) a" "ShouldMirror a \<or> inc"
  proof -
    have "\<exists>m\<in>set (fsAssets st). m \<in> outcomes c inc a ?D"
      by (rule fetchPages_complete [OF honest run _ assms(6) stays that(1)])
        (use assms(5) D that(2) in \<open>auto simp: newPager_def\<close>)
    with sub show ?thesis by blast
  qed
  show "m \<in> outcomes c inc a {detail a} \<and> inScope (pageRequest ?p) a"
    if "m \<in> set (fsAssets st)" "maUpstreamAssetID m = iaID a"
  proof -
    have "lo \<le> fsRequests ?st" using assms(5) by simp
    from fetchPages_sound [OF honest run this assms(6)] that(1) obtain n b where b: "lo \<le> n" "n < hi" "b \<in> lib n"
        "inScope (pageRequest ?p) b" "m \<in> outcomes c inc b (detailsOf sv lo hi b)" by auto
    then have "b = a" using good_libraryD(4) [OF honest stays [OF b(1,2)]] outcomes_id [OF b(5)] that(2) by auto
    with b sub show ?thesis by blast
  qed
qed

section \<open>Reading ends\<close>

text \<open>
  A server that answers every search, with full pages before the last one, and a library in which no millisecond
  is too full for a page.
\<close>

definition answering_server :: "mirror_server \<Rightarrow> bool" where
  "answering_server sv \<longleftrightarrow>
     (\<forall>n r. \<exists>page. read_answer (svPage sv n r) = Inr page
        \<and> (spNextPage page = None
           \<or> spNextPage page = Some 2 \<and> length (spItems page) = rqSize r \<and> distinct (spItems page)))"

definition sparse_library :: "immich_asset set \<Rightarrow> bool" where
  "sparse_library L \<longleftrightarrow> finite L
     \<and> (\<forall>t. card {a \<in> L. t * 1000000 \<le> iaFileCreatedAt a \<and> iaFileCreatedAt a \<le> (t + 1) * 1000000} < immichMirrorMaxPageSize)"

definition slots :: "immich_asset set \<Rightarrow> int set" where
  "slots L = (\<lambda>a. iaFileCreatedAt a div 1000000) ` L"

definition rank :: "int set \<Rightarrow> mirror_pager \<Rightarrow> nat" where
  "rank S p =
     (case pgBefore p of None \<Rightarrow> card S + 1 | Some b \<Rightarrow> card {s \<in> S. s < b div 1000000 - 1})
     + (if filledSize (pgSize p) < immichMirrorMaxPageSize then 1 else 0)"

definition bounded_pager :: "int set \<Rightarrow> mirror_pager \<Rightarrow> bool" where
  "bounded_pager S p \<longleftrightarrow> \<not> pgPendingErr p \<and> filledSize (pgSize p) \<le> immichMirrorMaxPageSize
     \<and> (case pgBefore p of None \<Rightarrow> True | Some b \<Rightarrow> (\<exists>s\<in>S. b = (s + 1) * 1000000) \<and> zero_time < b)"

lemma filledSize_again [simp]: "filledSize (filledSize n) = filledSize n"
  by (simp add: filledSize_def maxPageSize_def)

lemma oldestCapture_ok:
  assumes "\<forall>a\<in>set items. \<not> is_zero (iaFileCreatedAt a)"
  obtains t where "oldestCapture items oldest = Inr t"
  using assms by (induction items arbitrary: oldest thesis) auto

lemma rank_narrows:
  assumes "finite S" and "s' \<in> S" and "pgBefore p' = Some ((s' + 1) * 1000000)" and "pgSize p' = filledSize (pgSize p)"
    and "case pgBefore p of None \<Rightarrow> True | Some b \<Rightarrow> \<exists>s\<in>S. b = (s + 1) * 1000000 \<and> s' < s"
  shows "rank S p' < rank S p"
proof (cases "pgBefore p")
  case None
  have "card {s \<in> S. s < s'} \<le> card S" using assms(1) by (intro card_mono) auto
  then show ?thesis using None assms(3,4) by (simp add: rank_def)
next
  case (Some b)
  then obtain s where s: "s \<in> S" "b = (s + 1) * 1000000" "s' < s" using assms(5) by auto
  have "{x \<in> S. x < s'} \<subset> {x \<in> S. x < s}" using s assms(2) by auto
  then have "card {x \<in> S. x < s'} < card {x \<in> S. x < s}" using assms(1) by (intro psubset_card_mono) auto
  then show ?thesis using Some s(2) assms(3,4) by (simp add: rank_def)
qed

lemma sparse_page:
  assumes "sparse_library L" and "set items \<subseteq> L" and "distinct items"
    and "\<And>a. a \<in> set items \<Longrightarrow> t * 1000000 \<le> iaFileCreatedAt a \<and> iaFileCreatedAt a \<le> (t + 1) * 1000000"
  shows "length items < immichMirrorMaxPageSize"
proof -
  let ?W = "{a \<in> L. t * 1000000 \<le> iaFileCreatedAt a \<and> iaFileCreatedAt a \<le> (t + 1) * 1000000}"
  have "set items \<subseteq> ?W" using assms(2,4) by auto
  moreover have "finite ?W" "card ?W < immichMirrorMaxPageSize" using assms(1) by (auto simp: sparse_library_def)
  ultimately have "card (set items) < immichMirrorMaxPageSize" by (meson card_mono le_less_trans)
  then show ?thesis using assms(3) by (simp add: distinct_card)
qed

lemma pager_next_total:
  assumes honest: "honest_server sv (\<lambda>_. L) detail" and "answering_server sv" and sparse: "sparse_library L"
    and ok: "bounded_pager (slots L) p" and "\<not> pgDone p"
  obtains items p' where "pager_next (svPage sv n (pageRequest p)) p = Inr (items, p')" "\<forall>a\<in>set items. plain a"
    "pgDone p' \<or> bounded_pager (slots L) p' \<and> rank (slots L) p' < rank (slots L) p"
proof -
  let ?S = "slots L"
  have fin: "finite ?S" using sparse by (simp add: sparse_library_def slots_def)
  obtain page where page: "read_answer (svPage sv n (pageRequest p)) = Inr page"
      "spNextPage page = None \<or> spNextPage page = Some 2 \<and> length (spItems page) = rqSize (pageRequest p) \<and> distinct (spItems page)"
    using assms(2) unfolding answering_server_def by blast
  have on: "\<And>a. a \<in> set (spItems page) \<Longrightarrow> a \<in> L \<and> takenBefore (\<le>) (pageRequest p) a \<and> plain a"
    using honest_page(1) [OF honest page(1)] by blast
  have "\<forall>a\<in>set (spItems page). \<not> is_zero (iaFileCreatedAt a)" using on by (auto simp: plain_def)
  then obtain oldest where oldest: "oldestCapture (spItems page) zero_time = Inr oldest" by (rule oldestCapture_ok)
  let ?p = "p\<lparr>pgSize := filledSize (pgSize p)\<rparr>"
  let ?q = "if spNextPage page = None then ?p\<lparr>pgDone := True\<rparr> else narrow (pageBoundary oldest) ?p"
  have filled: "0 < filledSize (pgSize p)" by (simp add: filledSize_def maxPageSize_def)
  then have ne: "spNextPage page \<noteq> None \<Longrightarrow> spItems page \<noteq> []" using page(2) by (auto simp: pageRequest_def Let_def)
  have next_page: "pager_next (svPage sv n (pageRequest p)) p
      = Inr (freshItems (pgSeen p) (spItems page), ?q\<lparr>pgSeen := seenOf (spItems page)\<rparr>)"
    using ok page ne oldest by (auto simp: pager_next_def bounded_pager_def continuePage_def Let_def)
  show ?thesis
  proof (rule that [OF next_page])
    show "\<forall>a\<in>set (freshItems (pgSeen p) (spItems page)). plain a" using on by (auto simp: freshItems_def)
    let ?p' = "?q\<lparr>pgSeen := seenOf (spItems page)\<rparr>"
    show "pgDone ?p' \<or> bounded_pager ?S ?p' \<and> rank ?S ?p' < rank ?S p"
    proof (cases "spNextPage page = None")
      case False
      with page(2) have full: "length (spItems page) = filledSize (pgSize p)" "distinct (spItems page)"
        by (auto simp: pageRequest_def Let_def)
      from oldestCapture_Inr [OF oldest] ne [OF False] obtain x where o: "x \<in> set (spItems page)" "iaFileCreatedAt x = oldest"
          "\<forall>a\<in>set (spItems page). oldest \<le> iaFileCreatedAt a" by (auto simp: is_zero_def)
      let ?s = "oldest div 1000000"
      have s: "?s \<in> ?S" "pageBoundary oldest = (?s + 1) * 1000000" "zero_time < pageBoundary oldest"
        using o on [OF o(1)] pageBoundary_bounds [of oldest] good_libraryD(1) [OF honest, of x]
        by (auto simp: slots_def)
      show ?thesis
      proof (cases "case pgBefore p of None \<Rightarrow> False | Some b \<Rightarrow> b \<le> pageBoundary oldest")
        case True
        then obtain b where b: "pgBefore p = Some b" "b \<le> pageBoundary oldest" by (auto split: option.splits)
        then obtain s0 where s0: "s0 \<in> ?S" "b = (s0 + 1) * 1000000" "zero_time < b" using ok by (auto simp: bounded_pager_def)
        have "filledSize (pgSize p) < immichMirrorMaxPageSize"
        proof -
          have "s0 \<le> ?s" using b(2) s(2) s0(2) by simp
          then have "s0 * 1000000 \<le> oldest" by presburger
          moreover have "iaFileCreatedAt a \<le> b" if "a \<in> set (spItems page)" for a
            using on [OF that] b(1) s0(3) by (auto simp: takenBefore_def pageRequest_def Let_def present_def is_zero_def)
          ultimately show ?thesis
            using sparse_page [OF sparse _ full(2), of s0] on o(3) s0(2) full(1) by fastforce
        qed
        then show ?thesis using False b ok
          by (auto simp: narrow_def bounded_pager_def rank_def filledSize_def immichMirrorMaxPageSize_def)
      next
        case reach: False
        have q: "?q = ?p\<lparr>pgBefore := Some (pageBoundary oldest)\<rparr>" using False reach by (auto simp: narrow_def)
        have "\<exists>s\<in>?S. pageBoundary oldest = (s + 1) * 1000000" using s(1,2) by blast
        then have "bounded_pager ?S ?p'" unfolding q using s(3) ok by (simp add: bounded_pager_def)
        moreover have "rank ?S ?p' < rank ?S p"
        proof (rule rank_narrows [OF fin s(1)])
          show "pgBefore ?p' = Some ((?s + 1) * 1000000)" by (simp only: q) (simp add: s(2))
          show "pgSize ?p' = filledSize (pgSize p)" unfolding q by simp
          show "case pgBefore p of None \<Rightarrow> True | Some b \<Rightarrow> \<exists>s\<in>?S. b = (s + 1) * 1000000 \<and> ?s < s"
            using reach ok s(2) by (auto simp: bounded_pager_def split: option.splits)
        qed
        ultimately show ?thesis by simp
      qed
    qed simp
  qed
qed

lemma fetchItems_total:
  assumes "\<forall>a\<in>set items. plain a" and "fsDetails st \<le> 0"
  shows "\<exists>st'. fetchItems sv c inc 0 items st = Inr (False, st') \<and> fsDetails st' \<le> 0"
  using assms
proof (induction items arbitrary: st)
  case (Cons a as)
  let ?st = "if ShouldMirror a then st\<lparr>fsAssets := fsAssets st @ [mirrorAsset c a]\<rparr>
    else if inc then st\<lparr>fsAssets := fsAssets st @ [excludedAsset a]\<rparr> else st"
  have "fetchItem sv c inc 0 a st = Inr (False, ?st)"
    using Cons.prems by (simp add: fetchItem_def plain_def withDetail_def limited_def)
  then show ?case using Cons.IH [of ?st] Cons.prems by simp
qed simp

lemma fetchPages_total:
  assumes "honest_server sv (\<lambda>_. L) detail" and "answering_server sv" and "sparse_library L"
    and "fsDetails st \<le> 0" and "pgDone p \<or> bounded_pager (slots L) p \<and> rank (slots L) p < fuel"
  shows "\<exists>st'. fetchPages fuel sv c inc 0 p st = Some (Inr st')"
  using assms(4,5)
proof (induction fuel arbitrary: p st)
  case 0
  then show ?case by (subst fetchPages.simps) simp
next
  case (Suc fuel)
  show ?case
  proof (cases "pgDone p")
    case True
    then show ?thesis by (subst fetchPages.simps) simp
  next
    case False
    from pager_next_total [OF assms(1-3) _ False, of "fsRequests st"] Suc.prems(2) False
    obtain items p' where p': "pager_next (svPage sv (fsRequests st) (pageRequest p)) p = Inr (items, p')"
        "\<forall>a\<in>set items. plain a" "pgDone p' \<or> bounded_pager (slots L) p' \<and> rank (slots L) p' < rank (slots L) p" by metis
    obtain st1 where "fetchItems sv c inc 0 items (st\<lparr>fsRequests := fsRequests st + 1\<rparr>) = Inr (False, st1)" "fsDetails st1 \<le> 0"
      using fetchItems_total [OF p'(2), of "st\<lparr>fsRequests := fsRequests st + 1\<rparr>" sv c inc] Suc.prems(1) by auto
    then show ?thesis
      using Suc.IH [of st1 p'] p'(1,3) False Suc.prems(2) by (subst fetchPages.simps) auto
  qed
qed

end
