(* ===== verification/Mirror_Sync.thy ===== *)
theory Mirror_Sync
  imports Mirror_Store Mirror_Fetch
begin

text \<open>
  The mirror stays true to the library: after any sequence of changes of the library and synchronizations, failed
  ones included, every asset that was last changed before the cursor is in the catalogue as it is upstream. A
  library changes while it is read, and an interrupted synchronization leaves the catalogue as it was.
\<close>

section \<open>Rows\<close>

definition shows_columns :: "asset_columns \<Rightarrow> catalog_row \<Rightarrow> bool" where
  "shows_columns cols r \<longleftrightarrow>
     crDatasourceKind r = immichKind \<and> crVisibilityStatus r = MirrorVisibilityActive \<and> crColumns r = cols"

lemma upsertRow_other: "\<not> is_row source sid r \<Longrightarrow> r \<in> set (upsertRow source now sid cols rows) \<longleftrightarrow> r \<in> set rows"
  by (auto simp: upsertRow_def is_row_def)

lemma upsertRow_row:
  shows "\<exists>r\<in>set (upsertRow source now sid cols rows). is_row source sid r"
    and "r \<in> set (upsertRow source now sid cols rows) \<Longrightarrow> is_row source sid r \<Longrightarrow> shows_columns cols r"
proof -
  let ?f = "\<lambda>r. if is_row source sid r \<and> rowDiffers cols r
    then r\<lparr>crDatasourceKind := immichKind, crVisibilityStatus := MirrorVisibilityActive, crColumns := cols, crUpdatedAt := now\<rparr> else r"
  have key: "is_row source sid (?f r) = is_row source sid r" for r by (simp add: is_row_def)
  have f: "is_row source sid r \<Longrightarrow> shows_columns cols (?f r)" for r by (auto simp: rowDiffers_def shows_columns_def)
  show "\<exists>r\<in>set (upsertRow source now sid cols rows). is_row source sid r"
  proof (cases "list_ex (is_row source sid) rows")
    case True
    then obtain r where r: "r \<in> set rows" "is_row source sid r" by (auto simp: list_ex_iff)
    then have "?f r \<in> set (map ?f rows)" by simp
    with True r(2) key [of r] show ?thesis unfolding upsertRow_def by auto
  qed (simp add: upsertRow_def is_row_def)
  show "shows_columns cols r" if "r \<in> set (upsertRow source now sid cols rows)" "is_row source sid r"
  proof (cases "list_ex (is_row source sid) rows")
    case True
    with that(1) obtain r0 where "r0 \<in> set rows" "r = ?f r0" unfolding upsertRow_def by auto
    with that(2) key [of r0] f [of r0] show ?thesis by simp
  next
    case False
    with that show ?thesis by (auto simp: upsertRow_def list_ex_iff shows_columns_def)
  qed
qed

lemma applyStage_spec:
  assumes "distinct (map sgUpstreamAssetID stage)"
  shows "(\<forall>s\<in>set stage. (\<exists>r\<in>set (applyStage source now stage rows). is_row source (sgUpstreamAssetID s) r)
      \<and> (\<forall>r\<in>set (applyStage source now stage rows). is_row source (sgUpstreamAssetID s) r \<longrightarrow> shows_columns (sgColumns s) r))
    \<and> (\<forall>r. (\<forall>s\<in>set stage. \<not> is_row source (sgUpstreamAssetID s) r) \<longrightarrow>
         (r \<in> set (applyStage source now stage rows) \<longleftrightarrow> r \<in> set rows))"
  using assms
proof (induction stage rule: rev_induct)
  case (snoc s stage)
  let ?rows = "applyStage source now stage rows"
  have step: "applyStage source now (stage @ [s]) rows = upsertRow source now (sgUpstreamAssetID s) (sgColumns s) ?rows"
    by (simp add: applyStage_def)
  have other: "\<not> is_row source (sgUpstreamAssetID s) r" if "t \<in> set stage" "is_row source (sgUpstreamAssetID t) r" for t r
    using that snoc.prems by (auto simp: is_row_def image_iff)
  have IH: "(\<forall>s\<in>set stage. (\<exists>r\<in>set ?rows. is_row source (sgUpstreamAssetID s) r)
      \<and> (\<forall>r\<in>set ?rows. is_row source (sgUpstreamAssetID s) r \<longrightarrow> shows_columns (sgColumns s) r))
    \<and> (\<forall>r. (\<forall>s\<in>set stage. \<not> is_row source (sgUpstreamAssetID s) r) \<longrightarrow> (r \<in> set ?rows \<longleftrightarrow> r \<in> set rows))"
    by (rule snoc.IH) (use snoc.prems in simp)
  show ?case unfolding step
    using IH other upsertRow_other upsertRow_row by (simp del: upsertRow_def) meson
qed (simp add: applyStage_def)

lemma stageInsert_spec:
  assumes "distinct (map sgUpstreamAssetID stage)"
  shows "distinct (map sgUpstreamAssetID (stageInsert s stage))"
    and "set (stageInsert s stage) = insert s {t \<in> set stage. sgUpstreamAssetID t \<noteq> sgUpstreamAssetID s}"
proof -
  have "list_ex (\<lambda>t. sgUpstreamAssetID t = sgUpstreamAssetID s) stage \<longleftrightarrow> sgUpstreamAssetID s \<in> sgUpstreamAssetID ` set stage"
    unfolding list_ex_iff image_iff by metis
  then have "map sgUpstreamAssetID (stageInsert s stage)
      = map sgUpstreamAssetID stage @ (if sgUpstreamAssetID s \<in> sgUpstreamAssetID ` set stage then [] else [sgUpstreamAssetID s])"
    by (simp add: stageInsert_def comp_def cong: map_cong)
  then show "distinct (map sgUpstreamAssetID (stageInsert s stage))" using assms by auto
  show "set (stageInsert s stage) = insert s {t \<in> set stage. sgUpstreamAssetID t \<noteq> sgUpstreamAssetID s}"
    by (auto simp: stageInsert_def list_ex_iff image_iff)
qed

definition staged :: "mirror_asset \<Rightarrow> bool" where
  "staged m \<longleftrightarrow> trim_space (maUpstreamAssetID m) \<noteq> [] \<and> \<not> is_zero (maCapturedAt m)"

lemma stageAssets_spec:
  "distinct (map sgUpstreamAssetID (stageAssets assets))
   \<and> (\<forall>s\<in>set (stageAssets assets). \<exists>m\<in>set assets. staged m \<and> s = stageAsset m)
   \<and> (\<forall>m\<in>set assets. staged m \<longrightarrow> (\<exists>s\<in>set (stageAssets assets). sgUpstreamAssetID s = trim_space (maUpstreamAssetID m)))"
proof (induction assets rule: rev_induct)
  case (snoc m assets)
  have step: "stageAssets (assets @ [m]) = (if staged m then stageInsert (stageAsset m) (stageAssets assets) else stageAssets assets)"
    by (simp add: stageAssets_def staged_def)
  have "sgUpstreamAssetID (stageAsset m) = trim_space (maUpstreamAssetID m)" by (simp add: stageAsset_def)
  note ins = stageInsert_spec [of "stageAssets assets" "stageAsset m", unfolded this]
  show ?case
  proof (cases "staged m")
    case True
    have "\<exists>s\<in>set (stageInsert (stageAsset m) (stageAssets assets)). sgUpstreamAssetID s = trim_space (maUpstreamAssetID k)"
      if k: "k \<in> set (assets @ [m])" "staged k" for k
    proof (cases "trim_space (maUpstreamAssetID k) = trim_space (maUpstreamAssetID m)")
      case True
      then show ?thesis using snoc ins(2) \<open>sgUpstreamAssetID (stageAsset m) = trim_space (maUpstreamAssetID m)\<close> by auto
    next
      case False
      then have "k \<in> set assets" using k(1) by auto
      then obtain t where "t \<in> set (stageAssets assets)" "sgUpstreamAssetID t = trim_space (maUpstreamAssetID k)"
        using snoc k(2) by blast
      then show ?thesis using ins(2) snoc False by (intro bexI [of _ t]) auto
    qed
    then show ?thesis unfolding step using True snoc ins by auto
  qed (use snoc step in auto)
qed (simp add: stageAssets_def)

section \<open>What the catalogue says of an asset\<close>

text \<open>The canonical identity of an external file comes from the local sources, so it is left out.\<close>

definition withoutCanonical :: "asset_columns \<Rightarrow> asset_columns" where
  "withoutCanonical cols = cols\<lparr>acCanonicalContentSHA1Hex := None, acCanonicalContentSizeBytes := None\<rparr>"

definition described :: "mirror_context \<Rightarrow> (immich_asset \<Rightarrow> immich_asset) \<Rightarrow> immich_asset \<Rightarrow> asset_columns \<Rightarrow> bool" where
  "described c detail a cols \<longleftrightarrow>
     (\<exists>m \<in> outcomes c False a {detail a} \<union> outcomes c True a {detail a}.
        \<not> maExcluded m \<and> withoutCanonical cols = withoutCanonical (columnsOf m))"

definition up_to_date ::
    "mirror_context \<Rightarrow> (immich_asset \<Rightarrow> immich_asset) \<Rightarrow> string \<Rightarrow> catalog_row list \<Rightarrow> immich_asset \<Rightarrow> bool" where
  "up_to_date c detail source rows a \<longleftrightarrow>
     (if ShouldMirror a
      then (\<exists>r\<in>set rows. is_row source (iaID a) r)
        \<and> (\<forall>r\<in>set rows. is_row source (iaID a) r \<longrightarrow> crDatasourceKind r = immichKind
             \<and> crVisibilityStatus r = MirrorVisibilityActive \<and> described c detail a (crColumns r))
      else \<forall>r\<in>set rows. is_row source (iaID a) r \<longrightarrow> crDatasourceKind r = immichKind \<longrightarrow>
             crVisibilityStatus r \<noteq> MirrorVisibilityActive)"

lemma visibilities: "MirrorVisibilityMissing \<noteq> MirrorVisibilityActive" "MirrorVisibilityOutOfScope \<noteq> MirrorVisibilityActive"
  by (simp_all add: MirrorVisibilityMissing_def MirrorVisibilityActive_def MirrorVisibilityOutOfScope_def)

lemma entry_fields:
  "\<not> maExcluded (mirrorAsset c a)" "maExcluded (excludedAsset a)" "\<not> maExcluded (enriched c inc a d)"
  "maCapturedAt (mirrorAsset c a) = iaFileCreatedAt a"
  "maCapturedAt (enriched c inc a d) = (if is_zero (iaFileCreatedAt d) then iaFileCreatedAt a else iaFileCreatedAt d)"
proof -
  show m: "\<not> maExcluded (mirrorAsset c a)" "maCapturedAt (mirrorAsset c a) = iaFileCreatedAt a"
    by (simp_all add: mirrorAsset_def split: prod.split)
  show "maExcluded (excludedAsset a)" by (simp add: excludedAsset_def)
  show "\<not> maExcluded (enriched c inc a d)"
      "maCapturedAt (enriched c inc a d) = (if is_zero (iaFileCreatedAt d) then iaFileCreatedAt a else iaFileCreatedAt d)"
    using m by (simp_all add: enriched_def enrichMirrorAssetFromImmichAsset_def Let_def split: prod.split)
qed

lemma outcomes_staged:
  assumes "m \<in> outcomes c inc a D" and "plain a"
  shows "trim_space (maUpstreamAssetID m) = maUpstreamAssetID m" and "maExcluded m \<or> staged m" and "maExcluded m \<Longrightarrow> inc"
  using assms entry_id entry_fields by (auto simp: outcomes_def staged_def plain_def split: if_splits)

lemma outcomes_kind:
  assumes "m \<in> outcomes c inc a {d}" and "ShouldMirror d = ShouldMirror a"
  shows "maExcluded m = (\<not> ShouldMirror a)"
  using assms entry_fields by (auto simp: outcomes_def split: if_splits)

lemma described_columns:
  assumes "m \<in> outcomes c inc a {detail a}" and "\<not> maExcluded m" and "withoutCanonical cols = withoutCanonical (columnsOf m)"
  shows "described c detail a cols"
  using assms by (cases inc) (auto simp: described_def)

section \<open>Full synchronization\<close>

lemma resolveStage_same:
  "sgUpstreamAssetID (resolveStage loc s) = sgUpstreamAssetID s"
  "withoutCanonical (sgColumns (resolveStage loc s)) = withoutCanonical (sgColumns s)"
  by (simp_all add: resolveStage_def withoutCanonical_def split: prod.split option.split)

lemma ReplaceFull_ok:
  assumes "ReplaceFull source assets limit started windowEnd now ct = (Inr result, ct')" and "trim_space source = source"
  obtains status stage where "stage = map (resolveStage (ctLocal ct)) (stageAssets assets)"
    "ct' = upsertStateInTx source status now windowEnd (ct\<lparr>ctAssets := applyStage source now stage (hideAbsent source now
        (if 0 < limit then MirrorVisibilityOutOfScope else MirrorVisibilityMissing) stage (ctAssets ct))\<rparr>)"
proof -
  obtain u where "source \<noteq> []" "lockImmichMirrorExternalIdentityScopeInTx assets ct = Inr u"
    using assms by (cases "lockImmichMirrorExternalIdentityScopeInTx assets ct")
      (auto simp: ReplaceFull_def Let_def simp del: split_paired_All split: if_splits)
  moreover have "(0 < max 0 limit) = (0 < limit)" by (simp add: less_max_iff_disj)
  ultimately have "\<exists>status. ct' = upsertStateInTx source status now windowEnd (ct\<lparr>ctAssets := applyStage source now
      (map (resolveStage (ctLocal ct)) (stageAssets assets)) (hideAbsent source now
        (if 0 < limit then MirrorVisibilityOutOfScope else MirrorVisibilityMissing)
        (map (resolveStage (ctLocal ct)) (stageAssets assets)) (ctAssets ct))\<rparr>)"
    using assms by (auto simp: ReplaceFull_def Let_def split: prod.splits split del: if_split)
  then show ?thesis by (auto intro: that [OF refl])
qed

lemma cursor_after: "trim_space source = source \<Longrightarrow> immichMirrorUpdatedAfter (upsertStateInTx source status now windowEnd ct) source
    = (if is_zero windowEnd then Inl ErrReconciliationRequired else Inr (Some windowEnd))"
  by (simp add: immichMirrorUpdatedAfter_def upsertStateInTx_def)

text \<open>The rows of the source after a full synchronization.\<close>

lemma ReplaceFull_rows:
  fixes source assets limit started windowEnd now ct
  assumes "ReplaceFull source assets limit started windowEnd now ct = (Inr result, ct')" and "trim_space source = source"
  obtains stage where "ctAssets ct' = applyStage source now stage (hideAbsent source now
        (if 0 < limit then MirrorVisibilityOutOfScope else MirrorVisibilityMissing) stage (ctAssets ct))"
    "distinct (map sgUpstreamAssetID stage)"
    "\<forall>s\<in>set stage. \<exists>m\<in>set assets. staged m \<and> sgUpstreamAssetID s = trim_space (maUpstreamAssetID m)
       \<and> withoutCanonical (sgColumns s) = withoutCanonical (columnsOf m)"
    "\<forall>m\<in>set assets. staged m \<longrightarrow> (\<exists>s\<in>set stage. sgUpstreamAssetID s = trim_space (maUpstreamAssetID m))"
    "immichMirrorUpdatedAfter ct' source = (if is_zero windowEnd then Inl ErrReconciliationRequired else Inr (Some windowEnd))"
proof -
  let ?stage = "map (resolveStage (ctLocal ct)) (stageAssets assets)"
  from ReplaceFull_ok [OF assms] obtain status where ct': "ct' = upsertStateInTx source status now windowEnd
      (ct\<lparr>ctAssets := applyStage source now ?stage (hideAbsent source now
        (if 0 < limit then MirrorVisibilityOutOfScope else MirrorVisibilityMissing) ?stage (ctAssets ct))\<rparr>)" by metis
  have ids: "map sgUpstreamAssetID ?stage = map sgUpstreamAssetID (stageAssets assets)"
    by (simp add: resolveStage_same)
  note spec = stageAssets_spec [of assets]
  show ?thesis
  proof (rule that [of ?stage])
    show "ctAssets ct' = applyStage source now ?stage (hideAbsent source now
        (if 0 < limit then MirrorVisibilityOutOfScope else MirrorVisibilityMissing) ?stage (ctAssets ct))"
      unfolding ct' by (simp add: upsertStateInTx_def)
    show "immichMirrorUpdatedAfter ct' source = (if is_zero windowEnd then Inl ErrReconciliationRequired else Inr (Some windowEnd))"
      unfolding ct' by (rule cursor_after [OF assms(2)])
    show "distinct (map sgUpstreamAssetID ?stage)" unfolding ids using spec by blast
    show "\<forall>s\<in>set ?stage. \<exists>m\<in>set assets. staged m \<and> sgUpstreamAssetID s = trim_space (maUpstreamAssetID m)
       \<and> withoutCanonical (sgColumns s) = withoutCanonical (columnsOf m)"
      using spec by (fastforce simp: resolveStage_same stageAsset_def)
    show "\<forall>m\<in>set assets. staged m \<longrightarrow> (\<exists>s\<in>set ?stage. sgUpstreamAssetID s = trim_space (maUpstreamAssetID m))"
      using spec by (simp add: resolveStage_same)
  qed
qed

lemma stageFor_None: "stageFor stage sid = None \<longleftrightarrow> (\<forall>s\<in>set stage. sgUpstreamAssetID s \<noteq> sid)"
  by (auto simp: stageFor_def find_None_iff)

text \<open>A row for an identifier that was not fetched is hidden, one that was fetched shows what was found last.\<close>

lemma full_rows:
  fixes source now hidden stage rows
  defines "rows' \<equiv> applyStage source now stage (hideAbsent source now hidden stage rows)"
  assumes "distinct (map sgUpstreamAssetID stage)"
  shows "s \<in> set stage \<Longrightarrow> \<exists>r\<in>set rows'. is_row source (sgUpstreamAssetID s) r"
    and "s \<in> set stage \<Longrightarrow> r \<in> set rows' \<Longrightarrow> is_row source (sgUpstreamAssetID s) r \<Longrightarrow> shows_columns (sgColumns s) r"
    and "r \<in> set rows' \<Longrightarrow> crSourceKey r = source \<Longrightarrow> crDatasourceKind r = immichKind \<Longrightarrow>
      \<forall>s\<in>set stage. sgUpstreamAssetID s \<noteq> crUpstreamAssetID r \<Longrightarrow> crVisibilityStatus r = hidden"
    and "crSourceKey r \<noteq> source \<Longrightarrow> r \<in> set rows' \<longleftrightarrow> r \<in> set rows"
proof -
  note spec = applyStage_spec [OF assms(2), of source now "hideAbsent source now hidden stage rows", folded rows'_def]
  show "s \<in> set stage \<Longrightarrow> \<exists>r\<in>set rows'. is_row source (sgUpstreamAssetID s) r" using spec by blast
  show "s \<in> set stage \<Longrightarrow> r \<in> set rows' \<Longrightarrow> is_row source (sgUpstreamAssetID s) r \<Longrightarrow> shows_columns (sgColumns s) r"
    using spec by blast
  show "crVisibilityStatus r = hidden" if "r \<in> set rows'" "crSourceKey r = source" "crDatasourceKind r = immichKind"
      "\<forall>s\<in>set stage. sgUpstreamAssetID s \<noteq> crUpstreamAssetID r"
  proof -
    have "\<forall>s\<in>set stage. \<not> is_row source (sgUpstreamAssetID s) r" using that(4) by (auto simp: is_row_def)
    then have "r \<in> set (hideAbsent source now hidden stage rows)" using spec that(1) by blast
    then obtain r0 where r0: "r0 \<in> set rows" "r = (if crSourceKey r0 = source \<and> crDatasourceKind r0 = immichKind
        \<and> crVisibilityStatus r0 \<noteq> hidden \<and> stageFor stage (crUpstreamAssetID r0) = None
        then r0\<lparr>crVisibilityStatus := hidden, crUpdatedAt := now\<rparr> else r0)" unfolding hideAbsent_def by auto
    show ?thesis
    proof (cases "r = r0")
      case True
      have "stageFor stage (crUpstreamAssetID r) = None" using that(4) by (simp add: stageFor_None)
      with r0(2) that(2,3) True show ?thesis by (auto split: if_splits dest: arg_cong [of _ _ crVisibilityStatus])
    next
      case False
      with r0(2) show ?thesis by (simp split: if_splits)
    qed
  qed
  show "r \<in> set rows' \<longleftrightarrow> r \<in> set rows" if "crSourceKey r \<noteq> source"
  proof -
    have "\<forall>s\<in>set stage. \<not> is_row source (sgUpstreamAssetID s) r" using that by (auto simp: is_row_def)
    then have "r \<in> set rows' \<longleftrightarrow> r \<in> set (hideAbsent source now hidden stage rows)" using spec by blast
    then show ?thesis using that by (auto simp: hideAbsent_def image_iff)
  qed
qed

lemma full_up_to_date:
  assumes "ReplaceFull source assets limit started windowEnd now ct = (Inr result, ct')" and "trim_space source = source"
    and honest: "ShouldMirror (detail a) = ShouldMirror a" and "plain a"
    and entries: "\<And>m. m \<in> set assets \<Longrightarrow> trim_space (maUpstreamAssetID m) = iaID a \<Longrightarrow> m \<in> outcomes c False a {detail a}"
    and found: "ShouldMirror a \<Longrightarrow> \<exists>m\<in>set assets. m \<in> outcomes c False a {detail a}"
  shows "up_to_date c detail source (ctAssets ct') a"
proof -
  let ?hidden = "if 0 < limit then MirrorVisibilityOutOfScope else MirrorVisibilityMissing"
  from ReplaceFull_rows [OF assms(1,2)] obtain stage where
      st: "ctAssets ct' = applyStage source now stage (hideAbsent source now ?hidden stage (ctAssets ct))"
        "distinct (map sgUpstreamAssetID stage)"
        "\<forall>s\<in>set stage. \<exists>m\<in>set assets. staged m \<and> sgUpstreamAssetID s = trim_space (maUpstreamAssetID m)
           \<and> withoutCanonical (sgColumns s) = withoutCanonical (columnsOf m)"
        "\<forall>m\<in>set assets. staged m \<longrightarrow> (\<exists>s\<in>set stage. sgUpstreamAssetID s = trim_space (maUpstreamAssetID m))" .
  note rows = full_rows [OF st(2), where source = source and now = now and hidden = ?hidden and rows = "ctAssets ct", folded st(1)]
  show ?thesis
  proof (cases "ShouldMirror a")
    case True
    then obtain m where m: "m \<in> set assets" "m \<in> outcomes c False a {detail a}" using found by blast
    then have "maUpstreamAssetID m = iaID a" "\<not> maExcluded m"
      using outcomes_id [OF m(2)] outcomes_kind [OF m(2) honest] True by simp_all
    moreover have "staged m" "trim_space (maUpstreamAssetID m) = maUpstreamAssetID m"
      using outcomes_staged [OF m(2) assms(4)] calculation(2) by auto
    ultimately obtain s where s: "s \<in> set stage" "sgUpstreamAssetID s = iaID a" using st(4) m(1) by metis
    then obtain m' where m': "m' \<in> set assets" "trim_space (maUpstreamAssetID m') = iaID a"
        "withoutCanonical (sgColumns s) = withoutCanonical (columnsOf m')" using st(3) by metis
    have "m' \<in> outcomes c False a {detail a}" by (rule entries [OF m'(1,2)])
    then have "described c detail a (sgColumns s)"
      using described_columns [OF _ _ m'(3)] outcomes_kind [OF _ honest] True by blast
    then show ?thesis using True rows(1,2) [OF s(1)] s(2) by (simp add: up_to_date_def shows_columns_def)
  next
    case False
    have "sgUpstreamAssetID s \<noteq> iaID a" if s: "s \<in> set stage" for s
    proof
      assume "sgUpstreamAssetID s = iaID a"
      then obtain m where "m \<in> set assets" "trim_space (maUpstreamAssetID m) = iaID a" using st(3) s by metis
      then have "m \<in> outcomes c False a {detail a}" by (rule entries)
      then show False using False by (simp add: outcomes_def)
    qed
    then show ?thesis using False rows(3) visibilities by (auto simp: up_to_date_def is_row_def split: if_splits)
  qed
qed

section \<open>Incremental synchronization\<close>

lemma resolveIdentity_same:
  "withoutCanonical (columnsOf (resolveImmichMirrorAssetCanonicalIdentityInTx loc m)) = withoutCanonical (columnsOf m)"
proof -
  have "withoutCanonical (columnsOf (m\<lparr>maCanonicalContentSHA1Hex := x, maCanonicalContentSizeBytes := n\<rparr>))
      = withoutCanonical (columnsOf m)" for x n
    by (simp add: withoutCanonical_def columnsOf_def normalizeMirrorUpstreamChecksumAlgorithm_def Let_def)
  then show ?thesis
    unfolding resolveImmichMirrorAssetCanonicalIdentityInTx_def by (simp split: option.split)
qed

lemma excludeRow_rows:
  shows "\<not> is_row source sid r \<Longrightarrow> r \<in> set (excludeRow source now sid updated rows) \<longleftrightarrow> r \<in> set rows"
    and "r \<in> set (excludeRow source now sid updated rows) \<Longrightarrow> is_row source sid r \<Longrightarrow> crDatasourceKind r = immichKind \<Longrightarrow>
      crVisibilityStatus r \<noteq> MirrorVisibilityActive"
proof -
  let ?f = "\<lambda>r. if excludeMatches source sid updated r
    then r\<lparr>crVisibilityStatus := MirrorVisibilityOutOfScope, crColumns := (crColumns r)\<lparr>acSourceUpdatedAt :=
      (if updated = None then acSourceUpdatedAt (crColumns r) else updated)\<rparr>, crUpdatedAt := now\<rparr> else r"
  have key: "is_row source sid (?f r) = is_row source sid r" "crDatasourceKind (?f r) = crDatasourceKind r" for r
    by (simp_all add: is_row_def)
  have rows: "excludeRow source now sid updated rows = map ?f rows" by (simp only: excludeRow_def)
  show "r \<in> set (excludeRow source now sid updated rows) \<longleftrightarrow> r \<in> set rows" if "\<not> is_row source sid r"
  proof
    assume "r \<in> set (excludeRow source now sid updated rows)"
    then obtain r0 where r0: "r0 \<in> set rows" "r = ?f r0" unfolding rows by auto
    then have "\<not> is_row source sid r0" using that key(1) [of r0] by simp
    then have "\<not> excludeMatches source sid updated r0" by (simp add: excludeMatches_def)
    then show "r \<in> set rows" using r0 by simp
  next
    assume "r \<in> set rows"
    moreover have "?f r = r" using that by (simp add: excludeMatches_def)
    ultimately show "r \<in> set (excludeRow source now sid updated rows)" unfolding rows
      by (simp only: set_map) (rule rev_image_eqI [of r], simp_all)
  qed
  show "crVisibilityStatus r \<noteq> MirrorVisibilityActive" if "r \<in> set (excludeRow source now sid updated rows)"
      "is_row source sid r" "crDatasourceKind r = immichKind"
  proof -
    from that(1) obtain r0 where r0: "r0 \<in> set rows" "r = ?f r0" unfolding rows by auto
    have "is_row source sid (?f r0)" "crDatasourceKind (?f r0) = immichKind" using that(2,3) r0(2) by (simp_all only:)
    then have "is_row source sid r0" "crDatasourceKind r0 = immichKind" by (simp_all only: key)
    then have "excludeMatches source sid updated r0 \<or> crVisibilityStatus r0 = MirrorVisibilityOutOfScope"
      by (simp add: excludeMatches_def)
    then show ?thesis unfolding r0(2) using visibilities by (cases "excludeMatches source sid updated r0") simp_all
  qed
qed

text \<open>Merging an entry settles its asset and leaves the others as they are.\<close>

lemma mergeAsset_up_to_date:
  assumes "mergeAsset loc source now m (rows, changed) = (rows', changed')"
    and "ShouldMirror (detail a) = ShouldMirror a" and "plain a" and "trim_space (maUpstreamAssetID m) = maUpstreamAssetID m"
    and "maUpstreamAssetID m = iaID a \<longrightarrow> m \<in> outcomes c True a {detail a}"
    and "maUpstreamAssetID m = iaID a \<or> up_to_date c detail source rows a"
  shows "up_to_date c detail source rows' a"
proof (cases "maUpstreamAssetID m = iaID a")
  case True
  then have m: "m \<in> outcomes c True a {detail a}" using assms(5) by simp
  note kind = outcomes_kind [OF m assms(2)]
  show ?thesis
  proof (cases "ShouldMirror a")
    case mirrored: True
    let ?cols = "columnsOf (resolveImmichMirrorAssetCanonicalIdentityInTx loc m)"
    have "staged m" using outcomes_staged(2) [OF m assms(3)] kind mirrored by simp
    then have "rows' = upsertRow source now (iaID a) ?cols rows"
      using assms(1,4) kind mirrored True by (auto simp: mergeAsset_def staged_def Let_def)
    moreover have "described c detail a ?cols"
      using described_columns [where detail = detail, OF m _ resolveIdentity_same] kind mirrored by blast
    ultimately show ?thesis
      using upsertRow_row [where source = source and now = now and sid = "iaID a" and cols = ?cols and rows = rows] mirrored by (auto simp: up_to_date_def shows_columns_def)
  next
    case excluded: False
    then obtain updated where "rows' = excludeRow source now (iaID a) updated rows"
      using assms(1,3,4) kind True by (auto simp: mergeAsset_def plain_def Let_def)
    then show ?thesis using excludeRow_rows(2) excluded by (auto simp: up_to_date_def)
  qed
next
  case False
  have same: "r \<in> set rows' \<longleftrightarrow> r \<in> set rows" if "is_row source (iaID a) r" for r
  proof -
    have "\<not> is_row source (maUpstreamAssetID m) r" using that False by (auto simp: is_row_def)
    then show ?thesis using assms(1,4) upsertRow_other excludeRow_rows(1)
      by (auto simp: mergeAsset_def Let_def split: if_splits)
  qed
  show ?thesis using assms(6) False same unfolding up_to_date_def by (simp split: if_splits) blast+
qed

lemma merge_up_to_date:
  assumes "fold (mergeAsset loc source now) assets (rows, changed) = (rows', changed')"
    and "ShouldMirror (detail a) = ShouldMirror a" and "plain a"
    and "\<And>m. m \<in> set assets \<Longrightarrow> trim_space (maUpstreamAssetID m) = maUpstreamAssetID m
      \<and> (maUpstreamAssetID m = iaID a \<longrightarrow> m \<in> outcomes c True a {detail a})"
    and "(\<exists>m\<in>set assets. maUpstreamAssetID m = iaID a) \<or> up_to_date c detail source rows a"
  shows "up_to_date c detail source rows' a"
  using assms(1,4,5)
proof (induction assets arbitrary: rows changed)
  case (Cons m assets)
  obtain rows1 changed1 where 1: "mergeAsset loc source now m (rows, changed) = (rows1, changed1)" by fastforce
  have "maUpstreamAssetID m = iaID a \<or> up_to_date c detail source rows a \<Longrightarrow> up_to_date c detail source rows1 a"
    by (rule mergeAsset_up_to_date [where detail = detail, OF 1 assms(2,3)]) (use Cons.prems(2) in auto)
  then show ?case using Cons.IH [of rows1 changed1] 1 Cons.prems by auto
qed simp

lemma MergeIncremental_rows:
  assumes "MergeIncremental source assets started windowEnd now ct = (Inr result, ct')" and "trim_space source = source"
  shows "\<exists>changed. fold (mergeAsset (ctLocal ct) source now) assets (ctAssets ct, []) = (ctAssets ct', changed)"
    and "immichMirrorUpdatedAfter ct' source = (if is_zero windowEnd then Inl ErrReconciliationRequired else Inr (Some windowEnd))"
proof -
  obtain u where "source \<noteq> []" "lockImmichMirrorExternalIdentityScopeInTx assets ct = Inr u"
    using assms by (cases "lockImmichMirrorExternalIdentityScopeInTx assets ct") (auto simp: MergeIncremental_def Let_def split: if_splits)
  then have "\<exists>status rows changed. fold (mergeAsset (ctLocal ct) source now) assets (ctAssets ct, []) = (rows, changed)
      \<and> ct' = upsertStateInTx source status now windowEnd (ct\<lparr>ctAssets := rows\<rparr>)"
    using assms by (auto simp: MergeIncremental_def Let_def split: prod.splits)
  then obtain status rows changed where r: "fold (mergeAsset (ctLocal ct) source now) assets (ctAssets ct, []) = (rows, changed)"
      "ct' = upsertStateInTx source status now windowEnd (ct\<lparr>ctAssets := rows\<rparr>)" by blast
  show "\<exists>changed. fold (mergeAsset (ctLocal ct) source now) assets (ctAssets ct, []) = (ctAssets ct', changed)"
    using r by (simp add: upsertStateInTx_def)
  show "immichMirrorUpdatedAfter ct' source = (if is_zero windowEnd then Inl ErrReconciliationRequired else Inr (Some windowEnd))"
    unfolding r(2) by (rule cursor_after [OF assms(2)])
qed

section \<open>Fetching for a synchronization\<close>

lemma fetched_entries:
  assumes "honest_server sv lib detail" and "fetchImmichMirrorAssets fuel sv c options n0 = Some (Inr st)"
    and "foLatestAssetLimit options \<le> 0" and "m \<in> set (fsAssets st)"
  shows "trim_space (maUpstreamAssetID m) = maUpstreamAssetID m"
proof -
  let ?st = "\<lparr>fsRequests = n0, fsAssets = [], fsIndexes = (\<lambda>_. None), fsDetails = max 0 (foDetailLimit options)\<rparr>"
  let ?inc = "present (foUpdatedAfter options)"
  have run: "fetchPages fuel sv c ?inc 0 (newPager options) ?st = Some (Inr st)"
    using assms(2,3) by (simp add: fetchImmichMirrorAssets_def)
  have "n0 \<le> fsRequests ?st" by simp
  from fetchPages_sound [OF assms(1) run this order_refl] assms(4) obtain n a where a: "a \<in> lib n"
      "m \<in> outcomes c ?inc a (detailsOf sv n0 (fsRequests st) a)" by auto
  have "plain a" using good_libraryD(1-3) [OF assms(1) a(1)] by (auto simp: plain_def is_zero_def)
  with a(2) show ?thesis by (rule outcomes_staged)
qed

lemma fetchScopes_finds:
  assumes honest: "honest_server sv lib detail" and "fetchScopes fuel sv c options vs n0 = Some (Inr (assets, n'))"
    and opts: "\<And>v. foLatestAssetLimit (options v) \<le> 0 \<and> present (foUpdatedAfter (options v))"
    and stays: "\<And>n. a \<in> lib n"
  shows "(\<forall>m\<in>set assets. trim_space (maUpstreamAssetID m) = maUpstreamAssetID m
      \<and> (maUpstreamAssetID m = iaID a \<longrightarrow> m \<in> outcomes c True a {detail a}))
    \<and> (\<forall>v\<in>set vs. inScope (pageRequest (newPager (options v))) a \<longrightarrow> (\<exists>m\<in>set assets. maUpstreamAssetID m = iaID a))"
  using assms(2)
proof (induction vs arbitrary: n0 assets)
  case (Cons v vs)
  then obtain st rest where 1: "fetchImmichMirrorAssets fuel sv c (options v) n0 = Some (Inr st)"
      "fetchScopes fuel sv c options vs (fsRequests st) = Some (Inr (rest, n'))" "assets = fsAssets st @ rest"
    by (auto split: option.splits sum.splits)
  have o: "foLatestAssetLimit (options v) \<le> 0" "True = present (foUpdatedAfter (options v))" using opts [of v] by simp_all
  note finds = fetch_finds [OF honest 1(1) o order_refl order_refl stays]
  from finds(1) have "inScope (pageRequest (newPager (options v))) a \<Longrightarrow> \<exists>m\<in>set (fsAssets st). maUpstreamAssetID m = iaID a"
    using outcomes_id by blast
  then show ?case using Cons.IH [OF 1(2)] 1(3) finds(2) fetched_entries [OF honest 1(1) o(1)] by auto
qed simp

lemma timeline_mirrored:
  assumes "ShouldMirror a" and "iaVisibility a \<in> set syncedScopes"
  shows "inScope (pageRequest (newPager (fullOptions ds))) a"
proof -
  have "trim_space (to_lower ''hidden'') = ''hidden''" "trim_space (to_lower ''archive'') = ''archive''" by code_simp+
  with assms have "iaVisibility a = ''timeline''" by (auto simp: ShouldMirror_def syncedScopes_def Let_def)
  with assms(1) show ?thesis
    by (simp add: inScope_def pageRequest_def newPager_def fullOptions_def ShouldMirror_def Let_def present_def)
qed

lemma window_scope:
  assumes "after \<le> updatedOrZero a" and "updatedOrZero a \<le> windowEnd" and "\<not> is_zero after"
  shows "inScope (pageRequest (newPager (incrementalOptions ds after windowEnd (iaVisibility a)))) a \<or> iaVisibility a = []"
  using assms by (auto simp: inScope_def pageRequest_def newPager_def incrementalOptions_def present_def Let_def)

text \<open>The ways a synchronization can end.\<close>

lemma sync_cases:
  assumes "syncMirrorDatasource fuel sv c ds mode started now ct = Some (r, ct')" and "source = trim_space (dsSourceKey ds)"
  obtains (failed) e where "r = Inl e" "ct' = ct"
  | (full) windowEnd st where "immichMirrorWindowEnd sv = Inr windowEnd"
      "fetchImmichMirrorAssets fuel sv c (fullOptions ds) 0 = Some (Inr st)"
      "withStatus source (dsLatestAssetLimit ds)
         (ReplaceFull source (fsAssets st) (dsLatestAssetLimit ds) started windowEnd now ct) = (r, ct')"
  | (incremental) windowEnd after assets n where "immichMirrorWindowEnd sv = Inr windowEnd"
      "immichMirrorUpdatedAfter ct source = Inr (Some after)" "after \<le> windowEnd"
      "fetchScopes fuel sv c (incrementalOptions ds after windowEnd) syncedScopes 0 = Some (Inr (assets, n))"
      "withStatus source (dsLatestAssetLimit ds) (MergeIncremental source assets started windowEnd now ct) = (r, ct')"
proof -
  let ?mode = "if trim_space mode = [] then MirrorSyncModeFull else trim_space mode"
  have after: "immichMirrorUpdatedAfter ct source = Inr (Some t)" if "syncMode ct source (dsLatestAssetLimit ds) ?mode = Inr (Some t)" for t
    using that by (simp add: syncMode_def split: if_splits)
  show ?thesis
  proof (cases "syncMode ct source (dsLatestAssetLimit ds) ?mode"; cases "immichMirrorWindowEnd sv")
    fix x windowEnd assume x: "syncMode ct source (dsLatestAssetLimit ds) ?mode = Inr x" "immichMirrorWindowEnd sv = Inr windowEnd"
    show ?thesis
    proof (cases x)
      case None
      then show ?thesis using assms(1) x full [OF x(2)] failed unfolding syncMirrorDatasource_def Let_def assms(2) [symmetric]
        by (auto split: if_splits option.splits sum.splits)
    next
      case (Some t)
      then have "immichMirrorUpdatedAfter ct source = Inr (Some t)" using after x(1) by simp
      then show ?thesis
        using assms(1) x Some incremental [OF x(2)] failed unfolding syncMirrorDatasource_def Let_def assms(2) [symmetric]
        by (auto split: if_splits option.splits sum.splits)
    qed
  qed (use assms failed in \<open>auto simp: syncMirrorDatasource_def Let_def split: if_splits\<close>)
qed

lemma withStatus_cases:
  assumes "withStatus source limit x = (r, ct')"
  obtains (error) e where "r = Inl e" "x = (Inl e, ct')" | (ok) result res where "r = Inr result" "x = (Inr res, ct')"
  using assms by (cases x; cases "fst x") (auto simp: withStatus_def)

text \<open>One synchronization: what it makes of an asset that stays as it is while it runs.\<close>

lemma sync_settles:
  assumes honest: "honest_server sv lib detail" and limit: "dsLatestAssetLimit ds \<le> 0" and "source = trim_space (dsSourceKey ds)"
    and run: "syncMirrorDatasource fuel sv c ds mode started now ct = Some (Inr result, ct')"
    and stays: "\<And>n. a \<in> lib n" and scope: "iaVisibility a \<in> set syncedScopes"
    and windowEnd: "immichMirrorWindowEnd sv = Inr windowEnd" and "updatedOrZero a < windowEnd"
    and before: "\<And>t. immichMirrorUpdatedAfter ct source = Inr (Some t) \<Longrightarrow> \<not> is_zero t
      \<and> (updatedOrZero a < t \<longrightarrow> up_to_date c detail source (ctAssets ct) a)"
  shows "up_to_date c detail source (ctAssets ct') a"
proof -
  have trim: "trim_space source = source" using assms(3) by simp
  have plain: "plain a" using good_libraryD(1-3) [OF honest stays] by (auto simp: plain_def is_zero_def)
  have kind: "ShouldMirror (detail a) = ShouldMirror a" using honest by (auto simp: honest_server_def)
  from run assms(3) have "(\<exists>st res. fetchImmichMirrorAssets fuel sv c (fullOptions ds) 0 = Some (Inr st)
      \<and> ReplaceFull source (fsAssets st) (dsLatestAssetLimit ds) started windowEnd now ct = (Inr res, ct'))
    \<or> (\<exists>after assets n res. immichMirrorUpdatedAfter ct source = Inr (Some after)
      \<and> fetchScopes fuel sv c (incrementalOptions ds after windowEnd) syncedScopes 0 = Some (Inr (assets, n))
      \<and> MergeIncremental source assets started windowEnd now ct = (Inr res, ct'))"
    by (rule sync_cases) (use windowEnd in \<open>auto elim: withStatus_cases\<close>)
  then consider (full) st res where "fetchImmichMirrorAssets fuel sv c (fullOptions ds) 0 = Some (Inr st)"
      "ReplaceFull source (fsAssets st) (dsLatestAssetLimit ds) started windowEnd now ct = (Inr res, ct')"
    | (incremental) after assets n res where "immichMirrorUpdatedAfter ct source = Inr (Some after)"
      "fetchScopes fuel sv c (incrementalOptions ds after windowEnd) syncedScopes 0 = Some (Inr (assets, n))"
      "MergeIncremental source assets started windowEnd now ct = (Inr res, ct')" by blast
  then show ?thesis
  proof cases
    case full
    have o: "foLatestAssetLimit (fullOptions ds) \<le> 0" "False = present (foUpdatedAfter (fullOptions ds))"
      using limit by (simp_all add: fullOptions_def present_def)
    note finds = fetch_finds [OF honest full(1) o order_refl order_refl stays]
    show ?thesis
      by (rule full_up_to_date [where detail = detail, OF full(2) trim kind plain])
        (use finds fetched_entries [OF honest full(1) o(1)] timeline_mirrored [OF _ scope] in auto)
  next
    case incremental
    have after: "\<not> is_zero after" "updatedOrZero a < after \<longrightarrow> up_to_date c detail source (ctAssets ct) a"
      using before [OF incremental(1)] by simp_all
    have o: "foLatestAssetLimit (incrementalOptions ds after windowEnd v) \<le> 0
        \<and> present (foUpdatedAfter (incrementalOptions ds after windowEnd v))" for v
      using after(1) by (simp add: incrementalOptions_def present_def)
    note finds = fetchScopes_finds [OF honest incremental(2) o stays]
    have "(\<exists>m\<in>set assets. maUpstreamAssetID m = iaID a) \<or> up_to_date c detail source (ctAssets ct) a"
    proof (cases "updatedOrZero a < after")
      case False
      then have "inScope (pageRequest (newPager (incrementalOptions ds after windowEnd (iaVisibility a)))) a"
        using window_scope [of after a windowEnd ds] after(1) assms(8) scope by (auto simp: syncedScopes_def)
      then show ?thesis using finds scope by blast
    qed (use after(2) in simp)
    then show ?thesis
      using MergeIncremental_rows(1) [OF incremental(3) trim] finds
      by (auto intro: merge_up_to_date [where detail = detail, OF _ kind plain])
  qed
qed

lemma sync_cursor:
  assumes "syncMirrorDatasource fuel sv c ds mode started now ct = Some (r, ct')" and "source = trim_space (dsSourceKey ds)"
  shows "(\<exists>e. r = Inl e) \<and> ct' = ct \<or> (\<exists>result windowEnd. r = Inr result \<and> immichMirrorWindowEnd sv = Inr windowEnd
    \<and> immichMirrorUpdatedAfter ct' source = (if is_zero windowEnd then Inl ErrReconciliationRequired else Inr (Some windowEnd)))"
proof -
  have trim: "trim_space source = source" using assms(2) by simp
  have rep: "ct' = ct" if "ReplaceFull source assets limit started windowEnd now ct = (Inl e, ct')" for e assets limit windowEnd
    using that by (auto simp: ReplaceFull_def Let_def split: if_splits sum.splits prod.splits)
  have inc: "ct' = ct" if "MergeIncremental source assets started windowEnd now ct = (Inl e, ct')" for e assets windowEnd
    using that by (auto simp: MergeIncremental_def Let_def split: if_splits sum.splits prod.splits)
  from assms show ?thesis
  proof (cases rule: sync_cases)
    case (full windowEnd st)
    from full(3) show ?thesis
      by (cases rule: withStatus_cases) (use full(1) rep ReplaceFull_rows [OF _ trim] in metis)+
  next
    case (incremental windowEnd after assets n)
    from incremental(5) show ?thesis
      by (cases rule: withStatus_cases) (use incremental(1) inc MergeIncremental_rows(2) [OF _ trim] in metis)+
  qed simp
qed

section \<open>The mirror and its library\<close>

text \<open>
  The world of a mirror: the library and its clock, and the catalogue. The library changes at any time, also
  between the requests of a synchronization; an asset that is changed gets the time of its change. The clock that
  the server tells is not ahead of the one that stamps the changes.
\<close>

record mirror_world =
  mwLibrary :: "immich_asset set"
  mwServerClock :: gotime
  mwCatalog :: catalog

definition later_library :: "gotime \<Rightarrow> immich_asset set \<Rightarrow> immich_asset set \<Rightarrow> bool" where
  "later_library now L L' \<longleftrightarrow> (\<forall>a\<in>L'. a \<in> L \<or> now \<le> updatedOrZero a)"

inductive mirror_step ::
    "mirror_context \<Rightarrow> mirror_datasource \<Rightarrow> (immich_asset \<Rightarrow> immich_asset) \<Rightarrow> mirror_world \<Rightarrow> mirror_world \<Rightarrow> bool"
  for c ds detail where
  change: "later_library (mwServerClock w) (mwLibrary w) L \<Longrightarrow> mwServerClock w \<le> t \<Longrightarrow>
    mirror_step c ds detail w (w\<lparr>mwLibrary := L, mwServerClock := t\<rparr>)"
| sync: "honest_server sv lib detail \<Longrightarrow> (\<And>n. later_library (mwServerClock w) (mwLibrary w) (lib n)) \<Longrightarrow>
    (\<And>n. later_library (mwServerClock w) (lib n) L) \<Longrightarrow> mwServerClock w \<le> t \<Longrightarrow>
    (\<And>windowEnd. immichMirrorWindowEnd sv = Inr windowEnd \<Longrightarrow> windowEnd \<le> mwServerClock w) \<Longrightarrow>
    syncMirrorDatasource fuel sv c ds mode started now (mwCatalog w) = Some (result, ct) \<Longrightarrow>
    mirror_step c ds detail w (w\<lparr>mwLibrary := L, mwServerClock := t, mwCatalog := ct\<rparr>)"

definition mirror_init :: "mirror_datasource \<Rightarrow> mirror_world \<Rightarrow> bool" where
  "mirror_init ds w \<longleftrightarrow> dsLatestAssetLimit ds \<le> 0 \<and> ctStates (mwCatalog w) (trim_space (dsSourceKey ds)) = None"

text \<open>What was last changed before the cursor is up to date, as far as the agent may see it.\<close>

definition synced ::
    "mirror_context \<Rightarrow> (immich_asset \<Rightarrow> immich_asset) \<Rightarrow> string \<Rightarrow> catalog_row list \<Rightarrow> immich_asset set \<Rightarrow> gotime \<Rightarrow> bool" where
  "synced c detail source rows L t \<longleftrightarrow>
     (\<forall>a\<in>L. iaVisibility a \<in> set syncedScopes \<longrightarrow> updatedOrZero a < t \<longrightarrow> up_to_date c detail source rows a)"

definition mirror_inv :: "mirror_context \<Rightarrow> mirror_datasource \<Rightarrow> (immich_asset \<Rightarrow> immich_asset) \<Rightarrow> mirror_world \<Rightarrow> bool" where
  "mirror_inv c ds detail w \<longleftrightarrow> dsLatestAssetLimit ds \<le> 0
     \<and> (let source = trim_space (dsSourceKey ds) in
        \<forall>t. immichMirrorUpdatedAfter (mwCatalog w) source = Inr (Some t) \<longrightarrow>
          \<not> is_zero t \<and> t \<le> mwServerClock w \<and> synced c detail source (ctAssets (mwCatalog w)) (mwLibrary w) t)"

lemma mirror_inv_step:
  assumes "mirror_inv c ds detail w" and "mirror_step c ds detail w w'"
  shows "mirror_inv c ds detail w'"
  using assms(2)
proof cases
  case (change L t)
  then show ?thesis using assms(1) by (fastforce simp: mirror_inv_def Let_def synced_def later_library_def)
next
  case (sync sv lib L t fuel mode started now result ct)
  let ?source = "trim_space (dsSourceKey ds)"
  have limit: "dsLatestAssetLimit ds \<le> 0" using assms(1) by (simp add: mirror_inv_def)
  have old: "a \<in> mwLibrary w" "\<And>n. a \<in> lib n" if "a \<in> L" "updatedOrZero a < mwServerClock w" for a
  proof -
    show n: "a \<in> lib n" for n using sync(4) [of n] that by (fastforce simp: later_library_def)
    show "a \<in> mwLibrary w" using sync(3) [of 0] n [of 0] that(2) by (fastforce simp: later_library_def)
  qed
  have "\<not> is_zero u \<and> u \<le> t \<and> synced c detail ?source (ctAssets ct) L u"
    if u: "immichMirrorUpdatedAfter ct ?source = Inr (Some u)" for u
  proof (cases "\<exists>e. result = Inl e")
    case True
    then have "ct = mwCatalog w" using sync_cursor [OF sync(7) refl] by auto
    then have "\<not> is_zero u \<and> u \<le> mwServerClock w \<and> synced c detail ?source (ctAssets ct) (mwLibrary w) u"
      using assms(1) u by (simp add: mirror_inv_def Let_def)
    then show ?thesis using old sync(5) by (fastforce simp: synced_def)
  next
    case False
    then obtain res where r: "result = Inr res" "immichMirrorWindowEnd sv = Inr u" "\<not> is_zero u"
      using sync_cursor [OF sync(7) refl] u by (auto split: if_splits)
    then have le: "u \<le> mwServerClock w" using sync(6) by simp
    have "up_to_date c detail ?source (ctAssets ct) a" if a: "a \<in> L" "iaVisibility a \<in> set syncedScopes" "updatedOrZero a < u" for a
    proof (rule sync_settles [OF sync(2) limit refl sync(7) [unfolded r(1)] _ a(2) r(2) a(3)])
      show "a \<in> lib n" for n using old(2) a le by simp
      show "\<not> is_zero v \<and> (updatedOrZero a < v \<longrightarrow> up_to_date c detail ?source (ctAssets (mwCatalog w)) a)"
        if "immichMirrorUpdatedAfter (mwCatalog w) ?source = Inr (Some v)" for v
        using assms(1) that old(1) a le by (auto simp: mirror_inv_def Let_def synced_def)
    qed
    then show ?thesis using r(3) le sync(5) by (simp add: synced_def)
  qed
  then show ?thesis unfolding sync(1) mirror_inv_def using limit by (simp add: Let_def)
qed

interpretation mirror: machine "mirror_init ds" "mirror_step c ds detail" "mirror_inv c ds detail" for c ds detail
proof
  show "mirror_init ds w \<Longrightarrow> mirror_inv c ds detail w" for w
    by (auto simp: mirror_init_def mirror_inv_def immichMirrorUpdatedAfter_def Let_def)
  show "mirror_inv c ds detail w \<Longrightarrow> mirror_step c ds detail w w' \<Longrightarrow> mirror_inv c ds detail w'" for w w'
    by (rule mirror_inv_step)
qed

end
