(* ===== verification/Mirror_Theorems.thy ===== *)
theory Mirror_Theorems
  imports Mirror_Sync
begin

text \<open>
  The claims about the mirror: that it follows its library, that a full synchronization mirrors a library exactly, and that a
  synchronization that fails changes nothing; with an example of a server and a library.
\<close>

section \<open>What is fetched\<close>



section \<open>Full synchronization\<close>

lemma scopeOf_one:
  assumes "\<forall>m\<in>set ms. trim_space (maExternalContentIdentityScopeKey m) = k" and "e = [] \<or> e = k"
  shows "\<exists>e'. scopeOf ms e = Inr e' \<and> (e' = [] \<or> e' = k)"
  using assms by (induction ms arbitrary: e) (auto simp: Let_def)

lemma outcomes_scope: "m \<in> outcomes c False a D \<Longrightarrow> maExternalContentIdentityScopeKey m = mcScopeKey c"
proof -
  have m: "maExternalContentIdentityScopeKey (mirrorAsset c a) = mcScopeKey c"
    by (simp add: mirrorAsset_def split: prod.split)
  then have "maExternalContentIdentityScopeKey (enriched c False a d) = mcScopeKey c" for d
    by (simp add: enriched_def enrichMirrorAssetFromImmichAsset_def Let_def split: prod.split)
  with m show "m \<in> outcomes c False a D \<Longrightarrow> ?thesis" by (auto simp: outcomes_def split: if_splits)
qed

text \<open>The identities of the catalogue are those of the configuration.\<close>

definition scope_current :: "mirror_context \<Rightarrow> catalog \<Rightarrow> bool" where
  "scope_current c ct \<longleftrightarrow> trim_space (mcScopeKey c) = [] \<or> ctScopeKey ct = Some (trim_space (mcScopeKey c))"

lemma ReplaceFull_succeeds:
  assumes "source \<noteq> []" and "trim_space source = source" and "scope_current c ct"
    and "\<forall>m\<in>set assets. maExternalContentIdentityScopeKey m = mcScopeKey c"
  shows "\<exists>result ct'. ReplaceFull source assets limit started windowEnd now ct = (Inr result, ct')"
proof -
  obtain e where "scopeOf assets [] = Inr e" "e = [] \<or> e = trim_space (mcScopeKey c)"
    using scopeOf_one [of assets "trim_space (mcScopeKey c)" "[]"] assms(4) by auto
  then have "lockImmichMirrorExternalIdentityScopeInTx assets ct = Inr ()"
    using assms(3) by (auto simp: lockImmichMirrorExternalIdentityScopeInTx_def scope_current_def)
  then show ?thesis using assms(1,2) by (auto simp: ReplaceFull_def Let_def split: prod.splits)
qed

definition mirrored_assets :: "immich_asset set \<Rightarrow> immich_asset set" where
  "mirrored_assets L = {a \<in> L. iaVisibility a = ''timeline'' \<and> ShouldMirror a}"

lemma fullOptions_scope: "a \<in> L \<Longrightarrow> inScope (pageRequest (newPager (fullOptions ds))) a \<and> ShouldMirror a \<longleftrightarrow> a \<in> mirrored_assets L"
  by (auto simp: mirrored_assets_def inScope_def pageRequest_def newPager_def fullOptions_def ShouldMirror_def Let_def present_def)

lemma full_sync_runs:
  assumes honest: "honest_server sv (\<lambda>_. L) detail" and "answering_server sv" and "sparse_library L"
    and "dsLatestAssetLimit ds \<le> 0" and "dsMetadataDetailLimit ds \<le> 0" and "immichDatasourceIndexed ds"
    and "immichMirrorWindowEnd sv = Inr windowEnd" and "scope_current c ct" and "source = trim_space (dsSourceKey ds)"
  obtains st :: fetch_state and result result' ct' where
    "syncMirrorDatasource (card L + 3) sv c ds ''full'' started now ct = Some (Inr result, ct')"
    "ReplaceFull source (fsAssets st) (dsLatestAssetLimit ds) started windowEnd now ct = (Inr result', ct')"
    "maUpstreamAssetID ` set (fsAssets st) = iaID ` mirrored_assets L" "\<forall>m\<in>set (fsAssets st). staged m"
proof -
  let ?o = "fullOptions ds" let ?r = "pageRequest (newPager (fullOptions ds))"
  let ?st = "\<lparr>fsRequests = 0, fsAssets = [], fsIndexes = (\<lambda>_. None), fsDetails = 0\<rparr> :: fetch_state"
  have o: "foLatestAssetLimit ?o \<le> 0" "foDetailLimit ?o \<le> 0" "False = present (foUpdatedAfter ?o)"
    using assms(4,5) by (simp_all add: fullOptions_def present_def)
  have "card (slots L) \<le> card L" using assms(3) by (simp add: sparse_library_def slots_def card_image_le)
  then have "rank (slots L) (newPager ?o) < card L + 3" by (simp add: rank_def newPager_def)
  moreover have "bounded_pager (slots L) (newPager ?o)"
    by (simp add: bounded_pager_def newPager_def filledSize_def maxPageSize_def immichMirrorMaxPageSize_def)
  ultimately obtain st where run: "fetchPages (card L + 3) sv c False 0 (newPager ?o) ?st = Some (Inr st)"
    using fetchPages_total [OF assms(1-3), of ?st] by fastforce
  then have fetch: "fetchImmichMirrorAssets (card L + 3) sv c ?o 0 = Some (Inr st)"
    using o by (simp add: fetchImmichMirrorAssets_def)
  have "\<exists>a\<in>L. inScope ?r a \<and> m \<in> outcomes c False a (detailsOf sv 0 (fsRequests st) a)" if "m \<in> set (fsAssets st)" for m
    using fetchPages_sound [OF honest run, of 0 "fsRequests st"] that by auto
  then have entry: "\<exists>a\<in>mirrored_assets L. m \<in> outcomes c False a (detailsOf sv 0 (fsRequests st) a)" if "m \<in> set (fsAssets st)" for m
    using that fullOptions_scope [of _ L ds] by (fastforce simp: outcomes_def split: if_splits)
  note finds = fetch_finds [OF honest fetch o(1,3) order_refl order_refl]
  have ids: "maUpstreamAssetID ` set (fsAssets st) = iaID ` mirrored_assets L"
  proof
    show "maUpstreamAssetID ` set (fsAssets st) \<subseteq> iaID ` mirrored_assets L" using entry outcomes_id by blast
    show "iaID ` mirrored_assets L \<subseteq> maUpstreamAssetID ` set (fsAssets st)"
    proof
      fix x assume "x \<in> iaID ` mirrored_assets L"
      then obtain a where a: "a \<in> L" "x = iaID a" "inScope ?r a" "ShouldMirror a"
        using fullOptions_scope [of _ L ds] by (auto simp: mirrored_assets_def)
      then obtain m where "m \<in> set (fsAssets st)" "m \<in> outcomes c False a {detail a}" using finds(1) [of a] by blast
      then show "x \<in> maUpstreamAssetID ` set (fsAssets st)" using outcomes_id a(2) by (metis image_eqI)
    qed
  qed
  have staged: "\<forall>m\<in>set (fsAssets st). staged m"
  proof
    fix m assume "m \<in> set (fsAssets st)"
    then obtain a where a: "a \<in> L" "m \<in> outcomes c False a (detailsOf sv 0 (fsRequests st) a)"
      using entry by (auto simp: mirrored_assets_def)
    have "plain a" using good_libraryD(1-3) [OF honest a(1)] by (auto simp: plain_def is_zero_def)
    from outcomes_staged(2,3) [OF a(2) this] show "staged m" by blast
  qed
  have "source \<noteq> []" "trim_space source = source" using assms(6,9) by (simp_all add: immichDatasourceIndexed_def)
  then obtain result' ct' where rf: "ReplaceFull source (fsAssets st) (dsLatestAssetLimit ds) started windowEnd now ct = (Inr result', ct')"
    using ReplaceFull_succeeds [OF _ _ assms(8)] entry outcomes_scope by blast
  have full: "trim_space ''full'' = ''full''" by code_simp
  have "\<exists>result. syncMirrorDatasource (card L + 3) sv c ds ''full'' started now ct = Some (Inr result, ct')"
    using assms(6,7,9) fetch rf
    by (simp add: syncMirrorDatasource_def syncMode_def full MirrorSyncModeFull_def MirrorSyncModeIncremental_def withStatus_def Let_def)
  then obtain result where "syncMirrorDatasource (card L + 3) sv c ds ''full'' started now ct = Some (Inr result, ct')" ..
  from that [OF this rf ids staged] show ?thesis .
qed

text \<open>The identifiers that the catalogue shows of a source.\<close>

definition shown_ids :: "catalog \<Rightarrow> string \<Rightarrow> string set" where
  "shown_ids ct source = crUpstreamAssetID ` {r \<in> set (ctAssets ct). crSourceKey r = source
     \<and> crDatasourceKind r = immichKind \<and> crVisibilityStatus r = MirrorVisibilityActive}"

lemma shown_after_full:
  assumes "ReplaceFull source assets limit started windowEnd now ct = (Inr result, ct')" and "trim_space source = source"
    and "\<forall>m\<in>set assets. staged m \<and> trim_space (maUpstreamAssetID m) = maUpstreamAssetID m"
  shows "shown_ids ct' source = maUpstreamAssetID ` set assets"
    and "crSourceKey r \<noteq> source \<Longrightarrow> r \<in> set (ctAssets ct') \<longleftrightarrow> r \<in> set (ctAssets ct)"
proof -
  let ?hidden = "if 0 < limit then MirrorVisibilityOutOfScope else MirrorVisibilityMissing"
  from ReplaceFull_rows [OF assms(1,2)] obtain stage where
      st: "ctAssets ct' = applyStage source now stage (hideAbsent source now ?hidden stage (ctAssets ct))"
        "distinct (map sgUpstreamAssetID stage)"
        "\<forall>s\<in>set stage. \<exists>m\<in>set assets. staged m \<and> sgUpstreamAssetID s = trim_space (maUpstreamAssetID m)
           \<and> withoutCanonical (sgColumns s) = withoutCanonical (columnsOf m)"
        "\<forall>m\<in>set assets. staged m \<longrightarrow> (\<exists>s\<in>set stage. sgUpstreamAssetID s = trim_space (maUpstreamAssetID m))" .
  note rows = full_rows [OF st(2), where source = source and now = now and hidden = ?hidden and rows = "ctAssets ct", folded st(1)]
  have ids: "sgUpstreamAssetID ` set stage = maUpstreamAssetID ` set assets"
  proof
    show "sgUpstreamAssetID ` set stage \<subseteq> maUpstreamAssetID ` set assets"
    proof
      fix x assume "x \<in> sgUpstreamAssetID ` set stage"
      then obtain s where "s \<in> set stage" "x = sgUpstreamAssetID s" by auto
      with st(3) obtain m where "m \<in> set assets" "x = trim_space (maUpstreamAssetID m)" by metis
      then show "x \<in> maUpstreamAssetID ` set assets" using assms(3) by auto
    qed
    show "maUpstreamAssetID ` set assets \<subseteq> sgUpstreamAssetID ` set stage"
    proof
      fix x assume "x \<in> maUpstreamAssetID ` set assets"
      then obtain m where m: "m \<in> set assets" "x = maUpstreamAssetID m" by auto
      then obtain s where "s \<in> set stage" "sgUpstreamAssetID s = x" using st(4) assms(3) by metis
      then show "x \<in> sgUpstreamAssetID ` set stage" by auto
    qed
  qed
  have "shown_ids ct' source = sgUpstreamAssetID ` set stage"
  proof
    show "shown_ids ct' source \<subseteq> sgUpstreamAssetID ` set stage"
    proof
      fix x assume "x \<in> shown_ids ct' source"
      then obtain r where r: "r \<in> set (ctAssets ct')" "crSourceKey r = source" "crDatasourceKind r = immichKind"
          "crVisibilityStatus r = MirrorVisibilityActive" "x = crUpstreamAssetID r" by (auto simp: shown_ids_def)
      show "x \<in> sgUpstreamAssetID ` set stage"
      proof (rule ccontr)
        assume "x \<notin> sgUpstreamAssetID ` set stage"
        then have "\<forall>s\<in>set stage. sgUpstreamAssetID s \<noteq> crUpstreamAssetID r" using r(5) by (metis image_eqI)
        then have "crVisibilityStatus r = ?hidden" by (rule rows(3) [OF r(1-3)])
        then show False using r(4) visibilities by (simp split: if_splits)
      qed
    qed
    show "sgUpstreamAssetID ` set stage \<subseteq> shown_ids ct' source"
    proof
      fix x assume "x \<in> sgUpstreamAssetID ` set stage"
      then obtain s where s: "s \<in> set stage" "x = sgUpstreamAssetID s" by auto
      then obtain r where r: "r \<in> set (ctAssets ct')" "is_row source x r" using rows(1) by blast
      then show "x \<in> shown_ids ct' source"
        using rows(2) [OF s(1) r(1)] s(2) by (auto simp: shown_ids_def is_row_def shows_columns_def intro!: image_eqI [of _ _ r])
    qed
  qed
  then show "shown_ids ct' source = maUpstreamAssetID ` set assets" using ids by simp
  show "r \<in> set (ctAssets ct') \<longleftrightarrow> r \<in> set (ctAssets ct)" if "crSourceKey r \<noteq> source" using rows(4) that by blast
qed


section \<open>The mirror\<close>


text \<open>
  A synchronization that fails changes nothing, so the next one reads the same window again; one that succeeds
  moves the cursor to the time that the server told before it was read.
\<close>

theorem sync_moves_cursor_or_nothing:
  assumes "syncMirrorDatasource fuel sv c ds mode started now ct = Some (r, ct')" and "source = trim_space (dsSourceKey ds)"
  shows "(\<exists>e. r = Inl e) \<and> ct' = ct \<or> (\<exists>result windowEnd. r = Inr result \<and> immichMirrorWindowEnd sv = Inr windowEnd
    \<and> immichMirrorUpdatedAfter ct' source = (if is_zero windowEnd then Inl ErrReconciliationRequired else Inr (Some windowEnd)))"
  by (rule sync_cursor [OF assms])

section \<open>An example\<close>

text \<open>A server that answers with everything on one page.\<close>

definition list_server :: "gotime \<Rightarrow> immich_asset list \<Rightarrow> mirror_server" where
  "list_server t items =
     \<lparr>svPing = Some \<lparr>prStatus = 200, prAge = [], prDate = Some t\<rparr>,
      svPage = (\<lambda>n r. Some (200, Some \<lparr>spItems = filter (\<lambda>a. inScope r a \<and> takenBefore (\<le>) r a) items, spNextPage = None\<rparr>)),
      svDetail = (\<lambda>n sid. case List.find (\<lambda>a. iaID a = sid) items of None \<Rightarrow> None | Some a \<Rightarrow> Some (200, Some a))\<rparr>"

lemma list_server_honest:
  assumes "good_library (set items)"
  shows "honest_server (list_server t items) (\<lambda>_. set items) (\<lambda>a. a)" and "answering_server (list_server t items)"
    and "immichMirrorWindowEnd (list_server t items) = Inr t"
proof -
  show "honest_server (list_server t items) (\<lambda>_. set items) (\<lambda>a. a)"
    using assms by (auto simp: honest_server_def list_server_def read_answer_def good_page_def takenBefore_def
        find_Some_iff split: option.splits)
  show "answering_server (list_server t items)"
    by (simp add: answering_server_def list_server_def read_answer_def)
  have "trim_space [] = []" by code_simp
  then show "immichMirrorWindowEnd (list_server t items) = Inr t"
    by (simp add: immichMirrorWindowEnd_def list_server_def)
qed

definition ex_photo :: immich_asset where
  "ex_photo = \<lparr>iaID = ''a1'', iaType = ''IMAGE'', iaOriginalFileName = ''beach.jpg'', iaFileCreatedAt = 1000, iaUpdatedAt = Some 2000,
     iaDuration = None, iaIsArchived = False, iaIsTrashed = False, iaIsFavorite = True, iaChecksum = [], iaOriginalPath = [],
     iaFileSizeInByte = RawInt 5, iaFileSize = RawNone, iaVisibility = ''timeline'', iaDeletedAt = None, iaTrashedAt = None,
     iaExifInfo = None\<rparr>"

definition ex_hidden :: immich_asset where
  "ex_hidden = ex_photo\<lparr>iaID := ''a2'', iaVisibility := ''hidden''\<rparr>"

definition ex_items :: "immich_asset list" where "ex_items = [ex_photo, ex_hidden]"
definition ex_server :: mirror_server where "ex_server = list_server 3000 ex_items"
definition ex_context :: mirror_context where
  "ex_context = \<lparr>mcSourceKey = ''home'', mcMappings = [], mcScopeKey = [], mcSHA1 = (\<lambda>_. []), mcLower = to_lower\<rparr>"
definition ex_datasource :: mirror_datasource where
  "ex_datasource = \<lparr>dsKind = ''immich_indexed'', dsSourceKey = ''home'', dsLatestAssetLimit = 0, dsMetadataDetailLimit = 0\<rparr>"
definition ex_catalog :: catalog where
  "ex_catalog = \<lparr>ctAssets = [], ctStates = (\<lambda>_. None), ctScopeKey = None, ctLocal = (\<lambda>_ _ _. None)\<rparr>"

lemma ex_library: "good_library (set ex_items)" "card (set ex_items) = 2"
proof -
  have "trim_space ''a1'' = ''a1''" "trim_space ''a2'' = ''a2''" by code_simp+
  then show "good_library (set ex_items)"
    by (auto simp: good_library_def ex_items_def ex_hidden_def ex_photo_def inj_on_def zero_time_def)
  have "ex_photo \<noteq> ex_hidden" by (simp add: ex_hidden_def ex_photo_def)
  then show "card (set ex_items) = 2" by (simp add: ex_items_def)
qed

lemma ex_sparse: "sparse_library (set ex_items)"
proof -
  have "card {a \<in> set ex_items. P a} \<le> 2" for P
    using card_mono [of "set ex_items" "{a \<in> set ex_items. P a}"] ex_library(2) by simp
  then have "card {a \<in> set ex_items. P a} < 1000" for P by (meson le_less_trans numeral_less_iff semiring_norm)
  then show ?thesis by (simp add: sparse_library_def immichMirrorMaxPageSize_def)
qed

lemma ex_settings:
  "dsLatestAssetLimit ex_datasource \<le> 0" "dsMetadataDetailLimit ex_datasource \<le> 0" "immichDatasourceIndexed ex_datasource"
  "trim_space (dsSourceKey ex_datasource) = ''home''" "scope_current ex_context ex_catalog" "\<not> is_zero 3000"
proof -
  have "trim_space [] = []" "trim_space ''home'' = ''home''" by code_simp+
  then show "dsLatestAssetLimit ex_datasource \<le> 0" "dsMetadataDetailLimit ex_datasource \<le> 0" "immichDatasourceIndexed ex_datasource"
      "trim_space (dsSourceKey ex_datasource) = ''home''" "scope_current ex_context ex_catalog" "\<not> is_zero 3000"
    by (simp_all add: ex_datasource_def ex_context_def scope_current_def immichDatasourceIndexed_def is_zero_def zero_time_def)
qed

lemma ex_server_honest: "honest_server ex_server (\<lambda>_. set ex_items) (\<lambda>a. a)" "answering_server ex_server"
  "immichMirrorWindowEnd ex_server = Inr 3000"
  using list_server_honest [OF ex_library(1), of 3000] by (simp_all add: ex_server_def)

lemma ex_mirrored: "mirrored_assets (set ex_items) = {ex_photo}"
proof -
  have "ShouldMirror ex_photo" by code_simp
  then show ?thesis by (auto simp: mirrored_assets_def ex_items_def ex_hidden_def ex_photo_def)
qed

lemma ex_full_sync:
  obtains result ct where "syncMirrorDatasource 5 ex_server ex_context ex_datasource ''full'' 4000 5000 ex_catalog = Some (Inr result, ct)"
    "immichMirrorUpdatedAfter ct ''home'' = Inr (Some 3000)"
proof -
  have "\<exists>result ct. syncMirrorDatasource 5 ex_server ex_context ex_datasource ''full'' 4000 5000 ex_catalog = Some (Inr result, ct)"
    by (rule full_sync_runs [where started = 4000 and now = 5000,
          OF ex_server_honest(1,2) ex_sparse ex_settings(1-3) ex_server_honest(3) ex_settings(5) refl])
      (auto simp: ex_library(2))
  then obtain result ct where r: "syncMirrorDatasource 5 ex_server ex_context ex_datasource ''full'' 4000 5000 ex_catalog = Some (Inr result, ct)"
    by blast
  then have "immichMirrorUpdatedAfter ct ''home'' = Inr (Some 3000)"
    using sync_cursor [OF r refl] ex_server_honest(3) ex_settings(4,6) by auto
  with r show ?thesis by (rule that)
qed


theorem sync_moves_cursor_or_nothing_witness:
  "\<exists>result ct. syncMirrorDatasource 5 ex_server ex_context ex_datasource ''full'' 4000 5000 ex_catalog = Some (Inr result, ct)
    \<and> immichMirrorUpdatedAfter ct ''home'' = Inr (Some 3000)"
proof (rule ex_full_sync)
  fix result ct assume r: "syncMirrorDatasource 5 ex_server ex_context ex_datasource ''full'' 4000 5000 ex_catalog = Some (Inr result, ct)"
  then show ?thesis using sync_moves_cursor_or_nothing [OF r refl] ex_server_honest(3) ex_settings(4,6) by auto
qed

definition ex_options :: fetch_options where
  "ex_options = \<lparr>foLatestAssetLimit = 0, foUpdatedAfter = Some 2000, foUpdatedBefore = Some 3000, foVisibility = ''hidden'',
     foDetailLimit = 0\<rparr>"

lemma ex_fetch: "fetchImmichMirrorAssets 1 ex_server ex_context ex_options 0
    = Some (Inr \<lparr>fsRequests = 1, fsAssets = [excludedAsset ex_hidden], fsIndexes = (\<lambda>_. None), fsDetails = 0\<rparr>)"
proof -
  have scope: "inScope (pageRequest (newPager ex_options)) ex_hidden" "\<not> inScope (pageRequest (newPager ex_options)) ex_photo"
    by code_simp+
  have "\<not> ShouldMirror ex_hidden" "trim_space (iaID ex_hidden) \<noteq> []" by code_simp+
  with scope show ?thesis
    by (simp add: fetchImmichMirrorAssets_def fetchPages.simps pager_next_def read_answer_def continuePage_def freshItems_def
        ex_server_def list_server_def ex_items_def fetchItem_def newPager_def takenBefore_def pageRequest_def present_def
        ex_options_def is_zero_def zero_time_def)
qed




end
