(* ===== verification/Spec2Isabelle.thy ===== *)
theory Spec2Isabelle
  imports Atomicfile State Profile_Theorems Upload_Commit Registry_Theorems Link_Theorems Tokens Control_Token Pairing_Theorems
    Upload_Theorems Upload_Locks Lifecycle Semantic_Index Media_Theorems Asset_Id Mirror_Theorems
begin

text \<open>
  A verification library for \<open>timich-agent\<close>, the Go program that serves a user's photo
  library from their own computer to paired phones.

  \<^bold>\<open>The program.\<close> An administrator pairs phones with the agent (\<open>internal/pairing\<close>, over
  the registry of devices in \<open>internal/store/device_registry.go\<close> and the nearby links in
  \<open>nearby_link.go\<close>), the agent issues access tokens (\<open>internal/security\<close>) and proves its
  own identity to a relay with a signed token (\<open>packages/contracts/controlplane/auth.go\<close>).
  Phones upload originals in resumable sessions; a database of sessions and of what has been
  uploaded (\<open>internal/store/upload_store.go\<close>, \<open>upload_ledger.go\<close>, \<open>upload_cleanup.go\<close>)
  makes every original arrive once, and the runtime (\<open>internal/runtime/upload_runtime.go\<close>) moves it to its
  place below an upload root. Files the agent rewrites are replaced atomically
  (\<open>internal/atomicfile\<close>). The catalogue mirrors the libraries of Immich servers
  (\<open>internal/catalog/immich_mirror_pager.go\<close>, \<open>catalog_store.go\<close>, \<open>service.go\<close>) and finds media by what they
  show, over an index that the agent builds and searches itself
  (\<open>internal/catalog/semantic_index_builder.go\<close>, \<open>semantic_binary_index.go\<close>). Media go to the phones over WebRTC
  sessions, each under a token and, through a relay, a lease (\<open>internal/webrtcmedia/authorization.go\<close>); the
  identifiers of assets that the phones see are sealed (\<open>internal/runtime/asset_id.go\<close>).

  \<^bold>\<open>Foundations.\<close>
  \<^item> \<open>Prelude\<close>: Go strings, times and list operations, and the locale \<open>machine\<close> of state
    machines with an inductive invariant. \<open>Codec\<close>: hexadecimal and base64, with the locale
    \<open>codec\<close> of an encoding that can be undone, and the random identifiers of \<open>state.go\<close>.
    \<open>Paths\<close>: Go's \<open>path\<close> and \<open>path/filepath\<close>.
  \<^item> \<open>Atomicfile\<close>: \<open>WriteFile\<close> as the sequence of its system calls, faults and crashes; the
    locale \<open>atomic_file\<close> is what the stores rely on.
  \<^item> \<open>Lifecycle\<close>: the groups of \<open>internal/lifecycle\<close> that admit work, close and wait for it.

  \<^bold>\<open>Devices and tokens.\<close>
  \<^item> \<open>Registry\<close>, \<open>Nearby_Link\<close>: each method of \<open>DeviceRegistryStore\<close> as a function from
    the store (the registry in memory and its file) to a result and a new store.
    \<open>Registry_Machine\<close>: the step relation of all the operations and restarts, its invariant,
    and \<open>machine\<close> interpreted on it. \<open>Registry_Theorems\<close>, \<open>Link_Theorems\<close>: the limits of
    the registry, guessing bounds, rotation of refresh tokens and its retry, failed writes,
    restarts, and that only an approved link pairs a device.
  \<^item> \<open>Tokens\<close>, \<open>Control_Token\<close>: minting and verifying the two kinds of tokens, the round
    trip and that nothing else is accepted. \<open>Asset_Id\<close>: the same for the identifiers of assets.
  \<^item> \<open>Pairing\<close>, \<open>Pairing_Theorems\<close>: the service that joins registry and tokens; the
    sessions it issues work, and stop working when the device is revoked.
  \<^item> \<open>Profile\<close>, \<open>State\<close>: the upload policies of the
    devices and the agent's identity, each in a file of its own; a policy and an identity
    survive faults and restarts.

  \<^bold>\<open>Uploads.\<close>
  \<^item> \<open>Upload_Store\<close>: the tables of the database and each method of \<open>UploadStore\<close>.
    \<open>Upload_Machine\<close>: the step relation of the database, its invariant (keys, uniqueness,
    foreign keys, agreement of a session with its ledger row). \<open>Upload_Theorems\<close>: the
    database refines a once-only ledger, an uploaded asset is final, a commit goes through,
    progress is a compare-and-swap, and cleanup and reset remove exactly what they may.
  \<^item> \<open>Upload_Paths\<close>, \<open>Upload_Path_Theorems\<close>: where an original is stored below its upload
    root, for every order in which the tokens of the pattern are replaced.
  \<^item> \<open>Upload_Files\<close>: a file system with directories and hard links, and the helpers that
    read and change the upload roots, with the system calls that may fail.
    \<open>Upload_Agent\<close>, \<open>Upload_Runtime\<close>, \<open>Upload_Admin\<close>: the state of the agent that uploads
    read and change, and every upload operation of \<open>internal/runtime\<close>. \<open>Upload_Frame\<close>: the
    files that no operation touches. \<open>Upload_Safety\<close>: no operation changes a file that was stored.
    \<open>Upload_Commit\<close>: an upload that is reported as complete is stored with its bytes.
  \<^item> \<open>Upload_Locks\<close>: the reference-counted locks of uploads, interleaved stage by stage: they exclude,
    their entries are counted exactly, and the operations that take two of them finish.

  \<^bold>\<open>The mirror of an Immich library.\<close>
  \<^item> \<open>Mirror_Asset\<close>: upstream assets and what the agent makes of them. \<open>Mirror_Pager\<close>: the pager of
    \<open>immich_mirror_pager.go\<close> and the loop that fetches a library. \<open>Mirror_Fetch\<close>: although the library may
    change between two requests, every asset that stays is found, and a library that stays as it is is read in
    at most three more requests than it has assets, so this fuel is enough.
  \<^item> \<open>Mirror_Store\<close>: the rows of the catalogue, \<open>ReplaceFull\<close>, \<open>MergeIncremental\<close>, the cursor and
    \<open>syncMirrorDatasource\<close>. \<open>Mirror_Sync\<close>: the step relation of a library that changes and synchronizations
    that run or fail, with \<open>machine\<close> interpreted on it. \<open>Mirror_Theorems\<close>: the claims, and a server to which
    they apply.

  \<^bold>\<open>The semantic index.\<close>
  \<^item> \<open>Semantic_File\<close>, \<open>Semantic_File_Theorems\<close>: the bytes of the index file, its reader with all
    its validation, and that what is accepted can be read within bounds.
  \<^item> \<open>Semantic_Heap\<close>, \<open>Semantic_Search\<close>, \<open>Semantic_Search_Theorems\<close>: the search over an opened index,
    with the arithmetic of 32-bit floats as a parameter: every reachable node is visited once, the best first.
  \<^item> \<open>Semantic_Builder\<close>: the build database, insertion of nodes, pruning, the forced chain, transactions
    that fail and resume, and the writer. \<open>Semantic_Graph\<close>, \<open>Semantic_Build\<close>: what building keeps of
    the graph, and that an interrupted build resumes to the same graph. \<open>Semantic_Write\<close>, \<open>Semantic_Index\<close>: the written file
    is read back as the graph that was built, and a search over it finds the assets.

  \<^bold>\<open>Media sessions.\<close>
  \<^item> \<open>Media_Lease\<close>: sessions, leases and requests as functions on the manager. \<open>Media_Machine\<close>: its critical
    sections in any order, with timers that may fire at any time and a wall clock that may be set.
    \<open>Media_Theorems\<close>: media are served only under a valid token and lease, what has ended stays ended, leases
    are counted, and revocation and denial close the right sessions.

  \<^bold>\<open>Modelling.\<close> A method that takes the store's mutex is one atomic function, and a run of the
  program is a sequence of such functions in any order; where the code gives a lock up in between, as in the
  upload locks, the lifecycle groups and the media sessions, each section is a step of its own. Time, random draws, the outcome of
  system calls, the answers of servers, and the cryptographic and JSON libraries are arguments. A loop over a list
  is a structural recursion; a loop that draws random codes is bounded by the number of
  tries in the code; searches and insertions recurse on what is left to visit; only the loop that reads a library has fuel, since a server that
  answers for ever is read for ever. Go's \<open>time.Duration\<close> overflow is outside the
  range of dates the agent can see, except where a definition wraps explicitly. Tables of SQLite are lists of rows
  or maps, a transaction that fails rolls back, and failures of SQLite itself are left out.

  \<^bold>\<open>Not modelled.\<close> The HTTP layers and web pages, the rest of the catalogue (local files and their scan,
  thumbnails, canonical assets, schema migration), the schedulers of background work, peer connections over the
  Pion library, the supervised helper processes, configuration parsing and the build tools: they are wiring around
  libraries or wide tables of SQL.
\<close>

end
